(* ===== verification/Prelude.thy ===== *)
theory Prelude
  imports Main "HOL-Library.Word" "HOL-Library.Multiset"
begin

text \<open>
  Shared vocabulary of the AIC8800 driver development: the fixed-width integers of the C
  sources, the interface types of cfg80211 the driver dispatches on, the faults a C function
  can run into (out-of-range accesses, kernel BUG traps), the lookup in a bounded array, and
  the generic lemmas the component theories share.
\<close>

unbundle bit_operations_syntax

named_theorems wf_intros \<open>preservation of the component invariants\<close>

section \<open>Machine integers\<close>

type_synonym u8 = "8 word"
type_synonym u16 = "16 word"
type_synonym u32 = "32 word"
type_synonym u64 = "64 word"

text \<open>A socket buffer is the byte sequence from \<open>skb->data\<close> of length \<open>skb->len\<close>.\<close>

type_synonym skb = "u8 list"

text \<open>\<open>put_u16\<close> of rwnx_cmds.h: a 16-bit value as two little-endian bytes.\<close>

definition put_u16 :: "u16 \<Rightarrow> u8 list" where
  "put_u16 data = [ucast (data AND 0x00ff), ucast (drop_bit 8 data AND 0x00ff)]"

definition get_u16 :: "u8 \<Rightarrow> u8 \<Rightarrow> u16" where
  "get_u16 lo hi = ucast lo OR push_bit 8 (ucast hi)"

lemma length_put_u16 [simp]: "length (put_u16 d) = 2"
  by (simp add: put_u16_def)

lemma get_put_u16: "get_u16 (put_u16 d ! 0) (put_u16 d ! 1) = d"
proof -
  have m: "(0x00ff :: u16) = mask 8"
    by (simp add: mask_eq_exp_minus_1)
  show ?thesis
    unfolding get_u16_def put_u16_def m
    by (rule bit_word_eqI) (auto simp: bit_simps bit_unsigned_iff)
qed

section \<open>Faults\<close>

text \<open>
  The ways a C function leaves defined behaviour in the sources modelled here: an access
  outside an array or buffer, a \<open>memcpy\<close> with a negative length, a null dereference, a
  \<open>BUG\<close>/\<open>BUG_ON\<close> trap, and freeing memory with the wrong function.
\<close>

datatype fault =
    OutOfBounds
  | BadMemcpy
  | NullDeref
  | KernelBug
  | InvalidFree

definition array_get :: "'a list \<Rightarrow> nat \<Rightarrow> fault + 'a" where
  "array_get xs i = (if i < length xs then Inr (xs ! i) else Inl OutOfBounds)"

lemma array_get_Inr_iff [simp]: "array_get xs i = Inr x \<longleftrightarrow> i < length xs \<and> xs ! i = x"
  by (auto simp: array_get_def)

lemma array_get_Inl_iff [simp]: "array_get xs i = Inl e \<longleftrightarrow> \<not> i < length xs \<and> e = OutOfBounds"
  by (auto simp: array_get_def)

lemma array_get_nth: "i < length xs \<Longrightarrow> array_get xs i = Inr (xs ! i)"
  by simp

section \<open>The state of the USB bus\<close>

datatype aicwf_usb_state = USB_DOWN_ST | USB_UP_ST | USB_SLEEP_ST

section \<open>Interface types\<close>

text \<open>\<open>enum nl80211_iftype\<close>, the members the driver distinguishes.\<close>

datatype nl80211_iftype =
    IFTYPE_UNSPECIFIED
  | IFTYPE_ADHOC
  | IFTYPE_STATION
  | IFTYPE_AP
  | IFTYPE_AP_VLAN
  | IFTYPE_WDS
  | IFTYPE_MONITOR
  | IFTYPE_MESH_POINT
  | IFTYPE_P2P_CLIENT
  | IFTYPE_P2P_GO
  | IFTYPE_P2P_DEVICE

section \<open>Lists\<close>

lemma sorted_wrt_takeWhile_dropWhile:
  assumes "sorted_wrt R xs" and "x \<in> set (takeWhile P xs)" and "y \<in> set (dropWhile P xs)"
  shows "R x y"
proof -
  have "sorted_wrt R (takeWhile P xs @ dropWhile P xs)"
    using assms(1) by simp
  then show ?thesis
    using assms(2,3) unfolding sorted_wrt_append by blast
qed

lemma insort_takeWhile:
  "sorted_wrt (<) ps \<Longrightarrow> s \<notin> set ps \<Longrightarrow>
     takeWhile (\<lambda>p. p < s) ps @ s # dropWhile (\<lambda>p. p < s) ps = insort (s :: nat) ps"
  by (induction ps) auto

lemma sorted_wrt_insort:
  "sorted_wrt (<) ps \<Longrightarrow> s \<notin> set ps \<Longrightarrow> sorted_wrt (<) (insort (s :: nat) ps)"
  by (induction ps) (auto simp: set_insort_key)

lemma sorted_takeWhile_filter:
  "sorted_wrt (<) ps \<Longrightarrow> takeWhile (\<lambda>p. p \<le> n) ps = filter (\<lambda>p. p \<le> (n :: nat)) ps"
  by (induction ps) (auto intro!: filter_False [symmetric])

lemma sorted_dropWhile_filter:
  "sorted_wrt (<) ps \<Longrightarrow> dropWhile (\<lambda>p. p \<le> n) ps = filter (\<lambda>p. n < (p :: nat)) ps"
  by (induction ps) (auto intro!: filter_True [symmetric])

lemma add_balance:
  fixes a b :: "'a :: cancel_comm_monoid_add"
  assumes "a + x = b + y" and "y + z = x + w"
  shows "a + z = b + w"
proof -
  have "(a + z) + (x + y) = (a + x) + (y + z)" by (simp add: ac_simps)
  also have "\<dots> = (b + w) + (x + y)" by (simp add: assms ac_simps)
  finally show ?thesis by simp
qed

lemma nth_list_update_if: "j < length xs \<Longrightarrow> xs[i := y] ! j = (if i = j then y else xs ! j)"
  by (simp add: nth_list_update)

lemma nth_list_update_cases: "xs[i := y] ! j = (if i = j \<and> j < length xs then y else xs ! j)"
  by (induction xs arbitrary: i j) (auto simp: nth_Cons split: nat.splits)

lemma mset_concat_update:
  "i < length xs \<Longrightarrow>
     mset (concat (map g (xs[i := y]))) + mset (g (xs ! i)) = mset (concat (map g xs)) + mset (g y)"
proof (induction xs arbitrary: i)
  case (Cons x xs)
  show ?case
  proof (cases i)
    case (Suc j)
    then show ?thesis using Cons.IH [of j] Cons.prems by (simp add: add.assoc)
  qed simp
qed simp

lemma sorted_wrt_dropWhile: "sorted_wrt R xs \<Longrightarrow> sorted_wrt R (dropWhile P xs)"
  by (metis sorted_wrt_append takeWhile_dropWhile_id)

lemma sorted_wrt_takeWhile: "sorted_wrt R xs \<Longrightarrow> sorted_wrt R (takeWhile P xs)"
  by (metis sorted_wrt_append takeWhile_dropWhile_id)

text \<open>\<open>list_del\<close> of the entry at a position.\<close>

definition remove_nth :: "nat \<Rightarrow> 'a list \<Rightarrow> 'a list" where
  "remove_nth i xs = take i xs @ drop (Suc i) xs"

lemma remove_nth_facts:
  assumes "i < length xs"
  shows "mset xs = add_mset (xs ! i) (mset (remove_nth i xs))" "list_all P xs \<Longrightarrow> list_all P (remove_nth i xs) \<and> P (xs ! i)"
    "length xs = Suc (length (remove_nth i xs))"
proof -
  have "xs = take i xs @ xs ! i # drop (Suc i) xs" using assms by (rule id_take_nth_drop)
  then have "mset xs = mset (take i xs @ xs ! i # drop (Suc i) xs)" by simp
  then show "mset xs = add_mset (xs ! i) (mset (remove_nth i xs))" unfolding remove_nth_def by simp
  then show "length xs = Suc (length (remove_nth i xs))" by (metis size_add_mset size_mset)
  show "list_all P (remove_nth i xs) \<and> P (xs ! i)" if "list_all P xs"
    using that assms by (auto simp: remove_nth_def list_all_iff dest: in_set_takeD in_set_dropD)
qed

section \<open>Serial numbers\<close>

text \<open>
  Wrapping sequence numbers compared by the sign of their difference: \<open>sn\<close> truncates an
  unbounded number to a wire value, and \<open>less\<close> decides the order of two wire values whose
  unbounded numbers are less than half the number space apart.
\<close>

locale serial_number =
  fixes less :: "'a \<Rightarrow> 'a \<Rightarrow> bool" and sn :: "nat \<Rightarrow> 'a" and half :: nat
  assumes less_sn: "a < b + half \<Longrightarrow> b \<le> a + half \<Longrightarrow> less (sn a) (sn b) \<longleftrightarrow> a < b"
    and sn_eq: "a < b + half \<Longrightarrow> b \<le> a + half \<Longrightarrow> sn a = sn b \<longleftrightarrow> a = b"
begin

lemma less_sn_trans:
  assumes "less (sn a) (sn b)" and "less (sn b) (sn c)"
    and "a \<le> b + half \<and> b \<le> a + half" and "b \<le> c + half \<and> c \<le> b + half"
    and "c \<le> a + half" and "a < b + half" and "b < c + half"
  shows "less (sn a) (sn c)"
  using assms less_sn [of a b] less_sn [of b c] less_sn [of a c] by simp

lemma takeWhile_less_sn:
  assumes "\<forall>p\<in>set ps. p < s + half \<and> s \<le> p + half"
  shows "takeWhile (\<lambda>x. less x (sn s)) (map sn ps) = map sn (takeWhile (\<lambda>p. p < s) ps)"
  using assms by (induction ps) (auto simp: less_sn)

lemma takeWhile_not_less_sn:
  assumes "\<forall>p\<in>set ps. n < p + half \<and> p \<le> n + half"
  shows "takeWhile (\<lambda>x. \<not> less (sn n) x) (map sn ps) = map sn (takeWhile (\<lambda>p. p \<le> n) ps)"
  using assms by (induction ps) (auto simp: less_sn not_less)

end

section \<open>Transition systems\<close>

text \<open>
  The contract between a component and the clients of its invariant: the invariant holds
  initially and every step keeps it, so it holds along every run.
\<close>

locale transition_system =
  fixes init :: "'s \<Rightarrow> bool" and step :: "'s \<Rightarrow> 's \<Rightarrow> bool" and inv :: "'s \<Rightarrow> bool"
  assumes init_inv: "init s \<Longrightarrow> inv s"
    and step_inv: "inv s \<Longrightarrow> step s t \<Longrightarrow> inv t"
begin

lemma run_inv: "step\<^sup>*\<^sup>* s t \<Longrightarrow> inv s \<Longrightarrow> inv t"
  by (induction rule: rtranclp_induct) (auto intro: step_inv)

lemma reachable_inv: "init s \<Longrightarrow> step\<^sup>*\<^sup>* s t \<Longrightarrow> inv t"
  by (blast intro: run_inv init_inv)

end

section \<open>Widths\<close>

lemma unat_u32_less: "unat (w :: u32) < 4294967296"
proof -
  have "unat w < 2 ^ LENGTH(32)" by (rule unsigned_less)
  then show ?thesis by simp
qed

lemma unat_of_nat_u32: "n < 4294967296 \<Longrightarrow> unat (of_nat n :: u32) = n"
  by (simp add: unsigned_of_nat take_bit_nat_eq_self)

lemma unat_ucast_u64 [simp]: "unat (ucast (w :: u32) :: u64) = unat w"
proof -
  have "unat w < 2 ^ 64" by (rule less_trans [OF unat_u32_less]) simp
  then show ?thesis by (simp add: unsigned_ucast_eq take_bit_nat_eq_self)
qed

end
