(* ===== verification/RxReorder.thy ===== *)
theory RxReorder
  imports Prelude
begin

text \<open>
  The receive path behind the USB bus (rwnx_rx.c): the de-aggregation of A-MSDUs
  (\<open>rwnx_rxdata_process_amsdu\<close>) and the block-ack reordering of received MPDUs
  (\<open>reord_*\<close>). The receive context \<open>aicwf_rx_priv\<close> is a record that is passed through every
  operation; the buffers handed to the network stack or released are the events of its log,
  in the order of the calls. A frame descriptor (\<open>struct recv_msdu\<close>) carries its address
  \<open>rf_addr\<close>, so that the free queue and the pending lists can be compared as sets of
  descriptors. Accesses outside a C array are faults.
\<close>

section \<open>Sequence numbers\<close>

text \<open>\<open>SN_LESS\<close> and \<open>SN_EQUAL\<close> of aicwf_txrxif.h: bit 11 of the difference.\<close>

definition SN_LESS :: "u16 \<Rightarrow> u16 \<Rightarrow> bool" where
  "SN_LESS a b \<longleftrightarrow> (a - b) AND 0x800 \<noteq> 0"

definition SN_EQUAL :: "u16 \<Rightarrow> u16 \<Rightarrow> bool" where
  "SN_EQUAL a b \<longleftrightarrow> a = b"

section \<open>State\<close>

text \<open>
  \<open>struct recv_msdu\<close>. The chains \<open>first_fwd_skb\<close> and \<open>first_resend_skb\<close>, linked through
  \<open>skb->next\<close>, are the lists of their buffers.
\<close>

record recv_msdu =
  rf_addr :: nat
  pkt :: "skb option"
  tid :: u8
  forward :: u8
  seq_num :: u16
  is_amsdu :: u8
  is_ap_reord :: u8
  ap_fwd_cnt :: u8
  ap_resend_cnt :: u8
  rx_data :: "u8 list"
  fwd_skbs :: "skb list"
  resend_skbs :: "skb list"

record reord_ctrl =
  enable :: bool
  ind_sn :: u16
  wsize_b :: u8
  reord_list :: "recv_msdu list"
  timer_pending :: bool
  work_pending :: bool

record reord_ctrl_info =
  mac_addr :: "u8 list"
  preorder_ctrl :: "reord_ctrl list"

datatype rx_event =
    NetifReceiveSkb skb
  | ArpOffloadProc skb
  | FilterRxTcpAck skb
  | DevKfreeSkb skb

text \<open>
  \<open>struct aicwf_rx_priv\<close> with what the functions read of the rest of the driver: the bus and
  device state, the interface the frame was received on (its type and whether
  \<open>rwnx_rx_get_vif\<close> finds it), and the environment's memory: \<open>skb_mem\<close> is the number of
  buffer allocations that still succeed, \<open>kmalloc_ok\<close> whether \<open>kmalloc\<close> does.
\<close>

record rx_priv =
  bus_down :: bool
  usb_down :: bool
  iftype :: nl80211_iftype
  vif_found :: bool
  skb_mem :: nat
  kmalloc_ok :: bool
  rx_packets :: u64
  rx_bytes :: u64
  rxframes_freequeue :: "recv_msdu list"
  stas_reord_list :: "reord_ctrl_info list"
  rx_log :: "rx_event list"

abbreviation (input) AICWF_REORDER_WINSIZE :: u8 where
  "AICWF_REORDER_WINSIZE \<equiv> 64"

definition log_rx :: "rx_event list \<Rightarrow> rx_priv \<Rightarrow> rx_priv" where
  "log_rx es rx = rx\<lparr>rx_log := rx_log rx @ es\<rparr>"

section \<open>A-MSDU de-aggregation\<close>

text \<open>\<open>skb_pull\<close> of the kernel: no effect when more bytes are pulled than there are.\<close>

definition skb_pull :: "skb \<Rightarrow> nat \<Rightarrow> skb" where
  "skb_pull data n = (if n > length data then data else drop n data)"

definition roundup4 :: "nat \<Rightarrow> nat" where
  "roundup4 n = (n + 3) div 4 * 4"

definition amsdu_sublen :: "skb \<Rightarrow> nat" where
  "amsdu_sublen data = unat (data ! 12) * 256 + unat (data ! 13)"

definition amsdu_sub_skb :: "skb \<Rightarrow> nat \<Rightarrow> skb" where
  "amsdu_sub_skb data sublen = take 6 data @ take 6 (drop 6 data) @ take (sublen - 6) (drop 20 data)"

text \<open>
  The loop of \<open>rwnx_rxdata_process_amsdu\<close>. \<open>mem\<close> is the number of \<open>__dev_alloc_skb\<close> calls that
  still succeed; the loop leaves when an allocation fails. A length field below 6 makes the
  third \<open>memcpy\<close> copy \<open>sublen - 6 < 0\<close> bytes.
\<close>

fun amsdu_loop :: "nat \<Rightarrow> bool \<Rightarrow> skb \<Rightarrow> skb list \<Rightarrow> fault + nat \<times> skb list" where
  "amsdu_loop mem vif data list =
     (if length data > 16 then
        let sublen = amsdu_sublen data;
            len_alligned = (if length data > sublen + 14 then roundup4 (sublen + 14) mod 65536
                            else (sublen + 14) mod 65536)
        in if length data < sublen + 14 then Inr (mem, list)
           else (case mem of
                   0 \<Rightarrow> Inr (0, list)
                 | Suc mem' \<Rightarrow>
                     if sublen < 6 then Inl BadMemcpy
                     else if \<not> vif then Inr (mem', list)
                     else amsdu_loop mem' vif (skb_pull data len_alligned)
                            (list @ [amsdu_sub_skb data sublen]))
      else Inr (mem, list))"

declare amsdu_loop.simps [simp del]

definition rwnx_rxdata_process_amsdu :: "rx_priv \<Rightarrow> skb \<Rightarrow> fault + rx_priv \<times> skb list" where
  "rwnx_rxdata_process_amsdu rx skb =
     (case amsdu_loop (skb_mem rx) (vif_found rx) skb [] of
        Inl f \<Rightarrow> Inl f
      | Inr (mem, list) \<Rightarrow> Inr (log_rx [DevKfreeSkb skb] (rx\<lparr>skb_mem := mem\<rparr>), list))"

section \<open>Frame descriptors\<close>

definition reord_rxframe_free :: "rx_priv \<Rightarrow> recv_msdu \<Rightarrow> rx_priv" where
  "reord_rxframe_free rx f = rx\<lparr>rxframes_freequeue := f # rxframes_freequeue rx\<rparr>"

definition reord_rxframe_alloc :: "rx_priv \<Rightarrow> recv_msdu option \<times> rx_priv" where
  "reord_rxframe_alloc rx =
     (case rxframes_freequeue rx of
        [] \<Rightarrow> (None, rx)
      | f # q \<Rightarrow> (Some f, rx\<lparr>rxframes_freequeue := q\<rparr>))"

text \<open>The label \<open>fail\<close> of \<open>reord_process_unit\<close>: the buffer is released, the descriptor returned.\<close>

definition discard_frame :: "rx_priv \<Rightarrow> recv_msdu \<Rightarrow> rx_priv" where
  "discard_frame rx f = reord_rxframe_free
     (case pkt f of None \<Rightarrow> rx | Some s \<Rightarrow> log_rx [DevKfreeSkb s] rx) (f\<lparr>pkt := None\<rparr>)"

definition reord_ctrl_new :: reord_ctrl where
  "reord_ctrl_new = \<lparr>enable = True, ind_sn = 0xffff, wsize_b = AICWF_REORDER_WINSIZE,
     reord_list = [], timer_pending = False, work_pending = False\<rparr>"

definition reord_init_sta :: "rx_priv \<Rightarrow> u8 list \<Rightarrow> reord_ctrl_info option" where
  "reord_init_sta rx mac =
     (if bus_down rx then None
      else if \<not> kmalloc_ok rx then None
      else Some \<lparr>mac_addr = mac, preorder_ctrl = replicate 8 reord_ctrl_new\<rparr>)"

section \<open>Delivery\<close>

text \<open>The loop at the end of \<open>reord_single_frame_ind\<close>: one buffer handed to the stack.\<close>

definition netif_deliver :: "rx_priv \<Rightarrow> skb \<Rightarrow> rx_priv" where
  "netif_deliver rx skb =
     log_rx ((if iftype rx = IFTYPE_STATION \<or> iftype rx = IFTYPE_P2P_CLIENT
              then [ArpOffloadProc skb] else [])
             @ [FilterRxTcpAck skb, NetifReceiveSkb skb])
       (rx\<lparr>rx_packets := rx_packets rx + 1,
           rx_bytes := rx_bytes rx + of_nat (length skb)\<rparr>)"

definition netif_deliver_all :: "rx_priv \<Rightarrow> skb list \<Rightarrow> rx_priv" where
  "netif_deliver_all rx skbs = foldl netif_deliver rx skbs"

definition reord_single_frame_ind :: "rx_priv \<Rightarrow> recv_msdu \<Rightarrow> fault + int \<times> rx_priv" where
  "reord_single_frame_ind rx f =
     (case pkt f of
        None \<Rightarrow> Inr (-1, rx)
      | Some skb \<Rightarrow>
          let done = (\<lambda>r. Inr (0, reord_rxframe_free r (f\<lparr>pkt := None\<rparr>))) in
          if is_ap_reord f \<noteq> 0 then
            let rx1 = (if ap_resend_cnt f \<noteq> 0
                       then log_rx (map DevKfreeSkb (resend_skbs f)) rx else rx)
            in if ap_resend_cnt f \<noteq> 0 \<and> ap_fwd_cnt f = 0 then done rx1
               else done (netif_deliver_all rx1 (fwd_skbs f))
          else if forward f = 0 then done (log_rx [DevKfreeSkb skb] rx)
          else if is_amsdu f \<noteq> 0 then
            (case rwnx_rxdata_process_amsdu rx skb of
               Inl e \<Rightarrow> Inl e
             | Inr (rx1, list) \<Rightarrow> done (netif_deliver_all rx1 list))
          else done (netif_deliver_all rx [skb]))"

section \<open>The reorder window\<close>

fun reord_scan :: "u16 \<Rightarrow> recv_msdu list \<Rightarrow> u16 \<times> bool" where
  "reord_scan sn [] = (sn, False)"
| "reord_scan sn (f # fs) =
     (if \<not> SN_LESS sn (seq_num f)
      then reord_scan (if SN_EQUAL sn (seq_num f) then (sn + 1) AND 0xFFF else sn) fs
      else (sn, True))"

definition reord_rxframes_process :: "reord_ctrl \<Rightarrow> bool \<Rightarrow> reord_ctrl \<times> bool" where
  "reord_rxframes_process c bforced =
     (case reord_list c of
        [] \<Rightarrow> (c, False)
      | f # _ \<Rightarrow>
          let sn = (if bforced then seq_num f else ind_sn c);
              (sn', in_buf) = reord_scan sn (reord_list c)
          in (c\<lparr>ind_sn := sn'\<rparr>, in_buf))"

fun reord_ind_loop :: "rx_priv \<Rightarrow> u16 \<Rightarrow> recv_msdu list \<Rightarrow> fault + rx_priv \<times> recv_msdu list" where
  "reord_ind_loop rx sn [] = Inr (rx, [])"
| "reord_ind_loop rx sn (f # fs) =
     (if \<not> SN_LESS sn (seq_num f) then
        (case reord_single_frame_ind rx f of
           Inl e \<Rightarrow> Inl e
         | Inr (_, rx') \<Rightarrow> reord_ind_loop rx' sn fs)
      else Inr (rx, f # fs))"

definition reord_rxframes_ind :: "rx_priv \<Rightarrow> reord_ctrl \<Rightarrow> fault + rx_priv \<times> reord_ctrl" where
  "reord_rxframes_ind rx c =
     (case reord_ind_loop rx (ind_sn c) (reord_list c) of
        Inl e \<Rightarrow> Inl e
      | Inr (rx', fs) \<Rightarrow> Inr (rx', c\<lparr>reord_list := fs\<rparr>))"

text \<open>
  \<open>reord_need_check\<close>: -1 for a frame older than the window start, else 0; a frame beyond the
  window end moves the window. The window end is computed before the first frame
  initialises \<open>ind_sn\<close>.
\<close>

definition reord_need_check :: "reord_ctrl \<Rightarrow> u16 \<Rightarrow> reord_ctrl \<times> int" where
  "reord_need_check c sn =
     (let wsize = ucast (wsize_b c) :: u16;
          wend = (ind_sn c + wsize - 1) AND 0xFFF;
          c1 = (if ind_sn c = 0xFFFF then c\<lparr>ind_sn := sn\<rparr> else c)
      in if SN_LESS sn (ind_sn c1) then (c1, -1)
         else if SN_EQUAL sn (ind_sn c1) then (c1\<lparr>ind_sn := (ind_sn c1 + 1) AND 0xFFF\<rparr>, 0)
         else if SN_LESS wend sn then
           (if int (unat sn) \<ge> int (unat wsize) - 1
            then (c1\<lparr>ind_sn := sn - (wsize - 1)\<rparr>, 0)
            else (c1\<lparr>ind_sn := 0xFFF - (wsize - (sn + 1)) + 1\<rparr>, 0))
         else (c1, 0))"

fun reord_insert :: "recv_msdu list \<Rightarrow> recv_msdu \<Rightarrow> recv_msdu list option" where
  "reord_insert [] f = Some [f]"
| "reord_insert (g # gs) f =
     (if SN_LESS (seq_num g) (seq_num f) then map_option ((#) g) (reord_insert gs f)
      else if SN_EQUAL (seq_num g) (seq_num f) then None
      else Some (f # g # gs))"

definition reord_rxframe_enqueue :: "reord_ctrl \<Rightarrow> recv_msdu \<Rightarrow> reord_ctrl \<times> int" where
  "reord_rxframe_enqueue c f =
     (case reord_insert (reord_list c) f of
        None \<Rightarrow> (c, -1)
      | Some l \<Rightarrow> (c\<lparr>reord_list := l\<rparr>, 0))"

section \<open>Timers and flushing\<close>

definition reord_timeout_handler :: "rx_priv \<Rightarrow> reord_ctrl \<Rightarrow> reord_ctrl" where
  "reord_timeout_handler rx c = (if usb_down rx then c else c\<lparr>work_pending := True\<rparr>)"

definition reord_timeout_worker :: "rx_priv \<Rightarrow> reord_ctrl \<Rightarrow> fault + rx_priv \<times> reord_ctrl" where
  "reord_timeout_worker rx c =
     (let (c1, again) = reord_rxframes_process c True;
          c2 = (if again then c1\<lparr>timer_pending := True\<rparr> else c1)
      in reord_rxframes_ind rx c2)"

text \<open>The station address of a frame: destination on a client, source on an access point.\<close>

definition reord_mac :: "nl80211_iftype \<Rightarrow> skb \<Rightarrow> u8 list option" where
  "reord_mac ift data =
     (if ift = IFTYPE_STATION \<or> ift = IFTYPE_P2P_CLIENT then Some (take 6 data)
      else if ift = IFTYPE_AP \<or> ift = IFTYPE_P2P_GO then Some (take 6 (drop 6 data))
      else None)"

fun find_sta :: "reord_ctrl_info list \<Rightarrow> u8 list \<Rightarrow> nat option" where
  "find_sta [] mac = None"
| "find_sta (i # is) mac = (if mac_addr i = mac then Some 0 else map_option Suc (find_sta is mac))"

definition ctrl_get :: "rx_priv \<Rightarrow> nat \<Rightarrow> u8 \<Rightarrow> fault + reord_ctrl" where
  "ctrl_get rx i t = array_get (preorder_ctrl (stas_reord_list rx ! i)) (unat t)"

definition ctrl_put :: "rx_priv \<Rightarrow> nat \<Rightarrow> u8 \<Rightarrow> reord_ctrl \<Rightarrow> rx_priv" where
  "ctrl_put rx i t c =
     rx\<lparr>stas_reord_list := (stas_reord_list rx)[i :=
          (stas_reord_list rx ! i)\<lparr>preorder_ctrl :=
             (preorder_ctrl (stas_reord_list rx ! i))[unat t := c]\<rparr>]\<rparr>"

fun flush_loop :: "rx_priv \<Rightarrow> recv_msdu list \<Rightarrow> fault + rx_priv" where
  "flush_loop rx [] = Inr rx"
| "flush_loop rx (f # fs) =
     (case reord_single_frame_ind rx f of
        Inl e \<Rightarrow> Inl e
      | Inr (_, rx') \<Rightarrow> flush_loop rx' fs)"

definition reord_flush_tid :: "rx_priv \<Rightarrow> skb \<Rightarrow> u8 \<Rightarrow> fault + int \<times> rx_priv" where
  "reord_flush_tid rx skb t =
     (case reord_mac (iftype rx) skb of
        None \<Rightarrow> Inr (-1, log_rx [DevKfreeSkb skb] rx)
      | Some mac \<Rightarrow>
          (case find_sta (stas_reord_list rx) mac of
             None \<Rightarrow> Inr (0, rx)
           | Some i \<Rightarrow>
               (case ctrl_get rx i t of
                  Inl e \<Rightarrow> Inl e
                | Inr c \<Rightarrow>
                    if \<not> enable c then Inr (0, rx)
                    else (case flush_loop rx (reord_list c) of
                            Inl e \<Rightarrow> Inl e
                          | Inr rx' \<Rightarrow>
                              Inr (0, ctrl_put rx' i t
                                   (c\<lparr>reord_list := [], enable := False,
                                      timer_pending := False, work_pending := False\<rparr>))))))"

definition deinit_ctrl :: "rx_priv \<Rightarrow> reord_ctrl \<Rightarrow> rx_priv" where
  "deinit_ctrl rx c =
     foldl discard_frame rx (reord_list c)"

definition reord_deinit_sta :: "rx_priv \<Rightarrow> nat \<Rightarrow> rx_priv" where
  "reord_deinit_sta rx i =
     (let rx' = foldl deinit_ctrl rx (preorder_ctrl (stas_reord_list rx ! i))
      in rx'\<lparr>stas_reord_list := take i (stas_reord_list rx) @ drop (Suc i) (stas_reord_list rx)\<rparr>)"

section \<open>One received unit\<close>

text \<open>The part of \<open>reord_process_unit\<close> after the lookup of the station.\<close>

definition reord_process_ctrl ::
    "rx_priv \<Rightarrow> reord_ctrl \<Rightarrow> recv_msdu \<Rightarrow> fault + int \<times> rx_priv \<times> reord_ctrl" where
  "reord_process_ctrl rx c f =
     (if \<not> enable c then
        (case reord_single_frame_ind rx f of
           Inl e \<Rightarrow> Inl e
         | Inr (_, rx') \<Rightarrow> Inr (0, rx', c\<lparr>ind_sn := (seq_num f + 1) mod 4096\<rparr>))
      else case reord_need_check c (seq_num f) of (c1, r) \<Rightarrow>
        if r \<noteq> 0 then
          (case array_get (rx_data f) 42 of
             Inl e \<Rightarrow> Inl e
           | Inr b \<Rightarrow>
               if b = 0x80 \<and> seq_num f \<noteq> ind_sn c1 then
                 Inr (0, discard_frame rx f, c1)
               else (case reord_single_frame_ind rx f of
                       Inl e \<Rightarrow> Inl e
                     | Inr (_, rx') \<Rightarrow> Inr (0, rx', c1)))
        else
          (case reord_rxframe_enqueue c1 f of (c2, q) \<Rightarrow>
             if q \<noteq> 0 then
               Inr (0, discard_frame rx f, c2)
             else
               (case reord_rxframes_process c2 False of (c3, in_buf) \<Rightarrow>
                  (case reord_rxframes_ind rx (c3\<lparr>timer_pending := in_buf\<rparr>) of
                     Inl e \<Rightarrow> Inl e
                   | Inr (rx', c4) \<Rightarrow> Inr (0, rx', c4)))))"

definition reord_process_at ::
    "rx_priv \<Rightarrow> nat \<Rightarrow> u8 \<Rightarrow> reord_ctrl \<Rightarrow> recv_msdu \<Rightarrow> fault + int \<times> rx_priv" where
  "reord_process_at rx i t c f =
     (case reord_process_ctrl rx c f of
        Inl e \<Rightarrow> Inl e
      | Inr (r, rx', c') \<Rightarrow> Inr (r, ctrl_put rx' i t c'))"

definition frame_fill :: "recv_msdu \<Rightarrow> skb \<Rightarrow> u16 \<Rightarrow> u8 \<Rightarrow> u8 \<Rightarrow> u8 \<Rightarrow> recv_msdu" where
  "frame_fill f skb sn t fwd amsdu =
     f\<lparr>seq_num := sn, tid := t, rx_data := skb, pkt := Some skb, forward := fwd,
       is_amsdu := amsdu\<rparr>"

definition reord_process_unit ::
    "recv_msdu \<Rightarrow> rx_priv \<Rightarrow> skb \<Rightarrow> u16 \<Rightarrow> u8 \<Rightarrow> u8 \<Rightarrow> u8 \<Rightarrow> fault + int \<times> rx_priv" where
  "reord_process_unit f0 rx skb sn t fwd amsdu =
     (let f = frame_fill f0 skb sn t fwd amsdu in
      if length skb < 14 then Inl OutOfBounds
      else if (skb ! 12 = 0x88 \<and> skb ! 13 = 0x8e) \<or> (skb ! 0) AND 0x01 \<noteq> 0
      then reord_single_frame_ind rx f
      else (case reord_mac (iftype rx) skb of
              None \<Rightarrow> Inr (-1, log_rx [DevKfreeSkb skb] rx)
            | Some mac \<Rightarrow>
                (case find_sta (stas_reord_list rx) mac of
                   None \<Rightarrow>
                     (case reord_init_sta rx mac of
                        None \<Rightarrow>
                          (case reord_single_frame_ind rx f of
                             Inl e \<Rightarrow> Inl e
                           | Inr (_, rx') \<Rightarrow> Inr (-1, rx'))
                      | Some info \<Rightarrow>
                          let rx1 = rx\<lparr>stas_reord_list := stas_reord_list rx @ [info]\<rparr>;
                              i = length (stas_reord_list rx)
                          in (case ctrl_get rx1 i t of
                                Inl e \<Rightarrow> Inl e
                              | Inr c \<Rightarrow> reord_process_at rx1 i t c f))
                 | Some i \<Rightarrow>
                     (case ctrl_get rx i t of
                        Inl e \<Rightarrow> Inl e
                      | Inr c \<Rightarrow>
                          let c1 = (if \<not> enable c
                                    then c\<lparr>enable := True, ind_sn := 0xffff,
                                           wsize_b := AICWF_REORDER_WINSIZE\<rparr>
                                    else c)
                          in reord_process_at rx i t c1 f))))"

end
