(* ===== verification/ReorderWindow.thy ===== *)
theory ReorderWindow
  imports RxReorder
begin

text \<open>
  The reorder window against an abstract specification over unbounded sequence numbers.
  \<open>sn12\<close> is the 12-bit wire value of an unbounded number; the comparison macro \<open>SN_LESS\<close> is an
  instance of the serial-number interface for numbers less than 2048 apart. \<open>spec_rx\<close> says what
  one arrival does: the window start moves to the first missing number at or after
  the larger of the old start and \<open>s - 63\<close>, and every buffered number below it is released.
  \<open>reord_abs\<close> relates a \<open>reord_ctrl\<close> to the abstract state.
\<close>

section \<open>Twelve-bit sequence numbers\<close>

lemma unat_and_FFF: "unat (x AND 0xFFF :: u16) = unat x mod 4096"
proof -
  have "(0xFFF :: u16) = mask 12" by (simp add: mask_eq_exp_minus_1)
  then have e: "x AND 0xFFF = take_bit 12 x" by (simp only: take_bit_eq_mask)
  have "unat (take_bit 12 x) = take_bit 12 (unat x)" by (rule unsigned_take_bit_eq)
  then show ?thesis unfolding e by (simp add: take_bit_eq_mod)
qed

lemma and_800_iff: "(x AND 0x800 :: u16) \<noteq> 0 \<longleftrightarrow> 2048 \<le> unat x mod 4096"
proof -
  have e: "(0x800 :: u16) = push_bit 11 1" by simp
  have "(x AND 0x800) \<noteq> 0 \<longleftrightarrow> bit x 11"
    unfolding e bit_iff_and_push_bit_not_eq_0 by simp
  also have "\<dots> \<longleftrightarrow> bit (unat x) 11"
    by (simp add: bit_unsigned_iff)
  also have "\<dots> \<longleftrightarrow> odd (unat x div 2048)"
    by (simp add: bit_iff_odd)
  also have "\<dots> \<longleftrightarrow> 2048 \<le> unat x mod 4096"
    using mod_mult2_eq [of "unat x" 2048 2] mod_less_divisor [of 2048 "unat x"]
    by (auto simp: odd_iff_mod_2_eq_one)
  finally show ?thesis .
qed

text \<open>The wire value of an unbounded sequence number.\<close>

definition sn12 :: "nat \<Rightarrow> u16" where
  "sn12 p = of_nat (p mod 4096)"

lemma unat_sn12 [simp]: "unat (sn12 p) = p mod 4096"
  by (simp add: sn12_def unat_of_nat)

lemma uint_sn12 [simp]: "uint (sn12 p) = int (p mod 4096)"
  by (simp only: unat_sn12 [symmetric] uint_nat)

lemma sn12_neq_ffff [simp]: "sn12 p \<noteq> 0xFFFF"
proof
  assume "sn12 p = 0xFFFF"
  then have "unat (sn12 p) = 0xFFFF" by simp
  moreover have "p mod 4096 < 4096" by simp
  ultimately show False by simp
qed

lemma sn12_eq_iff: "sn12 a = sn12 b \<longleftrightarrow> a mod 4096 = b mod 4096"
  by (metis unat_sn12 word_unat_eq_iff)

lemma sn12_Suc: "(sn12 p + 1) AND 0xFFF = sn12 (Suc p)"
proof (rule word_unat_eq_iff [THEN iffD2])
  have "p mod 4096 < 4096" by simp
  then have "unat (sn12 p + 1) = p mod 4096 + 1"
    by (subst unat_add_lem [THEN iffD1]) auto
  then show "unat ((sn12 p + 1) AND 0xFFF) = unat (sn12 (Suc p))"
    by (simp add: unat_and_FFF mod_Suc_eq)
qed

lemma SN_LESS_sn12:
  assumes "a < b + 2048" and "b \<le> a + 2048"
  shows "SN_LESS (sn12 a) (sn12 b) \<longleftrightarrow> a < b"
proof -
  have "int (unat (sn12 a - sn12 b) mod 4096) = uint (sn12 a - sn12 b) mod 4096"
    by (simp add: zmod_int)
  also have "uint (sn12 a - sn12 b) = (int (a mod 4096) - int (b mod 4096)) mod 65536"
    by (simp add: uint_word_ariths)
  finally have "int (unat (sn12 a - sn12 b) mod 4096) = (int a - int b) mod 4096"
    by (simp add: mod_mod_cancel zmod_int mod_simps)
  moreover have "(int a - int b) mod 4096 = (if a < b then int a - int b + 4096 else int a - int b)"
  proof (cases "a < b")
    case True
    have "(int a - int b) mod 4096 = (int a - int b + 4096) mod 4096" by simp
    also have "\<dots> = int a - int b + 4096"
      using True assms by (intro mod_pos_pos_trivial) auto
    finally show ?thesis using True by simp
  next
    case False
    then show ?thesis using assms by (auto intro!: mod_pos_pos_trivial)
  qed
  ultimately show ?thesis
    unfolding SN_LESS_def and_800_iff using assms by (auto split: if_splits)
qed

lemma sn12_inj_near:
  assumes "a < b + 2048" and "b \<le> a + 2048"
  shows "sn12 a = sn12 b \<longleftrightarrow> a = b"
proof
  assume "sn12 a = sn12 b"
  then have "\<not> SN_LESS (sn12 a) (sn12 b)"
    by (simp add: SN_LESS_def)
  from \<open>sn12 a = sn12 b\<close> have e: "a mod 4096 = b mod 4096"
    by (simp only: sn12_eq_iff)
  from \<open>\<not> SN_LESS _ _\<close> have "b \<le> a" using SN_LESS_sn12 [OF assms] by simp
  moreover from e have "4096 dvd (a - b)" using \<open>b \<le> a\<close> by (simp add: mod_eq_dvd_iff_nat)
  moreover have "a - b < 4096" using assms by simp
  ultimately show "a = b" by (metis dvd_imp_le diff_is_0_eq' le_antisym not_less zero_less_diff)
qed simp

interpretation sn_order: serial_number SN_LESS sn12 2048
  by unfold_locales (simp_all add: SN_LESS_sn12 sn12_inj_near)

text \<open>\<open>reord_need_check\<close> moves the window start to 63 before a frame beyond its end.\<close>

lemma sn12_sub63: "63 \<le> p mod 4096 \<Longrightarrow> 63 \<le> p \<Longrightarrow> sn12 p - 63 = sn12 (p - 63)"
proof (rule word_unat_eq_iff [THEN iffD2])
  assume "63 \<le> p mod 4096" "63 \<le> p"
  then have "unat (sn12 p - 63) = p mod 4096 - 63"
    by (subst unat_sub) (auto simp: word_le_nat_alt)
  moreover have "p = 4096 * (p div 4096) + p mod 4096" by simp
  moreover have "(p - 63) mod 4096 = p mod 4096 - 63"
  proof -
    have "p - 63 = 4096 * (p div 4096) + (p mod 4096 - 63)"
      using \<open>63 \<le> p mod 4096\<close> by (subst (1) mult_div_mod_eq [of 4096, symmetric]) linarith
    moreover have "p mod 4096 - 63 < 4096" by (simp add: less_imp_diff_less)
    ultimately show ?thesis by (metis mod_less mod_mult_self4)
  qed
  ultimately show "unat (sn12 p - 63) = unat (sn12 (p - 63))" by simp
qed

lemma sn12_sub63_wrap:
  "p mod 4096 < 63 \<Longrightarrow> 63 \<le> p \<Longrightarrow> 0xFFF - (64 - (sn12 p + 1)) + 1 = sn12 (p - 63)"
proof (rule word_unat_eq_iff [THEN iffD2])
  assume l: "p mod 4096 < 63" and "63 \<le> p"
  define r where "r = p mod 4096"
  have "sn12 p = of_nat r" by (simp add: sn12_def r_def)
  then have "0xFFF - (64 - (sn12 p + 1)) + 1 = of_nat (4033 + r)"
    by simp
  then have "unat (0xFFF - (64 - (sn12 p + 1)) + 1) = 4033 + r"
    using l by (simp add: unat_of_nat r_def del: of_nat_add)
  moreover have "(p - 63) mod 4096 = 4033 + r"
  proof -
    have p: "p = 4096 * (p div 4096) + r" by (simp add: r_def)
    have "p div 4096 \<noteq> 0" using \<open>63 \<le> p\<close> l by (metis div_eq_0_iff mod_less not_less zero_neq_numeral)
    then obtain k where "p div 4096 = Suc k" using not0_implies_Suc by blast
    then have "p - 63 = 4096 * k + (4033 + r)" using p by simp
    moreover have "4033 + r < 4096" using l r_def by simp
    ultimately show ?thesis by (metis mod_less mod_mult_self4)
  qed
  ultimately show "unat (0xFFF - (64 - (sn12 p + 1)) + 1) = unat (sn12 (p - 63))" by simp
qed

section \<open>The abstract window\<close>

text \<open>The first number at or after \<open>n\<close> that is missing from a sorted list.\<close>

fun off_scan :: "nat \<Rightarrow> nat list \<Rightarrow> nat" where
  "off_scan n [] = n"
| "off_scan n (m # ms) = (if m \<le> n then off_scan (if m = n then Suc n else n) ms else n)"

definition spec_rx :: "nat \<Rightarrow> nat list \<Rightarrow> nat \<Rightarrow> nat \<times> nat list \<times> nat list" where
  "spec_rx N P s =
     (let P' = insort s P; N' = off_scan (max N (s - 63)) P'
      in (N', filter (\<lambda>p. N' < p) P', filter (\<lambda>p. p \<le> N') P'))"

definition win :: "nat \<Rightarrow> nat list \<Rightarrow> bool" where
  "win N P \<longleftrightarrow> sorted_wrt (<) P \<and> (\<forall>p\<in>set P. N < p \<and> p \<le> N + 63)"

text \<open>
  A frame descriptor stands for the unbounded number \<open>p\<close>; \<open>R\<close> is what else is known of it.
\<close>

definition tagged :: "(recv_msdu \<Rightarrow> nat \<Rightarrow> bool) \<Rightarrow> recv_msdu \<Rightarrow> nat \<Rightarrow> bool" where
  "tagged R f p \<longleftrightarrow> seq_num f = sn12 p \<and> R f p"

definition reord_abs ::
    "(recv_msdu \<Rightarrow> nat \<Rightarrow> bool) \<Rightarrow> reord_ctrl \<Rightarrow> nat \<Rightarrow> nat list \<Rightarrow> bool" where
  "reord_abs R c N P \<longleftrightarrow> enable c \<and> wsize_b c = AICWF_REORDER_WINSIZE \<and> ind_sn c = sn12 N
     \<and> list_all2 (tagged R) (reord_list c) P \<and> win N P"

lemma off_scan_ge: "n \<le> off_scan n ps"
  by (induction ps arbitrary: n) (auto intro: Suc_leD)

lemma off_scan_le: "off_scan n ps \<le> n + length ps"
proof (induction ps arbitrary: n)
  case (Cons p ps)
  show ?case using Cons.IH [of n] Cons.IH [of "Suc n"] by auto
qed simp

lemma off_scan_gap:
  assumes "sorted_wrt (<) ps"
  shows "off_scan n ps \<notin> set ps \<and> (\<forall>q. n \<le> q \<longrightarrow> q < off_scan n ps \<longrightarrow> q \<in> set ps)"
  using assms
proof (induction ps arbitrary: n)
  case (Cons p ps)
  show ?case
  proof (cases "p \<le> n")
    case True
    let ?n = "if p = n then Suc n else n"
    have "p < ?n" using True by simp
    then have "p < off_scan ?n ps" using off_scan_ge [of ?n ps] by (rule less_le_trans)
    then have "p \<noteq> off_scan ?n ps" by simp
    moreover have "\<forall>q. n \<le> q \<longrightarrow> q < off_scan ?n ps \<longrightarrow> q = p \<or> q \<in> set ps"
    proof (intro allI impI)
      fix q assume q: "n \<le> q" "q < off_scan ?n ps"
      show "q = p \<or> q \<in> set ps"
        using q Cons.IH [of ?n] Cons.prems by (cases "p = n"; cases "q = n") auto
    qed
    ultimately show ?thesis using True Cons.IH [of ?n] Cons.prems by simp
  next
    case False
    then show ?thesis using Cons.prems by auto
  qed
qed simp

lemma win_length: "win N P \<Longrightarrow> length P \<le> 63"
proof -
  assume a: "win N P"
  then have d: "distinct P" and s: "set P \<subseteq> {N<..N + 63}"
    by (auto simp: win_def strict_sorted_iff)
  have "length P = card (set P)" using d by (simp add: distinct_card)
  also have "\<dots> \<le> card {N<..N + 63}" using s by (intro card_mono) auto
  finally show ?thesis by simp
qed

text \<open>The window start after \<open>reord_need_check\<close>.\<close>

definition win_start :: "nat \<Rightarrow> nat \<Rightarrow> nat" where
  "win_start N s = (if s = N then Suc N else max N (s - 63))"

lemma spec_rx_insort:
  assumes "win N P" and "N \<le> s" and "s \<notin> set P" and "spec_rx N P s = (N', P', D)"
  defines "Q \<equiv> insort s P"
  shows "N' = off_scan (win_start N s) Q" and "P' = filter (\<lambda>p. N' < p) Q"
    and "D = filter (\<lambda>p. p \<le> N') Q" and "sorted_wrt (<) Q" and "set Q = insert s (set P)"
    and "win_start N s \<le> N'" and "N' \<le> win_start N s + 64"
proof -
  show N': "N' = off_scan (win_start N s) Q"
  proof (cases "s = N")
    case True
    have "Q = N # P" unfolding Q_def True using assms(1) by (cases P) (auto simp: win_def)
    then show ?thesis using assms(4) True by (auto simp: spec_rx_def win_start_def Q_def Let_def)
  next
    case False
    then show ?thesis using assms(4) by (auto simp: spec_rx_def win_start_def Q_def Let_def)
  qed
  show "P' = filter (\<lambda>p. N' < p) Q" and "D = filter (\<lambda>p. p \<le> N') Q"
    using assms(4) by (auto simp: spec_rx_def Q_def Let_def)
  show "sorted_wrt (<) Q" and "set Q = insert s (set P)"
    using assms(1,3) by (auto simp: Q_def win_def sorted_wrt_insort set_insort_key)
  show "win_start N s \<le> N'" and "N' \<le> win_start N s + 64"
    using off_scan_ge [of _ Q] off_scan_le [of "win_start N s" Q] win_length [OF assms(1)]
    by (simp_all add: N' Q_def)
qed

lemma spec_rx_win:
  assumes "win N P" and "N \<le> s" and "s \<notin> set P" and "spec_rx N P s = (N', P', D)"
  shows "win N' P'"
proof -
  note i = spec_rx_insort [OF assms]
  have "N \<le> N'" "s \<le> N' + 63"
    using i(6) assms(2) by (auto simp: win_start_def split: if_splits)
  then show ?thesis
    using i(4,5) assms(1) unfolding i(2) by (auto simp: win_def sorted_wrt_filter)
qed

lemma spec_rx_near_start:
  assumes "win N P" and "N \<le> s" and "s < N + 2048" and "p \<in> insert s (set P)"
  shows "win_start N s < p + 2048 \<and> p \<le> win_start N s + 2048"
  using assms by (fastforce simp: win_start_def win_def)

lemma spec_rx_near_end:
  assumes "win N P" and "N \<le> s" and "s < N + 2048" and "s \<notin> set P"
    and "spec_rx N P s = (N', P', D)" and "p \<in> insert s (set P)"
  shows "N' < p + 2048 \<and> p \<le> N' + 2048"
proof -
  note i = spec_rx_insort [OF assms(1,2,4,5)]
  have "N' < p + 2048"
  proof (cases "s \<le> N + 63")
    case True
    then have "N' \<le> N + 65" using i(7) by (auto simp: win_start_def split: if_splits)
    moreover have "N \<le> p" using assms by (auto simp: win_def)
    ultimately show ?thesis by simp
  next
    case False
    then have "N < p" using assms by (auto simp: win_def)
    moreover have "N' \<le> N + 2048" using i(7) False assms(3) by (auto simp: win_start_def)
    ultimately show ?thesis by simp
  qed
  then show ?thesis
    using i(6) spec_rx_near_start [OF assms(1-3,6)] by simp
qed

lemma wend_sn12: "(sn12 N + 64 - 1) AND 0xFFF = sn12 (N + 63)"
proof (rule word_unat_eq_iff [THEN iffD2])
  have "N mod 4096 < 4096" by simp
  then have "unat (63 + sn12 N) = 63 + N mod 4096"
    by (subst unat_add_lem [THEN iffD1]) auto
  then show "unat ((sn12 N + 64 - 1) AND 0xFFF) = unat (sn12 (N + 63))"
    by (simp add: unat_and_FFF mod_simps add.commute)
qed

lemma need_check_late:
  assumes "reord_abs R c N P" and "s < N" and "N \<le> s + 2048"
  shows "reord_need_check c (sn12 s) = (c, -1)"
  using assms by (simp add: reord_abs_def reord_need_check_def sn_order.less_sn)

lemma need_check_window:
  assumes "reord_abs R c N P" and "N \<le> s" and "s < N + 2048"
  shows "reord_need_check c (sn12 s) =
           (c\<lparr>ind_sn := sn12 (win_start N s)\<rparr>, 0)"
proof -
  have u: "ucast (64 :: u8) = (64 :: u16)" by simp
  have w: "SN_LESS (sn12 (N + 63)) (sn12 s) \<longleftrightarrow> N + 63 < s"
    using assms by (intro sn_order.less_sn) auto
  have l: "\<not> SN_LESS (sn12 s) (sn12 N)" and e: "sn12 s = sn12 N \<longleftrightarrow> s = N"
    using assms by (auto simp: tagged_def sn_order.less_sn sn_order.sn_eq)
  have c: "c\<lparr>ind_sn := sn12 N\<rparr> = c" using assms(1) by (simp add: reord_abs_def)
  show ?thesis
  proof (cases "N + 63 < s")
    case True
    have "63 \<le> s" using True by simp
    then show ?thesis
      using assms True l e w sn12_sub63 [of s] sn12_sub63_wrap [of s] wend_sn12 [of N]
      by (cases "63 \<le> s mod 4096")
        (simp_all add: reord_abs_def reord_need_check_def Let_def u SN_EQUAL_def win_start_def max_def)
  next
    case False
    then have m: "max N (s - 63) = N" by simp
    show ?thesis
      using assms(1) False l e w wend_sn12 [of N]
      by (simp add: reord_abs_def reord_need_check_def Let_def u SN_EQUAL_def win_start_def sn12_Suc m c)
  qed
qed

lemma reord_insert_dup:
  assumes "list_all2 (tagged R) fs P" and "tagged R f s" and "s \<in> set P"
    and "sorted_wrt (<) P" and "\<forall>p\<in>set P. p < s + 2048 \<and> s \<le> p + 2048"
  shows "reord_insert fs f = None"
  using assms
proof (induction fs arbitrary: P)
  case (Cons g gs)
  then obtain p P' where P: "P = p # P'" by (cases P) auto
  show ?case using Cons.prems Cons.IH [of P'] unfolding P
    by (auto simp: tagged_def sn_order.less_sn SN_EQUAL_def sn_order.sn_eq)
qed simp

lemma reord_insert_new:
  assumes "list_all2 (tagged R) fs P" and "tagged R f s" and "s \<notin> set P"
    and "sorted_wrt (<) P" and "\<forall>p\<in>set P. p < s + 2048 \<and> s \<le> p + 2048"
  shows "\<exists>fs'. reord_insert fs f = Some fs' \<and> list_all2 (tagged R) fs' (insort s P)
           \<and> mset fs' = add_mset f (mset fs)"
  using assms
proof (induction fs arbitrary: P)
  case (Cons g gs)
  then obtain p P' where P: "P = p # P'" by (cases P) auto
  show ?case using Cons.prems Cons.IH [of P'] unfolding P
    by (auto simp: tagged_def sn_order.less_sn SN_EQUAL_def sn_order.sn_eq)
qed simp

lemma reord_scan_sn12:
  assumes "list_all2 (tagged R) fs P" and "sorted_wrt (<) P"
    and "\<forall>p\<in>set P. n < p + 2048 \<and> p \<le> n + 2048"
  shows "reord_scan (sn12 n) fs = (sn12 (off_scan n P), filter (\<lambda>p. off_scan n P < p) P \<noteq> [])"
  using assms
proof (induction fs arbitrary: P n)
  case (Cons f fs)
  then obtain p P' where P: "P = p # P'" by (cases P) auto
  have n: "SN_LESS (sn12 n) (seq_num f) \<longleftrightarrow> n < p" "SN_EQUAL (sn12 n) (seq_num f) \<longleftrightarrow> n = p"
    using Cons.prems by (auto simp: P tagged_def sn_order.less_sn SN_EQUAL_def sn_order.sn_eq)
  show ?case
  proof (cases "n < p")
    case True
    then show ?thesis using n by (simp add: P)
  next
    case False
    let ?n = "if p = n then Suc n else n"
    have "reord_scan (sn12 ?n) fs = (sn12 (off_scan ?n P'), filter (\<lambda>q. off_scan ?n P' < q) P' \<noteq> [])"
    proof (rule Cons.IH)
      show "\<forall>q\<in>set P'. ?n < q + 2048 \<and> q \<le> ?n + 2048"
        using Cons.prems by (fastforce simp: P)
    qed (use Cons.prems P in auto)
    moreover have "\<not> off_scan ?n P' < p" using off_scan_ge [of ?n P'] False by (auto split: if_splits)
    ultimately show ?thesis using n False by (auto simp: P sn12_Suc)
  qed
qed simp

lemma reord_ind_loop_sn12:
  assumes "list_all2 (tagged R) fs P" and "\<forall>p\<in>set P. n < p + 2048 \<and> p \<le> n + 2048"
  shows "reord_ind_loop rx (sn12 n) fs =
           (case flush_loop rx (take (length (takeWhile (\<lambda>p. p \<le> n) P)) fs) of
              Inl e \<Rightarrow> Inl e
            | Inr rx' \<Rightarrow> Inr (rx', drop (length (takeWhile (\<lambda>p. p \<le> n) P)) fs))"
  using assms
proof (induction fs arbitrary: P rx)
  case (Cons f fs)
  then obtain p P' where P: "P = p # P'" by (cases P) auto
  have "SN_LESS (sn12 n) (seq_num f) \<longleftrightarrow> n < p"
    using Cons.prems by (auto simp: P tagged_def sn_order.less_sn)
  then show ?case
    using Cons.prems Cons.IH [of P'] by (auto simp: P split: sum.splits prod.splits)
qed simp


lemma process_ctrl_dup:
  assumes "reord_abs R c N P" and "tagged R f s" and "s \<in> set P"
  shows "reord_process_ctrl rx c f = Inr (0, discard_frame rx f, c)"
proof -
  have s: "N \<le> s" "s \<noteq> N" "s \<le> N + 63"
    and P: "list_all2 (tagged R) (reord_list c) P" "sorted_wrt (<) P"
    and c: "enable c" "c\<lparr>ind_sn := sn12 N\<rparr> = c"
    and b: "\<forall>p\<in>set P. N < p \<and> p \<le> N + 63"
    using assms by (auto simp: reord_abs_def win_def)
  have w: "\<forall>p\<in>set P. p < s + 2048 \<and> s \<le> p + 2048"
    using b s by force
  have m: "max N (s - 63) = N" using s by simp
  have "reord_need_check c (seq_num f) = (c, 0)"
    using need_check_window [OF assms(1) s(1)] s c assms(2) [unfolded tagged_def] by (simp add: win_start_def m)
  moreover have "reord_insert (reord_list c) f = None"
    using reord_insert_dup [OF P(1) assms(2,3) P(2) w] .
  ultimately show ?thesis
    by (simp add: reord_process_ctrl_def reord_rxframe_enqueue_def discard_frame_def c)
qed

lemma process_ctrl_window:
  assumes a: "reord_abs R c N P" and f: "tagged R f s" and s: "N \<le> s" "s < N + 2048" "s \<notin> set P"
    and spec: "spec_rx N P s = (N', P', D)"
  shows "\<exists>ds c'. reord_process_ctrl rx c f =
             (case flush_loop rx ds of Inl e \<Rightarrow> Inl e | Inr rx' \<Rightarrow> Inr (0, rx', c'))
           \<and> list_all2 (tagged R) ds D \<and> reord_abs R c' N' P'
           \<and> mset ds + mset (reord_list c') = add_mset f (mset (reord_list c))
           \<and> timer_pending c' = (P' \<noteq> [])"
proof -
  define Q where "Q = insort s P"
  have w: "win N P" and P: "list_all2 (tagged R) (reord_list c) P" "sorted_wrt (<) P"
    and c: "enable c" "wsize_b c = 64"
    using a by (auto simp: reord_abs_def win_def)
  have near: "\<forall>p\<in>set P. p < s + 2048 \<and> s \<le> p + 2048"
    using w s by (fastforce simp: win_def)
  obtain fs where fs: "reord_insert (reord_list c) f = Some fs" "list_all2 (tagged R) fs Q"
      "mset fs = add_mset f (mset (reord_list c))"
    using reord_insert_new [OF P(1) f s(3) P(2) near] unfolding Q_def by blast
  note Q = spec_rx_insort [OF w s(1,3) spec, folded Q_def]
  define k where "k = length (takeWhile (\<lambda>p. p \<le> N') Q)"
  define c' where "c' = c\<lparr>ind_sn := sn12 N', reord_list := drop k fs, timer_pending := P' \<noteq> []\<rparr>"
  have near_start: "\<forall>p\<in>set Q. win_start N s < p + 2048 \<and> p \<le> win_start N s + 2048"
    using spec_rx_near_start [OF w s(1,2)] Q(5) by blast
  have near_end: "\<forall>p\<in>set Q. N' < p + 2048 \<and> p \<le> N' + 2048"
    using spec_rx_near_end [OF w s spec] Q(5) by blast
  have scan: "reord_rxframes_process (c\<lparr>ind_sn := sn12 (win_start N s), reord_list := fs\<rparr>) False =
      (c\<lparr>ind_sn := sn12 N', reord_list := fs\<rparr>, P' \<noteq> [])"
    using reord_scan_sn12 [OF fs(2) Q(4) near_start] fs(2,3) Q(1,2)
    by (cases fs) (auto simp: reord_rxframes_process_def)
  have "reord_process_ctrl rx c f =
      (case flush_loop rx (take k fs) of Inl e \<Rightarrow> Inl e | Inr rx' \<Rightarrow> Inr (0, rx', c'))"
    using need_check_window [OF a s(1,2)] f [unfolded tagged_def] fs(1) scan c reord_ind_loop_sn12 [OF fs(2) near_end, of rx]
    by (auto simp: reord_process_ctrl_def reord_rxframe_enqueue_def reord_rxframes_ind_def
        k_def c'_def split: sum.splits)
  moreover have tk: "take k Q = D" "drop k Q = P'"
    unfolding k_def Q(2,3) takeWhile_eq_take [symmetric] dropWhile_eq_drop [symmetric]
    using Q(4) by (simp_all add: sorted_takeWhile_filter sorted_dropWhile_filter)
  moreover have "list_all2 (tagged R) (take k fs) D" and m: "list_all2 (tagged R) (drop k fs) P'"
    using fs(2) by (simp_all add: list_all2_takeI list_all2_dropI flip: tk)
  moreover have "reord_abs R c' N' P'"
    using m c spec_rx_win [OF w s(1,3) spec] by (simp add: reord_abs_def c'_def)
  moreover have "mset (take k fs) + mset (reord_list c') = add_mset f (mset (reord_list c))"
    by (simp add: c'_def fs(3) [symmetric] flip: mset_append)
  ultimately show ?thesis
    by (intro exI [of _ "take k fs"] exI [of _ c']) (simp add: c'_def)
qed


lemma process_ctrl_first:
  assumes "enable c" and "wsize_b c = AICWF_REORDER_WINSIZE" and "ind_sn c = 0xFFFF" and "reord_list c = []"
    and "tagged R f s"
  shows "\<exists>c'. reord_process_ctrl rx c f =
             (case flush_loop rx [f] of Inl e \<Rightarrow> Inl e | Inr rx' \<Rightarrow> Inr (0, rx', c'))
           \<and> reord_abs R c' (Suc s) [] \<and> \<not> timer_pending c'"
proof -
  have "\<not> SN_LESS (sn12 s) (sn12 s)" and l: "\<not> SN_LESS (sn12 (Suc s)) (sn12 s)" and "sn12 (Suc s) \<noteq> sn12 s"
    by (simp_all add: sn_order.less_sn sn_order.sn_eq)
  then show ?thesis
    using assms
    by (intro exI [of _ "c\<lparr>ind_sn := sn12 (Suc s), reord_list := [], timer_pending := False\<rparr>"])
      (auto simp: reord_process_ctrl_def reord_need_check_def tagged_def Let_def SN_EQUAL_def sn12_Suc
        reord_rxframe_enqueue_def reord_rxframes_process_def reord_rxframes_ind_def reord_abs_def
        win_def split: sum.splits prod.splits)
qed

lemma process_ctrl_late:
  assumes "reord_abs R c N P" and "tagged R f s" and "s < N" and "N \<le> s + 2048" and "42 < length (rx_data f)"
  shows "reord_process_ctrl rx c f =
           (if rx_data f ! 42 = 0x80 then Inr (0, discard_frame rx f, c)
            else case flush_loop rx [f] of Inl e \<Rightarrow> Inl e | Inr rx' \<Rightarrow> Inr (0, rx', c))"
proof -
  have "sn12 s \<noteq> ind_sn c" using assms by (auto simp: reord_abs_def sn_order.sn_eq)
  moreover have "reord_need_check c (seq_num f) = (c, -1)"
    using need_check_late [OF assms(1,3,4)] assms(2) by (simp add: tagged_def)
  moreover have "enable c" and "seq_num f = sn12 s"
    using assms by (simp_all add: reord_abs_def tagged_def)
  ultimately show ?thesis using assms(5)
    by (auto simp: reord_process_ctrl_def array_get_nth discard_frame_def split: sum.splits)
qed

definition spec_timeout :: "nat \<Rightarrow> nat list \<Rightarrow> nat \<times> nat list \<times> nat list" where
  "spec_timeout N P =
     (case P of
        [] \<Rightarrow> (N, [], [])
      | p # _ \<Rightarrow> let N' = off_scan p P in (N', filter (\<lambda>q. N' < q) P, filter (\<lambda>q. q \<le> N') P))"

lemma spec_timeout_win:
  assumes "win N P" and "spec_timeout N P = (N', P', D)"
  shows "win N' P' \<and> N \<le> N' \<and> N' \<le> N + 127"
proof (cases P)
  case (Cons p ps)
  have p: "N < p" "p \<le> N + 63" using assms(1) by (auto simp: Cons win_def)
  have e: "N' = off_scan p P" "P' = filter (\<lambda>q. N' < q) P"
    using assms(2) by (auto simp: spec_timeout_def Cons Let_def)
  have "p \<le> N'" "N' \<le> p + 63"
    using off_scan_ge [of p P] off_scan_le [of p P] win_length [OF assms(1)] by (auto simp: e(1))
  then show ?thesis
    using assms(1) p unfolding e(2) by (auto simp: win_def sorted_wrt_filter)
qed (use assms in \<open>simp add: spec_timeout_def\<close>)

lemma timeout_worker_window:
  assumes a: "reord_abs R c N P" and spec: "spec_timeout N P = (N', P', D)"
  shows "\<exists>ds c'. reord_timeout_worker rx c =
             (case flush_loop rx ds of Inl e \<Rightarrow> Inl e | Inr rx' \<Rightarrow> Inr (rx', c'))
           \<and> list_all2 (tagged R) ds D \<and> reord_abs R c' N' P'
           \<and> mset ds + mset (reord_list c') = mset (reord_list c)
           \<and> (timer_pending c' \<longleftrightarrow> timer_pending c \<or> P' \<noteq> [])"
proof (cases P)
  case Nil
  then show ?thesis using assms
    by (intro exI [of _ "[]"] exI [of _ c])
      (simp add: reord_abs_def spec_timeout_def reord_timeout_worker_def reord_rxframes_process_def
        reord_rxframes_ind_def)
next
  case (Cons p ps)
  have fs: "list_all2 (tagged R) (reord_list c) P" and w: "win N P" "sorted_wrt (<) P"
    and b: "\<forall>q\<in>set P. N < q \<and> q \<le> N + 63"
    using a by (auto simp: reord_abs_def win_def)
  have e: "N' = off_scan p P" "P' = filter (\<lambda>q. N' < q) P" "D = filter (\<lambda>q. q \<le> N') P"
    using spec by (auto simp: spec_timeout_def Cons Let_def)
  note N' = spec_timeout_win [OF w(1) spec]
  have near: "\<forall>q\<in>set P. p < q + 2048 \<and> q \<le> p + 2048" "\<forall>q\<in>set P. N' < q + 2048 \<and> q \<le> N' + 2048"
    using b N' by (fastforce simp: Cons)+
  define k where "k = length (takeWhile (\<lambda>q. q \<le> N') P)"
  have tk: "take k P = D" "drop k P = P'"
    unfolding k_def e(2,3) takeWhile_eq_take [symmetric] dropWhile_eq_drop [symmetric]
    using w(2) by (simp_all add: sorted_takeWhile_filter sorted_dropWhile_filter)
  define c' where "c' = c\<lparr>ind_sn := sn12 N', reord_list := drop k (reord_list c),
      timer_pending := timer_pending c \<or> P' \<noteq> []\<rparr>"
  obtain f l where f: "reord_list c = f # l" "seq_num f = sn12 p"
    using fs by (auto simp: Cons list_all2_Cons2 tagged_def)
  have "reord_rxframes_process c True = (c\<lparr>ind_sn := sn12 N'\<rparr>, P' \<noteq> [])"
    using reord_scan_sn12 [OF fs w(2) near(1)] f e(1,2)
    by (simp add: reord_rxframes_process_def)
  then have "reord_timeout_worker rx c =
      (case flush_loop rx (take k (reord_list c)) of Inl e \<Rightarrow> Inl e | Inr rx' \<Rightarrow> Inr (rx', c'))"
    using reord_ind_loop_sn12 [OF fs near(2), of rx]
    by (auto simp: reord_timeout_worker_def reord_rxframes_ind_def k_def c'_def split: sum.splits)
  moreover have "list_all2 (tagged R) (take k (reord_list c)) D"
      "list_all2 (tagged R) (drop k (reord_list c)) P'"
    using fs by (simp_all add: list_all2_takeI list_all2_dropI flip: tk)
  moreover have "reord_abs R c' N' P'"
    using calculation(3) a N' by (simp add: reord_abs_def c'_def)
  ultimately show ?thesis
    by (intro exI [of _ "take k (reord_list c)"] exI [of _ c'])
      (simp add: c'_def flip: mset_append)
qed


section \<open>Runs\<close>

text \<open>
  The inputs of one reorder context: a received frame, with its unbounded sequence number, and
  the expiry of the reorder timer.
\<close>

datatype reord_input =
    Arrive recv_msdu nat
  | Expire

fun reord_run :: "rx_priv \<Rightarrow> reord_ctrl \<Rightarrow> reord_input list \<Rightarrow> fault + rx_priv \<times> reord_ctrl" where
  "reord_run rx c [] = Inr (rx, c)"
| "reord_run rx c (Arrive f s # is) =
     (case reord_process_ctrl rx c f of
        Inl e \<Rightarrow> Inl e
      | Inr (_, rx', c') \<Rightarrow> reord_run rx' c' is)"
| "reord_run rx c (Expire # is) =
     (case reord_timeout_worker rx c of
        Inl e \<Rightarrow> Inl e
      | Inr (rx', c') \<Rightarrow> reord_run rx' c' is)"

definition spec_input :: "nat \<Rightarrow> nat list \<Rightarrow> reord_input \<Rightarrow> nat \<times> nat list \<times> nat list" where
  "spec_input N P i =
     (case i of
        Arrive f s \<Rightarrow> if s \<in> set P then (N, P, []) else spec_rx N P s
      | Expire \<Rightarrow> spec_timeout N P)"

fun spec_run :: "nat \<Rightarrow> nat list \<Rightarrow> reord_input list \<Rightarrow> nat \<times> nat list \<times> nat list" where
  "spec_run N P [] = (N, P, [])"
| "spec_run N P (i # is) =
     (let (N1, P1, D) = spec_input N P i; (N2, P2, E) = spec_run N1 P1 is in (N2, P2, D @ E))"

text \<open>Every arriving number is at or after the window start, by less than half the number space.\<close>

fun timely :: "nat \<Rightarrow> nat list \<Rightarrow> reord_input list \<Rightarrow> bool" where
  "timely N P [] \<longleftrightarrow> True"
| "timely N P (i # is) \<longleftrightarrow>
     (case i of Arrive f s \<Rightarrow> N \<le> s \<and> s < N + 2048 | Expire \<Rightarrow> True)
     \<and> (let (N1, P1, D) = spec_input N P i in timely N1 P1 is)"

text \<open>A plain data frame that carries the payload of its number.\<close>

definition plain :: "(nat \<Rightarrow> skb) \<Rightarrow> recv_msdu \<Rightarrow> nat \<Rightarrow> bool" where
  "plain pay f p \<longleftrightarrow> pkt f = Some (pay p) \<and> is_ap_reord f = 0 \<and> forward f \<noteq> 0 \<and> is_amsdu f = 0"

definition plain_input :: "(nat \<Rightarrow> skb) \<Rightarrow> reord_input \<Rightarrow> bool" where
  "plain_input pay i =
     (case i of Arrive f s \<Rightarrow> tagged (plain pay) f s | Expire \<Rightarrow> True)"

definition delivered :: "rx_priv \<Rightarrow> skb list" where
  "delivered rx = concat (map (\<lambda>e. case e of NetifReceiveSkb s \<Rightarrow> [s] | _ \<Rightarrow> []) (rx_log rx))"

lemma delivered_simps [simp]:
  "delivered (log_rx es rx) =
     delivered rx @ concat (map (\<lambda>e. case e of NetifReceiveSkb s \<Rightarrow> [s] | _ \<Rightarrow> []) es)"
  "delivered (rx\<lparr>rx_packets := n, rx_bytes := b\<rparr>) = delivered rx"
  "delivered (reord_rxframe_free rx f) = delivered rx"
  by (simp_all add: delivered_def log_rx_def reord_rxframe_free_def)

lemma flush_loop_plain:
  assumes "list_all2 (tagged (plain pay)) ds D"
  shows "\<exists>rx'. flush_loop rx ds = Inr rx' \<and> delivered rx' = delivered rx @ map pay D"
  using assms
proof (induction ds D arbitrary: rx rule: list_all2_induct)
  case (Cons f fs p ps)
  then obtain rx1 where r: "reord_single_frame_ind rx f = Inr (0, rx1)"
      and d: "delivered rx1 = delivered rx @ [pay p]"
    by (auto simp: tagged_def plain_def reord_single_frame_ind_def netif_deliver_all_def netif_deliver_def)
  obtain rx2 where "flush_loop rx1 fs = Inr rx2" "delivered rx2 = delivered rx1 @ map pay ps"
    using Cons.IH by blast
  then show ?case using r d by simp
qed simp

lemma process_ctrl_plain:
  assumes "reord_abs (plain pay) c N P" and "tagged (plain pay) f s" and "N \<le> s" and "s < N + 2048"
    and "spec_input N P (Arrive f s) = (N', P', D)"
  shows "\<exists>rx' c'. reord_process_ctrl rx c f = Inr (0, rx', c')
           \<and> reord_abs (plain pay) c' N' P' \<and> delivered rx' = delivered rx @ map pay D"
proof (cases "s \<in> set P")
  case True
  then show ?thesis
    using process_ctrl_dup [OF assms(1,2) True] assms(1,2,5)
    by (auto simp: spec_input_def discard_frame_def tagged_def plain_def)
next
  case False
  then have "spec_rx N P s = (N', P', D)" using assms(5) by (simp add: spec_input_def)
  then obtain ds c' where "reord_process_ctrl rx c f =
        (case flush_loop rx ds of Inl e \<Rightarrow> Inl e | Inr rx' \<Rightarrow> Inr (0, rx', c'))"
      "list_all2 (tagged (plain pay)) ds D" "reord_abs (plain pay) c' N' P'"
    using process_ctrl_window [OF assms(1-4) False] by blast
  then show ?thesis using flush_loop_plain [of pay ds D rx] by auto
qed

lemma timeout_worker_plain:
  assumes "reord_abs (plain pay) c N P" and "spec_timeout N P = (N', P', D)"
  shows "\<exists>rx' c'. reord_timeout_worker rx c = Inr (rx', c')
           \<and> reord_abs (plain pay) c' N' P' \<and> delivered rx' = delivered rx @ map pay D"
proof -
  obtain ds c' where "reord_timeout_worker rx c =
        (case flush_loop rx ds of Inl e \<Rightarrow> Inl e | Inr rx' \<Rightarrow> Inr (rx', c'))"
      "list_all2 (tagged (plain pay)) ds D" "reord_abs (plain pay) c' N' P'"
    using timeout_worker_window [OF assms] by blast
  then show ?thesis using flush_loop_plain [of pay ds D rx] by auto
qed

lemma reord_run_refines:
  assumes "reord_abs (plain pay) c N P" and "\<forall>i\<in>set is. plain_input pay i" and "timely N P is"
    and "spec_run N P is = (N', P', D)"
  shows "\<exists>rx' c'. reord_run rx c is = Inr (rx', c')
           \<and> reord_abs (plain pay) c' N' P' \<and> delivered rx' = delivered rx @ map pay D"
  using assms
proof (induction "is" arbitrary: rx c N P D)
  case (Cons i "is")
  obtain N1 P1 D1 where i: "spec_input N P i = (N1, P1, D1)" by (metis prod_cases3)
  obtain N2 P2 D2 where r: "spec_run N1 P1 is = (N2, P2, D2)" by (metis prod_cases3)
  have e: "N2 = N'" "P2 = P'" "D = D1 @ D2" using Cons.prems(4) i r by auto
  have t: "timely N1 P1 is" using Cons.prems(3) i by simp
  show ?case
  proof (cases i)
    case (Arrive f s)
    obtain rx1 c1 where "reord_process_ctrl rx c f = Inr (0, rx1, c1)" "reord_abs (plain pay) c1 N1 P1"
        "delivered rx1 = delivered rx @ map pay D1"
      using process_ctrl_plain [of pay c N P f s N1 P1 D1 rx] Cons.prems i Arrive
      by (auto simp: plain_input_def)
    then show ?thesis using Cons.IH [of c1 N1 P1 D2 rx1] Cons.prems(2) t r e Arrive by auto
  next
    case Expire
    obtain rx1 c1 where "reord_timeout_worker rx c = Inr (rx1, c1)" "reord_abs (plain pay) c1 N1 P1"
        "delivered rx1 = delivered rx @ map pay D1"
      using timeout_worker_plain [of pay c N P N1 P1 D1 rx] Cons.prems i Expire
      by (auto simp: spec_input_def)
    then show ?thesis using Cons.IH [of c1 N1 P1 D2 rx1] Cons.prems(2) t r e Expire by auto
  qed
qed simp

text \<open>One input releases a sorted block of numbers, all from the old start up to the new one.\<close>

lemma spec_input_block:
  assumes "win N P" and "spec_input N P i = (N', P', D)"
    and "case i of Arrive f s \<Rightarrow> N \<le> s \<and> s < N + 2048 | Expire \<Rightarrow> True"
  shows "win N' P' \<and> N \<le> N' \<and> sorted_wrt (<) D \<and> (\<forall>d\<in>set D. N \<le> d \<and> d < N')"
proof (cases i)
  case (Arrive f s)
  show ?thesis
  proof (cases "s \<in> set P")
    case True
    then show ?thesis using assms Arrive by (auto simp: spec_input_def)
  next
    case False
    have s: "N \<le> s" and sp: "spec_rx N P s = (N', P', D)"
      using assms Arrive False by (auto simp: spec_input_def)
    note q = spec_rx_insort [OF assms(1) s False sp]
    have "N' \<notin> set (insort s P)"
      using off_scan_gap [OF q(4), of "win_start N s"] by (simp flip: q(1))
    moreover have "N \<le> N'" using q(6) by (auto simp: win_start_def split: if_splits)
    ultimately show ?thesis
      using spec_rx_win [OF assms(1) s False sp] q(4,5) assms(1) s
      unfolding q(3) by (auto simp: sorted_wrt_filter win_def le_less)
  qed
next
  case Expire
  then have sp: "spec_timeout N P = (N', P', D)" using assms(2) by (simp add: spec_input_def)
  show ?thesis
  proof (cases P)
    case Nil
    then show ?thesis using sp assms(1) by (auto simp: spec_timeout_def win_def)
  next
    case (Cons p ps)
    have e: "N' = off_scan p P" "D = filter (\<lambda>q. q \<le> N') P"
      using sp by (auto simp: spec_timeout_def Cons Let_def)
    have "sorted_wrt (<) P" using assms(1) by (simp add: win_def)
    then have "N' \<notin> set P" using off_scan_gap [of P p] e(1) by simp
    then show ?thesis
      using spec_timeout_win [OF assms(1) sp] assms(1) unfolding e(2)
      by (auto simp: sorted_wrt_filter win_def le_less)
  qed
qed

lemma spec_run_sorted:
  assumes "win N P" and "timely N P is" and "spec_run N P is = (N', P', D)"
  shows "win N' P' \<and> N \<le> N' \<and> sorted_wrt (<) D \<and> (\<forall>d\<in>set D. N \<le> d \<and> d < N')"
  using assms
proof (induction "is" arbitrary: N P D)
  case (Cons i "is")
  obtain N1 P1 D1 where i: "spec_input N P i = (N1, P1, D1)" by (metis prod_cases3)
  obtain N2 P2 D2 where r: "spec_run N1 P1 is = (N2, P2, D2)" by (metis prod_cases3)
  have b: "win N1 P1 \<and> N \<le> N1 \<and> sorted_wrt (<) D1 \<and> (\<forall>d\<in>set D1. N \<le> d \<and> d < N1)"
    using spec_input_block [OF Cons.prems(1) i] Cons.prems(2) by simp
  have "win N2 P2 \<and> N1 \<le> N2 \<and> sorted_wrt (<) D2 \<and> (\<forall>d\<in>set D2. N1 \<le> d \<and> d < N2)"
    using Cons.IH [of N1 P1 D2] b r Cons.prems(2,3) i by auto
  then show ?case using b Cons.prems(3) i r by (fastforce simp: sorted_wrt_append)
qed simp


text \<open>The numbers that arrived, and that none of them is lost.\<close>

fun arrivals :: "reord_input list \<Rightarrow> nat list" where
  "arrivals [] = []"
| "arrivals (Arrive f s # is) = s # arrivals is"
| "arrivals (Expire # is) = arrivals is"

lemma spec_input_complete:
  assumes "spec_input N P i = (N', P', D)"
  shows "set D \<union> set P' = set P \<union> set (arrivals [i])"
proof (cases i)
  case (Arrive f s)
  show ?thesis
  proof (cases "s \<in> set P")
    case True
    then show ?thesis using assms Arrive by (auto simp: spec_input_def)
  next
    case False
    then have "P' = filter (\<lambda>p. N' < p) (insort s P)" "D = filter (\<lambda>p. p \<le> N') (insort s P)"
      using assms Arrive by (auto simp: spec_input_def spec_rx_def Let_def)
    then show ?thesis using Arrive by (auto simp: set_insort_key)
  qed
next
  case Expire
  then show ?thesis using assms
    by (cases P) (auto simp: spec_input_def spec_timeout_def Let_def split: if_splits)
qed

lemma spec_run_complete:
  "spec_run N P is = (N', P', D) \<Longrightarrow> set D \<union> set P' = set P \<union> set (arrivals is)"
proof (induction "is" arbitrary: N P N' P' D)
  case (Cons i "is")
  obtain N1 P1 D1 where i: "spec_input N P i = (N1, P1, D1)" by (metis prod_cases3)
  obtain N2 P2 D2 where r: "spec_run N1 P1 is = (N2, P2, D2)" by (metis prod_cases3)
  have "set D1 \<union> set P1 = set P \<union> set (arrivals [i])" "set D2 \<union> set P2 = set P1 \<union> set (arrivals is)"
    using spec_input_complete [OF i] Cons.IH [OF r] by auto
  moreover have "set (arrivals (i # is)) = set (arrivals [i]) \<union> set (arrivals is)"
    by (cases i) auto
  moreover have e: "D = D1 @ D2" "P' = P2" using Cons.prems i r by auto
  ultimately show ?case unfolding e set_append by blast
qed simp

section \<open>Concrete instances\<close>

text \<open>A receive context of a station, data frames and a reorder context to evaluate the model on.\<close>

definition ex_rx :: rx_priv where
  "ex_rx = \<lparr>bus_down = False, usb_down = False, iftype = IFTYPE_STATION, vif_found = True, skb_mem = 8,
     kmalloc_ok = True, rx_packets = 0, rx_bytes = 0, rxframes_freequeue = [], stas_reord_list = [],
     rx_log = []\<rparr>"

definition ex_pay :: "nat \<Rightarrow> skb" where
  "ex_pay s = replicate 43 (of_nat s)"

definition ex_frame :: "nat \<Rightarrow> recv_msdu" where
  "ex_frame s = \<lparr>rf_addr = s, pkt = Some (ex_pay s), tid = 0, forward = 1, seq_num = sn12 s, is_amsdu = 0,
     is_ap_reord = 0, ap_fwd_cnt = 0, ap_resend_cnt = 0, rx_data = ex_pay s, fwd_skbs = [], resend_skbs = []\<rparr>"

definition ex_ctrl :: "nat \<Rightarrow> nat list \<Rightarrow> reord_ctrl" where
  "ex_ctrl N P = \<lparr>enable = True, ind_sn = sn12 N, wsize_b = AICWF_REORDER_WINSIZE,
     reord_list = map ex_frame P, timer_pending = P \<noteq> [], work_pending = False\<rparr>"

lemma tagged_ex_frame [simp]: "tagged (plain ex_pay) (ex_frame s) s"
  by (simp add: tagged_def plain_def ex_frame_def)

lemma reord_abs_ex_ctrl [simp]: "reord_abs (plain ex_pay) (ex_ctrl N P) N P \<longleftrightarrow> win N P"
proof -
  have "list_all2 (tagged (plain ex_pay)) (map ex_frame P) P"
    by (induction P) simp_all
  then show ?thesis by (simp add: reord_abs_def ex_ctrl_def)
qed

section \<open>Properties\<close>

text \<open>
  C6: In-order, exactly-once delivery. From a reorder context that represents window start
  \<open>N\<close> and buffered numbers \<open>P\<close>, every sequence of data frames and timer expiries in which no
  frame is older than the window start is processed without fault; the payloads handed to the
  network stack are those of a strictly increasing list \<open>D\<close> of sequence numbers, and each
  number that was buffered or arrived is either delivered or still buffered inside the
  64-frame window.
\<close>

theorem reord_run_in_order:
  assumes "reord_abs (plain pay) c N P" and "\<forall>i\<in>set is. plain_input pay i" and "timely N P is"
  shows "\<exists>rx' c' N' P' D. reord_run rx c is = Inr (rx', c') \<and> reord_abs (plain pay) c' N' P'
           \<and> delivered rx' = delivered rx @ map pay D \<and> sorted_wrt (<) D
           \<and> (\<forall>d\<in>set D. N \<le> d \<and> d < N') \<and> (\<forall>p\<in>set P'. N' < p \<and> p \<le> N' + 63)
           \<and> set D \<union> set P' = set P \<union> set (arrivals is)"
proof -
  obtain N' P' D where r: "spec_run N P is = (N', P', D)" by (metis prod_cases3)
  have "win N P" using assms(1) by (simp add: reord_abs_def)
  then have "win N' P' \<and> sorted_wrt (<) D \<and> (\<forall>d\<in>set D. N \<le> d \<and> d < N')"
    using spec_run_sorted [OF _ assms(3) r] by blast
  then show ?thesis
    using reord_run_refines [OF assms r, of rx] spec_run_complete [OF r]
    by (fastforce simp: win_def)
qed

theorem reord_run_in_order_witness:
  "\<exists>rx' c' N' P' D. reord_run ex_rx (ex_ctrl 4095 [])
       [Arrive (ex_frame 4097) 4097, Arrive (ex_frame 4096) 4096, Arrive (ex_frame 4095) 4095, Expire] = Inr (rx', c')
     \<and> reord_abs (plain ex_pay) c' N' P' \<and> delivered rx' = delivered ex_rx @ map ex_pay D \<and> sorted_wrt (<) D
     \<and> (\<forall>d\<in>set D. 4095 \<le> d \<and> d < N') \<and> (\<forall>p\<in>set P'. N' < p \<and> p \<le> N' + 63)
     \<and> set D \<union> set P' = set [] \<union> set (arrivals
          [Arrive (ex_frame 4097) 4097, Arrive (ex_frame 4096) 4096, Arrive (ex_frame 4095) 4095, Expire])"
  by (rule reord_run_in_order)
    (simp_all add: win_def plain_input_def spec_input_def spec_rx_def Let_def)

text \<open>
  The window start of the specification is the first missing number: nothing between the
  moved start and the new start is missing, and the new start itself is.
\<close>

lemma spec_rx_first_gap:
  assumes "win N P" and "N \<le> s" and "s \<notin> set P" and "spec_rx N P s = (N', P', D)"
  shows "N' \<notin> set (s # P) \<and> win N' P' \<and> max N (s - 63) \<le> N'
           \<and> (\<forall>q. max N (s - 63) \<le> q \<and> q < N' \<longrightarrow> q \<in> set (s # P))"
proof -
  note q = spec_rx_insort [OF assms]
  have e: "N' = off_scan (max N (s - 63)) (insort s P)"
    using assms(4) by (auto simp: spec_rx_def Let_def)
  show ?thesis
    using off_scan_gap [OF q(4), of "max N (s - 63)", folded e] off_scan_ge [of "max N (s - 63)" "insort s P", folded e]
      spec_rx_win [OF assms] q(5) by auto
qed

text \<open>
  C8: One received frame refines the abstract window: for a frame whose number is at or after
  the window start and not buffered, the context releases the frames of exactly the numbers
  \<open>spec_rx\<close> releases, in their order, keeps the rest, loses no descriptor and leaves the
  reorder timer running exactly when frames stay buffered. The new window start \<open>N'\<close> is the
  first number missing at or after the larger of \<open>N\<close> and \<open>s - 63\<close>. The only fault is one of
  delivering the released frames.
\<close>

theorem reord_process_ctrl_refines:
  assumes "reord_abs R c N P" and "tagged R f s" and "N \<le> s" and "s < N + 2048" and "s \<notin> set P"
    and "spec_rx N P s = (N', P', D)"
  shows "\<exists>ds c'. reord_process_ctrl rx c f =
             (case flush_loop rx ds of Inl e \<Rightarrow> Inl e | Inr rx' \<Rightarrow> Inr (0, rx', c'))
           \<and> list_all2 (tagged R) ds D \<and> reord_abs R c' N' P'
           \<and> mset ds + mset (reord_list c') = add_mset f (mset (reord_list c))
           \<and> timer_pending c' = (P' \<noteq> []) \<and> N' \<notin> set (s # P) \<and> max N (s - 63) \<le> N'
           \<and> (\<forall>q. max N (s - 63) \<le> q \<and> q < N' \<longrightarrow> q \<in> set (s # P))"
proof -
  have "win N P" using assms(1) by (simp add: reord_abs_def)
  then show ?thesis
    using process_ctrl_window [OF assms, of rx] spec_rx_first_gap [OF _ assms(3,5,6)] by blast
qed

theorem reord_process_ctrl_refines_witness:
  "\<exists>ds c'. reord_process_ctrl ex_rx (ex_ctrl 4095 [4096]) (ex_frame 4095) =
       (case flush_loop ex_rx ds of Inl e \<Rightarrow> Inl e | Inr rx' \<Rightarrow> Inr (0, rx', c'))
     \<and> list_all2 (tagged (plain ex_pay)) ds [4095, 4096] \<and> reord_abs (plain ex_pay) c' 4097 []
     \<and> mset ds + mset (reord_list c') = add_mset (ex_frame 4095) (mset (reord_list (ex_ctrl 4095 [4096])))
     \<and> timer_pending c' = ([] \<noteq> ([] :: nat list)) \<and> (4097 :: nat) \<notin> set (4095 # [4096]) \<and> max 4095 (4095 - 63) \<le> (4097 :: nat)
     \<and> (\<forall>q. max 4095 (4095 - 63) \<le> q \<and> q < 4097 \<longrightarrow> q \<in> set (4095 # [4096 :: nat]))"
  by (rule reord_process_ctrl_refines [of "plain ex_pay" _ 4095 "[4096]" _ 4095 4097 "[]" "[4095, 4096]"])
    (simp_all add: win_def spec_rx_def Let_def)

text \<open>
  A frame older than the window start is not buffered: it is indicated at once, out of
  order, unless byte 42 of its data is 0x80 (taken for RTP), in which case its buffer is freed
  and its descriptor returned; the context does not change.
\<close>

lemma reord_process_ctrl_late:
  assumes "reord_abs R c N P" and "tagged R f s" and "s < N" and "N \<le> s + 2048"
    and "42 < length (rx_data f)"
  shows "reord_process_ctrl rx c f =
           (if rx_data f ! 42 = 0x80 then Inr (0, discard_frame rx f, c)
            else case flush_loop rx [f] of Inl e \<Rightarrow> Inl e | Inr rx' \<Rightarrow> Inr (0, rx', c))"
  using process_ctrl_late [OF assms] .

lemma reord_process_ctrl_late_example:
  "reord_process_ctrl ex_rx (ex_ctrl 4096 []) (ex_frame 4095) =
     (if rx_data (ex_frame 4095) ! 42 = 0x80 then Inr (0, discard_frame ex_rx (ex_frame 4095), ex_ctrl 4096 [])
      else case flush_loop ex_rx [ex_frame 4095] of Inl e \<Rightarrow> Inl e | Inr rx' \<Rightarrow> Inr (0, rx', ex_ctrl 4096 []))"
  by (rule reord_process_ctrl_late [of "plain ex_pay" _ 4096 "[]" _ 4095])
    (simp_all add: win_def, simp add: ex_frame_def ex_pay_def)

text \<open>
  C21: The reorder timer makes progress: when its work runs on a context with buffered frames,
  the oldest buffered number \<open>p\<close> and every number consecutive to it are released, the window
  start moves past \<open>p\<close>, fewer frames stay buffered, and the timer is armed again while any do.
\<close>

theorem reord_timeout_progress:
  assumes "reord_abs R c N (p # P)"
  shows "\<exists>ds c' N' P'. reord_timeout_worker rx c =
             (case flush_loop rx ds of Inl e \<Rightarrow> Inl e | Inr rx' \<Rightarrow> Inr (rx', c'))
           \<and> reord_abs R c' N' P' \<and> p < N' \<and> N' \<notin> set (p # P) \<and> (\<forall>q. p \<le> q \<and> q < N' \<longrightarrow> q \<in> set (p # P))
           \<and> list_all2 (tagged R) ds (filter (\<lambda>q. q < N') (p # P))
           \<and> length (reord_list c') < length (reord_list c) \<and> (P' \<noteq> [] \<longrightarrow> timer_pending c')"
proof -
  define n where "n = off_scan p (p # P)"
  have s: "sorted_wrt (<) (p # P)" using assms by (simp add: reord_abs_def win_def)
  have g: "n \<notin> set (p # P)" "\<forall>q. p \<le> q \<longrightarrow> q < n \<longrightarrow> q \<in> set (p # P)"
    using off_scan_gap [OF s, of p] unfolding n_def by blast+
  have p: "p < n" using off_scan_ge [of "Suc p" P] by (simp add: n_def)
  have "filter (\<lambda>q. q \<le> n) (p # P) = filter (\<lambda>q. q < n) (p # P)"
    using g(1) by (intro filter_cong) (auto simp: le_less)
  then have "spec_timeout N (p # P) = (n, filter (\<lambda>q. n < q) (p # P), filter (\<lambda>q. q < n) (p # P))"
    unfolding n_def by (simp only: spec_timeout_def list.case Let_def)
  then obtain ds c' where w: "reord_timeout_worker rx c =
        (case flush_loop rx ds of Inl e \<Rightarrow> Inl e | Inr rx' \<Rightarrow> Inr (rx', c'))"
      "list_all2 (tagged R) ds (filter (\<lambda>q. q < n) (p # P))" "reord_abs R c' n (filter (\<lambda>q. n < q) (p # P))"
      "mset ds + mset (reord_list c') = mset (reord_list c)"
      "timer_pending c' \<longleftrightarrow> timer_pending c \<or> filter (\<lambda>q. n < q) (p # P) \<noteq> []"
    using timeout_worker_window [OF assms] by blast
  have "length ds + length (reord_list c') = length (reord_list c)"
    using arg_cong [OF w(4), of size] by simp
  moreover have "ds \<noteq> []" using w(2) p by auto
  ultimately have "length (reord_list c') < length (reord_list c)" by (cases ds) auto
  then show ?thesis using w g p
    by (intro exI [of _ ds] exI [of _ c'] exI [of _ n] exI [of _ "filter (\<lambda>q. n < q) (p # P)"]) blast
qed

theorem reord_timeout_progress_witness:
  "\<exists>ds c' N' P'. reord_timeout_worker ex_rx (ex_ctrl 4090 [4095, 4096, 4100]) =
       (case flush_loop ex_rx ds of Inl e \<Rightarrow> Inl e | Inr rx' \<Rightarrow> Inr (rx', c'))
     \<and> reord_abs (plain ex_pay) c' N' P' \<and> 4095 < N' \<and> N' \<notin> set (4095 # [4096, 4100])
     \<and> (\<forall>q. 4095 \<le> q \<and> q < N' \<longrightarrow> q \<in> set (4095 # [4096, 4100]))
     \<and> list_all2 (tagged (plain ex_pay)) ds (filter (\<lambda>q. q < N') (4095 # [4096, 4100]))
     \<and> length (reord_list c') < length (reord_list (ex_ctrl 4090 [4095, 4096, 4100]))
     \<and> (P' \<noteq> [] \<longrightarrow> timer_pending c')"
  by (rule reord_timeout_progress [of "plain ex_pay" _ 4090]) (simp add: win_def)
end
