(* ===== verification/RxPool.thy ===== *)
theory RxPool
  imports RxReorder
begin

text \<open>
  The pool of frame descriptors: a descriptor taken from \<open>rxframes_freequeue\<close> is pending in one
  reorder list until it is indicated, discarded or flushed, and then goes back to the free
  queue. The operations of the receive path are the steps of a transition system whose
  invariant says that no descriptor is lost or duplicated.
\<close>

section \<open>The descriptors of a receive context\<close>

definition addrs :: "recv_msdu list \<Rightarrow> nat multiset" where
  "addrs fs = mset (map rf_addr fs)"

definition sta_frames :: "reord_ctrl_info \<Rightarrow> recv_msdu list" where
  "sta_frames i = concat (map reord_list (preorder_ctrl i))"

definition pending_frames :: "rx_priv \<Rightarrow> recv_msdu list" where
  "pending_frames rx = concat (map sta_frames (stas_reord_list rx))"

definition pool :: "rx_priv \<Rightarrow> nat multiset" where
  "pool rx = addrs (rxframes_freequeue rx) + addrs (pending_frames rx)"

definition has_pkt :: "recv_msdu list \<Rightarrow> bool" where
  "has_pkt fs \<longleftrightarrow> list_all (\<lambda>f. pkt f \<noteq> None) fs"

definition rx_wf :: "rx_priv \<Rightarrow> bool" where
  "rx_wf rx \<longleftrightarrow> has_pkt (pending_frames rx)
     \<and> list_all (\<lambda>i. length (preorder_ctrl i) = 8) (stas_reord_list rx)"

text \<open>From \<open>rx\<close> to \<open>rx'\<close> exactly the frames \<open>fs\<close> are returned to the free queue.\<close>

definition returns :: "rx_priv \<Rightarrow> recv_msdu list \<Rightarrow> rx_priv \<Rightarrow> bool" where
  "returns rx fs rx' \<longleftrightarrow> stas_reord_list rx' = stas_reord_list rx \<and> iftype rx' = iftype rx
     \<and> addrs (rxframes_freequeue rx') = addrs (rxframes_freequeue rx) + addrs fs"

lemma addrs_simps [simp]:
  "addrs [] = {#}" "addrs (f # fs) = add_mset (rf_addr f) (addrs fs)" "addrs (fs @ gs) = addrs fs + addrs gs"
  by (simp_all add: addrs_def)

lemma has_pkt_simps [simp]:
  "has_pkt []" "has_pkt (f # fs) \<longleftrightarrow> pkt f \<noteq> None \<and> has_pkt fs"
  "has_pkt (fs @ gs) \<longleftrightarrow> has_pkt fs \<and> has_pkt gs"
  by (auto simp: has_pkt_def)

lemma returns_refl [simp, intro]: "returns rx [] rx"
  by (simp add: returns_def)

lemma returns_trans [trans]: "returns rx fs rx' \<Longrightarrow> returns rx' gs rx'' \<Longrightarrow> returns rx (fs @ gs) rx''"
  by (simp add: returns_def add.assoc)

lemma returns_log [simp]: "returns rx fs (log_rx es rx') \<longleftrightarrow> returns rx fs rx'"
  by (simp add: returns_def log_rx_def)

lemma returns_log_refl [intro]: "returns rx [] (log_rx es rx)"
  by simp

lemma returns_free: "returns rx fs rx' \<Longrightarrow> rf_addr g = rf_addr f \<Longrightarrow> returns rx (f # fs) (reord_rxframe_free rx' g)"
  by (simp add: returns_def reord_rxframe_free_def)

lemma returns_deliver_all: "returns rx fs rx' \<Longrightarrow> returns rx fs (netif_deliver_all rx' skbs)"
  unfolding netif_deliver_all_def
proof (induction skbs arbitrary: rx')
  case (Cons s skbs)
  have "returns rx fs (netif_deliver rx' s)"
    using Cons.prems unfolding netif_deliver_def returns_log by (simp add: returns_def)
  then show ?case using Cons.IH by simp
qed simp

lemma returns_amsdu:
  "rwnx_rxdata_process_amsdu rx s = Inr (rx', l) \<Longrightarrow> returns rx [] rx'"
  by (auto simp: rwnx_rxdata_process_amsdu_def split: sum.splits) (simp add: returns_def)

lemma returns_single_frame:
  assumes "reord_single_frame_ind rx f = Inr (r, rx')" and "pkt f \<noteq> None"
  shows "returns rx [f] rx'"
proof -
  have "\<exists>rx1. returns rx [] rx1 \<and> rx' = reord_rxframe_free rx1 (f\<lparr>pkt := None\<rparr>)"
    using assms
    by (auto simp: reord_single_frame_ind_def Let_def intro: returns_deliver_all
        dest: returns_amsdu split: if_splits sum.splits)
  then show ?thesis by (auto intro: returns_free)
qed

lemma returns_discard: "returns rx [f] (discard_frame rx f)"
  by (auto simp: discard_frame_def intro!: returns_free split: option.splits)

lemma returns_flush_loop:
  "flush_loop rx fs = Inr rx' \<Longrightarrow> has_pkt fs \<Longrightarrow> returns rx fs rx'"
proof (induction fs arbitrary: rx)
  case (Cons f fs)
  then obtain r rx1 where "reord_single_frame_ind rx f = Inr (r, rx1)" "flush_loop rx1 fs = Inr rx'"
    by (auto split: sum.splits)
  then show ?case
    using Cons.IH [of rx1] Cons.prems(2) returns_single_frame [of rx f r rx1]
      returns_trans [of rx "[f]" rx1 fs rx'] by simp
qed simp

lemma returns_ind_loop:
  "reord_ind_loop rx sn fs = Inr (rx', gs) \<Longrightarrow> has_pkt fs \<Longrightarrow>
     \<exists>out. fs = out @ gs \<and> returns rx out rx'"
proof (induction fs arbitrary: rx)
  case (Cons f fs)
  show ?case
  proof (cases "SN_LESS sn (seq_num f)")
    case False
    then obtain r rx1 where "reord_single_frame_ind rx f = Inr (r, rx1)"
        and l: "reord_ind_loop rx1 sn fs = Inr (rx', gs)"
      using Cons.prems by (auto split: sum.splits)
    then have "returns rx [f] rx1" using Cons.prems(2) by (simp add: returns_single_frame)
    moreover obtain out where "fs = out @ gs" "returns rx1 out rx'"
      using Cons.IH [OF l] Cons.prems(2) by auto
    ultimately show ?thesis using returns_trans by (intro exI [of _ "f # out"]) fastforce
  qed (use Cons.prems in auto)
qed simp

lemma reord_insert_addrs: "reord_insert fs f = Some l \<Longrightarrow> mset l = add_mset f (mset fs)"
  by (induction fs arbitrary: l) (auto split: if_splits)

lemma addrs_mset: "mset fs = mset gs \<Longrightarrow> addrs fs = addrs gs"
  by (simp add: addrs_def)

lemma has_pkt_mset: "mset fs = mset gs \<Longrightarrow> has_pkt fs = has_pkt gs"
  by (metis has_pkt_def list.pred_set set_mset_mset)

text \<open>A frame handed to a reorder context is pending there or returned, and nothing else moves.\<close>

definition conserves :: "rx_priv \<Rightarrow> recv_msdu list \<Rightarrow> reord_ctrl \<Rightarrow> rx_priv \<Rightarrow> reord_ctrl \<Rightarrow> bool" where
  "conserves rx fs c rx' c' \<longleftrightarrow> has_pkt (reord_list c')
     \<and> (\<exists>out. returns rx out rx' \<and> addrs out + addrs (reord_list c') = addrs fs + addrs (reord_list c))"

lemma conserves_ind:
  assumes "reord_rxframes_ind rx c1 = Inr (rx', c')" and "has_pkt (reord_list c1)"
    and "addrs (reord_list c1) = addrs fs + addrs (reord_list c)"
  shows "conserves rx fs c rx' c'"
proof -
  obtain gs where "reord_ind_loop rx (ind_sn c1) (reord_list c1) = Inr (rx', gs)" "c' = c1\<lparr>reord_list := gs\<rparr>"
    using assms(1) by (auto simp: reord_rxframes_ind_def split: sum.splits)
  moreover from this(1) obtain out where "reord_list c1 = out @ gs" "returns rx out rx'"
    using returns_ind_loop assms(2) by blast
  ultimately show ?thesis using assms(2,3) by (auto simp: conserves_def)
qed

lemma need_check_reord_list: "reord_need_check c n = (c1, r) \<Longrightarrow> reord_list c1 = reord_list c"
  by (auto simp: reord_need_check_def Let_def split: if_splits)

lemma rxframes_process_reord_list: "reord_rxframes_process c b = (c1, r) \<Longrightarrow> reord_list c1 = reord_list c"
  by (auto simp: reord_rxframes_process_def Let_def split: list.splits prod.splits if_splits)

lemma conserves_out:
  "returns rx [f] rx' \<Longrightarrow> has_pkt (reord_list c) \<Longrightarrow> reord_list c' = reord_list c \<Longrightarrow> conserves rx [f] c rx' c'"
  by (auto simp: conserves_def intro!: exI [of _ "[f]"])

lemma conserves_process_ctrl:
  assumes "reord_process_ctrl rx c f = Inr (r, rx', c')" and "pkt f \<noteq> None" and "has_pkt (reord_list c)"
  shows "conserves rx [f] c rx' c'"
proof -
  obtain c1 r1 where n: "reord_need_check c (seq_num f) = (c1, r1)" by fastforce
  have l1: "reord_list c1 = reord_list c" using need_check_reord_list [OF n] .
  consider (now) "\<exists>b. reord_single_frame_ind rx f = Inr (b, rx')" "reord_list c' = reord_list c"
    | (drop) "rx' = discard_frame rx f" "reord_list c' = reord_list c"
    | (queue) l c3 b where "reord_insert (reord_list c1) f = Some l"
        "reord_rxframes_process (c1\<lparr>reord_list := l\<rparr>) False = (c3, b)"
        "reord_rxframes_ind rx (c3\<lparr>timer_pending := b\<rparr>) = Inr (rx', c')"
    using assms(1) n l1
    by (auto simp: reord_process_ctrl_def reord_rxframe_enqueue_def
        split: if_splits sum.splits prod.splits option.splits)
  then show ?thesis
  proof cases
    case now
    then show ?thesis using assms(2,3) by (auto intro: conserves_out returns_single_frame)
  next
    case drop
    then show ?thesis using assms(3) by (auto intro: conserves_out returns_discard)
  next
    case queue
    have m: "mset l = mset (f # reord_list c)" using reord_insert_addrs [OF queue(1)] l1 by simp
    have "reord_list c3 = l" using rxframes_process_reord_list [OF queue(2)] by simp
    then show ?thesis
      using queue(3) addrs_mset [OF m] has_pkt_mset [OF m] assms(2,3)
      by (intro conserves_ind [of rx "c3\<lparr>timer_pending := b\<rparr>"]) simp_all
  qed
qed

lemma conserves_timeout_worker:
  assumes "reord_timeout_worker rx c = Inr (rx', c')" and "has_pkt (reord_list c)"
  shows "conserves rx [] c rx' c'"
proof -
  obtain c1 again where p: "reord_rxframes_process c True = (c1, again)" by fastforce
  then have "reord_list c1 = reord_list c" by (rule rxframes_process_reord_list)
  then show ?thesis
    using assms p
    by (intro conserves_ind [of rx "if again then c1\<lparr>timer_pending := True\<rparr> else c1"])
      (auto simp: reord_timeout_worker_def)
qed


section \<open>Updating one reorder context\<close>

lemma addrs_concat_update:
  "i < length xs \<Longrightarrow>
     addrs (concat (map g (xs[i := y]))) + addrs (g (xs ! i)) = addrs (concat (map g xs)) + addrs (g y)"
  using mset_concat_update [of i xs "\<lambda>x. map rf_addr (g x)" y] by (simp add: addrs_def map_concat o_def)

lemma has_pkt_concat:
  "has_pkt (concat (map g xs)) \<longleftrightarrow> (\<forall>x\<in>set xs. has_pkt (g x))"
  by (induction xs) auto

lemma sta_frames_update:
  assumes "t < length (preorder_ctrl i)"
  shows "addrs (sta_frames (i\<lparr>preorder_ctrl := (preorder_ctrl i)[t := c]\<rparr>)) + addrs (reord_list (preorder_ctrl i ! t))
           = addrs (sta_frames i) + addrs (reord_list c)"
  using addrs_concat_update [OF assms, of reord_list c] by (simp add: sta_frames_def)

lemma pending_ctrl_put:
  assumes "i < length (stas_reord_list rx)" and "ctrl_get rx i t = Inr c0"
  shows "addrs (pending_frames (ctrl_put rx i t c)) + addrs (reord_list c0)
           = addrs (pending_frames rx) + addrs (reord_list c)"
proof -
  let ?s = "stas_reord_list rx ! i"
  let ?s' = "?s\<lparr>preorder_ctrl := (preorder_ctrl ?s)[unat t := c]\<rparr>"
  have "addrs (pending_frames (ctrl_put rx i t c)) + addrs (sta_frames ?s)
          = addrs (pending_frames rx) + addrs (sta_frames ?s')"
    using addrs_concat_update [OF assms(1), of sta_frames ?s'] by (simp add: pending_frames_def ctrl_put_def)
  moreover have "addrs (sta_frames ?s') + addrs (reord_list c0) = addrs (sta_frames ?s) + addrs (reord_list c)"
    using sta_frames_update [of "unat t" ?s c] assms(2) by (simp add: ctrl_get_def)
  ultimately show ?thesis by (rule add_balance)
qed

lemma rx_wf_ctrl_get:
  assumes "rx_wf rx" and "i < length (stas_reord_list rx)" and "ctrl_get rx i t = Inr c"
  shows "has_pkt (reord_list c)"
proof -
  have "c \<in> set (preorder_ctrl (stas_reord_list rx ! i))" using assms(3) by (auto simp: ctrl_get_def)
  then show ?thesis
    using assms(1,2) by (auto simp: rx_wf_def pending_frames_def sta_frames_def has_pkt_concat)
qed

lemma rx_wf_ctrl_put:
  assumes "rx_wf rx" and "i < length (stas_reord_list rx)" and "has_pkt (reord_list c)"
  shows "rx_wf (ctrl_put rx i t c)"
proof -
  let ?s = "stas_reord_list rx ! i"
  let ?s' = "?s\<lparr>preorder_ctrl := (preorder_ctrl ?s)[unat t := c]\<rparr>"
  have s: "?s \<in> set (stas_reord_list rx)" using assms(2) by simp
  then have "has_pkt (sta_frames ?s)" and l: "length (preorder_ctrl ?s) = 8"
    using assms(1) by (auto simp: rx_wf_def pending_frames_def has_pkt_concat list_all_iff)
  then have "has_pkt (sta_frames ?s')"
    using assms(3) set_update_subset_insert [of "preorder_ctrl ?s" "unat t" c]
    by (auto simp: sta_frames_def has_pkt_concat)
  then show ?thesis
    using assms(1) l set_update_subset_insert [of "stas_reord_list rx" i ?s']
    by (auto simp: rx_wf_def pending_frames_def has_pkt_concat list_all_iff ctrl_put_def)
qed

text \<open>The result of one operation on a reorder context, put back into the receive context.\<close>

lemma pool_ctrl_put:
  assumes "rx_wf rx" and "i < length (stas_reord_list rx)" and "ctrl_get rx i t = Inr c0"
    and "conserves rx fs c rx' c'" and "reord_list c = reord_list c0"
  shows "rx_wf (ctrl_put rx' i t c') \<and> pool (ctrl_put rx' i t c') = addrs fs + pool rx
           \<and> iftype (ctrl_put rx' i t c') = iftype rx"
proof -
  obtain out where o: "returns rx out rx'" "addrs out + addrs (reord_list c') = addrs fs + addrs (reord_list c0)"
    and h: "has_pkt (reord_list c')"
    using assms(4,5) by (auto simp: conserves_def)
  have s: "stas_reord_list rx' = stas_reord_list rx" "iftype rx' = iftype rx"
    and q: "addrs (rxframes_freequeue rx') = addrs (rxframes_freequeue rx) + addrs out"
    using o(1) by (auto simp: returns_def)
  have w: "rx_wf rx'" and g: "ctrl_get rx' i t = Inr c0" and i: "i < length (stas_reord_list rx')"
      and p: "pending_frames rx' = pending_frames rx"
    using assms(1-3) s by (simp_all add: rx_wf_def pending_frames_def ctrl_get_def)
  have "addrs (pending_frames (ctrl_put rx' i t c')) + addrs (reord_list c0)
      = addrs (pending_frames rx) + addrs (reord_list c')"
    using pending_ctrl_put [OF i g, of c'] by (simp add: p)
  then have "addrs out + addrs (pending_frames (ctrl_put rx' i t c')) = addrs fs + addrs (pending_frames rx)"
    using add_balance [OF o(2), of "addrs (pending_frames (ctrl_put rx' i t c'))" "addrs (pending_frames rx)"]
    by (simp add: add.commute)
  moreover have "rxframes_freequeue (ctrl_put rx' i t c') = rxframes_freequeue rx'" "iftype (ctrl_put rx' i t c') = iftype rx'"
    by (simp_all add: ctrl_put_def)
  ultimately show ?thesis
    using rx_wf_ctrl_put [OF w i h] s(2) by (simp add: pool_def q add.assoc add.left_commute)
qed

section \<open>The steps of the receive path\<close>

text \<open>The interface types for which \<open>reord_process_unit\<close> finds the station address.\<close>

definition reord_iftype :: "nl80211_iftype \<Rightarrow> bool" where
  "reord_iftype ift \<longleftrightarrow> ift \<in> {IFTYPE_STATION, IFTYPE_P2P_CLIENT, IFTYPE_AP, IFTYPE_P2P_GO}"

lemma reord_mac_Some: "reord_iftype ift \<Longrightarrow> \<exists>mac. reord_mac ift skb = Some mac"
  by (auto simp: reord_iftype_def reord_mac_def)

lemma find_sta_bound: "find_sta is mac = Some i \<Longrightarrow> i < length is"
  by (induction "is" arbitrary: i) (auto split: if_splits)

lemma pool_returns:
  "returns rx [f] rx' \<Longrightarrow> rx_wf rx \<Longrightarrow>
     rx_wf rx' \<and> pool rx' = add_mset (rf_addr f) (pool rx) \<and> iftype rx' = iftype rx"
  by (simp add: returns_def rx_wf_def pool_def pending_frames_def)

lemma pool_process_at:
  assumes "reord_process_at rx i t c f = Inr (r, rx')" and "rx_wf rx" and "i < length (stas_reord_list rx)"
    and "ctrl_get rx i t = Inr c0" and "reord_list c = reord_list c0" and "pkt f \<noteq> None"
  shows "rx_wf rx' \<and> pool rx' = add_mset (rf_addr f) (pool rx) \<and> iftype rx' = iftype rx"
proof -
  obtain rx1 c1 where p: "reord_process_ctrl rx c f = Inr (r, rx1, c1)" "rx' = ctrl_put rx1 i t c1"
    using assms(1) by (auto simp: reord_process_at_def split: sum.splits)
  have "conserves rx [f] c rx1 c1"
    using conserves_process_ctrl [OF p(1) assms(6)] rx_wf_ctrl_get [OF assms(2-4)] assms(5) by simp
  then show ?thesis
    using pool_ctrl_put [OF assms(2-4)] assms(5) p(2) by simp
qed

lemma pool_init_sta:
  assumes "reord_init_sta rx mac = Some info" and "rx_wf rx"
  defines "rx1 \<equiv> rx\<lparr>stas_reord_list := stas_reord_list rx @ [info]\<rparr>"
  shows "rx_wf rx1 \<and> pool rx1 = pool rx"
proof -
  have "sta_frames info = []" "length (preorder_ctrl info) = 8"
    using assms(1) by (auto simp: reord_init_sta_def sta_frames_def reord_ctrl_new_def split: if_splits)
  then show ?thesis
    using assms(2) by (simp add: rx1_def rx_wf_def pool_def pending_frames_def)
qed

lemma pool_process_unit:
  assumes u: "reord_process_unit f0 rx skb sn t fwd amsdu = Inr (r, rx')" and w: "rx_wf rx"
    and ift: "reord_iftype (iftype rx)"
  shows "rx_wf rx' \<and> pool rx' = add_mset (rf_addr f0) (pool rx) \<and> iftype rx' = iftype rx"
proof -
  define f where "f = frame_fill f0 skb sn t fwd amsdu"
  have f: "pkt f \<noteq> None" "rf_addr f = rf_addr f0" by (simp_all add: f_def frame_fill_def)
  have single: ?thesis if "reord_single_frame_ind rx f = Inr (b, rx')" for b
    using pool_returns [OF returns_single_frame [OF that f(1)] w] f(2) by simp
  obtain mac where mac: "reord_mac (iftype rx) skb = Some mac" using reord_mac_Some ift by blast
  note U = u [unfolded reord_process_unit_def Let_def, folded f_def, unfolded mac]
  show ?thesis
  proof (cases "(skb ! 12 = 0x88 \<and> skb ! 13 = 0x8e) \<or> (skb ! 0) AND 0x01 \<noteq> 0")
    case True
    then show ?thesis using U single by (simp split: if_splits)
  next
    case bc: False
    show ?thesis
    proof (cases "find_sta (stas_reord_list rx) mac")
      case (Some i)
      then show ?thesis
        using U bc pool_process_at [OF _ w find_sta_bound [OF Some]] f
        by (auto split: if_splits sum.splits)
    next
      case None
      show ?thesis
      proof (cases "reord_init_sta rx mac")
        case None
        then show ?thesis
          using U bc \<open>find_sta _ _ = None\<close> single by (auto split: if_splits sum.splits)
      next
        case (Some info)
        define rx1 where "rx1 = rx\<lparr>stas_reord_list := stas_reord_list rx @ [info]\<rparr>"
        obtain c where "ctrl_get rx1 (length (stas_reord_list rx)) t = Inr c"
            "reord_process_at rx1 (length (stas_reord_list rx)) t c f = Inr (r, rx')"
          using U bc Some \<open>find_sta _ _ = None\<close> by (auto simp: rx1_def split: if_splits sum.splits)
        then show ?thesis
          using pool_process_at [of rx1 "length (stas_reord_list rx)" t c f r rx' c] f
            pool_init_sta [OF Some w] by (simp add: rx1_def)
      qed
    qed
  qed
qed


lemma pool_flush_tid:
  assumes fl: "reord_flush_tid rx skb t = Inr (r, rx')" and w: "rx_wf rx"
  shows "rx_wf rx' \<and> pool rx' = pool rx \<and> iftype rx' = iftype rx"
proof -
  consider (keep) es where "rx' = log_rx es rx \<or> rx' = rx"
    | (flush) mac i c rx1 where "find_sta (stas_reord_list rx) mac = Some i" "ctrl_get rx i t = Inr c"
        "flush_loop rx (reord_list c) = Inr rx1" 
        "rx' = ctrl_put rx1 i t
           (c\<lparr>reord_list := [], enable := False, timer_pending := False, work_pending := False\<rparr>)"
    using fl by (auto simp: reord_flush_tid_def split: if_splits option.splits sum.splits)
  then show ?thesis
  proof cases
    case keep
    then show ?thesis
      using w by (auto simp: rx_wf_def pool_def pending_frames_def log_rx_def)
  next
    case flush
    have i: "i < length (stas_reord_list rx)" using find_sta_bound [OF flush(1)] .
    have "conserves rx [] c rx1
        (c\<lparr>reord_list := [], enable := False, timer_pending := False, work_pending := False\<rparr>)"
      using returns_flush_loop [OF flush(3) rx_wf_ctrl_get [OF w i flush(2)]]
      by (auto simp: conserves_def)
    then show ?thesis using pool_ctrl_put [OF w i flush(2)] flush(4) by simp
  qed
qed

lemma returns_deinit_ctrl: "returns rx (reord_list c) (deinit_ctrl rx c)"
proof -
  have "returns rx fs (foldl discard_frame rx fs)" for fs
  proof (induction fs arbitrary: rx)
    case (Cons f fs)
    then show ?case
      using returns_trans [OF returns_discard [of rx f] Cons.IH [of "discard_frame rx f"]] by simp
  qed simp
  then show ?thesis by (simp add: deinit_ctrl_def)
qed

lemma returns_deinit_ctrls: "returns rx (concat (map reord_list cs)) (foldl deinit_ctrl rx cs)"
proof (induction cs arbitrary: rx)
  case (Cons c cs)
  then show ?case
    using returns_trans [OF returns_deinit_ctrl [of rx c] Cons.IH [of "deinit_ctrl rx c"]] by simp
qed simp

lemma pool_deinit_sta:
  assumes "i < length (stas_reord_list rx)" and "rx_wf rx"
  shows "rx_wf (reord_deinit_sta rx i) \<and> pool (reord_deinit_sta rx i) = pool rx
           \<and> iftype (reord_deinit_sta rx i) = iftype rx"
proof -
  let ?s = "stas_reord_list rx"
  let ?rx = "foldl deinit_ctrl rx (preorder_ctrl (?s ! i))"
  have "returns rx (sta_frames (?s ! i)) ?rx"
    using returns_deinit_ctrls by (simp add: sta_frames_def)
  then have q: "addrs (rxframes_freequeue ?rx) = addrs (rxframes_freequeue rx) + addrs (sta_frames (?s ! i))"
      and f: "iftype ?rx = iftype rx"
    by (simp_all add: returns_def)
  have s: "?s = take i ?s @ ?s ! i # drop (Suc i) ?s" using assms(1) by (simp add: id_take_nth_drop)
  have "pending_frames rx = concat (map sta_frames (take i ?s)) @ sta_frames (?s ! i)
      @ concat (map sta_frames (drop (Suc i) ?s))"
    unfolding pending_frames_def by (subst s) simp
  moreover have "set (take i ?s @ drop (Suc i) ?s) \<subseteq> set ?s"
    using set_take_subset [of i ?s] set_drop_subset [of "Suc i" ?s] by auto
  ultimately show ?thesis
    using assms(2) q f
    by (auto simp: reord_deinit_sta_def rx_wf_def pool_def pending_frames_def list_all_iff add.left_commute add.assoc)
qed

text \<open>
  The steps: a received unit for which a descriptor could be allocated, the flush of a TID, the
  work item of an expired timer on one of the eight contexts of a station, and the removal
  of a station.
\<close>

inductive rx_step :: "rx_priv \<Rightarrow> rx_priv \<Rightarrow> bool" where
  receive: "reord_rxframe_alloc rx = (Some f, rx1) \<Longrightarrow>
    reord_process_unit f rx1 skb sn t fwd amsdu = Inr (r, rx') \<Longrightarrow> rx_step rx rx'"
| flush: "reord_flush_tid rx skb t = Inr (r, rx') \<Longrightarrow> rx_step rx rx'"
| expire: "i < length (stas_reord_list rx) \<Longrightarrow> ctrl_get rx i t = Inr c \<Longrightarrow>
    reord_timeout_worker rx c = Inr (rx1, c') \<Longrightarrow> rx_step rx (ctrl_put rx1 i t c')"
| remove: "i < length (stas_reord_list rx) \<Longrightarrow> rx_step rx (reord_deinit_sta rx i)"

inductive_cases rx_stepE: "rx_step rx rx'"

definition rx_init :: "nat multiset \<Rightarrow> rx_priv \<Rightarrow> bool" where
  "rx_init A rx \<longleftrightarrow> stas_reord_list rx = [] \<and> addrs (rxframes_freequeue rx) = A \<and> reord_iftype (iftype rx)"

definition pool_inv :: "nat multiset \<Rightarrow> rx_priv \<Rightarrow> bool" where
  "pool_inv A rx \<longleftrightarrow> rx_wf rx \<and> pool rx = A \<and> reord_iftype (iftype rx)"

lemma pool_inv_step:
  assumes "pool_inv A rx" and "rx_step rx rx'"
  shows "pool_inv A rx'"
  using assms(2)
proof cases
  case (receive f rx1 skb sn t fwd amsdu r)
  have a: "rxframes_freequeue rx = f # rxframes_freequeue rx1" "stas_reord_list rx1 = stas_reord_list rx"
      "iftype rx1 = iftype rx"
    using receive(1) by (auto simp: reord_rxframe_alloc_def split: list.splits)
  then have "rx_wf rx1" "pool rx = add_mset (rf_addr f) (pool rx1)" "reord_iftype (iftype rx1)"
    using assms(1) by (auto simp: pool_inv_def rx_wf_def pool_def pending_frames_def)
  then show ?thesis using pool_process_unit [OF receive(2)] assms(1) a by (simp add: pool_inv_def)
next
  case (flush skb t r)
  then show ?thesis using pool_flush_tid [OF flush] assms(1) by (simp add: pool_inv_def)
next
  case (expire i t c rx1 c')
  have w: "rx_wf rx" using assms(1) by (simp add: pool_inv_def)
  have "conserves rx [] c rx1 c'"
    using conserves_timeout_worker [OF expire(4)] rx_wf_ctrl_get [OF w expire(2,3)] by blast
  then show ?thesis
    using pool_ctrl_put [OF w expire(2,3)] expire(1) assms(1) by (simp add: pool_inv_def)
next
  case (remove i)
  then show ?thesis using pool_deinit_sta assms(1) by (simp add: pool_inv_def)
qed

interpretation rx_pool: transition_system "rx_init A" rx_step "pool_inv A" for A
proof unfold_locales
  show "rx_init A rx \<Longrightarrow> pool_inv A rx" for rx
    by (auto simp: rx_init_def pool_inv_def rx_wf_def pool_def pending_frames_def)
qed (rule pool_inv_step)


section \<open>Concrete instances\<close>

definition ex_recv_msdu :: "nat \<Rightarrow> recv_msdu" where
  "ex_recv_msdu a = \<lparr>rf_addr = a, pkt = None, tid = 0, forward = 0, seq_num = 0, is_amsdu = 0,
     is_ap_reord = 0, ap_fwd_cnt = 0, ap_resend_cnt = 0, rx_data = [], fwd_skbs = [], resend_skbs = []\<rparr>"

definition ex_pool_rx :: "nl80211_iftype \<Rightarrow> rx_priv" where
  "ex_pool_rx ift = \<lparr>bus_down = False, usb_down = False, iftype = ift, vif_found = True, skb_mem = 8,
     kmalloc_ok = True, rx_packets = 0, rx_bytes = 0, rxframes_freequeue = map ex_recv_msdu [1, 2],
     stas_reord_list = [], rx_log = []\<rparr>"

definition ex_skb :: skb where
  "ex_skb = [2, 0, 0, 0, 0, 1, 2, 0, 0, 0, 0, 2, 8, 0, 7]"

section \<open>Properties\<close>

text \<open>
  C7: No frame descriptor is lost or duplicated. From a receive context whose free queue holds
  the descriptors \<open>A\<close>, after any interleaving of received units, TID flushes, reorder timeouts
  and station removals on a station, client, access-point or group-owner interface, the free
  queue and the pending lists together hold exactly \<open>A\<close>; every pending descriptor still owns a
  buffer.
\<close>

theorem rx_pool_conserved:
  assumes "rx_init A rx" and "rx_step\<^sup>*\<^sup>* rx rx'"
  shows "pool rx' = A \<and> has_pkt (pending_frames rx')"
  using rx_pool.reachable_inv [OF assms] by (simp add: pool_inv_def rx_wf_def)

theorem rx_pool_conserved_witness:
  "\<exists>rx'. rx_step (ex_pool_rx IFTYPE_STATION) rx' \<and> pool rx' = {#1, 2#} \<and> has_pkt (pending_frames rx')"
proof -
  have a: "reord_rxframe_alloc (ex_pool_rx IFTYPE_STATION) =
      (Some (ex_recv_msdu 1), (ex_pool_rx IFTYPE_STATION)\<lparr>rxframes_freequeue := [ex_recv_msdu 2]\<rparr>)"
    by (simp add: reord_rxframe_alloc_def ex_pool_rx_def)
  have "\<exists>r rx'. reord_process_unit (ex_recv_msdu 1)
      ((ex_pool_rx IFTYPE_STATION)\<lparr>rxframes_freequeue := [ex_recv_msdu 2]\<rparr>) ex_skb 7 3 1 0 = Inr (r, rx')"
    by (simp add: reord_process_unit_def ex_skb_def ex_pool_rx_def reord_mac_def reord_init_sta_def
        ctrl_get_def array_get_def reord_ctrl_new_def reord_process_at_def reord_process_ctrl_def reord_need_check_def
        frame_fill_def SN_LESS_def SN_EQUAL_def reord_rxframe_enqueue_def reord_rxframes_process_def
        reord_rxframes_ind_def reord_single_frame_ind_def Let_def)
  then obtain rx' where s: "rx_step (ex_pool_rx IFTYPE_STATION) rx'"
    using receive [OF a] by blast
  moreover have "rx_init {#1, 2#} (ex_pool_rx IFTYPE_STATION)"
    by (simp add: rx_init_def ex_pool_rx_def ex_recv_msdu_def reord_iftype_def)
  ultimately show ?thesis
    using rx_pool_conserved [of "{#1, 2#}" _ rx'] by blast
qed

text \<open>
  A TID of 8 to 15 (the low nibble of the QoS control field) makes \<open>reord_process_unit\<close>
  access \<open>preorder_ctrl\<close> outside its eight elements, for every unicast data frame on an
  interface with reordering.
\<close>

lemma reord_process_unit_tid_fault:
  assumes "8 \<le> unat t" and "rx_wf rx" and "reord_iftype (iftype rx)" and "\<not> bus_down rx" and "kmalloc_ok rx"
    and "14 \<le> length skb" and "(skb ! 0) AND 1 = 0" and "skb ! 12 \<noteq> 0x88"
  shows "reord_process_unit f rx skb sn t fwd amsdu = Inl OutOfBounds"
proof -
  obtain mac where mac: "reord_mac (iftype rx) skb = Some mac" using reord_mac_Some assms(3) by blast
  show ?thesis
  proof (cases "find_sta (stas_reord_list rx) mac")
    case None
    then show ?thesis
      using assms mac by (simp add: reord_process_unit_def reord_init_sta_def ctrl_get_def array_get_def Let_def)
  next
    case (Some i)
    have "stas_reord_list rx ! i \<in> set (stas_reord_list rx)" using find_sta_bound [OF Some] by simp
    then have "length (preorder_ctrl (stas_reord_list rx ! i)) = 8"
      using assms(2) by (simp add: rx_wf_def list_all_iff)
    then show ?thesis
      using assms mac Some by (simp add: reord_process_unit_def ctrl_get_def array_get_def Let_def)
  qed
qed

lemma reord_process_unit_tid_fault_example:
  "reord_process_unit (ex_recv_msdu 1) (ex_pool_rx IFTYPE_STATION) ex_skb 7 9 1 0 = Inl OutOfBounds"
  by (rule reord_process_unit_tid_fault)
    (simp_all add: ex_pool_rx_def ex_skb_def rx_wf_def pending_frames_def reord_iftype_def)

text \<open>
  On any other interface type a unicast data frame is freed but its descriptor is neither
  queued nor returned: the pool shrinks by the allocated descriptor.
\<close>

lemma reord_process_unit_leak:
  assumes "reord_rxframe_alloc rx = (Some f, rx1)" and "\<not> reord_iftype (iftype rx)"
    and "14 \<le> length skb" and "(skb ! 0) AND 1 = 0" and "skb ! 12 \<noteq> 0x88"
  shows "\<exists>rx'. reord_process_unit f rx1 skb sn t fwd amsdu = Inr (-1, rx')
           \<and> pool rx = add_mset (rf_addr f) (pool rx')"
proof -
  have a: "rxframes_freequeue rx = f # rxframes_freequeue rx1" "stas_reord_list rx1 = stas_reord_list rx"
      "iftype rx1 = iftype rx"
    using assms(1) by (auto simp: reord_rxframe_alloc_def split: list.splits)
  then have "reord_mac (iftype rx1) skb = None"
    using assms(2) by (simp add: reord_mac_def reord_iftype_def)
  then have "reord_process_unit f rx1 skb sn t fwd amsdu = Inr (-1, log_rx [DevKfreeSkb skb] rx1)"
    using assms(3-5) by (simp add: reord_process_unit_def)
  then show ?thesis using a by (simp add: pool_def pending_frames_def log_rx_def)
qed

lemma reord_process_unit_leak_example:
  "\<exists>rx'. reord_process_unit (ex_recv_msdu 1)
       ((ex_pool_rx IFTYPE_MESH_POINT)\<lparr>rxframes_freequeue := [ex_recv_msdu 2]\<rparr>) ex_skb 7 3 1 0 = Inr (-1, rx')
     \<and> pool (ex_pool_rx IFTYPE_MESH_POINT) = add_mset (rf_addr (ex_recv_msdu 1)) (pool rx')"
  by (rule reord_process_unit_leak)
    (simp_all add: reord_rxframe_alloc_def ex_pool_rx_def ex_skb_def reord_iftype_def)

end
