(* ===== verification/Amsdu.thy ===== *)
theory Amsdu
  imports RxReorder
begin

text \<open>
  The A-MSDU format of IEEE 802.11 as an encoder, and the de-aggregation loop of
  \<open>rwnx_rxdata_process_amsdu\<close> as its inverse: every subframe comes out, in order, with the
  LLC/SNAP header removed. The loop makes progress exactly when \<open>skb_pull\<close> can remove the
  aligned subframe.
\<close>

section \<open>The encoder\<close>

text \<open>One subframe: destination, source, and the LLC/SNAP header followed by the payload.\<close>

record amsdu_subframe =
  sf_da :: "u8 list"
  sf_sa :: "u8 list"
  sf_body :: "u8 list"

definition sf_wf :: "amsdu_subframe \<Rightarrow> bool" where
  "sf_wf s \<longleftrightarrow> length (sf_da s) = 6 \<and> length (sf_sa s) = 6
     \<and> 6 \<le> length (sf_body s) \<and> length (sf_body s) < 65519"

definition sf_bytes :: "amsdu_subframe \<Rightarrow> u8 list" where
  "sf_bytes s = sf_da s @ sf_sa s
     @ [of_nat (length (sf_body s) div 256), of_nat (length (sf_body s) mod 256)] @ sf_body s"

definition sf_pad :: "amsdu_subframe \<Rightarrow> nat" where
  "sf_pad s = roundup4 (length (sf_body s) + 14) - (length (sf_body s) + 14)"

text \<open>Every subframe but the last is padded to a multiple of four bytes.\<close>

fun amsdu_encode :: "amsdu_subframe list \<Rightarrow> u8 list" where
  "amsdu_encode [] = []"
| "amsdu_encode [s] = sf_bytes s"
| "amsdu_encode (s # t # ss) = sf_bytes s @ replicate (sf_pad s) 0 @ amsdu_encode (t # ss)"

definition sf_msdu :: "amsdu_subframe \<Rightarrow> skb" where
  "sf_msdu s = sf_da s @ sf_sa s @ drop 6 (sf_body s)"

section \<open>One iteration\<close>

lemma roundup4_bounds: "n \<le> roundup4 n" "roundup4 n \<le> n + 3"
  by (simp_all add: roundup4_def)

lemma length_sf_bytes: "sf_wf s \<Longrightarrow> length (sf_bytes s) = length (sf_body s) + 14"
  by (simp add: sf_wf_def sf_bytes_def)

lemma sublen_sf_bytes:
  assumes "sf_wf s"
  shows "amsdu_sublen (sf_bytes s @ rest) = length (sf_body s)"
proof -
  have "(sf_bytes s @ rest) ! 12 = of_nat (length (sf_body s) div 256)"
       "(sf_bytes s @ rest) ! 13 = of_nat (length (sf_body s) mod 256)"
    using assms by (simp_all add: sf_wf_def sf_bytes_def nth_append)
  moreover have "length (sf_body s) div 256 < 256"
    using assms by (intro less_mult_imp_div_less) (simp add: sf_wf_def)
  ultimately show ?thesis by (simp add: amsdu_sublen_def unat_of_nat)
qed

lemma sub_skb_sf_bytes:
  "sf_wf s \<Longrightarrow> amsdu_sub_skb (sf_bytes s @ rest) (length (sf_body s)) = sf_msdu s"
  by (simp add: sf_wf_def sf_bytes_def sf_msdu_def amsdu_sub_skb_def)

lemma amsdu_loop_last:
  assumes "sf_wf s"
  shows "amsdu_loop (Suc mem) True (sf_bytes s) acc = Inr (mem, acc @ [sf_msdu s])"
proof -
  have l: "length (sf_bytes s) = length (sf_body s) + 14" and b: "6 \<le> length (sf_body s)" "length (sf_body s) < 65519"
    using assms length_sf_bytes by (auto simp: sf_wf_def)
  have "amsdu_loop mem True [] (acc @ [sf_msdu s]) = Inr (mem, acc @ [sf_msdu s])"
    by (subst amsdu_loop.simps) simp
  then show ?thesis
    using l b sublen_sf_bytes [OF assms, of "[]"] sub_skb_sf_bytes [OF assms, of "[]"]
    by (subst amsdu_loop.simps) (simp add: Let_def skb_pull_def)
qed

lemma amsdu_loop_next:
  assumes "sf_wf s" and "rest \<noteq> []"
  shows "amsdu_loop (Suc mem) True (sf_bytes s @ replicate (sf_pad s) 0 @ rest) acc
           = amsdu_loop mem True rest (acc @ [sf_msdu s])"
proof -
  let ?d = "sf_bytes s @ replicate (sf_pad s) 0 @ rest"
  let ?n = "length (sf_body s)"
  have l: "length (sf_bytes s) = ?n + 14" and b: "6 \<le> ?n" "?n < 65519"
    using assms length_sf_bytes by (auto simp: sf_wf_def)
  have p: "?n + 14 + sf_pad s = roundup4 (?n + 14)" and r: "roundup4 (?n + 14) < 65536"
    using roundup4_bounds [of "?n + 14"] b by (auto simp: sf_pad_def)
  have "length ?d = roundup4 (?n + 14) + length rest" using l p by simp
  moreover have "drop (roundup4 (?n + 14)) ?d = rest" using l by (simp flip: p)
  moreover have "?n + 14 < length ?d" using l assms(2) by simp
  ultimately show ?thesis
    using b r sublen_sf_bytes [OF assms(1)] sub_skb_sf_bytes [OF assms(1)]
    by (subst amsdu_loop.simps) (simp add: Let_def skb_pull_def)
qed

lemma amsdu_encode_neq: "sf_wf s \<Longrightarrow> amsdu_encode (s # ss) \<noteq> []"
  by (cases ss) (auto simp: sf_bytes_def)

lemma amsdu_loop_encode:
  "list_all sf_wf ss \<Longrightarrow> length ss \<le> mem \<Longrightarrow>
     amsdu_loop mem True (amsdu_encode ss) acc = Inr (mem - length ss, acc @ map sf_msdu ss)"
proof (induction ss arbitrary: mem acc rule: amsdu_encode.induct)
  case 1
  show ?case by (subst amsdu_loop.simps) simp
next
  case (2 s)
  then obtain m where "mem = Suc m" by (cases mem) auto
  then show ?case using 2 amsdu_loop_last by simp
next
  case (3 s t ss)
  then obtain m where m: "mem = Suc m" by (cases mem) auto
  have "amsdu_encode (t # ss) \<noteq> []" using 3 amsdu_encode_neq by simp
  then show ?case
    using amsdu_loop_next [of s "amsdu_encode (t # ss)" m acc] 3 m by simp
qed

text \<open>When the aligned subframe is longer than the buffer, the same subframe is taken again.\<close>

lemma amsdu_loop_stuck:
  assumes "16 < length data" and "6 \<le> amsdu_sublen data" and "amsdu_sublen data + 14 < length data"
    and "length data < roundup4 (amsdu_sublen data + 14)" and "length data < 65533"
  shows "amsdu_loop mem True data acc =
           Inr (0, acc @ replicate mem (amsdu_sub_skb data (amsdu_sublen data)))"
proof (induction mem arbitrary: acc)
  case 0
  show ?case using assms by (subst amsdu_loop.simps) (simp add: Let_def)
next
  case (Suc mem)
  have "roundup4 (amsdu_sublen data + 14) < 65536"
    using roundup4_bounds [of "amsdu_sublen data + 14"] assms(3,5) by simp
  then have "amsdu_loop (Suc mem) True data acc
      = amsdu_loop mem True data (acc @ [amsdu_sub_skb data (amsdu_sublen data)])"
    using assms by (subst amsdu_loop.simps) (simp add: Let_def skb_pull_def)
  then show ?case using Suc by simp
qed


section \<open>Properties\<close>

text \<open>
  C9: A-MSDU round trip. De-aggregating the encoding of well-formed subframes yields, in
  order, one MSDU per subframe (addresses and payload, the LLC/SNAP header removed), consumes
  one buffer allocation each and frees the aggregate.
\<close>

theorem process_amsdu_encode:
  assumes "list_all sf_wf ss" and "length ss \<le> skb_mem rx" and "vif_found rx"
  shows "rwnx_rxdata_process_amsdu rx (amsdu_encode ss) =
           Inr (log_rx [DevKfreeSkb (amsdu_encode ss)] (rx\<lparr>skb_mem := skb_mem rx - length ss\<rparr>), map sf_msdu ss)"
  using amsdu_loop_encode [OF assms(1,2), of "[]"] assms(3) by (simp add: rwnx_rxdata_process_amsdu_def)

theorem process_amsdu_encode_witness:
  "rwnx_rxdata_process_amsdu
     \<lparr>bus_down = False, usb_down = False, iftype = IFTYPE_STATION, vif_found = True, skb_mem = 2, kmalloc_ok = True,
      rx_packets = 0, rx_bytes = 0, rxframes_freequeue = [], stas_reord_list = [], rx_log = []\<rparr>
     (amsdu_encode [\<lparr>sf_da = replicate 6 1, sf_sa = replicate 6 2, sf_body = [0xaa, 0xaa, 3, 0, 0, 0, 8, 0, 9]\<rparr>,
                    \<lparr>sf_da = replicate 6 3, sf_sa = replicate 6 4, sf_body = [0xaa, 0xaa, 3, 0, 0, 0, 8, 0]\<rparr>]) =
   Inr (log_rx [DevKfreeSkb
           (amsdu_encode [\<lparr>sf_da = replicate 6 1, sf_sa = replicate 6 2, sf_body = [0xaa, 0xaa, 3, 0, 0, 0, 8, 0, 9]\<rparr>,
                    \<lparr>sf_da = replicate 6 3, sf_sa = replicate 6 4, sf_body = [0xaa, 0xaa, 3, 0, 0, 0, 8, 0]\<rparr>])]
     \<lparr>bus_down = False, usb_down = False, iftype = IFTYPE_STATION, vif_found = True, skb_mem = 0, kmalloc_ok = True,
      rx_packets = 0, rx_bytes = 0, rxframes_freequeue = [], stas_reord_list = [], rx_log = []\<rparr>,
     [replicate 6 1 @ replicate 6 2 @ [8, 0, 9], replicate 6 3 @ replicate 6 4 @ [8, 0]])"
  by (subst process_amsdu_encode) (simp_all add: sf_wf_def sf_msdu_def)

text \<open>
  No progress on a truncated pad. When the last subframe is followed by fewer pad bytes than
  the alignment asks for, \<open>skb_pull\<close> removes nothing and the loop appends the same MSDU again
  until no buffer can be allocated.
\<close>

lemma process_amsdu_exhausts_memory:
  assumes "16 < length data" and "6 \<le> amsdu_sublen data" and "amsdu_sublen data + 14 < length data"
    and "length data < roundup4 (amsdu_sublen data + 14)" and "length data < 65533" and "vif_found rx"
  shows "rwnx_rxdata_process_amsdu rx data =
           Inr (log_rx [DevKfreeSkb data] (rx\<lparr>skb_mem := 0\<rparr>),
                replicate (skb_mem rx) (amsdu_sub_skb data (amsdu_sublen data)))"
  using amsdu_loop_stuck [OF assms(1-5), of _ "[]"] assms(6) by (simp add: rwnx_rxdata_process_amsdu_def)

lemma process_amsdu_exhausts_memory_example:
  "rwnx_rxdata_process_amsdu
     \<lparr>bus_down = False, usb_down = False, iftype = IFTYPE_STATION, vif_found = True, skb_mem = 3, kmalloc_ok = True,
      rx_packets = 0, rx_bytes = 0, rxframes_freequeue = [], stas_reord_list = [], rx_log = []\<rparr>
     [0, 0, 0, 0, 0, 0, 0, 0, 0, 0, 0, 0, 0, 7, 5, 5, 5, 5, 5, 5, 5, 5] =
   Inr (log_rx [DevKfreeSkb [0, 0, 0, 0, 0, 0, 0, 0, 0, 0, 0, 0, 0, 7, 5, 5, 5, 5, 5, 5, 5, 5]]
     \<lparr>bus_down = False, usb_down = False, iftype = IFTYPE_STATION, vif_found = True, skb_mem = 0, kmalloc_ok = True,
      rx_packets = 0, rx_bytes = 0, rxframes_freequeue = [], stas_reord_list = [], rx_log = []\<rparr>,
     [[0, 0, 0, 0, 0, 0, 0, 0, 0, 0, 0, 0, 5],
      [0, 0, 0, 0, 0, 0, 0, 0, 0, 0, 0, 0, 5],
      [0, 0, 0, 0, 0, 0, 0, 0, 0, 0, 0, 0, 5]])"
  by (subst process_amsdu_exhausts_memory)
    (simp_all add: amsdu_sublen_def roundup4_def amsdu_sub_skb_def numeral_3_eq_3)

end
