(* ===== verification/CmdMgr.thy ===== *)
theory CmdMgr
  imports Prelude
begin

text \<open>
  The firmware command manager (rwnx_cmds.c) with the command array it allocates from
  (\<open>rwnx_cmd_malloc\<close>, \<open>rwnx_cmd_free\<close>, \<open>rwnx_send_msg\<close> of rwnx_msg_tx.c). The list \<open>cmds\<close> holds
  indices into \<open>cmd_array\<close>. A function that blocks is split at its wait: \<open>cmd_mgr_queue\<close> is the
  part up to \<open>wait_for_completion_killable_timeout\<close>, \<open>cmd_mgr_queue_wake\<close> the part after it, and
  likewise \<open>task_push\<close> and \<open>task_wake\<close> for one round of \<open>cmd_mgr_task_process\<close>.
\<close>

section \<open>Flags and identifiers\<close>

definition BIT :: "nat \<Rightarrow> u16" where
  "BIT n = push_bit n 1"

abbreviation (input) RWNX_CMD_FLAG_NONBLOCK :: u16 where "RWNX_CMD_FLAG_NONBLOCK \<equiv> BIT 0"
abbreviation (input) RWNX_CMD_FLAG_REQ_CFM :: u16 where "RWNX_CMD_FLAG_REQ_CFM \<equiv> BIT 1"
abbreviation (input) RWNX_CMD_FLAG_WAIT_PUSH :: u16 where "RWNX_CMD_FLAG_WAIT_PUSH \<equiv> BIT 2"
abbreviation (input) RWNX_CMD_FLAG_WAIT_ACK :: u16 where "RWNX_CMD_FLAG_WAIT_ACK \<equiv> BIT 3"
abbreviation (input) RWNX_CMD_FLAG_WAIT_CFM :: u16 where "RWNX_CMD_FLAG_WAIT_CFM \<equiv> BIT 4"
abbreviation (input) RWNX_CMD_FLAG_DONE :: u16 where "RWNX_CMD_FLAG_DONE \<equiv> BIT 5"

definition has_flag :: "u16 \<Rightarrow> u16 \<Rightarrow> bool" where
  "has_flag flags m \<longleftrightarrow> flags AND m \<noteq> 0"

definition RWNX_CMD_WAIT_COMPLETE :: "u16 \<Rightarrow> bool" where
  "RWNX_CMD_WAIT_COMPLETE flags \<longleftrightarrow> \<not> has_flag flags (RWNX_CMD_FLAG_WAIT_ACK OR RWNX_CMD_FLAG_WAIT_CFM)"

abbreviation (input) RWNX_CMD_MAX_QUEUED :: u32 where "RWNX_CMD_MAX_QUEUED \<equiv> 16"
abbreviation (input) RWNX_CMD_ARRAY_SIZE :: nat where "RWNX_CMD_ARRAY_SIZE \<equiv> 40"
abbreviation (input) RWNX_CMD_E2AMSG_LEN_MAX :: nat where "RWNX_CMD_E2AMSG_LEN_MAX \<equiv> 1024"
abbreviation (input) CMD_BUF_MAX :: nat where "CMD_BUF_MAX \<equiv> 1536"
abbreviation (input) ME_TRAFFIC_IND_REQ :: u16 where "ME_TRAFFIC_IND_REQ \<equiv> 5132"
abbreviation (input) MM_SET_ARPOFFLOAD_REQ :: u16 where "MM_SET_ARPOFFLOAD_REQ \<equiv> 97"
abbreviation (input) EINTR :: int where "EINTR \<equiv> 4"
abbreviation (input) ENOMEM :: int where "ENOMEM \<equiv> 12"
abbreviation (input) EPIPE :: int where "EPIPE \<equiv> 32"
abbreviation (input) ETIMEDOUT :: int where "ETIMEDOUT \<equiv> 110"

section \<open>State\<close>

datatype rwnx_cmd_mgr_state =
    RWNX_CMD_MGR_STATE_DEINIT
  | RWNX_CMD_MGR_STATE_INITED
  | RWNX_CMD_MGR_STATE_CRASHED

text \<open>\<open>struct lmac_msg\<close>; \<open>param_len\<close> is the length of \<open>param\<close>.\<close>

record lmac_msg =
  msg_id :: u16
  dest_id :: u16
  src_id :: u16
  param :: "u8 list"

text \<open>
  \<open>struct rwnx_cmd\<close>. \<open>a2e_msg\<close> is \<open>None\<close> after \<open>kfree\<close>, \<open>e2a_msg\<close> is the caller's buffer for the
  confirmation if it gave one, \<open>completed\<close> the \<open>done\<close> count of the completion being non-zero.
\<close>

record rwnx_cmd =
  reqid :: u16
  a2e_msg :: "lmac_msg option"
  e2a_msg :: "u8 list option"
  tkn :: u32
  flags :: u16
  completed :: bool
  result :: int
  used :: bool

text \<open>
  \<open>struct rwnx_cmd_mgr\<close>, the global \<open>cmd_array\<close>, and what the functions use of the device: its
  state, the transmit wake lock, the pending state of \<open>cmdWork\<close>, and the messages handed to the
  bus by \<open>aicwf_bus_txmsg\<close>.
\<close>

record cmd_mgr =
  state :: rwnx_cmd_mgr_state
  next_tkn :: u32
  queue_sz :: u32
  max_queue_sz :: u32
  cmds :: "nat list"
  cmd_array :: "rwnx_cmd list"
  usb_state :: aicwf_usb_state
  ws_tx :: bool
  work_queued :: bool
  tx_msgs :: "u8 list list"

definition cmd_at :: "cmd_mgr \<Rightarrow> nat \<Rightarrow> rwnx_cmd" where
  "cmd_at m i = cmd_array m ! i"

definition cmd_upd :: "cmd_mgr \<Rightarrow> nat \<Rightarrow> (rwnx_cmd \<Rightarrow> rwnx_cmd) \<Rightarrow> cmd_mgr" where
  "cmd_upd m i f = m\<lparr>cmd_array := (cmd_array m)[i := f (cmd_array m ! i)]\<rparr>"

definition WAKE_CMD_WORK :: "cmd_mgr \<Rightarrow> cmd_mgr" where
  "WAKE_CMD_WORK m = m\<lparr>work_queued := True\<rparr>"

section \<open>The command array\<close>

definition rwnx_init_cmd_array :: "rwnx_cmd list" where
  "rwnx_init_cmd_array = replicate RWNX_CMD_ARRAY_SIZE
     \<lparr>reqid = 0, a2e_msg = None, e2a_msg = None, tkn = 0, flags = 0, completed = False, result = 0,
      used = False\<rparr>"

fun first_unused :: "rwnx_cmd list \<Rightarrow> nat option" where
  "first_unused [] = None"
| "first_unused (c # cs) = (if \<not> used c then Some 0 else map_option Suc (first_unused cs))"

definition rwnx_cmd_malloc :: "cmd_mgr \<Rightarrow> nat option \<times> cmd_mgr" where
  "rwnx_cmd_malloc m =
     (case first_unused (cmd_array m) of
        None \<Rightarrow> (None, m)
      | Some i \<Rightarrow> (Some i, cmd_upd m i (\<lambda>c. c\<lparr>used := True\<rparr>)))"

definition rwnx_cmd_free :: "cmd_mgr \<Rightarrow> nat \<Rightarrow> cmd_mgr" where
  "rwnx_cmd_free m i = cmd_upd m i (\<lambda>c. c\<lparr>used := False\<rparr>)"

section \<open>Sending a message\<close>

text \<open>
  \<open>aicwf_set_cmd_tx\<close>: the command buffer, four header bytes, a dummy word, the message header in
  little-endian order and the parameters; \<open>memcpy\<close> into \<open>cmd_buf\<close> is out of bounds when the
  message does not fit. \<open>len\<close> is the size of the message structure.
\<close>

definition cmd_tx_buffer :: "lmac_msg \<Rightarrow> nat \<Rightarrow> u8 list" where
  "cmd_tx_buffer msg len =
     [of_nat (len + 4), of_nat ((len + 4) div 256 mod 16), 0x11, 0, 0, 0, 0, 0]
     @ put_u16 (msg_id msg) @ put_u16 (dest_id msg) @ put_u16 (src_id msg)
     @ put_u16 (of_nat (length (param msg))) @ param msg"

definition aicwf_set_cmd_tx :: "cmd_mgr \<Rightarrow> lmac_msg \<Rightarrow> nat \<Rightarrow> fault + cmd_mgr" where
  "aicwf_set_cmd_tx m msg len =
     (if usb_state m = USB_DOWN_ST then Inr m
      else if 16 + length (param msg) > CMD_BUF_MAX then Inl OutOfBounds
      else Inr (m\<lparr>tx_msgs := tx_msgs m @ [cmd_tx_buffer msg len]\<rparr>))"

text \<open>Send the message of a command and free it.\<close>

definition cmd_push :: "cmd_mgr \<Rightarrow> nat \<Rightarrow> fault + cmd_mgr" where
  "cmd_push m i =
     (case a2e_msg (cmd_at m i) of
        None \<Rightarrow> Inl NullDeref
      | Some msg \<Rightarrow>
          (case aicwf_set_cmd_tx m msg (8 + length (param msg)) of
             Inl e \<Rightarrow> Inl e
           | Inr m' \<Rightarrow> Inr (cmd_upd m' i (\<lambda>c. c\<lparr>a2e_msg := None\<rparr>))))"

section \<open>Completion\<close>

definition cmd_complete :: "cmd_mgr \<Rightarrow> nat \<Rightarrow> cmd_mgr" where
  "cmd_complete m i =
     (let m1 = cmd_upd m i (\<lambda>c. c\<lparr>flags := flags c OR RWNX_CMD_FLAG_DONE\<rparr>);
          m2 = (if has_flag (flags (cmd_at m1 i)) RWNX_CMD_FLAG_NONBLOCK then rwnx_cmd_free m1 i
                else if RWNX_CMD_WAIT_COMPLETE (flags (cmd_at m1 i))
                then cmd_upd m1 i (\<lambda>c. c\<lparr>result := 0, completed := True\<rparr>)
                else m1)
      in if queue_sz m2 = 0 then m2\<lparr>ws_tx := False\<rparr> else m2)"

section \<open>Queueing\<close>

text \<open>The common tail: token, initial result, completion, and the list insertion.\<close>

definition cmd_enlist :: "cmd_mgr \<Rightarrow> nat \<Rightarrow> cmd_mgr" where
  "cmd_enlist m i =
     (let m1 = cmd_upd m i (\<lambda>c. c\<lparr>
            flags := (if has_flag (flags c) RWNX_CMD_FLAG_REQ_CFM
                      then flags c OR RWNX_CMD_FLAG_WAIT_CFM else flags c),
            tkn := next_tkn m, result := - EINTR,
            completed := (if has_flag (flags c) RWNX_CMD_FLAG_NONBLOCK then completed c else False)\<rparr>)
      in m1\<lparr>next_tkn := next_tkn m + 1, cmds := cmds m @ [i],
            ws_tx := (queue_sz m = 0 \<or> ws_tx m), queue_sz := queue_sz m + 1\<rparr>)"

definition set_result :: "int \<Rightarrow> rwnx_cmd \<Rightarrow> rwnx_cmd" where
  "set_result r c = c\<lparr>result := r\<rparr>"

definition set_wait_push :: "rwnx_cmd \<Rightarrow> rwnx_cmd" where
  "set_wait_push c = c\<lparr>flags := flags c OR RWNX_CMD_FLAG_WAIT_PUSH\<rparr>"

definition cmd_mgr_queue_force_defer :: "cmd_mgr \<Rightarrow> nat \<Rightarrow> int \<times> cmd_mgr" where
  "cmd_mgr_queue_force_defer m i =
     (if state m = RWNX_CMD_MGR_STATE_CRASHED then (- EPIPE, cmd_upd m i (set_result (- EPIPE)))
      else if cmds m \<noteq> [] \<and> queue_sz m = max_queue_sz m
      then (- ENOMEM, cmd_upd m i (set_result (- ENOMEM)))
      else (0, WAKE_CMD_WORK (cmd_enlist (cmd_upd m i set_wait_push) i)))"

text \<open>
  How \<open>cmd_mgr_queue\<close> leaves its first part: it returned, it sleeps in the loop that waits for an
  empty queue, or it waits for the completion of the command.
\<close>

datatype queue_out =
    Returned int
  | Polling
  | Waiting

definition last_busy :: "cmd_mgr \<Rightarrow> bool" where
  "last_busy m \<longleftrightarrow> cmds m \<noteq> [] \<and>
     has_flag (flags (cmd_at m (last (cmds m))))
       (RWNX_CMD_FLAG_WAIT_ACK OR RWNX_CMD_FLAG_WAIT_PUSH OR RWNX_CMD_FLAG_WAIT_CFM)"

definition cmd_mgr_queue :: "cmd_mgr \<Rightarrow> nat \<Rightarrow> fault + queue_out \<times> cmd_mgr" where
  "cmd_mgr_queue m i =
     (if state m = RWNX_CMD_MGR_STATE_CRASHED
      then Inr (Returned (- EPIPE), cmd_upd m i (set_result (- EPIPE)))
      else if e2a_msg (cmd_at m i) \<noteq> None \<and> cmds m \<noteq> [] then Inr (Polling, m)
      else if cmds m \<noteq> [] \<and> queue_sz m = max_queue_sz m
      then Inr (Returned (- ENOMEM), cmd_upd m i (set_result (- ENOMEM)))
      else
        (case a2e_msg (cmd_at m i) of
           None \<Rightarrow> Inl NullDeref
         | Some msg \<Rightarrow>
             let m1 = (if last_busy m then cmd_upd m i set_wait_push else m);
                 m2 = cmd_enlist m1 i;
                 ind = (msg_id msg = ME_TRAFFIC_IND_REQ \<or> msg_id msg = MM_SET_ARPOFFLOAD_REQ);
                 m3 = (if ind then cmd_upd m2 i set_wait_push else m2)
             in if last_busy m \<or> ind
                then Inr (Returned 0, if queue_sz m3 \<le> 1 then WAKE_CMD_WORK m3 else m3)
                else (case cmd_push m3 i of
                        Inl e \<Rightarrow> Inl e
                      | Inr m4 \<Rightarrow>
                          if has_flag (flags (cmd_at m4 i)) RWNX_CMD_FLAG_NONBLOCK
                          then Inr (Returned 0, cmd_upd m4 i (set_result 0))
                          else Inr (Waiting, m4))))"

text \<open>\<open>list_del\<close> of an entry that is not linked dereferences the list poison.\<close>

definition cmd_list_del :: "cmd_mgr \<Rightarrow> nat \<Rightarrow> fault + cmd_mgr" where
  "cmd_list_del m i =
     (if i \<in> set (cmds m) then Inr (m\<lparr>cmds := remove1 i (cmds m)\<rparr>) else Inl NullDeref)"

text \<open>
  The end of a wait: \<open>wait_for_completion_killable_timeout\<close> returns 0 on a timeout and non-zero
  when the command completed or the thread was killed.
\<close>

datatype wake =
    Completed
  | Killed
  | TimedOut

definition cmd_timed_out :: "cmd_mgr \<Rightarrow> nat \<Rightarrow> cmd_mgr" where
  "cmd_timed_out m i =
     (let m1 = m\<lparr>state := RWNX_CMD_MGR_STATE_CRASHED\<rparr>
      in if \<not> has_flag (flags (cmd_at m1 i)) RWNX_CMD_FLAG_DONE
         then cmd_complete (cmd_upd m1 i (set_result (- ETIMEDOUT))) i
         else m1)"

text \<open>A command leaves the queue after its confirmation.\<close>

definition cmd_retire :: "cmd_mgr \<Rightarrow> nat \<Rightarrow> fault + cmd_mgr" where
  "cmd_retire m i =
     (case cmd_list_del m i of
        Inl e \<Rightarrow> Inl e
      | Inr m1 \<Rightarrow>
          let m2 = m1\<lparr>queue_sz := queue_sz m1 - 1\<rparr>;
              m3 = (if queue_sz m2 = 0 then m2\<lparr>ws_tx := False\<rparr> else m2)
          in Inr (rwnx_cmd_free m3 i))"

definition cmd_mgr_queue_wake :: "cmd_mgr \<Rightarrow> nat \<Rightarrow> wake \<Rightarrow> fault + int \<times> cmd_mgr" where
  "cmd_mgr_queue_wake m i w =
     (if w = TimedOut then Inr (- ETIMEDOUT, cmd_timed_out m i)
      else (case cmd_retire m i of
              Inl e \<Rightarrow> Inl e
            | Inr m' \<Rightarrow>
                Inr (0, if cmds m' \<noteq> [] \<and> usb_state m' = USB_UP_ST then WAKE_CMD_WORK m' else m')))"

section \<open>Acknowledgements and confirmations\<close>

definition cmd_mgr_llind :: "cmd_mgr \<Rightarrow> nat \<Rightarrow> cmd_mgr" where
  "cmd_mgr_llind m i =
     (if list_ex (\<lambda>j. tkn (cmd_at m j) = tkn (cmd_at m i)) (cmds m) then
        let m1 = cmd_upd m i (\<lambda>c. c\<lparr>flags := flags c AND NOT RWNX_CMD_FLAG_WAIT_ACK\<rparr>)
        in if RWNX_CMD_WAIT_COMPLETE (flags (cmd_at m1 i)) then cmd_complete m1 i else m1
      else m)"

text \<open>
  \<open>cmd_mgr_msgind\<close>: the callback \<open>cb\<close> of the message (\<open>rwnx_rx_handle_msg\<close> chooses it) is a
  parameter; it gets the command, or none, and returns 0 to accept the message for it.
\<close>

definition e2a_store :: "rwnx_cmd \<Rightarrow> u8 list \<Rightarrow> fault + rwnx_cmd" where
  "e2a_store c p =
     (case e2a_msg c of
        None \<Rightarrow> Inr c
      | Some buf \<Rightarrow>
          if p = [] then Inr c
          else if length p > length buf then Inl OutOfBounds
          else Inr (c\<lparr>e2a_msg := Some (p @ drop (length p) buf)\<rparr>))"

definition cmd_confirm :: "cmd_mgr \<Rightarrow> nat \<Rightarrow> u8 list \<Rightarrow> fault + cmd_mgr" where
  "cmd_confirm m i p =
     (let m1 = cmd_upd m i (\<lambda>c. c\<lparr>flags := flags c AND NOT RWNX_CMD_FLAG_WAIT_CFM\<rparr>)
      in case e2a_store (cmd_at m1 i) (take RWNX_CMD_E2AMSG_LEN_MAX p) of
           Inl e \<Rightarrow> Inl e
         | Inr c \<Rightarrow>
             let m2 = cmd_upd m1 i (\<lambda>_. c)
             in if RWNX_CMD_WAIT_COMPLETE (flags (cmd_at m2 i)) then Inr (cmd_complete m2 i) else Inr m2)"

definition cfm_matches :: "cmd_mgr \<Rightarrow> u16 \<Rightarrow> (nat option \<Rightarrow> int) \<Rightarrow> nat \<Rightarrow> bool" where
  "cfm_matches m mid cb i \<longleftrightarrow> reqid (cmd_at m i) = mid
     \<and> has_flag (flags (cmd_at m i)) RWNX_CMD_FLAG_WAIT_CFM \<and> cb (Some i) = 0"

definition cmd_mgr_msgind :: "cmd_mgr \<Rightarrow> u16 \<Rightarrow> u8 list \<Rightarrow> (nat option \<Rightarrow> int) \<Rightarrow> fault + cmd_mgr" where
  "cmd_mgr_msgind m mid p cb =
     (case find (cfm_matches m mid cb) (cmds m) of
        None \<Rightarrow> Inr m
      | Some i \<Rightarrow> cmd_confirm m i p)"

section \<open>The command work\<close>

text \<open>One round of \<open>cmd_mgr_task_process\<close> looks at the first command only.\<close>

definition task_pick :: "cmd_mgr \<Rightarrow> nat option" where
  "task_pick m =
     (case cmds m of
        [] \<Rightarrow> None
      | i # _ \<Rightarrow> if has_flag (flags (cmd_at m i)) RWNX_CMD_FLAG_WAIT_PUSH then Some i else None)"

definition task_push :: "cmd_mgr \<Rightarrow> nat \<Rightarrow> fault + cmd_mgr" where
  "task_push m i = cmd_push (cmd_upd m i (\<lambda>c. c\<lparr>flags := flags c AND NOT RWNX_CMD_FLAG_WAIT_PUSH\<rparr>)) i"

definition task_wake :: "cmd_mgr \<Rightarrow> nat \<Rightarrow> wake \<Rightarrow> fault + cmd_mgr" where
  "task_wake m i w = (if w = TimedOut then Inr (cmd_timed_out m i) else cmd_retire m i)"

section \<open>Draining, initialisation\<close>

definition cmd_mgr_drain :: "cmd_mgr \<Rightarrow> cmd_mgr" where
  "cmd_mgr_drain m =
     foldl (\<lambda>r i. if has_flag (flags (cmd_at r i)) RWNX_CMD_FLAG_NONBLOCK then r
                  else cmd_upd r i (\<lambda>c. c\<lparr>completed := True\<rparr>))
       (m\<lparr>cmds := []\<rparr>) (cmds m)"

definition rwnx_cmd_mgr_init :: "cmd_mgr \<Rightarrow> cmd_mgr" where
  "rwnx_cmd_mgr_init m =
     m\<lparr>cmds := [], state := RWNX_CMD_MGR_STATE_INITED, max_queue_sz := RWNX_CMD_MAX_QUEUED,
       work_queued := False\<rparr>"

definition rwnx_cmd_mgr_deinit :: "cmd_mgr \<Rightarrow> cmd_mgr" where
  "rwnx_cmd_mgr_deinit m =
     (cmd_mgr_drain m)\<lparr>state := RWNX_CMD_MGR_STATE_DEINIT, next_tkn := 0, queue_sz := 0,
        max_queue_sz := 0, cmds := [], work_queued := False\<rparr>"

section \<open>Issuing a command\<close>

text \<open>
  \<open>rwnx_send_msg\<close> up to the call of \<open>queue\<close>: the slot of the array keeps the flags of its last
  use, \<open>nonblock\<close> being 0. The rest frees the slot when the command was not queued.
\<close>

definition send_fill :: "lmac_msg \<Rightarrow> bool \<Rightarrow> u16 \<Rightarrow> u8 list option \<Rightarrow> rwnx_cmd \<Rightarrow> rwnx_cmd" where
  "send_fill msg reqcfm rid cfm c =
     c\<lparr>result := - EINTR, reqid := rid, a2e_msg := Some msg, e2a_msg := cfm,
       flags := (if reqcfm then (flags c OR RWNX_CMD_FLAG_REQ_CFM) AND NOT RWNX_CMD_FLAG_WAIT_ACK
                 else flags c)\<rparr>"

definition send_prepare ::
    "cmd_mgr \<Rightarrow> lmac_msg \<Rightarrow> bool \<Rightarrow> u16 \<Rightarrow> u8 list option \<Rightarrow> fault + nat \<times> cmd_mgr" where
  "send_prepare m msg reqcfm rid cfm =
     (case rwnx_cmd_malloc m of
        (None, _) \<Rightarrow> Inl NullDeref
      | (Some i, m1) \<Rightarrow> Inr (i, cmd_upd m1 i (send_fill msg reqcfm rid cfm)))"

definition send_finish :: "cmd_mgr \<Rightarrow> nat \<Rightarrow> bool \<Rightarrow> int \<Rightarrow> cmd_mgr" where
  "send_finish m i reqcfm ret = (if \<not> reqcfm \<or> ret \<noteq> 0 then rwnx_cmd_free m i else m)"

definition rwnx_send_msg ::
    "cmd_mgr \<Rightarrow> lmac_msg \<Rightarrow> bool \<Rightarrow> u16 \<Rightarrow> u8 list option \<Rightarrow> fault + queue_out \<times> nat option \<times> cmd_mgr" where
  "rwnx_send_msg m msg reqcfm rid cfm =
     (if usb_state m = USB_DOWN_ST then Inr (Returned 0, None, m)
      else
        (case send_prepare m msg reqcfm rid cfm of
           Inl e \<Rightarrow> Inl e
         | Inr (i, m1) \<Rightarrow>
             if reqcfm then
               (case cmd_mgr_queue m1 i of
                  Inl e \<Rightarrow> Inl e
                | Inr (Returned r, m2) \<Rightarrow> Inr (Returned r, Some i, send_finish m2 i True r)
                | Inr (out, m2) \<Rightarrow> Inr (out, Some i, m2))
             else
               (case aicwf_set_cmd_tx m1 msg (8 + length (param msg)) of
                  Inl e \<Rightarrow> Inl e
                | Inr m2 \<Rightarrow> Inr (Returned 0, Some i, send_finish m2 i False 0))))"

end
