(* ===== verification/CmdQueue.thy ===== *)
theory CmdQueue
  imports CmdMgr
begin

text \<open>
  The concurrent behaviour of the command manager: threads that issue commands, poll for an
  empty queue or wait for a completion, the work item that pushes deferred commands, and
  confirmations from the firmware, interleaved as steps. The invariant describes the queue
  while the manager has not crashed.
\<close>

section \<open>Flag arithmetic\<close>

lemma has_flag_BIT: "n < 16 \<Longrightarrow> has_flag f (BIT n) \<longleftrightarrow> bit f n"
  unfolding has_flag_def BIT_def by (simp only: bit_iff_and_push_bit_not_eq_0)

lemma has_flag_or: "has_flag f (a OR b) \<longleftrightarrow> has_flag f a \<or> has_flag f b"
  by (auto simp: has_flag_def bit_eq_iff bit_simps)

lemma bit_or_BIT: "bit (f OR BIT m) n \<longleftrightarrow> bit f n \<or> n = m \<and> n < 16"
  by (auto simp: BIT_def bit_simps)

lemma bit_clear_BIT: "bit (f AND NOT (BIT m)) n \<longleftrightarrow> bit f n \<and> n \<noteq> m"
  by (auto simp: BIT_def bit_simps dest: bit_imp_le_length)

lemmas flag_simps = has_flag_BIT has_flag_or bit_or_BIT bit_clear_BIT RWNX_CMD_WAIT_COMPLETE_def

text \<open>Pending push, pending confirmation and the reserved flags of a command.\<close>

definition wpush :: "cmd_mgr \<Rightarrow> nat \<Rightarrow> bool" where
  "wpush m i \<longleftrightarrow> has_flag (flags (cmd_at m i)) RWNX_CMD_FLAG_WAIT_PUSH"

definition wcfm :: "cmd_mgr \<Rightarrow> nat \<Rightarrow> bool" where
  "wcfm m i \<longleftrightarrow> has_flag (flags (cmd_at m i)) RWNX_CMD_FLAG_WAIT_CFM"

definition plain_flags :: "u16 \<Rightarrow> bool" where
  "plain_flags f \<longleftrightarrow> \<not> has_flag f RWNX_CMD_FLAG_NONBLOCK \<and> \<not> has_flag f RWNX_CMD_FLAG_WAIT_ACK"

section \<open>The queue invariant\<close>

text \<open>A confirmed command precedes the one in flight, which precedes the deferred ones.\<close>

definition in_flight :: "cmd_mgr \<Rightarrow> nat \<Rightarrow> bool" where
  "in_flight m i \<longleftrightarrow> wcfm m i \<and> \<not> wpush m i"

definition before :: "cmd_mgr \<Rightarrow> nat \<Rightarrow> nat \<Rightarrow> bool" where
  "before m i j \<longleftrightarrow> (wpush m i \<longrightarrow> wpush m j) \<and> (in_flight m i \<longrightarrow> wpush m j)"

text \<open>
  \<open>ps\<close> are the commands of threads that poll, \<open>ws\<close> those somebody waits for (a caller or the work).
\<close>

definition mgr_ok :: "cmd_mgr \<Rightarrow> nat set \<Rightarrow> nat set \<Rightarrow> bool" where
  "mgr_ok m ps ws \<longleftrightarrow>
     length (cmd_array m) = RWNX_CMD_ARRAY_SIZE \<and> distinct (cmds m) \<and> set (cmds m) \<inter> ps = {}
     \<and> (\<forall>i\<in>set (cmds m) \<union> ps. i < RWNX_CMD_ARRAY_SIZE \<and> used (cmd_at m i))
     \<and> (\<forall>i\<in>ps. has_flag (flags (cmd_at m i)) RWNX_CMD_FLAG_REQ_CFM)
     \<and> queue_sz m = of_nat (length (cmds m)) \<and> length (cmds m) \<le> 16 \<and> max_queue_sz m = RWNX_CMD_MAX_QUEUED
     \<and> (\<forall>i<RWNX_CMD_ARRAY_SIZE. plain_flags (flags (cmd_at m i)) \<and> (i \<notin> set (cmds m) \<longrightarrow> \<not> wpush m i))
     \<and> sorted_wrt (before m) (cmds m) \<and> ws = {i \<in> set (cmds m). \<not> wpush m i}
     \<and> (ws_tx m \<longleftrightarrow> cmds m \<noteq> [])"

text \<open>A deferred command at the head of the queue has the work item scheduled or running.\<close>

definition head_deferred :: "cmd_mgr \<Rightarrow> bool" where
  "head_deferred m \<longleftrightarrow> cmds m \<noteq> [] \<and> wpush m (hd (cmds m))"

lemma cmd_at_upd [simp]:
  "i < length (cmd_array m) \<Longrightarrow> cmd_at (cmd_upd m i f) j = (if j = i then f (cmd_at m i) else cmd_at m j)"
  by (simp add: cmd_at_def cmd_upd_def)

lemma cmd_upd_sel [simp]:
  "cmds (cmd_upd m i f) = cmds m" "queue_sz (cmd_upd m i f) = queue_sz m"
  "max_queue_sz (cmd_upd m i f) = max_queue_sz m" "state (cmd_upd m i f) = state m"
  "ws_tx (cmd_upd m i f) = ws_tx m" "work_queued (cmd_upd m i f) = work_queued m"
  "usb_state (cmd_upd m i f) = usb_state m" "length (cmd_array (cmd_upd m i f)) = length (cmd_array m)"
  "next_tkn (cmd_upd m i f) = next_tkn m"
  by (simp_all add: cmd_upd_def)

lemma cmd_at_fields [simp]:
  "cmd_at (m\<lparr>cmds := xs\<rparr>) j = cmd_at m j" "cmd_at (m\<lparr>queue_sz := q\<rparr>) j = cmd_at m j"
  "cmd_at (m\<lparr>ws_tx := b\<rparr>) j = cmd_at m j" "cmd_at (m\<lparr>work_queued := b\<rparr>) j = cmd_at m j"
  "cmd_at (m\<lparr>tx_msgs := t\<rparr>) j = cmd_at m j" "cmd_at (m\<lparr>next_tkn := n\<rparr>) j = cmd_at m j"
  "cmd_at (m\<lparr>state := st\<rparr>) j = cmd_at m j"
  by (simp_all add: cmd_at_def)

text \<open>
  Two managers agree when they differ only in what the invariant does not read: everything else
  of a slot, tokens, messages and the work flag.
\<close>

definition agree :: "cmd_mgr \<Rightarrow> cmd_mgr \<Rightarrow> bool" where
  "agree m m' \<longleftrightarrow> length (cmd_array m') = length (cmd_array m) \<and> cmds m' = cmds m
     \<and> queue_sz m' = queue_sz m \<and> max_queue_sz m' = max_queue_sz m \<and> ws_tx m' = ws_tx m
     \<and> (\<forall>i<length (cmd_array m). flags (cmd_at m' i) = flags (cmd_at m i) \<and> used (cmd_at m' i) = used (cmd_at m i))"

lemma agree_ok:
  assumes "agree m m'" and "mgr_ok m ps ws"
  shows "mgr_ok m' ps ws"
proof -
  have e: "\<forall>i<40. wpush m' i = wpush m i \<and> in_flight m' i = in_flight m i"
    using assms by (auto simp: agree_def mgr_ok_def wpush_def in_flight_def wcfm_def)
  have "sorted_wrt (before m') (cmds m)"
  proof (rule sorted_wrt_mono_rel)
    show "sorted_wrt (before m) (cmds m)" using assms(2) by (simp add: mgr_ok_def)
    show "\<And>x y. x \<in> set (cmds m) \<Longrightarrow> y \<in> set (cmds m) \<Longrightarrow> before m x y \<Longrightarrow> before m' x y"
      using e assms(2) by (auto simp: before_def mgr_ok_def)
  qed
  moreover have "{i \<in> set (cmds m). \<not> wpush m' i} = {i \<in> set (cmds m). \<not> wpush m i}"
    using e assms(2) by (auto simp: mgr_ok_def)
  ultimately show ?thesis
    using assms e by (auto simp: agree_def mgr_ok_def)
qed

lemma agree_upd:
  "(\<And>c. flags (f c) = flags c \<and> used (f c) = used c) \<Longrightarrow> i < length (cmd_array m) \<Longrightarrow> agree m (cmd_upd m i f)"
  by (simp add: agree_def)


section \<open>Updates of one slot\<close>

lemma mgr_ok_outside:
  assumes "mgr_ok m ps ws" and "i \<notin> set (cmds m)" and "i < RWNX_CMD_ARRAY_SIZE"
    and "plain_flags (flags (f (cmd_at m i)))" and "\<not> has_flag (flags (f (cmd_at m i))) RWNX_CMD_FLAG_WAIT_PUSH"
    and "i \<in> ps' \<longrightarrow> used (f (cmd_at m i)) \<and> has_flag (flags (f (cmd_at m i))) RWNX_CMD_FLAG_REQ_CFM"
    and "ps' \<subseteq> insert i ps"
  shows "mgr_ok (cmd_upd m i f) ps' ws"
proof -
  have l: "length (cmd_array m) = 40" using assms(1) by (simp add: mgr_ok_def)
  have e: "wpush (cmd_upd m i f) j = wpush m j" "in_flight (cmd_upd m i f) j = in_flight m j" if "j \<noteq> i" for j
    using that l assms(3) by (simp_all add: wpush_def in_flight_def wcfm_def)
  have w: "\<not> wpush (cmd_upd m i f) i" using assms(3,5) l by (simp add: wpush_def)
  have "sorted_wrt (before (cmd_upd m i f)) (cmds m)"
  proof (rule sorted_wrt_mono_rel)
    show "sorted_wrt (before m) (cmds m)" using assms(1) by (simp add: mgr_ok_def)
    show "\<And>x y. x \<in> set (cmds m) \<Longrightarrow> y \<in> set (cmds m) \<Longrightarrow> before m x y \<Longrightarrow> before (cmd_upd m i f) x y"
      using e assms(2) unfolding before_def by metis
  qed
  moreover have "{j \<in> set (cmds m). \<not> wpush (cmd_upd m i f) j} = {j \<in> set (cmds m). \<not> wpush m j}"
    using e assms(2) by metis
  moreover have "\<forall>j<40. plain_flags (flags (cmd_at (cmd_upd m i f) j)) \<and> (j \<notin> set (cmds m) \<longrightarrow> \<not> wpush (cmd_upd m i f) j)"
    using assms(1,3,4) e w l by (auto simp: mgr_ok_def)
  moreover have "\<forall>j\<in>set (cmds m) \<union> ps'. j < 40 \<and> used (cmd_at (cmd_upd m i f) j)"
    using assms l by (auto simp: mgr_ok_def)
  moreover have "set (cmds m) \<inter> ps' = {}" using assms(1,2,7) by (auto simp: mgr_ok_def)
  moreover have "\<forall>j\<in>ps'. has_flag (flags (cmd_at (cmd_upd m i f) j)) (BIT 1)"
    using assms l by (auto simp: mgr_ok_def)
  ultimately show ?thesis using assms(1) unfolding mgr_ok_def cmd_upd_sel by simp
qed

text \<open>A confirmation clears \<open>WAIT_CFM\<close> of a listed command and leaves its other queue flags.\<close>

lemma mgr_ok_inside:
  assumes "mgr_ok m ps ws" and "i \<in> set (cmds m)"
    and "plain_flags (flags (f (cmd_at m i)))" and "used (f (cmd_at m i))"
    and "has_flag (flags (f (cmd_at m i))) RWNX_CMD_FLAG_WAIT_PUSH \<longleftrightarrow> wpush m i"
    and "has_flag (flags (f (cmd_at m i))) RWNX_CMD_FLAG_WAIT_CFM \<longrightarrow> wcfm m i"
  shows "mgr_ok (cmd_upd m i f) ps ws"
proof -
  have l: "length (cmd_array m) = 40" "i < 40" using assms(1,2) by (auto simp: mgr_ok_def)
  have e: "wpush (cmd_upd m i f) = wpush m" "\<And>j. in_flight (cmd_upd m i f) j \<Longrightarrow> in_flight m j"
    using l assms(5,6) by (auto simp: wpush_def in_flight_def wcfm_def fun_eq_iff split: if_splits)
  have "sorted_wrt (before (cmd_upd m i f)) (cmds m)"
  proof (rule sorted_wrt_mono_rel)
    show "sorted_wrt (before m) (cmds m)" using assms(1) by (simp add: mgr_ok_def)
    show "\<And>x y. x \<in> set (cmds m) \<Longrightarrow> y \<in> set (cmds m) \<Longrightarrow> before m x y \<Longrightarrow> before (cmd_upd m i f) x y"
      using e unfolding before_def by metis
  qed
  moreover have "\<forall>j<40. plain_flags (flags (cmd_at (cmd_upd m i f) j))"
    "\<forall>j\<in>set (cmds m) \<union> ps. j < 40 \<and> used (cmd_at (cmd_upd m i f) j)"
    using assms(1,3,4) l by (auto simp: mgr_ok_def)
  moreover have "\<forall>j\<in>ps. has_flag (flags (cmd_at (cmd_upd m i f) j)) (BIT 1)"
    using assms(1,2) l by (auto simp: mgr_ok_def)
  ultimately show ?thesis using assms(1) unfolding mgr_ok_def cmd_upd_sel e(1) by simp
qed

lemma cmd_complete_plain:
  assumes "plain_flags (flags (cmd_at m i))" and "queue_sz m \<noteq> 0" and "i < length (cmd_array m)"
  shows "cmd_complete m i = cmd_upd m i (\<lambda>c. if RWNX_CMD_WAIT_COMPLETE (flags c)
           then c\<lparr>flags := flags c OR RWNX_CMD_FLAG_DONE, result := 0, completed := True\<rparr>
           else c\<lparr>flags := flags c OR RWNX_CMD_FLAG_DONE\<rparr>)"
  using assms
  by (simp add: cmd_complete_def Let_def plain_flags_def flag_simps rwnx_cmd_free_def)
    (simp add: cmd_upd_def cmd_at_def)

section \<open>Operations\<close>

lemma first_unused_Some: "first_unused cs = Some i \<Longrightarrow> i < length cs \<and> \<not> used (cs ! i)"
  by (induction cs arbitrary: i) (auto split: if_splits)

lemma send_prepare_ok:
  assumes "mgr_ok m ps ws" and "send_prepare m msg r rid cfm = Inr (i, m')"
  shows "mgr_ok m' (if r then insert i ps else ps) ws \<and> i \<notin> set (cmds m) \<and> i \<notin> ps \<and> i < RWNX_CMD_ARRAY_SIZE"
    and "cmds m' = cmds m" "work_queued m' = work_queued m" "usb_state m' = usb_state m" "state m' = state m"
    and "head_deferred m' = head_deferred m"
proof -
  obtain i0 where u: "first_unused (cmd_array m) = Some i0"
      and e: "i = i0" "m' = cmd_upd (cmd_upd m i (\<lambda>c. c\<lparr>used := True\<rparr>)) i (send_fill msg r rid cfm)"
    using assms(2) by (auto simp: send_prepare_def rwnx_cmd_malloc_def split: option.splits)
  have m': "m' = cmd_upd m i (\<lambda>c. send_fill msg r rid cfm (c\<lparr>used := True\<rparr>))"
    by (simp add: e cmd_upd_def nth_list_update first_unused_Some [OF u])
  have l: "length (cmd_array m) = 40" using assms(1) by (simp add: mgr_ok_def)
  have i: "i < 40" "\<not> used (cmd_at m i)" using first_unused_Some [OF u] l by (auto simp: e cmd_at_def)
  then have n: "i \<notin> set (cmds m)" "i \<notin> ps" using assms(1) by (auto simp: mgr_ok_def)
  have p: "plain_flags (flags (cmd_at m i))" "\<not> wpush m i" using assms(1) i n by (auto simp: mgr_ok_def)
  show "mgr_ok m' (if r then insert i ps else ps) ws \<and> i \<notin> set (cmds m) \<and> i \<notin> ps \<and> i < 40"
    using n i p unfolding m'
    by (auto intro!: mgr_ok_outside [OF assms(1)] simp: send_fill_def plain_flags_def flag_simps wpush_def
        split: if_splits)
  show "cmds m' = cmds m" "work_queued m' = work_queued m" "usb_state m' = usb_state m" "state m' = state m"
    by (simp_all add: m')
  have "hd (cmds m) \<noteq> i" if "cmds m \<noteq> []" using n(1) that by (metis hd_in_set)
  then show "head_deferred m' = head_deferred m"
    using i l by (auto simp: head_deferred_def m' wpush_def)
qed

lemma cmd_free_ok:
  assumes "mgr_ok m ps ws" and "i \<notin> set (cmds m)" and "i < RWNX_CMD_ARRAY_SIZE"
  shows "mgr_ok (rwnx_cmd_free m i) (ps - {i}) ws"
  unfolding rwnx_cmd_free_def
  using assms by (intro mgr_ok_outside [OF assms(1)]) (auto simp: mgr_ok_def wpush_def)


lemma head_deferred_free:
  "i < length (cmd_array m) \<Longrightarrow> head_deferred (rwnx_cmd_free m i) = head_deferred m"
  by (simp add: head_deferred_def rwnx_cmd_free_def wpush_def)

lemma set_result_ok:
  assumes "mgr_ok m ps ws" and "i < RWNX_CMD_ARRAY_SIZE"
  shows "mgr_ok (cmd_upd m i (set_result r)) ps ws"
proof -
  have "agree m (cmd_upd m i (set_result r))"
    using assms by (intro agree_upd) (auto simp: set_result_def mgr_ok_def)
  then show ?thesis using assms(1) by (rule agree_ok)
qed

lemma cmd_push_agree:
  assumes "cmd_push m i = Inr m'" and "i < length (cmd_array m)"
  shows "agree m m' \<and> work_queued m' = work_queued m \<and> usb_state m' = usb_state m \<and> state m' = state m"
  using assms by (auto simp: cmd_push_def aicwf_set_cmd_tx_def agree_def split: option.splits sum.splits if_splits)

text \<open>The slot of a command as it enters the list.\<close>

definition listed :: "u32 \<Rightarrow> bool \<Rightarrow> rwnx_cmd \<Rightarrow> rwnx_cmd" where
  "listed n deferred c = c\<lparr>
     flags := (if deferred then (flags c OR RWNX_CMD_FLAG_WAIT_PUSH) OR RWNX_CMD_FLAG_WAIT_CFM
               else flags c OR RWNX_CMD_FLAG_WAIT_CFM),
     tkn := n, result := - EINTR, completed := False\<rparr>"

definition enlisted :: "cmd_mgr \<Rightarrow> nat \<Rightarrow> bool \<Rightarrow> cmd_mgr" where
  "enlisted m i deferred = (cmd_upd m i (listed (next_tkn m) deferred))\<lparr>next_tkn := next_tkn m + 1,
     cmds := cmds m @ [i], ws_tx := (queue_sz m = 0 \<or> ws_tx m), queue_sz := queue_sz m + 1\<rparr>"

lemma enlisted_queue_sz: "queue_sz (enlisted m i d) = queue_sz m + 1"
  by (simp add: enlisted_def)

lemma OR_BIT_swap: "(f OR BIT a) OR BIT b = (f OR BIT b) OR BIT a"
  by (simp add: ac_simps)

lemma cmd_enlist_eq:
  assumes "has_flag (flags (cmd_at m i)) RWNX_CMD_FLAG_REQ_CFM" and "plain_flags (flags (cmd_at m i))"
    and "i < length (cmd_array m)"
  shows "cmd_enlist m i = enlisted m i False"
    and "cmd_enlist (cmd_upd m i set_wait_push) i = enlisted m i True"
    and "cmd_upd (enlisted m i d) i set_wait_push = enlisted m i True"
proof -
  show "cmd_enlist m i = enlisted m i False"
    using assms by (simp add: cmd_enlist_def enlisted_def listed_def Let_def cmd_upd_def cmd_at_def plain_flags_def)
  show "cmd_enlist (cmd_upd m i set_wait_push) i = enlisted m i True"
    using assms by (simp add: cmd_enlist_def enlisted_def listed_def Let_def cmd_upd_def cmd_at_def
        plain_flags_def set_wait_push_def flag_simps)
  show "cmd_upd (enlisted m i d) i set_wait_push = enlisted m i True"
    using assms(3)
    by (cases m; cases "cmd_array m ! i")
      (simp add: enlisted_def listed_def cmd_upd_def set_wait_push_def OR_BIT_swap [of _ 4 2])
qed

lemma enlisted_ok:
  assumes ok: "mgr_ok m ps ws" and i: "i \<in> ps" and len: "length (cmds m) < 16"
    and d: "\<not> d \<longrightarrow> \<not> last_busy m"
  shows "mgr_ok (enlisted m i d) (ps - {i}) (if d then ws else insert i ws)"
proof -
  let ?m = "enlisted m i d"
  have l: "length (cmd_array m) = 40" "i < 40" "i \<notin> set (cmds m)" "used (cmd_at m i)"
      "plain_flags (flags (cmd_at m i))" "\<not> wpush m i"
    using ok i by (auto simp: mgr_ok_def)
  have at: "cmd_at ?m j = (if j = i then listed (next_tkn m) d (cmd_at m i) else cmd_at m j)" for j
    using l by (simp add: enlisted_def cmd_at_def cmd_upd_def)
  have wi: "wpush ?m i = d" "in_flight ?m i = (\<not> d)"
    using l(6) by (auto simp: wpush_def in_flight_def wcfm_def at listed_def flag_simps)
  have wj: "wpush ?m j = wpush m j" "in_flight ?m j = in_flight m j" if "j \<noteq> i" for j
    using that by (simp_all add: wpush_def in_flight_def wcfm_def at)
  have c: "cmds ?m = cmds m @ [i]" by (simp add: enlisted_def)
  have s: "sorted_wrt (before m) (cmds m)" using ok by (simp add: mgr_ok_def)
  have "sorted_wrt (before ?m) (cmds m)"
    using wj l(3) unfolding before_def
    by (intro sorted_wrt_mono_rel [OF _ s]) (metis before_def)
  moreover have "before ?m x i" if x: "x \<in> set (cmds m)" for x
  proof (cases d)
    case False
    then have "\<not> last_busy m" using d by simp
    then have nb: "\<not> wpush m (last (cmds m))" "\<not> in_flight m (last (cmds m))"
      using x by (auto simp: last_busy_def has_flag_or wpush_def in_flight_def wcfm_def)
    have "x = last (cmds m) \<or> before m x (last (cmds m))"
      using s x by (metis append_butlast_last_id empty_iff list.set(1) rotate1.simps(2) set_ConsD set_rotate1
          sorted_wrt_append list.set_intros(1))
    then have "\<not> wpush m x" "\<not> in_flight m x" using nb by (auto simp: before_def)
    then show ?thesis using wj [of x] x l(3) by (auto simp: before_def)
  next
    case True
    then have "wpush ?m i" using wi(1) by blast
    then show ?thesis unfolding before_def by blast
  qed
  ultimately have "sorted_wrt (before ?m) (cmds ?m)" by (simp add: c sorted_wrt_append)
  moreover have "(if d then ws else insert i ws) = {j \<in> set (cmds ?m). \<not> wpush ?m j}"
  proof -
    have "wpush ?m j = wpush m j" if "j \<in> set (cmds m)" for j using wj l(3) that by metis
    then have "{j \<in> set (cmds ?m). \<not> wpush ?m j} = {j \<in> set (cmds m). \<not> wpush m j} \<union> (if d then {} else {i})"
      using wi(1) unfolding c by auto
    moreover have "ws = {j \<in> set (cmds m). \<not> wpush m j}" using ok by (simp add: mgr_ok_def)
    ultimately show ?thesis by simp
  qed
  moreover have "\<forall>j<40. plain_flags (flags (cmd_at ?m j)) \<and> (j \<notin> set (cmds ?m) \<longrightarrow> \<not> wpush ?m j)"
    using ok wj l(5) by (auto simp: mgr_ok_def c at plain_flags_def listed_def flag_simps)
  moreover have "\<forall>j\<in>set (cmds ?m) \<union> (ps - {i}). j < 40 \<and> used (cmd_at ?m j)"
    using ok l(2,4) by (auto simp: mgr_ok_def c at listed_def)
  moreover have "\<forall>j\<in>ps - {i}. has_flag (flags (cmd_at ?m j)) (BIT 1)"
    using ok by (auto simp: mgr_ok_def at)
  moreover have "ws_tx ?m"
    using ok by (cases "cmds m") (auto simp: enlisted_def mgr_ok_def)
  ultimately show ?thesis
    using ok len l by (auto simp: mgr_ok_def c enlisted_def)
qed


lemma queue_sz_small:
  assumes "mgr_ok m ps ws"
  shows "unat (queue_sz m) = length (cmds m)" and "queue_sz m = max_queue_sz m \<longleftrightarrow> length (cmds m) = 16"
proof -
  have q: "queue_sz m = of_nat (length (cmds m))" "length (cmds m) \<le> 16" "max_queue_sz m = 16"
    using assms by (auto simp: mgr_ok_def)
  then show u: "unat (queue_sz m) = length (cmds m)" by (simp add: unat_of_nat)
  have "queue_sz m = max_queue_sz m \<longleftrightarrow> unat (queue_sz m) = unat (max_queue_sz m)"
    by (rule word_unat_eq_iff)
  then show "queue_sz m = max_queue_sz m \<longleftrightarrow> length (cmds m) = 16" using u q(3) by simp
qed

lemma head_deferred_enlisted:
  assumes "mgr_ok m ps ws" and "i \<in> ps"
  shows "head_deferred (enlisted m i d) \<longleftrightarrow> (if cmds m = [] then d else head_deferred m)"
proof -
  have l: "length (cmd_array m) = 40" "i < 40" "i \<notin> set (cmds m)" "\<not> wpush m i"
    using assms by (auto simp: mgr_ok_def)
  have at: "cmd_at (enlisted m i d) j = (if j = i then listed (next_tkn m) d (cmd_at m i) else cmd_at m j)" for j
    using l by (simp add: enlisted_def cmd_at_def cmd_upd_def)
  show ?thesis
  proof (cases "cmds m")
    case Nil
    then show ?thesis using l(4) at [of i]
      by (simp add: head_deferred_def enlisted_def wpush_def listed_def flag_simps)
  next
    case (Cons j js)
    then have "j \<noteq> i" using l(3) by auto
    then show ?thesis using at [of j] Cons by (simp add: head_deferred_def wpush_def) (simp add: enlisted_def)
  qed
qed

text \<open>What the caller does after the first part of \<open>cmd_mgr_queue\<close>.\<close>

definition after_queue :: "queue_out \<Rightarrow> nat \<Rightarrow> nat set \<Rightarrow> nat set" where
  "after_queue out i ps = (if out = Polling then ps else ps - {i})"

definition now_waiting :: "queue_out \<Rightarrow> nat \<Rightarrow> nat set \<Rightarrow> nat set" where
  "now_waiting out i ws = (if out = Waiting then insert i ws else ws)"

definition queue_return :: "queue_out \<Rightarrow> nat \<Rightarrow> cmd_mgr \<Rightarrow> cmd_mgr" where
  "queue_return out i m = (case out of Returned r \<Rightarrow> send_finish m i True r | _ \<Rightarrow> m)"

lemma queue_enter_ok:
  assumes ok: "mgr_ok m ps ws" and i: "i \<in> ps" and st: "state m = RWNX_CMD_MGR_STATE_INITED"
    and q: "cmd_mgr_queue m i = Inr (out, m')"
    and np: "\<not> (e2a_msg (cmd_at m i) \<noteq> None \<and> cmds m \<noteq> [])"
    and nf: "\<not> (cmds m \<noteq> [] \<and> queue_sz m = max_queue_sz m)" and len: "length (cmds m) < 16"
  shows "mgr_ok (queue_return out i m') (after_queue out i ps) (now_waiting out i ws)
           \<and> state (queue_return out i m') = state m \<and> usb_state (queue_return out i m') = usb_state m
           \<and> (head_deferred (queue_return out i m') \<longrightarrow> head_deferred m \<or> work_queued (queue_return out i m'))
           \<and> (work_queued m \<longrightarrow> work_queued (queue_return out i m'))
           \<and> (out = Polling \<longrightarrow> m' = m)"
proof -
  have l: "length (cmd_array m) = 40" "i < 40" "plain_flags (flags (cmd_at m i))"
    and req: "has_flag (flags (cmd_at m i)) (BIT 1)"
    using ok i by (auto simp: mgr_ok_def)
  have il: "i < length (cmd_array m)" using l by simp
  note en = cmd_enlist_eq [OF req l(3) il]
  obtain msg where msg: "a2e_msg (cmd_at m i) = Some msg"
    using q st np nf unfolding cmd_mgr_queue_def if_not_P [OF np] if_not_P [OF nf]
    by (cases "a2e_msg (cmd_at m i)") simp_all
  define ind where "ind \<longleftrightarrow> msg_id msg = 5132 \<or> msg_id msg = 97"
  define d where "d \<longleftrightarrow> last_busy m \<or> ind"
  have Q: "cmd_mgr_queue m i =
      (if d then Inr (Returned 0, if queue_sz (enlisted m i d) \<le> 1 then WAKE_CMD_WORK (enlisted m i d) else enlisted m i d)
       else (case cmd_push (enlisted m i d) i of
               Inl e \<Rightarrow> Inl e
             | Inr m4 \<Rightarrow> if has_flag (flags (cmd_at m4 i)) (BIT 0)
                          then Inr (Returned 0, cmd_upd m4 i (set_result 0)) else Inr (Waiting, m4)))"
    using st unfolding cmd_mgr_queue_def if_not_P [OF np] if_not_P [OF nf]
    by (simp add: msg en d_def ind_def [symmetric] Let_def enlisted_queue_sz)
  have ok': "mgr_ok (enlisted m i d) (ps - {i}) (if d then ws else insert i ws)"
    by (rule enlisted_ok [OF ok i len]) (simp add: d_def)
  have sel: "state (enlisted m i d) = state m" "usb_state (enlisted m i d) = usb_state m"
      "work_queued (enlisted m i d) = work_queued m" "length (cmd_array (enlisted m i d)) = 40"
      "cmds (enlisted m i d) = cmds m @ [i]"
    using l by (simp_all add: enlisted_def)
  note hd = head_deferred_enlisted [OF ok i, of d]
  show ?thesis
  proof (cases d)
    case True
    let ?m = "if queue_sz (enlisted m i d) \<le> 1 then WAKE_CMD_WORK (enlisted m i d) else enlisted m i d"
    have e: "out = Returned 0" "m' = ?m" using q Q True by simp_all
    have "agree (enlisted m i d) ?m" by (simp add: agree_def WAKE_CMD_WORK_def)
    then have "mgr_ok ?m (ps - {i}) ws" using agree_ok ok' True by simp
    moreover have "queue_sz (enlisted m i d) \<le> 1" if "cmds m = []"
      using queue_sz_small(1) [OF ok'] sel(5) that by (simp add: word_le_nat_alt)
    moreover have "head_deferred ?m = head_deferred (enlisted m i d)"
      by (simp add: head_deferred_def wpush_def WAKE_CMD_WORK_def)
    ultimately show ?thesis
      using sel hd by (auto simp: e queue_return_def send_finish_def after_queue_def now_waiting_def WAKE_CMD_WORK_def)
  next
    case False
    then obtain m4 where p: "cmd_push (enlisted m i d) i = Inr m4" using q Q by (auto split: sum.splits)
    have a: "agree (enlisted m i d) m4" "work_queued m4 = work_queued m" "usb_state m4 = usb_state m" "state m4 = state m"
      using cmd_push_agree [OF p] sel l by auto
    have ok4: "mgr_ok m4 (ps - {i}) (insert i ws)" using agree_ok [OF a(1) ok'] False by simp
    then have "\<not> has_flag (flags (cmd_at m4 i)) (BIT 0)" using l(2) by (simp add: mgr_ok_def plain_flags_def)
    then have e: "out = Waiting" "m' = m4" using q Q False p by simp_all
    have "head_deferred m4 = head_deferred (enlisted m i d)"
    proof -
      have "hd (cmds m @ [i]) \<in> set (cmds m @ [i])" by (rule hd_in_set) simp
      then have "hd (cmds m @ [i]) < 40" using ok' sel(5) unfolding mgr_ok_def by (metis UnI1)
      then show ?thesis using a(1) sel by (simp add: agree_def head_deferred_def wpush_def)
    qed
    then show ?thesis
      using ok4 a hd False by (simp add: e queue_return_def after_queue_def now_waiting_def split: if_splits)
  qed
qed

lemma cmd_mgr_queue_ok:
  assumes ok: "mgr_ok m ps ws" and i: "i \<in> ps" and st: "state m = RWNX_CMD_MGR_STATE_INITED"
    and q: "cmd_mgr_queue m i = Inr (out, m')"
  shows "mgr_ok (queue_return out i m') (after_queue out i ps) (now_waiting out i ws)
           \<and> state (queue_return out i m') = state m \<and> usb_state (queue_return out i m') = usb_state m
           \<and> (head_deferred (queue_return out i m') \<longrightarrow> head_deferred m \<or> work_queued (queue_return out i m'))
           \<and> (work_queued m \<longrightarrow> work_queued (queue_return out i m'))
           \<and> (out = Polling \<longrightarrow> m' = m)"
proof -
  have l: "length (cmd_array m) = 40" "i < 40" "i \<notin> set (cmds m)" "plain_flags (flags (cmd_at m i))"
    using ok i by (auto simp: mgr_ok_def)
  show ?thesis
  proof (cases "e2a_msg (cmd_at m i) \<noteq> None \<and> cmds m \<noteq> []")
    case True
    then show ?thesis
      using ok q st by (simp add: cmd_mgr_queue_def queue_return_def after_queue_def now_waiting_def)
  next
    case np: False
    show ?thesis
    proof (cases "cmds m \<noteq> [] \<and> queue_sz m = max_queue_sz m")
      case True
      let ?m = "cmd_upd m i (set_result (- 12))"
      have e: "out = Returned (- 12)" "m' = ?m"
        using q st np True unfolding cmd_mgr_queue_def if_not_P [OF np] by simp_all
      have "mgr_ok (rwnx_cmd_free ?m i) (ps - {i}) ws"
        using cmd_free_ok [OF set_result_ok [OF ok l(2)], of i "- 12"] l by simp
      moreover have "head_deferred (rwnx_cmd_free ?m i) = head_deferred m"
        using l by (auto simp: head_deferred_def rwnx_cmd_free_def wpush_def set_result_def)
      ultimately show ?thesis
        by (simp add: e queue_return_def send_finish_def after_queue_def now_waiting_def)
          (simp add: rwnx_cmd_free_def)
    next
      case nf: False
      have len: "length (cmds m) < 16"
        using nf queue_sz_small(2) [OF ok] ok by (cases "cmds m") (auto simp: mgr_ok_def le_less)
      show ?thesis using queue_enter_ok [OF ok i st q np nf len] .
    qed
  qed
qed


lemma force_defer_ok:
  assumes ok: "mgr_ok m ps ws" and i: "i \<in> ps" and st: "state m = RWNX_CMD_MGR_STATE_INITED"
    and q: "cmd_mgr_queue_force_defer m i = (r, m')"
  shows "mgr_ok (send_finish m' i True r) (ps - {i}) ws \<and> state (send_finish m' i True r) = state m
           \<and> usb_state (send_finish m' i True r) = usb_state m
           \<and> (head_deferred (send_finish m' i True r) \<longrightarrow> head_deferred m \<or> work_queued (send_finish m' i True r))
           \<and> (work_queued m \<longrightarrow> work_queued (send_finish m' i True r))"
proof -
  have l: "length (cmd_array m) = 40" "i < 40" "i \<notin> set (cmds m)" "plain_flags (flags (cmd_at m i))"
    and req: "has_flag (flags (cmd_at m i)) (BIT 1)"
    using ok i by (auto simp: mgr_ok_def)
  have il: "i < length (cmd_array m)" using l by simp
  show ?thesis
  proof (cases "cmds m \<noteq> [] \<and> queue_sz m = max_queue_sz m")
    case True
    let ?m = "cmd_upd m i (set_result (- 12))"
    have e: "r = - 12" "m' = ?m" using q st True by (auto simp: cmd_mgr_queue_force_defer_def)
    have "mgr_ok (rwnx_cmd_free ?m i) (ps - {i}) ws"
      using cmd_free_ok [OF set_result_ok [OF ok l(2)], of i "- 12"] l by simp
    moreover have "head_deferred (rwnx_cmd_free ?m i) = head_deferred m"
      using l by (auto simp: head_deferred_def rwnx_cmd_free_def wpush_def set_result_def)
    ultimately show ?thesis by (simp add: e send_finish_def) (simp add: rwnx_cmd_free_def)
  next
    case False
    then have len: "length (cmds m) < 16"
      using queue_sz_small(2) [OF ok] ok by (cases "cmds m") (auto simp: mgr_ok_def le_less)
    have e: "r = 0" "m' = WAKE_CMD_WORK (enlisted m i True)"
      using q st False cmd_enlist_eq(2) [OF req l(4) il] unfolding cmd_mgr_queue_force_defer_def if_not_P [OF False]
      by auto
    have "mgr_ok (enlisted m i True) (ps - {i}) ws" using enlisted_ok [OF ok i len, of True] by simp
    then have "mgr_ok m' (ps - {i}) ws"
      unfolding e by (rule agree_ok [rotated]) (simp add: agree_def WAKE_CMD_WORK_def)
    then show ?thesis by (simp add: e send_finish_def) (simp add: WAKE_CMD_WORK_def enlisted_def)
  qed
qed

lemma listed_nonzero: "mgr_ok m ps ws \<Longrightarrow> i \<in> set (cmds m) \<Longrightarrow> queue_sz m \<noteq> 0"
  using queue_sz_small(1) [of m ps ws] by (metis length_pos_if_in_set less_irrefl unat_0)

lemma cmd_confirm_ok:
  assumes ok: "mgr_ok m ps ws" and i: "i \<in> set (cmds m)" and c: "cmd_confirm m i p = Inr m'"
  shows "mgr_ok m' ps ws \<and> cmds m' = cmds m \<and> state m' = state m \<and> usb_state m' = usb_state m
           \<and> work_queued m' = work_queued m \<and> head_deferred m' = head_deferred m"
proof -
  have l: "length (cmd_array m) = 40" "i < 40" "plain_flags (flags (cmd_at m i))" "used (cmd_at m i)"
    using ok i by (auto simp: mgr_ok_def)
  define m1 where "m1 = cmd_upd m i (\<lambda>c. c\<lparr>flags := flags c AND NOT (BIT 4)\<rparr>)"
  obtain c1 where c1: "e2a_store (cmd_at m1 i) (take 1024 p) = Inr c1"
    using c by (cases "e2a_store (cmd_at m1 i) (take 1024 p)") (simp_all add: cmd_confirm_def m1_def)
  define m2 where "m2 = cmd_upd m1 i (\<lambda>_. c1)"
  have k: "flags c1 = flags (cmd_at m i) AND NOT (BIT 4)" "used c1 = used (cmd_at m i)"
    using c1 l by (auto simp: e2a_store_def m1_def split: option.splits if_splits)
  have m2: "m2 = cmd_upd m i (\<lambda>_. c1)" using l by (simp add: m2_def m1_def cmd_upd_def)
  have ok2: "mgr_ok m2 ps ws"
    unfolding m2 using l k by (intro mgr_ok_inside [OF ok i]) (auto simp: plain_flags_def flag_simps wpush_def wcfm_def)
  have l2: "i < length (cmd_array m2)" "cmd_at m2 i = c1" "i \<in> set (cmds m2)" using l i by (simp_all add: m2)
  have wc: "RWNX_CMD_WAIT_COMPLETE (flags c1)" using k l(3) by (simp add: plain_flags_def flag_simps)
  then have m': "m' = cmd_complete m2 i" using c c1 l2(2) by (simp add: cmd_confirm_def m1_def m2_def Let_def)
  define f :: "rwnx_cmd \<Rightarrow> rwnx_cmd" where "f = (\<lambda>c. if RWNX_CMD_WAIT_COMPLETE (flags c)
           then c\<lparr>flags := flags c OR BIT 5, result := 0, completed := True\<rparr> else c\<lparr>flags := flags c OR BIT 5\<rparr>)"
  have pl: "plain_flags (flags (cmd_at m2 i))" using k l(3) l2(2) by (simp add: plain_flags_def flag_simps)
  have m'f: "m' = cmd_upd m2 i f"
    unfolding m' f_def by (rule cmd_complete_plain [OF pl listed_nonzero [OF ok2 l2(3)] l2(1)])
  have "mgr_ok m' ps ws"
    unfolding m'f using pl l k l2(2)
    by (intro mgr_ok_inside [OF ok2 l2(3)]) (auto simp: f_def plain_flags_def flag_simps wpush_def wcfm_def)
  moreover have "wpush m' j = wpush m j" for j
    using l k by (simp add: m'f m2 wpush_def f_def flag_simps)
  ultimately show ?thesis by (simp add: m'f m2 head_deferred_def)
qed

lemma task_push_ok:
  assumes ok: "mgr_ok m ps ws" and pick: "task_pick m = Some i" and p: "task_push m i = Inr m'"
  shows "mgr_ok m' ps (insert i ws) \<and> state m' = state m \<and> usb_state m' = usb_state m
           \<and> work_queued m' = work_queued m \<and> i \<notin> ws"
proof -
  obtain js where c: "cmds m = i # js" and w: "wpush m i"
    using pick by (auto simp: task_pick_def wpush_def split: list.splits if_splits)
  have l: "length (cmd_array m) = 40" "i < 40" "plain_flags (flags (cmd_at m i))" "used (cmd_at m i)" "i \<notin> set js"
      "sorted_wrt (before m) (i # js)"
    using ok by (auto simp: mgr_ok_def c)
  define m1 where "m1 = cmd_upd m i (\<lambda>c. c\<lparr>flags := flags c AND NOT (BIT 2)\<rparr>)"
  have a: "agree m1 m' \<and> work_queued m' = work_queued m1 \<and> usb_state m' = usb_state m1 \<and> state m' = state m1"
    using p l by (intro cmd_push_agree [of _ i]) (simp_all add: task_push_def m1_def)
  have wj: "wpush m1 j \<longleftrightarrow> j \<noteq> i \<and> wpush m j" "j \<noteq> i \<Longrightarrow> in_flight m1 j = in_flight m j" for j
    using l by (auto simp: m1_def wpush_def in_flight_def wcfm_def flag_simps)
  have "\<forall>j\<in>set js. wpush m j" using l(6) w by (auto simp: before_def)
  then have "\<forall>j\<in>set js. before m1 i j" using wj(1) l(5) by (auto simp: before_def)
  moreover have "sorted_wrt (before m1) js"
  proof (rule sorted_wrt_mono_rel)
    show "sorted_wrt (before m) js" using l(6) by simp
    show "\<And>x y. x \<in> set js \<Longrightarrow> y \<in> set js \<Longrightarrow> before m x y \<Longrightarrow> before m1 x y"
      using wj l(5) unfolding before_def by metis
  qed
  moreover have "ws = {j \<in> set (i # js). \<not> wpush m j}" using ok by (simp add: mgr_ok_def c)
  then have "insert i ws = {j \<in> set (i # js). \<not> wpush m1 j}" "i \<notin> ws" using wj(1) w by auto
  moreover have "\<forall>j<40. plain_flags (flags (cmd_at m1 j)) \<and> (j \<notin> set (i # js) \<longrightarrow> \<not> wpush m1 j)"
    using ok wj(1) l(1,2,3) by (auto simp: mgr_ok_def c m1_def plain_flags_def flag_simps)
  moreover have "\<forall>j\<in>set (i # js) \<union> ps. j < 40 \<and> used (cmd_at m1 j)"
    using ok l(1,2,4) by (auto simp: mgr_ok_def c m1_def)
  moreover have "\<forall>j\<in>ps. has_flag (flags (cmd_at m1 j)) (BIT 1)"
    using ok l(1,2) by (auto simp: mgr_ok_def c m1_def)
  ultimately have "mgr_ok m1 ps (insert i ws)"
    using ok unfolding mgr_ok_def m1_def cmd_upd_sel c by simp
  then show ?thesis using a agree_ok \<open>i \<notin> ws\<close> by (auto simp: m1_def)
qed

lemma cmd_retire_ok:
  assumes ok: "mgr_ok m ps ws" and i: "i \<in> ws" and r: "cmd_retire m i = Inr m'"
  shows "mgr_ok m' ps (ws - {i}) \<and> state m' = state m \<and> usb_state m' = usb_state m
           \<and> work_queued m' = work_queued m \<and> length (cmds m') < length (cmds m)"
proof -
  have l: "length (cmd_array m) = 40" "i < 40" "i \<in> set (cmds m)" "\<not> wpush m i" "i \<notin> ps"
    using ok i by (auto simp: mgr_ok_def)
  have q: "queue_sz m - 1 = of_nat (length (remove1 i (cmds m)))"
  proof -
    have "length (cmds m) = Suc (length (remove1 i (cmds m)))"
      using l(3) length_pos_if_in_set [OF l(3)] by (simp add: length_remove1)
    then show ?thesis using ok by (simp add: mgr_ok_def)
  qed
  have d: "distinct (cmds m)" and s: "sorted_wrt (before m) (cmds m)" using ok by (auto simp: mgr_ok_def)
  let ?cs = "filter (\<lambda>j. j \<noteq> i) (cmds m)"
  have rm: "remove1 i (cmds m) = ?cs"
    using d by (auto simp: distinct_remove1_removeAll removeAll_filter_not_eq intro: filter_cong)
  define m2 where "m2 = m\<lparr>cmds := remove1 i (cmds m), queue_sz := queue_sz m - 1, ws_tx := (if queue_sz m - 1 = 0 then False else ws_tx m)\<rparr>"
  have m': "m' = rwnx_cmd_free m2 i"
    using r l(3) by (cases m) (auto simp: cmd_retire_def cmd_list_del_def m2_def Let_def split: if_splits)
  have "length ?cs < length (cmds m)" using l(3) by (rule length_filter_less) simp
  moreover have "length (cmds m) \<le> 16" using ok by (simp add: mgr_ok_def)
  ultimately have small: "length ?cs < 16" by simp
  have z: "queue_sz m - 1 = 0 \<longleftrightarrow> ?cs = []"
  proof -
    have "queue_sz m - 1 = 0 \<longleftrightarrow> unat (queue_sz m - 1) = 0" by (simp add: unat_eq_0)
    also have "unat (queue_sz m - 1) = length ?cs" unfolding q rm using small by (simp add: unat_of_nat)
    finally show ?thesis by simp
  qed
  have "before m2 = before m"
    by (intro ext) (simp add: m2_def before_def wpush_def in_flight_def wcfm_def)
  then have "sorted_wrt (before m2) ?cs" using sorted_wrt_filter [OF s] by simp
  moreover have "ws - {i} = {j \<in> set ?cs. \<not> wpush m2 j}"
    using ok by (auto simp: mgr_ok_def m2_def rm wpush_def)
  moreover have "\<forall>j<40. plain_flags (flags (cmd_at m2 j)) \<and> (j \<notin> set ?cs \<longrightarrow> \<not> wpush m2 j)"
    using ok l(4) by (auto simp: mgr_ok_def m2_def rm wpush_def)
  ultimately have "mgr_ok m2 ps (ws - {i})"
    using ok q z d small unfolding mgr_ok_def rm by (auto simp: m2_def rm)
  then have "mgr_ok m' ps (ws - {i})"
    using cmd_free_ok [of m2 ps "ws - {i}" i] l(2,5) by (simp add: m' m2_def rm)
  moreover have "length ?cs < length (cmds m)" using l(3) by (rule length_filter_less) simp
  ultimately show ?thesis by (simp add: m' rwnx_cmd_free_def m2_def rm)
qed


section \<open>The manager with its threads\<close>

datatype worker_state =
    WorkIdle
  | WorkLoop
  | WorkWait nat

text \<open>
  The manager, the commands of the threads inside the polling loop of \<open>cmd_mgr_queue\<close> and of those
  waiting for their completion, and where the work function is. The last field is a history
  variable that no operation reads: a caller has left a non-empty queue while the device was not up,
  so that \<open>cmd_mgr_queue\<close> did not schedule the work, and the work function has not started since.
\<close>

record cmd_sys =
  mgr :: cmd_mgr
  pollers :: "nat list"
  waiters :: "nat list"
  worker :: worker_state
  wake_skipped :: bool

definition place :: "queue_out \<Rightarrow> nat \<Rightarrow> cmd_sys \<Rightarrow> cmd_sys" where
  "place out i s =
     (case out of
        Returned r \<Rightarrow> s
      | Polling \<Rightarrow> s\<lparr>pollers := i # pollers s\<rparr>
      | Waiting \<Rightarrow> s\<lparr>waiters := i # waiters s\<rparr>)"

text \<open>
  The steps: a thread issues a command, goes on polling or wakes up, the firmware confirms, the work
  function runs, or the device changes its state (\<open>aicwf_usb_state_change\<close> on suspend, resume,
  start and stop) at any moment between them.
\<close>

inductive cmd_step :: "cmd_sys \<Rightarrow> cmd_sys \<Rightarrow> bool" where
  issue: "rwnx_send_msg (mgr s) msg reqcfm rid cfm = Inr (out, Some i, m) \<Longrightarrow>
    cmd_step s (place out i (s\<lparr>mgr := m\<rparr>))"
| issue_deferred: "send_prepare (mgr s) msg True rid cfm = Inr (i, m) \<Longrightarrow>
    cmd_mgr_queue_force_defer m i = (r, m') \<Longrightarrow>
    cmd_step s (s\<lparr>mgr := send_finish m' i True r\<rparr>)"
| poll: "i \<in> set (pollers s) \<Longrightarrow> cmd_mgr_queue (mgr s) i = Inr (out, m) \<Longrightarrow>
    cmd_step s (place out i (s\<lparr>mgr := queue_return out i m, pollers := removeAll i (pollers s)\<rparr>))"
| wake: "i \<in> set (waiters s) \<Longrightarrow> w = Completed \<longrightarrow> completed (cmd_at (mgr s) i) \<Longrightarrow>
    cmd_mgr_queue_wake (mgr s) i w = Inr (r, m) \<Longrightarrow>
    cmd_step s (s\<lparr>mgr := send_finish m i True r, waiters := removeAll i (waiters s),
                  wake_skipped := (wake_skipped s \<or> cmds m \<noteq> [] \<and> usb_state m \<noteq> USB_UP_ST)\<rparr>)"
| confirm: "cmd_mgr_msgind (mgr s) mid p cb = Inr m \<Longrightarrow> cmd_step s (s\<lparr>mgr := m\<rparr>)"
| work_start: "worker s = WorkIdle \<Longrightarrow> work_queued (mgr s) \<Longrightarrow>
    cmd_step s (s\<lparr>mgr := (mgr s)\<lparr>work_queued := False\<rparr>, worker := WorkLoop, wake_skipped := False\<rparr>)"
| work_push: "worker s = WorkLoop \<Longrightarrow> task_pick (mgr s) = Some i \<Longrightarrow> task_push (mgr s) i = Inr m \<Longrightarrow>
    cmd_step s (s\<lparr>mgr := m, worker := WorkWait i\<rparr>)"
| work_end: "worker s = WorkLoop \<Longrightarrow> task_pick (mgr s) = None \<Longrightarrow> cmd_step s (s\<lparr>worker := WorkIdle\<rparr>)"
| work_wake: "worker s = WorkWait i \<Longrightarrow> w = Completed \<longrightarrow> completed (cmd_at (mgr s) i) \<Longrightarrow>
    task_wake (mgr s) i w = Inr m \<Longrightarrow> cmd_step s (s\<lparr>mgr := m, worker := WorkLoop\<rparr>)"
| device: "cmd_step s (s\<lparr>mgr := (mgr s)\<lparr>usb_state := st\<rparr>\<rparr>)"

definition worker_cmd :: "worker_state \<Rightarrow> nat set" where
  "worker_cmd w = (case w of WorkWait i \<Rightarrow> {i} | _ \<Rightarrow> {})"

definition cmd_ok :: "cmd_sys \<Rightarrow> bool" where
  "cmd_ok s \<longleftrightarrow> mgr_ok (mgr s) (set (pollers s)) (set (waiters s) \<union> worker_cmd (worker s))
     \<and> set (waiters s) \<inter> worker_cmd (worker s) = {}
     \<and> (head_deferred (mgr s) \<longrightarrow> work_queued (mgr s) \<or> worker s \<noteq> WorkIdle \<or> wake_skipped s)"

definition cmd_inv :: "cmd_sys \<Rightarrow> bool" where
  "cmd_inv s \<longleftrightarrow> (state (mgr s) = RWNX_CMD_MGR_STATE_INITED \<longrightarrow> cmd_ok s)"

definition cmd_init :: "cmd_sys \<Rightarrow> bool" where
  "cmd_init s \<longleftrightarrow> (\<exists>m. mgr s = rwnx_cmd_mgr_init m \<and> cmd_array m = rwnx_init_cmd_array \<and> queue_sz m = 0 \<and> \<not> ws_tx m)
     \<and> pollers s = [] \<and> waiters s = [] \<and> worker s = WorkIdle \<and> \<not> wake_skipped s"

text \<open>No operation takes the manager out of its crashed or uninitialised state.\<close>

lemma state_simps [simp]:
  "state (cmd_enlist m i) = state m" "state (rwnx_cmd_free m i) = state m" "state (WAKE_CMD_WORK m) = state m"
  "state (send_finish m i r x) = state m" "state (cmd_complete m i) = state m"
  by (simp_all add: cmd_enlist_def rwnx_cmd_free_def WAKE_CMD_WORK_def send_finish_def cmd_complete_def Let_def)

lemma state_push: "cmd_push m i = Inr m' \<Longrightarrow> state m' = state m"
  by (auto simp: cmd_push_def aicwf_set_cmd_tx_def split: option.splits sum.splits if_splits)

lemma state_queue: "cmd_mgr_queue m i = Inr (out, m') \<Longrightarrow> state m' = state m"
  by (auto simp: cmd_mgr_queue_def Let_def state_push split: option.splits sum.splits if_splits)

lemma state_retire: "cmd_retire m i = Inr m' \<Longrightarrow> state m' = state m"
  by (auto simp: cmd_retire_def cmd_list_del_def Let_def split: sum.splits if_splits)

lemma state_prepare: "send_prepare m msg r rid cfm = Inr (i, m') \<Longrightarrow> state m' = state m"
  by (auto simp: send_prepare_def rwnx_cmd_malloc_def split: option.splits)

lemma state_timed_out: "state (cmd_timed_out m i) = RWNX_CMD_MGR_STATE_CRASHED"
  by (simp add: cmd_timed_out_def Let_def)

lemma state_msgind: "cmd_mgr_msgind m mid p cb = Inr m' \<Longrightarrow> state m' = state m"
  by (auto simp: cmd_mgr_msgind_def cmd_confirm_def Let_def split: option.splits sum.splits if_splits)

lemma state_place [simp]: "mgr (place out i s) = mgr s"
  by (cases out) (simp_all add: place_def)


text \<open>A step from an uncrashed manager that does not crash keeps the invariant.\<close>

lemma issue_ok:
  assumes ok: "cmd_ok s" and st: "state (mgr s) = RWNX_CMD_MGR_STATE_INITED"
    and r: "rwnx_send_msg (mgr s) msg reqcfm rid cfm = Inr (out, Some i, m)"
  shows "cmd_ok (place out i (s\<lparr>mgr := m\<rparr>))"
proof -
  let ?ps = "set (pollers s)" and ?ws = "set (waiters s) \<union> worker_cmd (worker s)"
  obtain m1 where p: "send_prepare (mgr s) msg reqcfm rid cfm = Inr (i, m1)"
    using r by (auto simp: rwnx_send_msg_def split: if_splits sum.splits prod.splits queue_out.splits)
  have mok: "mgr_ok (mgr s) ?ps ?ws" using ok by (simp add: cmd_ok_def)
  note pr = send_prepare_ok [OF mok p]
  have i: "i \<notin> ?ws" using pr(1) mok by (auto simp: mgr_ok_def)
  show ?thesis
  proof (cases reqcfm)
    case True
    obtain m2 where q: "cmd_mgr_queue m1 i = Inr (out, m2)" and m: "m = queue_return out i m2"
      using r p True by (auto simp: rwnx_send_msg_def queue_return_def split: if_splits sum.splits prod.splits queue_out.splits)
    have ok1: "mgr_ok m1 (insert i ?ps) ?ws" using pr(1) True by simp
    note k = cmd_mgr_queue_ok [OF ok1 _ _ q, folded m]
    have "insert i ?ps - {i} = ?ps" using pr(1) by auto
    then show ?thesis
      using k pr(2-6) st ok i
      by (cases out) (auto simp: cmd_ok_def place_def after_queue_def now_waiting_def)
  next
    case False
    obtain m2 where q: "aicwf_set_cmd_tx m1 msg (8 + length (param msg)) = Inr m2" "m = rwnx_cmd_free m2 i" "out = Returned 0"
      using r p False by (auto simp: rwnx_send_msg_def send_finish_def split: if_splits sum.splits)
    have a: "agree m1 m2" "usb_state m2 = usb_state m1" "work_queued m2 = work_queued m1" "cmds m2 = cmds m1"
        "cmd_array m2 = cmd_array m1"
      using q(1) by (auto simp: aicwf_set_cmd_tx_def agree_def split: if_splits)
    have ok2: "mgr_ok m2 ?ps ?ws" using agree_ok [OF a(1)] pr(1) False by simp
    then have "mgr_ok m (?ps - {i}) ?ws" using cmd_free_ok [of m2 ?ps ?ws i] pr(1,2) a(4) q(2) by simp
    moreover have "head_deferred m = head_deferred m1"
      using head_deferred_free [of i m2] ok2 pr(1) a(4,5) q(2)
      by (simp add: mgr_ok_def head_deferred_def wpush_def cmd_at_def)
    ultimately show ?thesis
      using a pr ok by (auto simp: cmd_ok_def place_def q(2,3) rwnx_cmd_free_def)
  qed
qed

lemma issue_deferred_ok:
  assumes ok: "cmd_ok s" and st: "state (mgr s) = RWNX_CMD_MGR_STATE_INITED"
    and p: "send_prepare (mgr s) msg True rid cfm = Inr (i, m)" and f: "cmd_mgr_queue_force_defer m i = (r, m')"
  shows "cmd_ok (s\<lparr>mgr := send_finish m' i True r\<rparr>)"
proof -
  let ?ps = "set (pollers s)" and ?ws = "set (waiters s) \<union> worker_cmd (worker s)"
  have mok: "mgr_ok (mgr s) ?ps ?ws" using ok by (simp add: cmd_ok_def)
  note pr = send_prepare_ok [OF mok p]
  have "insert i ?ps - {i} = ?ps" using pr(1) by auto
  then show ?thesis
    using force_defer_ok [of m "insert i ?ps" ?ws i r m'] f pr st ok by (auto simp: cmd_ok_def)
qed

lemma poll_ok:
  assumes ok: "cmd_ok s" and st: "state (mgr s) = RWNX_CMD_MGR_STATE_INITED"
    and i: "i \<in> set (pollers s)" and q: "cmd_mgr_queue (mgr s) i = Inr (out, m)"
  shows "cmd_ok (place out i (s\<lparr>mgr := queue_return out i m, pollers := removeAll i (pollers s)\<rparr>))"
proof -
  let ?ps = "set (pollers s)" and ?ws = "set (waiters s) \<union> worker_cmd (worker s)"
  have mok: "mgr_ok (mgr s) ?ps ?ws" using ok by (simp add: cmd_ok_def)
  have "i \<notin> ?ws" using mok i by (auto simp: mgr_ok_def)
  moreover have "insert i (?ps - {i}) = ?ps" using i by auto
  ultimately show ?thesis
    using cmd_mgr_queue_ok [OF mok i st q] ok
    by (cases out) (auto simp: cmd_ok_def place_def after_queue_def now_waiting_def)
qed

lemma wake_ok:
  assumes ok: "cmd_ok s" and st: "state m = RWNX_CMD_MGR_STATE_INITED"
    and i: "i \<in> set (waiters s)" and w: "cmd_mgr_queue_wake (mgr s) i w = Inr (r, m)"
  shows "cmd_ok (s\<lparr>mgr := send_finish m i True r, waiters := removeAll i (waiters s),
                   wake_skipped := (wake_skipped s \<or> cmds m \<noteq> [] \<and> usb_state m \<noteq> USB_UP_ST)\<rparr>)"
proof -
  let ?ps = "set (pollers s)" and ?ws = "set (waiters s) \<union> worker_cmd (worker s)"
  have mok: "mgr_ok (mgr s) ?ps ?ws" using ok by (simp add: cmd_ok_def)
  have "w \<noteq> TimedOut" using w st by (auto simp: cmd_mgr_queue_wake_def state_timed_out)
  then obtain m1 where t: "cmd_retire (mgr s) i = Inr m1" "r = 0"
      "m = (if cmds m1 \<noteq> [] \<and> usb_state m1 = USB_UP_ST then WAKE_CMD_WORK m1 else m1)"
    using w by (auto simp: cmd_mgr_queue_wake_def split: sum.splits if_splits)
  have iw: "i \<in> ?ws" using i by simp
  note k = cmd_retire_ok [OF mok iw t(1)]
  have "agree m1 m" using t(3) by (auto simp: agree_def WAKE_CMD_WORK_def)
  then have mok': "mgr_ok m ?ps (?ws - {i})" using agree_ok k by blast
  have "i \<notin> worker_cmd (worker s)" using ok i by (auto simp: cmd_ok_def)
  then have e: "set (waiters s) - {i} \<union> worker_cmd (worker s) = ?ws - {i}" by auto
  have d: "(set (waiters s) - {i}) \<inter> worker_cmd (worker s) = {}" using ok by (auto simp: cmd_ok_def)
  have "head_deferred m \<longrightarrow> work_queued m \<or> cmds m \<noteq> [] \<and> usb_state m \<noteq> USB_UP_ST"
    using t(3) by (auto simp: head_deferred_def WAKE_CMD_WORK_def)
  then show ?thesis
    using mok' d by (auto simp: cmd_ok_def send_finish_def t(2) e)
qed

lemma cmd_inv_step:
  assumes inv: "cmd_inv s" and step: "cmd_step s s'"
  shows "cmd_inv s'"
  unfolding cmd_inv_def
proof
  assume st': "state (mgr s') = RWNX_CMD_MGR_STATE_INITED"
  show "cmd_ok s'" using step
  proof cases
    case (issue msg reqcfm rid cfm out i m)
    have "state m = state (mgr s)"
      using issue(2)
      by (auto simp: rwnx_send_msg_def aicwf_set_cmd_tx_def state_prepare state_queue
          split: if_splits sum.splits prod.splits queue_out.splits)
    then show ?thesis using issue issue_ok inv st' by (simp add: cmd_inv_def)
  next
    case (issue_deferred msg rid cfm i m r m')
    have "state m' = state (mgr s)"
      using issue_deferred(2,3) by (auto simp: cmd_mgr_queue_force_defer_def state_prepare split: if_splits)
    then show ?thesis using issue_deferred issue_deferred_ok inv st' by (simp add: cmd_inv_def)
  next
    case (poll i out m)
    have "state (queue_return out i m) = state (mgr s)"
      using state_queue [OF poll(3)] by (cases out) (simp_all add: queue_return_def)
    then show ?thesis using poll poll_ok inv st' by (simp add: cmd_inv_def)
  next
    case (wake i w r m)
    have "state m = RWNX_CMD_MGR_STATE_INITED" using wake(1) st' by simp
    moreover have "state (mgr s) = state m"
      using wake(4) calculation by (auto simp: cmd_mgr_queue_wake_def state_timed_out state_retire split: if_splits sum.splits)
    ultimately show ?thesis using wake wake_ok inv by (simp add: cmd_inv_def)
  next
    case (confirm mid p cb m)
    have ok: "cmd_ok s" using confirm state_msgind [OF confirm(2)] inv st' by (simp add: cmd_inv_def)
    show ?thesis
    proof (cases "find (cfm_matches (mgr s) mid cb) (cmds (mgr s))")
      case None
      then show ?thesis using confirm ok by (auto simp: cmd_mgr_msgind_def cmd_ok_def)
    next
      case (Some i)
      have "i \<in> set (cmds (mgr s))" using Some by (auto simp: find_Some_iff)
      then show ?thesis
        using cmd_confirm_ok [of "mgr s" "set (pollers s)" "set (waiters s) \<union> worker_cmd (worker s)" i p m] confirm ok Some
        by (simp add: cmd_mgr_msgind_def cmd_ok_def)
    qed
  next
    case work_start
    have ok: "cmd_ok s" using work_start inv st' by (simp add: cmd_inv_def)
    have "agree (mgr s) ((mgr s)\<lparr>work_queued := False\<rparr>)" by (simp add: agree_def)
    then show ?thesis using agree_ok ok work_start by (auto simp: cmd_ok_def worker_cmd_def)
  next
    case (work_push i m)
    have "state m = state (mgr s)" using work_push(4) by (auto simp: task_push_def dest: state_push)
    then have ok: "cmd_ok s" using work_push inv st' by (simp add: cmd_inv_def)
    then have mok: "mgr_ok (mgr s) (set (pollers s)) (set (waiters s))"
      using work_push(2) by (simp add: cmd_ok_def worker_cmd_def)
    show ?thesis using task_push_ok [OF mok work_push(3,4)] work_push(1) by (auto simp: cmd_ok_def worker_cmd_def)
  next
    case work_end
    have ok: "cmd_ok s" using work_end inv st' by (simp add: cmd_inv_def)
    moreover have "\<not> head_deferred (mgr s)"
      using work_end(3) by (auto simp: task_pick_def head_deferred_def wpush_def split: list.splits if_splits)
    ultimately show ?thesis using work_end by (auto simp: cmd_ok_def worker_cmd_def)
  next
    case (work_wake i w m)
    have "w \<noteq> TimedOut" using work_wake(1,4) st' by (auto simp: task_wake_def state_timed_out)
    then have r: "cmd_retire (mgr s) i = Inr m" using work_wake(4) by (simp add: task_wake_def)
    have ok: "cmd_ok s" using work_wake(1) state_retire [OF r] inv st' by (simp add: cmd_inv_def)
    have "mgr_ok (mgr s) (set (pollers s)) (insert i (set (waiters s)))" "i \<notin> set (waiters s)"
      using ok work_wake(2) by (auto simp: cmd_ok_def worker_cmd_def)
    then show ?thesis
      using cmd_retire_ok [of "mgr s" "set (pollers s)" "insert i (set (waiters s))" i m] r work_wake(1)
      by (auto simp: cmd_ok_def worker_cmd_def)
  next
    case (device st)
    have ok: "cmd_ok s" using device inv st' by (simp add: cmd_inv_def)
    have "agree (mgr s) ((mgr s)\<lparr>usb_state := st\<rparr>)" by (simp add: agree_def cmd_at_def)
    moreover have "head_deferred ((mgr s)\<lparr>usb_state := st\<rparr>) = head_deferred (mgr s)"
      by (simp add: head_deferred_def wpush_def cmd_at_def)
    ultimately show ?thesis using agree_ok ok device by (auto simp: cmd_ok_def)
  qed
qed

lemma cmd_init_inv:
  assumes "cmd_init s"
  shows "cmd_inv s"
proof -
  obtain m where m: "mgr s = rwnx_cmd_mgr_init m" "cmd_array m = rwnx_init_cmd_array" "queue_sz m = 0" "\<not> ws_tx m"
    using assms by (auto simp: cmd_init_def)
  have "plain_flags 0" "\<not> has_flag 0 (BIT 2)" by (simp_all add: plain_flags_def has_flag_def)
  then show ?thesis using m assms
    by (simp add: cmd_inv_def cmd_ok_def mgr_ok_def cmd_init_def rwnx_cmd_mgr_init_def rwnx_init_cmd_array_def
        worker_cmd_def head_deferred_def cmd_at_def wpush_def)
qed

interpretation cmd_queue: transition_system cmd_init cmd_step cmd_inv
  by unfold_locales (auto intro: cmd_init_inv cmd_inv_step)


section \<open>Consequences of the invariant\<close>

lemma in_flight_at_most_one:
  assumes "sorted_wrt (before m) is"
  shows "length (filter (in_flight m) is) \<le> 1"
  using assms
proof (induction "is")
  case (Cons i "is")
  have "filter (in_flight m) is = []" if "in_flight m i"
    using that Cons.prems by (auto simp: filter_empty_conv before_def in_flight_def)
  then show ?case using Cons by auto
qed simp

lemma crashed_step:
  "cmd_step s s' \<Longrightarrow> state (mgr s) = RWNX_CMD_MGR_STATE_CRASHED \<Longrightarrow> state (mgr s') = RWNX_CMD_MGR_STATE_CRASHED"
proof (induction rule: cmd_step.induct)
  case (issue s msg reqcfm rid cfm out i m)
  then show ?case
    by (auto simp: rwnx_send_msg_def aicwf_set_cmd_tx_def state_prepare state_queue
        split: if_splits sum.splits prod.splits queue_out.splits)
next
  case (issue_deferred s msg rid cfm i m r m')
  then show ?case by (auto simp: cmd_mgr_queue_force_defer_def state_prepare split: if_splits)
next
  case (poll i s out m)
  then show ?case by (cases out) (auto simp: queue_return_def state_queue)
next
  case (wake i s w r m)
  then show ?case
    by (auto simp: cmd_mgr_queue_wake_def state_timed_out state_retire split: if_splits sum.splits)
next
  case (confirm s mid p cb m)
  then show ?case by (simp add: state_msgind)
next
  case (work_push s i m)
  then show ?case by (auto simp: task_push_def dest: state_push)
next
  case (work_wake s i w m)
  then show ?case by (auto simp: task_wake_def state_timed_out state_retire split: if_splits)
qed simp_all

interpretation cmd_crash: transition_system
  "\<lambda>s. state (mgr s) = RWNX_CMD_MGR_STATE_CRASHED" cmd_step "\<lambda>s. state (mgr s) = RWNX_CMD_MGR_STATE_CRASHED"
  by unfold_locales (auto intro: crashed_step)

section \<open>Reading a transmitted message back\<close>

definition cmd_rx_parse :: "u8 list \<Rightarrow> lmac_msg" where
  "cmd_rx_parse b =
     (let n = unat (get_u16 (b ! 14) (b ! 15))
      in \<lparr>msg_id = get_u16 (b ! 8) (b ! 9), dest_id = get_u16 (b ! 10) (b ! 11), src_id = get_u16 (b ! 12) (b ! 13),
          param = take n (drop 16 b)\<rparr>)"

lemma nth_cmd_tx_buffer:
  "cmd_tx_buffer msg n ! 8 = put_u16 (msg_id msg) ! 0" "cmd_tx_buffer msg n ! 9 = put_u16 (msg_id msg) ! 1"
  "cmd_tx_buffer msg n ! 10 = put_u16 (dest_id msg) ! 0" "cmd_tx_buffer msg n ! 11 = put_u16 (dest_id msg) ! 1"
  "cmd_tx_buffer msg n ! 12 = put_u16 (src_id msg) ! 0" "cmd_tx_buffer msg n ! 13 = put_u16 (src_id msg) ! 1"
  "cmd_tx_buffer msg n ! 14 = put_u16 (of_nat (length (param msg))) ! 0"
  "cmd_tx_buffer msg n ! 15 = put_u16 (of_nat (length (param msg))) ! 1"
  "drop 16 (cmd_tx_buffer msg n) = param msg"
  by (simp_all add: cmd_tx_buffer_def put_u16_def)

lemma cmd_rx_parse_tx_buffer:
  assumes "length (param msg) < 65536"
  shows "cmd_rx_parse (cmd_tx_buffer msg n) = msg"
  using assms by (simp add: cmd_rx_parse_def nth_cmd_tx_buffer get_put_u16 [simplified] unat_of_nat)


section \<open>Concrete instances\<close>

definition ex_mgr :: cmd_mgr where
  "ex_mgr = rwnx_cmd_mgr_init
     \<lparr>state = RWNX_CMD_MGR_STATE_DEINIT, next_tkn = 0, queue_sz = 0, max_queue_sz = 0, cmds = [],
      cmd_array = rwnx_init_cmd_array, usb_state = USB_UP_ST, ws_tx = False, work_queued = False, tx_msgs = []\<rparr>"

definition ex_sys :: cmd_sys where
  "ex_sys = \<lparr>mgr = ex_mgr, pollers = [], waiters = [], worker = WorkIdle, wake_skipped = False\<rparr>"

definition ex_msg :: lmac_msg where
  "ex_msg = \<lparr>msg_id = 2, dest_id = 0, src_id = 100, param = [1, 2, 3]\<rparr>"

lemma ex_sys_init: "cmd_init ex_sys"
  by (auto simp: cmd_init_def ex_sys_def ex_mgr_def intro!: exI)

lemma first_unused_replicate: "0 < n \<Longrightarrow> \<not> used c \<Longrightarrow> first_unused (replicate n c) = Some 0"
  by (cases n) simp_all

lemma ex_mgr_send:
  "\<exists>m. rwnx_send_msg ex_mgr ex_msg True 3 cfm = Inr (Waiting, Some 0, m)
     \<and> state m = RWNX_CMD_MGR_STATE_INITED \<and> cmds m = [0] \<and> flags (cmd_at m 0) = 18 \<and> reqid (cmd_at m 0) = 3
     \<and> e2a_msg (cmd_at m 0) = cfm"
  by (simp add: rwnx_send_msg_def ex_mgr_def ex_msg_def rwnx_cmd_mgr_init_def rwnx_init_cmd_array_def send_prepare_def
      rwnx_cmd_malloc_def first_unused_replicate send_fill_def cmd_mgr_queue_def cmd_enlist_def cmd_push_def
      aicwf_set_cmd_tx_def cmd_upd_def cmd_at_def last_busy_def Let_def has_flag_def BIT_def)

lemma ex_sys_run:
  obtains s' where "cmd_step\<^sup>*\<^sup>* ex_sys s'" "state (mgr s') = RWNX_CMD_MGR_STATE_INITED" "cmds (mgr s') = [0]"
    "waiters s' = [0]"
proof -
  obtain m where m: "rwnx_send_msg ex_mgr ex_msg True 3 None = Inr (Waiting, Some 0, m)"
      "state m = RWNX_CMD_MGR_STATE_INITED" "cmds m = [0]"
    using ex_mgr_send by blast
  let ?s = "place Waiting 0 (ex_sys\<lparr>mgr := m\<rparr>)"
  have "cmd_step ex_sys ?s" using m(1) by (intro cmd_step.issue) (simp add: ex_sys_def)
  then show thesis using m by (intro that [of ?s]) (auto simp: place_def ex_sys_def)
qed

text \<open>
  A second command behind one in flight: it is deferred, its thread returns at once. When the first
  one is confirmed and its caller wakes up, the device being in state \<open>st\<close>, the second heads the
  list; the work item is scheduled exactly when the device is up at that moment.
\<close>

lemma replicate_two: "replicate 40 x = x # x # replicate 38 x"
  by (simp add: numeral_eq_Suc)

lemma ex_mgr_two:
  "\<exists>m m1 m2 m3. rwnx_send_msg ex_mgr ex_msg True 3 None = Inr (Waiting, Some 0, m)
     \<and> rwnx_send_msg m ex_msg True 5 None = Inr (Returned 0, Some 1, m1)
     \<and> cmd_mgr_msgind m1 3 [] (\<lambda>_. 0) = Inr m2 \<and> completed (cmd_at m2 0)
     \<and> cmd_mgr_queue_wake (m2\<lparr>usb_state := st\<rparr>) 0 Completed = Inr (0, m3)
     \<and> state m3 = RWNX_CMD_MGR_STATE_INITED \<and> cmds m3 = [1] \<and> wpush m3 1 \<and> usb_state m3 = st
     \<and> (work_queued m3 \<longleftrightarrow> st = USB_UP_ST)"
  by (simp add: rwnx_send_msg_def ex_mgr_def ex_msg_def rwnx_cmd_mgr_init_def rwnx_init_cmd_array_def send_prepare_def
      rwnx_cmd_malloc_def first_unused_replicate send_fill_def cmd_mgr_queue_def cmd_enlist_def cmd_push_def
      aicwf_set_cmd_tx_def cmd_upd_def cmd_at_def last_busy_def Let_def has_flag_def BIT_def set_wait_push_def
      cmd_mgr_msgind_def cfm_matches_def cmd_confirm_def e2a_store_def cmd_complete_def cmd_mgr_queue_wake_def
      cmd_retire_def cmd_list_del_def rwnx_cmd_free_def WAKE_CMD_WORK_def wpush_def send_finish_def
      RWNX_CMD_WAIT_COMPLETE_def replicate_two word_le_nat_alt)

lemmas cmd_run = rtranclp.rtrancl_into_rtrancl [where r = cmd_step]

lemma ex_sys_deferred:
  obtains s' where "cmd_step\<^sup>*\<^sup>* ex_sys s'" "state (mgr s') = RWNX_CMD_MGR_STATE_INITED" "cmds (mgr s') = [1]"
    "head_deferred (mgr s')" "usb_state (mgr s') = st" "work_queued (mgr s') \<longleftrightarrow> st = USB_UP_ST"
    "wake_skipped s' \<longleftrightarrow> st \<noteq> USB_UP_ST" "pollers s' = []" "waiters s' = []" "worker s' = WorkIdle"
proof -
  obtain m m1 m2 m3 where m: "rwnx_send_msg ex_mgr ex_msg True 3 None = Inr (Waiting, Some 0, m)"
      "rwnx_send_msg m ex_msg True 5 None = Inr (Returned 0, Some 1, m1)"
      "cmd_mgr_msgind m1 3 [] (\<lambda>_. 0) = Inr m2" "completed (cmd_at m2 0)"
      "cmd_mgr_queue_wake (m2\<lparr>usb_state := st\<rparr>) 0 Completed = Inr (0, m3)"
      "state m3 = RWNX_CMD_MGR_STATE_INITED" "cmds m3 = [1]" "wpush m3 1" "usb_state m3 = st"
      "work_queued m3 \<longleftrightarrow> st = USB_UP_ST"
    using ex_mgr_two [of st] by blast
  let ?s = "ex_sys\<lparr>mgr := m, waiters := [0]\<rparr>"
  let ?w = "(?s\<lparr>mgr := m2\<lparr>usb_state := st\<rparr>\<rparr>)\<lparr>mgr := m3, waiters := [], wake_skipped := (st \<noteq> USB_UP_ST)\<rparr>"
  have s1: "cmd_step ex_sys ?s" using cmd_step.issue [of ex_sys ex_msg True 3 None Waiting 0 m] m(1)
    by (simp add: place_def ex_sys_def)
  have s2: "cmd_step ?s (?s\<lparr>mgr := m1\<rparr>)" using cmd_step.issue [of ?s ex_msg True 5 None "Returned 0" 1 m1] m(2)
    by (simp add: place_def)
  have s3: "cmd_step (?s\<lparr>mgr := m1\<rparr>) (?s\<lparr>mgr := m2\<rparr>)"
    using cmd_step.confirm [of "?s\<lparr>mgr := m1\<rparr>" 3 "[]" "\<lambda>_. 0" m2] m(3) by simp
  have s4: "cmd_step (?s\<lparr>mgr := m2\<rparr>) (?s\<lparr>mgr := m2\<lparr>usb_state := st\<rparr>\<rparr>)"
    using cmd_step.device [of "?s\<lparr>mgr := m2\<rparr>" st] by simp
  have s5: "cmd_step (?s\<lparr>mgr := m2\<lparr>usb_state := st\<rparr>\<rparr>) ?w"
    using cmd_step.wake [of 0 "?s\<lparr>mgr := m2\<lparr>usb_state := st\<rparr>\<rparr>" Completed 0 m3] m(4,5,7,9)
    by (simp add: cmd_at_def send_finish_def ex_sys_def)
  have "cmd_step\<^sup>*\<^sup>* ex_sys ?w"
    using cmd_run [OF cmd_run [OF cmd_run [OF cmd_run [OF cmd_run [OF rtranclp.rtrancl_refl s1] s2] s3] s4] s5] .
  then show thesis using m by (intro that [of ?w]) (auto simp: head_deferred_def ex_sys_def)
qed

section \<open>Properties\<close>

text \<open>
  C1: The command queue. In every state the manager reaches from its initialisation by any
  interleaving of issued commands, polling and waiting callers, firmware confirmations, runs
  of the work item and state changes of the device, as long as it has not crashed: \<open>queue_sz\<close> is the length of the list and at
  most 16, no command is listed twice, at most one command is in flight (pushed and
  waiting for its confirmation), and the transmit wake lock is held exactly while commands are
  listed.
\<close>

theorem cmd_queue_safe:
  assumes "cmd_init s" and "cmd_step\<^sup>*\<^sup>* s s'" and "state (mgr s') = RWNX_CMD_MGR_STATE_INITED"
  shows "unat (queue_sz (mgr s')) = length (cmds (mgr s')) \<and> length (cmds (mgr s')) \<le> 16 \<and> distinct (cmds (mgr s'))
           \<and> length (filter (in_flight (mgr s')) (cmds (mgr s'))) \<le> 1 \<and> (ws_tx (mgr s') \<longleftrightarrow> cmds (mgr s') \<noteq> [])"
proof -
  have "cmd_ok s'" using cmd_queue.reachable_inv [OF assms(1,2)] assms(3) by (simp add: cmd_inv_def)
  then have ok: "mgr_ok (mgr s') (set (pollers s')) (set (waiters s') \<union> worker_cmd (worker s'))"
    by (simp add: cmd_ok_def)
  then show ?thesis
    using queue_sz_small(1) [OF ok] in_flight_at_most_one by (auto simp: mgr_ok_def)
qed

theorem cmd_queue_safe_witness:
  "\<exists>s'. cmd_step\<^sup>*\<^sup>* ex_sys s' \<and> cmds (mgr s') = [0] \<and> unat (queue_sz (mgr s')) = length (cmds (mgr s'))
     \<and> length (filter (in_flight (mgr s')) (cmds (mgr s'))) \<le> 1 \<and> (ws_tx (mgr s') \<longleftrightarrow> cmds (mgr s') \<noteq> [])"
proof -
  obtain s' where s: "cmd_step\<^sup>*\<^sup>* ex_sys s'" "state (mgr s') = RWNX_CMD_MGR_STATE_INITED" "cmds (mgr s') = [0]"
      "waiters s' = [0]"
    using ex_sys_run by blast
  show ?thesis using cmd_queue_safe [OF ex_sys_init s(1,2)] s by (intro exI [of _ s']) simp
qed

text \<open>
  C2: No lost wake-up while the device is up, and no orphan. In every uncrashed state the manager
  reaches from its initialisation by the same interleavings, the device being suspended, resumed,
  started and stopped at any moment between them: when the first listed command is deferred, the work
  item is scheduled or running, unless a caller left the non-empty queue at a moment when the device
  was not up and the work item has not started since (\<open>wake_skipped\<close>); and the pushed commands on
  the list are exactly those a caller or the work item waits for, none by both. The exception is
  real: the lemma \<open>cmd_wakeup_lost\<close> has a run through a suspend and a resume that ends in it.
\<close>

theorem cmd_queue_live:
  assumes "cmd_init s" and "cmd_step\<^sup>*\<^sup>* s s'" and "state (mgr s') = RWNX_CMD_MGR_STATE_INITED"
  shows "(head_deferred (mgr s') \<longrightarrow> work_queued (mgr s') \<or> worker s' \<noteq> WorkIdle \<or> wake_skipped s')
           \<and> {i \<in> set (cmds (mgr s')). \<not> wpush (mgr s') i} = set (waiters s') \<union> worker_cmd (worker s')
           \<and> set (waiters s') \<inter> worker_cmd (worker s') = {}"
proof -
  have "cmd_ok s'" using cmd_queue.reachable_inv [OF assms(1,2)] assms(3) by (simp add: cmd_inv_def)
  then show ?thesis unfolding cmd_ok_def mgr_ok_def by blast
qed

theorem cmd_queue_live_witness:
  "\<exists>s'. cmd_step\<^sup>*\<^sup>* ex_sys s' \<and> cmds (mgr s') = [1] \<and> head_deferred (mgr s') \<and> \<not> wake_skipped s'
     \<and> (work_queued (mgr s') \<or> worker s' \<noteq> WorkIdle)
     \<and> {i \<in> set (cmds (mgr s')). \<not> wpush (mgr s') i} = set (waiters s') \<union> worker_cmd (worker s')"
proof -
  obtain s' where s: "cmd_step\<^sup>*\<^sup>* ex_sys s'" "state (mgr s') = RWNX_CMD_MGR_STATE_INITED" "cmds (mgr s') = [1]"
      "head_deferred (mgr s')" "\<not> wake_skipped s'"
    by (rule ex_sys_deferred [of USB_UP_ST]) simp
  show ?thesis using cmd_queue_live [OF ex_sys_init s(1,2)] s by (intro exI [of _ s']) simp
qed

text \<open>
  The lost wake-up: from the initialised manager a run leads through a suspend and a resume to an
  uncrashed state with the device up, a deferred command at the head of the list, nobody waiting or
  polling, and the work item neither scheduled nor running.
\<close>

lemma cmd_wakeup_lost:
  "\<exists>s'. cmd_step\<^sup>*\<^sup>* ex_sys s' \<and> state (mgr s') = RWNX_CMD_MGR_STATE_INITED \<and> usb_state (mgr s') = USB_UP_ST
     \<and> head_deferred (mgr s') \<and> pollers s' = [] \<and> waiters s' = [] \<and> worker s' = WorkIdle \<and> \<not> work_queued (mgr s')"
proof -
  obtain s' where s: "cmd_step\<^sup>*\<^sup>* ex_sys s'" "state (mgr s') = RWNX_CMD_MGR_STATE_INITED" "head_deferred (mgr s')"
      "\<not> work_queued (mgr s')" "pollers s' = []" "waiters s' = []" "worker s' = WorkIdle"
    by (rule ex_sys_deferred [of USB_SLEEP_ST]) simp
  have "cmd_step s' (s'\<lparr>mgr := (mgr s')\<lparr>usb_state := USB_UP_ST\<rparr>\<rparr>)" by (rule cmd_step.device)
  then show ?thesis
    using s by (intro exI [of _ "s'\<lparr>mgr := (mgr s')\<lparr>usb_state := USB_UP_ST\<rparr>\<rparr>"])
      (auto simp: head_deferred_def wpush_def cmd_at_def)
qed

text \<open>
  C3: A waiting caller can always finish: in every reachable uncrashed state, when a command some
  caller waits for is confirmed, the wake-up path returns 0 without touching an unlinked list
  entry, unlinks the command and gives its slot back.
\<close>

theorem cmd_wake_no_fault:
  assumes "cmd_init s" and "cmd_step\<^sup>*\<^sup>* s s'" and "state (mgr s') = RWNX_CMD_MGR_STATE_INITED"
    and "i \<in> set (waiters s')"
  shows "\<exists>m. cmd_mgr_queue_wake (mgr s') i Completed = Inr (0, m) \<and> cmds m = remove1 i (cmds (mgr s'))
           \<and> \<not> used (cmd_at m i) \<and> queue_sz m = queue_sz (mgr s') - 1"
proof -
  have "cmd_ok s'" using cmd_queue.reachable_inv [OF assms(1,2)] assms(3) by (simp add: cmd_inv_def)
  then have "i \<in> set (cmds (mgr s'))" "i < length (cmd_array (mgr s'))"
    using assms(4) by (auto simp: cmd_ok_def mgr_ok_def)
  then show ?thesis
    by (auto simp: cmd_mgr_queue_wake_def cmd_retire_def cmd_list_del_def Let_def rwnx_cmd_free_def WAKE_CMD_WORK_def)
qed

theorem cmd_wake_no_fault_witness:
  "\<exists>s' m. cmd_step\<^sup>*\<^sup>* ex_sys s' \<and> cmd_mgr_queue_wake (mgr s') 0 Completed = Inr (0, m) \<and> cmds m = []"
proof -
  obtain s' where s: "cmd_step\<^sup>*\<^sup>* ex_sys s'" "state (mgr s') = RWNX_CMD_MGR_STATE_INITED" "cmds (mgr s') = [0]"
      "waiters s' = [0]"
    using ex_sys_run by blast
  have w: "0 \<in> set (waiters s')" by (simp add: s(4))
  show ?thesis using cmd_wake_no_fault [OF ex_sys_init s(1,2) w] s by (intro exI [of _ s']) auto
qed

text \<open>
  C4: A confirmation completes the first listed command that expects it: for the first command
  of the list whose \<open>reqid\<close> is the message and that waits for a confirmation its callback
  accepts, the parameters are copied to the start of the caller's buffer, the wait flag is
  cleared, the result becomes 0 and its completion is signalled; every other command is
  unchanged. This is for a manager in a well-formed state (\<open>mgr_ok\<close>, which every reachable
  uncrashed state is), a command whose caller gave a buffer, and parameters that fit in that buffer
  and are at most 1024 bytes (\<open>RWNX_CMD_E2AMSG_LEN_MAX\<close>); a longer confirmation is cut at 1024 bytes
  or runs over the buffer, which is not covered here.
\<close>

theorem cmd_msgind_completes:
  assumes "mgr_ok m ps ws" and "find (cfm_matches m mid cb) (cmds m) = Some i"
    and "e2a_msg (cmd_at m i) = Some buf" and "length p \<le> length buf" and "length p \<le> RWNX_CMD_E2AMSG_LEN_MAX"
  shows "\<exists>m'. cmd_mgr_msgind m mid p cb = Inr m' \<and> completed (cmd_at m' i) \<and> result (cmd_at m' i) = 0
           \<and> e2a_msg (cmd_at m' i) = Some (p @ drop (length p) buf) \<and> \<not> wcfm m' i
           \<and> (\<forall>j. j \<noteq> i \<longrightarrow> cmd_at m' j = cmd_at m j) \<and> cmds m' = cmds m"
proof -
  have i: "i \<in> set (cmds m)" using assms(2) by (auto simp: find_Some_iff)
  have l: "length (cmd_array m) = 40" "i < 40" "plain_flags (flags (cmd_at m i))"
    using assms(1) i by (auto simp: mgr_ok_def)
  have q: "queue_sz m \<noteq> 0" using listed_nonzero [OF assms(1) i] .
  have w: "RWNX_CMD_WAIT_COMPLETE (flags (cmd_at m i) AND NOT (BIT 4))"
    using l(3) by (simp add: plain_flags_def flag_simps)
  have n: "\<not> has_flag ((flags (cmd_at m i) AND NOT (BIT 4)) OR BIT 5) (BIT 0)"
    using l(3) by (simp add: plain_flags_def flag_simps)
  have w5: "RWNX_CMD_WAIT_COMPLETE ((flags (cmd_at m i) AND NOT (BIT 4)) OR BIT 5)"
    using l(3) by (simp add: plain_flags_def flag_simps)
  show ?thesis
    using assms(2-5) l q w n w5
    by (simp add: cmd_mgr_msgind_def cmd_confirm_def e2a_store_def Let_def cmd_complete_def wcfm_def)
      (simp add: flag_simps)
qed


theorem cmd_msgind_completes_witness:
  "\<exists>m m'. rwnx_send_msg ex_mgr ex_msg True 3 (Some [0, 0, 0, 0]) = Inr (Waiting, Some 0, m)
     \<and> cmd_mgr_msgind m 3 [7, 8] (\<lambda>_. 0) = Inr m' \<and> completed (cmd_at m' 0) \<and> result (cmd_at m' 0) = 0
     \<and> e2a_msg (cmd_at m' 0) = Some [7, 8, 0, 0]"
proof -
  obtain m where m: "rwnx_send_msg ex_mgr ex_msg True 3 (Some [0, 0, 0, 0]) = Inr (Waiting, Some 0, m)"
      "state m = RWNX_CMD_MGR_STATE_INITED" "cmds m = [0]" "flags (cmd_at m 0) = 18" "reqid (cmd_at m 0) = 3"
      "e2a_msg (cmd_at m 0) = Some [0, 0, 0, 0]"
    using ex_mgr_send [of "Some [0, 0, 0, 0]"] by blast
  let ?s = "place Waiting 0 (ex_sys\<lparr>mgr := m\<rparr>)"
  have "cmd_step ex_sys ?s" using m(1) by (intro cmd_step.issue) (simp add: ex_sys_def)
  then have "cmd_ok ?s" using cmd_inv_step [OF cmd_init_inv [OF ex_sys_init]] m(2) by (simp add: cmd_inv_def)
  then have ok: "mgr_ok m (set (pollers ?s)) (set (waiters ?s) \<union> worker_cmd (worker ?s))"
    by (simp add: cmd_ok_def)
  have "find (cfm_matches m 3 (\<lambda>_. 0)) (cmds m) = Some 0"
    using m by (simp add: cfm_matches_def has_flag_def BIT_def)
  then show ?thesis using cmd_msgind_completes [OF ok _ m(6), of 3 "\<lambda>_. 0" "[7, 8]"] m(1) by auto
qed

text \<open>
  A command that times out stops the manager for good: the manager is crashed after the
  timeout, stays crashed whatever happens next, and every later command that needs a
  confirmation is refused with \<open>-EPIPE\<close> without reaching the queue.
\<close>

lemma cmd_timeout_crashes:
  assumes "cmd_mgr_queue_wake (mgr s) i TimedOut = Inr (r, m)" and "cmd_step\<^sup>*\<^sup>* (s\<lparr>mgr := m\<rparr>) s'"
  shows "r = - ETIMEDOUT \<and> state (mgr s') = RWNX_CMD_MGR_STATE_CRASHED
           \<and> cmd_mgr_queue (mgr s') j = Inr (Returned (- EPIPE), cmd_upd (mgr s') j (set_result (- EPIPE)))"
proof -
  have c: "r = - ETIMEDOUT" "state m = RWNX_CMD_MGR_STATE_CRASHED"
    using assms(1) by (auto simp: cmd_mgr_queue_wake_def state_timed_out)
  then have "state (mgr s') = RWNX_CMD_MGR_STATE_CRASHED"
    using cmd_crash.reachable_inv [OF _ assms(2)] by simp
  then show ?thesis using c by (simp add: cmd_mgr_queue_def)
qed

lemma cmd_timeout_crashes_example:
  "\<exists>m r. cmd_mgr_queue_wake ex_mgr 0 TimedOut = Inr (r, m) \<and> r = - ETIMEDOUT \<and> state m = RWNX_CMD_MGR_STATE_CRASHED
     \<and> cmd_mgr_queue m 0 = Inr (Returned (- EPIPE), cmd_upd m 0 (set_result (- EPIPE)))"
proof -
  obtain m r where w: "cmd_mgr_queue_wake (mgr ex_sys) 0 TimedOut = Inr (r, m)"
    by (auto simp: cmd_mgr_queue_wake_def)
  show ?thesis
    using cmd_timeout_crashes [OF w rtranclp.rtrancl_refl, of 0] w by (intro exI) (auto simp: ex_sys_def)
qed

text \<open>
  C5: The command frame on the bus: for a message that fits the 1536-byte command buffer and a
  device that is not down, one frame is sent; its 12-bit length field counts all its bytes but
  four, its type byte is 0x11, and identifier, tasks and parameters read back from it are those
  of the message.
\<close>

theorem cmd_tx_roundtrip:
  assumes "usb_state m \<noteq> USB_DOWN_ST" and "length (param msg) \<le> 1520"
  shows "\<exists>m' b. aicwf_set_cmd_tx m msg (8 + length (param msg)) = Inr m' \<and> tx_msgs m' = tx_msgs m @ [b]
           \<and> cmd_rx_parse b = msg \<and> b ! 2 = 0x11 \<and> length b \<le> CMD_BUF_MAX
           \<and> length b = unat (b ! 0) + 256 * unat (b ! 1) + 4"
proof -
  let ?n = "length (param msg)"
  let ?b = "cmd_tx_buffer msg (8 + ?n)"
  have "(12 + ?n) div 256 < 16" using assms(2) by (intro less_mult_imp_div_less) simp
  then have b1: "unat (?b ! 1) = (12 + ?n) div 256"
    by (simp add: cmd_tx_buffer_def unat_of_nat)
  have "?b ! 0 = of_nat (12 + ?n)" by (simp add: cmd_tx_buffer_def)
  then have "unat (?b ! 0) = (12 + ?n) mod 256" by (simp only: unat_of_nat) simp
  then have "unat (?b ! 0) + 256 * unat (?b ! 1) = 12 + ?n" using b1 by simp
  moreover have "length ?b = 16 + ?n" "?b ! 2 = 0x11" by (simp_all add: cmd_tx_buffer_def)
  ultimately show ?thesis
    using assms cmd_rx_parse_tx_buffer [of msg "8 + ?n"] by (simp add: aicwf_set_cmd_tx_def)
qed

theorem cmd_tx_roundtrip_witness:
  "\<exists>m' b. aicwf_set_cmd_tx ex_mgr ex_msg 11 = Inr m' \<and> tx_msgs m' = [b] \<and> cmd_rx_parse b = ex_msg"
  using cmd_tx_roundtrip [of ex_mgr ex_msg] by (auto simp: ex_mgr_def ex_msg_def rwnx_cmd_mgr_init_def)

text \<open>
  Draining leaves the manager inconsistent: \<open>cmd_mgr_drain\<close> empties the list and signals the
  waiting callers but keeps \<open>queue_sz\<close>, so a caller that then wakes up as completed unlinks an entry that is
  no longer on the list.
\<close>

lemma cmd_drain_fault:
  assumes "cmds m \<noteq> []"
  shows "cmds (cmd_mgr_drain m) = [] \<and> queue_sz (cmd_mgr_drain m) = queue_sz m
           \<and> cmd_mgr_queue_wake (cmd_mgr_drain m) i Completed = Inl NullDeref"
proof -
  have "cmds (foldl (\<lambda>r i. if has_flag (flags (cmd_at r i)) (BIT 0) then r
          else cmd_upd r i (\<lambda>c. c\<lparr>completed := True\<rparr>)) r is) = cmds r
      \<and> queue_sz (foldl (\<lambda>r i. if has_flag (flags (cmd_at r i)) (BIT 0) then r
          else cmd_upd r i (\<lambda>c. c\<lparr>completed := True\<rparr>)) r is) = queue_sz r" for r "is"
    by (induction "is" arbitrary: r) simp_all
  then show ?thesis
    by (simp add: cmd_mgr_drain_def cmd_mgr_queue_wake_def cmd_retire_def cmd_list_del_def)
qed

lemma cmd_drain_fault_example:
  "cmd_mgr_queue_wake (cmd_mgr_drain (ex_mgr\<lparr>cmds := [0]\<rparr>)) 0 Completed = Inl NullDeref"
  using cmd_drain_fault [of "ex_mgr\<lparr>cmds := [0]\<rparr>" 0] by simp

text \<open>
  A reused slot hides a timeout: the array slot keeps the \<open>DONE\<close> flag of its previous use (a
  slot was allocated zeroed before the static array replaced it), so when the new command times
  out its result stays \<open>-EINTR\<close> and it is not completed, although the caller gets \<open>-ETIMEDOUT\<close>.
\<close>

lemma cmd_reused_slot_timeout:
  assumes "has_flag (flags (cmd_at m i)) RWNX_CMD_FLAG_DONE" and "i < length (cmd_array m)"
    and "first_unused (cmd_array m) = Some i"
  shows "\<exists>m1 m2. send_prepare m msg True rid cfm = Inr (i, m1)
           \<and> has_flag (flags (cmd_at (cmd_enlist m1 i) i)) RWNX_CMD_FLAG_DONE
           \<and> cmd_mgr_queue_wake (cmd_enlist m1 i) i TimedOut = Inr (- ETIMEDOUT, m2) \<and> result (cmd_at m2 i) = - EINTR"
  using assms
  by (simp add: send_prepare_def rwnx_cmd_malloc_def send_fill_def cmd_enlist_def Let_def cmd_mgr_queue_wake_def
      cmd_timed_out_def flag_simps)

lemma cmd_reused_slot_timeout_example:
  "\<exists>m1 m2. send_prepare (cmd_upd ex_mgr 0 (\<lambda>c. c\<lparr>flags := 34\<rparr>)) ex_msg True 3 None = Inr (0, m1)
     \<and> has_flag (flags (cmd_at (cmd_enlist m1 0) 0)) RWNX_CMD_FLAG_DONE
     \<and> cmd_mgr_queue_wake (cmd_enlist m1 0) 0 TimedOut = Inr (- ETIMEDOUT, m2) \<and> result (cmd_at m2 0) = - EINTR"
proof (rule cmd_reused_slot_timeout)
  have l: "length (cmd_array ex_mgr) = 40" and u: "\<not> used (cmd_array ex_mgr ! 0)"
    by (simp_all add: ex_mgr_def rwnx_cmd_mgr_init_def rwnx_init_cmd_array_def)
  then obtain c cs where a: "cmd_array ex_mgr = c # cs" by (cases "cmd_array ex_mgr") auto
  then show "first_unused (cmd_array (cmd_upd ex_mgr 0 (\<lambda>c. c\<lparr>flags := 34\<rparr>))) = Some 0"
    using u by (simp add: cmd_upd_def)
  show "has_flag (flags (cmd_at (cmd_upd ex_mgr 0 (\<lambda>c. c\<lparr>flags := 34\<rparr>)) 0)) (BIT 5)"
    using l by (simp add: has_flag_def BIT_def)
qed (simp add: ex_mgr_def rwnx_cmd_mgr_init_def rwnx_init_cmd_array_def)

end
