(* ===== verification/TcpAck.thy ===== *)
theory TcpAck
  imports Prelude
begin

text \<open>
  The TCP acknowledgement filter (aicwf_tcp_ack.c): a table of 32 flows that holds back pure
  acknowledgements of the same flow and sends the latest one. Message buffers are named by
  their address; \<open>intf_tx\<close> and \<open>intf_tcp_drop_msg\<close> are events of the log. The current time in
  jiffies is an argument. The seqlocks make each access of a slot atomic.
\<close>

section \<open>State\<close>

text \<open>\<open>U32_BEFORE\<close>: the sign of the 32-bit difference, equality included.\<close>

definition U32_BEFORE :: "u32 \<Rightarrow> u32 \<Rightarrow> bool" where
  "U32_BEFORE a b \<longleftrightarrow> sint (a - b) \<le> 0"

definition time_after :: "u64 \<Rightarrow> u64 \<Rightarrow> bool" where
  "time_after a b \<longleftrightarrow> sint (b - a) < 0"

abbreviation (input) TCP_ACK_NUM :: nat where "TCP_ACK_NUM \<equiv> 32"
abbreviation (input) TCP_ACK_DROP_CNT :: int where "TCP_ACK_DROP_CNT \<equiv> 10"
abbreviation (input) MAX_TCP_ACK :: nat where "MAX_TCP_ACK \<equiv> 200"
abbreviation (input) MIN_WIN :: u32 where "MIN_WIN \<equiv> 256"
abbreviation (input) SIZE_KB :: u32 where "SIZE_KB \<equiv> 1024"

record tcp_ack_msg =
  source :: u16
  dest :: u16
  saddr :: u32
  daddr :: u32
  seq :: u32
  win :: u16

record tcp_ack_info =
  busy :: bool
  drop_cnt :: int
  psh_flag :: bool
  psh_seq :: u32
  win_scale :: u16
  last_time :: u64
  timeout :: u64
  timer_on :: bool
  msgbuf :: "nat option"
  in_send_msg :: "nat option"
  ack_msg :: tcp_ack_msg

datatype ack_event =
    IntfTx nat
  | DropMsg nat

record tcp_ack_manage =
  enable :: bool
  max_num :: int
  free_index :: int
  m_last_time :: u64
  m_timeout :: u64
  max_drop_cnt :: int
  ack_info :: "tcp_ack_info list"
  ack_winsize :: u32
  ack_log :: "ack_event list"

definition info_upd :: "tcp_ack_manage \<Rightarrow> nat \<Rightarrow> (tcp_ack_info \<Rightarrow> tcp_ack_info) \<Rightarrow> tcp_ack_manage" where
  "info_upd m i f = m\<lparr>ack_info := (ack_info m)[i := f (ack_info m ! i)]\<rparr>"

definition log_ack :: "ack_event list \<Rightarrow> tcp_ack_manage \<Rightarrow> tcp_ack_manage" where
  "log_ack es m = m\<lparr>ack_log := ack_log m @ es\<rparr>"

section \<open>Initialisation\<close>

text \<open>\<open>old\<close> is \<open>msecs_to_jiffies(ACK_OLD_TIME)\<close>; all other fields are zeroed by \<open>memset\<close>.\<close>

definition tcp_ack_init :: "u64 \<Rightarrow> u64 \<Rightarrow> tcp_ack_manage" where
  "tcp_ack_init now old =
     \<lparr>enable = True, max_num = 0, free_index = 0, m_last_time = now, m_timeout = old,
      max_drop_cnt = TCP_ACK_DROP_CNT,
      ack_info = replicate TCP_ACK_NUM
        \<lparr>busy = False, drop_cnt = 0, psh_flag = False, psh_seq = 0, win_scale = 0, last_time = now,
         timeout = old, timer_on = False, msgbuf = None, in_send_msg = None,
         ack_msg = \<lparr>source = 0, dest = 0, saddr = 0, daddr = 0, seq = 0, win = 0\<rparr>\<rparr>,
      ack_winsize = MIN_WIN, ack_log = []\<rparr>"

definition drop_events :: "nat option \<Rightarrow> ack_event list" where
  "drop_events b = (case b of None \<Rightarrow> [] | Some x \<Rightarrow> [DropMsg x])"

definition tcp_ack_deinit :: "tcp_ack_manage \<Rightarrow> tcp_ack_manage" where
  "tcp_ack_deinit m =
     log_ack (concat (map (\<lambda>a. drop_events (msgbuf a)) (ack_info m)))
       (m\<lparr>enable := False,
          ack_info := map (\<lambda>a. a\<lparr>timer_on := False, msgbuf := None\<rparr>) (ack_info m)\<rparr>)"

section \<open>The end of a transmission\<close>

definition move_tcpack_msg :: "tcp_ack_manage \<Rightarrow> nat \<Rightarrow> tcp_ack_manage" where
  "move_tcpack_msg m b =
     (if \<not> enable m then m
      else m\<lparr>ack_info := map (\<lambda>a. if busy a \<and> in_send_msg a = Some b then a\<lparr>in_send_msg := None\<rparr> else a)
                           (ack_info m)\<rparr>)"

text \<open>\<open>intf_tx\<close> first calls \<open>move_tcpack_msg\<close>, then queues the buffer for transmission.\<close>

definition intf_tx :: "tcp_ack_manage \<Rightarrow> nat \<Rightarrow> tcp_ack_manage" where
  "intf_tx m b = log_ack [IntfTx b] (move_tcpack_msg m b)"

definition tcp_ack_timeout :: "tcp_ack_manage \<Rightarrow> nat \<Rightarrow> tcp_ack_manage" where
  "tcp_ack_timeout m i =
     (let a = ack_info m ! i in
      case msgbuf a of
        Some b \<Rightarrow>
          if busy a \<and> in_send_msg a = None
          then intf_tx (info_upd m i (\<lambda>a. a\<lparr>msgbuf := None, drop_cnt := 0, in_send_msg := Some b\<rparr>)) b
          else m
      | None \<Rightarrow> m)"

section \<open>Parsing\<close>

definition be16 :: "u8 list \<Rightarrow> nat \<Rightarrow> u16" where
  "be16 b k = push_bit 8 (ucast (b ! k)) OR ucast (b ! (k + 1))"

definition be32 :: "u8 list \<Rightarrow> nat \<Rightarrow> u32" where
  "be32 b k = push_bit 16 (ucast (be16 b k)) OR ucast (be16 b (k + 2))"

text \<open>
  The option loop of \<open>is_drop_tcp_ack\<close>. \<open>len\<close> is what the loop believes is left, the list what is
  left of the buffer, \<open>dr\<close> the variable \<open>drop\<close>. A \<open>break\<close> on the end-of-options code or a bad size leaves the \<open>switch\<close>
  only: the loop goes on with the same \<open>len\<close>. It goes on after an option that it does not know too, since \<open>drop\<close> is then 2.
\<close>

abbreviation (input) TCPOPT_EOL :: u8 where "TCPOPT_EOL \<equiv> 0"
abbreviation (input) TCPOPT_NOP :: u8 where "TCPOPT_NOP \<equiv> 1"
abbreviation (input) TCPOPT_WINDOW :: u8 where "TCPOPT_WINDOW \<equiv> 3"
abbreviation (input) TCPOPT_TIMESTAMP :: u8 where "TCPOPT_TIMESTAMP \<equiv> 8"

definition win_shift :: "u8 \<Rightarrow> u16 \<Rightarrow> u16" where
  "win_shift b ws = (if b < 15 then push_bit (unat b) 1 else ws)"

function opt_loop :: "int \<Rightarrow> u8 list \<Rightarrow> int \<Rightarrow> u16 \<Rightarrow> fault + int \<times> u16" where
  "opt_loop len ptr dr ws =
     (if len \<le> 0 \<or> dr = 0 then Inr (dr, ws)
      else (case ptr of
              [] \<Rightarrow> Inl OutOfBounds
            | opcode # ptr1 \<Rightarrow>
                if opcode = TCPOPT_EOL then opt_loop len ptr1 dr ws
                else if opcode = TCPOPT_NOP then opt_loop (len - 1) ptr1 dr ws
                else (case ptr1 of
                        [] \<Rightarrow> Inl OutOfBounds
                      | sz # ptr2 \<Rightarrow>
                          let opsize = int (unat sz) in
                          if opsize < 2 then opt_loop len ptr2 dr ws
                          else if opsize > len then opt_loop len ptr2 dr ws
                          else if opcode = TCPOPT_TIMESTAMP
                          then opt_loop (len - opsize) (drop (unat sz - 2) ptr2) dr ws
                          else if opcode = TCPOPT_WINDOW
                          then (case ptr2 of
                                  [] \<Rightarrow> Inl OutOfBounds
                                | b # _ \<Rightarrow> opt_loop (len - opsize) (drop (unat sz - 2) ptr2) dr (win_shift b ws))
                          else opt_loop (len - opsize) (drop (unat sz - 2) ptr2) 2 ws)))"
  by pat_completeness auto

termination
  by (relation "measure (\<lambda>(len, ptr, dr, ws). length ptr)") auto

declare opt_loop.simps [simp del]

definition is_drop_tcp_ack :: "u8 list \<Rightarrow> int \<Rightarrow> u16 \<Rightarrow> fault + int \<times> u16" where
  "is_drop_tcp_ack tcp tcp_tot_len ws =
     (let len = int (unat (drop_bit 4 (tcp ! 12))) * 4 in
      if tcp_tot_len > len then Inr (0, ws) else opt_loop (len - 20) (drop 20 tcp) 1 ws)"

text \<open>
  \<open>tcp_check_ack\<close> and \<open>tcp_check_quick_ack\<close> on the bytes of an Ethernet frame. The result carries
  the message the C function writes through its pointer, if it does.
\<close>

definition ip_tcp :: "u8 list \<Rightarrow> fault + u8 list option" where
  "ip_tcp buf =
     (if length buf < 14 then Inl OutOfBounds
      else if be16 buf 12 \<noteq> 0x0800 then Inr None
      else if length buf < 34 then Inl OutOfBounds
      else if drop_bit 4 (buf ! 14) \<noteq> 4 \<or> buf ! 23 \<noteq> 6 then Inr None
      else
        let temp = drop (14 + unat (buf ! 14 AND 0x0f) * 4) buf in
        if length temp < 14 then Inl OutOfBounds
        else if (temp ! 13) AND 0x10 = 0 then Inr None
        else Inr (Some temp))"

definition tcp_check_quick_ack :: "u8 list \<Rightarrow> fault + tcp_ack_msg option" where
  "tcp_check_quick_ack buf =
     (case ip_tcp buf of
        Inl e \<Rightarrow> Inl e
      | Inr None \<Rightarrow> Inr None
      | Inr (Some temp) \<Rightarrow>
          if (temp ! 13) AND 0x8 \<noteq> 0
          then Inr (Some \<lparr>source = be16 temp 2, dest = be16 temp 0, saddr = be32 buf 30, daddr = be32 buf 26,
                          seq = be32 temp 4, win = 0\<rparr>)
          else Inr None)"

definition tcp_check_ack :: "u8 list \<Rightarrow> u16 \<Rightarrow> fault + int \<times> tcp_ack_msg option \<times> u16" where
  "tcp_check_ack buf ws =
     (case ip_tcp buf of
        Inl e \<Rightarrow> Inl e
      | Inr None \<Rightarrow> Inr (0, None, ws)
      | Inr (Some temp) \<Rightarrow>
          let tcp_tot_len = int (unat (be16 buf 16)) - int (unat (buf ! 14 AND 0x0f)) * 4 in
          (case is_drop_tcp_ack temp tcp_tot_len ws of
             Inl e \<Rightarrow> Inl e
           | Inr (ret, ws') \<Rightarrow>
               if ret > 0 then
                 (if length temp < 16 then Inl OutOfBounds
                  else Inr (ret, Some \<lparr>source = be16 temp 0, dest = be16 temp 2, saddr = be32 buf 26,
                                       daddr = be32 buf 30, seq = be32 temp 8, win = be16 temp 14\<rparr>, ws'))
               else Inr (ret, None, ws')))"

section \<open>The flow table\<close>

definition same_flow :: "tcp_ack_msg \<Rightarrow> tcp_ack_msg \<Rightarrow> bool" where
  "same_flow a b \<longleftrightarrow> dest a = dest b \<and> source a = source b \<and> saddr a = saddr b \<and> daddr a = daddr b"

fun find_index :: "('a \<Rightarrow> bool) \<Rightarrow> 'a list \<Rightarrow> nat option" where
  "find_index P [] = None"
| "find_index P (x # xs) = (if P x then Some 0 else map_option Suc (find_index P xs))"

definition tcp_ack_match :: "tcp_ack_manage \<Rightarrow> tcp_ack_msg \<Rightarrow> nat option" where
  "tcp_ack_match m msg = find_index (\<lambda>a. busy a \<and> same_flow (ack_msg a) msg) (ack_info m)"

definition expired :: "u64 \<Rightarrow> tcp_ack_info \<Rightarrow> bool" where
  "expired now a \<longleftrightarrow> busy a \<and> time_after now (last_time a + timeout a)"

text \<open>The loop runs from the last slot to the first: \<open>free_index\<close> ends at the lowest freed slot.\<close>

definition tcp_ack_update :: "u64 \<Rightarrow> tcp_ack_manage \<Rightarrow> tcp_ack_manage" where
  "tcp_ack_update now m =
     (if time_after now (m_last_time m + m_timeout m) then
        m\<lparr>m_last_time := now,
          free_index := (case find_index (expired now) (ack_info m) of
                           None \<Rightarrow> free_index m | Some i \<Rightarrow> int i),
          max_num := max_num m - int (length (filter (expired now) (ack_info m))),
          ack_info := map (\<lambda>a. if expired now a then a\<lparr>busy := False\<rparr> else a) (ack_info m)\<rparr>
      else m)"

definition tcp_ack_alloc_index :: "tcp_ack_manage \<Rightarrow> int \<times> tcp_ack_manage" where
  "tcp_ack_alloc_index m =
     (if max_num m = int TCP_ACK_NUM then (-1, m)
      else if free_index m \<ge> 0 then (free_index m, m\<lparr>free_index := -1, max_num := max_num m + 1\<rparr>)
      else (case find_index (\<lambda>a. \<not> busy a) (ack_info m) of
              None \<Rightarrow> (-1, m)
            | Some i \<Rightarrow> (int i, m\<lparr>free_index := -1, max_num := max_num m + 1\<rparr>)))"

section \<open>A new acknowledgement\<close>

text \<open>What \<open>tcp_ack_handle_new\<close> does to a slot: its return value, the slot, the buffer it drops.\<close>

definition ack_slot_new ::
    "u64 \<Rightarrow> int \<Rightarrow> nat \<Rightarrow> tcp_ack_msg \<Rightarrow> tcp_ack_info \<Rightarrow> int \<times> tcp_ack_info \<times> nat option" where
  "ack_slot_new now max_drop b msg a =
     (let a1 = a\<lparr>last_time := now\<rparr> in
      if U32_BEFORE (seq (ack_msg a1)) (seq msg) then
        let quick = (psh_flag a1 \<and> \<not> U32_BEFORE (seq msg) (psh_seq a1));
            a2 = a1\<lparr>msgbuf := None,
                    psh_flag := (if quick then False else psh_flag a1),
                    drop_cnt := (if quick then drop_cnt a1 else drop_cnt a1 + 1),
                    ack_msg := (ack_msg a1)\<lparr>seq := seq msg\<rparr>\<rparr>
        in if quick \<or> (in_send_msg a2 = None \<and> drop_cnt a2 \<ge> max_drop)
           then (0, a2\<lparr>drop_cnt := 0, in_send_msg := Some b, timer_on := False\<rparr>, msgbuf a)
           else (1, a2\<lparr>msgbuf := Some b, timer_on := True\<rparr>, msgbuf a)
      else (1, a1, Some b))"

definition tcp_ack_handle_new ::
    "u64 \<Rightarrow> tcp_ack_manage \<Rightarrow> nat \<Rightarrow> nat \<Rightarrow> tcp_ack_msg \<Rightarrow> int \<times> tcp_ack_manage" where
  "tcp_ack_handle_new now m i b msg =
     (case ack_slot_new now (max_drop_cnt m) b msg (ack_info m ! i) of
        (ret, a, d) \<Rightarrow> (ret, log_ack (drop_events d) (info_upd m i (\<lambda>_. a))))"

definition filter_rx_tcp_ack :: "tcp_ack_manage \<Rightarrow> u8 list \<Rightarrow> nat \<Rightarrow> fault + tcp_ack_manage" where
  "filter_rx_tcp_ack m buf plen =
     (if \<not> enable m then Inr m
      else if plen > MAX_TCP_ACK then Inr m
      else (case tcp_check_quick_ack buf of
              Inl e \<Rightarrow> Inl e
            | Inr None \<Rightarrow> Inr m
            | Inr (Some msg) \<Rightarrow>
                (case tcp_ack_match m msg of
                   None \<Rightarrow> Inr m
                 | Some i \<Rightarrow> Inr (info_upd m i (\<lambda>a. a\<lparr>psh_flag := True, psh_seq := seq msg\<rparr>)))))"

definition slot_open :: "u64 \<Rightarrow> int \<Rightarrow> tcp_ack_msg \<Rightarrow> u16 \<Rightarrow> tcp_ack_info \<Rightarrow> tcp_ack_info" where
  "slot_open now max_drop msg ws a =
     a\<lparr>busy := True, psh_flag := False, last_time := now, drop_cnt := max_drop,
       win_scale := (if ws \<noteq> 0 then ws else 1),
       ack_msg := (ack_msg a)\<lparr>dest := dest msg, source := source msg, saddr := saddr msg,
                              daddr := daddr msg, seq := seq msg\<rparr>\<rparr>"

text \<open>
  The part of \<open>filter_send_tcp_ack\<close> after the frame was recognised as an acknowledgement. The
  window comparison only changes the value \<open>drop\<close>, which \<open>tcp_ack_handle_new\<close> does not read.
\<close>

definition filter_ack :: "u64 \<Rightarrow> tcp_ack_manage \<Rightarrow> nat \<Rightarrow> tcp_ack_msg \<Rightarrow> u16 \<Rightarrow> int \<times> tcp_ack_manage" where
  "filter_ack now m b msg ws =
     (case tcp_ack_match m msg of
        Some i \<Rightarrow>
          let m1 = (if ws \<noteq> 0 \<and> win_scale (ack_info m ! i) \<noteq> ws
                    then info_upd m i (\<lambda>a. a\<lparr>win_scale := ws\<rparr>) else m)
          in if enable m1 then tcp_ack_handle_new now m1 i b msg else (0, m1)
      | None \<Rightarrow>
          (case tcp_ack_alloc_index m of
             (i, m1) \<Rightarrow>
               if i \<ge> 0 then (0, info_upd m1 (nat i) (slot_open now (max_drop_cnt m1) msg ws)) else (0, m1)))"

definition filter_send_tcp_ack :: "u64 \<Rightarrow> tcp_ack_manage \<Rightarrow> nat \<Rightarrow> u8 list \<Rightarrow> fault + int \<times> tcp_ack_manage" where
  "filter_send_tcp_ack now m b buf =
     (let m1 = tcp_ack_update now m in
      case tcp_check_ack buf 0 of
        Inl e \<Rightarrow> Inl e
      | Inr (dr, msg, ws) \<Rightarrow>
          if dr = 0 \<and> ws = 0 then Inr (0, m1)
          else (case msg of
                  None \<Rightarrow> Inr (0, m1)
                | Some msg' \<Rightarrow> Inr (filter_ack now m1 b msg' ws)))"

text \<open>
  The caller in \<open>rwnx_start_xmit\<close>: only frames whose length, cut to 16 bits, is at most \<open>MAX_TCP_ACK\<close> reach the
  filter; a buffer that is not filtered is transmitted at once.
\<close>

definition start_xmit_ack :: "u64 \<Rightarrow> tcp_ack_manage \<Rightarrow> nat \<Rightarrow> u8 list \<Rightarrow> fault + bool \<times> tcp_ack_manage" where
  "start_xmit_ack now m b buf =
     (if int (length buf) mod 65536 \<le> int MAX_TCP_ACK then
        (case filter_send_tcp_ack now m b buf of
           Inl e \<Rightarrow> Inl e
         | Inr (ret, m') \<Rightarrow> if ret \<noteq> 0 then Inr (False, m') else Inr (True, move_tcpack_msg m' b))
      else Inr (True, m))"

end
