(* ===== verification/TcpAckTable.thy ===== *)
theory TcpAckTable
  imports TcpAck
begin

text \<open>
  Properties of the acknowledgement filter: the flow table stays consistent, every buffer handed
  to the filter has exactly one fate, the latest acknowledgement of a flow is never the one
  dropped, and how long the filter can hold acknowledgements back.
\<close>

section \<open>Sequence numbers\<close>

lemma sint_diff_small:
  assumes "p \<le> q + 2147483647" and "q \<le> p + 2147483647"
  shows "sint (of_nat p - of_nat q :: u32) = int p - int q"
proof -
  have e: "(of_nat p - of_nat q :: u32) = word_of_int (int p - int q)" by simp
  have "sint (word_of_int k :: u32) = k" if "- 2147483648 \<le> k" "k < 2147483648" for k
    unfolding sint_sbintrunc' by (rule signed_take_bit_int_eq_self) (use that in simp_all)
  note s = this
  have "sint (word_of_int (int p - int q) :: u32) = int p - int q" by (rule s) (use assms in auto)
  then show ?thesis by (simp only: e)
qed

lemma U32_BEFORE_of_nat:
  "p \<le> q + 2147483647 \<Longrightarrow> q \<le> p + 2147483647 \<Longrightarrow> U32_BEFORE (of_nat p) (of_nat q) \<longleftrightarrow> p \<le> q"
  by (simp add: U32_BEFORE_def sint_diff_small)

interpretation ack_order: serial_number "\<lambda>a b. \<not> U32_BEFORE b a" "of_nat" 2147483647
proof unfold_locales
  fix a b :: nat
  assume "a < b + 2147483647" "b \<le> a + 2147483647"
  then show "(\<not> U32_BEFORE (word_of_nat b) (word_of_nat a)) = (a < b)"
    by (simp add: U32_BEFORE_of_nat not_le)
  show "((word_of_nat a :: u32) = word_of_nat b) = (a = b)"
  proof
    assume "(word_of_nat a :: u32) = word_of_nat b"
    then have "sint (word_of_nat a - word_of_nat b :: u32) = 0" by simp
    then show "a = b" using sint_diff_small [of a b] \<open>a < _\<close> \<open>b \<le> _\<close> by simp
  qed simp
qed

section \<open>The fate of the buffers\<close>

definition opt_list :: "'a option \<Rightarrow> 'a list" where
  "opt_list x = (case x of None \<Rightarrow> [] | Some y \<Rightarrow> [y])"

definition held :: "tcp_ack_manage \<Rightarrow> nat list" where
  "held m = concat (map (\<lambda>a. opt_list (msgbuf a)) (ack_info m))"

definition event_buf :: "ack_event \<Rightarrow> nat" where
  "event_buf e = (case e of IntfTx b \<Rightarrow> b | DropMsg b \<Rightarrow> b)"

definition fate :: "tcp_ack_manage \<Rightarrow> nat multiset" where
  "fate m = mset (held m) + mset (map event_buf (ack_log m))"

lemma opt_list_simps [simp]: "opt_list None = []" "opt_list (Some x) = [x]"
  by (simp_all add: opt_list_def)

lemma event_buf_simps [simp]: "event_buf (IntfTx b) = b" "event_buf (DropMsg b) = b"
  by (simp_all add: event_buf_def)

lemma drop_events_buf [simp]: "map event_buf (drop_events b) = opt_list b"
  by (cases b) (simp_all add: drop_events_def)

lemma fate_log [simp]: "fate (log_ack es m) = fate m + mset (map event_buf es)"
  by (simp add: fate_def held_def log_ack_def add.assoc)

lemma held_map:
  "(\<And>a. msgbuf (f a) = msgbuf a) \<Longrightarrow> concat (map (\<lambda>a. opt_list (msgbuf a)) (map f xs)) = concat (map (\<lambda>a. opt_list (msgbuf a)) xs)"
  by (simp add: o_def)

lemma fate_move [simp]: "fate (move_tcpack_msg m b) = fate m"
proof -
  have "held (move_tcpack_msg m b) = held m"
    by (auto simp: held_def move_tcpack_msg_def o_def intro!: arg_cong [of _ _ concat])
  then show ?thesis by (simp add: fate_def move_tcpack_msg_def)
qed

lemma fate_update_time [simp]: "fate (tcp_ack_update now m) = fate m"
proof -
  have "held (tcp_ack_update now m) = held m"
    by (auto simp: held_def tcp_ack_update_def o_def intro!: arg_cong [of _ _ concat])
  then show ?thesis by (simp add: fate_def tcp_ack_update_def)
qed

lemma fate_info_upd:
  assumes "i < length (ack_info m)"
  shows "fate (info_upd m i f) + mset (opt_list (msgbuf (ack_info m ! i)))
           = fate m + mset (opt_list (msgbuf (f (ack_info m ! i))))"
  using mset_concat_update [OF assms, of "\<lambda>a. opt_list (msgbuf a)" "f (ack_info m ! i)"]
  by (simp add: fate_def held_def info_upd_def add.assoc add.left_commute)

lemma fate_info_upd_same:
  assumes "\<And>a. msgbuf (f a) = msgbuf a"
  shows "fate (info_upd m i f) = fate m"
proof (cases "i < length (ack_info m)")
  case True
  then show ?thesis using fate_info_upd [OF True, of f] assms by simp
next
  case False
  then have "(ack_info m)[i := x] = ack_info m" for x by (simp add: list_update_beyond)
  then show ?thesis by (simp add: fate_def held_def info_upd_def)
qed

lemma ack_slot_new_fate:
  assumes "ack_slot_new now k b msg a = (ret, a', d)"
  shows "mset (opt_list (msgbuf a')) + mset (opt_list d) + (if ret = 0 then {#b#} else {#})
           = add_mset b (mset (opt_list (msgbuf a)))"
  using assms by (auto simp: ack_slot_new_def Let_def split: if_splits)

lemma fate_handle_new:
  assumes "tcp_ack_handle_new now m i b msg = (ret, m')" and "i < length (ack_info m)"
  shows "fate m' + (if ret = 0 then {#b#} else {#}) = add_mset b (fate m)"
proof -
  obtain a d where s: "ack_slot_new now (max_drop_cnt m) b msg (ack_info m ! i) = (ret, a, d)"
      and m': "m' = log_ack (drop_events d) (info_upd m i (\<lambda>_. a))"
    using assms(1) by (auto simp: tcp_ack_handle_new_def split: prod.splits)
  have "fate (info_upd m i (\<lambda>_. a)) + mset (opt_list (msgbuf (ack_info m ! i))) = fate m + mset (opt_list (msgbuf a))"
    using fate_info_upd [OF assms(2)] by simp
  moreover have "mset (opt_list (msgbuf a)) + (mset (opt_list d) + (if ret = 0 then {#b#} else {#}))
      = mset (opt_list (msgbuf (ack_info m ! i))) + {#b#}"
    using ack_slot_new_fate [OF s] by (simp add: add.assoc)
  ultimately have "fate (info_upd m i (\<lambda>_. a)) + (mset (opt_list d) + (if ret = 0 then {#b#} else {#})) = fate m + {#b#}"
    by (rule add_balance)
  then show ?thesis by (simp add: m' add.assoc)
qed

section \<open>The flow table\<close>

lemma find_index_Some:
  "find_index P xs = Some i \<Longrightarrow> i < length xs \<and> P (xs ! i) \<and> (\<forall>j<i. \<not> P (xs ! j))"
  by (induction xs arbitrary: i) (auto split: if_splits simp: less_Suc_eq_0_disj)

lemma find_index_None: "find_index P xs = None \<longleftrightarrow> (\<forall>x\<in>set xs. \<not> P x)"
  by (induction xs) auto

definition busy_count :: "tcp_ack_manage \<Rightarrow> nat" where
  "busy_count m = length (filter busy (ack_info m))"

definition flows_distinct :: "tcp_ack_info list \<Rightarrow> bool" where
  "flows_distinct as \<longleftrightarrow> (\<forall>i<length as. \<forall>j<length as. busy (as ! i) \<longrightarrow> busy (as ! j) \<longrightarrow>
     same_flow (ack_msg (as ! i)) (ack_msg (as ! j)) \<longrightarrow> i = j)"

definition table_ok :: "tcp_ack_manage \<Rightarrow> bool" where
  "table_ok m \<longleftrightarrow> length (ack_info m) = TCP_ACK_NUM \<and> max_num m = int (busy_count m)
     \<and> (free_index m = -1 \<or> 0 \<le> free_index m \<and> free_index m < int TCP_ACK_NUM \<and> \<not> busy (ack_info m ! nat (free_index m)))
     \<and> flows_distinct (ack_info m)"

lemma same_flow_refl [simp]: "same_flow a a"
  by (simp add: same_flow_def)

lemma same_flow_sym: "same_flow a b \<Longrightarrow> same_flow b a"
  by (simp add: same_flow_def)

lemma same_flow_trans: "same_flow a b \<Longrightarrow> same_flow b c \<Longrightarrow> same_flow a c"
  by (simp add: same_flow_def)

text \<open>An update that keeps which slots are busy and their flows keeps the table consistent.\<close>

lemma table_ok_map:
  assumes "table_ok m" and "length as = length (ack_info m)"
    and "\<And>i. i < length (ack_info m) \<Longrightarrow> busy (as ! i) = busy (ack_info m ! i)
           \<and> (busy (as ! i) \<longrightarrow> same_flow (ack_msg (as ! i)) (ack_msg (ack_info m ! i)))"
    and "ack_info m' = as" and "max_num m' = max_num m" and "free_index m' = free_index m"
  shows "table_ok m'"
proof -
  have b: "map busy as = map busy (ack_info m)" using assms(2,3) by (intro nth_equalityI) auto
  have "length (filter busy as) = length (filter id (map busy as))" by (simp add: filter_map o_def)
  also have "\<dots> = length (filter busy (ack_info m))" unfolding b by (simp add: filter_map o_def)
  finally have c: "busy_count m' = busy_count m" by (simp add: busy_count_def assms(4))
  have "flows_distinct as"
    unfolding flows_distinct_def
  proof (intro allI impI)
    fix i j
    assume "i < length as" "j < length as" "busy (as ! i)" "busy (as ! j)" "same_flow (ack_msg (as ! i)) (ack_msg (as ! j))"
    note h = this
    have i: "i < length (ack_info m)" "j < length (ack_info m)" using h assms(2) by auto
    then have s: "same_flow (ack_msg (as ! i)) (ack_msg (ack_info m ! i))" "same_flow (ack_msg (as ! j)) (ack_msg (ack_info m ! j))"
        and "busy (ack_info m ! i)" "busy (ack_info m ! j)"
      using assms(3) h by auto
    moreover have "same_flow (ack_msg (ack_info m ! i)) (ack_msg (ack_info m ! j))"
      using s h(5) by (simp add: same_flow_def)
    ultimately show "i = j" using assms(1) i by (simp add: table_ok_def flows_distinct_def)
  qed
  moreover have "nat (free_index m) < length (ack_info m)" if "free_index m \<noteq> -1"
    using assms(1) that by (auto simp: table_ok_def)
  ultimately show ?thesis
    using assms c by (auto simp: table_ok_def)
qed


lemma table_ok_info_upd:
  assumes "table_ok m" and "\<And>a. busy (f a) = busy a \<and> same_flow (ack_msg (f a)) (ack_msg a)"
  shows "table_ok (info_upd m i f)"
  by (rule table_ok_map [OF assms(1)]) (auto simp: info_upd_def nth_list_update_if assms(2))

lemma table_ok_log [simp]: "table_ok (log_ack es m) = table_ok m"
  by (simp add: table_ok_def log_ack_def busy_count_def)

lemma table_ok_move: "table_ok m \<Longrightarrow> table_ok (move_tcpack_msg m b)"
proof -
  assume ok: "table_ok m"
  have "table_ok (m\<lparr>ack_info := map (\<lambda>a. if busy a \<and> in_send_msg a = Some b then a\<lparr>in_send_msg := None\<rparr> else a) (ack_info m)\<rparr>)"
    by (rule table_ok_map [OF ok]) auto
  then show ?thesis using ok by (simp add: move_tcpack_msg_def)
qed

lemma table_ok_timeout: "table_ok m \<Longrightarrow> table_ok (tcp_ack_timeout m i)"
  by (auto simp: tcp_ack_timeout_def intf_tx_def Let_def intro!: table_ok_move table_ok_info_upd split: option.splits)

lemma ack_slot_new_flow:
  "ack_slot_new now k b msg a = (ret, a', d) \<Longrightarrow> busy a' = busy a \<and> same_flow (ack_msg a') (ack_msg a)"
  by (auto simp: ack_slot_new_def Let_def same_flow_def split: if_splits)

lemma table_ok_handle_new:
  assumes "table_ok m" and "tcp_ack_handle_new now m i b msg = (ret, m')"
  shows "table_ok m'"
proof -
  obtain a d where s: "ack_slot_new now (max_drop_cnt m) b msg (ack_info m ! i) = (ret, a, d)"
      and m': "m' = log_ack (drop_events d) (info_upd m i (\<lambda>_. a))"
    using assms(2) by (auto simp: tcp_ack_handle_new_def split: prod.splits)
  have "table_ok (info_upd m i (\<lambda>_. a))"
    using ack_slot_new_flow [OF s]
    by (intro table_ok_map [OF assms(1), of "ack_info (info_upd m i (\<lambda>_. a))"]) (auto simp: info_upd_def nth_list_update_if)
  then show ?thesis by (simp add: m')
qed

lemma busy_count_partition:
  "length (filter busy as) = length (filter (expired now) as) + length (filter (\<lambda>a. busy a \<and> \<not> expired now a) as)"
  by (induction as) (auto simp: expired_def)

lemma table_ok_update:
  assumes "table_ok m"
  shows "table_ok (tcp_ack_update now m)"
proof (cases "time_after now (m_last_time m + m_timeout m)")
  case True
  let ?f = "\<lambda>a. if expired now a then a\<lparr>busy := False\<rparr> else a"
  have l: "length (ack_info m) = 32" using assms by (simp add: table_ok_def)
  have b: "busy (?f a) \<longleftrightarrow> busy a \<and> \<not> expired now a" for a by simp
  have "length (filter busy (map ?f (ack_info m))) = length (filter (\<lambda>a. busy a \<and> \<not> expired now a) (ack_info m))"
    by (simp add: filter_map o_def b)
  then have "int (busy_count m) - int (length (filter (expired now) (ack_info m))) = int (length (filter busy (map ?f (ack_info m))))"
    using busy_count_partition [of "ack_info m" now] by (simp add: busy_count_def)
  moreover have "flows_distinct (map ?f (ack_info m))"
    using assms l by (auto simp: table_ok_def flows_distinct_def)
  moreover have "case find_index (expired now) (ack_info m) of None \<Rightarrow> True | Some i \<Rightarrow> i < 32 \<and> \<not> busy (map ?f (ack_info m) ! i)"
    using find_index_Some [of "expired now" "ack_info m"] l by (auto split: option.splits)
  moreover have "free_index m = -1 \<or> 0 \<le> free_index m \<and> free_index m < 32 \<and> \<not> busy (map ?f (ack_info m) ! nat (free_index m))"
  proof (cases "free_index m = -1")
    case False
    then have "nat (free_index m) < length (ack_info m)" using assms l by (auto simp: table_ok_def)
    then show ?thesis using assms by (auto simp: table_ok_def)
  qed simp
  ultimately show ?thesis
    using assms True l by (auto simp: tcp_ack_update_def table_ok_def busy_count_def simp del: filter_map split: option.splits)
qed (use assms in \<open>simp add: tcp_ack_update_def\<close>)

text \<open>Allocation returns a slot that is not busy, and only fails when all are.\<close>

lemma alloc_index_free:
  assumes "table_ok m" and "tcp_ack_alloc_index m = (i, m1)"
  shows "if busy_count m = 32 then i = -1 \<and> m1 = m
         else 0 \<le> i \<and> i < 32 \<and> \<not> busy (ack_info m ! nat i) \<and> m1 = m\<lparr>free_index := -1, max_num := max_num m + 1\<rparr>"
proof (cases "busy_count m = 32")
  case True
  then show ?thesis using assms by (auto simp: tcp_ack_alloc_index_def table_ok_def)
next
  case False
  then have n: "max_num m \<noteq> 32" and l: "length (ack_info m) = 32" using assms(1) by (auto simp: table_ok_def)
  show ?thesis
  proof (cases "free_index m \<ge> 0")
    case True
    then show ?thesis using assms n False by (auto simp: tcp_ack_alloc_index_def table_ok_def)
  next
    case neg: False
    have "\<exists>a\<in>set (ack_info m). \<not> busy a"
    proof (rule ccontr)
      assume "\<not> (\<exists>a\<in>set (ack_info m). \<not> busy a)"
      then have "filter busy (ack_info m) = ack_info m" by (simp add: filter_id_conv)
      then show False using False l by (simp add: busy_count_def)
    qed
    then obtain k where k: "find_index (\<lambda>a. \<not> busy a) (ack_info m) = Some k"
      using find_index_None [of "\<lambda>a. \<not> busy a" "ack_info m"] by (cases "find_index (\<lambda>a. \<not> busy a) (ack_info m)") auto
    then show ?thesis using assms(2) n neg False find_index_Some [OF k] l by (auto simp: tcp_ack_alloc_index_def)
  qed
qed

lemma busy_count_set:
  "i < length as \<Longrightarrow> \<not> busy (as ! i) \<Longrightarrow> busy a \<Longrightarrow> length (filter busy (as[i := a])) = Suc (length (filter busy as))"
proof (induction as arbitrary: i)
  case (Cons x as)
  then show ?case by (cases i) auto
qed simp

lemma table_ok_open:
  assumes ok: "table_ok m" and n: "tcp_ack_match m msg = None" and al: "tcp_ack_alloc_index m = (i, m1)" and i: "i \<ge> 0"
  shows "table_ok (info_upd m1 (nat i) (slot_open now k msg ws))"
proof -
  have l: "length (ack_info m) = 32" using ok by (simp add: table_ok_def)
  have a: "nat i < 32" "\<not> busy (ack_info m ! nat i)" "m1 = m\<lparr>free_index := -1, max_num := max_num m + 1\<rparr>"
    using alloc_index_free [OF ok al] i by (auto split: if_splits)
  let ?a = "slot_open now k msg ws (ack_info m ! nat i)"
  have s: "busy ?a" "same_flow (ack_msg ?a) msg" by (simp_all add: slot_open_def same_flow_def)
  have no: "\<not> (busy b \<and> same_flow (ack_msg b) msg)" if "b \<in> set (ack_info m)" for b
    using n that by (simp add: tcp_ack_match_def find_index_None)
  have "flows_distinct ((ack_info m)[nat i := ?a])"
    unfolding flows_distinct_def
  proof (intro allI impI)
    fix x y
    assume h: "x < length ((ack_info m)[nat i := ?a])" "y < length ((ack_info m)[nat i := ?a])"
      "busy ((ack_info m)[nat i := ?a] ! x)" "busy ((ack_info m)[nat i := ?a] ! y)"
      "same_flow (ack_msg ((ack_info m)[nat i := ?a] ! x)) (ack_msg ((ack_info m)[nat i := ?a] ! y))"
    let ?as = "ack_info m"
    have at: "z < 32 \<Longrightarrow> (?as[nat i := ?a]) ! z = (if nat i = z then ?a else ?as ! z)" for z
      using l by (simp add: nth_list_update_if)
    have new: "\<not> (busy (?as ! z) \<and> same_flow (ack_msg ?a) (ack_msg (?as ! z)))" if "z < 32" for z
      using no [of "?as ! z"] s(2) that l by (auto simp: same_flow_def)
    show "x = y"
    proof (cases "x = nat i")
      case True
      then show ?thesis using h at new [of y] l by (cases "y = nat i") auto
    next
      case False
      show ?thesis
      proof (cases "y = nat i")
        case True
        then show ?thesis using h at [of x] at [of y] new [of x] l False by (auto dest: same_flow_sym)
      next
        case n: False
        then show ?thesis using h at [of x] at [of y] False l ok by (auto simp: table_ok_def flows_distinct_def)
      qed
    qed
  qed
  then show ?thesis
    using ok a l busy_count_set [of "nat i" "ack_info m" ?a] s(1)
    by (simp add: table_ok_def info_upd_def busy_count_def)
qed


lemma table_ok_filter_ack:
  assumes "table_ok m" and "filter_ack now m b msg ws = (ret, m')"
  shows "table_ok m'"
proof (cases "tcp_ack_match m msg")
  case None
  show ?thesis
  proof (cases "fst (tcp_ack_alloc_index m) \<ge> 0")
    case True
    then show ?thesis
      using assms None table_ok_open [OF assms(1) None, of "fst (tcp_ack_alloc_index m)" "snd (tcp_ack_alloc_index m)"]
      by (auto simp: filter_ack_def split: prod.splits)
  next
    case False
    then show ?thesis
      using assms None alloc_index_free [OF assms(1), of "fst (tcp_ack_alloc_index m)" "snd (tcp_ack_alloc_index m)"]
      by (auto simp: filter_ack_def split: prod.splits if_splits)
  qed
next
  case (Some i)
  define m1 where "m1 = (if ws \<noteq> 0 \<and> win_scale (ack_info m ! i) \<noteq> ws then info_upd m i (\<lambda>a. a\<lparr>win_scale := ws\<rparr>) else m)"
  have "table_ok m1" using assms(1) by (auto simp: m1_def intro: table_ok_info_upd)
  then show ?thesis
    using assms(2) Some table_ok_handle_new [of m1 now i b msg ret m']
    by (auto simp: filter_ack_def m1_def [symmetric] Let_def split: if_splits)
qed

lemma fate_filter_ack:
  assumes "filter_ack now m b msg ws = (ret, m')"
  shows "fate m' + (if ret = 0 then {#b#} else {#}) = add_mset b (fate m)"
proof (cases "tcp_ack_match m msg")
  case None
  obtain i m1 where al: "tcp_ack_alloc_index m = (i, m1)" by fastforce
  then have "fate m1 = fate m"
    by (auto simp: tcp_ack_alloc_index_def fate_def held_def split: if_splits option.splits)
  moreover have "fate (info_upd m1 (nat i) (slot_open now k msg ws)) = fate m1" for k
    by (rule fate_info_upd_same) (simp add: slot_open_def)
  ultimately show ?thesis using assms None al by (auto simp: filter_ack_def split: if_splits)
next
  case (Some i)
  define m1 where "m1 = (if ws \<noteq> 0 \<and> win_scale (ack_info m ! i) \<noteq> ws then info_upd m i (\<lambda>a. a\<lparr>win_scale := ws\<rparr>) else m)"
  have f: "fate m1 = fate m" by (simp add: m1_def fate_info_upd_same)
  have "i < length (ack_info m1)"
    using find_index_Some [of _ "ack_info m" i] Some by (simp add: tcp_ack_match_def m1_def info_upd_def)
  then show ?thesis
    using assms Some f fate_handle_new [of now m1 i b msg ret m']
    by (auto simp: filter_ack_def m1_def [symmetric] Let_def split: if_splits)
qed

section \<open>The filter as a transition system\<close>

text \<open>
  The manager with the buffers handed to \<open>rwnx_start_xmit\<close> so far and those it transmitted
  itself. Before a slot's timer function runs, the timer is no longer pending.
\<close>

record ack_sys =
  am :: tcp_ack_manage
  given :: "nat list"
  passed :: "nat list"

inductive ack_step :: "ack_sys \<Rightarrow> ack_sys \<Rightarrow> bool" where
  xmit: "start_xmit_ack now (am s) b buf = Inr (pass, m) \<Longrightarrow>
    ack_step s (s\<lparr>am := m, given := given s @ [b], passed := passed s @ (if pass then [b] else [])\<rparr>)"
| recv: "filter_rx_tcp_ack (am s) buf plen = Inr m \<Longrightarrow> ack_step s (s\<lparr>am := m\<rparr>)"
| expire: "i < TCP_ACK_NUM \<Longrightarrow> timer_on (ack_info (am s) ! i) \<Longrightarrow>
    ack_step s (s\<lparr>am := tcp_ack_timeout (info_upd (am s) i (\<lambda>a. a\<lparr>timer_on := False\<rparr>)) i\<rparr>)"
| stop: "ack_step s (s\<lparr>am := tcp_ack_deinit (am s)\<rparr>)"

definition ack_inv :: "ack_sys \<Rightarrow> bool" where
  "ack_inv s \<longleftrightarrow> table_ok (am s) \<and> mset (given s) = mset (passed s) + fate (am s)"

definition ack_init :: "ack_sys \<Rightarrow> bool" where
  "ack_init s \<longleftrightarrow> (\<exists>now old. am s = tcp_ack_init now old) \<and> given s = [] \<and> passed s = []"

lemma xmit_ok:
  assumes "start_xmit_ack now m b buf = Inr (pass, m')" and "table_ok m"
  shows "table_ok m' \<and> fate m' + (if pass then {#b#} else {#}) = add_mset b (fate m)"
proof (cases "int (length buf) mod 65536 \<le> int MAX_TCP_ACK")
  case False
  then show ?thesis using assms by (simp add: start_xmit_ack_def)
next
  case True
  then obtain ret m1 where f: "filter_send_tcp_ack now m b buf = Inr (ret, m1)"
      and e: "pass = (ret = 0)" "m' = (if ret \<noteq> 0 then m1 else move_tcpack_msg m1 b)"
    using assms(1) by (auto simp: start_xmit_ack_def split: sum.splits if_splits)
  note u = table_ok_update [OF assms(2), of now]
  have "table_ok m1 \<and> fate m1 + (if ret = 0 then {#b#} else {#}) = add_mset b (fate m)"
  proof (cases "\<exists>msg ws. filter_ack now (tcp_ack_update now m) b msg ws = (ret, m1)")
    case True
    then obtain msg ws where "filter_ack now (tcp_ack_update now m) b msg ws = (ret, m1)" by blast
    then show ?thesis using table_ok_filter_ack [OF u] fate_filter_ack by fastforce
  next
    case False
    then have "ret = 0 \<and> m1 = tcp_ack_update now m"
      using f by (auto simp: filter_send_tcp_ack_def Let_def split: sum.splits option.splits if_splits)
    then show ?thesis using u by simp
  qed
  then show ?thesis using e table_ok_move by auto
qed

lemma deinit_ok: "table_ok m \<Longrightarrow> table_ok (tcp_ack_deinit m) \<and> fate (tcp_ack_deinit m) = fate m"
proof -
  assume ok: "table_ok m"
  let ?f = "\<lambda>a. a\<lparr>timer_on := False, msgbuf := None\<rparr>"
  have "table_ok (m\<lparr>enable := False, ack_info := map ?f (ack_info m)\<rparr>)"
    by (rule table_ok_map [OF ok]) auto
  moreover have "image_mset event_buf (mset (concat (map (\<lambda>a. drop_events (msgbuf a)) as))) = mset (concat (map (\<lambda>a. opt_list (msgbuf a)) as))"
    for as :: "tcp_ack_info list"
    by (induction as) (auto simp: drop_events_def split: option.splits)
  moreover have "concat (map ((\<lambda>a. opt_list (msgbuf a)) \<circ> ?f) as) = []" for as :: "tcp_ack_info list"
    by (induction as) simp_all
  ultimately show ?thesis
    by (simp add: tcp_ack_deinit_def) (simp add: fate_def held_def)
qed

lemma timeout_fate:
  assumes "i < length (ack_info m)"
  shows "fate (tcp_ack_timeout m i) = fate m"
proof (cases "msgbuf (ack_info m ! i)")
  case (Some b)
  have "fate (info_upd m i (\<lambda>a. a\<lparr>msgbuf := None, drop_cnt := 0, in_send_msg := Some b\<rparr>)) + {#b#} = fate m"
    using fate_info_upd [OF assms, of "\<lambda>a. a\<lparr>msgbuf := None, drop_cnt := 0, in_send_msg := Some b\<rparr>"] Some by simp
  then show ?thesis using Some by (simp add: tcp_ack_timeout_def intf_tx_def Let_def)
qed (simp add: tcp_ack_timeout_def Let_def)

lemma ack_inv_step:
  assumes "ack_inv s" and "ack_step s s'"
  shows "ack_inv s'"
  using assms(2)
proof cases
  case (xmit now b buf pass m)
  have "table_ok m \<and> fate m + (if pass then {#b#} else {#}) = add_mset b (fate (am s))"
    using xmit_ok [OF xmit(2)] assms(1) by (simp add: ack_inv_def)
  then show ?thesis using assms(1) xmit(1) by (auto simp: ack_inv_def split: if_splits)
next
  case (recv buf plen m)
  then show ?thesis
    using assms(1)
    by (auto simp: ack_inv_def filter_rx_tcp_ack_def fate_info_upd_same intro!: table_ok_info_upd
        split: if_splits sum.splits option.splits)
next
  case (expire i)
  let ?m = "info_upd (am s) i (\<lambda>a. a\<lparr>timer_on := False\<rparr>)"
  have "table_ok ?m" using assms(1) by (auto simp: ack_inv_def intro: table_ok_info_upd)
  moreover have "fate ?m = fate (am s)" by (rule fate_info_upd_same) simp
  moreover have "i < length (ack_info ?m)" using calculation(1) expire(2) by (simp add: table_ok_def)
  ultimately show ?thesis
    using assms(1) expire(1) timeout_fate [of i ?m] table_ok_timeout [of ?m i] by (simp add: ack_inv_def)
next
  case stop
  then show ?thesis using assms(1) deinit_ok by (simp add: ack_inv_def)
qed

lemma ack_init_inv: "ack_init s \<Longrightarrow> ack_inv s"
  by (auto simp: ack_init_def ack_inv_def tcp_ack_init_def table_ok_def busy_count_def flows_distinct_def fate_def
      held_def concat_replicate_trivial)

interpretation ack_filter: transition_system ack_init ack_step ack_inv
  by unfold_locales (auto intro: ack_init_inv ack_inv_step)


section \<open>TCP options\<close>

datatype tcp_opt =
    Nop
  | Opt u8 "u8 list"

definition opt_ok :: "tcp_opt \<Rightarrow> bool" where
  "opt_ok p = (case p of Nop \<Rightarrow> True
     | Opt k d \<Rightarrow> k \<noteq> TCPOPT_EOL \<and> k \<noteq> TCPOPT_NOP \<and> length d \<le> 253 \<and> (k = TCPOPT_WINDOW \<longrightarrow> d \<noteq> []))"

definition opt_bytes :: "tcp_opt \<Rightarrow> u8 list" where
  "opt_bytes p = (case p of Nop \<Rightarrow> [TCPOPT_NOP] | Opt k d \<Rightarrow> [k, of_nat (length d + 2)] @ d)"

definition opts_bytes :: "tcp_opt list \<Rightarrow> u8 list" where
  "opts_bytes ps = concat (map opt_bytes ps)"

text \<open>The verdict: 2 when there is an option besides no-ops, timestamps and window scales; the scale of the last window option, wherever it is.\<close>

fun opt_verdict :: "int \<Rightarrow> u16 \<Rightarrow> tcp_opt list \<Rightarrow> int \<times> u16" where
  "opt_verdict dr ws [] = (dr, ws)"
| "opt_verdict dr ws (Nop # ps) = opt_verdict dr ws ps"
| "opt_verdict dr ws (Opt k d # ps) =
     (if k = TCPOPT_TIMESTAMP then opt_verdict dr ws ps
      else if k = TCPOPT_WINDOW then opt_verdict dr (win_shift (hd d) ws) ps
      else opt_verdict 2 ws ps)"

lemma opt_loop_opts:
  "\<lbrakk>list_all opt_ok ps; dr \<noteq> 0\<rbrakk> \<Longrightarrow>
   opt_loop (int (length (opts_bytes ps))) (opts_bytes ps @ rest) dr ws = Inr (opt_verdict dr ws ps)"
proof (induction ps arbitrary: dr ws)
  case Nil
  show ?case by (subst opt_loop.simps) (simp add: opts_bytes_def)
next
  case (Cons p ps)
  have e: "opts_bytes (p # ps) = opt_bytes p @ opts_bytes ps" by (simp add: opts_bytes_def)
  show ?case
  proof (cases p)
    case Nop
    then show ?thesis using Cons unfolding e by (subst opt_loop.simps) (simp add: opt_bytes_def)
  next
    case (Opt k d)
    have k: "k \<noteq> 0" "k \<noteq> 1" "length d \<le> 253" "k = 3 \<longrightarrow> d \<noteq> []" using Cons.prems Opt by (auto simp: opt_ok_def)
    define sz :: u8 where "sz = of_nat (length d + 2)"
    have u: "unat sz = length d + 2"
      unfolding sz_def using k(3) by (simp only: unat_of_nat) (simp add: mod_less)
    then have i: "uint sz = int (length d) + 2" by (metis of_nat_add of_nat_numeral uint_nat)
    have b: "opt_bytes p = k # sz # d" by (simp add: Opt opt_bytes_def sz_def)
    show ?thesis
      using Cons k unfolding e b
      by (subst opt_loop.simps) (cases d, simp_all add: Let_def u i Opt)
  qed
qed

lemma opt_loop_eol: "\<lbrakk>0 < len; dr \<noteq> 0\<rbrakk> \<Longrightarrow> opt_loop len (replicate n 0) dr ws = Inl OutOfBounds"
proof (induction n)
  case 0
  then show ?case by (subst opt_loop.simps) simp
next
  case (Suc n)
  then show ?case by (subst opt_loop.simps) simp
qed

section \<open>Successive acknowledgements of one flow\<close>

fun slot_run :: "u64 \<Rightarrow> int \<Rightarrow> (nat \<times> tcp_ack_msg) list \<Rightarrow> tcp_ack_info \<Rightarrow> int list" where
  "slot_run now k [] a = []"
| "slot_run now k ((b, msg) # bs) a = (case ack_slot_new now k b msg a of (r, a', _) \<Rightarrow> r # slot_run now k bs a')"

fun in_order :: "u32 \<Rightarrow> (nat \<times> tcp_ack_msg) list \<Rightarrow> bool" where
  "in_order s [] \<longleftrightarrow> True"
| "in_order s ((b, msg) # bs) \<longleftrightarrow> U32_BEFORE s (seq msg) \<and> in_order (seq msg) bs"

lemma slot_run_hold:
  "in_order (seq (ack_msg a)) bs \<Longrightarrow> \<not> psh_flag a \<Longrightarrow> in_send_msg a = None \<Longrightarrow>
     drop_cnt a + int (length bs) < k \<Longrightarrow> slot_run now k bs a = replicate (length bs) 1"
proof (induction bs arbitrary: a)
  case (Cons p bs)
  obtain b msg where p: "p = (b, msg)" by fastforce
  have s: "ack_slot_new now k b msg a = (1, a\<lparr>last_time := now, msgbuf := Some b, drop_cnt := drop_cnt a + 1,
      ack_msg := (ack_msg a)\<lparr>seq := seq msg\<rparr>, timer_on := True\<rparr>, msgbuf a)"
    using Cons.prems by (simp add: ack_slot_new_def Let_def p)
  show ?case
    using Cons.prems Cons.IH [of "a\<lparr>last_time := now, msgbuf := Some b, drop_cnt := drop_cnt a + 1,
      ack_msg := (ack_msg a)\<lparr>seq := seq msg\<rparr>, timer_on := True\<rparr>"]
    by (simp add: p s)
qed simp


section \<open>Concrete instances\<close>

text \<open>An Ethernet frame with an IPv4 header and a TCP acknowledgement without options.\<close>

definition ex_ack_frame :: "u8 \<Rightarrow> u8 list" where
  "ex_ack_frame n = replicate 12 2 @ [8, 0]
     @ [0x45, 0, 0, 40, 0, 0, 0, 0, 64, 6, 0, 0, 10, 0, 0, 1, 10, 0, 0, 2]
     @ [0, 80, 0, 90, 0, 0, 0, 0, 0, 0, 0, n, 0x50, 0x10, 1, 0, 0, 0, 0, 0]"

definition ex_ack_sys :: ack_sys where
  "ex_ack_sys = \<lparr>am = tcp_ack_init 0 1000, given = [], passed = []\<rparr>"

lemma ex_ack_sys_init: "ack_init ex_ack_sys"
  by (auto simp: ack_init_def ex_ack_sys_def)

definition ok_part :: "fault + 'a \<Rightarrow> 'a option" where
  "ok_part r = (case r of Inl e \<Rightarrow> None | Inr x \<Rightarrow> Some x)"

lemma ok_part_Some: "ok_part r = Some x \<longleftrightarrow> r = Inr x"
  by (auto simp: ok_part_def split: sum.splits)

lemma ex_ack_xmit:
  "map_option (\<lambda>(pass, m). (pass, held m, max_num m)) (ok_part (start_xmit_ack 5 (tcp_ack_init 0 1000) 7 (ex_ack_frame 1)))
     = Some (True, [], 1)"
  by code_simp

lemma ex_ack_run:
  obtains s' where "ack_step\<^sup>*\<^sup>* ex_ack_sys s'" "given s' = [7]" "passed s' = [7]" "max_num (am s') = 1"
proof -
  obtain m where m: "start_xmit_ack 5 (tcp_ack_init 0 1000) 7 (ex_ack_frame 1) = Inr (True, m)" "max_num m = 1"
    using ex_ack_xmit by (auto simp: ok_part_Some)
  have "ack_step ex_ack_sys (ex_ack_sys\<lparr>am := m, given := given ex_ack_sys @ [7], passed := passed ex_ack_sys @ (if True then [7] else [])\<rparr>)"
    using m(1) by (intro ack_step.xmit) (simp add: ex_ack_sys_def)
  then have "ack_step\<^sup>*\<^sup>* ex_ack_sys (ex_ack_sys\<lparr>am := m, given := given ex_ack_sys @ [7], passed := passed ex_ack_sys @ (if True then [7] else [])\<rparr>)"
    by (rule r_into_rtranclp)
  then show thesis by (rule that) (simp_all add: ex_ack_sys_def m(2))
qed

definition ex_slot :: tcp_ack_info where
  "ex_slot = \<lparr>busy = True, drop_cnt = 0, psh_flag = False, psh_seq = 0, win_scale = 1, last_time = 0, timeout = 1000,
     timer_on = True, msgbuf = Some 3, in_send_msg = None,
     ack_msg = \<lparr>source = 1, dest = 2, saddr = 3, daddr = 4, seq = of_nat 4294967290, win = 0\<rparr>\<rparr>"

section \<open>Properties\<close>

text \<open>
  C28: Every buffer has exactly one fate. After any interleaving of transmissions, received
  frames, timer expiries and the shutdown of the filter, if the buffers handed in are distinct,
  each of them was either passed on for transmission by the caller, is held by exactly one flow,
  or was once sent by the timer or dropped; none is lost, none appears twice.
\<close>

theorem ack_buffers_conserved:
  assumes "ack_init s" and "ack_step\<^sup>*\<^sup>* s s'" and "distinct (given s')"
  shows "distinct (passed s' @ held (am s') @ map event_buf (ack_log (am s')))
           \<and> set (given s') = set (passed s') \<union> set (held (am s')) \<union> set (map event_buf (ack_log (am s')))"
proof -
  have e: "mset (given s') = mset (passed s' @ held (am s') @ map event_buf (ack_log (am s')))"
    using ack_filter.reachable_inv [OF assms(1,2)] by (simp add: ack_inv_def fate_def)
  have "distinct (passed s' @ held (am s') @ map event_buf (ack_log (am s')))"
    using assms(3) mset_eq_imp_distinct_iff [OF e] by (rule iffD1 [rotated])
  moreover have "set (given s') = set (passed s') \<union> set (held (am s')) \<union> set (map event_buf (ack_log (am s')))"
    using mset_eq_setD [OF e] by (simp only: set_append Un_assoc)
  ultimately show ?thesis by (rule conjI)
qed

theorem ack_buffers_conserved_witness:
  "\<exists>s'. ack_step\<^sup>*\<^sup>* ex_ack_sys s' \<and> given s' = [7]
     \<and> distinct (passed s' @ held (am s') @ map event_buf (ack_log (am s')))"
proof -
  obtain s' where s: "ack_step\<^sup>*\<^sup>* ex_ack_sys s'" "given s' = [7]" using ex_ack_run by blast
  then show ?thesis using ack_buffers_conserved [OF ex_ack_sys_init s(1)] by auto
qed

text \<open>
  C30: The flow table is consistent in every reachable state: \<open>max_num\<close> counts the busy slots,
  two busy slots never hold the same flow, and allocating an index succeeds exactly when a slot is
  free, giving a slot that is not busy.
\<close>

theorem ack_table_consistent:
  assumes "ack_init s" and "ack_step\<^sup>*\<^sup>* s s'" and "tcp_ack_alloc_index (am s') = (i, m1)"
  shows "max_num (am s') = int (busy_count (am s')) \<and> flows_distinct (ack_info (am s'))
           \<and> (if busy_count (am s') = TCP_ACK_NUM then i = -1
              else 0 \<le> i \<and> i < int TCP_ACK_NUM \<and> \<not> busy (ack_info (am s') ! nat i))"
proof -
  have "table_ok (am s')" using ack_filter.reachable_inv [OF assms(1,2)] by (simp add: ack_inv_def)
  then show ?thesis using alloc_index_free [OF _ assms(3)] by (auto simp: table_ok_def split: if_splits)
qed

theorem ack_table_consistent_witness:
  "\<exists>s'. ack_step\<^sup>*\<^sup>* ex_ack_sys s' \<and> max_num (am s') = 1 \<and> int (busy_count (am s')) = 1 \<and> flows_distinct (ack_info (am s'))"
proof -
  obtain s' where s: "ack_step\<^sup>*\<^sup>* ex_ack_sys s'" "max_num (am s') = 1" using ex_ack_run by blast
  obtain i m1 where "tcp_ack_alloc_index (am s') = (i, m1)" by fastforce
  then show ?thesis using ack_table_consistent [OF ex_ack_sys_init s(1)] s by auto
qed

text \<open>
  C29: The latest acknowledgement of a flow is never the one dropped. For a slot whose last number
  is \<open>p\<close> and a new acknowledgement \<open>q\<close> less than half the number space away: the slot
  remembers the larger of the two; an older one (\<open>q < p\<close>) is dropped and of the slot only the time of its last use changes; otherwise
  the buffer that was held is dropped and the new one is either handed back for immediate
  transmission or held with the timer running.
\<close>

theorem ack_latest_kept:
  assumes "seq (ack_msg a) = of_nat p" and "seq msg = of_nat q" and "p \<le> q + 2147483647" and "q \<le> p + 2147483647"
    and "ack_slot_new now k b msg a = (ret, a', d)"
  shows "seq (ack_msg a') = of_nat (max p q)
           \<and> (if q < p then ret = 1 \<and> d = Some b \<and> a' = a\<lparr>last_time := now\<rparr>
              else d = msgbuf a \<and> (ret = 0 \<and> in_send_msg a' = Some b \<and> msgbuf a' = None
                                  \<or> ret = 1 \<and> msgbuf a' = Some b \<and> timer_on a'))"
proof -
  have "U32_BEFORE (seq (ack_msg a)) (seq msg) \<longleftrightarrow> p \<le> q"
    using assms(1-4) by (simp add: U32_BEFORE_of_nat)
  then show ?thesis
    using assms by (auto simp: ack_slot_new_def Let_def max_def split: if_splits)
qed

theorem ack_latest_kept_witness:
  "\<exists>ret a' d. ack_slot_new 0 10 9 \<lparr>source = 1, dest = 2, saddr = 3, daddr = 4, seq = of_nat 4294967300, win = 0\<rparr> ex_slot = (ret, a', d)
     \<and> seq (ack_msg a') = of_nat 4294967300 \<and> d = Some 3"
proof -
  obtain ret a' d where s: "ack_slot_new 0 10 9 \<lparr>source = 1, dest = 2, saddr = 3, daddr = 4, seq = of_nat 4294967300, win = 0\<rparr> ex_slot = (ret, a', d)"
    by (metis prod_cases3)
  have "seq (ack_msg ex_slot) = of_nat 4294967290" "msgbuf ex_slot = Some 3" by (simp_all add: ex_slot_def)
  then show ?thesis using ack_latest_kept [OF _ _ _ _ s, of 4294967290 4294967300] s by auto
qed

text \<open>
  Acknowledgements are held back a bounded number of times: on a slot that counts \<open>c\<close> held
  ones, with no transmission pending and no push seen, of \<open>k - c\<close> further acknowledgements in
  order exactly the last is handed back for transmission (one in \<open>max_drop_cnt\<close> after that).
\<close>

lemma ack_hold_bounded:
  assumes "in_order (seq (ack_msg a)) (bs @ [(b, msg)])" and "\<not> psh_flag a" and "in_send_msg a = None"
    and "drop_cnt a + int (length bs) + 1 = k"
  shows "slot_run now k (bs @ [(b, msg)]) a = replicate (length bs) 1 @ [0]"
  using assms
proof (induction bs arbitrary: a)
  case Nil
  then show ?case by (simp add: ack_slot_new_def Let_def)
next
  case (Cons p bs)
  obtain b' msg' where p: "p = (b', msg')" by fastforce
  let ?a = "a\<lparr>last_time := now, msgbuf := Some b', drop_cnt := drop_cnt a + 1,
      ack_msg := (ack_msg a)\<lparr>seq := seq msg'\<rparr>, timer_on := True\<rparr>"
  have "ack_slot_new now k b' msg' a = (1, ?a, msgbuf a)"
    using Cons.prems by (simp add: ack_slot_new_def Let_def p)
  then show ?case using Cons.prems Cons.IH [of ?a] by (simp add: p)
qed

lemma ack_hold_bounded_example:
  "slot_run 0 2 ([(4, \<lparr>source = 1, dest = 2, saddr = 3, daddr = 4, seq = of_nat 4294967295, win = 0\<rparr>)]
       @ [(5, \<lparr>source = 1, dest = 2, saddr = 3, daddr = 4, seq = of_nat 4294967300, win = 0\<rparr>)]) ex_slot
     = replicate (length [(4 :: nat, ())]) 1 @ [0]"
  using ack_hold_bounded [of ex_slot "[(4, \<lparr>source = 1, dest = 2, saddr = 3, daddr = 4, seq = of_nat 4294967295, win = 0\<rparr>)]"
      5 "\<lparr>source = 1, dest = 2, saddr = 3, daddr = 4, seq = of_nat 4294967300, win = 0\<rparr>" 2 0]
  by (simp add: ex_slot_def U32_BEFORE_of_nat del: of_nat_numeral)

text \<open>
  TCP options of a pure acknowledgement: on the encoding of a well-formed list of options
  without an end-of-options byte, the scan reads exactly the options and returns 1 when they are
  only no-ops, timestamps and window scales, 2 when there is another, in both cases with the scale of the last window option below 15.
\<close>

lemma ack_options_scanned:
  assumes "list_all opt_ok ps" and "length hdr = 20" and "int (unat (drop_bit 4 (hdr ! 12))) * 4 = 20 + int (length (opts_bytes ps))"
    and "tot \<le> 20 + int (length (opts_bytes ps))"
  shows "is_drop_tcp_ack (hdr @ opts_bytes ps @ rest) tot ws = Inr (opt_verdict 1 ws ps)"
  using assms opt_loop_opts [OF assms(1), of 1 rest ws] by (simp add: is_drop_tcp_ack_def nth_append Let_def)

lemma ack_options_scanned_example:
  "is_drop_tcp_ack ((replicate 12 0 @ [0x70] @ replicate 7 0) @ opts_bytes [Opt 2 [5, 220], Nop, Opt 3 [7]] @ [9]) 28 0 = Inr (2, 128)"
  using ack_options_scanned [of "[Opt 2 [5, 220], Nop, Opt 3 [7]]" "replicate 12 0 @ [0x70] @ replicate 7 0" 28 "[9]" 0]
  by (simp add: opt_ok_def opts_bytes_def opt_bytes_def nth_append win_shift_def)

text \<open>
  An end-of-options byte does not end the scan: when the option area (and what follows it in the
  buffer) consists of end-of-options bytes, the scan runs out of the buffer.
\<close>

lemma ack_options_overrun:
  assumes "length hdr = 20" and "int (unat (drop_bit 4 (hdr ! 12))) * 4 > 20" and "tot \<le> int (unat (drop_bit 4 (hdr ! 12))) * 4"
  shows "is_drop_tcp_ack (hdr @ replicate n TCPOPT_EOL) tot ws = Inl OutOfBounds"
  using assms opt_loop_eol by (simp add: is_drop_tcp_ack_def nth_append Let_def)

lemma ack_options_overrun_example:
  "is_drop_tcp_ack ((replicate 12 0 @ [0x60] @ replicate 7 0) @ replicate 4 TCPOPT_EOL) 24 0 = Inl OutOfBounds"
  by (rule ack_options_overrun) (simp_all add: nth_append)

text \<open>
  The receive hook never sees a push: \<open>reord_single_frame_ind\<close> calls \<open>filter_rx_tcp_ack\<close> after
  \<open>eth_type_trans\<close> removed the Ethernet header, so the filter reads the source address of the IP
  header as the protocol and leaves the table unchanged unless that address starts with 8.0.
\<close>

lemma filter_rx_after_eth_type_trans:
  assumes "28 \<le> length frame" and "be16 frame 26 \<noteq> 0x0800"
  shows "filter_rx_tcp_ack m (drop 14 frame) plen = Inr m"
proof -
  have "be16 (drop 14 frame) 12 = be16 frame 26" using assms(1) by (simp add: be16_def)
  then have "tcp_check_quick_ack (drop 14 frame) = Inr None"
    using assms by (simp add: tcp_check_quick_ack_def ip_tcp_def)
  then show ?thesis by (simp add: filter_rx_tcp_ack_def)
qed

lemma filter_rx_after_eth_type_trans_example:
  "filter_rx_tcp_ack (tcp_ack_init 0 1000) (drop 14 (ex_ack_frame 1)) 40 = Inr (tcp_ack_init 0 1000)"
proof (rule filter_rx_after_eth_type_trans)
  show "28 \<le> length (ex_ack_frame 1)" "be16 (ex_ack_frame 1) 26 \<noteq> 0x0800" by code_simp+
qed

end
