(* ===== verification/TxQueue.thy ===== *)
theory TxQueue
  imports Prelude
begin

text \<open>
  The transmit queues (rwnx_txq.c, rwnx_txq.h), the push of a buffer to the firmware and the power save
  functions (rwnx_tx.c) and the ring of buffers that wait for a confirmation (usb_host.c). Buffers wait in a
  queue per station and TID, queues with buffers are scheduled on the list of a hardware queue, and
  \<open>rwnx_hwq_process\<close> pushes the buffers of the scheduled queues. Pointers into \<open>txq\<close>, \<open>hwq\<close> and
  \<open>sta_table\<close> are indices of these arrays; the net device of an interface is named by the index of the
  interface. Every function runs under \<open>tx_lock\<close>. The configuration is the one the Makefile builds: no
  MU-MIMO, one user position, five hardware queues.
\<close>

section \<open>State\<close>

abbreviation (input) NX_NB_TID_PER_STA :: nat where "NX_NB_TID_PER_STA \<equiv> 8"
abbreviation (input) NX_NB_TXQ_PER_STA :: nat where "NX_NB_TXQ_PER_STA \<equiv> 9"
abbreviation (input) NX_VIRT_DEV_MAX :: nat where "NX_VIRT_DEV_MAX \<equiv> 4"
abbreviation (input) NX_NB_TXQ :: nat where "NX_NB_TXQ \<equiv> 297"
abbreviation (input) NX_TXQ_CNT :: nat where "NX_TXQ_CNT \<equiv> 5"
abbreviation (input) NX_BCMC_TXQ_TYPE :: nat where "NX_BCMC_TXQ_TYPE \<equiv> 0"
abbreviation (input) NX_UNK_TXQ_TYPE :: nat where "NX_UNK_TXQ_TYPE \<equiv> 1"
abbreviation (input) NDEV_NO_TXQ :: u16 where "NDEV_NO_TXQ \<equiv> 0xffff"
abbreviation (input) TXQ_INACTIVE :: u16 where "TXQ_INACTIVE \<equiv> 0xffff"
abbreviation (input) NX_TXQ_INITIAL_CREDITS :: u8 where "NX_TXQ_INITIAL_CREDITS \<equiv> 64"
abbreviation (input) RWNX_NDEV_FLOW_CTRL_STOP :: nat where "RWNX_NDEV_FLOW_CTRL_STOP \<equiv> 64"
abbreviation (input) RWNX_NDEV_FLOW_CTRL_RESTART :: nat where "RWNX_NDEV_FLOW_CTRL_RESTART \<equiv> 64"
abbreviation (input) RWNX_HWQ_BE :: nat where "RWNX_HWQ_BE \<equiv> 1"
abbreviation (input) RWNX_HWQ_VO :: nat where "RWNX_HWQ_VO \<equiv> 3"
abbreviation (input) TID_MGT :: nat where "TID_MGT \<equiv> 8"
abbreviation (input) LEGACY_PS_ID :: nat where "LEGACY_PS_ID \<equiv> 0"
abbreviation (input) UAPSD_ID :: nat where "UAPSD_ID \<equiv> 1"
abbreviation (input) PS_SP_INTERRUPTED :: u16 where "PS_SP_INTERRUPTED \<equiv> 255"
abbreviation (input) USB_TXDESC_CNT :: nat where "USB_TXDESC_CNT \<equiv> 64"

abbreviation (input) RWNX_TXQ_IN_HWQ_LIST :: u8 where "RWNX_TXQ_IN_HWQ_LIST \<equiv> 1"
abbreviation (input) RWNX_TXQ_STOP_FULL :: u16 where "RWNX_TXQ_STOP_FULL \<equiv> 2"
abbreviation (input) RWNX_TXQ_STOP_CSA :: u16 where "RWNX_TXQ_STOP_CSA \<equiv> 4"
abbreviation (input) RWNX_TXQ_STOP_STA_PS :: u16 where "RWNX_TXQ_STOP_STA_PS \<equiv> 8"
abbreviation (input) RWNX_TXQ_STOP_VIF_PS :: u16 where "RWNX_TXQ_STOP_VIF_PS \<equiv> 16"
abbreviation (input) RWNX_TXQ_STOP_CHAN :: u16 where "RWNX_TXQ_STOP_CHAN \<equiv> 32"
abbreviation (input) RWNX_TXQ_STOP :: u8 where "RWNX_TXQ_STOP \<equiv> 62"
abbreviation (input) RWNX_TXQ_NDEV_FLOW_CTRL :: u8 where "RWNX_TXQ_NDEV_FLOW_CTRL \<equiv> 128"

abbreviation (input) TXU_CNTRL_RETRY :: u16 where "TXU_CNTRL_RETRY \<equiv> 1"
abbreviation (input) TXU_CNTRL_MORE_DATA :: u16 where "TXU_CNTRL_MORE_DATA \<equiv> 4"
abbreviation (input) TXU_CNTRL_MGMT :: u16 where "TXU_CNTRL_MGMT \<equiv> 8"
abbreviation (input) TXU_CNTRL_EOSP :: u16 where "TXU_CNTRL_EOSP \<equiv> 512"

text \<open>
  A buffer with the part of its \<open>rwnx_sw_txhdr\<close> the transmit path uses. \<open>sk_id\<close> is its address,
  \<open>sk_fc\<close> the first byte of the frame, \<open>sk_mesh\<close> says that its interface is a mesh point.
\<close>

record tx_skb =
  sk_id :: nat
  sk_txq :: nat
  sk_sta :: "nat option"
  sk_mesh :: bool
  sk_flags :: u16
  sk_fc :: u8
  sk_ethertype :: u16
  sk_raw_frame :: bool
  sk_fixed_rate :: bool
  sk_rate_config :: u32
  sk_need_cfm :: bool
  sk_status_desc :: u32
  sk_hw_queue :: nat

record rwnx_txq =
  idx :: u16
  status :: u8
  credits :: u8
  pkt_sent :: u8
  pkt_pushed :: u8
  sk_list :: "tx_skb list"
  last_retry_skb :: "nat option"
  hwq :: nat
  nb_retry :: int
  push_limit :: u8
  tid :: nat
  txq_sta :: "nat option"
  ps_id :: nat
  ndev_idx :: u16
  ndev :: nat

record rwnx_hwq =
  sched_list :: "nat list"
  hwq_size :: u8
  hwq_id :: nat
  need_processing :: bool

record tx_sta =
  sta_idx :: nat
  vif_idx :: nat
  qos :: bool
  acm :: u8
  uapsd_tids :: u16
  mac_addr :: "u8 list"
  ps_active :: bool
  pkt_ready :: "nat \<Rightarrow> u16"
  sp_cnt :: "nat \<Rightarrow> u16"
  tdls_active :: bool
  chsw_en :: bool

record usb_host_env =
  txdesc_free_idx :: u32
  tx_host_id :: "tx_skb option list"

text \<open>What the functions do outside this state: calls of the kernel, of the bus and of the firmware.\<close>

datatype tx_event =
    FrameTx nat tx_skb
  | FreeSkb nat nat
  | ConsumeSkb nat
  | MgmtStatus nat bool
  | NetifStop nat u16
  | NetifWake nat u16
  | TrafficInd nat bool bool
  | TdlsTrafficInd nat
  | TaskSchedule

record tx_hw =
  old_ic :: bool
  usb_down :: bool
  tbusy :: bool
  txq :: "rwnx_txq list"
  hwqs :: "rwnx_hwq list"
  sta_table :: "tx_sta list"
  cfm_balance :: "nat \<Rightarrow> int"
  usb_env :: usb_host_env
  tx_log :: "tx_event list"

record tx_vif =
  vif_index :: nat
  iftype :: nl80211_iftype
  tdls_link_active :: bool
  roc_tdls :: bool
  tdls_sta :: "nat option"
  ap_sta :: "nat option"
  vif_sta_list :: "nat list"
  bcmc_index :: nat
  master_index :: nat
  master_sta_list :: "nat list"

definition txq_upd :: "tx_hw \<Rightarrow> nat \<Rightarrow> (rwnx_txq \<Rightarrow> rwnx_txq) \<Rightarrow> tx_hw" where
  "txq_upd h i f = h\<lparr>txq := (txq h)[i := f (txq h ! i)]\<rparr>"

definition sta_upd :: "tx_hw \<Rightarrow> nat \<Rightarrow> (tx_sta \<Rightarrow> tx_sta) \<Rightarrow> tx_hw" where
  "sta_upd h s f = h\<lparr>sta_table := (sta_table h)[s := f (sta_table h ! s)]\<rparr>"

definition hwq_upd :: "tx_hw \<Rightarrow> nat \<Rightarrow> (rwnx_hwq \<Rightarrow> rwnx_hwq) \<Rightarrow> tx_hw" where
  "hwq_upd h q f = h\<lparr>hwqs := (hwqs h)[q := f (hwqs h ! q)]\<rparr>"

definition tx_emit :: "tx_event list \<Rightarrow> tx_hw \<Rightarrow> tx_hw" where
  "tx_emit es h = h\<lparr>tx_log := tx_log h @ es\<rparr>"

section \<open>Indices\<close>

text \<open>
  Chips of the first generation (AIC8801, or AIC8800DC/DW with a revision below 3) handle 8
  stations, the others 32; the queues of a chip of the first generation are numbered without gaps.
\<close>

abbreviation (input) PRODUCT_ID_AIC8801 :: nat where "PRODUCT_ID_AIC8801 \<equiv> 0"
abbreviation (input) PRODUCT_ID_AIC8800DC :: nat where "PRODUCT_ID_AIC8800DC \<equiv> 1"
abbreviation (input) PRODUCT_ID_AIC8800DW :: nat where "PRODUCT_ID_AIC8800DW \<equiv> 2"

definition is_old_ic :: "nat \<Rightarrow> nat \<Rightarrow> bool" where
  "is_old_ic chipid chip_id \<longleftrightarrow>
     chipid = PRODUCT_ID_AIC8801
     \<or> (chipid = PRODUCT_ID_AIC8800DC \<or> chipid = PRODUCT_ID_AIC8800DW) \<and> chip_id < 3"

definition nx_remote_sta_max :: "tx_hw \<Rightarrow> nat" where
  "nx_remote_sta_max h = (if old_ic h then 8 else 32)"

definition nx_first_vif_txq_idx :: "tx_hw \<Rightarrow> nat" where
  "nx_first_vif_txq_idx h = nx_remote_sta_max h * NX_NB_TXQ_PER_STA"

definition nx_first_unk_txq_idx :: "tx_hw \<Rightarrow> nat" where
  "nx_first_unk_txq_idx h = nx_first_vif_txq_idx h + NX_VIRT_DEV_MAX"

definition nx_off_chan_txq_idx :: "tx_hw \<Rightarrow> nat" where
  "nx_off_chan_txq_idx h = nx_first_vif_txq_idx h + NX_VIRT_DEV_MAX * 2"

definition nx_bcmc_txq_ndev_idx :: "tx_hw \<Rightarrow> nat" where
  "nx_bcmc_txq_ndev_idx h = NX_NB_TID_PER_STA * nx_remote_sta_max h"

definition is_multicast_sta :: "tx_hw \<Rightarrow> nat \<Rightarrow> bool" where
  "is_multicast_sta h i \<longleftrightarrow> nx_remote_sta_max h \<le> i"

definition master_vif_idx :: "tx_vif \<Rightarrow> nat" where
  "master_vif_idx v = (if iftype v = IFTYPE_AP_VLAN then master_index v else vif_index v)"

definition rwnx_txq_sta_idx :: "tx_hw \<Rightarrow> tx_sta \<Rightarrow> nat \<Rightarrow> nat" where
  "rwnx_txq_sta_idx h s t =
     (if is_multicast_sta h (sta_idx s) then nx_first_vif_txq_idx h + vif_idx s
      else sta_idx s * NX_NB_TXQ_PER_STA + t)"

definition rwnx_txq_vif_idx :: "tx_hw \<Rightarrow> tx_vif \<Rightarrow> nat \<Rightarrow> nat" where
  "rwnx_txq_vif_idx h v ty = nx_first_vif_txq_idx h + master_vif_idx v + ty * NX_VIRT_DEV_MAX"

definition rwnx_txq_sta_get :: "tx_hw \<Rightarrow> nat \<Rightarrow> nat \<Rightarrow> nat" where
  "rwnx_txq_sta_get h s t = rwnx_txq_sta_idx h (sta_table h ! s) (if t \<ge> NX_NB_TXQ_PER_STA then 0 else t)"

definition rwnx_txq_vif_get :: "tx_hw \<Rightarrow> tx_vif \<Rightarrow> nat \<Rightarrow> nat" where
  "rwnx_txq_vif_get h v ty = rwnx_txq_vif_idx h v (if ty > NX_UNK_TXQ_TYPE then NX_BCMC_TXQ_TYPE else ty)"

text \<open>\<open>foreach_sta_txq\<close>: the queues of a station in the order of their TIDs.\<close>

definition sta_txqs :: "tx_hw \<Rightarrow> nat \<Rightarrow> nat list" where
  "sta_txqs h s =
     (let b = rwnx_txq_sta_get h s 0 in
      [b ..< b + (if is_multicast_sta h (sta_idx (sta_table h ! s)) then 1 else NX_NB_TXQ_PER_STA)])"

section \<open>Start and stop\<close>

definition rwnx_txq_is_stopped :: "rwnx_txq \<Rightarrow> bool" where
  "rwnx_txq_is_stopped t \<longleftrightarrow> status t AND RWNX_TXQ_STOP \<noteq> 0"

definition rwnx_txq_is_full :: "rwnx_txq \<Rightarrow> bool" where
  "rwnx_txq_is_full t \<longleftrightarrow> status t AND ucast RWNX_TXQ_STOP_FULL \<noteq> 0"

definition rwnx_txq_is_scheduled :: "rwnx_txq \<Rightarrow> bool" where
  "rwnx_txq_is_scheduled t \<longleftrightarrow> status t AND RWNX_TXQ_IN_HWQ_LIST \<noteq> 0"

definition rwnx_txq_skb_ready :: "rwnx_txq \<Rightarrow> bool" where
  "rwnx_txq_skb_ready t \<longleftrightarrow> sk_list t \<noteq> []"

definition rwnx_txq_add_to_hw_list :: "tx_hw \<Rightarrow> nat \<Rightarrow> tx_hw" where
  "rwnx_txq_add_to_hw_list h i =
     (if \<not> rwnx_txq_is_scheduled (txq h ! i)
      then hwq_upd (txq_upd h i (\<lambda>t. t\<lparr>status := status t OR RWNX_TXQ_IN_HWQ_LIST\<rparr>)) (hwq (txq h ! i))
             (\<lambda>q. q\<lparr>sched_list := sched_list q @ [i], need_processing := True\<rparr>)
      else h)"

text \<open>\<open>list_del\<close> takes the queue out of the list it is linked in, whichever hardware queue that is.\<close>

definition sched_del :: "nat \<Rightarrow> rwnx_hwq \<Rightarrow> rwnx_hwq" where
  "sched_del i q = q\<lparr>sched_list := removeAll i (sched_list q)\<rparr>"

definition rwnx_txq_del_from_hw_list :: "tx_hw \<Rightarrow> nat \<Rightarrow> tx_hw" where
  "rwnx_txq_del_from_hw_list h i =
     (if rwnx_txq_is_scheduled (txq h ! i)
      then (txq_upd h i (\<lambda>t. t\<lparr>status := status t AND NOT RWNX_TXQ_IN_HWQ_LIST\<rparr>))
             \<lparr>hwqs := map (sched_del i) (hwqs h)\<rparr>
      else h)"

definition rwnx_txq_start :: "tx_hw \<Rightarrow> nat \<Rightarrow> u16 \<Rightarrow> tx_hw" where
  "rwnx_txq_start h i reason =
     (let t = txq h ! i in
      if idx t \<noteq> TXQ_INACTIVE \<and> ucast (status t) AND reason \<noteq> 0 then
        let h1 = txq_upd h i (\<lambda>t. t\<lparr>status := status t AND NOT (ucast reason)\<rparr>)
        in if \<not> rwnx_txq_is_stopped (txq h1 ! i) \<and> rwnx_txq_skb_ready (txq h1 ! i)
           then rwnx_txq_add_to_hw_list h1 i else h1
      else h)"

definition rwnx_txq_stop :: "tx_hw \<Rightarrow> nat \<Rightarrow> u16 \<Rightarrow> tx_hw" where
  "rwnx_txq_stop h i reason =
     (if idx (txq h ! i) \<noteq> TXQ_INACTIVE
      then rwnx_txq_del_from_hw_list (txq_upd h i (\<lambda>t. t\<lparr>status := status t OR ucast reason\<rparr>)) i
      else h)"

definition rwnx_txq_sta_start :: "tx_hw \<Rightarrow> nat \<Rightarrow> u16 \<Rightarrow> tx_hw" where
  "rwnx_txq_sta_start h s reason = fold (\<lambda>i h. rwnx_txq_start h i reason) (sta_txqs h s) h"

definition rwnx_txq_sta_stop :: "tx_hw \<Rightarrow> nat \<Rightarrow> u16 \<Rightarrow> tx_hw" where
  "rwnx_txq_sta_stop h s reason = fold (\<lambda>i h. rwnx_txq_stop h i reason) (sta_txqs h s) h"

definition rwnx_txq_tdls_sta_start :: "tx_hw \<Rightarrow> tx_vif \<Rightarrow> u16 \<Rightarrow> tx_hw" where
  "rwnx_txq_tdls_sta_start h v reason =
     (case tdls_sta v of None \<Rightarrow> h | Some s \<Rightarrow> rwnx_txq_sta_start h s reason)"

definition rwnx_txq_tdls_sta_stop :: "tx_hw \<Rightarrow> tx_vif \<Rightarrow> u16 \<Rightarrow> tx_hw" where
  "rwnx_txq_tdls_sta_stop h v reason =
     (case tdls_sta v of None \<Rightarrow> h | Some s \<Rightarrow> rwnx_txq_sta_stop h s reason)"

text \<open>
  \<open>rwnx_txq_vif_for_each_sta\<close> on the stations of an interface: the pointers it applies the function to,
  None for a null pointer, or a BUG for an interface type without stations.
\<close>

definition vif_stas :: "tx_vif \<Rightarrow> fault + nat option list" where
  "vif_stas v =
     (if iftype v \<in> {IFTYPE_STATION, IFTYPE_P2P_CLIENT}
      then Inr ((if tdls_link_active v then [tdls_sta v] else [])
                @ (case ap_sta v of None \<Rightarrow> [] | Some s \<Rightarrow> [Some s]))
      else if iftype v = IFTYPE_AP_VLAN then Inr (map Some (master_sta_list v))
      else if iftype v \<in> {IFTYPE_AP, IFTYPE_MESH_POINT, IFTYPE_P2P_GO} then Inr (map Some (vif_sta_list v))
      else Inl KernelBug)"

definition vif_own_txqs :: "tx_hw \<Rightarrow> tx_vif \<Rightarrow> nat list" where
  "vif_own_txqs h v = [rwnx_txq_vif_get h v NX_BCMC_TXQ_TYPE, rwnx_txq_vif_get h v NX_UNK_TXQ_TYPE]"

definition rwnx_txq_vif_start :: "tx_hw \<Rightarrow> tx_vif \<Rightarrow> u16 \<Rightarrow> fault + tx_hw" where
  "rwnx_txq_vif_start h v reason =
     (if iftype v = IFTYPE_MONITOR then Inr h
      else
        let h1 = (if roc_tdls v then
                    (case tdls_sta v of
                       Some s \<Rightarrow> if chsw_en (sta_table h ! s) then rwnx_txq_sta_start h s reason else h
                     | None \<Rightarrow> h)
                  else h)
        in case (if roc_tdls v then Inr [] else vif_stas v) of
             Inl e \<Rightarrow> Inl e
           | Inr ss \<Rightarrow>
               if None \<in> set ss then Inl NullDeref
               else Inr (fold (\<lambda>i h. rwnx_txq_start h i reason) (vif_own_txqs h v)
                           (fold (\<lambda>s h. rwnx_txq_sta_start h (the s) reason) ss h1)))"

definition rwnx_txq_vif_stop :: "tx_hw \<Rightarrow> tx_vif \<Rightarrow> u16 \<Rightarrow> fault + tx_hw" where
  "rwnx_txq_vif_stop h v reason =
     (if iftype v = IFTYPE_MONITOR then Inr h
      else case vif_stas v of
             Inl e \<Rightarrow> Inl e
           | Inr ss \<Rightarrow>
               Inr (fold (\<lambda>i h. rwnx_txq_stop h i reason) (vif_own_txqs h v)
                      (fold (\<lambda>s h. case s of None \<Rightarrow> h | Some s' \<Rightarrow> rwnx_txq_sta_stop h s' reason) ss h)))"

definition rwnx_txq_offchan_start :: "tx_hw \<Rightarrow> tx_hw" where
  "rwnx_txq_offchan_start h = rwnx_txq_start h (nx_off_chan_txq_idx h) RWNX_TXQ_STOP_CHAN"

section \<open>Initialisation and removal\<close>

text \<open>
  The net device queue of a transmit queue. The C code reads \<open>sta->sta_idx\<close> for a queue below the
  interface queues; only station queues have such an index.
\<close>

definition txq_ndev_idx :: "tx_hw \<Rightarrow> nat \<Rightarrow> nat option \<Rightarrow> u16" where
  "txq_ndev_idx h i s =
     (if i < nx_first_vif_txq_idx h then
        (case s of
           None \<Rightarrow> NDEV_NO_TXQ
         | Some s' \<Rightarrow>
             let si = sta_idx (sta_table h ! s');
                 td = int i - int (si * NX_NB_TXQ_PER_STA)
             in if td < int NX_NB_TID_PER_STA then of_int (td + int (si * NX_NB_TID_PER_STA)) else NDEV_NO_TXQ)
      else if i < nx_first_unk_txq_idx h then of_nat (nx_bcmc_txq_ndev_idx h)
      else NDEV_NO_TXQ)"

definition rwnx_txq_init :: "tx_hw \<Rightarrow> nat \<Rightarrow> u8 \<Rightarrow> nat \<Rightarrow> nat \<Rightarrow> nat option \<Rightarrow> nat \<Rightarrow> tx_hw" where
  "rwnx_txq_init h i st q td s dev =
     txq_upd h i (\<lambda>_.
       \<lparr>idx = of_nat i, status = st, credits = NX_TXQ_INITIAL_CREDITS, pkt_sent = 0, pkt_pushed = 0, sk_list = [],
        last_retry_skb = None, hwq = q, nb_retry = 0, push_limit = 0, tid = td, txq_sta = s, ps_id = LEGACY_PS_ID,
        ndev_idx = txq_ndev_idx h i s, ndev = dev\<rparr>)"

definition rwnx_txq_flush :: "tx_hw \<Rightarrow> nat \<Rightarrow> tx_hw" where
  "rwnx_txq_flush h i =
     tx_emit (map (\<lambda>k. FreeSkb i (sk_id k)) (sk_list (txq h ! i))) (txq_upd h i (\<lambda>t. t\<lparr>sk_list := []\<rparr>))"

definition rwnx_txq_deinit :: "tx_hw \<Rightarrow> nat \<Rightarrow> tx_hw" where
  "rwnx_txq_deinit h i =
     (if idx (txq h ! i) = TXQ_INACTIVE then h
      else rwnx_txq_flush (txq_upd (rwnx_txq_del_from_hw_list h i) i (\<lambda>t. t\<lparr>idx := TXQ_INACTIVE\<rparr>)) i)"

definition rwnx_txq_vif_init :: "tx_hw \<Rightarrow> tx_vif \<Rightarrow> u8 \<Rightarrow> tx_hw" where
  "rwnx_txq_vif_init h v st =
     (let h1 = rwnx_txq_init h (rwnx_txq_vif_get h v NX_BCMC_TXQ_TYPE) st RWNX_HWQ_BE 0 (Some (bcmc_index v)) (vif_index v)
      in rwnx_txq_init h1 (rwnx_txq_vif_get h1 v NX_UNK_TXQ_TYPE) st RWNX_HWQ_VO TID_MGT None (vif_index v))"

definition rwnx_txq_vif_deinit :: "tx_hw \<Rightarrow> tx_vif \<Rightarrow> tx_hw" where
  "rwnx_txq_vif_deinit h v = fold (\<lambda>i h. rwnx_txq_deinit h i) (vif_own_txqs h v) h"

definition rwnx_tid2hwq :: "nat list" where
  "rwnx_tid2hwq = [1, 0, 0, 1, 2, 2, 3, 3, 3, 1, 1, 1, 1, 1, 1, 1]"

definition sta_txq_init :: "nat \<Rightarrow> u8 \<Rightarrow> nat \<Rightarrow> nat \<times> nat \<Rightarrow> tx_hw \<Rightarrow> tx_hw" where
  "sta_txq_init s st dev p h =
     (case p of (td, i) \<Rightarrow>
        txq_upd (rwnx_txq_init h i st (rwnx_tid2hwq ! td) td (Some s) dev) i
          (\<lambda>t. t\<lparr>ps_id := if bit (uapsd_tids (sta_table h ! s)) td then UAPSD_ID else LEGACY_PS_ID\<rparr>))"

text \<open>The net device is the one of the interface the station belongs to.\<close>

definition rwnx_txq_sta_init :: "tx_hw \<Rightarrow> nat \<Rightarrow> u8 \<Rightarrow> tx_hw" where
  "rwnx_txq_sta_init h s st =
     fold (sta_txq_init s st (vif_idx (sta_table h ! s))) (enumerate 0 (sta_txqs h s)) h"

definition rwnx_txq_sta_deinit :: "tx_hw \<Rightarrow> nat \<Rightarrow> tx_hw" where
  "rwnx_txq_sta_deinit h s = fold (\<lambda>i h. rwnx_txq_deinit h i) (sta_txqs h s) h"

definition rwnx_txq_unk_vif_init :: "tx_hw \<Rightarrow> tx_vif \<Rightarrow> tx_hw" where
  "rwnx_txq_unk_vif_init h v =
     rwnx_txq_init h (rwnx_txq_vif_get h v NX_UNK_TXQ_TYPE) 0 RWNX_HWQ_VO TID_MGT None (vif_index v)"

definition rwnx_txq_unk_vif_deinit :: "tx_hw \<Rightarrow> tx_vif \<Rightarrow> tx_hw" where
  "rwnx_txq_unk_vif_deinit h v = rwnx_txq_deinit h (rwnx_txq_vif_get h v NX_UNK_TXQ_TYPE)"

definition rwnx_txq_offchan_init :: "tx_hw \<Rightarrow> tx_vif \<Rightarrow> tx_hw" where
  "rwnx_txq_offchan_init h v =
     rwnx_txq_init h (nx_off_chan_txq_idx h) (ucast RWNX_TXQ_STOP_CHAN) RWNX_HWQ_VO TID_MGT None (vif_index v)"

definition rwnx_txq_offchan_deinit :: "tx_hw \<Rightarrow> tx_hw" where
  "rwnx_txq_offchan_deinit h = rwnx_txq_deinit h (nx_off_chan_txq_idx h)"

text \<open>\<open>tdls\<close>: the wiphy has the flag \<open>WIPHY_FLAG_SUPPORTS_TDLS\<close>.\<close>

definition rwnx_txq_tdls_vif_init :: "bool \<Rightarrow> tx_hw \<Rightarrow> tx_vif \<Rightarrow> tx_hw" where
  "rwnx_txq_tdls_vif_init tdls h v = (if \<not> tdls then h else rwnx_txq_unk_vif_init h v)"

definition rwnx_txq_tdls_vif_deinit :: "bool \<Rightarrow> tx_hw \<Rightarrow> tx_vif \<Rightarrow> tx_hw" where
  "rwnx_txq_tdls_vif_deinit tdls h v = (if \<not> tdls then h else rwnx_txq_unk_vif_deinit h v)"

definition rwnx_txq_vif_get_status :: "tx_hw \<Rightarrow> tx_vif \<Rightarrow> u8" where
  "rwnx_txq_vif_get_status h v = status (txq h ! rwnx_txq_vif_get h v 0) AND ucast (RWNX_TXQ_STOP_CHAN OR RWNX_TXQ_STOP_VIF_PS)"

text \<open>\<open>carrier\<close> of the new device is switched on outside this state.\<close>

definition rwnx_txq_sta_switch_vif :: "tx_hw \<Rightarrow> nat \<Rightarrow> tx_vif \<Rightarrow> tx_hw" where
  "rwnx_txq_sta_switch_vif h s new_vif =
     fold (\<lambda>i h. tx_emit [NetifWake (vif_index new_vif) (ndev_idx (txq h ! i))]
                   (txq_upd h i (\<lambda>t. t\<lparr>ndev := vif_index new_vif\<rparr>)))
       (let b = rwnx_txq_sta_get h s 0 in [b ..< b + NX_NB_TID_PER_STA]) h"

definition rwnx_hwq_init :: "rwnx_hwq list" where
  "rwnx_hwq_init = map (\<lambda>(i, n). \<lparr>sched_list = [], hwq_size = n, hwq_id = i, need_processing = False\<rparr>)
     (enumerate 0 [8, 64, 64, 32, 8])"

text \<open>The queue part of \<open>rwnx_cfg80211_init\<close>: hardware queues, and every transmit queue inactive.\<close>

definition tx_hw_init :: "nat \<Rightarrow> nat \<Rightarrow> tx_sta list \<Rightarrow> tx_hw" where
  "tx_hw_init chipid chip_id ss =
     \<lparr>old_ic = is_old_ic chipid chip_id, usb_down = False, tbusy = False,
      txq = replicate NX_NB_TXQ \<lparr>idx = TXQ_INACTIVE, status = 0, credits = 0, pkt_sent = 0, pkt_pushed = 0, sk_list = [],
              last_retry_skb = None, hwq = 0, nb_retry = 0, push_limit = 0, tid = 0, txq_sta = None, ps_id = 0,
              ndev_idx = 0, ndev = 0\<rparr>,
      hwqs = rwnx_hwq_init, sta_table = ss, cfm_balance = (\<lambda>_. 0),
      usb_env = \<lparr>txdesc_free_idx = 0, tx_host_id = replicate USB_TXDESC_CNT None\<rparr>, tx_log = []\<rparr>"

section \<open>Queueing a buffer\<close>

definition rwnx_set_traffic_status :: "tx_hw \<Rightarrow> nat \<Rightarrow> bool \<Rightarrow> nat \<Rightarrow> tx_hw" where
  "rwnx_set_traffic_status h s available pid =
     (let st = sta_table h ! s in
      if tdls_active st then tx_emit [TdlsTrafficInd (vif_idx st)] h
      else tx_emit [TrafficInd (sta_idx st) (pid \<noteq> LEGACY_PS_ID) available] h)"

text \<open>\<open>rwnx_skb_append\<close>: the buffer goes behind the one with the given address.\<close>

fun skb_append :: "nat \<Rightarrow> tx_skb \<Rightarrow> tx_skb list \<Rightarrow> tx_skb list" where
  "skb_append a k [] = []"
| "skb_append a k (x # xs) = (if sk_id x = a then x # k # xs else x # skb_append a k xs)"

definition queue_ps :: "tx_hw \<Rightarrow> rwnx_txq \<Rightarrow> tx_hw" where
  "queue_ps h t =
     (case txq_sta t of
        None \<Rightarrow> h
      | Some s \<Rightarrow>
          if ps_active (sta_table h ! s) then
            let h1 = sta_upd h s (\<lambda>st. st\<lparr>pkt_ready := (pkt_ready st)(ps_id t := pkt_ready st (ps_id t) + 1)\<rparr>)
            in if pkt_ready (sta_table h1 ! s) (ps_id t) = 1 then rwnx_set_traffic_status h1 s True (ps_id t) else h1
          else h)"

definition queue_insert :: "bool \<Rightarrow> tx_skb \<Rightarrow> rwnx_txq \<Rightarrow> rwnx_txq" where
  "queue_insert retry k t =
     (if \<not> retry then t\<lparr>sk_list := sk_list t @ [k]\<rparr>
      else t\<lparr>sk_list := (case last_retry_skb t of None \<Rightarrow> k # sk_list t | Some a \<Rightarrow> skb_append a k (sk_list t)),
             last_retry_skb := Some (sk_id k), nb_retry := nb_retry t + 1\<rparr>)"

definition queue_flowctrl :: "tx_hw \<Rightarrow> nat \<Rightarrow> tx_hw" where
  "queue_flowctrl h i =
     (let t = txq h ! i in
      if ndev_idx t \<noteq> NDEV_NO_TXQ \<and> \<not> tbusy h \<and> length (sk_list t) > RWNX_NDEV_FLOW_CTRL_STOP
      then tx_emit [NetifStop (ndev t) (ndev_idx t)]
             (txq_upd h i (\<lambda>t. t\<lparr>status := status t OR RWNX_TXQ_NDEV_FLOW_CTRL\<rparr>))
      else h)"

definition rwnx_txq_queue_skb :: "tx_hw \<Rightarrow> tx_skb \<Rightarrow> nat \<Rightarrow> bool \<Rightarrow> bool \<times> tx_hw" where
  "rwnx_txq_queue_skb h k i retry =
     (let h1 = queue_ps h (txq h ! i);
          h2 = txq_upd h1 i (queue_insert retry k);
          h3 = queue_flowctrl h2 i
      in if \<not> rwnx_txq_is_stopped (txq h3 ! i) then (True, rwnx_txq_add_to_hw_list h3 i) else (False, h3))"

section \<open>Pushing a buffer\<close>

text \<open>The ring of buffers that wait for a confirmation (only queue 0 is used).\<close>

definition aicwf_usb_host_txdesc_push :: "usb_host_env \<Rightarrow> tx_skb \<Rightarrow> usb_host_env" where
  "aicwf_usb_host_txdesc_push e k =
     \<lparr>txdesc_free_idx = (if txdesc_free_idx e + 1 = 0x40000000 then 0 else txdesc_free_idx e + 1),
      tx_host_id = (tx_host_id e)[unat (txdesc_free_idx e) mod USB_TXDESC_CNT := Some k]\<rparr>"

definition ps_count_push :: "nat \<Rightarrow> tx_sta \<Rightarrow> tx_sta" where
  "ps_count_push pid st =
     st\<lparr>pkt_ready := (pkt_ready st)(pid := pkt_ready st pid - 1), sp_cnt := (sp_cnt st)(pid := sp_cnt st pid - 1)\<rparr>"

definition add_flag :: "u16 \<Rightarrow> bool \<Rightarrow> tx_skb \<Rightarrow> tx_skb" where
  "add_flag f c k = (if c then k\<lparr>sk_flags := sk_flags k OR f\<rparr> else k)"

definition rwnx_set_more_data_flag :: "tx_hw \<Rightarrow> nat \<Rightarrow> tx_skb \<Rightarrow> tx_hw \<times> tx_skb" where
  "rwnx_set_more_data_flag h s k =
     (let pid = ps_id (txq h ! sk_txq k) in
      if ps_active (sta_table h ! s) then
        let h1 = sta_upd h s (ps_count_push pid);
            st = sta_table h1 ! s;
            k1 = add_flag TXU_CNTRL_EOSP ((pid = UAPSD_ID \<or> sk_mesh k \<or> tdls_active st) \<and> sp_cnt st pid = 0) k
        in if pkt_ready st pid \<noteq> 0 then (h1, add_flag TXU_CNTRL_MORE_DATA True k1)
           else (rwnx_set_traffic_status h1 s False pid, k1)
      else (h, k))"

definition push_retry :: "rwnx_txq \<Rightarrow> rwnx_txq" where
  "push_retry t =
     (if nb_retry t \<noteq> 0
      then t\<lparr>nb_retry := nb_retry t - 1, last_retry_skb := (if nb_retry t - 1 = 0 then None else last_retry_skb t)\<rparr>
      else t\<lparr>pkt_sent := pkt_sent t + 1\<rparr>)"

definition push_count :: "rwnx_txq \<Rightarrow> rwnx_txq" where
  "push_count t =
     t\<lparr>pkt_pushed := pkt_pushed t + 1, push_limit := (if push_limit t \<noteq> 0 then push_limit t - 1 else 0)\<rparr>"

definition needs_cfm :: "tx_skb \<Rightarrow> bool" where
  "needs_cfm k \<longleftrightarrow>
     (sk_flags k AND TXU_CNTRL_MGMT \<noteq> 0 \<and> (sk_fc k = 0xd0 \<or> sk_fc k = 0x10 \<or> sk_fc k = 0x30))
     \<or> sk_ethertype k = 0x8e88 \<or> sk_ethertype k = 0xb488"

definition push_desc :: "usb_host_env \<Rightarrow> tx_skb \<Rightarrow> usb_host_env \<times> tx_skb" where
  "push_desc e k =
     (if needs_cfm k then
        let k1 = k\<lparr>sk_need_cfm := True, sk_status_desc := push_bit 31 1 OR txdesc_free_idx e\<rparr>
        in (aicwf_usb_host_txdesc_push e k1, k1)
      else (e, k\<lparr>sk_need_cfm := False,
                 sk_flags := (if sk_raw_frame k then sk_flags k OR TXU_CNTRL_MGMT else sk_flags k),
                 sk_status_desc := (if sk_fixed_rate k then push_bit 30 1 OR sk_rate_config k else 0)\<rparr>))"

text \<open>\<open>rwnx_tx_push\<close>, which is only called with no flags; \<open>aicwf_frame_tx\<close> hands the buffer to the bus.\<close>

definition rwnx_tx_push :: "tx_hw \<Rightarrow> tx_skb \<Rightarrow> tx_hw" where
  "rwnx_tx_push h k =
     (let i = sk_txq k;
          hw_queue = hwq_id (hwqs h ! hwq (txq h ! i));
          h1 = txq_upd h i push_retry
      in case (case sk_sta k of
                 None \<Rightarrow> (h1, k\<lparr>sk_hw_queue := hw_queue\<rparr>)
               | Some s \<Rightarrow> rwnx_set_more_data_flag h1 s (k\<lparr>sk_hw_queue := hw_queue\<rparr>)) of
           (h2, k2) \<Rightarrow>
             (case push_desc (usb_env h2) k2 of
                (e, k3) \<Rightarrow>
                  tx_emit [FrameTx i k3]
                    ((txq_upd h2 i push_count)
                       \<lparr>usb_env := e, cfm_balance := (cfm_balance h2)(hw_queue := cfm_balance h2 hw_queue + 1)\<rparr>)))"

section \<open>Processing a hardware queue\<close>

definition rwnx_txq_get_credits :: "rwnx_txq \<Rightarrow> int" where
  "rwnx_txq_get_credits t =
     (let cred = sint (credits t) in
      if push_limit t \<noteq> 0 \<and> cred > uint (push_limit t) then uint (push_limit t) else cred)"

text \<open>
  \<open>rwnx_txq_get_skb_to_push\<close>: the buffers to push, those that stay, and whether the queue has no more
  buffers ready. \<open>skb_queue_extract\<close> moves the first \<open>credits\<close> buffers.
\<close>

definition rwnx_txq_get_skb_to_push :: "rwnx_txq \<Rightarrow> tx_skb list \<times> tx_skb list \<times> bool" where
  "rwnx_txq_get_skb_to_push t =
     (let cr = rwnx_txq_get_credits t in
      if cr \<ge> int (length (sk_list t)) then (sk_list t, [], True)
      else (take (nat cr) (sk_list t), drop (nat cr) (sk_list t), push_limit t \<noteq> 0 \<and> cr = uint (push_limit t)))"

definition list_rotate_left :: "nat list \<Rightarrow> nat list" where
  "list_rotate_left xs = (case xs of [] \<Rightarrow> [] | x # xs' \<Rightarrow> xs' @ [x])"

definition after_push :: "tx_hw \<Rightarrow> nat \<Rightarrow> nat \<Rightarrow> bool \<Rightarrow> tx_hw" where
  "after_push h q i txq_empty =
     (if txq_empty then txq_upd (rwnx_txq_del_from_hw_list h i) i (\<lambda>t. t\<lparr>pkt_sent := 0\<rparr>)
      else if rwnx_txq_is_scheduled (txq h ! i) \<and> pkt_sent (txq h ! i) > hwq_size (hwqs h ! q)
      then hwq_upd (txq_upd h i (\<lambda>t. t\<lparr>pkt_sent := 0\<rparr>)) q (\<lambda>w. w\<lparr>sched_list := list_rotate_left (sched_list w)\<rparr>)
      else h)"

definition abort_sp :: "tx_hw \<Rightarrow> nat \<Rightarrow> tx_hw" where
  "abort_sp h i =
     (let t = txq h ! i in
      case txq_sta t of
        None \<Rightarrow> h
      | Some s \<Rightarrow>
          if push_limit t \<noteq> 0 \<and> ps_id t = LEGACY_PS_ID
          then txq_upd (sta_upd h s (\<lambda>st. st\<lparr>sp_cnt := (sp_cnt st)(ps_id t := sp_cnt st (ps_id t) - ucast (push_limit t))\<rparr>))
                 i (\<lambda>t. t\<lparr>push_limit := 0\<rparr>)
          else h)"

definition restart_flow :: "tx_hw \<Rightarrow> nat \<Rightarrow> tx_hw" where
  "restart_flow h i =
     (let t = txq h ! i in
      if status t AND RWNX_TXQ_NDEV_FLOW_CTRL \<noteq> 0 \<and> length (sk_list t) < RWNX_NDEV_FLOW_CTRL_RESTART
      then tx_emit (if tbusy h then [] else [NetifWake (ndev t) (ndev_idx t)])
             (txq_upd h i (\<lambda>t. t\<lparr>status := status t AND NOT RWNX_TXQ_NDEV_FLOW_CTRL\<rparr>))
      else h)"

text \<open>One round of the loop over the scheduled queues, with its \<open>BUG_ON\<close> checks.\<close>

definition hwq_round :: "tx_hw \<Rightarrow> nat \<Rightarrow> nat \<Rightarrow> fault + tx_hw" where
  "hwq_round h q i =
     (if length (txq h) \<le> i then Inl OutOfBounds
      else
        let t = txq h ! i in
        if \<not> rwnx_txq_is_scheduled t then Inl KernelBug
        else if idx t = TXQ_INACTIVE then Inr (rwnx_txq_flush (rwnx_txq_del_from_hw_list h i) i)
        else if sint (credits t) \<le> 0 then Inl KernelBug
        else if \<not> rwnx_txq_skb_ready t then Inl KernelBug
        else
          (case rwnx_txq_get_skb_to_push t of
             (push, rest, txq_empty) \<Rightarrow>
               Inr (restart_flow
                      (abort_sp
                         (after_push (fold (\<lambda>k h. rwnx_tx_push h k) push (txq_upd h i (\<lambda>t. t\<lparr>sk_list := rest\<rparr>)))
                            q i txq_empty) i) i)))"

definition list_next :: "nat list \<Rightarrow> nat \<Rightarrow> nat option" where
  "list_next xs i = (case dropWhile (\<lambda>x. x \<noteq> i) xs of x # y # _ \<Rightarrow> Some y | _ \<Rightarrow> None)"

definition list_first :: "nat list \<Rightarrow> nat option" where
  "list_first xs = (case xs of [] \<Rightarrow> None | x # _ \<Rightarrow> Some x)"

section \<open>Termination of the loop\<close>

text \<open>
  Every round pushes a buffer or takes a queue off the list, so the number of waiting buffers plus the number
  of scheduled queues decreases.
\<close>


lemma scheduled_bit: "rwnx_txq_is_scheduled t \<longleftrightarrow> bit (status t) 0"
  by (simp add: rwnx_txq_is_scheduled_def and_one_eq bit_0 odd_iff_mod_2_eq_one)

lemma status_flow_bits [simp]:
  "bit (x AND NOT 128 :: u8) 0 \<longleftrightarrow> bit x 0" "bit (x OR 128 :: u8) 0 \<longleftrightarrow> bit x 0"
  "bit (x OR 1 :: u8) 0" "\<not> bit (x AND NOT 1 :: u8) 0"
  "bit (x AND - 129 :: u8) 0 \<longleftrightarrow> bit x 0" "\<not> bit (x AND - 2 :: u8) 0"
  by (simp_all add: bit_and_iff bit_or_iff bit_not_iff)

definition txq_load :: "rwnx_txq \<Rightarrow> nat" where
  "txq_load t = length (sk_list t) + of_bool (rwnx_txq_is_scheduled t)"

definition tx_load :: "tx_hw \<Rightarrow> nat" where
  "tx_load h = sum_list (map txq_load (txq h))"

lemma sum_list_map_update:
  "i < length xs \<Longrightarrow> sum_list (map g (xs[i := y])) + g (xs ! i) = sum_list (map g xs) + (g y :: nat)"
proof (induction xs arbitrary: i)
  case (Cons x xs)
  then show ?case by (cases i) fastforce+
qed simp

lemma tx_load_upd:
  "i < length (txq h) \<Longrightarrow> tx_load (txq_upd h i f) + txq_load (txq h ! i) = tx_load h + txq_load (f (txq h ! i))"
  by (simp add: tx_load_def txq_upd_def sum_list_map_update)

lemma tx_load_same:
  assumes "txq_load (f (txq h ! i)) = txq_load (txq h ! i)"
  shows "tx_load (txq_upd h i f) = tx_load h"
proof (cases "i < length (txq h)")
  case True
  then show ?thesis using tx_load_upd [OF True, of f] assms by simp
next
  case False
  then show ?thesis by (simp add: tx_load_def txq_upd_def list_update_beyond)
qed

lemma txq_upd_sel [simp]:
  "length (txq (txq_upd h i f)) = length (txq h)"
  "i < length (txq h) \<Longrightarrow> txq (txq_upd h i f) ! i = f (txq h ! i)"
  "sta_table (txq_upd h i f) = sta_table h" "hwqs (txq_upd h i f) = hwqs h" "usb_env (txq_upd h i f) = usb_env h"
  "old_ic (txq_upd h i f) = old_ic h" "tx_log (txq_upd h i f) = tx_log h" "tbusy (txq_upd h i f) = tbusy h"
  "usb_down (txq_upd h i f) = usb_down h" "cfm_balance (txq_upd h i f) = cfm_balance h"
  by (simp_all add: txq_upd_def)

lemma sta_upd_sel [simp]:
  "txq (sta_upd h s g) = txq h" "hwqs (sta_upd h s g) = hwqs h" "usb_env (sta_upd h s g) = usb_env h"
  "old_ic (sta_upd h s g) = old_ic h" "tx_log (sta_upd h s g) = tx_log h" "tbusy (sta_upd h s g) = tbusy h"
  "usb_down (sta_upd h s g) = usb_down h" "cfm_balance (sta_upd h s g) = cfm_balance h"
  "length (sta_table (sta_upd h s g)) = length (sta_table h)"
  by (simp_all add: sta_upd_def)

lemma hwq_upd_sel [simp]:
  "txq (hwq_upd h q g) = txq h" "sta_table (hwq_upd h q g) = sta_table h" "usb_env (hwq_upd h q g) = usb_env h"
  "old_ic (hwq_upd h q g) = old_ic h" "tx_log (hwq_upd h q g) = tx_log h" "tbusy (hwq_upd h q g) = tbusy h"
  "usb_down (hwq_upd h q g) = usb_down h" "cfm_balance (hwq_upd h q g) = cfm_balance h"
  "length (hwqs (hwq_upd h q g)) = length (hwqs h)"
  by (simp_all add: hwq_upd_def)

lemma tx_emit_sel [simp]:
  "txq (tx_emit es h) = txq h" "sta_table (tx_emit es h) = sta_table h" "usb_env (tx_emit es h) = usb_env h"
  "old_ic (tx_emit es h) = old_ic h" "tx_log (tx_emit es h) = tx_log h @ es" "tbusy (tx_emit es h) = tbusy h"
  "usb_down (tx_emit es h) = usb_down h" "cfm_balance (tx_emit es h) = cfm_balance h" "hwqs (tx_emit es h) = hwqs h"
  by (simp_all add: tx_emit_def)

lemma txq_traffic_status [simp]:
  "txq (rwnx_set_traffic_status h s a p) = txq h" "hwqs (rwnx_set_traffic_status h s a p) = hwqs h"
  "sta_table (rwnx_set_traffic_status h s a p) = sta_table h" "usb_env (rwnx_set_traffic_status h s a p) = usb_env h"
  "old_ic (rwnx_set_traffic_status h s a p) = old_ic h" "cfm_balance (rwnx_set_traffic_status h s a p) = cfm_balance h"
  "tbusy (rwnx_set_traffic_status h s a p) = tbusy h" "usb_down (rwnx_set_traffic_status h s a p) = usb_down h"
  by (simp_all add: rwnx_set_traffic_status_def Let_def)

lemma add_flag_sel [simp]:
  "sk_id (add_flag f c k) = sk_id k" "sk_txq (add_flag f c k) = sk_txq k" "sk_hw_queue (add_flag f c k) = sk_hw_queue k"
  "sk_sta (add_flag f c k) = sk_sta k"
  by (simp_all add: add_flag_def)

lemma tx_load_cong: "txq h' = txq h \<Longrightarrow> tx_load h' = tx_load h"
  by (simp add: tx_load_def)

lemma more_data_txq: "rwnx_set_more_data_flag h s k = (h', k') \<Longrightarrow> txq h' = txq h"
  by (auto simp: rwnx_set_more_data_flag_def Let_def split: if_splits)

text \<open>Effect of a push on the queue array.\<close>

lemma txq_tx_push:
  "txq (rwnx_tx_push h k) = (txq h)[sk_txq k := push_count (push_retry (txq h ! sk_txq k))]"
proof (cases "sk_txq k < length (txq h)")
  case True
  then show ?thesis
    by (auto simp: rwnx_tx_push_def Let_def txq_upd_def split: prod.splits option.splits dest!: more_data_txq [rotated])
next
  case False
  then show ?thesis
    by (auto simp: rwnx_tx_push_def Let_def txq_upd_def list_update_beyond split: prod.splits option.splits dest!: more_data_txq [rotated])
qed


lemma push_same [simp]:
  "sk_list (push_count t) = sk_list t" "status (push_count t) = status t"
  "sk_list (push_retry t) = sk_list t" "status (push_retry t) = status t"
  by (simp_all add: push_count_def push_retry_def)

lemma tx_load_push [simp]: "tx_load (rwnx_tx_push h k) = tx_load h"
proof -
  have "tx_load (rwnx_tx_push h k) = tx_load (txq_upd h (sk_txq k) (\<lambda>t. push_count (push_retry t)))"
    by (rule tx_load_cong) (simp add: txq_tx_push txq_upd_def)
  then show ?thesis by (simp add: tx_load_same txq_load_def rwnx_txq_is_scheduled_def)
qed

lemma tx_load_pushes [simp]: "tx_load (fold (\<lambda>k h. rwnx_tx_push h k) ks h) = tx_load h"
  by (induction ks arbitrary: h) simp_all

lemma length_txq_push [simp]: "length (txq (rwnx_tx_push h k)) = length (txq h)"
  by (simp add: txq_tx_push)

lemma length_txq_pushes [simp]: "length (txq (fold (\<lambda>k h. rwnx_tx_push h k) ks h)) = length (txq h)"
  by (induction ks arbitrary: h) simp_all

lemma tx_load_del:
  assumes "i < length (txq h)"
  shows "tx_load (rwnx_txq_del_from_hw_list h i) + of_bool (rwnx_txq_is_scheduled (txq h ! i)) = tx_load h"
proof (cases "rwnx_txq_is_scheduled (txq h ! i)")
  case True
  have "tx_load (rwnx_txq_del_from_hw_list h i)
      = tx_load (txq_upd h i (\<lambda>t. t\<lparr>status := status t AND NOT RWNX_TXQ_IN_HWQ_LIST\<rparr>))"
    using True by (intro tx_load_cong) (simp add: rwnx_txq_del_from_hw_list_def)
  then show ?thesis
    using tx_load_upd [OF assms, of "\<lambda>t. t\<lparr>status := status t AND NOT RWNX_TXQ_IN_HWQ_LIST\<rparr>"] True
    by (simp add: txq_load_def scheduled_bit)
qed (simp add: rwnx_txq_del_from_hw_list_def)

lemma length_txq_del [simp]: "length (txq (rwnx_txq_del_from_hw_list h i)) = length (txq h)"
  by (simp add: rwnx_txq_del_from_hw_list_def)

lemma tx_load_flush:
  assumes "i < length (txq h)"
  shows "tx_load (rwnx_txq_flush h i) + length (sk_list (txq h ! i)) = tx_load h"
proof -
  have "tx_load (rwnx_txq_flush h i) = tx_load (txq_upd h i (\<lambda>t. t\<lparr>sk_list := []\<rparr>))"
    by (rule tx_load_cong) (simp add: rwnx_txq_flush_def)
  then show ?thesis
    using tx_load_upd [OF assms, of "\<lambda>t. t\<lparr>sk_list := []\<rparr>"] by (simp add: txq_load_def scheduled_bit)
qed

lemma tx_load_after_push: "i < length (txq h) \<Longrightarrow> tx_load (after_push h q i e) \<le> tx_load h"
proof -
  assume i: "i < length (txq h)"
  have 1: "tx_load (txq_upd h' i (\<lambda>t. t\<lparr>pkt_sent := 0\<rparr>)) = tx_load h'" for h'
    by (rule tx_load_same) (simp add: txq_load_def scheduled_bit)
  have 2: "tx_load (hwq_upd h' q g) = tx_load h'" for h' g
    by (rule tx_load_cong) simp
  show ?thesis using tx_load_del [OF i] by (simp add: after_push_def 1 2)
qed

lemma tx_load_abort_sp [simp]: "tx_load (abort_sp h i) = tx_load h"
proof -
  have "tx_load (txq_upd (sta_upd h s g) i (\<lambda>t. t\<lparr>push_limit := 0\<rparr>)) = tx_load h" for s g
    by (subst tx_load_same) (auto simp: txq_load_def scheduled_bit intro!: tx_load_cong)
  then show ?thesis by (simp add: abort_sp_def Let_def split: option.splits)
qed

lemma tx_load_restart_flow [simp]: "tx_load (restart_flow h i) = tx_load h"
proof -
  have "tx_load (tx_emit es (txq_upd h i (\<lambda>t. t\<lparr>status := status t AND NOT RWNX_TXQ_NDEV_FLOW_CTRL\<rparr>))) = tx_load h" for es
  proof -
    have "tx_load (tx_emit es h') = tx_load h'" for h' by (rule tx_load_cong) simp
    then show ?thesis by (simp add: tx_load_same txq_load_def scheduled_bit)
  qed
  then show ?thesis by (simp add: restart_flow_def Let_def)
qed

lemma get_skb_to_push_split:
  assumes "rwnx_txq_get_skb_to_push t = (push, rest, e)" and "0 < sint (credits t)" and "sk_list t \<noteq> []"
  shows "sk_list t = push @ rest \<and> push \<noteq> []"
proof -
  have "0 < rwnx_txq_get_credits t"
    using assms(2) word_gt_0 [of "push_limit t"] uint_ge_0 [of "push_limit t"]
    by (simp add: rwnx_txq_get_credits_def Let_def word_less_def)
  then have "0 < nat (rwnx_txq_get_credits t)" by simp
  then show ?thesis
    using assms(1,3) by (auto simp: rwnx_txq_get_skb_to_push_def Let_def simp del: zero_less_nat_eq split: if_splits)
qed

lemma hwq_round_load:
  assumes "hwq_round h q i = Inr h'"
  shows "tx_load h' < tx_load h"
proof -
  have i: "i < length (txq h)" and s: "rwnx_txq_is_scheduled (txq h ! i)"
    using assms by (auto simp: hwq_round_def Let_def split: if_splits)
  show ?thesis
  proof (cases "idx (txq h ! i) = TXQ_INACTIVE")
    case True
    then have "h' = rwnx_txq_flush (rwnx_txq_del_from_hw_list h i) i"
      using assms i s by (simp add: hwq_round_def)
    then show ?thesis using tx_load_del [OF i] tx_load_flush [of i "rwnx_txq_del_from_hw_list h i"] i s by simp
  next
    case False
    obtain push rest e where g: "rwnx_txq_get_skb_to_push (txq h ! i) = (push, rest, e)" by (cases "rwnx_txq_get_skb_to_push (txq h ! i)") auto
    let ?h0 = "txq_upd h i (\<lambda>t. t\<lparr>sk_list := rest\<rparr>)"
    let ?h1 = "fold (\<lambda>k h. rwnx_tx_push h k) push ?h0"
    have c: "0 < sint (credits (txq h ! i))" "sk_list (txq h ! i) \<noteq> []"
        and h': "h' = restart_flow (abort_sp (after_push ?h1 q i e) i) i"
      using assms i s False g by (auto simp: hwq_round_def Let_def rwnx_txq_skb_ready_def split: if_splits)
    have "tx_load ?h0 < tx_load h"
      using tx_load_upd [OF i, of "\<lambda>t. t\<lparr>sk_list := rest\<rparr>"] get_skb_to_push_split [OF g c]
      by (cases push) (auto simp: txq_load_def scheduled_bit)
    then show ?thesis
      using tx_load_after_push [of i ?h1 q e] i by (simp add: h')
  qed
qed

text \<open>The loop of \<open>rwnx_hwq_process\<close>: the next queue is read before a round changes the list.\<close>

function hwq_loop :: "tx_hw \<Rightarrow> nat \<Rightarrow> nat option \<Rightarrow> fault + tx_hw" where
  "hwq_loop h q None = Inr h"
| "hwq_loop h q (Some i) =
     (case hwq_round h q i of
        Inl e \<Rightarrow> Inl e
      | Inr h' \<Rightarrow> hwq_loop h' q (list_next (sched_list (hwqs h ! q)) i))"
  by pat_completeness auto

termination
  by (relation "measure (\<lambda>(h, q, c). tx_load h)") (auto simp: hwq_round_load)


definition rwnx_hwq_process :: "tx_hw \<Rightarrow> nat \<Rightarrow> fault + tx_hw" where
  "rwnx_hwq_process h q =
     hwq_loop (hwq_upd h q (\<lambda>w. w\<lparr>need_processing := False\<rparr>)) q (list_first (sched_list (hwqs h ! q)))"

fun hwq_process_ids :: "nat list \<Rightarrow> tx_hw \<Rightarrow> fault + tx_hw" where
  "hwq_process_ids [] h = Inr h"
| "hwq_process_ids (q # qs) h =
     (if need_processing (hwqs h ! q)
      then (case rwnx_hwq_process h q of Inl e \<Rightarrow> Inl e | Inr h' \<Rightarrow> hwq_process_ids qs h')
      else hwq_process_ids qs h)"

definition rwnx_hwq_process_all :: "tx_hw \<Rightarrow> fault + tx_hw" where
  "rwnx_hwq_process_all h = hwq_process_ids (rev [0 ..< length (hwqs h)]) h"

text \<open>The end of \<open>rwnx_start_xmit\<close> and of the other transmit functions.\<close>

definition xmit_skb :: "tx_hw \<Rightarrow> tx_skb \<Rightarrow> fault + tx_hw" where
  "xmit_skb h k =
     (case rwnx_txq_queue_skb h k (sk_txq k) False of
        (True, h') \<Rightarrow> rwnx_hwq_process h' (hwq (txq h' ! sk_txq k))
      | (False, h') \<Rightarrow> Inr h')"

section \<open>Confirmations\<close>

definition rwnx_txq_confirm_any :: "tx_hw \<Rightarrow> nat \<Rightarrow> nat \<Rightarrow> tx_hw" where
  "rwnx_txq_confirm_any h i q =
     (let h1 = txq_upd h i (\<lambda>t. t\<lparr>pkt_pushed := if pkt_pushed t \<noteq> 0 then pkt_pushed t - 1 else 0\<rparr>);
          h2 = hwq_upd h1 q (\<lambda>w. w\<lparr>need_processing := True\<rparr>)
      in h2\<lparr>cfm_balance := (cfm_balance h)(hwq_id (hwqs h ! q) := cfm_balance h (hwq_id (hwqs h ! q)) - 1)\<rparr>)"

definition rwnx_tx_retry :: "tx_hw \<Rightarrow> tx_skb \<Rightarrow> bool \<Rightarrow> tx_hw" where
  "rwnx_tx_retry h k sw_retry =
     (let i = sk_txq k;
          fl = (if sw_retry then sk_flags k else sk_flags k OR TXU_CNTRL_RETRY);
          k1 = k\<lparr>sk_flags := fl AND NOT TXU_CNTRL_MORE_DATA\<rparr>;
          h1 = txq_upd h i (\<lambda>t. t\<lparr>credits := credits t + 1\<rparr>);
          h2 = (if sint (credits (txq h1 ! i)) > 0 then rwnx_txq_start h1 i RWNX_TXQ_STOP_FULL else h1)
      in snd (rwnx_txq_queue_skb h2 k1 i True))"

text \<open>
  The status word: bit 1 \<open>retry_required\<close>, bit 2 \<open>sw_retry_required\<close>, bit 3 \<open>acknowledged\<close>. Statistics are
  not part of the state.
\<close>

definition rwnx_txdatacfm :: "tx_hw \<Rightarrow> tx_skb \<Rightarrow> u32 \<Rightarrow> tx_hw" where
  "rwnx_txdatacfm h k st =
     (if usb_down h then tx_emit [ConsumeSkb (sk_id k)] h
      else
        let i = sk_txq k;
            h1 = rwnx_txq_confirm_any h i (sk_hw_queue k);
            mgmt = (sk_flags k AND TXU_CNTRL_MGMT \<noteq> 0);
            h2 = (if mgmt then tx_emit [MgmtStatus (sk_id k) (bit st 3)] h1 else h1)
        in if \<not> mgmt \<and> idx (txq h2 ! i) \<noteq> TXQ_INACTIVE \<and> (bit st 1 \<or> bit st 2)
           then rwnx_tx_retry h2 k (bit st 2)
           else
             let t = txq h2 ! i;
                 h3 = (if idx t \<noteq> TXQ_INACTIVE \<and> push_limit t \<noteq> 0 \<and> \<not> rwnx_txq_is_full t
                       then rwnx_txq_add_to_hw_list h2 i else h2)
             in tx_emit [ConsumeSkb (sk_id k)] h3)"

definition aicwf_usb_host_tx_cfm_handler :: "tx_hw \<Rightarrow> u32 \<Rightarrow> u32 \<Rightarrow> tx_hw" where
  "aicwf_usb_host_tx_cfm_handler h st used_idx =
     (let j = unat used_idx mod USB_TXDESC_CNT;
          h1 = h\<lparr>usb_env := (usb_env h)\<lparr>tx_host_id := (tx_host_id (usb_env h))[j := None]\<rparr>\<rparr>
      in case tx_host_id (usb_env h) ! j of
           None \<Rightarrow> h1
         | Some k \<Rightarrow> rwnx_txdatacfm h1 k st)"

definition rwnx_txq_credit_update :: "tx_hw \<Rightarrow> nat \<Rightarrow> nat \<Rightarrow> tx_hw" where
  "rwnx_txq_credit_update h s td =
     (let i = rwnx_txq_sta_get h s td in
      if idx (txq h ! i) \<noteq> TXQ_INACTIVE then
        (if sint (credits (txq h ! i)) \<le> 0 then rwnx_txq_stop h i RWNX_TXQ_STOP_FULL
         else rwnx_txq_start h i RWNX_TXQ_STOP_FULL)
      else h)"

section \<open>Power save\<close>

definition sum_ready :: "tx_hw \<Rightarrow> nat list \<Rightarrow> nat \<Rightarrow> u16" where
  "sum_ready h is pid =
     sum_list (map (\<lambda>i. if ps_id (txq h ! i) = pid then of_nat (length (sk_list (txq h ! i))) else 0) is)"

definition ps_enable :: "tx_hw \<Rightarrow> nat \<Rightarrow> tx_hw" where
  "ps_enable h s =
     (let h1 = sta_upd h s (\<lambda>st. st\<lparr>ps_active := True, sp_cnt := (sp_cnt st)(LEGACY_PS_ID := 0, UAPSD_ID := 0)\<rparr>);
          h2 = rwnx_txq_sta_stop h1 s RWNX_TXQ_STOP_STA_PS
      in if is_multicast_sta h (sta_idx (sta_table h ! s))
         then sta_upd h2 s (\<lambda>st. st\<lparr>pkt_ready := (pkt_ready st)
                (LEGACY_PS_ID := of_nat (length (sk_list (txq h2 ! rwnx_txq_sta_get h s 0))), UAPSD_ID := 0)\<rparr>)
         else sta_upd h2 s (\<lambda>st. st\<lparr>pkt_ready := (pkt_ready st)
                (LEGACY_PS_ID := sum_ready h2 (sta_txqs h2 s) LEGACY_PS_ID, UAPSD_ID := sum_ready h2 (sta_txqs h2 s) UAPSD_ID)\<rparr>))"

definition ps_disable :: "tx_hw \<Rightarrow> nat \<Rightarrow> tx_hw" where
  "ps_disable h s =
     (let h1 = sta_upd h s (\<lambda>st. st\<lparr>ps_active := False\<rparr>);
          h2 = (if is_multicast_sta h (sta_idx (sta_table h ! s))
                then txq_upd h1 (rwnx_txq_sta_get h s 0) (\<lambda>t. t\<lparr>hwq := RWNX_HWQ_BE, push_limit := 0\<rparr>)
                else fold (\<lambda>i h. txq_upd h i (\<lambda>t. t\<lparr>push_limit := 0\<rparr>)) (sta_txqs h s) h1);
          h3 = rwnx_txq_sta_start h2 s RWNX_TXQ_STOP_STA_PS;
          h4 = (if pkt_ready (sta_table h3 ! s) LEGACY_PS_ID \<noteq> 0
                then rwnx_set_traffic_status h3 s False LEGACY_PS_ID else h3)
      in tx_emit [TaskSchedule] h4)"

definition rwnx_ps_bh_enable :: "tx_hw \<Rightarrow> nat \<Rightarrow> bool \<Rightarrow> tx_hw" where
  "rwnx_ps_bh_enable h s en = (if en then ps_enable h s else ps_disable h s)"

definition nx_tid_prio :: "nat list" where
  "nx_tid_prio = [7, 6, 5, 4, 3, 0, 2, 1]"

text \<open>Grant a queue \<open>n\<close> pushes in the service period and schedule it.\<close>

definition sp_grant :: "tx_hw \<Rightarrow> nat \<Rightarrow> nat \<Rightarrow> nat \<Rightarrow> int \<Rightarrow> tx_hw" where
  "sp_grant h s pid i n =
     rwnx_txq_add_to_hw_list
       (sta_upd (txq_upd h i (\<lambda>t. t\<lparr>push_limit := of_int n\<rparr>)) s
          (\<lambda>st. st\<lparr>sp_cnt := (sp_cnt st)(pid := sp_cnt st pid + of_int n)\<rparr>)) i"

definition sp_avail :: "rwnx_txq \<Rightarrow> int" where
  "sp_avail t =
     (let n = uint (of_nat (length (sk_list t)) :: u16) in
      if n > sint (credits t) then uint (of_int (sint (credits t)) :: u16) else n)"

fun sp_dispatch :: "nat \<Rightarrow> nat \<Rightarrow> int \<Rightarrow> nat list \<Rightarrow> tx_hw \<Rightarrow> tx_hw" where
  "sp_dispatch s pid req [] h = h"
| "sp_dispatch s pid req (td # tds) h =
     (let i = rwnx_txq_sta_get h s td;
          t = txq h ! i;
          n = sp_avail t
      in if ps_id t \<noteq> pid then sp_dispatch s pid req tds h
         else if n = 0 then sp_dispatch s pid req tds h
         else if n < req then sp_dispatch s pid (req - n) tds (sp_grant h s pid i n)
         else sp_grant h s pid i req)"

definition rwnx_ps_bh_traffic_req :: "tx_hw \<Rightarrow> nat \<Rightarrow> u16 \<Rightarrow> nat \<Rightarrow> tx_hw" where
  "rwnx_ps_bh_traffic_req h s pkt_req pid =
     (let st = sta_table h ! s in
      if \<not> ps_active st then h
      else if pkt_req = PS_SP_INTERRUPTED \<and> pid = UAPSD_ID
      then fold (\<lambda>i h. txq_upd h i (\<lambda>t. t\<lparr>push_limit := 0\<rparr>)) (sta_txqs h s)
             (sta_upd h s (\<lambda>st. st\<lparr>sp_cnt := (sp_cnt st)(pid := 0)\<rparr>))
      else
        let pkt_ready_all = uint (pkt_ready st pid) - uint (sp_cnt st pid) in
        if sp_cnt st pid \<noteq> 0 \<or> pkt_ready_all \<le> 0 then h
        else
          let req = (if pkt_req = 0 \<or> uint pkt_req > pkt_ready_all then pkt_ready_all else uint pkt_req);
              h1 = sta_upd h s (\<lambda>st. st\<lparr>sp_cnt := (sp_cnt st)(pid := 0)\<rparr>)
          in tx_emit [TaskSchedule]
               (if is_multicast_sta h (sta_idx st) then
                  let i = rwnx_txq_sta_get h s 0;
                      cr = sint (credits (txq h ! i));
                      req' = (if req > cr then uint (of_int cr :: u16) else req)
                  in rwnx_txq_add_to_hw_list
                       (sta_upd (txq_upd h1 i (\<lambda>t. t\<lparr>push_limit := of_int req'\<rparr>)) s
                          (\<lambda>st. st\<lparr>sp_cnt := (sp_cnt st)(pid := of_int req')\<rparr>)) i
                else sp_dispatch s pid req nx_tid_prio h1))"

end
