(* ===== verification/TxSched.thy ===== *)
theory TxSched
  imports TxQueue
begin

text \<open>
  The invariant of the transmit queues and what follows from it: the scheduling lists of the hardware queues
  hold exactly the queues flagged as scheduled, a scheduled queue has buffers and credits (so that no
  \<open>BUG_ON\<close> of \<open>rwnx_hwq_process\<close> fires), and every queue hands its buffers on in the order they came.
\<close>

section \<open>The invariant\<close>

definition txq_active :: "rwnx_txq \<Rightarrow> bool" where
  "txq_active t \<longleftrightarrow> idx t \<noteq> TXQ_INACTIVE"

definition all_scheduled :: "tx_hw \<Rightarrow> nat list" where
  "all_scheduled h = concat (map sched_list (hwqs h))"

definition sched_ok :: "tx_hw \<Rightarrow> bool" where
  "sched_ok h \<longleftrightarrow> distinct (all_scheduled h)
     \<and> set (all_scheduled h) = {i. i < length (txq h) \<and> rwnx_txq_is_scheduled (txq h ! i)}"

definition txq_ok :: "nat \<Rightarrow> rwnx_txq \<Rightarrow> bool" where
  "txq_ok i t \<longleftrightarrow>
     (txq_active t \<longrightarrow> 0 < sint (credits t) \<and> unat (push_limit t) \<le> length (sk_list t)
                      \<and> (rwnx_txq_is_scheduled t \<longrightarrow> sk_list t \<noteq> []))
     \<and> (\<not> txq_active t \<longrightarrow> sk_list t = [] \<and> 0 \<le> sint (credits t))
     \<and> list_all (\<lambda>k. sk_txq k = i \<and> sk_sta k = txq_sta t) (sk_list t)
     \<and> hwq t < NX_TXQ_CNT"

text \<open>The broadcast queue of an interface: the power save counter of its station counts its buffers.\<close>

definition bcmc_ok :: "tx_hw \<Rightarrow> nat \<Rightarrow> bool" where
  "bcmc_ok h i \<longleftrightarrow>
     (\<forall>s < length (sta_table h).
        txq_active (txq h ! i) \<and> txq_sta (txq h ! i) = Some s \<and> is_multicast_sta h (sta_idx (sta_table h ! s)) \<longrightarrow>
        i = nx_first_vif_txq_idx h + vif_idx (sta_table h ! s) \<and> ps_id (txq h ! i) = LEGACY_PS_ID
        \<and> (ps_active (sta_table h ! s) \<longrightarrow>
             pkt_ready (sta_table h ! s) LEGACY_PS_ID = of_nat (length (sk_list (txq h ! i)))
             \<and> pkt_ready (sta_table h ! s) UAPSD_ID = 0))"

definition ring_ok :: "usb_host_env \<Rightarrow> bool" where
  "ring_ok e \<longleftrightarrow> length (tx_host_id e) = USB_TXDESC_CNT
     \<and> list_all (\<lambda>x. case x of None \<Rightarrow> True | Some k \<Rightarrow> sk_txq k < NX_NB_TXQ \<and> sk_hw_queue k < NX_TXQ_CNT) (tx_host_id e)"

definition shape_ok :: "tx_hw \<Rightarrow> bool" where
  "shape_ok h \<longleftrightarrow> length (txq h) = NX_NB_TXQ \<and> length (hwqs h) = NX_TXQ_CNT \<and> map hwq_id (hwqs h) = [0 ..< NX_TXQ_CNT]
     \<and> list_all (\<lambda>st. vif_idx st < NX_VIRT_DEV_MAX) (sta_table h)"

definition tx_ok :: "tx_hw \<Rightarrow> bool" where
  "tx_ok h \<longleftrightarrow> shape_ok h \<and> sched_ok h \<and> ring_ok (usb_env h)
     \<and> (\<forall>i < NX_NB_TXQ. txq_ok i (txq h ! i)) \<and> (\<forall>i < NX_NB_TXQ. bcmc_ok h i)"

text \<open>Everything of a queue but its status, and what of a station the invariant depends on.\<close>

definition txq_data :: "rwnx_txq \<Rightarrow> rwnx_txq" where
  "txq_data t = t\<lparr>status := 0\<rparr>"

definition sta_view :: "tx_sta \<Rightarrow> nat \<times> nat \<times> bool \<times> (nat \<Rightarrow> u16)" where
  "sta_view st = (sta_idx st, vif_idx st, ps_active st, pkt_ready st)"

text \<open>What of a queue the condition on broadcast queues depends on.\<close>

definition txq_view :: "rwnx_txq \<Rightarrow> u16 \<times> nat option \<times> nat \<times> tx_skb list" where
  "txq_view t = (idx t, txq_sta t, ps_id t, sk_list t)"

lemma bcmc_ok_cong:
  assumes "bcmc_ok h i" and "i < length (txq h)"
    and "map txq_view (txq h') = map txq_view (txq h)" and "map sta_view (sta_table h') = map sta_view (sta_table h)"
    and "old_ic h' = old_ic h"
  shows "bcmc_ok h' i"
proof -
  have l: "length (txq h') = length (txq h)" "length (sta_table h') = length (sta_table h)"
    using assms(3,4) by (metis length_map)+
  have t: "txq_view (txq h' ! i) = txq_view (txq h ! i)"
    using assms(2,3) l by (metis nth_map)
  have s: "s < length (sta_table h) \<Longrightarrow> sta_view (sta_table h' ! s) = sta_view (sta_table h ! s)" for s
    using assms(4) l by (metis nth_map)
  have "bcmc_ok h' i \<longleftrightarrow> bcmc_ok h i"
    unfolding bcmc_ok_def l
    by (intro all_cong) (use t s assms(5) in \<open>auto simp: txq_view_def sta_view_def txq_active_def is_multicast_sta_def
      nx_remote_sta_max_def nx_first_vif_txq_idx_def\<close>)
  then show ?thesis using assms(1) by simp
qed

section \<open>The scheduling lists\<close>

lemma sched_ok_perm:
  assumes "sched_ok h" and "mset (all_scheduled h') = mset (all_scheduled h)"
    and "map rwnx_txq_is_scheduled (txq h') = map rwnx_txq_is_scheduled (txq h)"
  shows "sched_ok h'"
proof -
  have l: "length (txq h') = length (txq h)" using assms(3) by (metis length_map)
  have "i < length (txq h) \<Longrightarrow> rwnx_txq_is_scheduled (txq h' ! i) = rwnx_txq_is_scheduled (txq h ! i)" for i
    using assms(3) l by (metis nth_map)
  then show ?thesis
    using assms(1) mset_eq_imp_distinct_iff [OF assms(2)] mset_eq_setD [OF assms(2)] l by (auto simp: sched_ok_def)
qed

lemma scheduled_txq_upd:
  assumes "rwnx_txq_is_scheduled (f (txq h ! i)) = rwnx_txq_is_scheduled (txq h ! i)"
  shows "map rwnx_txq_is_scheduled (txq (txq_upd h i f)) = map rwnx_txq_is_scheduled (txq h)"
  using assms by (cases "i < length (txq h)") (simp_all add: txq_upd_def map_update list_update_beyond list_update_same_conv)

lemma sched_ok_txq_upd:
  "sched_ok h \<Longrightarrow> rwnx_txq_is_scheduled (f (txq h ! i)) = rwnx_txq_is_scheduled (txq h ! i) \<Longrightarrow> sched_ok (txq_upd h i f)"
  by (rule sched_ok_perm [OF _ _ scheduled_txq_upd]) (simp_all add: all_scheduled_def)

lemma mset_all_scheduled_upd:
  assumes "q < length (hwqs h)"
  shows "mset (all_scheduled (hwq_upd h q f)) + mset (sched_list (hwqs h ! q))
         = mset (all_scheduled h) + mset (sched_list (f (hwqs h ! q)))"
  using mset_concat_update [OF assms, of sched_list "f (hwqs h ! q)"] by (simp add: all_scheduled_def hwq_upd_def)

lemma sched_ok_add:
  assumes "sched_ok h" and "i < length (txq h)" and "hwq (txq h ! i) < length (hwqs h)"
  shows "sched_ok (rwnx_txq_add_to_hw_list h i)"
proof (cases "rwnx_txq_is_scheduled (txq h ! i)")
  case False
  let ?h1 = "txq_upd h i (\<lambda>t. t\<lparr>status := status t OR RWNX_TXQ_IN_HWQ_LIST\<rparr>)"
  let ?h2 = "hwq_upd ?h1 (hwq (txq h ! i)) (\<lambda>q. q\<lparr>sched_list := sched_list q @ [i], need_processing := True\<rparr>)"
  have m: "mset (all_scheduled ?h2) = mset (i # all_scheduled h)"
    using mset_all_scheduled_upd [of "hwq (txq h ! i)" ?h1 "\<lambda>q. q\<lparr>sched_list := sched_list q @ [i], need_processing := True\<rparr>"] assms(3)
    by (simp add: all_scheduled_def)
  have n: "i \<notin> set (all_scheduled h)" using assms(1) False by (simp add: sched_ok_def)
  have "sched_ok ?h2"
    using assms(1,2) n mset_eq_imp_distinct_iff [OF m] mset_eq_setD [OF m]
    by (auto simp: sched_ok_def txq_upd_def nth_list_update scheduled_bit)
  then show ?thesis using False by (simp add: rwnx_txq_add_to_hw_list_def)
qed (simp add: rwnx_txq_add_to_hw_list_def assms)

lemma concat_sched_del: "concat (map sched_list (map (sched_del i) ws)) = removeAll i (concat (map sched_list ws))"
  by (induction ws) (simp_all add: sched_del_def)

lemma sched_ok_del:
  assumes "sched_ok h" and "i < length (txq h)"
  shows "sched_ok (rwnx_txq_del_from_hw_list h i)"
proof (cases "rwnx_txq_is_scheduled (txq h ! i)")
  case True
  then show ?thesis
    using assms
    by (auto simp: rwnx_txq_del_from_hw_list_def sched_ok_def all_scheduled_def concat_sched_del txq_upd_def nth_list_update
          scheduled_bit distinct_removeAll simp del: map_map)
qed (simp add: rwnx_txq_del_from_hw_list_def assms)

section \<open>Preservation by the basic operations\<close>

lemma tx_okD:
  assumes "tx_ok h"
  shows "length (txq h) = NX_NB_TXQ" "length (hwqs h) = NX_TXQ_CNT" "sched_ok h" "ring_ok (usb_env h)" "shape_ok h"
    "i < NX_NB_TXQ \<Longrightarrow> txq_ok i (txq h ! i)" "i < NX_NB_TXQ \<Longrightarrow> bcmc_ok h i"
    "i < NX_NB_TXQ \<Longrightarrow> hwq (txq h ! i) < length (hwqs h)"
    "s < length (sta_table h) \<Longrightarrow> vif_idx (sta_table h ! s) < NX_VIRT_DEV_MAX"
  using assms by (auto simp: tx_ok_def shape_ok_def txq_ok_def list_all_length)

lemma tx_okI:
  assumes "shape_ok h" and "sched_ok h" and "ring_ok (usb_env h)"
    and "\<And>i. i < NX_NB_TXQ \<Longrightarrow> txq_ok i (txq h ! i)" and "\<And>i. i < NX_NB_TXQ \<Longrightarrow> bcmc_ok h i"
  shows "tx_ok h"
  unfolding tx_ok_def by (intro conjI allI impI assms)

lemma bcmc_ok_txq_upd_other: "i \<noteq> j \<Longrightarrow> bcmc_ok (txq_upd h i f) j = bcmc_ok h j"
  by (simp add: bcmc_ok_def txq_upd_def is_multicast_sta_def nx_remote_sta_max_def nx_first_vif_txq_idx_def)

lemma bcmc_ok_txq_upd_view:
  assumes "bcmc_ok h i" and "txq_view (f (txq h ! i)) = txq_view (txq h ! i)" and "i < length (txq h)"
  shows "bcmc_ok (txq_upd h i f) i"
proof (rule bcmc_ok_cong [OF assms(1,3)])
  show "map txq_view (txq (txq_upd h i f)) = map txq_view (txq h)"
    using assms(2,3) by (simp add: txq_upd_def map_update list_update_same_conv)
qed simp_all

lemma tx_ok_txq_upd:
  assumes "tx_ok h" and "i < NX_NB_TXQ \<Longrightarrow> rwnx_txq_is_scheduled (f (txq h ! i)) = rwnx_txq_is_scheduled (txq h ! i)"
    and "i < NX_NB_TXQ \<Longrightarrow> txq_ok i (f (txq h ! i))" and "i < NX_NB_TXQ \<Longrightarrow> bcmc_ok (txq_upd h i f) i"
  shows "tx_ok (txq_upd h i f)"
proof (cases "i < NX_NB_TXQ")
  case True
  have "shape_ok (txq_upd h i f)" using assms(1) by (simp add: tx_ok_def shape_ok_def)
  moreover have "sched_ok (txq_upd h i f)" using assms(1,2) True by (simp add: tx_ok_def sched_ok_txq_upd)
  moreover have "ring_ok (usb_env (txq_upd h i f))" using assms(1) by (simp add: tx_ok_def)
  moreover have "txq_ok j (txq (txq_upd h i f) ! j)" if "j < NX_NB_TXQ" for j
    using that tx_okD(1,6) [OF assms(1)] assms(3) True by (cases "i = j") (auto simp: txq_upd_def)
  moreover have "bcmc_ok (txq_upd h i f) j" if "j < NX_NB_TXQ" for j
    using that tx_okD(7) [OF assms(1)] assms(4) True by (cases "i = j") (auto simp: bcmc_ok_txq_upd_other)
  ultimately show ?thesis by (rule tx_okI)
next
  case False
  then have "txq_upd h i f = h" using tx_okD(1) [OF assms(1)] by (simp add: txq_upd_def list_update_beyond)
  then show ?thesis using assms(1) by simp
qed

text \<open>A change that keeps the buffers, the station and the activity of a queue.\<close>

lemma tx_ok_txq_upd_view:
  assumes "tx_ok h" and "\<And>t. rwnx_txq_is_scheduled (f t) = rwnx_txq_is_scheduled t" and "\<And>t. txq_view (f t) = txq_view t"
    and "\<And>t. txq_ok i t \<Longrightarrow> txq_ok i (f t)"
  shows "tx_ok (txq_upd h i f)"
  using assms tx_okD [OF assms(1)] by (intro tx_ok_txq_upd bcmc_ok_txq_upd_view) simp_all

lemma tx_ok_hwqs:
  assumes "tx_ok h" and "mset (concat (map sched_list ws)) = mset (all_scheduled h)" and "map hwq_id ws = map hwq_id (hwqs h)"
  shows "tx_ok (h\<lparr>hwqs := ws\<rparr>)"
proof -
  have "length ws = length (hwqs h)" using assms(3) by (metis length_map)
  moreover have "sched_ok (h\<lparr>hwqs := ws\<rparr>)"
    by (rule sched_ok_perm [OF tx_okD(3) [OF assms(1)]]) (simp_all add: assms(2) all_scheduled_def [of "h\<lparr>hwqs := ws\<rparr>"])
  ultimately show ?thesis
    using assms by (simp add: tx_ok_def shape_ok_def bcmc_ok_def is_multicast_sta_def nx_remote_sta_max_def nx_first_vif_txq_idx_def)
qed

lemma tx_ok_hwq_upd:
  assumes "tx_ok h" and "\<And>w. mset (sched_list (f w)) = mset (sched_list w)" and "\<And>w. hwq_id (f w) = hwq_id w"
  shows "tx_ok (hwq_upd h q f)"
proof (cases "q < length (hwqs h)")
  case True
  have "mset (all_scheduled (hwq_upd h q f)) = mset (all_scheduled h)"
    using mset_all_scheduled_upd [OF True, of f] assms(2) by simp
  then show ?thesis
    unfolding hwq_upd_def using assms(3) True
    by (intro tx_ok_hwqs [OF assms(1)]) (simp_all add: all_scheduled_def hwq_upd_def map_update list_update_same_conv)
next
  case False
  then show ?thesis using assms(1) by (simp add: hwq_upd_def list_update_beyond)
qed

lemma tx_ok_same:
  assumes "tx_ok h" and "txq h' = txq h" and "hwqs h' = hwqs h" and "sta_table h' = sta_table h" and "old_ic h' = old_ic h"
    and "ring_ok (usb_env h')"
  shows "tx_ok h'"
  using assms by (simp add: tx_ok_def shape_ok_def sched_ok_def all_scheduled_def bcmc_ok_def is_multicast_sta_def
      nx_remote_sta_max_def nx_first_vif_txq_idx_def)

lemma tx_ok_emit [simp]: "tx_ok (tx_emit es h) \<longleftrightarrow> tx_ok h"
proof
  assume ok: "tx_ok (tx_emit es h)"
  show "tx_ok h" by (rule tx_ok_same [OF ok]) (use ok in \<open>simp_all add: tx_ok_def\<close>)
next
  assume ok: "tx_ok h"
  show "tx_ok (tx_emit es h)" by (rule tx_ok_same [OF ok]) (use ok in \<open>simp_all add: tx_ok_def\<close>)
qed

lemma tx_ok_add:
  assumes "tx_ok h" and "i < NX_NB_TXQ" and "txq_active (txq h ! i) \<Longrightarrow> sk_list (txq h ! i) \<noteq> []"
  shows "tx_ok (rwnx_txq_add_to_hw_list h i)"
proof (cases "rwnx_txq_is_scheduled (txq h ! i)")
  case False
  let ?h = "rwnx_txq_add_to_hw_list h i"
  note D = tx_okD [OF assms(1)]
  have e: "txq ?h = (txq h)[i := (txq h ! i)\<lparr>status := status (txq h ! i) OR RWNX_TXQ_IN_HWQ_LIST\<rparr>]"
      "sta_table ?h = sta_table h" "old_ic ?h = old_ic h" "usb_env ?h = usb_env h" "length (hwqs ?h) = length (hwqs h)"
      "map hwq_id (hwqs ?h) = map hwq_id (hwqs h)"
    using False D(8) [OF assms(2)]
    by (simp_all add: rwnx_txq_add_to_hw_list_def) (simp_all add: txq_upd_def hwq_upd_def map_update list_update_same_conv)
  have v: "map txq_view (txq ?h) = map txq_view (txq h)"
    using assms(2) D(1) by (simp add: e map_update txq_view_def list_update_same_conv)
  have "shape_ok ?h" using D(5) e by (simp add: shape_ok_def)
  moreover have "sched_ok ?h" using sched_ok_add [OF D(3)] D(1,8) assms(2) by simp
  moreover have "ring_ok (usb_env ?h)" using D(4) by (simp only: e)
  moreover have "txq_ok j (txq ?h ! j)" if "j < NX_NB_TXQ" for j
    unfolding e using that D(1) D(6) [OF that] assms(2,3) by (cases "i = j") (auto simp: txq_ok_def txq_active_def)
  moreover have "bcmc_ok ?h j" if "j < NX_NB_TXQ" for j
    by (rule bcmc_ok_cong [OF D(7) [OF that]]) (use that D(1) in \<open>simp_all add: v e(2,3)\<close>)
  ultimately show ?thesis by (rule tx_okI)
qed (simp add: rwnx_txq_add_to_hw_list_def assms(1))

lemma txq_del: "txq (rwnx_txq_del_from_hw_list h i) = (txq h)[i := (txq h ! i)\<lparr>status := status (txq h ! i) AND NOT RWNX_TXQ_IN_HWQ_LIST\<rparr>]
    \<or> \<not> rwnx_txq_is_scheduled (txq h ! i) \<and> rwnx_txq_del_from_hw_list h i = h"
  by (simp add: rwnx_txq_del_from_hw_list_def txq_upd_def)

lemma sta_table_del [simp]:
  "sta_table (rwnx_txq_del_from_hw_list h i) = sta_table h" "old_ic (rwnx_txq_del_from_hw_list h i) = old_ic h"
  "usb_env (rwnx_txq_del_from_hw_list h i) = usb_env h" "length (hwqs (rwnx_txq_del_from_hw_list h i)) = length (hwqs h)"
  "map hwq_id (hwqs (rwnx_txq_del_from_hw_list h i)) = map hwq_id (hwqs h)" "tx_log (rwnx_txq_del_from_hw_list h i) = tx_log h"
  by (simp_all add: rwnx_txq_del_from_hw_list_def comp_def sched_del_def)

lemma tx_ok_del:
  assumes "tx_ok h" and "i < NX_NB_TXQ"
  shows "tx_ok (rwnx_txq_del_from_hw_list h i)"
proof (cases "rwnx_txq_is_scheduled (txq h ! i)")
  case True
  let ?h = "rwnx_txq_del_from_hw_list h i"
  note D = tx_okD [OF assms(1)]
  have e: "txq ?h = (txq h)[i := (txq h ! i)\<lparr>status := status (txq h ! i) AND NOT RWNX_TXQ_IN_HWQ_LIST\<rparr>]"
    using txq_del [of h i] True by blast
  have v: "map txq_view (txq ?h) = map txq_view (txq h)"
    using assms(2) D(1) by (simp add: e map_update txq_view_def list_update_same_conv)
  have "shape_ok ?h" using D(5) by (simp add: shape_ok_def)
  moreover have "sched_ok ?h" using sched_ok_del [OF D(3)] D(1) assms(2) by simp
  moreover have "ring_ok (usb_env ?h)" using D(4) by simp
  moreover have "txq_ok j (txq ?h ! j)" if "j < NX_NB_TXQ" for j
    unfolding e using that D(1) D(6) [OF that] assms(2) True by (cases "i = j") (auto simp: txq_ok_def txq_active_def scheduled_bit)
  moreover have "bcmc_ok ?h j" if "j < NX_NB_TXQ" for j
    by (rule bcmc_ok_cong [OF D(7) [OF that]]) (use that D(1) in \<open>simp_all add: v\<close>)
  ultimately show ?thesis by (rule tx_okI)
qed (simp add: rwnx_txq_del_from_hw_list_def assms(1))

section \<open>The order of the buffers\<close>

text \<open>The buffers a queue has passed on or freed, in order, followed by those that wait.\<close>

fun done_id :: "nat \<Rightarrow> tx_event \<Rightarrow> nat list" where
  "done_id i (FrameTx j k) = (if j = i then [sk_id k] else [])"
| "done_id i (FreeSkb j a) = (if j = i then [a] else [])"
| "done_id i _ = []"

definition tx_flow :: "tx_hw \<Rightarrow> nat \<Rightarrow> nat list" where
  "tx_flow h i = concat (map (done_id i) (tx_log h)) @ map sk_id (sk_list (txq h ! i))"

definition sta_name :: "tx_sta \<Rightarrow> nat \<times> nat" where
  "sta_name st = (sta_idx st, vif_idx st)"

text \<open>What every operation but the arrival of a buffer keeps.\<close>

definition tx_keeps :: "tx_hw \<Rightarrow> tx_hw \<Rightarrow> bool" where
  "tx_keeps h h' \<longleftrightarrow> tx_ok h' \<and> (\<forall>i < NX_NB_TXQ. tx_flow h' i = tx_flow h i) \<and> old_ic h' = old_ic h
     \<and> map sta_name (sta_table h') = map sta_name (sta_table h)"

lemma tx_keeps_refl: "tx_ok h \<Longrightarrow> tx_keeps h h"
  by (simp add: tx_keeps_def)

lemma tx_keeps_trans: "tx_keeps h h' \<Longrightarrow> tx_keeps h' h'' \<Longrightarrow> tx_keeps h h''"
  by (simp add: tx_keeps_def)

lemma tx_keeps_ok: "tx_keeps h h' \<Longrightarrow> tx_ok h'"
  by (simp add: tx_keeps_def)

lemma tx_keeps_length: "tx_keeps h h' \<Longrightarrow> length (sta_table h') = length (sta_table h)"
  unfolding tx_keeps_def by (metis length_map)

lemma tx_keeps_fold_n:
  assumes "\<And>x h. x \<in> set xs \<Longrightarrow> tx_ok h \<Longrightarrow> length (sta_table h) = n \<Longrightarrow> tx_keeps h (f x h)"
    and "tx_ok h" and "length (sta_table h) = n"
  shows "tx_keeps h (fold f xs h)"
  using assms
proof (induction xs arbitrary: h)
  case (Cons x xs)
  have k: "tx_keeps h (f x h)" by (rule Cons.prems) (simp_all add: Cons.prems(2,3))
  have "tx_keeps (f x h) (fold f xs (f x h))"
    by (rule Cons.IH) (simp_all add: Cons.prems tx_keeps_ok [OF k] tx_keeps_length [OF k])
  then show ?case using tx_keeps_trans [OF k] by simp
qed (simp add: tx_keeps_refl)

lemma tx_keeps_fold:
  assumes "\<And>x h. x \<in> set xs \<Longrightarrow> tx_ok h \<Longrightarrow> tx_keeps h (f x h)" and "tx_ok h"
  shows "tx_keeps h (fold f xs h)"
  by (rule tx_keeps_fold_n) (simp_all add: assms)

lemma tx_flow_cong:
  "tx_log h' = tx_log h \<Longrightarrow> map sk_list (txq h') = map sk_list (txq h) \<Longrightarrow> i < length (txq h) \<Longrightarrow> tx_flow h' i = tx_flow h i"
  unfolding tx_flow_def by (metis length_map nth_map)

lemma tx_keepsI:
  assumes "tx_ok h" and "tx_ok h'" and "tx_log h' = tx_log h" and "map sk_list (txq h') = map sk_list (txq h)"
    and "old_ic h' = old_ic h" and "map sta_name (sta_table h') = map sta_name (sta_table h)"
  shows "tx_keeps h h'"
  using assms tx_flow_cong [OF assms(3,4)] by (simp add: tx_keeps_def tx_okD(1))

lemma tx_keeps_emit: "tx_ok h \<Longrightarrow> \<forall>i. concat (map (done_id i) es) = [] \<Longrightarrow> tx_keeps h (tx_emit es h)"
  by (simp add: tx_keeps_def tx_flow_def)

lemma sk_list_txq_upd: "(\<And>t. sk_list (f t) = sk_list t) \<Longrightarrow> map sk_list (txq (txq_upd h i f)) = map sk_list (txq h)"
  by (cases "i < length (txq h)") (simp_all add: txq_upd_def map_update list_update_same_conv list_update_beyond)

lemma tx_keeps_txq_upd:
  assumes "tx_ok h" and "\<And>t. rwnx_txq_is_scheduled (f t) = rwnx_txq_is_scheduled t" and "\<And>t. txq_view (f t) = txq_view t"
    and "\<And>t. txq_ok i t \<Longrightarrow> txq_ok i (f t)"
  shows "tx_keeps h (txq_upd h i f)"
proof (rule tx_keepsI [OF assms(1)])
  show "tx_ok (txq_upd h i f)" using assms by (rule tx_ok_txq_upd_view)
  show "map sk_list (txq (txq_upd h i f)) = map sk_list (txq h)"
    using assms(3) by (intro sk_list_txq_upd) (simp add: txq_view_def)
qed simp_all

lemma tx_keeps_status:
  assumes "tx_ok h" and "\<And>x. bit (g x) 0 = bit x 0"
  shows "tx_keeps h (txq_upd h i (\<lambda>t. t\<lparr>status := g (status t)\<rparr>))"
  using assms by (intro tx_keeps_txq_upd) (simp_all add: scheduled_bit txq_view_def txq_ok_def txq_active_def)

lemma tx_keeps_hwq_upd:
  assumes "tx_ok h" and "\<And>w. mset (sched_list (f w)) = mset (sched_list w)" and "\<And>w. hwq_id (f w) = hwq_id w"
  shows "tx_keeps h (hwq_upd h q f)"
  using assms by (intro tx_keepsI tx_ok_hwq_upd) simp_all

lemma sk_list_add: "map sk_list (txq (rwnx_txq_add_to_hw_list h i)) = map sk_list (txq h)"
  by (simp add: rwnx_txq_add_to_hw_list_def sk_list_txq_upd)

lemma add_sel [simp]:
  "sta_table (rwnx_txq_add_to_hw_list h i) = sta_table h" "old_ic (rwnx_txq_add_to_hw_list h i) = old_ic h"
  "usb_env (rwnx_txq_add_to_hw_list h i) = usb_env h" "tx_log (rwnx_txq_add_to_hw_list h i) = tx_log h"
  "length (txq (rwnx_txq_add_to_hw_list h i)) = length (txq h)"
  by (simp_all add: rwnx_txq_add_to_hw_list_def)

lemma tx_keeps_add:
  assumes "tx_ok h" and "i < NX_NB_TXQ" and "txq_active (txq h ! i) \<Longrightarrow> sk_list (txq h ! i) \<noteq> []"
  shows "tx_keeps h (rwnx_txq_add_to_hw_list h i)"
  using assms tx_ok_add by (intro tx_keepsI) (simp_all add: sk_list_add)

lemma sk_list_del: "map sk_list (txq (rwnx_txq_del_from_hw_list h i)) = map sk_list (txq h)"
  by (simp add: rwnx_txq_del_from_hw_list_def sk_list_txq_upd)

lemma tx_keeps_del: "tx_ok h \<Longrightarrow> i < NX_NB_TXQ \<Longrightarrow> tx_keeps h (rwnx_txq_del_from_hw_list h i)"
  using tx_ok_del by (intro tx_keepsI) (simp_all add: sk_list_del)

section \<open>Start and stop\<close>

lemma reason_bits [simp]:
  "\<not> bit r 0 \<Longrightarrow> bit (x AND NOT (ucast (r :: u16)) :: u8) 0 \<longleftrightarrow> bit x 0"
  "\<not> bit r 0 \<Longrightarrow> bit (x OR ucast (r :: u16) :: u8) 0 \<longleftrightarrow> bit x 0"
  by (simp_all add: bit_and_iff bit_or_iff bit_not_iff bit_unsigned_iff)

lemma tx_keeps_start:
  assumes "tx_ok h" and "i < NX_NB_TXQ" and "\<not> bit reason 0"
  shows "tx_keeps h (rwnx_txq_start h i reason)"
proof -
  let ?h1 = "txq_upd h i (\<lambda>t. t\<lparr>status := status t AND NOT (ucast reason)\<rparr>)"
  have k: "tx_keeps h ?h1" using assms by (intro tx_keeps_status) simp_all
  have "rwnx_txq_skb_ready (txq ?h1 ! i) \<Longrightarrow> tx_keeps ?h1 (rwnx_txq_add_to_hw_list ?h1 i)"
    using tx_keeps_ok [OF k] assms(2) by (intro tx_keeps_add) (simp_all add: rwnx_txq_skb_ready_def)
  then show ?thesis
    using k tx_keeps_trans [OF k] tx_keeps_refl [OF assms(1)] by (simp add: rwnx_txq_start_def Let_def)
qed

lemma tx_keeps_stop:
  assumes "tx_ok h" and "i < NX_NB_TXQ" and "\<not> bit reason 0"
  shows "tx_keeps h (rwnx_txq_stop h i reason)"
proof -
  let ?h1 = "txq_upd h i (\<lambda>t. t\<lparr>status := status t OR ucast reason\<rparr>)"
  have k: "tx_keeps h ?h1" using assms by (intro tx_keeps_status) simp_all
  then show ?thesis
    using tx_keeps_trans [OF k tx_keeps_del] tx_keeps_ok [OF k] tx_keeps_refl [OF assms(1)] assms(2)
    by (simp add: rwnx_txq_stop_def)
qed

text \<open>The indices of a station and of an interface are in the array.\<close>

lemma sta_idx_bound:
  assumes "vif_idx st < NX_VIRT_DEV_MAX" and "t < NX_NB_TXQ_PER_STA"
  shows "rwnx_txq_sta_idx h st t < NX_NB_TXQ"
  using assms by (auto simp: rwnx_txq_sta_idx_def is_multicast_sta_def nx_first_vif_txq_idx_def nx_remote_sta_max_def split: if_splits)

lemma sta_get_bound: "tx_ok h \<Longrightarrow> s < length (sta_table h) \<Longrightarrow> rwnx_txq_sta_get h s t < NX_NB_TXQ"
  using sta_idx_bound tx_okD(9) by (simp add: rwnx_txq_sta_get_def)

lemma sta_txqs_bound:
  assumes "tx_ok h" and "s < length (sta_table h)" and "i \<in> set (sta_txqs h s)"
  shows "i < NX_NB_TXQ"
  using assms(3) tx_okD(9) [OF assms(1,2)]
  by (auto simp: sta_txqs_def Let_def rwnx_txq_sta_get_def rwnx_txq_sta_idx_def is_multicast_sta_def nx_first_vif_txq_idx_def
      nx_remote_sta_max_def split: if_splits)

lemma vif_get_bound: "master_vif_idx v < NX_VIRT_DEV_MAX \<Longrightarrow> rwnx_txq_vif_get h v ty < NX_NB_TXQ"
  by (auto simp: rwnx_txq_vif_get_def rwnx_txq_vif_idx_def nx_first_vif_txq_idx_def nx_remote_sta_max_def split: if_splits)

lemma off_chan_bound: "nx_off_chan_txq_idx h < NX_NB_TXQ"
  by (simp add: nx_off_chan_txq_idx_def nx_first_vif_txq_idx_def nx_remote_sta_max_def)

lemma tx_keeps_sta_start:
  "tx_ok h \<Longrightarrow> s < length (sta_table h) \<Longrightarrow> \<not> bit reason 0 \<Longrightarrow> tx_keeps h (rwnx_txq_sta_start h s reason)"
  unfolding rwnx_txq_sta_start_def by (rule tx_keeps_fold) (simp_all add: tx_keeps_start sta_txqs_bound)

lemma tx_keeps_sta_stop:
  "tx_ok h \<Longrightarrow> s < length (sta_table h) \<Longrightarrow> \<not> bit reason 0 \<Longrightarrow> tx_keeps h (rwnx_txq_sta_stop h s reason)"
  unfolding rwnx_txq_sta_stop_def by (rule tx_keeps_fold) (simp_all add: tx_keeps_stop sta_txqs_bound)

text \<open>An interface whose index and stations exist.\<close>

definition vif_ok :: "tx_hw \<Rightarrow> tx_vif \<Rightarrow> bool" where
  "vif_ok h v \<longleftrightarrow> master_vif_idx v < NX_VIRT_DEV_MAX
     \<and> list_all (\<lambda>s. s < length (sta_table h))
         (vif_sta_list v @ master_sta_list v @ (case tdls_sta v of None \<Rightarrow> [] | Some s \<Rightarrow> [s]) @ (case ap_sta v of None \<Rightarrow> [] | Some s \<Rightarrow> [s]))"

lemma vif_stas_bound:
  assumes "vif_ok h v" and "vif_stas v = Inr ss" and "Some s \<in> set ss"
  shows "s < length (sta_table h)"
  using assms by (auto simp: vif_ok_def vif_stas_def list_all_iff split: if_splits option.splits)

lemma vif_own_bound: "vif_ok h v \<Longrightarrow> i \<in> set (vif_own_txqs h' v) \<Longrightarrow> i < NX_NB_TXQ"
  by (auto simp: vif_ok_def vif_own_txqs_def vif_get_bound)

lemma tx_keeps_vif_start:
  assumes "tx_ok h" and "vif_ok h v" and "\<not> bit reason 0" and "rwnx_txq_vif_start h v reason = Inr h'"
  shows "tx_keeps h h'"
proof -
  define h1 where "h1 = (if roc_tdls v then
        (case tdls_sta v of Some s \<Rightarrow> if chsw_en (sta_table h ! s) then rwnx_txq_sta_start h s reason else h | None \<Rightarrow> h) else h)"
  have k1: "tx_keeps h h1"
    using assms(1,2,3) unfolding h1_def by (auto simp: vif_ok_def list_all_iff tx_keeps_refl tx_keeps_sta_start split: option.splits)
  have fin: "tx_keeps h (fold (\<lambda>i h. rwnx_txq_start h i reason) (vif_own_txqs h v) (fold (\<lambda>s h. rwnx_txq_sta_start h (the s) reason) ss h1))"
    if eq: "(if roc_tdls v then Inr [] else vif_stas v) = (Inr ss :: fault + nat option list)" and "None \<notin> set ss" for ss
  proof -
    have b: "the s < length (sta_table h)" if m: "s \<in> set ss" for s
    proof -
      obtain s' where s': "s = Some s'" using m \<open>None \<notin> set ss\<close> by fastforce
      have "vif_stas v = Inr ss" using m eq by (auto split: if_splits)
      then show ?thesis using vif_stas_bound [OF assms(2)] s' m by fastforce
    qed
    have "tx_keeps h1 (fold (\<lambda>s h. rwnx_txq_sta_start h (the s) reason) ss h1)"
      using tx_keeps_ok [OF k1] tx_keeps_length [OF k1]
      by (rule tx_keeps_fold_n [rotated]) (simp add: tx_keeps_sta_start b assms(3))
    note k2 = tx_keeps_trans [OF k1 this]
    have "tx_keeps (fold (\<lambda>s h. rwnx_txq_sta_start h (the s) reason) ss h1)
       (fold (\<lambda>i h. rwnx_txq_start h i reason) (vif_own_txqs h v) (fold (\<lambda>s h. rwnx_txq_sta_start h (the s) reason) ss h1))"
      by (rule tx_keeps_fold) (use assms vif_own_bound tx_keeps_ok [OF k2] in \<open>auto simp: tx_keeps_start\<close>)
    then show ?thesis by (rule tx_keeps_trans [OF k2])
  qed
  show ?thesis
    using assms(1,4) fin unfolding rwnx_txq_vif_start_def h1_def [symmetric] Let_def
    by (auto simp: tx_keeps_refl split: if_splits sum.splits)
qed

lemma tx_keeps_vif_stop:
  assumes "tx_ok h" and "vif_ok h v" and "\<not> bit reason 0" and "rwnx_txq_vif_stop h v reason = Inr h'"
  shows "tx_keeps h h'"
proof -
  let ?f = "\<lambda>s h. case s of None \<Rightarrow> h | Some s' \<Rightarrow> rwnx_txq_sta_stop h s' reason"
  have fin: "tx_keeps h (fold (\<lambda>i h. rwnx_txq_stop h i reason) (vif_own_txqs h v) (fold ?f ss h))" if "vif_stas v = Inr ss" for ss
  proof -
    have k: "tx_keeps h (fold ?f ss h)"
      by (rule tx_keeps_fold_n [where n = "length (sta_table h)"])
         (use that assms vif_stas_bound in \<open>auto simp: tx_keeps_refl tx_keeps_sta_stop split: option.splits\<close>)
    have "tx_keeps (fold ?f ss h) (fold (\<lambda>i h. rwnx_txq_stop h i reason) (vif_own_txqs h v) (fold ?f ss h))"
      by (rule tx_keeps_fold) (use assms vif_own_bound tx_keeps_ok [OF k] in \<open>auto simp: tx_keeps_stop\<close>)
    then show ?thesis by (rule tx_keeps_trans [OF k])
  qed
  show ?thesis
    using assms(1,4) fin by (auto simp: rwnx_txq_vif_stop_def tx_keeps_refl split: if_splits sum.splits)
qed

section \<open>Initialisation and removal\<close>

lemma done_id_free: "concat (map (done_id j) (map (\<lambda>k. FreeSkb i (sk_id k)) ks)) = (if j = i then map sk_id ks else [])"
  by (induction ks) auto

lemma tx_keeps_deinit:
  assumes "tx_ok h" and "i < NX_NB_TXQ"
  shows "tx_keeps h (rwnx_txq_deinit h i)"
proof (cases "idx (txq h ! i) = TXQ_INACTIVE")
  case False
  define h1 where "h1 = rwnx_txq_del_from_hw_list h i"
  let ?f = "\<lambda>t. t\<lparr>idx := TXQ_INACTIVE, sk_list := []\<rparr>"
  have k: "tx_keeps h h1" unfolding h1_def using assms by (rule tx_keeps_del)
  note D = tx_okD [OF tx_keeps_ok [OF k]]
  have i: "i < length (txq h1)" using D(1) assms(2) by simp
  have ok: "tx_ok (txq_upd h1 i ?f)"
  proof (rule tx_ok_txq_upd [OF tx_keeps_ok [OF k]])
    show "txq_ok i (?f (txq h1 ! i))" using D(6) [OF assms(2)] by (auto simp: txq_ok_def txq_active_def)
    show "bcmc_ok (txq_upd h1 i ?f) i" using i by (simp add: bcmc_ok_def txq_active_def)
  qed (simp add: scheduled_bit)
  have "rwnx_txq_deinit h i = tx_emit (map (\<lambda>k. FreeSkb i (sk_id k)) (sk_list (txq h1 ! i))) (txq_upd h1 i ?f)"
    using False i by (simp add: rwnx_txq_deinit_def rwnx_txq_flush_def h1_def [symmetric]) (simp add: txq_upd_def)
  then have "tx_keeps h1 (rwnx_txq_deinit h i)"
    using ok i by (auto simp: tx_keeps_def tx_flow_def nth_list_update txq_upd_def [of h1] done_id_free simp del: map_map)
  then show ?thesis by (rule tx_keeps_trans [OF k])
qed (simp add: rwnx_txq_deinit_def tx_keeps_refl assms(1))


text \<open>A queue that may be initialised is inactive and on no list.\<close>

definition txq_free :: "tx_hw \<Rightarrow> nat \<Rightarrow> bool" where
  "txq_free h i \<longleftrightarrow> i < NX_NB_TXQ \<and> \<not> txq_active (txq h ! i) \<and> \<not> rwnx_txq_is_scheduled (txq h ! i)"

lemma of_nat_active: "i < NX_NB_TXQ \<Longrightarrow> (of_nat i :: u16) \<noteq> TXQ_INACTIVE"
proof
  assume i: "i < NX_NB_TXQ" and "(of_nat i :: u16) = TXQ_INACTIVE"
  then have "unat (of_nat i :: u16) = unat TXQ_INACTIVE" by (simp only:)
  then show False using i by (simp add: unat_of_nat)
qed

lemma tx_keeps_init:
  assumes "tx_ok h" and "txq_free h i" and "\<not> bit st 0" and "q < NX_TXQ_CNT"
    and "\<And>s. s' = Some s \<Longrightarrow> s < length (sta_table h) \<Longrightarrow> is_multicast_sta h (sta_idx (sta_table h ! s)) \<Longrightarrow>
           i = nx_first_vif_txq_idx h + vif_idx (sta_table h ! s) \<and> \<not> ps_active (sta_table h ! s)"
  shows "tx_keeps h (rwnx_txq_init h i st q td s' dev)"
proof -
  note D = tx_okD [OF assms(1)]
  have i: "i < NX_NB_TXQ" using assms(2) by (simp add: txq_free_def)
  have f: "\<not> rwnx_txq_is_scheduled (txq h ! i)" "sk_list (txq h ! i) = []"
    using assms(2) D(6) [OF i] by (simp_all add: txq_free_def txq_ok_def)
  have c: "sint (64 :: u8) = 64" by simp
  have ok: "tx_ok (rwnx_txq_init h i st q td s' dev)"
    unfolding rwnx_txq_init_def
  proof (rule tx_ok_txq_upd [OF assms(1)], goal_cases)
    case 1
    then show ?case using assms(3) f(1) by (simp add: scheduled_bit)
  next
    case 2
    then show ?case using assms(3,4) of_nat_active [OF i] c by (simp add: txq_ok_def txq_active_def scheduled_bit)
  next
    case 3
    then show ?case
      using assms(5) i D(1) by (auto simp: bcmc_ok_def is_multicast_sta_def nx_first_vif_txq_idx_def nx_remote_sta_max_def)
  qed
  have "map sk_list (txq (rwnx_txq_init h i st q td s' dev)) = map sk_list (txq h)"
    using i D(1) f(2) by (simp add: rwnx_txq_init_def txq_upd_def map_update list_update_same_conv)
  then show ?thesis
    by (intro tx_keepsI [OF assms(1) ok]) (simp_all add: rwnx_txq_init_def)
qed

lemma tx_keeps_init_None:
  "tx_ok h \<Longrightarrow> txq_free h i \<Longrightarrow> \<not> bit st 0 \<Longrightarrow> q < NX_TXQ_CNT \<Longrightarrow> tx_keeps h (rwnx_txq_init h i st q td None dev)"
  by (rule tx_keeps_init) simp_all

lemma txq_free_cong: "txq h' ! i = txq h ! i \<Longrightarrow> txq_free h' i = txq_free h i"
  by (simp add: txq_free_def)

lemma init_other: "i \<noteq> j \<Longrightarrow> txq (rwnx_txq_init h i st q td s dev) ! j = txq h ! j"
  by (simp add: rwnx_txq_init_def txq_upd_def)

lemma tx_keeps_vif_init:
  assumes "tx_ok h" and "txq_free h (rwnx_txq_vif_get h v NX_BCMC_TXQ_TYPE)" and "txq_free h (rwnx_txq_vif_get h v NX_UNK_TXQ_TYPE)"
    and "\<not> bit st 0" and "bcmc_index v < length (sta_table h)" and "vif_idx (sta_table h ! bcmc_index v) = master_vif_idx v"
    and "\<not> ps_active (sta_table h ! bcmc_index v)"
  shows "tx_keeps h (rwnx_txq_vif_init h v st)"
proof -
  let ?i = "rwnx_txq_vif_get h v NX_BCMC_TXQ_TYPE" and ?j = "rwnx_txq_vif_get h v NX_UNK_TXQ_TYPE"
  let ?h1 = "rwnx_txq_init h ?i st RWNX_HWQ_BE 0 (Some (bcmc_index v)) (vif_index v)"
  have ij: "?i \<noteq> ?j" by (simp add: rwnx_txq_vif_get_def rwnx_txq_vif_idx_def)
  have k: "tx_keeps h ?h1"
    using assms by (intro tx_keeps_init) (simp_all add: rwnx_txq_vif_get_def rwnx_txq_vif_idx_def)
  have "txq_free ?h1 ?j" using assms(3) init_other [OF ij] txq_free_cong by blast
  moreover have "rwnx_txq_vif_get ?h1 v NX_UNK_TXQ_TYPE = ?j"
    by (simp add: rwnx_txq_init_def rwnx_txq_vif_get_def rwnx_txq_vif_idx_def nx_first_vif_txq_idx_def nx_remote_sta_max_def)
  ultimately have "tx_keeps ?h1 (rwnx_txq_vif_init h v st)"
    using assms(4) tx_keeps_ok [OF k] by (simp add: rwnx_txq_vif_init_def Let_def tx_keeps_init_None)
  then show ?thesis by (rule tx_keeps_trans [OF k])
qed

lemma tx_keeps_sta_txq_init:
  assumes "tx_ok h" and "txq_free h i" and "\<not> bit st 0" and "td < NX_NB_TXQ_PER_STA"
    and "\<not> is_multicast_sta h (sta_idx (sta_table h ! s))" and "s < length (sta_table h)"
  shows "tx_keeps h (sta_txq_init s st dev (td, i) h)"
proof -
  let ?h1 = "rwnx_txq_init h i st (rwnx_tid2hwq ! td) td (Some s) dev"
  let ?f = "\<lambda>t. t\<lparr>ps_id := if bit (uapsd_tids (sta_table h ! s)) td then UAPSD_ID else LEGACY_PS_ID\<rparr>"
  have i: "i < NX_NB_TXQ" using assms(2) by (simp add: txq_free_def)
  have "rwnx_tid2hwq ! td < NX_TXQ_CNT"
    using assms(4) by (auto simp: rwnx_tid2hwq_def less_Suc_eq numeral_eq_Suc)
  then have k: "tx_keeps h ?h1" using assms by (intro tx_keeps_init) simp_all
  note D = tx_okD [OF tx_keeps_ok [OF k]]
  have "txq_sta (txq ?h1 ! i) = Some s" using i tx_okD(1) [OF assms(1)] by (simp add: rwnx_txq_init_def)
  then have b: "bcmc_ok (txq_upd ?h1 i ?f) i"
    using assms(5) i D(1)
    by (auto simp: bcmc_ok_def is_multicast_sta_def nx_remote_sta_max_def rwnx_txq_init_def)
  have "tx_ok (txq_upd ?h1 i ?f)"
    by (rule tx_ok_txq_upd [OF tx_keeps_ok [OF k]]) (use D(6) [OF i] b in \<open>simp_all add: scheduled_bit txq_ok_def txq_active_def\<close>)
  then have "tx_keeps ?h1 (txq_upd ?h1 i ?f)"
    by (intro tx_keepsI [OF tx_keeps_ok [OF k]]) (simp_all add: sk_list_txq_upd)
  then show ?thesis unfolding sta_txq_init_def by (simp add: tx_keeps_trans [OF k])
qed

lemma tx_keeps_sta_inits:
  assumes "tx_ok h" and "\<not> bit st 0" and "\<not> is_multicast_sta h (sta_idx (sta_table h ! s))" and "s < length (sta_table h)"
    and "\<forall>(td, i) \<in> set ps. td < NX_NB_TXQ_PER_STA \<and> txq_free h i" and "distinct (map snd ps)"
  shows "tx_keeps h (fold (sta_txq_init s st dev) ps h)"
  using assms
proof (induction ps arbitrary: h)
  case (Cons p ps)
  obtain td i where p: "p = (td, i)" by fastforce
  let ?h1 = "sta_txq_init s st dev p h"
  have k: "tx_keeps h ?h1" using Cons.prems by (simp add: p tx_keeps_sta_txq_init)
  have "txq ?h1 ! j = txq h ! j" if "j \<noteq> i" for j
    using that by (simp add: p sta_txq_init_def txq_upd_def init_other)
  then have "\<forall>(td, j) \<in> set ps. td < NX_NB_TXQ_PER_STA \<and> txq_free ?h1 j"
    using Cons.prems(5,6) txq_free_cong [of ?h1 _ h] by (fastforce simp: p)
  moreover have "is_multicast_sta ?h1 = is_multicast_sta h" "sta_table ?h1 = sta_table h"
    by (simp_all add: p sta_txq_init_def rwnx_txq_init_def is_multicast_sta_def nx_remote_sta_max_def fun_eq_iff)
  ultimately have "tx_keeps ?h1 (fold (sta_txq_init s st dev) ps ?h1)"
    using Cons.prems tx_keeps_ok [OF k] by (intro Cons.IH) simp_all
  then show ?case using tx_keeps_trans [OF k] by simp
qed (simp add: tx_keeps_refl)

lemma tx_keeps_sta_init:
  assumes "tx_ok h" and "\<not> bit st 0" and "\<not> is_multicast_sta h (sta_idx (sta_table h ! s))" and "s < length (sta_table h)"
    and "\<forall>i \<in> set (sta_txqs h s). txq_free h i"
  shows "tx_keeps h (rwnx_txq_sta_init h s st)"
proof -
  have l: "length (sta_txqs h s) = NX_NB_TXQ_PER_STA" using assms(3) by (simp add: sta_txqs_def Let_def)
  have d: "distinct (sta_txqs h s)" by (simp add: sta_txqs_def Let_def)
  show ?thesis
    unfolding rwnx_txq_sta_init_def
    by (rule tx_keeps_sta_inits [OF assms(1-4)])
       (use assms(5) l d in \<open>auto simp: in_set_enumerate_eq\<close>)
qed

end
