(* ===== verification/TxFlow.thy ===== *)
theory TxFlow
  imports TxSched
begin

text \<open>
  Queueing, pushing and processing keep the invariant of the transmit queues. While the buffers of a queue are
  pushed, the invariant holds for the queue with the buffers still to be pushed put back in front.
\<close>

section \<open>Stations\<close>

lemma sta_upd_nth: "sta_table (sta_upd h s g) ! s' = (if s' = s \<and> s < length (sta_table h) then g (sta_table h ! s) else sta_table h ! s')"
  by (auto simp: sta_upd_def list_update_beyond not_less)

lemma shape_ok_sta:
  assumes "shape_ok h" and "length (txq h') = length (txq h)" and "hwqs h' = hwqs h"
    and "map sta_name (sta_table h') = map sta_name (sta_table h)"
  shows "shape_ok h'"
proof -
  have "list_all (\<lambda>st. vif_idx st < 4) ss \<longleftrightarrow> list_all (\<lambda>p. snd p < 4) (map sta_name ss)" for ss
    by (induction ss) (simp_all add: sta_name_def)
  then show ?thesis using assms by (simp add: shape_ok_def)
qed

lemma sta_name_upd: "(\<And>st. sta_name (g st) = sta_name st) \<Longrightarrow> map sta_name (sta_table (sta_upd h s g)) = map sta_name (sta_table h)"
  by (cases "s < length (sta_table h)") (simp_all add: sta_upd_def map_update list_update_same_conv list_update_beyond)

lemma tx_keeps_sta_upd:
  assumes "tx_ok h" and "\<And>st. sta_name (g st) = sta_name st" and "\<And>i. i < NX_NB_TXQ \<Longrightarrow> bcmc_ok (sta_upd h s g) i"
  shows "tx_keeps h (sta_upd h s g)"
proof -
  note D = tx_okD [OF assms(1)]
  have "tx_ok (sta_upd h s g)"
  proof (rule tx_okI)
    show "shape_ok (sta_upd h s g)" by (rule shape_ok_sta [OF D(5)]) (simp_all add: sta_name_upd assms(2))
    show "sched_ok (sta_upd h s g)" using D(3) by (simp add: sched_ok_def all_scheduled_def)
  qed (use D assms(3) in simp_all)
  then show ?thesis by (intro tx_keepsI [OF assms(1)]) (simp_all add: sta_name_upd assms(2))
qed

lemma tx_keeps_sta_upd_view:
  assumes "tx_ok h" and "\<And>st. sta_view (g st) = sta_view st"
  shows "tx_keeps h (sta_upd h s g)"
proof (rule tx_keeps_sta_upd [OF assms(1)])
  show "sta_name (g st) = sta_name st" for st using assms(2) [of st] by (simp add: sta_view_def sta_name_def)
  have v: "map sta_view (sta_table (sta_upd h s g)) = map sta_view (sta_table h)"
    by (cases "s < length (sta_table h)") (simp_all add: sta_upd_def map_update assms(2) list_update_same_conv list_update_beyond)
  show "bcmc_ok (sta_upd h s g) i" if "i < NX_NB_TXQ" for i
    by (rule bcmc_ok_cong [OF tx_okD(7) [OF assms(1) that]]) (use that tx_okD(1) [OF assms(1)] v in simp_all)
qed

text \<open>A station has at most one broadcast queue.\<close>

lemma bcmc_okD:
  assumes "bcmc_ok h i" and "s < length (sta_table h)" and "txq_active (txq h ! i)" and "txq_sta (txq h ! i) = Some s"
    and "is_multicast_sta h (sta_idx (sta_table h ! s))"
  shows "i = nx_first_vif_txq_idx h + vif_idx (sta_table h ! s)" "ps_id (txq h ! i) = LEGACY_PS_ID"
    "ps_active (sta_table h ! s) \<Longrightarrow> pkt_ready (sta_table h ! s) LEGACY_PS_ID = of_nat (length (sk_list (txq h ! i)))"
    "ps_active (sta_table h ! s) \<Longrightarrow> pkt_ready (sta_table h ! s) UAPSD_ID = 0"
  using assms unfolding bcmc_ok_def by blast+

lemma bcmc_unique:
  assumes "bcmc_ok h i" and "bcmc_ok h j" and "s < length (sta_table h)" and "is_multicast_sta h (sta_idx (sta_table h ! s))"
    and "txq_active (txq h ! i)" and "txq_sta (txq h ! i) = Some s" and "txq_active (txq h ! j)" and "txq_sta (txq h ! j) = Some s"
  shows "i = j"
  using bcmc_okD(1) [OF assms(1,3,5,6,4)] bcmc_okD(1) [OF assms(2,3,7,8,4)] by (rule trans_sym)

section \<open>Queueing\<close>

lemma queue_ps_sel [simp]:
  "txq (queue_ps h t) = txq h" "hwqs (queue_ps h t) = hwqs h" "usb_env (queue_ps h t) = usb_env h" "old_ic (queue_ps h t) = old_ic h"
  "length (sta_table (queue_ps h t)) = length (sta_table h)" "map sta_name (sta_table (queue_ps h t)) = map sta_name (sta_table h)"
  "tbusy (queue_ps h t) = tbusy h"
  by (auto simp: queue_ps_def Let_def sta_name_upd sta_name_def split: option.splits)

lemma queue_ps_sta:
  "sta_table (queue_ps h t) ! s =
     (if txq_sta t = Some s \<and> s < length (sta_table h) \<and> ps_active (sta_table h ! s)
      then (sta_table h ! s)\<lparr>pkt_ready := (pkt_ready (sta_table h ! s))(ps_id t := pkt_ready (sta_table h ! s) (ps_id t) + 1)\<rparr>
      else sta_table h ! s)"
  by (auto simp: queue_ps_def Let_def sta_upd_nth split: option.splits)

lemma queue_ps_log: "concat (map (done_id i) (tx_log (queue_ps h t))) = concat (map (done_id i) (tx_log h))"
  by (auto simp: queue_ps_def Let_def rwnx_set_traffic_status_def split: option.splits)

lemma queue_ok:
  assumes "tx_ok h" and "i < NX_NB_TXQ" and "txq_active (txq h ! i)" and "sk_txq k = i" and "sk_sta k = txq_sta (txq h ! i)"
  shows "tx_ok (txq_upd (queue_ps h (txq h ! i)) i (queue_insert False k))" (is "tx_ok ?h")
proof -
  note D = tx_okD [OF assms(1)]
  have i: "i < length (txq h)" using D(1) assms(2) by simp
  have t: "txq ?h ! j = (if j = i then (txq h ! i)\<lparr>sk_list := sk_list (txq h ! i) @ [k]\<rparr> else txq h ! j)" for j
    using i by (simp add: txq_upd_def queue_insert_def)
  have m: "is_multicast_sta ?h = is_multicast_sta h" "nx_first_vif_txq_idx ?h = nx_first_vif_txq_idx h"
    by (simp_all add: fun_eq_iff is_multicast_sta_def nx_remote_sta_max_def nx_first_vif_txq_idx_def)
  show ?thesis
  proof (rule tx_okI)
    show "shape_ok ?h" by (rule shape_ok_sta [OF D(5)]) simp_all
    show "sched_ok ?h"
      by (rule sched_ok_txq_upd) (use D(3) in \<open>simp_all add: sched_ok_def all_scheduled_def queue_insert_def scheduled_bit\<close>)
    show "ring_ok (usb_env ?h)" using D(4) by simp
    show "txq_ok j (txq ?h ! j)" if "j < NX_NB_TXQ" for j
      using D(6) [OF that] assms(3-5) by (auto simp: t txq_ok_def txq_active_def scheduled_bit)
    show "bcmc_ok ?h j" if "j < NX_NB_TXQ" for j
      unfolding bcmc_ok_def m
    proof (intro allI impI, elim conjE)
      fix s assume s: "s < length (sta_table ?h)" "txq_active (txq ?h ! j)" "txq_sta (txq ?h ! j) = Some s"
        "is_multicast_sta h (sta_idx (sta_table ?h ! s))"
      have q: "s < length (sta_table h)" "txq_active (txq h ! j)" "txq_sta (txq h ! j) = Some s"
          "is_multicast_sta h (sta_idx (sta_table h ! s))"
        using s by (auto simp: t queue_ps_sta txq_active_def split: if_splits)
      note b = bcmc_okD [OF D(7) [OF that] q]
      have u: "txq_sta (txq h ! i) = Some s \<Longrightarrow> j = i"
        using bcmc_unique [OF D(7) [OF that] D(7) [OF assms(2)] q(1,4,2,3) assms(3)] .
      have n: "j = nx_first_vif_txq_idx h + vif_idx (sta_table ?h ! s)" unfolding b(1) by (simp add: queue_ps_sta)
      have p: "ps_id (txq ?h ! j) = LEGACY_PS_ID" using b(2) by (cases "j = i") (simp_all add: t)
      have a: "ps_active (sta_table ?h ! s) = ps_active (sta_table h ! s)" by (simp add: queue_ps_sta)
      have r: "ps_active (sta_table h ! s) \<longrightarrow> pkt_ready (sta_table ?h ! s) LEGACY_PS_ID = of_nat (length (sk_list (txq ?h ! j)))
             \<and> pkt_ready (sta_table ?h ! s) UAPSD_ID = 0"
      proof (cases "j = i")
        case True
        then show ?thesis using b(2-4) q by (simp add: t queue_ps_sta)
      next
        case False
        then show ?thesis using b(2-4) u by (auto simp: t queue_ps_sta)
      qed
      show "j = nx_first_vif_txq_idx h + vif_idx (sta_table ?h ! s) \<and> ps_id (txq ?h ! j) = LEGACY_PS_ID
          \<and> (ps_active (sta_table ?h ! s) \<longrightarrow> pkt_ready (sta_table ?h ! s) LEGACY_PS_ID = of_nat (length (sk_list (txq ?h ! j)))
             \<and> pkt_ready (sta_table ?h ! s) UAPSD_ID = 0)"
        unfolding a by (intro conjI n p r)
    qed
  qed
qed

lemma tx_keeps_flowctrl:
  assumes "tx_ok h"
  shows "tx_keeps h (queue_flowctrl h i)"
proof -
  have k: "tx_keeps h (txq_upd h i (\<lambda>t. t\<lparr>status := status t OR RWNX_TXQ_NDEV_FLOW_CTRL\<rparr>))"
    using assms by (rule tx_keeps_status) simp
  then show ?thesis
    using tx_keeps_trans [OF k tx_keeps_emit] tx_keeps_ok [OF k] tx_keeps_refl [OF assms] by (simp add: queue_flowctrl_def Let_def)
qed

lemma queue_flowctrl_sk [simp]: "i < length (txq h) \<Longrightarrow> sk_list (txq (queue_flowctrl h i) ! i) = sk_list (txq h ! i)"
  by (simp add: queue_flowctrl_def Let_def)

text \<open>Queueing a buffer keeps the invariant, appends the buffer to its queue and schedules the queue unless it is stopped.\<close>

lemma queue_skb_ok:
  assumes "tx_ok h" and "i < NX_NB_TXQ" and "txq_active (txq h ! i)" and "sk_txq k = i" and "sk_sta k = txq_sta (txq h ! i)"
    and "rwnx_txq_queue_skb h k i False = (b, h')"
  shows "tx_ok h' \<and> (\<forall>j < NX_NB_TXQ. tx_flow h' j = tx_flow h j @ (if j = i then [sk_id k] else []))
           \<and> old_ic h' = old_ic h \<and> map sta_name (sta_table h') = map sta_name (sta_table h)
           \<and> hwq (txq h' ! i) = hwq (txq h ! i)"
proof -
  define h2 where "h2 = txq_upd (queue_ps h (txq h ! i)) i (queue_insert False k)"
  have ok2: "tx_ok h2" unfolding h2_def using assms(1-5) by (rule queue_ok)
  have i: "i < length (txq h)" "i < length (txq h2)" using assms(1,2) tx_okD(1) by (simp_all add: h2_def)
  define h3 where "h3 = queue_flowctrl h2 i"
  have k3: "tx_keeps h2 h3" unfolding h3_def using ok2 by (rule tx_keeps_flowctrl)
  have s3: "sk_list (txq h3 ! i) = sk_list (txq h ! i) @ [k]"
    unfolding h3_def using i by (simp add: h2_def queue_insert_def)
  have k4: "tx_keeps h3 h'"
    using assms(6) tx_keeps_add [OF tx_keeps_ok [OF k3] assms(2)] s3 tx_keeps_refl [OF tx_keeps_ok [OF k3]]
    unfolding rwnx_txq_queue_skb_def Let_def h2_def [symmetric] h3_def [symmetric] by (auto split: if_splits)
  note k = tx_keeps_trans [OF k3 k4]
  have "tx_flow h2 j = tx_flow h j @ (if j = i then [sk_id k] else [])" for j
    using i by (auto simp: tx_flow_def h2_def queue_ps_log queue_insert_def) (simp add: txq_upd_def)
  moreover have "hwq (txq h' ! i) = hwq (txq h ! i)"
    using assms(6) i unfolding rwnx_txq_queue_skb_def Let_def h2_def [symmetric] h3_def [symmetric]
    by (auto simp: rwnx_txq_add_to_hw_list_def h3_def queue_flowctrl_def Let_def h2_def queue_insert_def split: if_splits)
  ultimately show ?thesis
    using k by (simp add: tx_keeps_def h2_def)
qed

section \<open>Pushing\<close>

lemma more_data_sel:
  assumes "rwnx_set_more_data_flag h s k = (h', k')"
  shows "hwqs h' = hwqs h" "old_ic h' = old_ic h" "usb_env h' = usb_env h" "sk_id k' = sk_id k" "sk_txq k' = sk_txq k"
    "sk_hw_queue k' = sk_hw_queue k" "concat (map (done_id i) (tx_log h')) = concat (map (done_id i) (tx_log h))"
    "sta_table h' = (if ps_active (sta_table h ! s)
       then (sta_table h)[s := ps_count_push (ps_id (txq h ! sk_txq k)) (sta_table h ! s)] else sta_table h)"
proof -
  let ?p = "ps_id (txq h ! sk_txq k)"
  let ?h1 = "sta_upd h s (ps_count_push ?p)"
  have r: "h' = fst (rwnx_set_more_data_flag h s k)" "k' = snd (rwnx_set_more_data_flag h s k)" using assms by simp_all
  show "sk_id k' = sk_id k" "sk_txq k' = sk_txq k" "sk_hw_queue k' = sk_hw_queue k"
    unfolding r(2) by (simp_all add: rwnx_set_more_data_flag_def Let_def)
  have c: "ps_active (sta_table h ! s) \<and> (h' = ?h1 \<or> h' = rwnx_set_traffic_status ?h1 s False ?p) \<or> \<not> ps_active (sta_table h ! s) \<and> h' = h"
    unfolding r(1) by (simp add: rwnx_set_more_data_flag_def Let_def)
  then show "hwqs h' = hwqs h" "old_ic h' = old_ic h" "usb_env h' = usb_env h" by auto
  show "concat (map (done_id i) (tx_log h')) = concat (map (done_id i) (tx_log h))"
    using c by (auto simp: rwnx_set_traffic_status_def Let_def)
  show "sta_table h' = (if ps_active (sta_table h ! s) then (sta_table h)[s := ps_count_push ?p (sta_table h ! s)] else sta_table h)"
    using c by (auto simp: sta_upd_def)
qed

lemma push_ring_ok: "ring_ok e \<Longrightarrow> sk_txq k < NX_NB_TXQ \<Longrightarrow> sk_hw_queue k < NX_TXQ_CNT \<Longrightarrow> ring_ok (aicwf_usb_host_txdesc_push e k)"
  by (auto simp: ring_ok_def aicwf_usb_host_txdesc_push_def list_all_length nth_list_update)

lemma push_desc_ok:
  assumes "push_desc e k = (e', k')" and "ring_ok e" and "sk_txq k < NX_NB_TXQ" and "sk_hw_queue k < NX_TXQ_CNT"
  shows "ring_ok e' \<and> sk_id k' = sk_id k"
  using assms by (auto simp: push_desc_def Let_def push_ring_ok split: if_splits)

lemma push_retry_ps [simp]: "ps_id (push_retry t) = ps_id t"
  by (simp add: push_retry_def)

lemma tx_push_sel:
  assumes "sk_txq k < length (txq h)"
  shows "hwqs (rwnx_tx_push h k) = hwqs h" "old_ic (rwnx_tx_push h k) = old_ic h"
    "sta_table (rwnx_tx_push h k) = (case sk_sta k of None \<Rightarrow> sta_table h
       | Some s \<Rightarrow> if ps_active (sta_table h ! s)
                  then (sta_table h)[s := ps_count_push (ps_id (txq h ! sk_txq k)) (sta_table h ! s)] else sta_table h)"
proof -
  define h1 where "h1 = txq_upd h (sk_txq k) push_retry"
  define k1 where "k1 = k\<lparr>sk_hw_queue := hwq_id (hwqs h ! hwq (txq h ! sk_txq k))\<rparr>"
  obtain h2 k2 where m: "(case sk_sta k of None \<Rightarrow> (h1, k1) | Some s \<Rightarrow> rwnx_set_more_data_flag h1 s k1) = (h2, k2)" by fastforce
  obtain e k3 where d: "push_desc (usb_env h2) k2 = (e, k3)" by fastforce
  have p: "hwqs (rwnx_tx_push h k) = hwqs h2" "old_ic (rwnx_tx_push h k) = old_ic h2" "sta_table (rwnx_tx_push h k) = sta_table h2"
    using m d unfolding rwnx_tx_push_def Let_def h1_def [symmetric] k1_def [symmetric] by simp_all
  have "hwqs h2 = hwqs h \<and> old_ic h2 = old_ic h \<and> sta_table h2 = (case sk_sta k of None \<Rightarrow> sta_table h
       | Some s \<Rightarrow> if ps_active (sta_table h ! s)
                  then (sta_table h)[s := ps_count_push (ps_id (txq h ! sk_txq k)) (sta_table h ! s)] else sta_table h)"
  proof (cases "sk_sta k")
    case None
    then show ?thesis using m by (auto simp: h1_def)
  next
    case (Some s)
    then have "rwnx_set_more_data_flag h1 s k1 = (h2, k2)" using m by simp
    note v = more_data_sel [OF this]
    show ?thesis using Some assms by (simp add: v h1_def k1_def)
  qed
  then show "hwqs (rwnx_tx_push h k) = hwqs h" "old_ic (rwnx_tx_push h k) = old_ic h"
    "sta_table (rwnx_tx_push h k) = (case sk_sta k of None \<Rightarrow> sta_table h
       | Some s \<Rightarrow> if ps_active (sta_table h ! s)
                  then (sta_table h)[s := ps_count_push (ps_id (txq h ! sk_txq k)) (sta_table h ! s)] else sta_table h)"
    by (simp_all add: p)
qed

lemma tx_push_log:
  assumes "ring_ok (usb_env h)" and "sk_txq k < NX_NB_TXQ" and "hwq_id (hwqs h ! hwq (txq h ! sk_txq k)) < NX_TXQ_CNT"
  shows "ring_ok (usb_env (rwnx_tx_push h k))"
    "concat (map (done_id i) (tx_log (rwnx_tx_push h k))) = concat (map (done_id i) (tx_log h)) @ (if sk_txq k = i then [sk_id k] else [])"
proof -
  define h1 where "h1 = txq_upd h (sk_txq k) push_retry"
  define k1 where "k1 = k\<lparr>sk_hw_queue := hwq_id (hwqs h ! hwq (txq h ! sk_txq k))\<rparr>"
  obtain h2 k2 where m: "(case sk_sta k of None \<Rightarrow> (h1, k1) | Some s \<Rightarrow> rwnx_set_more_data_flag h1 s k1) = (h2, k2)" by fastforce
  have s2: "usb_env h2 = usb_env h" "sk_id k2 = sk_id k" "sk_txq k2 = sk_txq k" "sk_hw_queue k2 < NX_TXQ_CNT"
      "concat (map (done_id i) (tx_log h2)) = concat (map (done_id i) (tx_log h))"
    using m assms(3) by (auto simp: h1_def k1_def split: option.splits dest: more_data_sel)
  obtain e k3 where d: "push_desc (usb_env h2) k2 = (e, k3)" by fastforce
  have "ring_ok e \<and> sk_id k3 = sk_id k" using push_desc_ok [OF d] assms(1,2) s2 by simp
  then show "ring_ok (usb_env (rwnx_tx_push h k))"
    "concat (map (done_id i) (tx_log (rwnx_tx_push h k))) = concat (map (done_id i) (tx_log h)) @ (if sk_txq k = i then [sk_id k] else [])"
    using m d s2 unfolding rwnx_tx_push_def Let_def h1_def [symmetric] k1_def [symmetric] by simp_all
qed

text \<open>The invariant without the condition that queue \<open>i\<close>, if scheduled, has buffers.\<close>

definition tx_but :: "nat \<Rightarrow> tx_hw \<Rightarrow> bool" where
  "tx_but i h \<longleftrightarrow> shape_ok h \<and> sched_ok h \<and> ring_ok (usb_env h)
     \<and> (\<forall>j < NX_NB_TXQ. txq_ok j (if j = i then (txq h ! j)\<lparr>status := 0\<rparr> else txq h ! j)) \<and> (\<forall>j < NX_NB_TXQ. bcmc_ok h j)"

definition put_back :: "tx_hw \<Rightarrow> nat \<Rightarrow> tx_skb list \<Rightarrow> tx_hw" where
  "put_back h i ks = txq_upd h i (\<lambda>t. t\<lparr>sk_list := ks @ sk_list t\<rparr>)"

lemma tx_butI:
  assumes "shape_ok h" and "sched_ok h" and "ring_ok (usb_env h)" and "txq_ok i ((txq h ! i)\<lparr>status := 0\<rparr>)"
    and "\<And>j. j < NX_NB_TXQ \<Longrightarrow> j \<noteq> i \<Longrightarrow> txq_ok j (txq h ! j)" and "\<And>j. j < NX_NB_TXQ \<Longrightarrow> bcmc_ok h j"
  shows "tx_but i h"
  using assms by (auto simp: tx_but_def)

lemma tx_butD:
  assumes "tx_but i h"
  shows "shape_ok h" "sched_ok h" "ring_ok (usb_env h)" "i < NX_NB_TXQ \<Longrightarrow> txq_ok i ((txq h ! i)\<lparr>status := 0\<rparr>)"
    "j < NX_NB_TXQ \<Longrightarrow> j \<noteq> i \<Longrightarrow> txq_ok j (txq h ! j)" "j < NX_NB_TXQ \<Longrightarrow> bcmc_ok h j" "length (txq h) = NX_NB_TXQ"
  using assms by (auto simp: tx_but_def shape_ok_def)

lemma tx_ok_but: "tx_ok h \<Longrightarrow> i < NX_NB_TXQ \<Longrightarrow> tx_but i h"
  by (rule tx_butI) (use tx_okD [of h] in \<open>auto simp: txq_ok_def txq_active_def scheduled_bit\<close>)

lemma tx_but_ok:
  assumes "tx_but i h" and "i < NX_NB_TXQ" and "txq_active (txq h ! i) \<Longrightarrow> rwnx_txq_is_scheduled (txq h ! i) \<Longrightarrow> sk_list (txq h ! i) \<noteq> []"
  shows "tx_ok h"
proof (rule tx_okI)
  show "txq_ok j (txq h ! j)" if "j < NX_NB_TXQ" for j
    using tx_butD(4,5) [OF assms(1)] that assms(2,3) by (cases "j = i") (auto simp: txq_ok_def txq_active_def)
qed (use tx_butD [OF assms(1)] in simp_all)

lemma put_back_txq:
  "i < length (txq h) \<Longrightarrow> txq (put_back h i ks) ! j = (if j = i then (txq h ! i)\<lparr>sk_list := ks @ sk_list (txq h ! i)\<rparr> else txq h ! j)"
  by (simp add: put_back_def txq_upd_def)

lemma put_back_sel [simp]:
  "length (txq (put_back h i ks)) = length (txq h)" "sta_table (put_back h i ks) = sta_table h" "hwqs (put_back h i ks) = hwqs h"
  "old_ic (put_back h i ks) = old_ic h" "usb_env (put_back h i ks) = usb_env h" "tx_log (put_back h i ks) = tx_log h"
  by (simp_all add: put_back_def)

lemma unat_push_limit: "unat (if p \<noteq> 0 then p - 1 else 0 :: u8) = unat p - 1"
  by (auto simp: unat_minus_one)

text \<open>One push: the buffer leaves the front of the queue, the counters follow.\<close>

lemma push_step:
  assumes "tx_but i (put_back h i (k # ks))" and "i < NX_NB_TXQ"
  shows "tx_but i (put_back (rwnx_tx_push h k) i ks)" (is "tx_but i ?h'")
    and "j < NX_NB_TXQ \<Longrightarrow> tx_flow (put_back (rwnx_tx_push h k) i ks) j = tx_flow (put_back h i (k # ks)) j"
    and "map sta_name (sta_table (rwnx_tx_push h k)) = map sta_name (sta_table h)"
    and "hwqs (rwnx_tx_push h k) = hwqs h" and "old_ic (rwnx_tx_push h k) = old_ic h"
proof -
  let ?h = "put_back h i (k # ks)"
  let ?t = "txq h ! i"
  note B = tx_butD [OF assms(1)]
  have i: "i < length (txq h)" using B(7) assms(2) by simp
  have tb: "txq ?h ! i = ?t\<lparr>sk_list := k # ks @ sk_list ?t\<rparr>" using i by (simp add: put_back_txq)
  have k: "sk_txq k = i" "sk_sta k = txq_sta ?t" using B(4) [OF assms(2)] by (simp_all add: tb txq_ok_def)
  have sel: "hwqs (rwnx_tx_push h k) = hwqs h" "old_ic (rwnx_tx_push h k) = old_ic h"
    and st: "sta_table (rwnx_tx_push h k) = (case sk_sta k of None \<Rightarrow> sta_table h
       | Some s \<Rightarrow> if ps_active (sta_table h ! s) then (sta_table h)[s := ps_count_push (ps_id ?t) (sta_table h ! s)] else sta_table h)"
    using tx_push_sel [of k h, unfolded k] i by (simp_all add: k)
  show "hwqs (rwnx_tx_push h k) = hwqs h" "old_ic (rwnx_tx_push h k) = old_ic h" by (fact sel)+
  show nm: "map sta_name (sta_table (rwnx_tx_push h k)) = map sta_name (sta_table h)"
    unfolding st
  proof (cases "sk_sta k")
    case (Some s)
    then show "map sta_name (case sk_sta k of None \<Rightarrow> sta_table h
       | Some s \<Rightarrow> if ps_active (sta_table h ! s) then (sta_table h)[s := ps_count_push (ps_id ?t) (sta_table h ! s)] else sta_table h)
      = map sta_name (sta_table h)"
      by (cases "s < length (sta_table h)") (simp_all add: map_update sta_name_def ps_count_push_def list_update_same_conv list_update_beyond)
  qed simp
  have t': "txq (rwnx_tx_push h k) = (txq h)[i := push_count (push_retry ?t)]" by (simp add: txq_tx_push k)
  have tx': "txq ?h' ! j = (if j = i then (push_count (push_retry ?t))\<lparr>sk_list := ks @ sk_list ?t\<rparr> else txq h ! j)" for j
    using i by (simp add: put_back_txq t')
  have hq: "hwq_id (hwqs h ! hwq ?t) < NX_TXQ_CNT"
  proof -
    have "hwq ?t < 5" "map hwq_id (hwqs h) = [0 ..< 5]" "length (hwqs h) = 5"
      using B(4) [OF assms(2)] B(1) by (simp_all add: tb txq_ok_def shape_ok_def)
    then have "hwq_id (hwqs h ! hwq ?t) = [0 ..< 5] ! hwq ?t" by (metis nth_map)
    then show ?thesis using \<open>hwq ?t < 5\<close> by simp
  qed
  have log: "ring_ok (usb_env (rwnx_tx_push h k))"
      "\<And>j. concat (map (done_id j) (tx_log (rwnx_tx_push h k))) = concat (map (done_id j) (tx_log h)) @ (if i = j then [sk_id k] else [])"
    using tx_push_log [of h k] B(3) assms(2) hq by (simp_all add: k)
  show "j < NX_NB_TXQ \<Longrightarrow> tx_flow ?h' j = tx_flow ?h j"
    using i by (auto simp: tx_flow_def log tx' put_back_txq)
  show "tx_but i ?h'"
  proof (rule tx_butI)
    show "shape_ok ?h'" by (rule shape_ok_sta [OF B(1)]) (simp_all add: sel nm)
    have "map rwnx_txq_is_scheduled (txq ?h') = map rwnx_txq_is_scheduled (txq ?h)"
      using i by (intro nth_equalityI) (auto simp: tx' put_back_txq scheduled_bit)
    then show "sched_ok ?h'" by (rule sched_ok_perm [OF B(2), rotated]) (simp add: all_scheduled_def sel)
    show "ring_ok (usb_env ?h')" by (simp add: log)
    show "txq_ok i ((txq ?h' ! i)\<lparr>status := 0\<rparr>)"
      using B(4) [OF assms(2)] unat_push_limit [of "push_limit ?t"]
      by (auto simp: tx' tb txq_ok_def txq_active_def push_count_def push_retry_def scheduled_bit)
    show "txq_ok j (txq ?h' ! j)" if "j < NX_NB_TXQ" "j \<noteq> i" for j
      using B(5) [OF that] that i by (simp add: tx' put_back_txq)
    have act: "txq_active (txq ?h ! i)" using B(4) [OF assms(2)] by (auto simp: tb txq_ok_def txq_active_def)
    have m: "is_multicast_sta ?h' = is_multicast_sta h" "nx_first_vif_txq_idx ?h' = nx_first_vif_txq_idx h"
        "is_multicast_sta ?h = is_multicast_sta h" "nx_first_vif_txq_idx ?h = nx_first_vif_txq_idx h"
      by (simp_all add: fun_eq_iff is_multicast_sta_def nx_remote_sta_max_def nx_first_vif_txq_idx_def sel)
    have len: "length (sta_table (rwnx_tx_push h k)) = length (sta_table h)" using nm by (metis length_map)
    have sn: "sta_table (rwnx_tx_push h k) ! s = (if sk_sta k = Some s \<and> s < length (sta_table h) \<and> ps_active (sta_table h ! s)
        then ps_count_push (ps_id ?t) (sta_table h ! s) else sta_table h ! s)" for s
      unfolding st by (auto simp: nth_list_update_cases split: option.splits)
    show "bcmc_ok ?h' j" if "j < NX_NB_TXQ" for j
      unfolding bcmc_ok_def m
    proof (intro allI impI, elim conjE)
      fix s assume s: "s < length (sta_table ?h')" "txq_active (txq ?h' ! j)" "txq_sta (txq ?h' ! j) = Some s"
        "is_multicast_sta h (sta_idx (sta_table ?h' ! s))"
      have a: "ps_active (sta_table (rwnx_tx_push h k) ! s) = ps_active (sta_table h ! s)"
          "vif_idx (sta_table (rwnx_tx_push h k) ! s) = vif_idx (sta_table h ! s)"
          "sta_idx (sta_table (rwnx_tx_push h k) ! s) = sta_idx (sta_table h ! s)"
        by (simp_all add: sn ps_count_push_def)
      have q: "s < length (sta_table ?h)" "txq_active (txq ?h ! j)" "txq_sta (txq ?h ! j) = Some s"
          "is_multicast_sta ?h (sta_idx (sta_table ?h ! s))"
        using s i by (auto simp: len a m tx' put_back_txq txq_active_def push_count_def push_retry_def split: if_splits)
      note b = bcmc_okD [OF B(6) [OF that] q]
      have u: "sk_sta k = Some s \<Longrightarrow> j = i"
        using bcmc_unique [OF B(6) [OF that] B(6) [OF assms(2)] q(1,4,2,3) act] by (simp add: tb k)
      have n: "j = nx_first_vif_txq_idx h + vif_idx (sta_table ?h' ! s)" using b(1) by (simp only: m a put_back_sel)
      have p: "ps_id (txq ?h' ! j) = LEGACY_PS_ID" using b(2) i by (cases "j = i") (simp_all add: tx' put_back_txq push_count_def)
      have r: "ps_active (sta_table h ! s) \<longrightarrow> pkt_ready (sta_table ?h' ! s) LEGACY_PS_ID = of_nat (length (sk_list (txq ?h' ! j)))
             \<and> pkt_ready (sta_table ?h' ! s) UAPSD_ID = 0"
      proof (cases "j = i")
        case True
        then have "sk_sta k = Some s" "ps_id ?t = LEGACY_PS_ID" using q(3) b(2) by (simp_all add: tb k)
        then show ?thesis using True b(3,4) q(1) by (simp add: tb tx' sn ps_count_push_def)
      next
        case False
        then have "sk_sta k \<noteq> Some s" using u by blast
        then show ?thesis using False b(3,4) i by (simp add: tx' sn put_back_txq)
      qed
      show "j = nx_first_vif_txq_idx h + vif_idx (sta_table ?h' ! s) \<and> ps_id (txq ?h' ! j) = LEGACY_PS_ID
          \<and> (ps_active (sta_table ?h' ! s) \<longrightarrow> pkt_ready (sta_table ?h' ! s) LEGACY_PS_ID = of_nat (length (sk_list (txq ?h' ! j)))
             \<and> pkt_ready (sta_table ?h' ! s) UAPSD_ID = 0)"
        using n p r by (simp only: put_back_sel a simp_thms)
    qed
  qed
qed

lemma push_all:
  assumes "tx_but i (put_back h i ks)" and "i < NX_NB_TXQ"
  defines "h' \<equiv> fold (\<lambda>k h. rwnx_tx_push h k) ks h"
  shows "tx_but i h' \<and> (\<forall>j < NX_NB_TXQ. tx_flow h' j = tx_flow (put_back h i ks) j)
    \<and> map sta_name (sta_table h') = map sta_name (sta_table h) \<and> hwqs h' = hwqs h \<and> old_ic h' = old_ic h"
  using assms(1) unfolding h'_def
proof (induction ks arbitrary: h)
  case Nil
  have "put_back h i [] = h" by (simp add: put_back_def txq_upd_def)
  then show ?case using Nil by simp
next
  case (Cons k ks)
  note p = push_step [OF Cons.prems assms(2)]
  show ?case using Cons.IH [OF p(1)] p(2-5) by simp
qed

lemma push_all_txq:
  assumes "list_all (\<lambda>k. sk_txq k = i) ks" and "i < length (txq h)"
  shows "sk_list (txq (fold (\<lambda>k h. rwnx_tx_push h k) ks h) ! i) = sk_list (txq h ! i)"
    "idx (txq (fold (\<lambda>k h. rwnx_tx_push h k) ks h) ! i) = idx (txq h ! i)"
    "status (txq (fold (\<lambda>k h. rwnx_tx_push h k) ks h) ! i) = status (txq h ! i)"
  using assms by (induction ks arbitrary: h) (simp_all add: txq_tx_push push_count_def push_retry_def)

section \<open>Processing\<close>

lemma tx_but_del:
  assumes "tx_but i h" and "i < NX_NB_TXQ"
  shows "tx_ok (rwnx_txq_del_from_hw_list h i)"
proof (cases "rwnx_txq_is_scheduled (txq h ! i)")
  case True
  let ?h = "rwnx_txq_del_from_hw_list h i"
  note B = tx_butD [OF assms(1)]
  have e: "txq ?h = (txq h)[i := (txq h ! i)\<lparr>status := status (txq h ! i) AND NOT RWNX_TXQ_IN_HWQ_LIST\<rparr>]"
    using txq_del [of h i] True by blast
  have v: "map txq_view (txq ?h) = map txq_view (txq h)"
    using assms(2) B(7) by (simp add: e map_update txq_view_def list_update_same_conv)
  have "shape_ok ?h" using B(1) by (simp add: shape_ok_def)
  moreover have "sched_ok ?h" using sched_ok_del [OF B(2)] B(7) assms(2) by simp
  moreover have "ring_ok (usb_env ?h)" using B(3) by simp
  moreover have "txq_ok j (txq ?h ! j)" if "j < NX_NB_TXQ" for j
    unfolding e using that B(7) B(4) [OF assms(2)] B(5) [OF that] by (cases "i = j") (auto simp: txq_ok_def txq_active_def scheduled_bit)
  moreover have "bcmc_ok ?h j" if "j < NX_NB_TXQ" for j
    by (rule bcmc_ok_cong [OF B(6) [OF that]]) (use that B(7) in \<open>simp_all add: v\<close>)
  ultimately show ?thesis by (rule tx_okI)
next
  case False
  then show ?thesis using tx_but_ok [OF assms] by (simp add: rwnx_txq_del_from_hw_list_def)
qed

lemma tx_keeps_pkt_sent: "tx_ok h \<Longrightarrow> tx_keeps h (txq_upd h i (\<lambda>t. t\<lparr>pkt_sent := x\<rparr>))"
  by (rule tx_keeps_txq_upd) (simp_all add: scheduled_bit txq_view_def txq_ok_def txq_active_def)

lemma tx_keeps_no_limit: "tx_ok h \<Longrightarrow> tx_keeps h (txq_upd h i (\<lambda>t. t\<lparr>push_limit := 0\<rparr>))"
  by (rule tx_keeps_txq_upd) (simp_all add: scheduled_bit txq_view_def txq_ok_def txq_active_def)

lemma mset_rotate_left [simp]: "mset (list_rotate_left xs) = mset xs"
  by (simp add: list_rotate_left_def split: list.splits)

lemma set_rotate_left [simp]: "set (list_rotate_left xs) = set xs"
  by (rule mset_eq_setD) simp

text \<open>The state between the pushes and the end of a round.\<close>

lemma after_push_ok:
  assumes "tx_but i h" and "i < NX_NB_TXQ" and "\<not> e \<Longrightarrow> sk_list (txq h ! i) \<noteq> []"
  shows "tx_ok (after_push h q i e)"
    "j < NX_NB_TXQ \<Longrightarrow> tx_flow (after_push h q i e) j = tx_flow h j" "old_ic (after_push h q i e) = old_ic h"
    "map sta_name (sta_table (after_push h q i e)) = map sta_name (sta_table h)"
proof -
  have len: "length (txq h) = NX_NB_TXQ" using tx_butD(7) [OF assms(1)] .
  have "tx_ok (after_push h q i e) \<and> (\<forall>j < NX_NB_TXQ. tx_flow (after_push h q i e) j = tx_flow h j) \<and> old_ic (after_push h q i e) = old_ic h
      \<and> map sta_name (sta_table (after_push h q i e)) = map sta_name (sta_table h)"
  proof (cases e)
    case True
    have ok: "tx_ok (rwnx_txq_del_from_hw_list h i)" using tx_but_del [OF assms(1,2)] .
    have "\<forall>j < NX_NB_TXQ. tx_flow (rwnx_txq_del_from_hw_list h i) j = tx_flow h j"
      using tx_flow_cong [OF _ sk_list_del] len by simp
    then show ?thesis using tx_keeps_pkt_sent [OF ok, of i 0] True by (simp add: after_push_def tx_keeps_def)
  next
    case False
    then have ok: "tx_ok h" using tx_but_ok [OF assms(1,2)] assms(3) by simp
    note k1 = tx_keeps_pkt_sent [OF ok, of i 0]
    have k2: "tx_keeps (txq_upd h i (\<lambda>t. t\<lparr>pkt_sent := 0\<rparr>))
        (hwq_upd (txq_upd h i (\<lambda>t. t\<lparr>pkt_sent := 0\<rparr>)) q (\<lambda>w. w\<lparr>sched_list := list_rotate_left (sched_list w)\<rparr>))"
      by (rule tx_keeps_hwq_upd [OF tx_keeps_ok [OF k1]]) simp_all
    show ?thesis using tx_keeps_trans [OF k1 k2] tx_keeps_refl [OF ok] False by (simp add: after_push_def tx_keeps_def)
  qed
  then show "tx_ok (after_push h q i e)" "j < NX_NB_TXQ \<Longrightarrow> tx_flow (after_push h q i e) j = tx_flow h j"
    "old_ic (after_push h q i e) = old_ic h" "map sta_name (sta_table (after_push h q i e)) = map sta_name (sta_table h)"
    by simp_all
qed

lemma tx_keeps_abort_sp:
  assumes "tx_ok h"
  shows "tx_keeps h (abort_sp h i)"
proof -
  have "tx_keeps h (txq_upd (sta_upd h s (\<lambda>st. st\<lparr>sp_cnt := f st\<rparr>)) i (\<lambda>t. t\<lparr>push_limit := 0\<rparr>))" for s f
  proof -
    have k: "tx_keeps h (sta_upd h s (\<lambda>st. st\<lparr>sp_cnt := f st\<rparr>))"
      using assms by (rule tx_keeps_sta_upd_view) (simp add: sta_view_def)
    show ?thesis using tx_keeps_trans [OF k tx_keeps_no_limit] tx_keeps_ok [OF k] by simp
  qed
  then show ?thesis using tx_keeps_refl [OF assms] by (simp add: abort_sp_def Let_def split: option.splits)
qed

lemma tx_keeps_restart_flow:
  assumes "tx_ok h"
  shows "tx_keeps h (restart_flow h i)"
proof -
  have k: "tx_keeps h (txq_upd h i (\<lambda>t. t\<lparr>status := status t AND NOT RWNX_TXQ_NDEV_FLOW_CTRL\<rparr>))"
    using assms by (rule tx_keeps_status) simp
  then show ?thesis
    using tx_keeps_trans [OF k tx_keeps_emit] tx_keeps_ok [OF k] tx_keeps_refl [OF assms]
    by (simp add: restart_flow_def Let_def)
qed

text \<open>A round on a scheduled queue runs into no \<open>BUG_ON\<close> and keeps the invariant.\<close>

lemma hwq_round_ok:
  assumes "tx_ok h" and "i \<in> set (sched_list (hwqs h ! q))" and "q < NX_TXQ_CNT"
  obtains h' where "hwq_round h q i = Inr h'" and "tx_keeps h h'"
proof -
  note D = tx_okD [OF assms(1)]
  have "i \<in> set (all_scheduled h)" using assms(2,3) D(2) nth_mem [of q "hwqs h"] by (auto simp: all_scheduled_def)
  then have i: "i < NX_NB_TXQ" and s: "rwnx_txq_is_scheduled (txq h ! i)" using D(1,3) by (auto simp: sched_ok_def)
  show thesis
  proof (cases "idx (txq h ! i) = TXQ_INACTIVE")
    case True
    let ?h1 = "rwnx_txq_del_from_hw_list h i"
    have k: "tx_keeps h ?h1" using assms(1) i by (rule tx_keeps_del)
    have "sk_list (txq h ! i) = []" using D(6) [OF i] True by (simp add: txq_ok_def txq_active_def)
    then have e: "sk_list (txq ?h1 ! i) = []" using sk_list_del [of h i] i D(1) by (metis length_map nth_map length_txq_del)
    then have "txq_upd ?h1 i (\<lambda>t. t\<lparr>sk_list := []\<rparr>) = ?h1"
    proof -
      have "(txq ?h1 ! i)\<lparr>sk_list := []\<rparr> = txq ?h1 ! i" using e by (cases "txq ?h1 ! i") simp
      then show ?thesis by (simp add: txq_upd_def)
    qed
    then have "rwnx_txq_flush ?h1 i = ?h1" by (simp add: rwnx_txq_flush_def e tx_emit_def)
    then show thesis using that k True i s D(1) by (simp add: hwq_round_def)
  next
    case False
    then have t: "txq_active (txq h ! i)" by (simp add: txq_active_def)
    have c: "0 < sint (credits (txq h ! i))" "sk_list (txq h ! i) \<noteq> []" "list_all (\<lambda>k. sk_txq k = i) (sk_list (txq h ! i))"
      using D(6) [OF i] t s by (auto simp: txq_ok_def list_all_iff)
    obtain push rest e where g: "rwnx_txq_get_skb_to_push (txq h ! i) = (push, rest, e)"
      by (cases "rwnx_txq_get_skb_to_push (txq h ! i)") auto
    have sp: "sk_list (txq h ! i) = push @ rest" using get_skb_to_push_split [OF g c(1,2)] by simp
    have "\<not> int n \<le> z \<Longrightarrow> n \<noteq> 0 \<Longrightarrow> \<not> n \<le> nat z" for n z by arith
    then have ne: "\<not> e \<Longrightarrow> rest \<noteq> []"
      using g c(2) by (auto simp: rwnx_txq_get_skb_to_push_def Let_def split: if_splits)
    let ?h0 = "txq_upd h i (\<lambda>t. t\<lparr>sk_list := rest\<rparr>)"
    let ?h1 = "fold (\<lambda>k h. rwnx_tx_push h k) push ?h0"
    have "put_back ?h0 i push = h"
    proof -
      have "(txq h ! i)\<lparr>sk_list := push @ rest\<rparr> = txq h ! i" using sp by (cases "txq h ! i") simp
      then show ?thesis using i D(1) by (simp add: put_back_def txq_upd_def)
    qed
    then have p: "tx_but i ?h1 \<and> (\<forall>j < NX_NB_TXQ. tx_flow ?h1 j = tx_flow h j) \<and> map sta_name (sta_table ?h1) = map sta_name (sta_table h)
        \<and> old_ic ?h1 = old_ic h"
      using push_all [of i ?h0 push] tx_ok_but [OF assms(1) i] i by simp
    have r: "sk_list (txq ?h1 ! i) = rest" using push_all_txq [of i push ?h0] c(3) sp i D(1) by simp
    have k: "tx_keeps h (after_push ?h1 q i e)"
      using after_push_ok [where i = i and h = ?h1 and e = e and q = q] p r ne i by (simp add: tx_keeps_def)
    note k1 = tx_keeps_abort_sp [OF tx_keeps_ok [OF k], of i]
    note k2 = tx_keeps_restart_flow [OF tx_keeps_ok [OF k1], of i]
    have "tx_keeps h (restart_flow (abort_sp (after_push ?h1 q i e) i) i)"
      using tx_keeps_trans [OF k tx_keeps_trans [OF k1 k2]] .
    then show thesis using that False i s c(1,2) g D(1) by (simp add: hwq_round_def rwnx_txq_skb_ready_def)
  qed
qed

lemma hwqs_tx_push [simp]: "hwqs (rwnx_tx_push h k) = hwqs h"
  by (cases "sk_sta k") (auto simp: rwnx_tx_push_def Let_def dest: more_data_sel(1) split: prod.splits)

lemma hwqs_pushes [simp]: "hwqs (fold (\<lambda>k h. rwnx_tx_push h k) ks h) = hwqs h"
  by (induction ks arbitrary: h) simp_all

lemma hwqs_del_sched: "q < length (hwqs h) \<Longrightarrow> set (sched_list (hwqs h ! q)) - {i} \<subseteq> set (sched_list (hwqs (rwnx_txq_del_from_hw_list h i) ! q))"
  by (auto simp: rwnx_txq_del_from_hw_list_def sched_del_def)

lemma hwqs_abort_restart [simp]: "hwqs (abort_sp h i) = hwqs h" "hwqs (restart_flow h i) = hwqs h"
  by (simp_all add: abort_sp_def restart_flow_def Let_def split: option.splits)

lemma hwqs_flush [simp]: "hwqs (rwnx_txq_flush h i) = hwqs h"
  by (simp add: rwnx_txq_flush_def)

lemma hwqs_after_push:
  "q < length (hwqs h) \<Longrightarrow> set (sched_list (hwqs h ! q)) - {i} \<subseteq> set (sched_list (hwqs (after_push h q i e) ! q))"
  using hwqs_del_sched [of q h i]
  by (auto simp: after_push_def hwq_upd_def)

text \<open>A round takes no other queue off the list.\<close>

lemma hwq_round_sched:
  assumes "hwq_round h q i = Inr h'" and "q < length (hwqs h)"
  shows "set (sched_list (hwqs h ! q)) - {i} \<subseteq> set (sched_list (hwqs h' ! q))"
  using assms hwqs_del_sched [of q h i]
    hwqs_after_push [of q "fold (\<lambda>k h. rwnx_tx_push h k) (fst (rwnx_txq_get_skb_to_push (txq h ! i)))
       (txq_upd h i (\<lambda>t. t\<lparr>sk_list := fst (snd (rwnx_txq_get_skb_to_push (txq h ! i)))\<rparr>))" i "snd (snd (rwnx_txq_get_skb_to_push (txq h ! i)))"]
  by (auto simp: hwq_round_def Let_def split: if_splits prod.splits)

lemma list_next_in: "list_next xs i = Some j \<Longrightarrow> distinct xs \<Longrightarrow> j \<in> set xs \<and> j \<noteq> i"
proof (induction xs)
  case (Cons x xs)
  then show ?case by (cases xs) (auto simp: list_next_def split: if_splits)
qed (simp add: list_next_def)

lemma hwq_loop_ok:
  assumes "tx_ok h" and "q < NX_TXQ_CNT" and "\<And>i. c = Some i \<Longrightarrow> i \<in> set (sched_list (hwqs h ! q))"
  shows "\<exists>h'. hwq_loop h q c = Inr h' \<and> tx_keeps h h'"
  using assms
proof (induction h q c rule: hwq_loop.induct)
  case (1 h q)
  then show ?case by (simp add: tx_keeps_refl)
next
  case (2 h q i)
  note D = tx_okD [OF 2(2)]
  obtain h1 where r: "hwq_round h q i = Inr h1" and k: "tx_keeps h h1"
    using hwq_round_ok [OF 2(2) 2(4) 2(3)] by blast
  have "distinct (sched_list (hwqs h ! q))"
    using D(2,3) 2(3) by (auto simp: sched_ok_def all_scheduled_def distinct_concat_iff)
  then have "j \<in> set (sched_list (hwqs h1 ! q))" if "list_next (sched_list (hwqs h ! q)) i = Some j" for j
    using hwq_round_sched [OF r] list_next_in [OF that] D(2) 2(3) by auto
  then obtain h' where "hwq_loop h1 q (list_next (sched_list (hwqs h ! q)) i) = Inr h'" "tx_keeps h1 h'"
    using 2(1) [OF r tx_keeps_ok [OF k] 2(3)] by blast
  then show ?case using r tx_keeps_trans [OF k] by auto
qed

lemma hwq_process_ok:
  assumes "tx_ok h" and "q < NX_TXQ_CNT"
  shows "\<exists>h'. rwnx_hwq_process h q = Inr h' \<and> tx_keeps h h'"
proof -
  let ?h = "hwq_upd h q (\<lambda>w. w\<lparr>need_processing := False\<rparr>)"
  have k: "tx_keeps h ?h" using assms(1) by (rule tx_keeps_hwq_upd) simp_all
  have "sched_list (hwqs ?h ! q) = sched_list (hwqs h ! q)" using assms tx_okD(2) by (simp add: hwq_upd_def)
  then have "i \<in> set (sched_list (hwqs ?h ! q))" if "list_first (sched_list (hwqs h ! q)) = Some i" for i
    using that by (auto simp: list_first_def split: list.splits)
  then obtain h' where "hwq_loop ?h q (list_first (sched_list (hwqs h ! q))) = Inr h'" "tx_keeps ?h h'"
    using hwq_loop_ok [OF tx_keeps_ok [OF k] assms(2)] by blast
  then show ?thesis using tx_keeps_trans [OF k] by (auto simp: rwnx_hwq_process_def)
qed

lemma hwq_process_ids_ok:
  "tx_ok h \<Longrightarrow> list_all (\<lambda>q. q < NX_TXQ_CNT) qs \<Longrightarrow> \<exists>h'. hwq_process_ids qs h = Inr h' \<and> tx_keeps h h'"
proof (induction qs arbitrary: h)
  case (Cons q qs)
  obtain h1 where h1: "rwnx_hwq_process h q = Inr h1" "tx_keeps h h1" using hwq_process_ok Cons.prems by force
  obtain h2 where "hwq_process_ids qs h1 = Inr h2" "tx_keeps h1 h2" using Cons.IH [OF tx_keeps_ok [OF h1(2)]] Cons.prems by auto
  moreover obtain h3 where "hwq_process_ids qs h = Inr h3" "tx_keeps h h3" using Cons by auto
  ultimately show ?case using h1 tx_keeps_trans by auto
qed (simp add: tx_keeps_refl)

lemma hwq_process_all_ok:
  assumes "tx_ok h"
  shows "\<exists>h'. rwnx_hwq_process_all h = Inr h' \<and> tx_keeps h h'"
  unfolding rwnx_hwq_process_all_def
  by (rule hwq_process_ids_ok [OF assms]) (simp add: list_all_iff tx_okD(2) [OF assms])

lemma xmit_skb_ok:
  assumes "tx_ok h" and "sk_txq k < NX_NB_TXQ" and "txq_active (txq h ! sk_txq k)" and "sk_sta k = txq_sta (txq h ! sk_txq k)"
  shows "\<exists>h'. xmit_skb h k = Inr h' \<and> tx_ok h' \<and> (\<forall>j < NX_NB_TXQ. tx_flow h' j = tx_flow h j @ (if j = sk_txq k then [sk_id k] else []))
    \<and> old_ic h' = old_ic h \<and> map sta_name (sta_table h') = map sta_name (sta_table h)"
proof -
  obtain b h1 where q: "rwnx_txq_queue_skb h k (sk_txq k) False = (b, h1)" by fastforce
  note o = queue_skb_ok [OF assms(1-3) refl assms(4) q]
  have "hwq (txq h1 ! sk_txq k) < NX_TXQ_CNT" using o tx_okD(2,8) [OF assms(1)] assms(2) by simp
  then obtain h2 where "rwnx_hwq_process h1 (hwq (txq h1 ! sk_txq k)) = Inr h2" "tx_keeps h1 h2"
    using hwq_process_ok o by blast
  then show ?thesis using q o by (cases b) (auto simp: xmit_skb_def tx_keeps_def)
qed

end
