(* ===== verification/TxPower.thy ===== *)
theory TxPower
  imports TxFlow
begin

text \<open>
  Confirmations and power save on the transmit queues: the invariant is kept by the confirmation of a buffer
  that need not be retried, by entering and leaving power save and by a service period; how a service period
  is divided among the queues of a station.
\<close>

section \<open>Confirmations\<close>

lemma tx_keeps_same:
  assumes "tx_ok h" and "txq h' = txq h" and "hwqs h' = hwqs h" and "sta_table h' = sta_table h" and "old_ic h' = old_ic h"
    and "tx_log h' = tx_log h" and "ring_ok (usb_env h')"
  shows "tx_keeps h h'"
  by (rule tx_keepsI [OF assms(1) tx_ok_same [OF assms(1-5,7)]]) (simp_all add: assms)

lemma tx_keeps_confirm_any:
  assumes "tx_ok h"
  shows "tx_keeps h (rwnx_txq_confirm_any h i q)"
proof -
  let ?h1 = "txq_upd h i (\<lambda>t. t\<lparr>pkt_pushed := if pkt_pushed t \<noteq> 0 then pkt_pushed t - 1 else 0\<rparr>)"
  let ?h2 = "hwq_upd ?h1 q (\<lambda>w. w\<lparr>need_processing := True\<rparr>)"
  have k1: "tx_keeps h ?h1"
    using assms by (rule tx_keeps_txq_upd) (simp_all add: scheduled_bit txq_view_def txq_ok_def txq_active_def)
  have k2: "tx_keeps ?h1 ?h2" using tx_keeps_ok [OF k1] by (rule tx_keeps_hwq_upd) simp_all
  have "tx_keeps ?h2 (rwnx_txq_confirm_any h i q)"
    unfolding rwnx_txq_confirm_any_def Let_def
    by (rule tx_keeps_same [OF tx_keeps_ok [OF k2]]) (use tx_okD(4) [OF assms] in simp_all)
  then show ?thesis using tx_keeps_trans [OF k1 tx_keeps_trans [OF k2]] by blast
qed

lemma tx_keeps_emit1: "tx_ok h \<Longrightarrow> \<forall>i. done_id i e = [] \<Longrightarrow> tx_keeps h (tx_emit [e] h)"
  by (rule tx_keeps_emit) simp_all

lemma tx_keeps_txdatacfm:
  assumes "tx_ok h" and "sk_txq k < NX_NB_TXQ" and "\<not> bit st 1" and "\<not> bit st 2"
  shows "tx_keeps h (rwnx_txdatacfm h k st)"
proof (cases "usb_down h")
  case True
  then show ?thesis using assms(1) by (simp add: rwnx_txdatacfm_def tx_keeps_emit1)
next
  case False
  let ?i = "sk_txq k"
  define h1 where "h1 = rwnx_txq_confirm_any h ?i (sk_hw_queue k)"
  define h2 where "h2 = (if sk_flags k AND TXU_CNTRL_MGMT \<noteq> 0 then tx_emit [MgmtStatus (sk_id k) (bit st 3)] h1 else h1)"
  have k1: "tx_keeps h h1" unfolding h1_def using assms(1) by (rule tx_keeps_confirm_any)
  have k2: "tx_keeps h1 h2" unfolding h2_def using tx_keeps_ok [OF k1] by (simp add: tx_keeps_refl tx_keeps_emit1)
  define h3 where "h3 = (if idx (txq h2 ! ?i) \<noteq> TXQ_INACTIVE \<and> push_limit (txq h2 ! ?i) \<noteq> 0 \<and> \<not> rwnx_txq_is_full (txq h2 ! ?i)
                         then rwnx_txq_add_to_hw_list h2 ?i else h2)"
  have n: "unat (push_limit (txq h2 ! ?i)) \<noteq> 0 \<Longrightarrow> txq_active (txq h2 ! ?i) \<Longrightarrow> sk_list (txq h2 ! ?i) \<noteq> []"
    using tx_okD(6) [OF tx_keeps_ok [OF k2] assms(2)] by (auto simp: txq_ok_def)
  have k3: "tx_keeps h2 h3"
    unfolding h3_def using tx_keeps_ok [OF k2] n assms(2) by (auto simp: tx_keeps_refl unat_eq_zero intro!: tx_keeps_add)
  have "rwnx_txdatacfm h k st = tx_emit [ConsumeSkb (sk_id k)] h3"
    using False assms(3,4) unfolding rwnx_txdatacfm_def Let_def h1_def [symmetric] h2_def [symmetric] h3_def [symmetric] by simp
  moreover have "tx_keeps h3 (tx_emit [ConsumeSkb (sk_id k)] h3)" using tx_keeps_ok [OF k3] by (rule tx_keeps_emit1) simp
  ultimately show ?thesis using tx_keeps_trans [OF k1 tx_keeps_trans [OF k2 tx_keeps_trans [OF k3]]] by simp
qed

lemma tx_keeps_cfm_handler:
  assumes "tx_ok h" and "\<not> bit st 1" and "\<not> bit st 2"
  shows "tx_keeps h (aicwf_usb_host_tx_cfm_handler h st used)"
proof -
  let ?j = "unat used mod USB_TXDESC_CNT"
  let ?h1 = "h\<lparr>usb_env := (usb_env h)\<lparr>tx_host_id := (tx_host_id (usb_env h))[?j := None]\<rparr>\<rparr>"
  have r: "ring_ok (usb_env h)" using tx_okD(4) [OF assms(1)] .
  have k: "tx_keeps h ?h1"
    using assms(1) by (rule tx_keeps_same) (use r in \<open>auto simp: ring_ok_def list_all_length nth_list_update\<close>)
  have "?j < USB_TXDESC_CNT" by simp
  then have n: "case tx_host_id (usb_env h) ! ?j of None \<Rightarrow> True | Some x \<Rightarrow> sk_txq x < NX_NB_TXQ \<and> sk_hw_queue x < NX_TXQ_CNT"
    using r unfolding ring_ok_def list_all_length by simp
  have "sk_txq x < NX_NB_TXQ" if "tx_host_id (usb_env h) ! ?j = Some x" for x
    using n unfolding that by simp
  then have "tx_keeps ?h1 (rwnx_txdatacfm ?h1 x st)" if "tx_host_id (usb_env h) ! ?j = Some x" for x
    by (rule tx_keeps_txdatacfm [OF tx_keeps_ok [OF k] _ assms(2,3)]) (rule that)
  then show ?thesis
    using k tx_keeps_trans [OF k] by (auto simp: aicwf_usb_host_tx_cfm_handler_def Let_def split: option.splits)
qed

lemma tx_keeps_credit_update:
  assumes "tx_ok h" and "s < length (sta_table h)"
  shows "tx_keeps h (rwnx_txq_credit_update h s td)"
  using assms sta_get_bound [OF assms] by (simp add: rwnx_txq_credit_update_def Let_def tx_keeps_start tx_keeps_stop tx_keeps_refl)

lemma tx_keeps_switch_vif:
  assumes "tx_ok h"
  shows "tx_keeps h (rwnx_txq_sta_switch_vif h s v)"
  unfolding rwnx_txq_sta_switch_vif_def
proof (rule tx_keeps_fold [OF _ assms])
  fix i h' assume ok: "tx_ok h'"
  have k: "tx_keeps h' (txq_upd h' i (\<lambda>t. t\<lparr>ndev := vif_index v\<rparr>))"
    using ok by (rule tx_keeps_txq_upd) (simp_all add: scheduled_bit txq_view_def txq_ok_def txq_active_def)
  have "tx_keeps (txq_upd h' i (\<lambda>t. t\<lparr>ndev := vif_index v\<rparr>))
      (tx_emit [NetifWake (vif_index v) (ndev_idx (txq h' ! i))] (txq_upd h' i (\<lambda>t. t\<lparr>ndev := vif_index v\<rparr>)))"
    using tx_keeps_ok [OF k] by (rule tx_keeps_emit1) simp
  then show "tx_keeps h' (tx_emit [NetifWake (vif_index v) (ndev_idx (txq h' ! i))] (txq_upd h' i (\<lambda>t. t\<lparr>ndev := vif_index v\<rparr>)))"
    by (rule tx_keeps_trans [OF k])
qed

section \<open>Entering and leaving power save\<close>

lemma sta_upd_commute:
  "txq_upd (sta_upd h s g) i f = sta_upd (txq_upd h i f) s g"
  "rwnx_txq_del_from_hw_list (sta_upd h s g) i = sta_upd (rwnx_txq_del_from_hw_list h i) s g"
  by (simp_all add: txq_upd_def sta_upd_def rwnx_txq_del_from_hw_list_def)

lemma stop_sta_upd: "rwnx_txq_stop (sta_upd h s g) i r = sta_upd (rwnx_txq_stop h i r) s g"
  by (simp add: rwnx_txq_stop_def sta_upd_commute)

lemma fold_stop_sta_upd:
  "fold (\<lambda>i h. rwnx_txq_stop h i r) xs (sta_upd h s g) = sta_upd (fold (\<lambda>i h. rwnx_txq_stop h i r) xs h) s g"
  by (induction xs arbitrary: h) (simp_all add: stop_sta_upd)

lemma sk_list_stop: "map sk_list (txq (rwnx_txq_stop h i r)) = map sk_list (txq h)"
  by (simp add: rwnx_txq_stop_def sk_list_del sk_list_txq_upd)

lemma sk_list_stops: "map sk_list (txq (fold (\<lambda>i h. rwnx_txq_stop h i r) xs h)) = map sk_list (txq h)"
  by (induction xs arbitrary: h) (simp_all add: sk_list_stop)

lemma sta_upd_twice: "sta_upd (sta_upd h s f) s g = sta_upd h s (\<lambda>st. g (f st))"
  by (cases "s < length (sta_table h)") (simp_all add: sta_upd_def list_update_beyond)

lemma sta_txqs_cong: "old_ic h' = old_ic h \<Longrightarrow> map sta_name (sta_table h') = map sta_name (sta_table h) \<Longrightarrow> s < length (sta_table h)
    \<Longrightarrow> sta_txqs h' s = sta_txqs h s \<and> rwnx_txq_sta_get h' s t = rwnx_txq_sta_get h s t
        \<and> is_multicast_sta h' (sta_idx (sta_table h' ! s)) = is_multicast_sta h (sta_idx (sta_table h ! s))"
proof -
  assume o: "old_ic h' = old_ic h" and n: "map sta_name (sta_table h') = map sta_name (sta_table h)" and s: "s < length (sta_table h)"
  have "length (sta_table h') = length (sta_table h)" using n by (metis length_map)
  then have "sta_name (sta_table h' ! s) = sta_name (sta_table h ! s)" using n s by (metis nth_map)
  then show ?thesis
    using o by (simp add: sta_txqs_def Let_def rwnx_txq_sta_get_def rwnx_txq_sta_idx_def sta_name_def is_multicast_sta_def
        nx_remote_sta_max_def nx_first_vif_txq_idx_def)
qed

lemma tx_keeps_ps_enable:
  assumes "tx_ok h" and "s < length (sta_table h)"
  shows "tx_keeps h (ps_enable h s)"
proof -
  note D = tx_okD [OF assms(1)]
  define g1 :: "tx_sta \<Rightarrow> tx_sta" where "g1 = (\<lambda>st. st\<lparr>ps_active := True, sp_cnt := (sp_cnt st)(LEGACY_PS_ID := 0, UAPSD_ID := 0)\<rparr>)"
  let ?h1 = "sta_upd h s g1"
  let ?h2 = "rwnx_txq_sta_stop ?h1 s RWNX_TXQ_STOP_STA_PS"
  let ?mc = "is_multicast_sta h (sta_idx (sta_table h ! s))"
  define a where "a = (if ?mc then of_nat (length (sk_list (txq ?h2 ! rwnx_txq_sta_get h s 0))) else sum_ready ?h2 (sta_txqs ?h2 s) LEGACY_PS_ID)"
  define b where "b = (if ?mc then 0 else sum_ready ?h2 (sta_txqs ?h2 s) UAPSD_ID)"
  define g2 :: "tx_sta \<Rightarrow> tx_sta" where "g2 = (\<lambda>st. st\<lparr>pkt_ready := (pkt_ready st)(LEGACY_PS_ID := a, UAPSD_ID := b)\<rparr>)"
  let ?g = "\<lambda>st. g2 (g1 st)"
  have gg: "?g st = st\<lparr>ps_active := True, sp_cnt := (sp_cnt st)(LEGACY_PS_ID := 0, UAPSD_ID := 0),
      pkt_ready := (pkt_ready st)(LEGACY_PS_ID := a, UAPSD_ID := b)\<rparr>" for st
    by (simp add: g1_def g2_def)
  have sn: "map sta_name (sta_table (sta_upd h s ?g)) = map sta_name (sta_table h)" "map sta_name (sta_table ?h1) = map sta_name (sta_table h)"
    by (rule sta_name_upd; simp add: sta_name_def g1_def g2_def)+
  have tq: "sta_txqs ?h1 s = sta_txqs h s" "sta_txqs (sta_upd h s ?g) s = sta_txqs h s"
    using sta_txqs_cong [OF _ sn(2) assms(2)] sta_txqs_cong [OF _ sn(1) assms(2)] by simp_all
  have "ps_enable h s = sta_upd ?h2 s g2"
    unfolding ps_enable_def Let_def g1_def [symmetric] g2_def a_def b_def by (cases ?mc) simp_all
  then have e: "ps_enable h s = rwnx_txq_sta_stop (sta_upd h s ?g) s RWNX_TXQ_STOP_STA_PS"
    by (simp only: rwnx_txq_sta_stop_def tq fold_stop_sta_upd sta_upd_twice)
  have len: "length (sk_list (txq ?h2 ! j)) = length (sk_list (txq h ! j))" if "j < NX_NB_TXQ" for j
  proof -
    have m: "map sk_list (txq ?h2) = map sk_list (txq h)" by (simp add: rwnx_txq_sta_stop_def sk_list_stops)
    then have "length (txq ?h2) = length (txq h)" by (metis length_map)
    then have "sk_list (txq ?h2 ! j) = sk_list (txq h ! j)" using m that D(1) by (metis nth_map)
    then show ?thesis by simp
  qed
  have k: "tx_keeps h (sta_upd h s ?g)"
  proof (rule tx_keeps_sta_upd [OF assms(1)])
    show "sta_name (?g st) = sta_name st" for st by (simp add: sta_name_def gg)
    show "bcmc_ok (sta_upd h s ?g) i" if i: "i < NX_NB_TXQ" for i
    proof -
      have "i = nx_first_vif_txq_idx h + vif_idx (sta_table h ! x) \<and> ps_id (txq h ! i) = LEGACY_PS_ID
          \<and> (ps_active (sta_table (sta_upd h s ?g) ! x) \<longrightarrow> pkt_ready (sta_table (sta_upd h s ?g) ! x) LEGACY_PS_ID = of_nat (length (sk_list (txq h ! i)))
             \<and> pkt_ready (sta_table (sta_upd h s ?g) ! x) UAPSD_ID = 0)"
        if x: "x < length (sta_table h)" "txq_active (txq h ! i)" "txq_sta (txq h ! i) = Some x" "is_multicast_sta h (sta_idx (sta_table h ! x))" for x
      proof (cases "x = s")
        case True
        note b' = bcmc_okD [OF D(7) [OF i] x]
        have "rwnx_txq_sta_get h s 0 = i" using b'(1) x(4) True by (simp add: rwnx_txq_sta_get_def rwnx_txq_sta_idx_def)
        then have "a = of_nat (length (sk_list (txq h ! i))) \<and> b = 0" using x(4) True len [OF i] by (simp add: a_def b_def)
        then show ?thesis using b'(1,2) True assms(2) by (simp only: sta_upd_nth gg) simp
      next
        case False
        note b' = bcmc_okD [OF D(7) [OF i] x]
        show ?thesis using b' False by (simp only: sta_upd_nth) simp
      qed
      moreover have "sta_idx (sta_table (sta_upd h s ?g) ! x) = sta_idx (sta_table h ! x)" "vif_idx (sta_table (sta_upd h s ?g) ! x) = vif_idx (sta_table h ! x)" for x
        by (simp_all add: sta_upd_nth gg)
      moreover have "is_multicast_sta (sta_upd h s ?g) = is_multicast_sta h" "nx_first_vif_txq_idx (sta_upd h s ?g) = nx_first_vif_txq_idx h"
        by (simp_all add: fun_eq_iff is_multicast_sta_def nx_remote_sta_max_def nx_first_vif_txq_idx_def)
      ultimately show ?thesis unfolding bcmc_ok_def by (simp only: sta_upd_sel) blast
    qed
  qed
  have "tx_keeps (sta_upd h s ?g) (rwnx_txq_sta_stop (sta_upd h s ?g) s RWNX_TXQ_STOP_STA_PS)"
    using tx_keeps_ok [OF k] assms(2) by (intro tx_keeps_sta_stop) simp_all
  then show ?thesis unfolding e by (rule tx_keeps_trans [OF k])
qed


lemma tx_keeps_ps_disable:
  assumes "tx_ok h" and "s < length (sta_table h)"
  shows "tx_keeps h (ps_disable h s)"
proof -
  note D = tx_okD [OF assms(1)]
  define h1 where "h1 = sta_upd h s (\<lambda>st. st\<lparr>ps_active := False\<rparr>)"
  have k1: "tx_keeps h h1"
    unfolding h1_def
  proof (rule tx_keeps_sta_upd [OF assms(1)])
    show "bcmc_ok (sta_upd h s (\<lambda>st. st\<lparr>ps_active := False\<rparr>)) i" if "i < NX_NB_TXQ" for i
    proof -
      let ?h = "sta_upd h s (\<lambda>st. st\<lparr>ps_active := False\<rparr>)"
      have m: "is_multicast_sta ?h = is_multicast_sta h" "nx_first_vif_txq_idx ?h = nx_first_vif_txq_idx h"
        by (simp_all add: fun_eq_iff is_multicast_sta_def nx_remote_sta_max_def nx_first_vif_txq_idx_def)
      have v: "sta_idx (sta_table ?h ! x) = sta_idx (sta_table h ! x)" "vif_idx (sta_table ?h ! x) = vif_idx (sta_table h ! x)"
          "ps_active (sta_table ?h ! x) \<Longrightarrow> ps_active (sta_table h ! x)" "pkt_ready (sta_table ?h ! x) = pkt_ready (sta_table h ! x)" for x
        by (auto simp: sta_upd_nth split: if_splits)
      show ?thesis using D(7) [OF that] v(3) unfolding bcmc_ok_def m v(1,2,4) sta_upd_sel by blast
    qed
  qed (simp add: sta_name_def)
  define h2 where "h2 = (if is_multicast_sta h (sta_idx (sta_table h ! s))
                then txq_upd h1 (rwnx_txq_sta_get h s 0) (\<lambda>t. t\<lparr>hwq := RWNX_HWQ_BE, push_limit := 0\<rparr>)
                else fold (\<lambda>i h. txq_upd h i (\<lambda>t. t\<lparr>push_limit := 0\<rparr>)) (sta_txqs h s) h1)"
  have "tx_keeps h1 (txq_upd h1 i (\<lambda>t. t\<lparr>hwq := RWNX_HWQ_BE, push_limit := 0\<rparr>))" for i
    using tx_keeps_ok [OF k1] by (rule tx_keeps_txq_upd) (simp_all add: scheduled_bit txq_view_def txq_ok_def txq_active_def)
  moreover have "tx_keeps h1 (fold (\<lambda>i h. txq_upd h i (\<lambda>t. t\<lparr>push_limit := 0\<rparr>)) xs h1)" for xs
    by (rule tx_keeps_fold [OF tx_keeps_no_limit tx_keeps_ok [OF k1]])
  ultimately have k2: "tx_keeps h1 h2" by (simp add: h2_def)
  define h3 where "h3 = rwnx_txq_sta_start h2 s RWNX_TXQ_STOP_STA_PS"
  have k3: "tx_keeps h2 h3"
    unfolding h3_def using tx_keeps_ok [OF k2] assms(2) tx_keeps_length [OF k2] tx_keeps_length [OF k1]
    by (intro tx_keeps_sta_start) simp_all
  define h4 where "h4 = (if pkt_ready (sta_table h3 ! s) LEGACY_PS_ID \<noteq> 0 then rwnx_set_traffic_status h3 s False LEGACY_PS_ID else h3)"
  have k4: "tx_keeps h3 h4"
    unfolding h4_def using tx_keeps_ok [OF k3] by (simp add: tx_keeps_refl rwnx_set_traffic_status_def Let_def tx_keeps_emit1)
  have "tx_keeps h4 (tx_emit [TaskSchedule] h4)" using tx_keeps_ok [OF k4] by (rule tx_keeps_emit1) simp
  moreover have "ps_disable h s = tx_emit [TaskSchedule] h4"
    unfolding ps_disable_def Let_def h1_def [symmetric] h2_def [symmetric] h3_def [symmetric] h4_def [symmetric] ..
  ultimately show ?thesis
    using tx_keeps_trans [OF k1 tx_keeps_trans [OF k2 tx_keeps_trans [OF k3 tx_keeps_trans [OF k4]]]] by simp
qed

section \<open>Service periods\<close>

lemma of_int_u8: "0 \<le> n \<Longrightarrow> n < 256 \<Longrightarrow> unat (of_int n :: u8) = nat n"
  by (simp add: unat_eq_nat_uint uint_word_of_int_eq take_bit_int_eq_self)

lemma of_int_u16: "0 \<le> n \<Longrightarrow> n < 65536 \<Longrightarrow> uint (of_int n :: u16) = n"
  by (simp add: uint_word_of_int_eq take_bit_int_eq_self)

lemma credits_bound: "sint (c :: u8) < 128"
  using sint_less [of c] by simp

text \<open>Granting at most as many pushes as buffers wait.\<close>

lemma tx_keeps_limit:
  assumes "tx_ok h" and "i < NX_NB_TXQ" and "0 \<le> n" and "n < 256" and "txq_active (txq h ! i) \<Longrightarrow> n \<le> int (length (sk_list (txq h ! i)))"
  shows "tx_keeps h (txq_upd h i (\<lambda>t. t\<lparr>push_limit := of_int n\<rparr>))" (is "tx_keeps h (txq_upd h i ?f)")
proof (rule tx_keepsI [OF assms(1)])
  show "tx_ok (txq_upd h i ?f)"
  proof (rule tx_ok_txq_upd [OF assms(1)])
    show "txq_ok i (?f (txq h ! i))"
      using tx_okD(6) [OF assms(1,2)] assms(5) of_int_u8 [OF assms(3,4)] by (auto simp: txq_ok_def txq_active_def scheduled_bit)
    show "bcmc_ok (txq_upd h i ?f) i"
      using tx_okD(1,7) [OF assms(1)] assms(2) by (intro bcmc_ok_txq_upd_view) (simp_all add: txq_view_def)
  qed (simp add: scheduled_bit)
qed (simp_all add: sk_list_txq_upd)

lemma tx_keeps_grant:
  assumes "tx_ok h" and "i < NX_NB_TXQ" and "0 \<le> n" and "n < 256"
    and "txq_active (txq h ! i) \<Longrightarrow> 0 < n \<and> n \<le> int (length (sk_list (txq h ! i)))"
  shows "tx_keeps h (rwnx_txq_add_to_hw_list (sta_upd (txq_upd h i (\<lambda>t. t\<lparr>push_limit := of_int n\<rparr>)) s (\<lambda>st. st\<lparr>sp_cnt := f st\<rparr>)) i)"
proof -
  let ?h1 = "txq_upd h i (\<lambda>t. t\<lparr>push_limit := of_int n\<rparr>)"
  let ?h2 = "sta_upd ?h1 s (\<lambda>st. st\<lparr>sp_cnt := f st\<rparr>)"
  have k1: "tx_keeps h ?h1" using assms by (intro tx_keeps_limit) simp_all
  have k2: "tx_keeps ?h1 ?h2" using tx_keeps_ok [OF k1] by (rule tx_keeps_sta_upd_view) (simp add: sta_view_def)
  have "tx_keeps ?h2 (rwnx_txq_add_to_hw_list ?h2 i)"
    by (rule tx_keeps_add [OF tx_keeps_ok [OF k2] assms(2)])
       (use assms tx_okD(1) [OF assms(1)] in \<open>auto simp: txq_active_def\<close>)
  then show ?thesis using tx_keeps_trans [OF k1 tx_keeps_trans [OF k2]] by blast
qed

text \<open>What a queue can give in a service period: its buffers (counted in 16 bits), at most its credits.\<close>

lemma sp_avail_eq:
  assumes "0 < sint (credits t)"
  shows "sp_avail t = min (int (length (sk_list t) mod 65536)) (sint (credits t))"
proof -
  have "uint (of_int (sint (credits t)) :: u16) = sint (credits t)"
    using assms credits_bound [of "credits t"] of_int_u16 [of "sint (credits t)"] by simp
  moreover have "uint (of_nat (length (sk_list t)) :: u16) = int (length (sk_list t) mod 65536)"
    by (simp add: unsigned_of_nat take_bit_eq_mod)
  ultimately show ?thesis by (simp add: sp_avail_def Let_def min_def)
qed

lemma sp_avail_bounds:
  assumes "txq_ok i t" and "sp_avail t \<noteq> 0"
  shows "0 < sp_avail t" "sp_avail t < 128" "sp_avail t \<le> int (length (sk_list t))" "txq_active t"
proof -
  show a: "txq_active t"
  proof (rule ccontr)
    assume "\<not> txq_active t"
    then have "sk_list t = []" "0 \<le> sint (credits t)" using assms(1) by (simp_all add: txq_ok_def)
    then show False using assms(2) by (simp add: sp_avail_def)
  qed
  then have c: "0 < sint (credits t)" using assms(1) by (simp add: txq_ok_def)
  have m: "length (sk_list t) mod 65536 \<le> length (sk_list t)" by simp
  show "0 < sp_avail t" "sp_avail t < 128" "sp_avail t \<le> int (length (sk_list t))"
    using assms(2) credits_bound [of "credits t"] c m unfolding sp_avail_eq [OF c] by (auto simp: min_def)
qed


lemma sta_get_sp_grant [simp]:
  "rwnx_txq_sta_get (sp_grant h s pid i n) s' t = rwnx_txq_sta_get h s' t"
  "length (sta_table (sp_grant h s pid i n)) = length (sta_table h)"
  by (simp_all add: sp_grant_def rwnx_txq_sta_get_def rwnx_txq_sta_idx_def is_multicast_sta_def nx_remote_sta_max_def
      nx_first_vif_txq_idx_def sta_upd_nth)

lemma tx_keeps_sp_grant:
  assumes "tx_ok h" and "i < NX_NB_TXQ" and "0 < n" and "n \<le> sp_avail (txq h ! i)"
  shows "tx_keeps h (sp_grant h s pid i n)"
  unfolding sp_grant_def
  by (rule tx_keeps_grant [OF assms(1,2)])
     (use assms sp_avail_bounds [OF tx_okD(6) [OF assms(1,2)]] in \<open>auto simp: order_trans\<close>)

lemma tx_keeps_dispatch:
  assumes "tx_ok h" and "s < length (sta_table h)" and "0 < req"
  shows "tx_keeps h (sp_dispatch s pid req tds h)"
  using assms
proof (induction tds arbitrary: h req)
  case (Cons td tds)
  let ?i = "rwnx_txq_sta_get h s td"
  let ?n = "sp_avail (txq h ! ?i)"
  have i: "?i < NX_NB_TXQ" using sta_get_bound [OF Cons.prems(1,2)] .
  have p: "?n \<noteq> 0 \<Longrightarrow> 0 < ?n" using sp_avail_bounds(1) [OF tx_okD(6) [OF Cons.prems(1) i]] .
  consider "ps_id (txq h ! ?i) \<noteq> pid \<or> ?n = 0" | "ps_id (txq h ! ?i) = pid" "?n \<noteq> 0" "?n < req" | "ps_id (txq h ! ?i) = pid" "?n \<noteq> 0" "req \<le> ?n"
    by linarith
  then show ?case
  proof cases
    case 1
    then show ?thesis using Cons.IH [OF Cons.prems] by (auto simp: Let_def)
  next
    case c: 2
    have k: "tx_keeps h (sp_grant h s pid ?i ?n)" using tx_keeps_sp_grant [OF Cons.prems(1) i] p [OF c(2)] by simp
    have "tx_keeps (sp_grant h s pid ?i ?n) (sp_dispatch s pid (req - ?n) tds (sp_grant h s pid ?i ?n))"
      using c(3) tx_keeps_ok [OF k] Cons.prems(2) by (intro Cons.IH) simp_all
    then show ?thesis using tx_keeps_trans [OF k] c by (simp add: Let_def)
  next
    case 3
    then show ?thesis using tx_keeps_sp_grant [OF Cons.prems(1) i Cons.prems(3)] by (simp add: Let_def)
  qed
qed (simp add: tx_keeps_refl)

text \<open>A traffic request for the broadcast queue needs the queue to belong to the station.\<close>

definition owns_bcmc :: "tx_hw \<Rightarrow> nat \<Rightarrow> bool" where
  "owns_bcmc h s \<longleftrightarrow>
     (is_multicast_sta h (sta_idx (sta_table h ! s)) \<and> txq_active (txq h ! rwnx_txq_sta_get h s 0) \<longrightarrow>
        txq_sta (txq h ! rwnx_txq_sta_get h s 0) = Some s)"

lemma tx_keeps_traffic_req:
  assumes "tx_ok h" and "s < length (sta_table h)" and "owns_bcmc h s" and "pid \<le> UAPSD_ID"
  shows "tx_keeps h (rwnx_ps_bh_traffic_req h s pkt_req pid)"
proof -
  note D = tx_okD [OF assms(1)]
  let ?st = "sta_table h ! s"
  let ?all = "uint (pkt_ready ?st pid) - uint (sp_cnt ?st pid)"
  let ?req = "if pkt_req = 0 \<or> uint pkt_req > ?all then ?all else uint pkt_req"
  define h1 where "h1 = sta_upd h s (\<lambda>st. st\<lparr>sp_cnt := (sp_cnt st)(pid := 0)\<rparr>)"
  have k1: "tx_keeps h h1" unfolding h1_def using assms(1) by (rule tx_keeps_sta_upd_view) (simp add: sta_view_def)
  have k0: "tx_keeps h1 (fold (\<lambda>i h. txq_upd h i (\<lambda>t. t\<lparr>push_limit := 0\<rparr>)) xs h1)" for xs
    by (rule tx_keeps_fold [OF tx_keeps_no_limit tx_keeps_ok [OF k1]])
  let ?go = "\<not> (sp_cnt ?st pid \<noteq> 0 \<or> ?all \<le> 0)"
  have rq: "0 < ?req \<and> ?req \<le> ?all" if ?go
  proof -
    have a: "0 < ?all" using that by linarith
    have u: "0 < uint pkt_req" if "pkt_req \<noteq> 0" using that word_gt_0 [of pkt_req] by (simp add: word_less_def)
    show ?thesis
    proof (cases "pkt_req = 0 \<or> uint pkt_req > ?all")
      case True
      show ?thesis unfolding if_P [OF True] using a by (rule conjI) (rule order_refl)
    next
      case False
      show ?thesis unfolding if_not_P [OF False] using False u by linarith
    qed
  qed
  let ?i = "rwnx_txq_sta_get h s 0"
  let ?cr = "sint (credits (txq h ! ?i))"
  let ?req' = "if ?req > ?cr then uint (of_int ?cr :: u16) else ?req"
  have i: "?i < NX_NB_TXQ" using sta_get_bound [OF assms(1,2)] .
  have mc: "tx_keeps h1 (rwnx_txq_add_to_hw_list (sta_upd (txq_upd h1 ?i (\<lambda>t. t\<lparr>push_limit := of_int ?req'\<rparr>)) s (\<lambda>st. st\<lparr>sp_cnt := f st\<rparr>)) ?i)"
    if go: ?go and m: "is_multicast_sta h (sta_idx ?st)" and act: "ps_active ?st" for f
  proof (rule tx_keeps_grant [OF tx_keeps_ok [OF k1] i])
    have cr: "uint (of_int ?cr :: u16) = ?cr" "0 \<le> ?cr" "?cr < 128"
      using D(6) [OF i] credits_bound [of "credits (txq h ! ?i)"] of_int_u16 [of ?cr] by (auto simp: txq_ok_def)
    then show "0 \<le> ?req'" "?req' < 256" using rq [OF go] by auto
    show "0 < ?req' \<and> ?req' \<le> int (length (sk_list (txq h1 ! ?i)))" if "txq_active (txq h1 ! ?i)"
    proof -
      have a: "txq_active (txq h ! ?i)" using that by (simp add: h1_def)
      then have o: "txq_sta (txq h ! ?i) = Some s" and c: "0 < ?cr" using assms(3) m D(6) [OF i] by (auto simp: owns_bcmc_def txq_ok_def)
      note b = bcmc_okD [OF D(7) [OF i] assms(2) a o m]
      have "pid = LEGACY_PS_ID" using assms(4) go b(4) [OF act] by (cases pid) auto
      then have "uint (pkt_ready ?st pid) = int (length (sk_list (txq h ! ?i)) mod 65536)"
        using b(3) [OF act] by (simp add: unsigned_of_nat take_bit_eq_mod)
      then have "?all \<le> int (length (sk_list (txq h ! ?i)))"
        using uint_ge_0 [of "sp_cnt ?st pid"] mod_less_eq_dividend [of "length (sk_list (txq h ! ?i))" 65536] by linarith
      then show ?thesis using rq [OF go] cr c by (auto simp: h1_def)
    qed
  qed
  have dp: "tx_keeps h1 (sp_dispatch s pid ?req nx_tid_prio h1)" if ?go
    by (rule tx_keeps_dispatch [OF tx_keeps_ok [OF k1]]) (use rq [OF that] assms(2) in \<open>simp_all add: h1_def\<close>)
  have em: "tx_keeps h (tx_emit [TaskSchedule] h')" if "tx_keeps h1 h'" for h'
    using tx_keeps_trans [OF k1 tx_keeps_trans [OF that tx_keeps_emit1 [OF tx_keeps_ok [OF that]]]] by simp
  show ?thesis
    using tx_keeps_refl [OF assms(1)] tx_keeps_trans [OF k1 k0] em [OF mc] em [OF dp]
    unfolding rwnx_ps_bh_traffic_req_def Let_def h1_def [symmetric] by (simp split: if_splits)
qed

end
