(* ===== verification/TxSystem.thy ===== *)
theory TxSystem
  imports TxPower
begin

text \<open>
  The transmit queues as a system: every entry point of the driver that works on them is an operation, an
  operation is called when its caller's checks hold, and the buffers handed in are recorded per queue.
\<close>

section \<open>Operations\<close>

datatype tx_op =
    StaSetup nat tx_sta
  | StaInit nat u8
  | StaDeinit nat
  | VifInit tx_vif u8
  | VifDeinit tx_vif
  | UnkInit tx_vif
  | UnkDeinit tx_vif
  | OffchanInit tx_vif
  | OffchanDeinit
  | OffchanStart
  | StaStart nat u16
  | StaStop nat u16
  | TdlsStart tx_vif u16
  | TdlsStop tx_vif u16
  | VifStart tx_vif u16
  | VifStop tx_vif u16
  | SwitchVif nat tx_vif
  | Xmit tx_skb
  | ProcessAll
  | Confirm u32 u32
  | CreditUpdate nat nat
  | PsChange nat bool
  | TrafficReq nat u16 nat
  | SetBusy bool
  | SetDown bool

fun tx_do :: "tx_op \<Rightarrow> tx_hw \<Rightarrow> fault + tx_hw" where
  "tx_do (StaSetup s st) h = Inr (h\<lparr>sta_table := (sta_table h)[s := st]\<rparr>)"
| "tx_do (StaInit s st) h = Inr (rwnx_txq_sta_init h s st)"
| "tx_do (StaDeinit s) h = Inr (rwnx_txq_sta_deinit h s)"
| "tx_do (VifInit v st) h = Inr (rwnx_txq_vif_init h v st)"
| "tx_do (VifDeinit v) h = Inr (rwnx_txq_vif_deinit h v)"
| "tx_do (UnkInit v) h = Inr (rwnx_txq_unk_vif_init h v)"
| "tx_do (UnkDeinit v) h = Inr (rwnx_txq_unk_vif_deinit h v)"
| "tx_do (OffchanInit v) h = Inr (rwnx_txq_offchan_init h v)"
| "tx_do OffchanDeinit h = Inr (rwnx_txq_offchan_deinit h)"
| "tx_do OffchanStart h = Inr (rwnx_txq_offchan_start h)"
| "tx_do (StaStart s r) h = Inr (rwnx_txq_sta_start h s r)"
| "tx_do (StaStop s r) h = Inr (rwnx_txq_sta_stop h s r)"
| "tx_do (TdlsStart v r) h = Inr (rwnx_txq_tdls_sta_start h v r)"
| "tx_do (TdlsStop v r) h = Inr (rwnx_txq_tdls_sta_stop h v r)"
| "tx_do (VifStart v r) h = rwnx_txq_vif_start h v r"
| "tx_do (VifStop v r) h = rwnx_txq_vif_stop h v r"
| "tx_do (SwitchVif s v) h = Inr (rwnx_txq_sta_switch_vif h s v)"
| "tx_do (Xmit k) h = xmit_skb h k"
| "tx_do ProcessAll h = rwnx_hwq_process_all h"
| "tx_do (Confirm st used) h = Inr (aicwf_usb_host_tx_cfm_handler h st used)"
| "tx_do (CreditUpdate s td) h = Inr (rwnx_txq_credit_update h s td)"
| "tx_do (PsChange s on) h = Inr (rwnx_ps_bh_enable h s on)"
| "tx_do (TrafficReq s n pid) h = Inr (rwnx_ps_bh_traffic_req h s n pid)"
| "tx_do (SetBusy b) h = Inr (h\<lparr>tbusy := b\<rparr>)"
| "tx_do (SetDown b) h = Inr (h\<lparr>usb_down := b\<rparr>)"

definition vif_type_ok :: "tx_vif \<Rightarrow> bool" where
  "vif_type_ok v \<longleftrightarrow>
     iftype v \<in> {IFTYPE_STATION, IFTYPE_P2P_CLIENT, IFTYPE_AP, IFTYPE_AP_VLAN, IFTYPE_MESH_POINT, IFTYPE_P2P_GO, IFTYPE_MONITOR}
     \<and> (tdls_link_active v \<longrightarrow> tdls_sta v \<noteq> None)"

text \<open>
  When the driver calls an operation: stations and interfaces exist, a queue is initialised only while it is
  free, a station entry is filled only while no queue refers to it, reasons are the stop flags, a buffer is
  queued for its own queue while that is active, and the firmware asks for no retry. The runs of this
  theory are those made of such calls. The last condition is a restriction of what is proved, not of the
  driver: \<open>rwnx_tx_retry\<close> puts a buffer before the waiting ones and adds a credit; what that does to
  the order and to the credits is proved in the theory \<open>TxSpec\<close> (\<open>tx_retry_order\<close>, \<open>tx_retry_credit_overflow\<close>).
\<close>

fun tx_can :: "tx_op \<Rightarrow> tx_hw \<Rightarrow> bool" where
  "tx_can (StaSetup s st) h \<longleftrightarrow> vif_idx st < NX_VIRT_DEV_MAX \<and> \<not> ps_active st
     \<and> list_all (\<lambda>t. txq_active t \<longrightarrow> txq_sta t \<noteq> Some s) (txq h)"
| "tx_can (StaInit s st) h \<longleftrightarrow> s < length (sta_table h) \<and> \<not> is_multicast_sta h (sta_idx (sta_table h ! s)) \<and> \<not> bit st 0
     \<and> list_all (txq_free h) (sta_txqs h s)"
| "tx_can (StaDeinit s) h \<longleftrightarrow> s < length (sta_table h)"
| "tx_can (VifInit v st) h \<longleftrightarrow> list_all (txq_free h) (vif_own_txqs h v) \<and> \<not> bit st 0 \<and> bcmc_index v < length (sta_table h)
     \<and> vif_idx (sta_table h ! bcmc_index v) = master_vif_idx v \<and> \<not> ps_active (sta_table h ! bcmc_index v)"
| "tx_can (VifDeinit v) h \<longleftrightarrow> vif_ok h v"
| "tx_can (UnkInit v) h \<longleftrightarrow> txq_free h (rwnx_txq_vif_get h v NX_UNK_TXQ_TYPE)"
| "tx_can (UnkDeinit v) h \<longleftrightarrow> vif_ok h v"
| "tx_can (OffchanInit v) h \<longleftrightarrow> txq_free h (nx_off_chan_txq_idx h)"
| "tx_can OffchanDeinit h \<longleftrightarrow> True"
| "tx_can OffchanStart h \<longleftrightarrow> True"
| "tx_can (StaStart s r) h \<longleftrightarrow> s < length (sta_table h) \<and> \<not> bit r 0"
| "tx_can (StaStop s r) h \<longleftrightarrow> s < length (sta_table h) \<and> \<not> bit r 0"
| "tx_can (TdlsStart v r) h \<longleftrightarrow> vif_ok h v \<and> \<not> bit r 0"
| "tx_can (TdlsStop v r) h \<longleftrightarrow> vif_ok h v \<and> \<not> bit r 0"
| "tx_can (VifStart v r) h \<longleftrightarrow> vif_ok h v \<and> vif_type_ok v \<and> \<not> bit r 0"
| "tx_can (VifStop v r) h \<longleftrightarrow> vif_ok h v \<and> vif_type_ok v \<and> \<not> bit r 0"
| "tx_can (SwitchVif s v) h \<longleftrightarrow> True"
| "tx_can (Xmit k) h \<longleftrightarrow> sk_txq k < NX_NB_TXQ \<and> txq_active (txq h ! sk_txq k) \<and> sk_sta k = txq_sta (txq h ! sk_txq k)"
| "tx_can ProcessAll h \<longleftrightarrow> True"
| "tx_can (Confirm st used) h \<longleftrightarrow> \<not> bit st 1 \<and> \<not> bit st 2"
| "tx_can (CreditUpdate s td) h \<longleftrightarrow> s < length (sta_table h)"
| "tx_can (PsChange s on) h \<longleftrightarrow> s < length (sta_table h)"
| "tx_can (TrafficReq s n pid) h \<longleftrightarrow> s < length (sta_table h) \<and> owns_bcmc h s \<and> pid \<le> UAPSD_ID"
| "tx_can (SetBusy b) h \<longleftrightarrow> True"
| "tx_can (SetDown b) h \<longleftrightarrow> True"

fun op_buf :: "tx_op \<Rightarrow> nat \<Rightarrow> nat list" where
  "op_buf (Xmit k) i = (if sk_txq k = i then [sk_id k] else [])"
| "op_buf _ i = []"

section \<open>Every operation succeeds and keeps the invariant\<close>

definition tx_good :: "tx_op \<Rightarrow> tx_hw \<Rightarrow> tx_hw \<Rightarrow> bool" where
  "tx_good a h h' \<longleftrightarrow> tx_ok h' \<and> (\<forall>i < NX_NB_TXQ. tx_flow h' i = tx_flow h i @ op_buf a i)"

lemma tx_keeps_good: "tx_keeps h h' \<Longrightarrow> \<forall>i. op_buf a i = [] \<Longrightarrow> tx_good a h h'"
  by (simp add: tx_keeps_def tx_good_def)

lemma sta_setup_ok:
  assumes "tx_ok h" and "tx_can (StaSetup s st) h"
  shows "tx_good (StaSetup s st) h (h\<lparr>sta_table := (sta_table h)[s := st]\<rparr>)"
proof -
  note D = tx_okD [OF assms(1)]
  let ?h = "h\<lparr>sta_table := (sta_table h)[s := st]\<rparr>"
  have m: "is_multicast_sta ?h = is_multicast_sta h" "nx_first_vif_txq_idx ?h = nx_first_vif_txq_idx h"
    by (simp_all add: fun_eq_iff is_multicast_sta_def nx_remote_sta_max_def nx_first_vif_txq_idx_def)
  have "tx_ok ?h"
  proof (rule tx_okI)
    show "shape_ok ?h" using D(5) assms(2) by (auto simp: shape_ok_def list_all_length nth_list_update_cases)
    show "sched_ok ?h" using D(3) by (simp add: sched_ok_def all_scheduled_def)
    show "bcmc_ok ?h i" if i: "i < NX_NB_TXQ" for i
    proof -
      have "txq_active (txq h ! i) \<Longrightarrow> txq_sta (txq h ! i) \<noteq> Some s" using assms(2) i D(1) by (simp add: list_all_length)
      then show ?thesis using D(7) [OF i] unfolding bcmc_ok_def m by (auto simp: nth_list_update)
    qed
  qed (use D in simp_all)
  then show ?thesis by (simp add: tx_good_def tx_flow_def)
qed

lemma deinits_ok: "tx_ok h \<Longrightarrow> list_all (\<lambda>i. i < NX_NB_TXQ) xs \<Longrightarrow> tx_keeps h (fold (\<lambda>i h. rwnx_txq_deinit h i) xs h)"
  by (rule tx_keeps_fold) (auto simp: list_all_iff tx_keeps_deinit)

lemma vif_start_runs: "vif_type_ok v \<Longrightarrow> \<exists>h'. rwnx_txq_vif_start h v r = Inr h'"
  by (auto simp: rwnx_txq_vif_start_def vif_type_ok_def vif_stas_def Let_def split: sum.splits option.splits)

lemma vif_stop_runs: "vif_type_ok v \<Longrightarrow> \<exists>h'. rwnx_txq_vif_stop h v r = Inr h'"
  by (auto simp: rwnx_txq_vif_stop_def vif_type_ok_def vif_stas_def split: sum.splits option.splits)

lemma tdls_ok:
  assumes "tx_ok h" and "vif_ok h v" and "\<not> bit r 0"
  shows "tx_keeps h (rwnx_txq_tdls_sta_start h v r)" "tx_keeps h (rwnx_txq_tdls_sta_stop h v r)"
  using assms by (auto simp: rwnx_txq_tdls_sta_start_def rwnx_txq_tdls_sta_stop_def vif_ok_def tx_keeps_refl tx_keeps_sta_start
      tx_keeps_sta_stop split: option.splits)

lemma tx_do_good:
  assumes "tx_ok h" and "tx_can a h"
  shows "\<exists>h'. tx_do a h = Inr h' \<and> tx_good a h h'"
proof (cases a)
  case (StaSetup s st)
  then show ?thesis using sta_setup_ok [OF assms(1)] assms(2) by auto
next
  case (StaInit s st)
  then show ?thesis using assms by (auto simp: list_all_iff intro!: tx_keeps_good tx_keeps_sta_init)
next
  case (StaDeinit s)
  then show ?thesis
    using assms by (auto simp: rwnx_txq_sta_deinit_def list_all_iff sta_txqs_bound intro!: tx_keeps_good deinits_ok)
next
  case (VifInit v st)
  then show ?thesis using assms by (auto simp: vif_own_txqs_def intro!: tx_keeps_good tx_keeps_vif_init)
next
  case (VifDeinit v)
  then show ?thesis
    using assms by (auto simp: rwnx_txq_vif_deinit_def list_all_iff vif_own_bound intro!: tx_keeps_good deinits_ok)
next
  case (UnkInit v)
  then show ?thesis using assms by (auto simp: rwnx_txq_unk_vif_init_def intro!: tx_keeps_good tx_keeps_init_None)
next
  case (UnkDeinit v)
  then show ?thesis using assms vif_get_bound
    by (auto simp: rwnx_txq_unk_vif_deinit_def vif_ok_def intro!: tx_keeps_good tx_keeps_deinit)
next
  case (OffchanInit v)
  then show ?thesis using assms by (auto simp: rwnx_txq_offchan_init_def intro!: tx_keeps_good tx_keeps_init_None)
next
  case OffchanDeinit
  then show ?thesis using assms off_chan_bound by (auto simp: rwnx_txq_offchan_deinit_def intro!: tx_keeps_good tx_keeps_deinit)
next
  case OffchanStart
  then show ?thesis using assms off_chan_bound by (auto simp: rwnx_txq_offchan_start_def intro!: tx_keeps_good tx_keeps_start)
next
  case (VifStart v r)
  then show ?thesis using assms vif_start_runs [of v h r] tx_keeps_vif_start by (fastforce intro!: tx_keeps_good)
next
  case (VifStop v r)
  then show ?thesis using assms vif_stop_runs [of v h r] tx_keeps_vif_stop by (fastforce intro!: tx_keeps_good)
next
  case (Xmit k)
  then show ?thesis using assms xmit_skb_ok [of h k] by (fastforce simp: tx_good_def)
next
  case ProcessAll
  then show ?thesis using assms hwq_process_all_ok by (fastforce intro!: tx_keeps_good)
next
  case (PsChange s on)
  then show ?thesis
    using assms by (auto simp: rwnx_ps_bh_enable_def tx_keeps_ps_enable tx_keeps_ps_disable intro!: tx_keeps_good)
next
  case (SetBusy b)
  then show ?thesis using assms tx_okD(4) [OF assms(1)] by (auto intro!: tx_keeps_good tx_keeps_same)
next
  case (SetDown b)
  then show ?thesis using assms tx_okD(4) [OF assms(1)] by (auto intro!: tx_keeps_good tx_keeps_same)
qed (use assms in \<open>auto intro!: tx_keeps_good simp: tx_keeps_sta_start tx_keeps_sta_stop tdls_ok tx_keeps_switch_vif tx_keeps_cfm_handler
      tx_keeps_credit_update tx_keeps_traffic_req\<close>)

section \<open>Runs\<close>

type_synonym tx_state = "tx_hw \<times> (nat \<Rightarrow> nat list)"

inductive tx_step :: "tx_state \<Rightarrow> tx_state \<Rightarrow> bool" where
  op: "tx_can a h \<Longrightarrow> tx_do a h = Inr h' \<Longrightarrow> tx_step (h, g) (h', \<lambda>i. g i @ op_buf a i)"

inductive_cases tx_stepE: "tx_step (h, g) s'"

definition tx_init :: "tx_state \<Rightarrow> bool" where
  "tx_init x \<longleftrightarrow> (\<exists>chipid chip_id ss. list_all (\<lambda>st. vif_idx st < NX_VIRT_DEV_MAX) ss
     \<and> x = (tx_hw_init chipid chip_id ss, \<lambda>i. []))"

definition tx_inv :: "tx_state \<Rightarrow> bool" where
  "tx_inv x \<longleftrightarrow> tx_ok (fst x) \<and> (\<forall>i < NX_NB_TXQ. snd x i = tx_flow (fst x) i)"

lemma hwq_init_eq: "map sched_list rwnx_hwq_init = [[], [], [], [], []]" "map hwq_id rwnx_hwq_init = [0 ..< 5]" "length rwnx_hwq_init = 5"
  by code_simp+

lemma tx_init_ok:
  assumes "list_all (\<lambda>st. vif_idx st < NX_VIRT_DEV_MAX) ss"
  shows "tx_ok (tx_hw_init c r ss)"
proof (rule tx_okI)
  show "shape_ok (tx_hw_init c r ss)" using assms by (simp add: shape_ok_def tx_hw_init_def hwq_init_eq)
  show "sched_ok (tx_hw_init c r ss)"
    by (auto simp: sched_ok_def all_scheduled_def tx_hw_init_def hwq_init_eq scheduled_bit)
  show "ring_ok (usb_env (tx_hw_init c r ss))" by (simp add: ring_ok_def tx_hw_init_def list_all_length)
  show "txq_ok i (txq (tx_hw_init c r ss) ! i)" if "i < NX_NB_TXQ" for i
    using that by (simp add: tx_hw_init_def txq_ok_def txq_active_def)
  show "bcmc_ok (tx_hw_init c r ss) i" if "i < NX_NB_TXQ" for i
    using that by (simp add: tx_hw_init_def bcmc_ok_def txq_active_def)
qed

interpretation tx_queues: transition_system tx_init tx_step tx_inv
proof unfold_locales
  fix x assume "tx_init x"
  then show "tx_inv x" by (auto simp: tx_init_def tx_inv_def tx_init_ok) (simp add: tx_flow_def tx_hw_init_def)
next
  fix x y assume i: "tx_inv x" and s: "tx_step x y"
  from s show "tx_inv y"
  proof cases
    case (op a h h' g)
    then have "tx_good a h h'" using tx_do_good [of h a] i by (auto simp: tx_inv_def)
    then show ?thesis using i op by (simp add: tx_inv_def tx_good_def)
  qed
qed

section \<open>No starvation\<close>

lemma sk_list_push: "map sk_list (txq (rwnx_tx_push h k)) = map sk_list (txq h)"
  by (cases "sk_txq k < length (txq h)") (simp_all add: txq_tx_push map_update list_update_same_conv list_update_beyond)

lemma sk_list_pushes: "map sk_list (txq (fold (\<lambda>k h. rwnx_tx_push h k) ks h)) = map sk_list (txq h)"
  by (induction ks arbitrary: h) (simp_all add: sk_list_push)

lemma sk_list_after: "map sk_list (txq (after_push h q i e)) = map sk_list (txq h)"
  by (simp add: after_push_def sk_list_txq_upd sk_list_del)

lemma sk_list_abort: "map sk_list (txq (abort_sp h i)) = map sk_list (txq h)"
  by (simp add: abort_sp_def Let_def sk_list_txq_upd split: option.splits)

lemma sk_list_restart: "map sk_list (txq (restart_flow h i)) = map sk_list (txq h)"
  by (simp add: restart_flow_def Let_def sk_list_txq_upd)

text \<open>A round shortens the queue it is about, if that is active, and leaves the buffers of the others.\<close>

lemma hwq_round_sk_list:
  assumes "hwq_round h q i = Inr h'"
  obtains rest where "map sk_list (txq h') = (map sk_list (txq h))[i := rest]" and "length rest \<le> length (sk_list (txq h ! i))"
    and "txq_active (txq h ! i) \<Longrightarrow> length rest < length (sk_list (txq h ! i))"
proof -
  have i: "i < length (txq h)" using assms by (auto simp: hwq_round_def split: if_splits)
  show thesis
  proof (cases "idx (txq h ! i) = TXQ_INACTIVE")
    case True
    have "map sk_list (txq (rwnx_txq_flush (rwnx_txq_del_from_hw_list h i) i)) = (map sk_list (txq h))[i := []]"
      by (simp add: rwnx_txq_flush_def txq_upd_def map_update sk_list_del)
    moreover have "h' = rwnx_txq_flush (rwnx_txq_del_from_hw_list h i) i"
      using assms True by (auto simp: hwq_round_def Let_def split: if_splits)
    ultimately show thesis using that [of "[]"] True by (simp add: txq_active_def)
  next
    case False
    obtain push rest e where g: "rwnx_txq_get_skb_to_push (txq h ! i) = (push, rest, e)"
      by (cases "rwnx_txq_get_skb_to_push (txq h ! i)") auto
    have c: "0 < sint (credits (txq h ! i))" "sk_list (txq h ! i) \<noteq> []"
      using assms False by (auto simp: hwq_round_def Let_def rwnx_txq_skb_ready_def split: if_splits)
    have "map sk_list (txq h') = (map sk_list (txq h))[i := rest]"
      using assms False g
      by (auto simp: hwq_round_def Let_def sk_list_restart sk_list_abort sk_list_after sk_list_pushes txq_upd_def map_update split: if_splits)
    then show thesis using that [of rest] get_skb_to_push_split [OF g c] by (cases push) auto
  qed
qed

lemma idx_txq_upd: "(\<And>t. idx (f t) = idx t) \<Longrightarrow> map idx (txq (txq_upd h i f)) = map idx (txq h)"
  by (cases "i < length (txq h)") (simp_all add: txq_upd_def map_update list_update_same_conv list_update_beyond)

lemma idx_pushes: "map idx (txq (fold (\<lambda>k h. rwnx_tx_push h k) ks h)) = map idx (txq h)"
proof (induction ks arbitrary: h)
  case (Cons k ks)
  have "map idx (txq (rwnx_tx_push h k)) = map idx (txq h)"
    by (cases "sk_txq k < length (txq h)")
       (simp_all add: txq_tx_push map_update push_count_def push_retry_def list_update_same_conv list_update_beyond)
  then show ?case using Cons by simp
qed simp

lemma idx_del: "map idx (txq (rwnx_txq_del_from_hw_list h i)) = map idx (txq h)"
  by (simp add: rwnx_txq_del_from_hw_list_def idx_txq_upd)

lemma idx_tail:
  "map idx (txq (after_push h q i e)) = map idx (txq h)" "map idx (txq (abort_sp h i)) = map idx (txq h)"
  "map idx (txq (restart_flow h i)) = map idx (txq h)" "map idx (txq (rwnx_txq_flush h i)) = map idx (txq h)"
  by (simp_all add: after_push_def abort_sp_def restart_flow_def rwnx_txq_flush_def Let_def idx_txq_upd idx_del split: option.splits)

lemma hwq_round_idx: "hwq_round h q i = Inr h' \<Longrightarrow> map idx (txq h') = map idx (txq h)"
  by (auto simp: hwq_round_def Let_def idx_tail idx_pushes idx_del idx_txq_upd split: if_splits prod.splits)

text \<open>What a round does to the list it runs over.\<close>

lemma del_list: "q < length (hwqs h) \<Longrightarrow> sched_list (hwqs (rwnx_txq_del_from_hw_list h i) ! q) \<in> {sched_list (hwqs h ! q), removeAll i (sched_list (hwqs h ! q))}"
  by (simp add: rwnx_txq_del_from_hw_list_def sched_del_def)

lemma after_push_list:
  "q < length (hwqs h) \<Longrightarrow> sched_list (hwqs (after_push h q i e) ! q)
     \<in> {sched_list (hwqs h ! q), removeAll i (sched_list (hwqs h ! q)), list_rotate_left (sched_list (hwqs h ! q))}"
  using del_list [of q h i] by (auto simp: after_push_def hwq_upd_def)

lemma hwq_round_list:
  assumes "hwq_round h q i = Inr h'" and "q < length (hwqs h)"
  shows "sched_list (hwqs h' ! q) \<in> {sched_list (hwqs h ! q), removeAll i (sched_list (hwqs h ! q)), list_rotate_left (sched_list (hwqs h ! q))}"
  using assms del_list [of q h i]
    after_push_list [of q "fold (\<lambda>k h. rwnx_tx_push h k) (fst (rwnx_txq_get_skb_to_push (txq h ! i)))
       (txq_upd h i (\<lambda>t. t\<lparr>sk_list := fst (snd (rwnx_txq_get_skb_to_push (txq h ! i)))\<rparr>))" i "snd (snd (rwnx_txq_get_skb_to_push (txq h ! i)))"]
  by (auto simp: hwq_round_def Let_def split: if_splits prod.splits)

definition list_from :: "nat list \<Rightarrow> nat option \<Rightarrow> nat list" where
  "list_from xs c = (case c of None \<Rightarrow> [] | Some i \<Rightarrow> dropWhile (\<lambda>x. x \<noteq> i) xs)"

lemma dropWhile_upto: "y \<notin> set bs \<Longrightarrow> dropWhile (\<lambda>x. x \<noteq> y) (bs @ y # cs) = y # cs"
  by (induction bs) auto

lemma list_from_append: "y \<notin> set bs \<Longrightarrow> list_from (bs @ y # cs) (Some y) = y # cs"
  by (simp add: list_from_def dropWhile_upto)

lemma list_from_next:
  assumes "distinct xs" and "i \<in> set xs" and "xs' \<in> {xs, removeAll i xs, list_rotate_left xs}"
  shows "set (list_from xs (Some i)) \<subseteq> insert i (set (list_from xs' (list_next xs i)))"
proof -
  obtain as ys where x: "xs = as @ i # ys" "i \<notin> set as" using assms(2) split_list_first by metis
  have f: "list_from xs (Some i) = i # ys" using x by (simp add: list_from_append)
  have "set ys \<subseteq> set (list_from xs' (list_next xs i))"
  proof (cases ys)
    case (Cons y zs)
    have n: "list_next xs i = Some y" using x Cons by (simp add: list_next_def dropWhile_upto)
    have d: "y \<notin> set as" "y \<noteq> i" "i \<notin> set ys" using assms(1) x Cons by auto
    consider "xs' = as @ i # ys" | "xs' = as @ ys" | "as = []" "xs' = ys @ [i]" | a as' where "as = a # as'" "xs' = as' @ i # ys @ [a]"
      using assms(3) x d(3) by (cases as) (auto simp: list_rotate_left_def removeAll_append)
    then show ?thesis
    proof cases
      case 1
      then show ?thesis using list_from_append [of y "as @ [i]" zs] d Cons n by auto
    next
      case 2
      then show ?thesis using list_from_append [of y as zs] d Cons n by auto
    next
      case 3
      then show ?thesis using list_from_append [of y "[]" "zs @ [i]"] Cons n by auto
    next
      case 4
      then show ?thesis using list_from_append [of y "as' @ [i]" "zs @ [a]"] d Cons n by auto
    qed
  qed simp
  then show ?thesis using f by auto
qed


lemma hwq_loop_visits:
  assumes "hwq_loop h q c = Inr h'" and "tx_ok h" and "q < NX_TXQ_CNT" and "\<And>i. c = Some i \<Longrightarrow> i \<in> set (sched_list (hwqs h ! q))"
    and "j < NX_NB_TXQ"
  shows "length (sk_list (txq h' ! j)) \<le> length (sk_list (txq h ! j))
    \<and> (j \<in> set (list_from (sched_list (hwqs h ! q)) c) \<and> txq_active (txq h ! j) \<longrightarrow>
         length (sk_list (txq h' ! j)) < length (sk_list (txq h ! j)))"
  using assms
proof (induction h q c rule: hwq_loop.induct)
  case (1 h q)
  then show ?case by (simp add: list_from_def)
next
  case (2 h q i)
  note D = tx_okD [OF 2(3)]
  have q: "q < length (hwqs h)" using D(2) 2(4) by simp
  have i: "i \<in> set (sched_list (hwqs h ! q))" using 2(5) by simp
  obtain h1 where r: "hwq_round h q i = Inr h1" and k: "tx_keeps h h1" using hwq_round_ok [OF 2(3) i 2(4)] by blast
  have d: "distinct (sched_list (hwqs h ! q))"
    using D(3) nth_mem [OF q] by (auto simp: sched_ok_def all_scheduled_def distinct_concat_iff)
  note D1 = tx_okD [OF tx_keeps_ok [OF k]]
  let ?n = "list_next (sched_list (hwqs h ! q)) i"
  have n: "x \<in> set (sched_list (hwqs h1 ! q))" if "?n = Some x" for x
    using hwq_round_sched [OF r q] list_next_in [OF that d] by auto
  obtain rest where m: "map sk_list (txq h1) = (map sk_list (txq h))[i := rest]" and le: "length rest \<le> length (sk_list (txq h ! i))"
      and lt: "txq_active (txq h ! i) \<Longrightarrow> length rest < length (sk_list (txq h ! i))"
    using hwq_round_sk_list [OF r] by blast
  have sj: "sk_list (txq h1 ! j) = (if i = j then rest else sk_list (txq h ! j))"
    using arg_cong [OF m, of "\<lambda>xs. xs ! j"] D(1) D1(1) 2(6) by (simp add: nth_list_update)
  have aj: "txq_active (txq h1 ! j) = txq_active (txq h ! j)"
    using arg_cong [OF hwq_round_idx [OF r], of "\<lambda>xs. xs ! j"] D(1) D1(1) 2(6) by (simp add: txq_active_def)
  have "set (list_from (sched_list (hwqs h ! q)) (Some i)) \<subseteq> insert i (set (list_from (sched_list (hwqs h1 ! q)) ?n))"
    by (rule list_from_next [OF d i hwq_round_list [OF r q]])
  moreover have "hwq_loop h1 q ?n = Inr h'" using 2(2) r by simp
  note 2(1) [OF r this tx_keeps_ok [OF k] 2(4) n 2(6)]
  ultimately show ?case
    using sj aj le lt by (cases "i = j") (auto split: if_splits)
qed

lemma list_from_first: "set (list_from xs (list_first xs)) = set xs"
  by (cases xs) (simp_all add: list_from_def list_first_def)

section \<open>An example run\<close>

text \<open>The off-channel queue is set up, a buffer is queued while it is still stopped, and the queue is started.\<close>

definition ex_vif :: tx_vif where
  "ex_vif = \<lparr>vif_index = 0, iftype = IFTYPE_STATION, tdls_link_active = False, roc_tdls = False, tdls_sta = None, ap_sta = None,
     vif_sta_list = [], bcmc_index = 0, master_index = 0, master_sta_list = []\<rparr>"

definition ex_skb :: tx_skb where
  "ex_skb = \<lparr>sk_id = 7, sk_txq = 80, sk_sta = None, sk_mesh = False, sk_flags = 8, sk_fc = 208, sk_ethertype = 0, sk_raw_frame = False,
     sk_fixed_rate = False, sk_rate_config = 0, sk_need_cfm = False, sk_status_desc = 0, sk_hw_queue = 0\<rparr>"

definition ex_h0 :: tx_hw where "ex_h0 = tx_hw_init 0 0 []"
definition ex_h1 :: tx_hw where "ex_h1 = rwnx_txq_offchan_init ex_h0 ex_vif"
definition ex_h2 :: tx_hw where "ex_h2 = snd (rwnx_txq_queue_skb ex_h1 ex_skb 80 False)"
definition ex_h3 :: tx_hw where "ex_h3 = rwnx_txq_offchan_start ex_h2"

lemma ex_facts: "tx_can (OffchanInit ex_vif) ex_h0" "tx_can (Xmit ex_skb) ex_h1"
  "fst (rwnx_txq_queue_skb ex_h1 ex_skb 80 False) = False"
  "sched_list (hwqs ex_h3 ! 3) = [80]" "txq_active (txq ex_h3 ! 80)" "map sk_id (sk_list (txq ex_h3 ! 80)) = [7]"
  by code_simp+

definition ex_sent :: "nat \<Rightarrow> nat list" where
  "ex_sent i = (if i = 80 then [7] else [])"

lemma ex_init: "tx_init (ex_h0, \<lambda>i. [])"
  unfolding tx_init_def ex_h0_def by (intro exI [of _ 0] exI [of _ "0 :: nat"] exI [of _ "[]"]) simp

lemma ex_run: "tx_step\<^sup>*\<^sup>* (ex_h0, \<lambda>i. []) (ex_h3, ex_sent)"
proof -
  let ?a1 = "OffchanInit ex_vif" and ?a2 = "Xmit ex_skb"
  have "tx_do ?a1 ex_h0 = Inr ex_h1" by (simp add: ex_h1_def)
  then have 1: "tx_step (ex_h0, \<lambda>i. []) (ex_h1, \<lambda>i. [] @ op_buf ?a1 i)" by (rule tx_step.op [OF ex_facts(1)])
  have k: "sk_txq ex_skb = 80" "sk_id ex_skb = 7" by (simp_all add: ex_skb_def)
  have "rwnx_txq_queue_skb ex_h1 ex_skb 80 False = (False, ex_h2)"
    by (rule prod_eqI) (simp_all add: ex_facts(3) ex_h2_def)
  then have "tx_do ?a2 ex_h1 = Inr ex_h2" by (simp add: xmit_skb_def k)
  then have 2: "tx_step (ex_h1, \<lambda>i. [] @ op_buf ?a1 i) (ex_h2, \<lambda>i. ([] @ op_buf ?a1 i) @ op_buf ?a2 i)"
    by (rule tx_step.op [OF ex_facts(2)])
  have "tx_do OffchanStart ex_h2 = Inr ex_h3" "tx_can OffchanStart ex_h2" by (simp_all add: ex_h3_def)
  note 3 = tx_step.op [OF this(2,1), of "\<lambda>i. ([] @ op_buf ?a1 i) @ op_buf ?a2 i"]
  have "(\<lambda>i. (([] @ op_buf ?a1 i) @ op_buf ?a2 i) @ op_buf OffchanStart i) = ex_sent"
    by (auto simp: ex_sent_def k)
  then have "tx_step (ex_h2, \<lambda>i. ([] @ op_buf ?a1 i) @ op_buf ?a2 i) (ex_h3, ex_sent)" using 3 by (simp only:)
  with 1 2 show ?thesis by (meson converse_rtranclp_into_rtranclp rtranclp.rtrancl_refl)
qed

section \<open>Properties\<close>

text \<open>
  C22: None of the \<open>BUG_ON\<close> checks of the transmit path fires. In every state reached from the initialised driver
  by any sequence of calls (setting up and removing stations, interfaces and queues, starting and stopping,
  transmitting, processing, confirmations without a retry, power save changes and service periods), every call
  whose caller-side conditions hold runs to its end without a fault; in particular the loop of
  \<open>rwnx_hwq_process\<close> ends.
\<close>

theorem tx_no_fault:
  assumes "tx_init s" and "tx_step\<^sup>*\<^sup>* s (h, g)" and "tx_can a h"
  shows "\<exists>h'. tx_do a h = Inr h'"
  using tx_queues.reachable_inv [OF assms(1,2)] tx_do_good [OF _ assms(3)] by (auto simp: tx_inv_def)

theorem tx_no_fault_witness: "\<exists>h'. tx_do ProcessAll ex_h3 = Inr h'"
  using tx_no_fault [OF ex_init ex_run, of ProcessAll] by simp

text \<open>
  C23: Without retries every transmit queue is first in, first out. In every state reached from the initialised driver
  by calls whose caller-side conditions hold (\<open>tx_can\<close>: among them that no confirmation asks for a retry and that a
  queue is initialised only while it is free), the buffers handed to a queue are, in
  the order they were handed in, those it passed to the bus or freed, in the order it did, followed by those
  still waiting; no buffer is lost, duplicated or overtaken. A retried buffer does overtake the waiting ones (lemma
  \<open>tx_retry_order\<close>).
\<close>

theorem tx_fifo:
  assumes "tx_init s" and "tx_step\<^sup>*\<^sup>* s (h, g)" and "i < NX_NB_TXQ"
  shows "g i = concat (map (done_id i) (tx_log h)) @ map sk_id (sk_list (txq h ! i))"
  using tx_queues.reachable_inv [OF assms(1,2)] assms(3) by (simp add: tx_inv_def tx_flow_def)

theorem tx_fifo_witness: "[7] = concat (map (done_id 80) (tx_log ex_h3)) @ map sk_id (sk_list (txq ex_h3 ! 80))"
  using tx_fifo [OF ex_init ex_run, of 80] by (simp add: ex_sent_def)

text \<open>
  C24: Without retries the scheduling lists are consistent. In every state reached from the initialised driver by calls
  whose caller-side conditions hold (\<open>tx_can\<close>: among them that no confirmation asks for a retry and that a queue is
  initialised only while it is free), no queue is on two lists or twice on one, a
  queue is on a list exactly when its flag \<open>RWNX_TXQ_IN_HWQ_LIST\<close> is set, and an active queue on a list has
  buffers and credits, and never a push limit above the number of its buffers. With 64 retries a queue is on a list
  with a negative number of credits (lemma \<open>tx_retry_credit_overflow\<close>).
\<close>

theorem tx_lists_consistent:
  assumes "tx_init s" and "tx_step\<^sup>*\<^sup>* s (h, g)"
  shows "distinct (all_scheduled h)
    \<and> (\<forall>i < NX_NB_TXQ. i \<in> set (all_scheduled h) \<longleftrightarrow> rwnx_txq_is_scheduled (txq h ! i))
    \<and> (\<forall>i < NX_NB_TXQ. txq_active (txq h ! i) \<longrightarrow> unat (push_limit (txq h ! i)) \<le> length (sk_list (txq h ! i))
         \<and> (i \<in> set (all_scheduled h) \<longrightarrow> sk_list (txq h ! i) \<noteq> [] \<and> 0 < rwnx_txq_get_credits (txq h ! i)))"
proof -
  have ok: "tx_ok h" using tx_queues.reachable_inv [OF assms] by (simp add: tx_inv_def)
  note D = tx_okD [OF ok]
  have m: "i \<in> set (all_scheduled h) \<longleftrightarrow> rwnx_txq_is_scheduled (txq h ! i)" if "i < NX_NB_TXQ" for i
    using D(1,3) that by (auto simp: sched_ok_def)
  have c: "0 < rwnx_txq_get_credits t" if "0 < sint (credits t)" for t
    using that word_gt_0 [of "push_limit t"] by (auto simp: rwnx_txq_get_credits_def Let_def word_less_def)
  show ?thesis using D(3,6) m c by (auto simp: sched_ok_def txq_ok_def)
qed

theorem tx_lists_consistent_witness:
  "distinct (all_scheduled ex_h3) \<and> 80 \<in> set (all_scheduled ex_h3) \<and> rwnx_txq_is_scheduled (txq ex_h3 ! 80)
     \<and> 0 < rwnx_txq_get_credits (txq ex_h3 ! 80)"
proof -
  have "80 \<in> set (all_scheduled ex_h3)" by code_simp
  then show ?thesis using tx_lists_consistent [OF ex_init ex_run] ex_facts(5) by simp
qed

text \<open>
  C25: Without retries no scheduled queue starves. In every state reached from the initialised driver by calls whose
  caller-side conditions hold (\<open>tx_can\<close>: among them that no confirmation asks for a retry and that a queue is
  initialised only while it is free), processing a hardware queue pushes at least one buffer of every active queue
  on its list, although the loop rotates the list it runs over. After 64 retries of a queue it stops at a \<open>BUG_ON\<close>
  instead (lemma \<open>tx_retry_credit_overflow\<close>).
\<close>

theorem hwq_process_serves_all:
  assumes "tx_init s" and "tx_step\<^sup>*\<^sup>* s (h, g)" and "q < NX_TXQ_CNT"
    and "i \<in> set (sched_list (hwqs h ! q))" and "txq_active (txq h ! i)"
  shows "\<exists>h'. rwnx_hwq_process h q = Inr h' \<and> length (sk_list (txq h' ! i)) < length (sk_list (txq h ! i))"
proof -
  have ok: "tx_ok h" using tx_queues.reachable_inv [OF assms(1,2)] by (simp add: tx_inv_def)
  note D = tx_okD [OF ok]
  let ?h = "hwq_upd h q (\<lambda>w. w\<lparr>need_processing := False\<rparr>)"
  have q: "q < length (hwqs h)" using D(2) assms(3) by simp
  have l: "sched_list (hwqs ?h ! q) = sched_list (hwqs h ! q)" using q by (simp add: hwq_upd_def)
  have "i \<in> set (all_scheduled h)" using assms(4) nth_mem [OF q] by (auto simp: all_scheduled_def)
  then have i: "i < NX_NB_TXQ" using D(1,3) by (auto simp: sched_ok_def)
  obtain h' where p: "rwnx_hwq_process h q = Inr h'" using hwq_process_ok [OF ok assms(3)] by blast
  have "tx_ok ?h" using tx_ok_hwq_upd [OF ok, of "\<lambda>w. w\<lparr>need_processing := False\<rparr>"] by simp
  moreover have "x \<in> set (sched_list (hwqs ?h ! q))" if "list_first (sched_list (hwqs h ! q)) = Some x" for x
    using that l by (auto simp: list_first_def split: list.splits)
  ultimately show ?thesis
    using hwq_loop_visits [of ?h q "list_first (sched_list (hwqs h ! q))" h' i] p i assms(3-5) list_from_first [of "sched_list (hwqs h ! q)"]
    by (simp add: rwnx_hwq_process_def l)
qed

theorem hwq_process_serves_all_witness:
  "\<exists>h'. rwnx_hwq_process ex_h3 3 = Inr h' \<and> length (sk_list (txq h' ! 80)) < length (sk_list (txq ex_h3 ! 80))"
  using hwq_process_serves_all [OF ex_init ex_run, of 3 80] by (simp add: ex_facts)

end
