(* ===== verification/TxSpec.thy ===== *)
theory TxSpec
  imports TxSystem
begin

text \<open>
  What the transmit path promises, stated without its loops: how a service period is shared between the queues
  of a station, which buffer a confirmation belongs to, in which order buffers are retried, and the numbering
  of the queues.
\<close>

section \<open>Service periods\<close>

text \<open>The reference: each queue in turn gets as much of the request as it can use.\<close>

fun sp_greedy :: "int \<Rightarrow> int list \<Rightarrow> int list" where
  "sp_greedy req [] = []"
| "sp_greedy req (a # as) = min req a # sp_greedy (req - min req a) as"

definition sp_want :: "tx_hw \<Rightarrow> nat \<Rightarrow> nat \<Rightarrow> nat \<Rightarrow> int" where
  "sp_want h s pid td =
     (let t = txq h ! rwnx_txq_sta_get h s td in if ps_id t = pid then sp_avail t else 0)"

lemma length_sp_greedy [simp]: "length (sp_greedy req as) = length as"
  by (induction as arbitrary: req) simp_all

lemma sp_greedy_zero: "list_all (\<lambda>a. 0 \<le> a) as \<Longrightarrow> sp_greedy 0 as = replicate (length as) 0"
  by (induction as) auto

lemma sum_list_nonneg_all: "list_all (\<lambda>a. 0 \<le> a) as \<Longrightarrow> 0 \<le> sum_list (as :: int list)"
  by (induction as) auto

lemma sum_sp_greedy:
  "list_all (\<lambda>a. 0 \<le> a) as \<Longrightarrow> 0 \<le> req \<Longrightarrow> sum_list (sp_greedy req as) = min req (sum_list as)"
proof (induction as arbitrary: req)
  case (Cons a as)
  then show ?case using Cons.IH [of "req - min req a"] sum_list_nonneg_all [of as] by (auto simp: min_def)
qed simp

lemma txq_sp_grant:
  assumes "i < length (txq h)"
  shows "j \<noteq> i \<Longrightarrow> txq (sp_grant h s pid i n) ! j = txq h ! j"
    and "push_limit (txq (sp_grant h s pid i n) ! i) = of_int n"
    and "rwnx_txq_is_scheduled (txq (sp_grant h s pid i n) ! i)"
    and "length (txq (sp_grant h s pid i n)) = length (txq h)"
  using assms by (auto simp: sp_grant_def rwnx_txq_add_to_hw_list_def txq_upd_def scheduled_bit)

lemma sp_cnt_grant:
  "s < length (sta_table h) \<Longrightarrow> sp_cnt (sta_table (sp_grant h s pid i n) ! s) pid = sp_cnt (sta_table h ! s) pid + of_int n"
  by (simp add: sp_grant_def sta_upd_nth)

lemma sta_get_inj:
  assumes "\<not> is_multicast_sta h (sta_idx (sta_table h ! s))" and "a < 9" and "b < 9" and "a \<noteq> b"
  shows "rwnx_txq_sta_get h s a \<noteq> rwnx_txq_sta_get h s b"
  using assms by (simp add: rwnx_txq_sta_get_def rwnx_txq_sta_idx_def)

lemma sp_want_nonneg:
  assumes "tx_ok h" and "s < length (sta_table h)"
  shows "0 \<le> sp_want h s pid td"
  using sp_avail_bounds(1) [OF tx_okD(6) [OF assms(1) sta_get_bound [OF assms, of td]]]
  by (cases "sp_avail (txq h ! rwnx_txq_sta_get h s td) = 0") (simp_all add: sp_want_def Let_def)

definition sp_granted :: "tx_hw \<Rightarrow> nat \<Rightarrow> nat list \<Rightarrow> int list \<Rightarrow> tx_hw \<Rightarrow> bool" where
  "sp_granted h s tds ns h' \<longleftrightarrow>
     (\<forall>j < length tds. let q = rwnx_txq_sta_get h s (tds ! j) in
        (0 < ns ! j \<longrightarrow> push_limit (txq h' ! q) = of_int (ns ! j) \<and> rwnx_txq_is_scheduled (txq h' ! q))
        \<and> (ns ! j = 0 \<longrightarrow> txq h' ! q = txq h ! q))"

lemma dispatch_granted:
  assumes "tx_ok h" and "s < length (sta_table h)" and "\<not> is_multicast_sta h (sta_idx (sta_table h ! s))"
    and "distinct tds" and "list_all (\<lambda>t. t < 9) tds" and "0 < req"
    and "ns = sp_greedy req (map (sp_want h s pid) tds)" and "h' = sp_dispatch s pid req tds h"
  shows "sp_granted h s tds ns h'
    \<and> sp_cnt (sta_table h' ! s) pid = sp_cnt (sta_table h ! s) pid + of_int (sum_list ns)
    \<and> (\<forall>i. i \<notin> rwnx_txq_sta_get h s ` set tds \<longrightarrow> txq h' ! i = txq h ! i)"
  using assms
proof (induction tds arbitrary: h req ns)
  case Nil
  then show ?case by (simp add: sp_granted_def)
next
  case (Cons td tds)
  let ?i = "rwnx_txq_sta_get h s td" and ?n = "sp_want h s pid td"
  have i: "?i < length (txq h)" using sta_get_bound [OF Cons.prems(1,2)] tx_okD(1) [OF Cons.prems(1)] by simp
  have w: "list_all (\<lambda>a. 0 \<le> a) (map (sp_want h s pid) tds)" using sp_want_nonneg [OF Cons.prems(1,2)] by (simp add: list_all_iff)
  have n0: "0 \<le> ?n" using sp_want_nonneg [OF Cons.prems(1,2)] .
  have ni: "?i \<notin> rwnx_txq_sta_get h s ` set tds"
    using Cons.prems(4,5) sta_get_inj [OF Cons.prems(3)] by (auto simp: list_all_iff)
  note IH = Cons.IH [OF _ _ _ _ _ _ refl]
  consider (skip) "?n = 0" | (part) "0 < ?n" "?n < req" | (last) "0 < ?n" "req \<le> ?n" using n0 by linarith
  then show ?case
  proof cases
    case skip
    then have d: "h' = sp_dispatch s pid req tds h" using Cons.prems(8) by (auto simp: sp_want_def Let_def split: if_splits)
    have m: "ns = 0 # sp_greedy req (map (sp_want h s pid) tds)" using Cons.prems(6,7) skip by simp
    have "sp_granted h s tds (sp_greedy req (map (sp_want h s pid) tds)) h'
      \<and> sp_cnt (sta_table h' ! s) pid = sp_cnt (sta_table h ! s) pid + of_int (sum_list (sp_greedy req (map (sp_want h s pid) tds)))
      \<and> (\<forall>i. i \<notin> rwnx_txq_sta_get h s ` set tds \<longrightarrow> txq h' ! i = txq h ! i)"
      using IH [OF Cons.prems(1-3) _ _ Cons.prems(6) d] Cons.prems(4,5) by simp
    then show ?thesis using ni by (auto simp: m sp_granted_def nth_Cons Let_def split: nat.splits)
  next
    case part
    let ?h = "sp_grant h s pid ?i ?n"
    have e: "ps_id (txq h ! ?i) = pid" "sp_avail (txq h ! ?i) = ?n" using part(1) by (auto simp: sp_want_def Let_def split: if_splits)
    have d: "h' = sp_dispatch s pid (req - ?n) tds ?h" using Cons.prems(8) part e by (simp add: Let_def)
    have m: "ns = ?n # sp_greedy (req - ?n) (map (sp_want h s pid) tds)" using Cons.prems(7) part by simp
    have k: "tx_keeps h ?h" using tx_keeps_sp_grant [OF Cons.prems(1), of ?i ?n] i part(1) e tx_okD(1) [OF Cons.prems(1)] by simp
    have mc: "\<not> is_multicast_sta ?h (sta_idx (sta_table ?h ! s))"
      using Cons.prems(2,3) by (simp add: is_multicast_sta_def nx_remote_sta_max_def sp_grant_def sta_upd_nth)
    have ww: "map (sp_want ?h s pid) tds = map (sp_want h s pid) tds"
    proof (rule map_cong [OF refl])
      fix x assume "x \<in> set tds"
      then have "rwnx_txq_sta_get h s x \<noteq> ?i" using ni by (metis image_eqI)
      then show "sp_want ?h s pid x = sp_want h s pid x" using txq_sp_grant(1) [OF i] by (simp add: sp_want_def [of _ _ _ x])
    qed
    have "sp_granted ?h s tds (sp_greedy (req - ?n) (map (sp_want h s pid) tds)) h'
      \<and> sp_cnt (sta_table h' ! s) pid = sp_cnt (sta_table ?h ! s) pid + of_int (sum_list (sp_greedy (req - ?n) (map (sp_want h s pid) tds)))
      \<and> (\<forall>i. i \<notin> rwnx_txq_sta_get h s ` set tds \<longrightarrow> txq h' ! i = txq ?h ! i)"
      using IH [OF tx_keeps_ok [OF k] _ mc _ _ _ d] Cons.prems(2,4,5) part(2) by (simp add: ww)
    moreover have "txq ?h ! rwnx_txq_sta_get h s (tds ! j) = txq h ! rwnx_txq_sta_get h s (tds ! j)" if "j < length tds" for j
      using txq_sp_grant(1) [OF i] ni that by (metis image_eqI nth_mem)
    ultimately show ?thesis
      using ni txq_sp_grant [OF i] Cons.prems(2) part
      by (auto simp: m sp_granted_def nth_Cons Let_def sp_cnt_grant split: nat.splits)
  next
    case last
    let ?h = "sp_grant h s pid ?i req"
    have e: "ps_id (txq h ! ?i) = pid" "sp_avail (txq h ! ?i) = ?n" using last(1) by (auto simp: sp_want_def Let_def split: if_splits)
    have d: "h' = ?h" using Cons.prems(8) last e by (simp add: Let_def)
    have m: "ns = req # replicate (length tds) 0" using Cons.prems(7) last sp_greedy_zero [OF w] by simp
    have "txq ?h ! rwnx_txq_sta_get h s (tds ! j) = txq h ! rwnx_txq_sta_get h s (tds ! j)" if "j < length tds" for j
      using txq_sp_grant(1) [OF i] ni that by (metis image_eqI nth_mem)
    then show ?thesis
      using ni txq_sp_grant [OF i] Cons.prems(2,6)
      by (auto simp: m d sp_granted_def nth_Cons Let_def sp_cnt_grant sum_list_replicate split: nat.splits)
  qed
qed

lemma traffic_req_granted:
  assumes ok: "tx_ok h" and s: "s < length (sta_table h)" "\<not> is_multicast_sta h (sta_idx (sta_table h ! s))"
    and ps: "ps_active (sta_table h ! s)" "sp_cnt (sta_table h ! s) pid = 0" "pkt_ready (sta_table h ! s) pid \<noteq> 0"
    and r: "\<not> (pkt_req = PS_SP_INTERRUPTED \<and> pid = UAPSD_ID)"
    and req: "req = (if pkt_req = 0 \<or> pkt_ready (sta_table h ! s) pid < pkt_req then uint (pkt_ready (sta_table h ! s) pid) else uint pkt_req)"
    and w: "want = map (sp_want h s pid) nx_tid_prio"
    and h': "h' = rwnx_ps_bh_traffic_req h s pkt_req pid"
  shows "sp_granted h s nx_tid_prio (sp_greedy req want) h'
    \<and> sp_cnt (sta_table h' ! s) pid = of_int (min req (sum_list want))"
proof -
  let ?h = "sta_upd h s (\<lambda>st. st\<lparr>sp_cnt := (sp_cnt st)(pid := 0)\<rparr>)"
  have k: "tx_ok ?h" by (rule tx_keeps_ok [OF tx_keeps_sta_upd_view [OF ok]]) (simp add: sta_view_def)
  have p0: "0 < uint (pkt_ready (sta_table h ! s) pid)" using ps(3) word_gt_0 [of "pkt_ready (sta_table h ! s) pid"] by (simp add: word_less_def)
  then have r0: "0 < req" using ps(3) by (auto simp: req word_neq_0_conv word_less_def)
  have g: "rwnx_txq_sta_get ?h s = rwnx_txq_sta_get h s"
    using s(1) by (simp add: fun_eq_iff rwnx_txq_sta_get_def rwnx_txq_sta_idx_def is_multicast_sta_def nx_remote_sta_max_def
        nx_first_vif_txq_idx_def sta_upd_nth)
  have mc: "\<not> is_multicast_sta ?h (sta_idx (sta_table ?h ! s))"
    using s by (simp add: is_multicast_sta_def nx_remote_sta_max_def sta_upd_nth)
  have ww: "map (sp_want ?h s pid) nx_tid_prio = want" by (simp add: w sp_want_def g)
  have e: "h' = tx_emit [TaskSchedule] (sp_dispatch s pid req nx_tid_prio ?h)"
    using ps r p0 s(2) by (auto simp: h' rwnx_ps_bh_traffic_req_def Let_def req word_less_def)
  have d: "distinct nx_tid_prio" "list_all (\<lambda>t. t < 9) nx_tid_prio" by (simp_all add: nx_tid_prio_def)
  have "list_all (\<lambda>a. 0 \<le> a) want" using sp_want_nonneg [OF ok s(1)] by (simp add: w list_all_iff)
  then have "sum_list (sp_greedy req want) = min req (sum_list want)" using r0 by (simp add: sum_sp_greedy)
  then show ?thesis
    using dispatch_granted [OF k _ mc d r0 refl refl, of pid] s(1) by (simp add: ww g e sp_granted_def sta_upd_nth)
qed

section \<open>Retries\<close>

definition retry_mark :: "bool \<Rightarrow> tx_skb \<Rightarrow> tx_skb" where
  "retry_mark sw k = k\<lparr>sk_flags := (if sw then sk_flags k else sk_flags k OR TXU_CNTRL_RETRY) AND NOT TXU_CNTRL_MORE_DATA\<rparr>"

lemma sk_id_retry_mark [simp]: "sk_id (retry_mark sw k) = sk_id k"
  by (simp add: retry_mark_def)

lemma stopped_not_full: "\<not> rwnx_txq_is_stopped t \<Longrightarrow> ucast (status t) AND (2 :: u16) = 0"
proof -
  assume a: "\<not> rwnx_txq_is_stopped t"
  have "\<not> bit (status t AND 62) 1" using a by (simp add: rwnx_txq_is_stopped_def)
  moreover have "bit (62 :: u8) 1" by code_simp
  ultimately have "\<not> bit (status t) 1" by (simp add: bit_and_iff)
  then show ?thesis by (intro bit_word_eqI) (auto simp: bit_simps bit_unsigned_iff)
qed

lemma stop_bits: "(x OR 128 :: u8) AND 62 = x AND 62" "(x OR 1 :: u8) AND 62 = x AND 62"
proof -
  have "(128 :: u8) AND 62 = 0" "(1 :: u8) AND 62 = 0" by code_simp+
  then show "(x OR 128 :: u8) AND 62 = x AND 62" "(x OR 1 :: u8) AND 62 = x AND 62" by (simp_all add: bit.conj_disj_distrib2)
qed

text \<open>What a retry does to its queue while that is not stopped.\<close>

lemma tx_retry_effect:
  fixes sw :: bool
  assumes "sk_txq k = i" and "i < length (txq h)" and "\<not> rwnx_txq_is_stopped (txq h ! i)"
  defines "h' \<equiv> rwnx_tx_retry h k sw"
  shows "credits (txq h' ! i) = credits (txq h ! i) + 1"
    and "sk_list (txq h' ! i) =
      (case last_retry_skb (txq h ! i) of
         None \<Rightarrow> retry_mark sw k # sk_list (txq h ! i)
       | Some a \<Rightarrow> skb_append a (retry_mark sw k) (sk_list (txq h ! i)))"
    and "last_retry_skb (txq h' ! i) = Some (sk_id k)" and "idx (txq h' ! i) = idx (txq h ! i)"
    and "\<not> rwnx_txq_is_stopped (txq h' ! i)" and "rwnx_txq_is_scheduled (txq h' ! i)" and "length (txq h') = length (txq h)"
    and "hwqs h' = (if rwnx_txq_is_scheduled (txq h ! i) then hwqs h else
           (hwqs h)[hwq (txq h ! i) := (hwqs h ! hwq (txq h ! i))
              \<lparr>sched_list := sched_list (hwqs h ! hwq (txq h ! i)) @ [i], need_processing := True\<rparr>])"
    and "hwq (txq h' ! i) = hwq (txq h ! i)"
proof -
  let ?h1 = "txq_upd h i (\<lambda>t. t\<lparr>credits := credits t + 1\<rparr>)"
  have st: "rwnx_txq_start ?h1 i RWNX_TXQ_STOP_FULL = ?h1"
    using stopped_not_full [OF assms(3)] assms(2) by (simp add: rwnx_txq_start_def)
  let ?h2 = "txq_upd (queue_ps ?h1 (txq ?h1 ! i)) i (queue_insert True (retry_mark sw k))"
  have q: "txq ?h2 ! i = queue_insert True (retry_mark sw k) ((txq h ! i)\<lparr>credits := credits (txq h ! i) + 1\<rparr>)"
      "length (txq ?h2) = length (txq h)" "hwqs ?h2 = hwqs h"
    using assms(2) by (simp_all add: queue_ps_sel)
  let ?h3 = "queue_flowctrl ?h2 i"
  have f: "txq ?h3 ! i = txq ?h2 ! i \<or> txq ?h3 ! i = (txq ?h2 ! i)\<lparr>status := status (txq ?h2 ! i) OR 128\<rparr>"
      "length (txq ?h3) = length (txq h)" "hwqs ?h3 = hwqs h"
    using assms(2) q by (auto simp: queue_flowctrl_def Let_def)
  have s3: "\<not> rwnx_txq_is_stopped (txq ?h3 ! i)"
      "rwnx_txq_is_scheduled (txq ?h3 ! i) = rwnx_txq_is_scheduled (txq h ! i)"
    using f(1) assms(3) by (auto simp: q queue_insert_def rwnx_txq_is_stopped_def stop_bits scheduled_bit)
  have e: "h' = rwnx_txq_add_to_hw_list ?h3 i"
    using s3 by (simp add: h'_def rwnx_tx_retry_def rwnx_txq_queue_skb_def Let_def assms(1) st retry_mark_def)
  note d = e rwnx_txq_add_to_hw_list_def
  show "length (txq h') = length (txq h)" using f by (simp add: e)
  show "credits (txq h' ! i) = credits (txq h ! i) + 1" "last_retry_skb (txq h' ! i) = Some (sk_id k)"
      "idx (txq h' ! i) = idx (txq h ! i)" "hwq (txq h' ! i) = hwq (txq h ! i)"
    using f assms(2) by (auto simp: d q queue_insert_def)
  show "sk_list (txq h' ! i) =
      (case last_retry_skb (txq h ! i) of
         None \<Rightarrow> retry_mark sw k # sk_list (txq h ! i)
       | Some a \<Rightarrow> skb_append a (retry_mark sw k) (sk_list (txq h ! i)))"
    using f assms(2) by (auto simp: d q queue_insert_def split: option.splits)
  show "\<not> rwnx_txq_is_stopped (txq h' ! i)" "rwnx_txq_is_scheduled (txq h' ! i)"
    using f assms(2) s3 by (auto simp: d rwnx_txq_is_stopped_def stop_bits scheduled_bit)
  show "hwqs h' = (if rwnx_txq_is_scheduled (txq h ! i) then hwqs h else
           (hwqs h)[hwq (txq h ! i) := (hwqs h ! hwq (txq h ! i))
              \<lparr>sched_list := sched_list (hwqs h ! hwq (txq h ! i)) @ [i], need_processing := True\<rparr>])"
    using f assms(2) s3 by (auto simp: d q queue_insert_def hwq_upd_def)
qed

lemma skb_append_last:
  "sk_id x = a \<Longrightarrow> a \<notin> sk_id ` set as \<Longrightarrow> skb_append a k (as @ x # ys) = as @ x # k # ys"
  by (induction as) auto

abbreviation (input) tx_retries :: "bool \<Rightarrow> tx_skb list \<Rightarrow> tx_hw \<Rightarrow> tx_hw" where
  "tx_retries sw ks h \<equiv> fold (\<lambda>k h. rwnx_tx_retry h k sw) ks h"

text \<open>The retries of a queue, one after the other: each adds a credit and goes behind the one before.\<close>

lemma tx_retries_ok:
  assumes "list_all (\<lambda>k. sk_txq k = i) ks" and "i < length (txq h)" and "\<not> rwnx_txq_is_stopped (txq h ! i)"
    and "last_retry_skb (txq h ! i) = (if pre = [] then None else Some (sk_id (last pre)))"
    and "sk_list (txq h ! i) = pre @ ys" and "distinct (map sk_id (pre @ ks))"
  shows "credits (txq (tx_retries sw ks h) ! i) = credits (txq h ! i) + of_nat (length ks)
    \<and> sk_list (txq (tx_retries sw ks h) ! i) = pre @ map (retry_mark sw) ks @ ys
    \<and> length (txq (tx_retries sw ks h)) = length (txq h) \<and> idx (txq (tx_retries sw ks h) ! i) = idx (txq h ! i)"
  using assms
proof (induction ks arbitrary: h pre)
  case (Cons k ks)
  have k: "sk_txq k = i" using Cons.prems(1) by simp
  note e = tx_retry_effect [OF k Cons.prems(2,3), of sw]
  let ?h = "rwnx_tx_retry h k sw" and ?p = "pre @ [retry_mark sw k]"
  have l: "sk_list (txq ?h ! i) = ?p @ ys"
  proof (cases pre rule: rev_cases)
    case Nil
    then show ?thesis using e(2) Cons.prems(4,5) by simp
  next
    case (snoc as x)
    then have "sk_id x \<notin> sk_id ` set as" using Cons.prems(6) by auto
    then show ?thesis using e(2) Cons.prems(4,5) snoc skb_append_last [of x "sk_id x" as "retry_mark sw k" ys] by simp
  qed
  have "distinct (map sk_id (?p @ ks))" using Cons.prems(6) by auto
  then show ?case
    using Cons.IH [of ?h ?p] e(1,3,4,5,7) l Cons.prems(1,2) by simp
qed simp

lemma tx_retries_scheduled:
  assumes "list_all (\<lambda>k. sk_txq k = i) ks" and "i < length (txq h)" and "\<not> rwnx_txq_is_stopped (txq h ! i)" and "rwnx_txq_is_scheduled (txq h ! i)"
  shows "rwnx_txq_is_scheduled (txq (tx_retries sw ks h) ! i) \<and> hwqs (tx_retries sw ks h) = hwqs h"
  using assms
proof (induction ks arbitrary: h)
  case (Cons k ks)
  then have k: "sk_txq k = i" by simp
  note e = tx_retry_effect [OF k Cons.prems(2,3), of sw]
  show ?case using Cons.IH [of "rwnx_tx_retry h k sw"] e(5-8) Cons.prems by simp
qed simp

section \<open>Confirmations\<close>

text \<open>Descriptors of a list of buffers, pushed in order.\<close>

fun push_descs :: "usb_host_env \<Rightarrow> tx_skb list \<Rightarrow> usb_host_env \<times> tx_skb list" where
  "push_descs e [] = (e, [])"
| "push_descs e (k # ks) =
     (case push_desc e k of (e1, k1) \<Rightarrow> case push_descs e1 ks of (e2, ks2) \<Rightarrow> (e2, k1 # ks2))"

text \<open>The index the firmware gives back: the descriptor word without its top bit.\<close>

definition cfm_index :: "tx_skb \<Rightarrow> u32" where
  "cfm_index k = take_bit 31 (sk_status_desc k)"

definition free_at :: "usb_host_env \<Rightarrow> nat \<Rightarrow> nat" where
  "free_at e n = (unat (txdesc_free_idx e) + n) mod 0x40000000"

lemma cfm_index_desc:
  assumes "f < 0x40000000"
  shows "take_bit 31 (push_bit 31 1 OR f :: u32) = f"
proof -
  have "bit f n \<Longrightarrow> n < 31" for n
  proof (rule ccontr)
    assume "bit f n" "\<not> n < 31"
    then have "n = 31" using bit_imp_le_length [of f n] by simp
    with \<open>bit f n\<close> have "odd (uint f div 2 ^ 31)" using bit_uint_iff [of f 31] by (simp add: bit_iff_odd)
    moreover have "uint f div 2 ^ 31 = 0" using assms by (intro div_pos_pos_trivial) (simp_all add: word_less_def)
    ultimately show False by simp
  qed
  then show ?thesis by (intro bit_word_eqI) (auto simp: bit_simps)
qed

lemma push_desc_ring:
  assumes "needs_cfm k" and "txdesc_free_idx e < 0x40000000" and "push_desc e k = (e1, k1)"
  shows "txdesc_free_idx e1 < 0x40000000" "unat (txdesc_free_idx e1) = free_at e 1" "cfm_index k1 = txdesc_free_idx e"
    "tx_host_id e1 = (tx_host_id e)[unat (txdesc_free_idx e) mod 64 := Some k1]"
proof -
  have e: "e1 = aicwf_usb_host_txdesc_push e k1" "k1 = k\<lparr>sk_need_cfm := True, sk_status_desc := push_bit 31 1 OR txdesc_free_idx e\<rparr>"
    using assms(1,3) by (auto simp: push_desc_def Let_def)
  show "cfm_index k1 = txdesc_free_idx e" using cfm_index_desc [OF assms(2)] by (simp add: e(2) cfm_index_def)
  show "tx_host_id e1 = (tx_host_id e)[unat (txdesc_free_idx e) mod 64 := Some k1]"
    by (simp add: e(1) aicwf_usb_host_txdesc_push_def)
  have f: "unat (txdesc_free_idx e) < 0x40000000" using assms(2) by (simp add: word_less_nat_alt)
  then have u: "unat (txdesc_free_idx e + 1) = unat (txdesc_free_idx e) + 1"
    by (simp add: unat_word_ariths)
  have z: "txdesc_free_idx e + 1 = 0x40000000 \<longleftrightarrow> unat (txdesc_free_idx e) + 1 = 0x40000000"
    using u by (simp add: word_unat_eq_iff)
  show "unat (txdesc_free_idx e1) = free_at e 1"
    using f u z by (auto simp: e(1) aicwf_usb_host_txdesc_push_def free_at_def)
  then show "txdesc_free_idx e1 < 0x40000000" by (simp add: word_less_nat_alt free_at_def)
qed

lemma free_at_slot: "unat (txdesc_free_idx e1) = free_at e 1 \<Longrightarrow> free_at e1 j mod 64 = free_at e (Suc j) mod 64"
proof -
  have m: "x mod 0x40000000 mod 64 = x mod (64 :: nat)" for x by (rule mod_mod_cancel) simp
  assume "unat (txdesc_free_idx e1) = free_at e 1"
  then have "free_at e1 j mod 64 = (free_at e 1 mod 64 + j mod 64) mod 64" by (simp add: free_at_def [of e1] m mod_add_eq)
  also have "\<dots> = (unat (txdesc_free_idx e) + 1 + j) mod 64" by (simp add: free_at_def m mod_simps)
  finally show ?thesis by (simp add: free_at_def m)
qed

lemma free_at_same_slot: "free_at e i mod 64 = free_at e j mod 64 \<longleftrightarrow> i mod 64 = j mod 64"
proof -
  have m: "x mod 0x40000000 mod 64 = x mod (64 :: nat)" for x by (rule mod_mod_cancel) simp
  have "int ((u + i) mod 64) = int ((u + j) mod 64) \<longleftrightarrow> int (i mod 64) = int (j mod 64)" for u
    unfolding zmod_int by (simp add: mod_eq_dvd_iff)
  then show ?thesis unfolding free_at_def m by simp
qed

text \<open>Which buffer a slot holds after a run of pushes: the last one of those that share it.\<close>

lemma push_descs_ring:
  assumes "push_descs e ks = (e', ks')" and "list_all needs_cfm ks" and "txdesc_free_idx e < 0x40000000" and "length (tx_host_id e) = 64"
  shows "length ks' = length ks \<and> length (tx_host_id e') = 64
    \<and> (\<forall>j < length ks. unat (cfm_index (ks' ! j)) mod 64 = free_at e j mod 64
         \<and> tx_host_id e' ! (free_at e j mod 64) = Some (ks' ! (j + 64 * ((length ks - 1 - j) div 64))))
    \<and> (\<forall>p < 64. (\<forall>j < length ks. free_at e j mod 64 \<noteq> p) \<longrightarrow> tx_host_id e' ! p = tx_host_id e ! p)"
  using assms
proof (induction ks arbitrary: e ks')
  case (Cons k ks)
  obtain e1 k1 where p: "push_desc e k = (e1, k1)" by (cases "push_desc e k")
  obtain ks2 where q: "push_descs e1 ks = (e', ks2)" and k': "ks' = k1 # ks2"
    using Cons.prems(1) p by (auto split: prod.splits)
  have nk: "needs_cfm k" using Cons.prems(2) by simp
  note P = push_desc_ring [OF nk Cons.prems(3) p]
  have f: "free_at e 0 = unat (txdesc_free_idx e)"
    using Cons.prems(3) by (simp add: free_at_def word_less_nat_alt)
  note sl = free_at_slot [OF P(2)]
  let ?n = "length ks"
  have IH: "length ks2 = ?n" "length (tx_host_id e') = 64"
      "\<And>j. j < ?n \<Longrightarrow> unat (cfm_index (ks2 ! j)) mod 64 = free_at e (Suc j) mod 64"
      "\<And>j. j < ?n \<Longrightarrow> tx_host_id e' ! (free_at e (Suc j) mod 64) = Some (ks2 ! (j + 64 * ((?n - 1 - j) div 64)))"
      "\<And>p. p < 64 \<Longrightarrow> (\<forall>j < ?n. free_at e (Suc j) mod 64 \<noteq> p) \<Longrightarrow> tx_host_id e' ! p = tx_host_id e1 ! p"
    using Cons.IH [OF q _ P(1)] Cons.prems(2,4) P(4) by (simp_all add: sl)
  have z: "tx_host_id e' ! (free_at e 0 mod 64) = Some (ks' ! (64 * (?n div 64)))"
  proof (cases "?n < 64")
    case True
    have "free_at e (Suc j) mod 64 \<noteq> free_at e 0 mod 64" if "j < ?n" for j
      using that True by (simp add: free_at_same_slot mod_eq_0_iff_dvd dvd_imp_le)
    then show ?thesis using IH(5) [of "free_at e 0 mod 64"] True P(4) Cons.prems(4) by (simp add: k' f)
  next
    case False
    have "free_at e 64 mod 64 = free_at e 0 mod 64" by (simp add: free_at_same_slot)
    moreover have "64 * (?n div 64) = Suc (63 + 64 * ((?n - 64) div 64))" using False by (simp add: le_div_geq)
    then have "ks' ! (64 * (?n div 64)) = ks2 ! (63 + 64 * ((?n - 64) div 64))" by (simp only: k' nth_Cons_Suc)
    ultimately show ?thesis using IH(4) [of 63] False by simp
  qed
  have s: "tx_host_id e' ! (free_at e j mod 64) = Some (ks' ! (j + 64 * ((?n - j) div 64)))
      \<and> unat (cfm_index (ks' ! j)) mod 64 = free_at e j mod 64" if "j < Suc ?n" for j
    using that z P(3) IH(3,4) by (cases j) (simp_all add: k' f)
  have u: "tx_host_id e' ! p = tx_host_id e ! p" if "p < 64" "\<forall>j < Suc ?n. free_at e j mod 64 \<noteq> p" for p
    using IH(5) [OF that(1)] that(2) P(4) f by (metis Suc_mono nth_list_update_neq zero_less_Suc)
  show ?case using s u IH(1,2) by (simp add: k')
qed simp

section \<open>Example: a sleeping station\<close>

text \<open>A station is set up, goes to sleep, and a buffer arrives for it.\<close>

definition ex_sta :: tx_sta where
  "ex_sta = \<lparr>sta_idx = 0, vif_idx = 0, qos = True, acm = 0, uapsd_tids = 0, mac_addr = [2, 0, 0, 0, 0, 1], ps_active = False,
     pkt_ready = (\<lambda>_. 0), sp_cnt = (\<lambda>_. 0), tdls_active = False, chsw_en = False\<rparr>"

definition ex_data :: "nat \<Rightarrow> tx_skb" where
  "ex_data n = \<lparr>sk_id = n, sk_txq = 0, sk_sta = Some 0, sk_mesh = False, sk_flags = 0, sk_fc = 0, sk_ethertype = 0x8e88, sk_raw_frame = False,
     sk_fixed_rate = False, sk_rate_config = 0, sk_need_cfm = False, sk_status_desc = 0, sk_hw_queue = 0\<rparr>"

definition ex_p0 :: tx_hw where "ex_p0 = tx_hw_init 0 0 [ex_sta]"
definition ex_p1 :: tx_hw where "ex_p1 = rwnx_txq_sta_init ex_p0 0 0"
definition ex_p2 :: tx_hw where "ex_p2 = rwnx_ps_bh_enable ex_p1 0 True"
definition ex_p3 :: tx_hw where "ex_p3 = snd (rwnx_txq_queue_skb ex_p2 (ex_data 5) 0 False)"

lemma ex_sleep_ops:
  "tx_can (StaInit 0 0) ex_p0" "tx_can (PsChange 0 True) ex_p1" "tx_can (Xmit (ex_data 5)) ex_p2"
  "fst (rwnx_txq_queue_skb ex_p2 (ex_data 5) 0 False) = False"
  by code_simp+

lemma ex_sleep_table:
  "map (\<lambda>st. (is_multicast_sta ex_p3 (sta_idx st), ps_active st, sp_cnt st 0, pkt_ready st 0)) (sta_table ex_p3) = [(False, True, 0, 1)]"
  by code_simp

lemma ex_sleep_facts:
  "length (sta_table ex_p3) = 1" "\<not> is_multicast_sta ex_p3 (sta_idx (sta_table ex_p3 ! 0))" "ps_active (sta_table ex_p3 ! 0)"
  "sp_cnt (sta_table ex_p3 ! 0) 0 = 0" "pkt_ready (sta_table ex_p3 ! 0) 0 = 1"
  using ex_sleep_table by (auto simp: map_eq_Cons_conv)

lemma ex_data_sel [simp]: "sk_id (ex_data n) = n" "sk_txq (ex_data n) = 0" "needs_cfm (ex_data n)"
  by (simp_all add: ex_data_def needs_cfm_def)

lemma ex_sleep_init: "tx_init (ex_p0, \<lambda>i. [])"
  unfolding tx_init_def ex_p0_def by (intro exI [of _ 0] exI [of _ "0 :: nat"] exI [of _ "[ex_sta]"]) (simp add: ex_sta_def)

lemma tx_run_op: "\<exists>g. tx_step\<^sup>*\<^sup>* s (h, g) \<Longrightarrow> tx_can a h \<Longrightarrow> tx_do a h = Inr h' \<Longrightarrow> \<exists>g. tx_step\<^sup>*\<^sup>* s (h', g)"
  by (meson rtranclp.rtrancl_into_rtrancl tx_step.op)

lemma ex_sleep_run: "\<exists>g. tx_step\<^sup>*\<^sup>* (ex_p0, \<lambda>i. []) (ex_p3, g)"
proof -
  have q: "rwnx_txq_queue_skb ex_p2 (ex_data 5) 0 False = (False, ex_p3)"
    by (rule prod_eqI) (simp_all add: ex_sleep_ops(4) ex_p3_def)
  have "\<exists>g. tx_step\<^sup>*\<^sup>* (ex_p0, \<lambda>i. []) (ex_p0, g)" by blast
  then have "\<exists>g. tx_step\<^sup>*\<^sup>* (ex_p0, \<lambda>i. []) (ex_p1, g)" by (rule tx_run_op [OF _ ex_sleep_ops(1)]) (simp add: ex_p1_def)
  then have "\<exists>g. tx_step\<^sup>*\<^sup>* (ex_p0, \<lambda>i. []) (ex_p2, g)" by (rule tx_run_op [OF _ ex_sleep_ops(2)]) (simp add: ex_p2_def)
  then show ?thesis by (rule tx_run_op [OF _ ex_sleep_ops(3)]) (simp add: xmit_skb_def q)
qed

lemma ex_awake_queue:
  "(let t = txq ex_p1 ! 0 in (rwnx_txq_is_stopped t, last_retry_skb t, idx t, credits t, hwq t, rwnx_txq_is_scheduled t,
      length (txq ex_p1), length (hwqs ex_p1), sched_list (hwqs ex_p1 ! Suc 0))) =
   (False, None, 0, 64, Suc 0, False, 297, 5, [])"
  by code_simp

lemmas ex_awake_facts = ex_awake_queue [unfolded Let_def prod.inject]

definition ex_ring :: usb_host_env where
  "ex_ring = \<lparr>txdesc_free_idx = 0x3fffffff, tx_host_id = replicate 64 None\<rparr>"

section \<open>Properties\<close>

text \<open>
  C26: A service period is shared greedily in order of priority. In every state reached by calls whose caller-side
  conditions hold (\<open>tx_can\<close>: among them that no confirmation asks for a retry), let a sleeping station other than the one for group
  traffic ask for buffers, with no service period of that kind (legacy or U-APSD) in progress, some packet of that kind ready, and the request not
  being the announcement of an interrupted U-APSD service period. Its
  queues are served in the order of \<open>nx_tid_prio\<close>, each gets as many pushes as it can use and the request
  still allows (the reference \<open>sp_greedy\<close>), the queues that get some are scheduled, the others are untouched,
  and the service period counter is the smaller of the request and what the queues can supply.
\<close>

theorem service_period_greedy:
  assumes "tx_init s0" and "tx_step\<^sup>*\<^sup>* s0 (h, g)"
    and "s < length (sta_table h)" and "\<not> is_multicast_sta h (sta_idx (sta_table h ! s))"
    and "ps_active (sta_table h ! s)" and "sp_cnt (sta_table h ! s) pid = 0" and "pkt_ready (sta_table h ! s) pid \<noteq> 0"
    and "\<not> (pkt_req = PS_SP_INTERRUPTED \<and> pid = UAPSD_ID)"
    and "req = (if pkt_req = 0 \<or> pkt_ready (sta_table h ! s) pid < pkt_req then uint (pkt_ready (sta_table h ! s) pid) else uint pkt_req)"
    and "want = map (sp_want h s pid) nx_tid_prio" and "h' = rwnx_ps_bh_traffic_req h s pkt_req pid"
  shows "sp_granted h s nx_tid_prio (sp_greedy req want) h'
    \<and> sp_cnt (sta_table h' ! s) pid = of_int (min req (sum_list want))"
  using tx_queues.reachable_inv [OF assms(1,2)] by (intro traffic_req_granted [OF _ assms(3-11)]) (simp add: tx_inv_def)

theorem service_period_greedy_witness:
  "sp_granted ex_p3 0 nx_tid_prio (sp_greedy 1 (map (sp_want ex_p3 0 0) nx_tid_prio)) (rwnx_ps_bh_traffic_req ex_p3 0 0 0)
    \<and> sp_cnt (sta_table (rwnx_ps_bh_traffic_req ex_p3 0 0 0) ! 0) 0 = of_int (min 1 (sum_list (map (sp_want ex_p3 0 0) nx_tid_prio)))"
proof -
  obtain g where r: "tx_step\<^sup>*\<^sup>* (ex_p0, \<lambda>i. []) (ex_p3, g)" using ex_sleep_run by blast
  show ?thesis
    by (rule service_period_greedy [OF ex_sleep_init r, where pkt_req = 0, OF _ _ _ _ _ _ _ refl refl]) (simp_all add: ex_sleep_facts)
qed

text \<open>
  Retried buffers go out first and in the order of their confirmations: from a queue that is running and has no retry
  pending, the retries end up before every buffer that waits, in the order in which they were confirmed.
\<close>

lemma tx_retry_order:
  assumes "list_all (\<lambda>k. sk_txq k = i) ks" and "i < length (txq h)" and "\<not> rwnx_txq_is_stopped (txq h ! i)"
    and "last_retry_skb (txq h ! i) = None" and "distinct (map sk_id ks)"
  shows "map sk_id (sk_list (txq (tx_retries sw ks h) ! i)) = map sk_id ks @ map sk_id (sk_list (txq h ! i))"
  using tx_retries_ok [of i ks h "[]" "sk_list (txq h ! i)" sw] assms by (simp add: comp_def)

lemma tx_retry_order_example: "map sk_id (sk_list (txq (tx_retries True [ex_data 5, ex_data 6] ex_p1) ! 0)) = [5, 6] @ map sk_id (sk_list (txq ex_p1 ! 0))"
  using tx_retry_order [of 0 "[ex_data 5, ex_data 6]" ex_p1 True] by (simp add: ex_awake_facts)

text \<open>
  Retries exhaust the credit counter. A retry adds a credit that no push takes back, so 64 retries of a
  queue take its signed 8-bit counter from the initial 64 to -128, and processing its hardware queue hits
  \<open>BUG_ON(txq->credits <= 0)\<close>.
\<close>

lemma tx_retry_credit_overflow:
  assumes "list_all (\<lambda>k. sk_txq k = i) ks" and "i < length (txq h)" and "\<not> rwnx_txq_is_stopped (txq h ! i)"
    and "last_retry_skb (txq h ! i) = None" and "distinct (map sk_id ks)" and "length ks = 64"
    and "idx (txq h ! i) \<noteq> TXQ_INACTIVE" and "credits (txq h ! i) = NX_TXQ_INITIAL_CREDITS"
    and "q = hwq (txq h ! i)" and "q < length (hwqs h)" and "sched_list (hwqs h ! q) = []" and "\<not> rwnx_txq_is_scheduled (txq h ! i)"
  shows "rwnx_hwq_process (tx_retries sw ks h) q = Inl KernelBug"
proof -
  obtain k ks' where ks: "ks = k # ks'" using assms(6) by (cases ks) auto
  let ?h = "tx_retries sw ks h"
  have k: "sk_txq k = i" using assms(1) ks by simp
  note e = tx_retry_effect [OF k assms(2,3), of sw]
  have s: "rwnx_txq_is_scheduled (txq ?h ! i)" "hwqs ?h = hwqs (rwnx_tx_retry h k sw)"
    using tx_retries_scheduled [of i ks' "rwnx_tx_retry h k sw" sw] assms(1,2) e(5,6,7) by (simp_all add: ks)
  have l: "sched_list (hwqs ?h ! q) = [i]" using assms(9-12) by (simp add: s e(8))
  have c: "credits (txq ?h ! i) = 128" "length (txq ?h) = length (txq h)" "idx (txq ?h ! i) = idx (txq h ! i)"
    using tx_retries_ok [of i ks h "[]" "sk_list (txq h ! i)" sw] assms by simp_all
  have "sint (128 :: u8) \<le> 0" by code_simp
  then show ?thesis using s(1) c assms(2,7) unfolding rwnx_hwq_process_def l by (simp add: list_first_def hwq_round_def)
qed

lemma tx_retry_credit_overflow_example: "rwnx_hwq_process (tx_retries False (map ex_data [0 ..< 64]) ex_p1) 1 = Inl KernelBug"
  by (rule tx_retry_credit_overflow [of 0]) (simp_all add: ex_awake_facts list_all_iff comp_def del: upt_Suc upt_rec_numeral)

text \<open>
  C27: Confirmations find their buffer while at most 64 are outstanding. Of the buffers pushed with a confirmation
  request, the index in the descriptor of the \<open>j\<close>-th leads the confirmation handler to that very buffer, also
  across the wrap of the index at \<open>0x40000000\<close>; once 64 more have been pushed it leads to the last one
  that reused the slot, and the \<open>j\<close>-th is lost.
\<close>

theorem usb_cfm_roundtrip:
  assumes "push_descs e ks = (e', ks')" and "list_all needs_cfm ks" and "txdesc_free_idx e < 0x40000000" and "length (tx_host_id e) = 64"
    and "j < length ks" and "usb_env h = e'" and "used = cfm_index (ks' ! j)"
    and "m = j + 64 * ((length ks - 1 - j) div 64)"
  shows "aicwf_usb_host_tx_cfm_handler h st used =
      rwnx_txdatacfm (h\<lparr>usb_env := e'\<lparr>tx_host_id := (tx_host_id e')[unat used mod 64 := None]\<rparr>\<rparr>) (ks' ! m) st
    \<and> (length ks \<le> j + 64 \<longleftrightarrow> m = j)"
proof -
  have "unat used mod 64 = free_at e j mod 64" "tx_host_id e' ! (free_at e j mod 64) = Some (ks' ! m)"
    using push_descs_ring [OF assms(1-4)] assms(5,7,8) by simp_all
  then have "tx_host_id e' ! (unat used mod 64) = Some (ks' ! m)" by simp
  moreover have "length ks \<le> j + 64 \<longleftrightarrow> m = j"
    using assms(5) by (auto simp: assms(8) div_eq_0_iff)
  ultimately show ?thesis by (simp add: aicwf_usb_host_tx_cfm_handler_def Let_def assms(6))
qed

theorem usb_cfm_roundtrip_witness:
  "\<exists>e' ks'. push_descs ex_ring [ex_data 5, ex_data 6] = (e', ks')
     \<and> aicwf_usb_host_tx_cfm_handler (ex_p1\<lparr>usb_env := e'\<rparr>) 0 (cfm_index (ks' ! 1)) =
       rwnx_txdatacfm (ex_p1\<lparr>usb_env := e'\<lparr>tx_host_id := (tx_host_id e')[unat (cfm_index (ks' ! 1)) mod 64 := None]\<rparr>\<rparr>) (ks' ! 1) 0"
proof -
  obtain e' ks' where p: "push_descs ex_ring [ex_data 5, ex_data 6] = (e', ks')" by (cases "push_descs ex_ring [ex_data 5, ex_data 6]")
  show ?thesis
    using usb_cfm_roundtrip [OF p, of 1 "ex_p1\<lparr>usb_env := e'\<rparr>" _ _ 0, OF _ _ _ _ _ refl refl] p by (simp add: ex_ring_def)
qed

text \<open>
  Interrupting a service period lifts its limit instead of ending it. On \<open>PS_SP_INTERRUPTED\<close> the driver
  clears the push limit of every queue of the sleeping station but leaves the queues on the scheduling lists,
  and a limit of 0 means no limit: the next processing takes as many buffers as the credits allow.
\<close>

lemma sp_interrupt_lifts_limit:
  assumes "ps_active (sta_table h ! s)" and "i \<in> set (sta_txqs h s)" and "i < length (txq h)"
    and "sint (credits (txq h ! i)) \<ge> int (length (sk_list (txq h ! i)))"
    and "h' = rwnx_ps_bh_traffic_req h s PS_SP_INTERRUPTED UAPSD_ID"
  shows "hwqs h' = hwqs h \<and> rwnx_txq_is_scheduled (txq h' ! i) = rwnx_txq_is_scheduled (txq h ! i)
    \<and> ps_active (sta_table h' ! s) \<and> rwnx_txq_get_skb_to_push (txq h' ! i) = (sk_list (txq h ! i), [], True)"
proof -
  let ?f = "\<lambda>t :: rwnx_txq. t\<lparr>push_limit := 0\<rparr>" and ?h = "sta_upd h s (\<lambda>st. st\<lparr>sp_cnt := (sp_cnt st)(UAPSD_ID := 0)\<rparr>)"
  have e: "h' = fold (\<lambda>i h. txq_upd h i ?f) (sta_txqs h s) ?h"
    using assms(1,5) by (simp add: rwnx_ps_bh_traffic_req_def)
  have l: "hwqs (fold (\<lambda>i h. txq_upd h i ?f) xs g) = hwqs g \<and> sta_table (fold (\<lambda>i h. txq_upd h i ?f) xs g) = sta_table g
      \<and> (i < length (txq g) \<longrightarrow> txq (fold (\<lambda>i h. txq_upd h i ?f) xs g) ! i = (if i \<in> set xs then ?f (txq g ! i) else txq g ! i))" for xs g
  proof (induction xs arbitrary: g)
    case (Cons x xs)
    show ?case using Cons.IH [of "txq_upd g x ?f"] by (cases "x = i") (auto simp: txq_upd_def)
  qed simp
  have "txq h' ! i = ?f (txq h ! i)" "hwqs h' = hwqs h" "ps_active (sta_table h' ! s)"
    using l [of "sta_txqs h s" ?h] assms(1-3) by (simp_all add: e sta_upd_nth)
  then show ?thesis
    using assms(4) by (simp add: rwnx_txq_is_scheduled_def rwnx_txq_get_skb_to_push_def rwnx_txq_get_credits_def)
qed

lemma sp_interrupt_lifts_limit_example:
  "rwnx_txq_get_skb_to_push (txq (rwnx_ps_bh_traffic_req ex_p3 0 PS_SP_INTERRUPTED UAPSD_ID) ! 0) = (sk_list (txq ex_p3 ! 0), [], True)"
proof -
  have "0 \<in> set (sta_txqs ex_p3 0) \<and> 0 < length (txq ex_p3) \<and> int (length (sk_list (txq ex_p3 ! 0))) \<le> sint (credits (txq ex_p3 ! 0))"
    by code_simp
  then have f: "0 \<in> set (sta_txqs ex_p3 0)" "0 < length (txq ex_p3)" "int (length (sk_list (txq ex_p3 ! 0))) \<le> sint (credits (txq ex_p3 ! 0))"
    by blast+
  show ?thesis using sp_interrupt_lifts_limit [OF ex_sleep_facts(3) f refl] by blast
qed

end
