(* ===== verification/Md5.thy ===== *)
theory Md5
  imports Prelude
begin

text \<open>
  The MD5 digest of md5.c and md5.h, which the firmware loader prints for the files it reads. The definitions
  follow the C functions; the reference below is the digest of RFC 1321 over whole messages, with the rounds
  as a loop over tables.
\<close>

section \<open>The code\<close>

type_synonym md5_state = "u32 \<times> u32 \<times> u32 \<times> u32"

record MD5_CTX =
  count0 :: u32
  count1 :: u32
  md5_st :: md5_state
  md5_buffer :: "u8 list"

definition PADDING :: "u8 list" where
  "PADDING = 0x80 # replicate 63 0"

definition MD5Init :: "MD5_CTX \<Rightarrow> MD5_CTX" where
  "MD5Init ctx = ctx\<lparr>count0 := 0, count1 := 0, md5_st := (0x67452301, 0xEFCDAB89, 0x98BADCFE, 0x10325476)\<rparr>"

definition F :: "u32 \<Rightarrow> u32 \<Rightarrow> u32 \<Rightarrow> u32" where
  "F x y z = (x AND y) OR (NOT x AND z)"

definition G :: "u32 \<Rightarrow> u32 \<Rightarrow> u32 \<Rightarrow> u32" where
  "G x y z = (x AND z) OR (y AND NOT z)"

definition H :: "u32 \<Rightarrow> u32 \<Rightarrow> u32 \<Rightarrow> u32" where
  "H x y z = x XOR y XOR z"

definition I :: "u32 \<Rightarrow> u32 \<Rightarrow> u32 \<Rightarrow> u32" where
  "I x y z = y XOR (x OR NOT z)"

definition ROTATE_LEFT :: "u32 \<Rightarrow> nat \<Rightarrow> u32" where
  "ROTATE_LEFT x n = push_bit n x OR drop_bit (32 - n) x"

text \<open>The macros assign their first argument; here they return its new value.\<close>

definition FF :: "u32 \<Rightarrow> u32 \<Rightarrow> u32 \<Rightarrow> u32 \<Rightarrow> u32 \<Rightarrow> nat \<Rightarrow> u32 \<Rightarrow> u32" where
  "FF a b c d x s ac = ROTATE_LEFT (a + (F b c d + x + ac)) s + b"

definition GG :: "u32 \<Rightarrow> u32 \<Rightarrow> u32 \<Rightarrow> u32 \<Rightarrow> u32 \<Rightarrow> nat \<Rightarrow> u32 \<Rightarrow> u32" where
  "GG a b c d x s ac = ROTATE_LEFT (a + (G b c d + x + ac)) s + b"

definition HH :: "u32 \<Rightarrow> u32 \<Rightarrow> u32 \<Rightarrow> u32 \<Rightarrow> u32 \<Rightarrow> nat \<Rightarrow> u32 \<Rightarrow> u32" where
  "HH a b c d x s ac = ROTATE_LEFT (a + (H b c d + x + ac)) s + b"

definition II :: "u32 \<Rightarrow> u32 \<Rightarrow> u32 \<Rightarrow> u32 \<Rightarrow> u32 \<Rightarrow> nat \<Rightarrow> u32 \<Rightarrow> u32" where
  "II a b c d x s ac = ROTATE_LEFT (a + (I b c d + x + ac)) s + b"

fun MD5Decode :: "u8 list \<Rightarrow> u32 list" where
  "MD5Decode (b0 # b1 # b2 # b3 # bs) =
     (ucast b0 OR push_bit 8 (ucast b1) OR push_bit 16 (ucast b2) OR push_bit 24 (ucast b3)) # MD5Decode bs"
| "MD5Decode _ = []"

fun MD5Encode :: "u32 list \<Rightarrow> u8 list" where
  "MD5Encode [] = []"
| "MD5Encode (w # ws) =
     ucast (w AND 0xFF) # ucast (drop_bit 8 w AND 0xFF) # ucast (drop_bit 16 w AND 0xFF) # ucast (drop_bit 24 w AND 0xFF)
     # MD5Encode ws"

definition md5_round1 :: "u32 list \<Rightarrow> md5_state \<Rightarrow> md5_state" where
  "md5_round1 x = (\<lambda>(a, b, c, d).
     let a = FF a b c d (x ! 0) 7 0xd76aa478;
         d = FF d a b c (x ! 1) 12 0xe8c7b756;
         c = FF c d a b (x ! 2) 17 0x242070db;
         b = FF b c d a (x ! 3) 22 0xc1bdceee;
         a = FF a b c d (x ! 4) 7 0xf57c0faf;
         d = FF d a b c (x ! 5) 12 0x4787c62a;
         c = FF c d a b (x ! 6) 17 0xa8304613;
         b = FF b c d a (x ! 7) 22 0xfd469501;
         a = FF a b c d (x ! 8) 7 0x698098d8;
         d = FF d a b c (x ! 9) 12 0x8b44f7af;
         c = FF c d a b (x ! 10) 17 0xffff5bb1;
         b = FF b c d a (x ! 11) 22 0x895cd7be;
         a = FF a b c d (x ! 12) 7 0x6b901122;
         d = FF d a b c (x ! 13) 12 0xfd987193;
         c = FF c d a b (x ! 14) 17 0xa679438e;
         b = FF b c d a (x ! 15) 22 0x49b40821
     in (a, b, c, d))"

definition md5_round2 :: "u32 list \<Rightarrow> md5_state \<Rightarrow> md5_state" where
  "md5_round2 x = (\<lambda>(a, b, c, d).
     let a = GG a b c d (x ! 1) 5 0xf61e2562;
         d = GG d a b c (x ! 6) 9 0xc040b340;
         c = GG c d a b (x ! 11) 14 0x265e5a51;
         b = GG b c d a (x ! 0) 20 0xe9b6c7aa;
         a = GG a b c d (x ! 5) 5 0xd62f105d;
         d = GG d a b c (x ! 10) 9 0x2441453;
         c = GG c d a b (x ! 15) 14 0xd8a1e681;
         b = GG b c d a (x ! 4) 20 0xe7d3fbc8;
         a = GG a b c d (x ! 9) 5 0x21e1cde6;
         d = GG d a b c (x ! 14) 9 0xc33707d6;
         c = GG c d a b (x ! 3) 14 0xf4d50d87;
         b = GG b c d a (x ! 8) 20 0x455a14ed;
         a = GG a b c d (x ! 13) 5 0xa9e3e905;
         d = GG d a b c (x ! 2) 9 0xfcefa3f8;
         c = GG c d a b (x ! 7) 14 0x676f02d9;
         b = GG b c d a (x ! 12) 20 0x8d2a4c8a
     in (a, b, c, d))"

definition md5_round3 :: "u32 list \<Rightarrow> md5_state \<Rightarrow> md5_state" where
  "md5_round3 x = (\<lambda>(a, b, c, d).
     let a = HH a b c d (x ! 5) 4 0xfffa3942;
         d = HH d a b c (x ! 8) 11 0x8771f681;
         c = HH c d a b (x ! 11) 16 0x6d9d6122;
         b = HH b c d a (x ! 14) 23 0xfde5380c;
         a = HH a b c d (x ! 1) 4 0xa4beea44;
         d = HH d a b c (x ! 4) 11 0x4bdecfa9;
         c = HH c d a b (x ! 7) 16 0xf6bb4b60;
         b = HH b c d a (x ! 10) 23 0xbebfbc70;
         a = HH a b c d (x ! 13) 4 0x289b7ec6;
         d = HH d a b c (x ! 0) 11 0xeaa127fa;
         c = HH c d a b (x ! 3) 16 0xd4ef3085;
         b = HH b c d a (x ! 6) 23 0x4881d05;
         a = HH a b c d (x ! 9) 4 0xd9d4d039;
         d = HH d a b c (x ! 12) 11 0xe6db99e5;
         c = HH c d a b (x ! 15) 16 0x1fa27cf8;
         b = HH b c d a (x ! 2) 23 0xc4ac5665
     in (a, b, c, d))"

definition md5_round4 :: "u32 list \<Rightarrow> md5_state \<Rightarrow> md5_state" where
  "md5_round4 x = (\<lambda>(a, b, c, d).
     let a = II a b c d (x ! 0) 6 0xf4292244;
         d = II d a b c (x ! 7) 10 0x432aff97;
         c = II c d a b (x ! 14) 15 0xab9423a7;
         b = II b c d a (x ! 5) 21 0xfc93a039;
         a = II a b c d (x ! 12) 6 0x655b59c3;
         d = II d a b c (x ! 3) 10 0x8f0ccc92;
         c = II c d a b (x ! 10) 15 0xffeff47d;
         b = II b c d a (x ! 1) 21 0x85845dd1;
         a = II a b c d (x ! 8) 6 0x6fa87e4f;
         d = II d a b c (x ! 15) 10 0xfe2ce6e0;
         c = II c d a b (x ! 6) 15 0xa3014314;
         b = II b c d a (x ! 13) 21 0x4e0811a1;
         a = II a b c d (x ! 4) 6 0xf7537e82;
         d = II d a b c (x ! 11) 10 0xbd3af235;
         c = II c d a b (x ! 2) 15 0x2ad7d2bb;
         b = II b c d a (x ! 9) 21 0xeb86d391
     in (a, b, c, d))"

definition MD5Transform :: "md5_state \<Rightarrow> u8 list \<Rightarrow> md5_state" where
  "MD5Transform st block =
     (let x = MD5Decode block in
      case st of (s0, s1, s2, s3) \<Rightarrow>
      case md5_round4 x (md5_round3 x (md5_round2 x (md5_round1 x (s0, s1, s2, s3)))) of
        (a, b, c, d) \<Rightarrow> (s0 + a, s1 + b, s2 + c, s3 + d))"

definition memcpy_at :: "'a list \<Rightarrow> nat \<Rightarrow> 'a list \<Rightarrow> 'a list" where
  "memcpy_at dst off src = take off dst @ src @ drop (off + length src) dst"

text \<open>
  The loop over the whole blocks of the input, with its 32-bit index; the input has \<open>inputlen\<close> bytes, and
  a block that starts less than 64 bytes before its end is read beyond it.
\<close>

function md5_loop :: "u8 list \<Rightarrow> u32 \<Rightarrow> md5_state \<Rightarrow> u32 \<Rightarrow> fault + md5_state \<times> u32" where
  "md5_loop input inputlen st i =
     (if i + 64 \<le> inputlen then
        if unat i + 64 \<le> unat inputlen then md5_loop input inputlen (MD5Transform st (take 64 (drop (unat i) input))) (i + 64)
        else Inl OutOfBounds
      else Inr (st, i))"
  by pat_completeness auto

lemma unat_add_64: "unat i + 64 \<le> unat (n :: u32) \<Longrightarrow> unat (i + 64 :: u32) = unat i + 64"
  using unat_u32_less [of n] by (simp add: unat_word_ariths)

termination md5_loop
  by (relation "measure (\<lambda>(input, n, st, i). unat n - unat i)") (auto simp: unat_add_64)

declare md5_loop.simps [simp del]

definition MD5Update :: "MD5_CTX \<Rightarrow> u8 list \<Rightarrow> u32 \<Rightarrow> fault + MD5_CTX" where
  "MD5Update ctx input inputlen =
     (let index = unat (drop_bit 3 (count0 ctx) AND 0x3F);
          partlen = 64 - index;
          c0 = count0 ctx + push_bit 3 inputlen;
          c1 = (if c0 < push_bit 3 inputlen then count1 ctx + 1 else count1 ctx) + drop_bit 29 inputlen;
          ctx1 = ctx\<lparr>count0 := c0, count1 := c1\<rparr>
      in if length input < unat inputlen then Inl OutOfBounds
         else if unat inputlen \<ge> partlen then
           let buf = memcpy_at (md5_buffer ctx) index (take partlen input)
           in (case md5_loop input inputlen (MD5Transform (md5_st ctx) buf) (of_nat partlen) of
                 Inl e \<Rightarrow> Inl e
               | Inr (st, i) \<Rightarrow>
                   Inr (ctx1\<lparr>md5_st := st, md5_buffer := memcpy_at buf 0 (take (unat inputlen - unat i) (drop (unat i) input))\<rparr>))
         else Inr (ctx1\<lparr>md5_buffer := memcpy_at (md5_buffer ctx) index (take (unat inputlen) input)\<rparr>))"

definition MD5Final :: "MD5_CTX \<Rightarrow> fault + u8 list" where
  "MD5Final ctx =
     (let index = drop_bit 3 (count0 ctx) AND 0x3F;
          padlen = (if index < 56 then 56 - index else 120 - index);
          bits = MD5Encode [count0 ctx, count1 ctx]
      in case MD5Update ctx PADDING padlen of
           Inl e \<Rightarrow> Inl e
         | Inr ctx1 \<Rightarrow>
             (case MD5Update ctx1 bits 8 of
                Inl e \<Rightarrow> Inl e
              | Inr ctx2 \<Rightarrow> (case md5_st ctx2 of (a, b, c, d) \<Rightarrow> Inr (MD5Encode [a, b, c, d]))))"

section \<open>The reference: RFC 1321\<close>

definition md5_f :: "nat \<Rightarrow> u32 \<Rightarrow> u32 \<Rightarrow> u32 \<Rightarrow> u32" where
  "md5_f i b c d =
     (if i < 16 then (b AND c) OR (NOT b AND d)
      else if i < 32 then (d AND b) OR (NOT d AND c)
      else if i < 48 then b XOR c XOR d
      else c XOR (b OR NOT d))"

definition md5_g :: "nat \<Rightarrow> nat" where
  "md5_g i =
     (if i < 16 then i else if i < 32 then (5 * i + 1) mod 16 else if i < 48 then (3 * i + 5) mod 16 else 7 * i mod 16)"

definition md5_s :: "nat \<Rightarrow> nat" where
  "md5_s i = [[7, 12, 17, 22], [5, 9, 14, 20], [4, 11, 16, 23], [6, 10, 15, 21]] ! (i div 16) ! (i mod 4)"

definition md5_K :: "u32 list" where
  "md5_K =
     [0xd76aa478, 0xe8c7b756, 0x242070db, 0xc1bdceee, 0xf57c0faf, 0x4787c62a, 0xa8304613, 0xfd469501,
      0x698098d8, 0x8b44f7af, 0xffff5bb1, 0x895cd7be, 0x6b901122, 0xfd987193, 0xa679438e, 0x49b40821,
      0xf61e2562, 0xc040b340, 0x265e5a51, 0xe9b6c7aa, 0xd62f105d, 0x2441453, 0xd8a1e681, 0xe7d3fbc8,
      0x21e1cde6, 0xc33707d6, 0xf4d50d87, 0x455a14ed, 0xa9e3e905, 0xfcefa3f8, 0x676f02d9, 0x8d2a4c8a,
      0xfffa3942, 0x8771f681, 0x6d9d6122, 0xfde5380c, 0xa4beea44, 0x4bdecfa9, 0xf6bb4b60, 0xbebfbc70,
      0x289b7ec6, 0xeaa127fa, 0xd4ef3085, 0x4881d05, 0xd9d4d039, 0xe6db99e5, 0x1fa27cf8, 0xc4ac5665,
      0xf4292244, 0x432aff97, 0xab9423a7, 0xfc93a039, 0x655b59c3, 0x8f0ccc92, 0xffeff47d, 0x85845dd1,
      0x6fa87e4f, 0xfe2ce6e0, 0xa3014314, 0x4e0811a1, 0xf7537e82, 0xbd3af235, 0x2ad7d2bb, 0xeb86d391]"

definition md5_step :: "u32 list \<Rightarrow> nat \<Rightarrow> md5_state \<Rightarrow> md5_state" where
  "md5_step x i = (\<lambda>(a, b, c, d). (d, b + word_rotl (md5_s i) (a + md5_f i b c d + md5_K ! i + x ! md5_g i), b, c))"

definition le_bytes :: "nat \<Rightarrow> nat \<Rightarrow> u8 list" where
  "le_bytes n v = map (\<lambda>k. of_nat (v div 256 ^ k)) [0 ..< n]"

definition md5_words :: "u8 list \<Rightarrow> u32 list" where
  "md5_words block = map (\<lambda>j. of_nat (\<Sum>k \<leftarrow> [0 ..< 4]. unat (block ! (4 * j + k)) * 256 ^ k)) [0 ..< length block div 4]"

definition md5_compress :: "md5_state \<Rightarrow> u8 list \<Rightarrow> md5_state" where
  "md5_compress st block =
     (case (st, fold (md5_step (md5_words block)) [0 ..< 64] st) of
        ((s0, s1, s2, s3), (a, b, c, d)) \<Rightarrow> (s0 + a, s1 + b, s2 + c, s3 + d))"

fun blocks64 :: "'a list \<Rightarrow> 'a list list" where
  "blocks64 xs = (if length xs < 64 then [] else take 64 xs # blocks64 (drop 64 xs))"

declare blocks64.simps [simp del]

definition md5_pad :: "u8 list \<Rightarrow> u8 list" where
  "md5_pad msg =
     msg @ 0x80 # replicate ((119 - length msg mod 64) mod 64) 0 @ le_bytes 8 (8 * length msg)"

definition md5_digest :: "u8 list \<Rightarrow> u8 list" where
  "md5_digest msg =
     (case foldl md5_compress (0x67452301, 0xEFCDAB89, 0x98BADCFE, 0x10325476) (blocks64 (md5_pad msg)) of
        (a, b, c, d) \<Rightarrow> concat (map (\<lambda>w. le_bytes 4 (unat w)) [a, b, c, d]))"

section \<open>The rounds\<close>

lemma ROTATE_LEFT_rotl:
  assumes "0 < n" and "n < 32"
  shows "ROTATE_LEFT x n = word_rotl n x"
proof (rule bit_word_eqI)
  fix k assume "k < LENGTH(32)"
  then have k: "k < 32" by simp
  show "bit (ROTATE_LEFT x n) k = bit (word_rotl n x) k"
  proof (cases "k < n")
    case True
    then have "(k + (32 - n)) mod 32 = 32 - n + k" using assms by simp
    then show ?thesis using assms k True by (simp add: ROTATE_LEFT_def bit_or_iff bit_push_bit_iff bit_drop_bit_eq bit_word_rotl_iff)
  next
    case False
    then have "(k + (32 - n)) mod 32 = k - n" using assms k by (simp add: mod_if)
    moreover have "\<not> bit x (32 - n + k)" using bit_imp_le_length [of x "32 - n + k"] assms False by auto
    ultimately show ?thesis using assms k False by (simp add: ROTATE_LEFT_def bit_or_iff bit_push_bit_iff bit_drop_bit_eq bit_word_rotl_iff)
  qed
qed

text \<open>A binding the simplifier leaves alone, so that the results of the steps stay shared.\<close>

definition md5_let :: "'a \<Rightarrow> ('a \<Rightarrow> 'b) \<Rightarrow> 'b" where
  "md5_let e g = g e"

lemma Let_md5_let: "Let e g = md5_let e g"
  by (simp add: md5_let_def)

lemma md5_step_let: "md5_step x i (md5_let e g) = md5_let e (\<lambda>v. md5_step x i (g v))"
  by (simp add: md5_let_def)

definition md5_val :: "u32 list \<Rightarrow> nat \<Rightarrow> u32 \<Rightarrow> u32 \<Rightarrow> u32 \<Rightarrow> u32 \<Rightarrow> u32" where
  "md5_val x i a b c d = b + word_rotl (md5_s i) (a + md5_f i b c d + md5_K ! i + x ! md5_g i)"

lemma md5_step_val: "md5_step x i (a, b, c, d) = md5_let (md5_val x i a b c d) (\<lambda>v. (d, v, b, c))"
  by (simp add: md5_step_def md5_let_def md5_val_def)

lemma md5_s_bounds: "i < 64 \<Longrightarrow> 0 < md5_s i \<and> md5_s i < 32"
proof -
  have "list_all (\<lambda>i. 0 < md5_s i \<and> md5_s i < 32) [0 ..< 64]" by code_simp
  then show "i < 64 \<Longrightarrow> ?thesis" by (simp add: list_all_iff)
qed

lemma md5_val_round:
  "i < 16 \<Longrightarrow> md5_val x i a b c d = FF a b c d (x ! md5_g i) (md5_s i) (md5_K ! i)"
  "16 \<le> i \<Longrightarrow> i < 32 \<Longrightarrow> md5_val x i a b c d = GG a b c d (x ! md5_g i) (md5_s i) (md5_K ! i)"
  "32 \<le> i \<Longrightarrow> i < 48 \<Longrightarrow> md5_val x i a b c d = HH a b c d (x ! md5_g i) (md5_s i) (md5_K ! i)"
  "48 \<le> i \<Longrightarrow> i < 64 \<Longrightarrow> md5_val x i a b c d = II a b c d (x ! md5_g i) (md5_s i) (md5_K ! i)"
  using md5_s_bounds [of i]
  by (simp_all add: md5_val_def FF_def GG_def HH_def II_def md5_f_def F_def G_def H_def I_def ROTATE_LEFT_rotl ac_simps)

lemma upt_16:
  "[0 ..< 16] = [0, 1, 2, 3, 4, 5, 6, 7, 8, 9, 10, 11, 12, 13, 14, 15]"
  "[16 ..< 32] = [16, 17, 18, 19, 20, 21, 22, 23, 24, 25, 26, 27, 28, 29, 30, 31]"
  "[32 ..< 48] = [32, 33, 34, 35, 36, 37, 38, 39, 40, 41, 42, 43, 44, 45, 46, 47]"
  "[48 ..< 64] = [48, 49, 50, 51, 52, 53, 54, 55, 56, 57, 58, 59, 60, 61, 62, 63]"
  by code_simp+

lemmas md5_unroll = fold_simps(2) fold_simps(1) md5_step_val md5_step_let prod.case Let_md5_let
lemmas md5_tables = md5_val_round md5_s_def md5_g_def md5_K_def

lemma md5_round1_fold: "md5_round1 x st = fold (md5_step x) [0 ..< 16] st"
  by (cases st) (simp only: upt_16 md5_round1_def md5_unroll, simp add: md5_tables)

lemma md5_round2_fold: "md5_round2 x st = fold (md5_step x) [16 ..< 32] st"
  by (cases st) (simp only: upt_16 md5_round2_def md5_unroll, simp add: md5_tables)

lemma md5_round3_fold: "md5_round3 x st = fold (md5_step x) [32 ..< 48] st"
  by (cases st) (simp only: upt_16 md5_round3_def md5_unroll, simp add: md5_tables)

lemma md5_round4_fold: "md5_round4 x st = fold (md5_step x) [48 ..< 64] st"
  by (cases st) (simp only: upt_16 md5_round4_def md5_unroll, simp add: md5_tables)

lemma md5_rounds_fold: "md5_round4 x (md5_round3 x (md5_round2 x (md5_round1 x st))) = fold (md5_step x) [0 ..< 64] st"
proof -
  have "[0 ..< 64] = [0 ..< 16] @ [16 ..< 32] @ [32 ..< 48] @ [48 ..< 64]"
    using upt_add_eq_append [of 0 16 16] upt_add_eq_append [of 0 32 16] upt_add_eq_append [of 0 48 16] by simp
  then show ?thesis by (simp only: md5_round1_fold md5_round2_fold md5_round3_fold md5_round4_fold fold_append comp_def)
qed

section \<open>Bytes and words\<close>

lemma upt_4: "[0 ..< 4] = [0, 1, 2, 3 :: nat]"
  by code_simp

lemma of_nat_byte: "of_nat (unat w div 256 ^ k) = (ucast (drop_bit (8 * k) w) :: u8)" for w :: u32
proof -
  have "unat (drop_bit (8 * k) w) = unat w div 256 ^ k"
    using unat_drop_bit_eq [of "8 * k" w] by (simp only: drop_bit_eq_div [where 'a = nat] power_mult) simp
  then show ?thesis using of_nat_unat [of "drop_bit (8 * k) w"] by simp
qed

lemma le_bytes_4: "le_bytes 4 (unat w) = [ucast w, ucast (drop_bit 8 w), ucast (drop_bit 16 w), ucast (drop_bit 24 w)]" for w :: u32
  unfolding le_bytes_def upt_4 of_nat_byte by simp

lemma MD5Encode_le_bytes: "MD5Encode ws = concat (map (\<lambda>w. le_bytes 4 (unat w)) ws)"
proof (induction ws)
  case (Cons w ws)
  have m: "(0xFF :: u32) = mask 8" by (simp add: mask_eq_exp_minus_1)
  have "(ucast (v AND 0xFF) :: u8) = ucast v" for v :: u32
    unfolding m by (rule bit_word_eqI) (auto simp: bit_simps bit_unsigned_iff)
  then show ?case using Cons by (simp add: le_bytes_4)
qed simp

lemma bit_u8: "bit (b :: u8) n \<Longrightarrow> n < 8"
  using bit_imp_le_length [of b n] by simp

lemma or_bytes:
  "(ucast b0 OR push_bit 8 (ucast b1) OR push_bit 16 (ucast b2) OR push_bit 24 (ucast b3) :: u32) =
     ucast b0 + push_bit 8 (ucast b1) + push_bit 16 (ucast b2) + push_bit 24 (ucast b3)" for b0 b1 b2 b3 :: u8
proof -
  note B = bit_push_bit_iff bit_unsigned_iff bit_or_iff
  have 1: "push_bit 16 (ucast b2) OR push_bit 24 (ucast b3 :: u32) = push_bit 16 (ucast b2) + push_bit 24 (ucast b3)"
    by (rule disjunctive_add [symmetric]) (auto simp: B dest!: bit_u8)
  have 2: "push_bit 8 (ucast b1) OR (push_bit 16 (ucast b2) OR push_bit 24 (ucast b3 :: u32)) =
      push_bit 8 (ucast b1) + (push_bit 16 (ucast b2) OR push_bit 24 (ucast b3 :: u32))"
    by (rule disjunctive_add [symmetric]) (auto simp: B dest!: bit_u8)
  have 3: "ucast b0 OR (push_bit 8 (ucast b1) OR (push_bit 16 (ucast b2) OR push_bit 24 (ucast b3 :: u32))) =
      ucast b0 + (push_bit 8 (ucast b1) OR (push_bit 16 (ucast b2) OR push_bit 24 (ucast b3 :: u32)))"
    by (rule disjunctive_add [symmetric]) (auto simp: B dest!: bit_u8)
  show ?thesis by (subst 3, subst 2, subst 1) (simp only: add.assoc)
qed

lemma length_4_Suc:
  assumes "length bs = 4 * Suc n"
  obtains b0 b1 b2 b3 cs where "bs = b0 # b1 # b2 # b3 # cs" and "length cs = 4 * n"
proof -
  have "length bs = Suc (Suc (Suc (Suc (4 * n))))" using assms by simp
  then show thesis using that by (auto simp: length_Suc_conv)
qed

lemma MD5Decode_nth:
  "length bs = 4 * n \<Longrightarrow> MD5Decode bs = map (\<lambda>j. of_nat (\<Sum>k \<leftarrow> [0 ..< 4]. unat (bs ! (4 * j + k)) * 256 ^ k)) [0 ..< n]"
proof (induction n arbitrary: bs)
  case (Suc n)
  from length_4_Suc [OF Suc.prems] obtain b0 b1 b2 b3 cs where b: "bs = b0 # b1 # b2 # b3 # cs" and l: "length cs = 4 * n" .
  have d: "MD5Decode bs = (ucast b0 + push_bit 8 (ucast b1) + push_bit 16 (ucast b2) + push_bit 24 (ucast b3)) # MD5Decode cs"
    by (simp only: b MD5Decode.simps or_bytes)
  show ?case
    unfolding d upt_conv_Cons [OF zero_less_Suc] map_Suc_upt [symmetric]
    using Suc.IH [OF l] by (simp add: b upt_4 push_bit_eq_mult ac_simps nth_Cons' comp_def)
qed simp

lemma MD5Transform_compress:
  assumes "length block = 64"
  shows "MD5Transform st block = md5_compress st block"
proof -
  have "MD5Decode block = md5_words block" using MD5Decode_nth [of block 16] assms by (simp add: md5_words_def)
  then show ?thesis by (cases st) (simp add: MD5Transform_def md5_compress_def Let_def md5_rounds_fold)
qed

section \<open>Blocks\<close>

lemma blocks64_short [simp]: "length xs < 64 \<Longrightarrow> blocks64 xs = []"
  by (simp add: blocks64.simps)

lemma blocks64_block: "length xs = 64 \<Longrightarrow> blocks64 (xs @ ys) = xs # blocks64 ys"
  by (subst blocks64.simps) simp

lemma blocks64_append: "length xs = 64 * n \<Longrightarrow> blocks64 (xs @ ys) = blocks64 xs @ blocks64 ys"
proof (induction n arbitrary: xs)
  case (Suc n)
  then have l: "length (take 64 xs) = 64" "length (drop 64 xs) = 64 * n" by simp_all
  have "blocks64 (take 64 xs @ (drop 64 xs @ ys)) = (take 64 xs # blocks64 (drop 64 xs)) @ blocks64 ys"
    using blocks64_block [OF l(1)] Suc.IH [OF l(2)] by simp
  moreover have "blocks64 (take 64 xs @ drop 64 xs) = take 64 xs # blocks64 (drop 64 xs)" by (rule blocks64_block [OF l(1)])
  ultimately show ?case by (simp flip: append_assoc)
qed simp

definition md5_absorb :: "md5_state \<Rightarrow> u8 list \<Rightarrow> md5_state" where
  "md5_absorb st xs = foldl MD5Transform st (blocks64 xs)"

definition tail64 :: "'a list \<Rightarrow> 'a list" where
  "tail64 xs = drop (64 * (length xs div 64)) xs"

lemma length_tail64 [simp]: "length (tail64 xs) = length xs mod 64"
  by (simp add: tail64_def minus_mult_div_eq_mod)

lemma head64_tail64: obtains ys where "xs = ys @ tail64 xs" and "length ys = 64 * (length xs div 64)"
  using that [of "take (64 * (length xs div 64)) xs"] by (simp add: tail64_def)

lemma md5_absorb_append: "md5_absorb st (xs @ ys) = md5_absorb (md5_absorb st xs) (tail64 xs @ ys)"
proof -
  obtain zs where z: "xs = zs @ tail64 xs" "length zs = 64 * (length xs div 64)" by (rule head64_tail64)
  have "blocks64 (zs @ tail64 xs) = blocks64 zs" "blocks64 (zs @ tail64 xs @ ys) = blocks64 zs @ blocks64 (tail64 xs @ ys)"
    using blocks64_append [OF z(2)] by simp_all
  then show ?thesis using z(1) by (metis append_assoc foldl_append md5_absorb_def)
qed

lemma tail64_append: "tail64 (xs @ ys) = tail64 (tail64 xs @ ys)"
proof -
  obtain zs where z: "xs = zs @ tail64 xs" "length zs = 64 * (length xs div 64)" by (rule head64_tail64)
  let ?t = "tail64 xs @ ys"
  have "length (xs @ ys) = 64 * (length xs div 64) + length ?t" by (simp add: add.commute)
  then have "length (xs @ ys) div 64 = length xs div 64 + length ?t div 64" by (metis div_mult_self2 zero_neq_numeral add.commute)
  then have "tail64 (xs @ ys) = drop (64 * (length xs div 64) + 64 * (length ?t div 64)) (zs @ ?t)"
    using z(1) by (metis append_assoc distrib_left tail64_def)
  then show ?thesis using z(2) by (simp add: tail64_def)
qed

lemma absorb_block: "length b = 64 \<Longrightarrow> md5_absorb st (b @ ys) = md5_absorb (MD5Transform st b) ys"
  by (simp add: md5_absorb_def blocks64_block)

lemma tail64_block: "length b = 64 \<Longrightarrow> tail64 (b @ ys) = tail64 ys"
  using tail64_append [of b ys] by (simp add: tail64_def)

lemma tail64_short: "length xs < 64 \<Longrightarrow> tail64 xs = xs"
  by (simp add: tail64_def)

section \<open>Streaming\<close>

lemma md5_loop_ok:
  assumes "unat n + 64 < 4294967296" and "unat i \<le> unat n" and "unat n \<le> length input"
    and "data = drop (unat i) (take (unat n) input)"
  shows "\<exists>i'. md5_loop input n st i = Inr (md5_absorb st data, i') \<and> drop (unat i') (take (unat n) input) = tail64 data"
  using assms
proof (induction input n st i arbitrary: data rule: md5_loop.induct)
  case (1 input n st i)
  have u: "unat (i + 64) = unat i + 64" using 1(2,3) by (simp add: unat_word_ariths)
  have le: "i + 64 \<le> n \<longleftrightarrow> unat i + 64 \<le> unat n" by (simp add: word_le_nat_alt u)
  show ?case
  proof (cases "i + 64 \<le> n")
    case True
    let ?b = "take 64 (drop (unat i) input)"
    have b: "length ?b = 64" using True 1(4) by (simp add: le)
    have "take 64 data = ?b" "drop 64 data = drop (unat (i + 64)) (take (unat n) input)"
      using True by (simp_all add: 1(5) u le drop_take add.commute)
    then have d: "data = ?b @ drop (unat (i + 64)) (take (unat n) input)"
      using append_take_drop_id [of 64 data] by (simp only:)
    show ?thesis
      using 1(1) [OF True _ 1(2) _ 1(4) refl, of] True
      by (simp add: md5_loop.simps [of input n st i] le u d absorb_block [OF b] tail64_block [OF b])
  next
    case False
    then have "length data < 64" using 1(4) by (auto simp: 1(5) le)
    then show ?thesis using False by (simp add: md5_loop.simps [of input n st i] md5_absorb_def tail64_short 1(5))
  qed
qed

text \<open>What a context stands for: the message it has taken in.\<close>

definition md5_count :: "MD5_CTX \<Rightarrow> int" where
  "md5_count ctx = uint (count0 ctx) + 4294967296 * uint (count1 ctx)"

definition md5_ok :: "MD5_CTX \<Rightarrow> u8 list \<Rightarrow> bool" where
  "md5_ok ctx msg \<longleftrightarrow>
     length (md5_buffer ctx) = 64 \<and> md5_count ctx = 8 * int (length msg) mod 2 ^ 64
     \<and> md5_st ctx = md5_absorb (0x67452301, 0xEFCDAB89, 0x98BADCFE, 0x10325476) msg
     \<and> take (length msg mod 64) (md5_buffer ctx) = tail64 msg"

lemma md5_ok_init: "length (md5_buffer ctx) = 64 \<Longrightarrow> md5_ok (MD5Init ctx) []"
  by (simp add: md5_ok_def MD5Init_def md5_count_def md5_absorb_def tail64_def)

lemma mod_square:
  fixes d t M :: int
  assumes "0 \<le> d" and "d < M"
  shows "(d + M * t) mod (M * M) = d + M * (t mod M)"
proof -
  have "(d + M * t) div M = t" "(d + M * t) mod M = d" using assms by simp_all
  then show ?thesis using zmod_zmult2_eq [of M "d + M * t" M] assms by simp
qed

lemma carry_count:
  fixes c0 c1 m :: int
  assumes "0 \<le> c0" "c0 < 4294967296" "0 \<le> m"
  defines "p \<equiv> 8 * m mod 4294967296"
  defines "d0 \<equiv> (c0 + p) mod 4294967296"
  shows "d0 + 4294967296 * (((if d0 < p then c1 + 1 else c1) + m div 536870912) mod 4294967296) =
      (c0 + 4294967296 * c1 + 8 * m) mod 18446744073709551616"
proof -
  have "8 * m div (8 * 536870912) = m div 536870912" by (rule div_mult_mult1) simp
  then have q: "8 * m = p + 4294967296 * (m div 536870912)"
    using div_mult_mod_eq [of "8 * m" 4294967296] by (simp add: p_def)
  have p: "0 \<le> p" "p < 4294967296" by (simp_all add: p_def)
  have d: "c0 + p = d0 + 4294967296 * (if d0 < p then 1 else 0)" "0 \<le> d0" "d0 < 4294967296"
  proof -
    show "0 \<le> d0" "d0 < 4294967296" by (simp_all add: d0_def)
    show "c0 + p = d0 + 4294967296 * (if d0 < p then 1 else 0)"
    proof (cases "c0 + p < 4294967296")
      case True
      then show ?thesis using assms(1) p(1) by (simp add: d0_def)
    next
      case False
      then have "(c0 + p - 4294967296) mod 4294967296 = c0 + p - 4294967296" using assms(2) p by (intro mod_pos_pos_trivial) simp_all
      then have "d0 = c0 + p - 4294967296" by (simp add: d0_def)
      then show ?thesis using assms(2) by simp
    qed
  qed
  let ?t = "(if d0 < p then c1 + 1 else c1) + m div 536870912"
  have "c0 + 4294967296 * c1 + 8 * m = d0 + 4294967296 * ?t" using d(1) q by (auto simp: algebra_simps)
  moreover have "(18446744073709551616 :: int) = 4294967296 * 4294967296" by simp
  ultimately show ?thesis using mod_square [OF d(2,3), of ?t] by (simp only:)
qed

lemma md5_index:
  assumes "md5_count ctx = 8 * int (length msg) mod 2 ^ 64"
  shows "unat (drop_bit 3 (count0 ctx) AND 0x3F) = length msg mod 64"
proof -
  have "uint (count0 ctx) = md5_count ctx mod 4294967296"
    using uint_lt2p [of "count0 ctx"] by (simp add: md5_count_def)
  also have "\<dots> = 8 * int (length msg) mod 4294967296" unfolding assms by (rule mod_mod_cancel) simp
  finally have u: "uint (count0 ctx) = 8 * int (length msg) mod 4294967296" .
  have m: "(0x3F :: u32) = mask 6" by (simp add: mask_eq_exp_minus_1)
  have "unat (drop_bit 3 (count0 ctx) AND mask 6) = drop_bit 3 (unat (count0 ctx)) mod 64"
    unfolding take_bit_eq_mask [symmetric] unsigned_take_bit_eq unat_drop_bit_eq by (simp add: take_bit_eq_mod)
  also have "\<dots> = nat (uint (count0 ctx)) div 8 mod 64" unfolding drop_bit_eq_div unat_eq_nat_uint by simp
  also have "nat (uint (count0 ctx)) = 8 * (length msg mod 536870912)"
  proof -
    have "8 * int (length msg) mod (8 * 536870912) = 8 * (int (length msg) mod 536870912)" by (rule mult_mod_right [symmetric])
    moreover have "(8 * 536870912 :: int) = 4294967296" by simp
    ultimately have "uint (count0 ctx) = int (8 * (length msg mod 536870912))" by (simp add: u zmod_int)
    then show ?thesis by (simp only: nat_int)
  qed
  also have "8 * (length msg mod 536870912) div 8 mod 64 = length msg mod 64"
    using mod_mod_cancel [of 64 536870912 "length msg"] by simp
  finally show ?thesis unfolding m .
qed

lemma md5_count_update:
  assumes "md5_count ctx = 8 * int l mod 2 ^ 64"
  shows "uint (count0 ctx + push_bit 3 n) + 4294967296 * uint
      ((if count0 ctx + push_bit 3 n < push_bit 3 n then count1 ctx + 1 else count1 ctx) + drop_bit 29 n) =
    8 * int (l + unat n) mod 2 ^ 64"
proof -
  let ?p = "8 * uint n mod 4294967296"
  have p: "uint (push_bit 3 n) = ?p" by (simp add: push_bit_eq_mult uint_word_ariths mult.commute)
  have s: "uint (count0 ctx + push_bit 3 n) = (uint (count0 ctx) + ?p) mod 4294967296"
    unfolding uint_word_ariths p by simp
  have d: "uint (drop_bit 29 n) = uint n div 536870912" 
    using uint_lt2p [of n] unfolding unsigned_drop_bit_eq by (simp add: drop_bit_eq_div take_bit_int_eq_self)
  have c: "uint ((if count0 ctx + push_bit 3 n < push_bit 3 n then count1 ctx + 1 else count1 ctx) + drop_bit 29 n) =
      ((if uint (count0 ctx + push_bit 3 n) < ?p then uint (count1 ctx) + 1 else uint (count1 ctx)) + uint n div 536870912) mod 4294967296"
    by (simp add: word_less_def p d uint_word_ariths(1) [of "count1 ctx"] uint_word_ariths(1) [of "count1 ctx + 1"] mod_simps)
  have "uint (count0 ctx) < 4294967296" using uint_lt2p [of "count0 ctx"] by simp
  then have "(uint (count0 ctx) + ?p) mod 4294967296 + 4294967296 * (((if (uint (count0 ctx) + ?p) mod 4294967296 < ?p then uint (count1 ctx) + 1
      else uint (count1 ctx)) + uint n div 536870912) mod 4294967296) = (md5_count ctx + 8 * uint n) mod 18446744073709551616"
    unfolding md5_count_def by (intro carry_count) simp_all
  also have "\<dots> = (8 * int l + 8 * uint n) mod 2 ^ 64" unfolding assms by (simp add: mod_simps)
  also have "\<dots> = 8 * int (l + unat n) mod 2 ^ 64" by (simp add: algebra_simps)
  finally show ?thesis unfolding c unfolding s .
qed

lemma length_memcpy_at: "off + length src \<le> length dst \<Longrightarrow> length (memcpy_at dst off src) = length dst"
  by (simp add: memcpy_at_def)

text \<open>Taking in a chunk appends it to the message.\<close>

lemma MD5Update_ok:
  assumes ok: "md5_ok ctx msg" and n: "unat n + 64 < 4294967296" "unat n \<le> length input" and d: "data = take (unat n) input"
  shows "\<exists>ctx'. MD5Update ctx input n = Inr ctx' \<and> md5_ok ctx' (msg @ data)"
proof -
  define ix where "ix = length msg mod 64"
  have ix: "unat (drop_bit 3 (count0 ctx) AND 0x3F) = ix" "ix < 64" using md5_index [of ctx msg] ok by (simp_all add: md5_ok_def ix_def)
  have b: "length (md5_buffer ctx) = 64" "take ix (md5_buffer ctx) = tail64 msg" "length (tail64 msg) = ix"
    using ok by (simp_all add: md5_ok_def ix_def)
  have l: "length data = unat n" using n d by simp
  let ?c0 = "count0 ctx + push_bit 3 n"
  let ?c1 = "(if ?c0 < push_bit 3 n then count1 ctx + 1 else count1 ctx) + drop_bit 29 n"
  have cnt: "uint ?c0 + 4294967296 * uint ?c1 = 8 * int (length (msg @ data)) mod 2 ^ 64"
    using md5_count_update [of ctx "length msg" n] ok l by (simp add: md5_ok_def)
  have st: "md5_st ctx = md5_absorb (0x67452301, 0xEFCDAB89, 0x98BADCFE, 0x10325476) msg" using ok by (simp add: md5_ok_def)
  have nn: "\<not> length input < unat n" using n by simp
  show ?thesis
  proof (cases "64 - ix \<le> unat n")
    case True
    define i where "i = (of_nat (64 - ix) :: u32)"
    have ui: "unat i = 64 - ix" unfolding i_def by (rule unat_of_nat_u32) simp
    let ?blk = "tail64 msg @ take (64 - ix) data"
    have buf: "memcpy_at (md5_buffer ctx) ix (take (64 - ix) input) = ?blk"
      using True n b ix d by (simp add: memcpy_at_def)
    have lb: "length ?blk = 64" using b(3) ix True l by simp
    have s: "tail64 msg @ data = ?blk @ drop (64 - ix) data" by simp
    obtain i' where r: "md5_loop input n (MD5Transform (md5_st ctx) ?blk) i = Inr (md5_absorb (MD5Transform (md5_st ctx) ?blk) (drop (64 - ix) data), i')"
        and t: "drop (unat i') data = tail64 (drop (64 - ix) data)"
      using md5_loop_ok [of n i input "drop (64 - ix) data" "MD5Transform (md5_st ctx) ?blk"] n True ui d by auto
    have a: "md5_absorb (md5_st ctx) (tail64 msg @ data) = md5_absorb (MD5Transform (md5_st ctx) ?blk) (drop (64 - ix) data)"
        "tail64 (tail64 msg @ data) = drop (unat i') data"
      unfolding s by (simp_all only: absorb_block [OF lb] tail64_block [OF lb] t)
    have tl: "take (unat n - unat i') (drop (unat i') input) = drop (unat i') data" by (simp add: d drop_take)
    have len: "length (drop (unat i') data) = length (msg @ data) mod 64" using a(2) tail64_append [of msg data] length_tail64 [of "msg @ data"] by simp
    then have m: "take (length (msg @ data) mod 64) (memcpy_at ?blk 0 (drop (unat i') data)) = drop (unat i') data"
      unfolding memcpy_at_def by simp
    have "length (memcpy_at ?blk 0 (drop (unat i') data)) = 64" using length_memcpy_at [of 0 "drop (unat i') data" ?blk] len lb by simp
    then have "md5_ok (ctx\<lparr>count0 := ?c0, count1 := ?c1, md5_st := md5_absorb (MD5Transform (md5_st ctx) ?blk) (drop (64 - ix) data),
        md5_buffer := memcpy_at ?blk 0 (drop (unat i') data)\<rparr>) (msg @ data)"
      unfolding a(1) [symmetric] using cnt st m a(2) tail64_append [of msg data] md5_absorb_append [of _ msg data]
      by (simp add: md5_ok_def md5_count_def)
    moreover have "MD5Update ctx input n = Inr (ctx\<lparr>count0 := ?c0, count1 := ?c1, md5_st := md5_absorb (MD5Transform (md5_st ctx) ?blk) (drop (64 - ix) data),
        md5_buffer := memcpy_at ?blk 0 (drop (unat i') data)\<rparr>)"
      using True nn by (simp add: MD5Update_def Let_def ix(1) buf r tl flip: i_def)
    ultimately show ?thesis by blast
  next
    case False
    have a: "md5_absorb (md5_st ctx) (tail64 msg @ data) = md5_st ctx" "tail64 (tail64 msg @ data) = tail64 msg @ data"
      using False b(3) l by (simp_all add: md5_absorb_def tail64_short)
    have "length (msg @ data) mod 64 = ix + length data"
      using False l length_tail64 [of "msg @ data"] tail64_append [of msg data] a(2) b(3) by simp
    then show ?thesis
      using False nn cnt st a tail64_append [of msg data] md5_absorb_append [of _ msg data] b l ix(2)
      by (simp add: MD5Update_def Let_def ix(1) md5_ok_def md5_count_def memcpy_at_def flip: d)
  qed
qed

section \<open>Finishing\<close>

lemma le_bytes_take_bit: "le_bytes 4 (take_bit 32 v) = le_bytes 4 v"
proof -
  have "(of_nat (take_bit 32 v div 256 ^ k) :: u8) = of_nat (v div 256 ^ k)" if "k < 4" for k
  proof -
    have p: "x div 256 ^ k = drop_bit (8 * k) x" for x :: nat by (simp add: drop_bit_eq_div power_mult)
    show ?thesis unfolding p using that by (intro bit_word_eqI) (auto simp: bit_simps)
  qed
  then show ?thesis by (simp add: le_bytes_def)
qed

lemma le_bytes_8: "le_bytes 8 v = le_bytes 4 v @ le_bytes 4 (v div 4294967296)"
proof -
  have "[0 ..< 8] = [0 ..< 4] @ map (\<lambda>k. k + 4) [0 ..< (4 :: nat)]" by code_simp
  moreover have "v div 256 ^ (k + 4) = v div 4294967296 div 256 ^ k" for k :: nat
  proof -
    have "(256 :: nat) ^ (k + 4) = 4294967296 * 256 ^ k" by (simp add: power_add)
    then show ?thesis by (simp only: div_mult2_eq)
  qed
  ultimately show ?thesis by (simp only: le_bytes_def map_append map_map comp_def)
qed

lemma count_bytes:
  assumes "md5_count ctx = 8 * int l mod 2 ^ 64"
  shows "MD5Encode [count0 ctx, count1 ctx] = le_bytes 8 (8 * l)"
proof -
  have u: "uint (count0 ctx) < 4294967296" "0 \<le> uint (count0 ctx)" using uint_lt2p [of "count0 ctx"] by simp_all
  have m: "(2 ^ 64 :: int) = 4294967296 * 4294967296" by simp
  have t: "int (take_bit 32 k) = int k mod 4294967296" for k :: nat by (simp add: take_bit_eq_mod zmod_int)
  have "uint (count0 ctx) = md5_count ctx mod 4294967296" using u by (simp add: md5_count_def)
  also have "\<dots> = 8 * int l mod 4294967296" unfolding assms by (rule mod_mod_cancel) simp
  also have "\<dots> = int (take_bit 32 (8 * l))" unfolding t by simp
  finally have 0: "uint (count0 ctx) = int (take_bit 32 (8 * l))" .
  have "uint (count1 ctx) = md5_count ctx div 4294967296" using u by (simp add: md5_count_def)
  also have "\<dots> = 8 * int l div 4294967296 mod 4294967296" unfolding assms m by (subst zmod_zmult2_eq) simp_all
  also have "\<dots> = int (take_bit 32 (8 * l div 4294967296))" unfolding t zdiv_int by simp
  finally have 1: "uint (count1 ctx) = int (take_bit 32 (8 * l div 4294967296))" .
  have "unat (count0 ctx) = take_bit 32 (8 * l)" "unat (count1 ctx) = take_bit 32 (8 * l div 4294967296)"
    by (simp_all only: unat_eq_nat_uint nat_int 0 1)
  then show ?thesis by (simp add: MD5Encode_le_bytes le_bytes_take_bit le_bytes_8)
qed

lemma take_PADDING: "0 < n \<Longrightarrow> n \<le> 64 \<Longrightarrow> take n PADDING = 0x80 # replicate (n - 1) 0"
  by (simp add: PADDING_def take_Cons' min_def)

lemma pad_zeros: "m < 64 \<Longrightarrow> (119 - m) mod 64 = (if m < 56 then 55 - m else 119 - m)" for m :: nat
  using le_mod_geq [of 64 "119 - m"] by simp

lemma MD5Final_ok:
  assumes "md5_ok ctx msg"
  shows "MD5Final ctx = Inr (md5_digest msg)"
proof -
  define ix where "ix = drop_bit 3 (count0 ctx) AND 0x3F"
  define pl where "pl = (if ix < 56 then 56 - ix else 120 - ix)"
  define ps where "ps = take (unat pl) PADDING"
  have c: "md5_count ctx = 8 * int (length msg) mod 2 ^ 64" using assms by (simp add: md5_ok_def)
  have u: "unat ix = length msg mod 64" using md5_index [OF c] by (simp add: ix_def)
  then have "unat ix < 64" by simp
  then have p: "unat pl = (if unat ix < 56 then 56 - unat ix else 120 - unat ix)"
    by (simp add: pl_def unat_sub word_less_nat_alt word_le_nat_alt)
  then have z: "0 < unat pl" "unat pl \<le> 64" "unat pl - 1 = (119 - length msg mod 64) mod 64"
    using \<open>unat ix < 64\<close> pad_zeros [of "unat ix"] by (auto simp flip: u split: if_splits)
  have "length PADDING = 64" by (simp add: PADDING_def)
  then obtain ctx1 where 1: "MD5Update ctx PADDING pl = Inr ctx1" "md5_ok ctx1 (msg @ ps)"
    using MD5Update_ok [OF assms, of pl PADDING] z by (auto simp: ps_def)
  let ?bits = "MD5Encode [count0 ctx, count1 ctx]"
  have b: "?bits = le_bytes 8 (8 * length msg)" "length ?bits = 8" using count_bytes [OF c] by (simp_all add: le_bytes_def)
  obtain ctx2 where 2: "MD5Update ctx1 ?bits 8 = Inr ctx2" "md5_ok ctx2 ((msg @ ps) @ ?bits)"
    using MD5Update_ok [OF 1(2), of 8 ?bits] b(2) by auto
  have "(msg @ ps) @ ?bits = md5_pad msg" using b(1) take_PADDING [OF z(1,2)] z(3) by (simp add: md5_pad_def ps_def)
  then have st: "md5_st ctx2 = md5_absorb (0x67452301, 0xEFCDAB89, 0x98BADCFE, 0x10325476) (md5_pad msg)"
    using 2(2) by (simp add: md5_ok_def)
  have "foldl MD5Transform st (blocks64 xs) = foldl md5_compress st (blocks64 xs)" for st xs
  proof (induction xs arbitrary: st rule: blocks64.induct)
    case (1 xs)
    then show ?case by (subst (1 2) blocks64.simps) (simp add: MD5Transform_compress)
  qed
  then have f: "md5_st ctx2 = foldl md5_compress (0x67452301, 0xEFCDAB89, 0x98BADCFE, 0x10325476) (blocks64 (md5_pad msg))"
    using st by (simp add: md5_absorb_def)
  obtain a b c d where q: "md5_st ctx2 = (a, b, c, d)" by (cases "md5_st ctx2")
  have "MD5Final ctx = Inr (MD5Encode [a, b, c, d])"
    using 1(1) 2(1) by (simp add: MD5Final_def Let_def q del: MD5Encode.simps flip: ix_def pl_def)
  moreover have "md5_digest msg = MD5Encode [a, b, c, d]"
    by (simp only: md5_digest_def f [symmetric] q prod.case MD5Encode_le_bytes)
  ultimately show ?thesis by simp
qed

fun MD5Updates :: "MD5_CTX \<Rightarrow> u8 list list \<Rightarrow> fault + MD5_CTX" where
  "MD5Updates ctx [] = Inr ctx"
| "MD5Updates ctx (c # cs) = (case MD5Update ctx c (of_nat (length c)) of Inl e \<Rightarrow> Inl e | Inr ctx' \<Rightarrow> MD5Updates ctx' cs)"

lemma MD5Updates_ok:
  "list_all (\<lambda>c. length c + 64 < 4294967296) cs \<Longrightarrow> md5_ok ctx msg \<Longrightarrow> \<exists>ctx'. MD5Updates ctx cs = Inr ctx' \<and> md5_ok ctx' (msg @ concat cs)"
proof (induction cs arbitrary: ctx msg)
  case (Cons c cs)
  have n: "unat (of_nat (length c) :: u32) = length c" using Cons.prems(1) by (intro unat_of_nat_u32) simp
  obtain ctx1 where "MD5Update ctx c (of_nat (length c)) = Inr ctx1" "md5_ok ctx1 (msg @ c)"
    using MD5Update_ok [OF Cons.prems(2), of "of_nat (length c)" c] Cons.prems(1) n by auto
  then show ?case using Cons.IH [of ctx1 "msg @ c"] Cons.prems(1) by simp
qed simp

section \<open>Property\<close>

text \<open>
  C40: The driver's MD5 computes the digest of RFC 1321: however a message is cut into chunks (each short of
  4 GiB by 64 bytes), initialising a context, taking in the chunks and finishing runs without a fault and gives
  the digest that the specification defines on the whole message, padded and compressed block by block with
  the 64 steps as a loop over the tables of shifts, word indices and constants.
\<close>

theorem md5_rfc1321:
  assumes "length (md5_buffer ctx) = 64" and "list_all (\<lambda>c. length c + 64 < 4294967296) chunks"
  shows "\<exists>ctx'. MD5Updates (MD5Init ctx) chunks = Inr ctx' \<and> MD5Final ctx' = Inr (md5_digest (concat chunks))"
  using MD5Updates_ok [OF assms(2) md5_ok_init [OF assms(1)]] MD5Final_ok by auto

theorem md5_rfc1321_witness:
  "\<exists>ctx'. MD5Updates (MD5Init \<lparr>count0 = 0, count1 = 0, md5_st = (0, 0, 0, 0), md5_buffer = replicate 64 0\<rparr>) [[97, 98], [99]] = Inr ctx'
     \<and> MD5Final ctx' = Inr (md5_digest [97, 98, 99])"
  using md5_rfc1321 [of "\<lparr>count0 = 0, count1 = 0, md5_st = (0, 0, 0, 0), md5_buffer = replicate 64 0\<rparr>" "[[97, 98], [99]]"] by simp

end
