(* ===== verification/Radar.thy ===== *)
theory Radar
  imports Prelude
begin

text \<open>
  Radar detection (rwnx_radar.c, rwnx_radar.h): the tables of radar patterns of the three DFS domains, the
  detectors that look for a regular pulse repetition interval (PRI), the pools their elements come from, the
  pattern detector of a chain, and the driver side with the ring of reported pulses and the channel
  availability check (CAC). Time stamps are 64-bit, intervals and counters 32-bit words, as in the code; the
  fields of the constant pattern tables are natural numbers.
\<close>

section \<open>Radar patterns\<close>

datatype radar_waveform_type = RADAR_WAVEFORM_SHORT | RADAR_WAVEFORM_WEATHER | RADAR_WAVEFORM_INTERLEAVED | RADAR_WAVEFORM_LONG

record radar_detector_specs =
  type_id :: nat
  width_min :: nat
  width_max :: nat
  pri_min :: nat
  pri_max :: nat
  num_pri :: nat
  ppb :: nat
  ppb_thresh :: nat
  max_pri_tolerance :: nat
  rs_type :: radar_waveform_type

abbreviation (input) PRI_TOLERANCE :: nat where "PRI_TOLERANCE \<equiv> 16"

definition PPB_THRESH :: "nat \<Rightarrow> nat" where
  "PPB_THRESH n = (n * 50 + 50) div 100"

definition PRF2PRI :: "nat \<Rightarrow> nat" where
  "PRF2PRI n = (1000000 + n div 2) div n"

definition ETSI_PATTERN_SHORT :: "nat \<Rightarrow> nat \<Rightarrow> nat \<Rightarrow> nat \<Rightarrow> nat \<Rightarrow> nat \<Rightarrow> radar_detector_specs" where
  "ETSI_PATTERN_SHORT i wmin wmax pmin pmax n =
     \<lparr>type_id = i, width_min = wmin, width_max = wmax, pri_min = PRF2PRI pmax - PRI_TOLERANCE,
      pri_max = PRF2PRI pmin + PRI_TOLERANCE, num_pri = 1, ppb = n, ppb_thresh = PPB_THRESH n,
      max_pri_tolerance = PRI_TOLERANCE, rs_type = RADAR_WAVEFORM_SHORT\<rparr>"

definition ETSI_PATTERN_INTERLEAVED :: "nat \<Rightarrow> nat \<Rightarrow> nat \<Rightarrow> nat \<Rightarrow> nat \<Rightarrow> nat \<Rightarrow> nat \<Rightarrow> nat \<Rightarrow> radar_detector_specs" where
  "ETSI_PATTERN_INTERLEAVED i wmin wmax pmin pmax prfmin prfmax n =
     \<lparr>type_id = i, width_min = wmin, width_max = wmax, pri_min = PRF2PRI pmax * prfmin - PRI_TOLERANCE,
      pri_max = PRF2PRI pmin * prfmax + PRI_TOLERANCE, num_pri = prfmax, ppb = n * prfmax, ppb_thresh = PPB_THRESH n,
      max_pri_tolerance = PRI_TOLERANCE, rs_type = RADAR_WAVEFORM_INTERLEAVED\<rparr>"

definition FCC_PATTERN :: "nat \<Rightarrow> nat \<Rightarrow> nat \<Rightarrow> nat \<Rightarrow> nat \<Rightarrow> nat \<Rightarrow> nat \<Rightarrow> radar_waveform_type \<Rightarrow> radar_detector_specs" where
  "FCC_PATTERN i wmin wmax pmin pmax prf n ty =
     \<lparr>type_id = i, width_min = wmin, width_max = wmax, pri_min = pmin - PRI_TOLERANCE,
      pri_max = pmax * prf + PRI_TOLERANCE, num_pri = prf, ppb = n * prf, ppb_thresh = PPB_THRESH n,
      max_pri_tolerance = PRI_TOLERANCE, rs_type = ty\<rparr>"

definition etsi_radar_ref_types_v17_riu :: "radar_detector_specs list" where
  "etsi_radar_ref_types_v17_riu =
     [ETSI_PATTERN_SHORT 0 0 8 700 700 18,
      ETSI_PATTERN_SHORT 1 0 10 200 1000 10,
      ETSI_PATTERN_SHORT 2 0 22 200 1600 15,
      ETSI_PATTERN_SHORT 3 0 22 2300 4000 25,
      ETSI_PATTERN_SHORT 4 20 38 2000 4000 20,
      ETSI_PATTERN_INTERLEAVED 5 0 8 300 400 2 3 10,
      ETSI_PATTERN_INTERLEAVED 6 0 8 400 1200 2 3 15]"

definition etsi_radar_ref_types_v17_fcu :: "radar_detector_specs list" where
  "etsi_radar_ref_types_v17_fcu =
     [ETSI_PATTERN_SHORT 0 0 8 700 700 18,
      ETSI_PATTERN_SHORT 1 0 8 200 1000 10,
      ETSI_PATTERN_SHORT 2 0 16 200 1600 15,
      ETSI_PATTERN_SHORT 3 0 16 2300 4000 25,
      ETSI_PATTERN_SHORT 4 20 34 2000 4000 20,
      ETSI_PATTERN_INTERLEAVED 5 0 8 300 400 2 3 10,
      ETSI_PATTERN_INTERLEAVED 6 0 8 400 1200 2 3 15]"

definition fcc_radar_ref_types_riu :: "radar_detector_specs list" where
  "fcc_radar_ref_types_riu =
     [FCC_PATTERN 0 0 8 1428 1428 1 18 RADAR_WAVEFORM_SHORT,
      FCC_PATTERN 1 0 8 518 3066 1 102 RADAR_WAVEFORM_WEATHER,
      FCC_PATTERN 2 0 8 150 230 1 23 RADAR_WAVEFORM_SHORT,
      FCC_PATTERN 3 6 20 200 500 1 16 RADAR_WAVEFORM_SHORT,
      FCC_PATTERN 4 10 28 200 500 1 12 RADAR_WAVEFORM_SHORT,
      FCC_PATTERN 5 50 110 1000 2000 1 8 RADAR_WAVEFORM_LONG,
      FCC_PATTERN 6 0 8 333 333 1 9 RADAR_WAVEFORM_SHORT]"

definition fcc_radar_ref_types_fcu :: "radar_detector_specs list" where
  "fcc_radar_ref_types_fcu =
     [FCC_PATTERN 0 0 8 1428 1428 1 18 RADAR_WAVEFORM_SHORT,
      FCC_PATTERN 1 0 8 518 3066 1 102 RADAR_WAVEFORM_WEATHER,
      FCC_PATTERN 2 0 8 150 230 1 23 RADAR_WAVEFORM_SHORT,
      FCC_PATTERN 3 6 12 200 500 1 16 RADAR_WAVEFORM_SHORT,
      FCC_PATTERN 4 10 22 200 500 1 12 RADAR_WAVEFORM_SHORT,
      FCC_PATTERN 5 50 104 1000 2000 1 8 RADAR_WAVEFORM_LONG,
      FCC_PATTERN 6 0 8 333 333 1 9 RADAR_WAVEFORM_SHORT]"

definition jp_radar_ref_types_riu :: "radar_detector_specs list" where
  "jp_radar_ref_types_riu =
     [FCC_PATTERN 0 0 4 1388 1388 1 18 RADAR_WAVEFORM_SHORT,
      FCC_PATTERN 1 0 4 1428 1428 1 18 RADAR_WAVEFORM_SHORT,
      FCC_PATTERN 2 0 4 4000 4000 1 18 RADAR_WAVEFORM_SHORT,
      FCC_PATTERN 3 0 6 150 230 1 23 RADAR_WAVEFORM_SHORT,
      FCC_PATTERN 4 6 12 200 500 1 16 RADAR_WAVEFORM_SHORT,
      FCC_PATTERN 5 10 22 200 500 1 12 RADAR_WAVEFORM_SHORT,
      FCC_PATTERN 6 48 110 1000 2000 1 8 RADAR_WAVEFORM_LONG,
      FCC_PATTERN 7 0 4 333 333 1 9 RADAR_WAVEFORM_SHORT]"

definition jp_radar_ref_types_fcu :: "radar_detector_specs list" where
  "jp_radar_ref_types_fcu = jp_radar_ref_types_riu"

datatype nl80211_dfs_regions = NL80211_DFS_UNSET | NL80211_DFS_FCC | NL80211_DFS_ETSI | NL80211_DFS_JP

datatype rwnx_radar_chain = RWNX_RADAR_RIU | RWNX_RADAR_FCU

definition dfs_domains :: "(nl80211_dfs_regions \<times> radar_detector_specs list \<times> radar_detector_specs list) list" where
  "dfs_domains =
     [(NL80211_DFS_ETSI, etsi_radar_ref_types_v17_riu, etsi_radar_ref_types_v17_fcu),
      (NL80211_DFS_FCC, fcc_radar_ref_types_riu, fcc_radar_ref_types_fcu),
      (NL80211_DFS_JP, jp_radar_ref_types_riu, jp_radar_ref_types_fcu)]"

text \<open>The tables of a domain for both chains; \<open>None\<close> for a domain that is not supported.\<close>

definition get_dfs_domain_radar_types :: "nl80211_dfs_regions \<Rightarrow> (radar_detector_specs list \<times> radar_detector_specs list) option" where
  "get_dfs_domain_radar_types region = map_option snd (find (\<lambda>d. fst d = region) dfs_domains)"

definition get_dfs_max_radar_types :: nat where
  "get_dfs_max_radar_types = foldl (\<lambda>m d. if length (fst (snd d)) > m then length (fst (snd d)) else m) 0 dfs_domains"

section \<open>Sequences, pulses and their pools\<close>

record pri_sequence =
  ps_pri :: u32
  ps_dur :: u32
  ps_count :: u32
  ps_count_falses :: u32
  ps_first_ts :: u64
  ps_last_ts :: u64
  ps_deadline_ts :: u64
  ps_ppb_thresh :: u8

text \<open>The queue of pulses holds their time stamps, the newest first.\<close>

record pri_detector =
  pd_rs :: radar_detector_specs
  pd_last_ts :: u64
  pd_sequences :: "pri_sequence list"
  pd_pulses :: "u64 list"
  pd_count :: u32
  pd_max_count :: u32
  pd_window_size :: u32
  pd_freq :: u16

text \<open>
  The pools with their reference counter. A free sequence keeps its old contents. \<open>rp_mem\<close> is the number of
  allocations the kernel can still serve, \<open>rp_fresh\<close> what newly allocated memory contains.
\<close>

record radar_pools =
  rp_refs :: u32
  rp_pulses :: nat
  rp_pseqs :: "pri_sequence list"
  rp_mem :: nat
  rp_fresh :: pri_sequence

definition pool_register_ref :: "radar_pools \<Rightarrow> radar_pools" where
  "pool_register_ref rp = rp\<lparr>rp_refs := rp_refs rp + 1\<rparr>"

definition pool_deregister_ref :: "radar_pools \<Rightarrow> radar_pools" where
  "pool_deregister_ref rp =
     (let rp1 = rp\<lparr>rp_refs := rp_refs rp - 1\<rparr> in
      if rp_refs rp1 = 0
      then rp1\<lparr>rp_pulses := 0, rp_pseqs := [], rp_mem := rp_mem rp + rp_pulses rp + length (rp_pseqs rp)\<rparr>
      else rp1)"

definition kmalloc :: "radar_pools \<Rightarrow> bool \<times> radar_pools" where
  "kmalloc rp = (if rp_mem rp = 0 then (False, rp) else (True, rp\<lparr>rp_mem := rp_mem rp - 1\<rparr>))"

definition pool_put_pulse_elem :: "radar_pools \<Rightarrow> radar_pools" where
  "pool_put_pulse_elem rp = rp\<lparr>rp_pulses := rp_pulses rp + 1\<rparr>"

definition pool_put_pseq_elem :: "pri_sequence \<Rightarrow> radar_pools \<Rightarrow> radar_pools" where
  "pool_put_pseq_elem ps rp = rp\<lparr>rp_pseqs := ps # rp_pseqs rp\<rparr>"

definition pool_get_pseq_elem :: "radar_pools \<Rightarrow> pri_sequence option \<times> radar_pools" where
  "pool_get_pseq_elem rp =
     (case rp_pseqs rp of
        ps # rest \<Rightarrow> (Some ps, rp\<lparr>rp_pseqs := rest\<rparr>)
      | [] \<Rightarrow> (case kmalloc rp of (True, rp') \<Rightarrow> (Some (rp_fresh rp), rp') | (False, rp') \<Rightarrow> (None, rp')))"

definition pool_get_pulse_elem :: "radar_pools \<Rightarrow> bool \<times> radar_pools" where
  "pool_get_pulse_elem rp = (if rp_pulses rp = 0 then (False, rp) else (True, rp\<lparr>rp_pulses := rp_pulses rp - 1\<rparr>))"

definition pulse_queue_dequeue :: "pri_detector \<times> radar_pools \<Rightarrow> pri_detector \<times> radar_pools" where
  "pulse_queue_dequeue = (\<lambda>(pde, rp).
     if pd_pulses pde = [] then (pde, rp)
     else (pde\<lparr>pd_pulses := butlast (pd_pulses pde), pd_count := pd_count pde - 1\<rparr>, pool_put_pulse_elem rp))"

text \<open>The loop of \<open>pulse_queue_check_window\<close>.\<close>

function drop_old :: "u64 \<Rightarrow> pri_detector \<times> radar_pools \<Rightarrow> pri_detector \<times> radar_pools" where
  "drop_old min_valid_ts (pde, rp) =
     (if pd_pulses pde = [] \<or> last (pd_pulses pde) \<ge> min_valid_ts then (pde, rp)
      else drop_old min_valid_ts (pulse_queue_dequeue (pde, rp)))"
  by pat_completeness auto

termination
  by (relation "measure (\<lambda>(_, pde, _). length (pd_pulses pde))") (auto simp: pulse_queue_dequeue_def)

declare drop_old.simps [simp del]

definition pulse_queue_check_window :: "pri_detector \<times> radar_pools \<Rightarrow> pri_detector \<times> radar_pools" where
  "pulse_queue_check_window = (\<lambda>(pde, rp).
     if pd_count pde < 2 then (pde, rp)
     else if pd_last_ts pde \<le> ucast (pd_window_size pde) then (pde, rp)
     else drop_old (pd_last_ts pde - ucast (pd_window_size pde)) (pde, rp))"

definition pulse_queue_enqueue :: "u64 \<Rightarrow> pri_detector \<times> radar_pools \<Rightarrow> pri_detector \<times> radar_pools" where
  "pulse_queue_enqueue ts = (\<lambda>(pde, rp).
     case (case pool_get_pulse_elem rp of (True, rp1) \<Rightarrow> (True, rp1) | (False, rp1) \<Rightarrow> kmalloc rp1) of
       (False, rp2) \<Rightarrow> (pde, rp2)
     | (True, rp2) \<Rightarrow>
         (case pulse_queue_check_window (pde\<lparr>pd_pulses := ts # pd_pulses pde, pd_count := pd_count pde + 1, pd_last_ts := ts\<rparr>, rp2) of
            (pde3, rp3) \<Rightarrow>
              if pd_count pde3 \<ge> pd_max_count pde3 then pulse_queue_dequeue (pde3, rp3) else (pde3, rp3)))"

section \<open>Short waveforms\<close>

definition pde_get_multiple :: "u32 \<Rightarrow> u32 \<Rightarrow> u32 \<Rightarrow> u32" where
  "pde_get_multiple val fraction tolerance =
     (if fraction = 0 then 0
      else
        let delta = (if val < fraction then fraction - val else val - fraction) in
        if delta \<le> tolerance then 1
        else
          let factor = val div fraction; remainder = val mod fraction in
          if remainder > tolerance then (if fraction - remainder \<le> tolerance then factor + 1 else 0) else factor)"

text \<open>The older pulses that fit a candidate interval: number of pulses, of falses, and the first time stamp.\<close>

fun scan_past :: "radar_detector_specs \<Rightarrow> u64 \<Rightarrow> u64 \<Rightarrow> u64 list \<Rightarrow> u32 \<Rightarrow> pri_sequence \<Rightarrow> pri_sequence" where
  "scan_past rs ts min_valid_ts [] tmp ps = ps"
| "scan_past rs ts min_valid_ts (p2 # older) tmp ps =
     (if p2 < min_valid_ts then ps
      else if pde_get_multiple (ucast (ts - p2)) (ps_pri ps) (of_nat (max_pri_tolerance rs)) > 0
      then scan_past rs ts min_valid_ts older 0
             (ps\<lparr>ps_count := ps_count ps + 1, ps_first_ts := p2, ps_count_falses := ps_count_falses ps + tmp\<rparr>)
      else scan_past rs ts min_valid_ts older (tmp + 1) ps)"

definition new_sequence :: "radar_detector_specs \<Rightarrow> u64 \<Rightarrow> u64 \<Rightarrow> nat \<Rightarrow> u64 list \<Rightarrow> pri_sequence" where
  "new_sequence rs ts p pulse_idx older =
     (let pri = ucast (ts - p) :: u32;
          dur = pri * (of_nat (ppb rs) - 1) + 2 * of_nat (max_pri_tolerance rs);
          ps = \<lparr>ps_pri = pri, ps_dur = dur, ps_count = 2, ps_count_falses = of_nat (pulse_idx - 1), ps_first_ts = p, ps_last_ts = ts,
                ps_deadline_ts = 0, ps_ppb_thresh = 0\<rparr>;
          min_valid_ts = (if ucast dur > ts then 0 else ts - ucast dur)
      in scan_past rs ts min_valid_ts older 0 ps)"

definition finish_sequence :: "radar_detector_specs \<Rightarrow> pri_sequence \<Rightarrow> pri_sequence" where
  "finish_sequence rs ps =
     ps\<lparr>ps_deadline_ts := ps_first_ts ps + ucast (ps_dur ps),
        ps_ppb_thresh :=
          (if rs_type rs = RADAR_WAVEFORM_WEATHER
           then of_nat (PPB_THRESH (unat (ucast (19000000 div (360 * ps_pri ps)) :: u8)))
           else of_nat (ppb_thresh rs))\<rparr>"

fun create_loop :: "radar_detector_specs \<Rightarrow> u64 \<Rightarrow> u32 \<Rightarrow> u64 list \<Rightarrow> nat \<Rightarrow> pri_sequence list \<times> radar_pools \<Rightarrow> bool \<times> pri_sequence list \<times> radar_pools" where
  "create_loop rs ts min_count [] pulse_idx (seqs, rp) = (True, seqs, rp)"
| "create_loop rs ts min_count (p # older) pulse_idx (seqs, rp) =
     (let delta_ts = ucast (ts - p) :: u32 in
      if delta_ts < of_nat (pri_min rs) then create_loop rs ts min_count older (pulse_idx + 1) (seqs, rp)
      else if delta_ts > of_nat (pri_max rs) then (True, seqs, rp)
      else
        let ps = new_sequence rs ts p (pulse_idx + 1) older in
        if ps_count ps \<le> min_count then create_loop rs ts min_count older (pulse_idx + 1) (seqs, rp)
        else (case pool_get_pseq_elem rp of
                (None, rp') \<Rightarrow> (False, seqs, rp')
              | (Some _, rp') \<Rightarrow> create_loop rs ts min_count older (pulse_idx + 1) (finish_sequence rs ps # seqs, rp')))"

definition pde_short_create_sequences :: "u64 \<Rightarrow> u32 \<Rightarrow> pri_detector \<times> radar_pools \<Rightarrow> bool \<times> pri_detector \<times> radar_pools" where
  "pde_short_create_sequences ts min_count = (\<lambda>(pde, rp).
     case create_loop (pd_rs pde) ts min_count (pd_pulses pde) 0 (pd_sequences pde, rp) of
       (ok, seqs, rp') \<Rightarrow> (ok, pde\<lparr>pd_sequences := seqs\<rparr>, rp'))"

fun add_to_seqs :: "radar_detector_specs \<Rightarrow> u64 \<Rightarrow> pri_sequence list \<Rightarrow> u32 \<Rightarrow> radar_pools \<Rightarrow> u32 \<times> pri_sequence list \<times> radar_pools" where
  "add_to_seqs rs ts [] max_count rp = (max_count, [], rp)"
| "add_to_seqs rs ts (ps # seqs) max_count rp =
     (if ts > ps_deadline_ts ps then add_to_seqs rs ts seqs max_count (pool_put_pseq_elem ps rp)
      else if pde_get_multiple (ucast (ts - ps_last_ts ps)) (ps_pri ps) (of_nat (max_pri_tolerance rs)) > 0
      then let ps' = ps\<lparr>ps_last_ts := ts, ps_count := ps_count ps + 1\<rparr> in
           (case add_to_seqs rs ts seqs (if max_count < ps_count ps' then ps_count ps' else max_count) rp of
              (m, seqs', rp') \<Rightarrow> (m, ps' # seqs', rp'))
      else (case add_to_seqs rs ts seqs max_count rp of
              (m, seqs', rp') \<Rightarrow> (m, ps\<lparr>ps_count_falses := ps_count_falses ps + 1\<rparr> # seqs', rp')))"

definition pde_short_add_to_existing_seqs :: "u64 \<Rightarrow> pri_detector \<times> radar_pools \<Rightarrow> u32 \<times> pri_detector \<times> radar_pools" where
  "pde_short_add_to_existing_seqs ts = (\<lambda>(pde, rp).
     case add_to_seqs (pd_rs pde) ts (pd_sequences pde) 0 rp of
       (m, seqs, rp') \<Rightarrow> (m, pde\<lparr>pd_sequences := seqs\<rparr>, rp'))"

definition seq_complete :: "radar_detector_specs \<Rightarrow> pri_sequence \<Rightarrow> bool" where
  "seq_complete rs ps \<longleftrightarrow>
     ps_count ps \<ge> ucast (ps_ppb_thresh ps) \<and> ps_count ps * of_nat (num_pri rs) > ps_count_falses ps"

definition pde_short_check_detection :: "pri_detector \<Rightarrow> pri_sequence option" where
  "pde_short_check_detection pde = find (seq_complete (pd_rs pde)) (pd_sequences pde)"

definition pri_detector_reset :: "u64 \<Rightarrow> pri_detector \<times> radar_pools \<Rightarrow> pri_detector \<times> radar_pools" where
  "pri_detector_reset ts = (\<lambda>(pde, rp).
     (pde\<lparr>pd_sequences := [], pd_pulses := [], pd_count := 0, pd_last_ts := ts\<rparr>,
      (fold pool_put_pseq_elem (pd_sequences pde) rp)\<lparr>rp_pulses := rp_pulses rp + length (pd_pulses pde)\<rparr>))"

definition pde_short_add_pulse :: "u64 \<Rightarrow> pri_detector \<times> radar_pools \<Rightarrow> pri_sequence option \<times> pri_detector \<times> radar_pools" where
  "pde_short_add_pulse ts = (\<lambda>(pde, rp).
     if pd_count pde = 0 then (None, pulse_queue_enqueue ts (pde, rp))
     else if ts - pd_last_ts pde < of_nat (max_pri_tolerance (pd_rs pde)) then (None, pde, rp)
     else
       (case pde_short_add_to_existing_seqs ts (pde, rp) of
          (max_updated_seq, pde1, rp1) \<Rightarrow>
            (case pde_short_create_sequences ts max_updated_seq (pde1, rp1) of
               (False, pde2, rp2) \<Rightarrow> (None, pri_detector_reset ts (pde2, rp2))
             | (True, pde2, rp2) \<Rightarrow>
                 (case pde_short_check_detection pde2 of
                    None \<Rightarrow> (None, pulse_queue_enqueue ts (pde2, rp2))
                  | Some ps \<Rightarrow> (Some ps, pde2, rp2)))))"

section \<open>Long waveforms\<close>

abbreviation (input) LONG_RADAR_DURATION :: u32 where "LONG_RADAR_DURATION \<equiv> 12000000"
abbreviation (input) LONG_RADAR_BURST_MIN_DURATION :: u32 where "LONG_RADAR_BURST_MIN_DURATION \<equiv> 600000"
abbreviation (input) LONG_RADAR_MAX_BURST :: u32 where "LONG_RADAR_MAX_BURST \<equiv> 20"

text \<open>The loop that moves the start of the sequence to the oldest pulse within the window.\<close>

function long_restart :: "u64 \<Rightarrow> pri_sequence \<Rightarrow> pri_detector \<times> radar_pools \<Rightarrow> pri_sequence \<times> pri_detector \<times> radar_pools" where
  "long_restart min_valid_ts ps (pde, rp) =
     (if pd_pulses pde = [] then (ps, pde, rp)
      else if last (pd_pulses pde) \<ge> min_valid_ts
      then (ps\<lparr>ps_first_ts := last (pd_pulses pde), ps_deadline_ts := last (pd_pulses pde) + ucast (pd_window_size pde)\<rparr>, pde, rp)
      else long_restart min_valid_ts (ps\<lparr>ps_count := ps_count ps - 1\<rparr>) (pulse_queue_dequeue (pde, rp)))"
  by pat_completeness auto

termination
  by (relation "measure (\<lambda>(_, _, pde, _). length (pd_pulses pde))") (auto simp: pulse_queue_dequeue_def)

declare long_restart.simps [simp del]

definition set_first_seq :: "pri_sequence \<Rightarrow> pri_detector \<Rightarrow> pri_detector" where
  "set_first_seq ps pde = pde\<lparr>pd_sequences := ps # tl (pd_sequences pde)\<rparr>"

definition long_new_burst :: "u64 \<Rightarrow> u32 \<Rightarrow> pri_sequence \<Rightarrow> pri_detector \<times> radar_pools \<Rightarrow> pri_sequence option \<times> pri_detector \<times> radar_pools" where
  "long_new_burst ts delta_ts ps0 = (\<lambda>(pde, rp).
     let ps1 = ps0\<lparr>ps_count := ps_count ps0 + 1, ps_count_falses := 1\<rparr> in
     case (if ts > ps_deadline_ts ps1 then long_restart (ts - ucast (pd_window_size pde)) ps1 (pde, rp) else (ps1, pde, rp)) of
       (ps2, pde2, rp2) \<Rightarrow>
         if ps_count ps2 > of_nat (ppb_thresh (pd_rs pde2)) \<and> ts - ps_first_ts ps2 > ucast (pd_window_size pde2 div 2)
         then (Some ps2, set_first_seq ps2 pde2, rp2)
         else (None, pulse_queue_enqueue ts (set_first_seq (ps2\<lparr>ps_dur := delta_ts\<rparr>) pde2, rp2)))"

definition pde_long_add_pulse :: "u64 \<Rightarrow> pri_detector \<times> radar_pools \<Rightarrow> pri_sequence option \<times> pri_detector \<times> radar_pools" where
  "pde_long_add_pulse ts = (\<lambda>(pde, rp).
     case pd_sequences pde of
       [] \<Rightarrow>
         (case pool_get_pseq_elem rp of
            (None, rp1) \<Rightarrow> (None, pde, rp1)
          | (Some ps0, rp1) \<Rightarrow>
              let ps = ps0\<lparr>ps_count := 1, ps_count_falses := 1, ps_first_ts := ts, ps_last_ts := ts,
                           ps_deadline_ts := ts + ucast (pd_window_size pde), ps_pri := 0\<rparr>
              in (None, pulse_queue_enqueue ts (pde\<lparr>pd_sequences := [ps]\<rparr>, rp1)))
     | ps0 # _ \<Rightarrow>
         let delta_ts = ucast (ts - ps_last_ts ps0) :: u32;
             ps = ps0\<lparr>ps_last_ts := ts\<rparr>;
             rs = pd_rs pde
         in if delta_ts < of_nat (pri_max rs) then (None, set_first_seq ps pde, rp)
            else if delta_ts \<ge> of_nat (pri_min rs) \<and> delta_ts \<le> of_nat (pri_max rs)
            then (None, set_first_seq (ps\<lparr>ps_count_falses := ps_count_falses ps + 1\<rparr>) pde, rp)
            else if ps_count ps > 2 \<and> ps_dur ps + delta_ts < LONG_RADAR_BURST_MIN_DURATION then (None, set_first_seq ps pde, rp)
            else long_new_burst ts delta_ts ps (pde, rp))"

section \<open>Detectors\<close>

definition pde_is_long :: "pri_detector \<Rightarrow> bool" where
  "pde_is_long pde \<longleftrightarrow> rs_type (pd_rs pde) = RADAR_WAVEFORM_LONG"

definition pde_add_pulse :: "u64 \<Rightarrow> pri_detector \<times> radar_pools \<Rightarrow> pri_sequence option \<times> pri_detector \<times> radar_pools" where
  "pde_add_pulse ts s = (if pde_is_long (fst s) then pde_long_add_pulse ts s else pde_short_add_pulse ts s)"

definition pde_short_init :: "pri_detector \<Rightarrow> pri_detector" where
  "pde_short_init pde =
     (let rs = pd_rs pde in pde\<lparr>pd_window_size := of_nat (pri_max rs * ppb rs * num_pri rs), pd_max_count := of_nat (ppb rs * 2)\<rparr>)"

definition pde_long_init :: "pri_detector \<Rightarrow> pri_detector" where
  "pde_long_init pde = pde\<lparr>pd_window_size := LONG_RADAR_DURATION, pd_max_count := LONG_RADAR_MAX_BURST\<rparr>"

definition pde_new :: "radar_detector_specs \<Rightarrow> u16 \<Rightarrow> pri_detector" where
  "pde_new rs freq =
     (let pde = \<lparr>pd_rs = rs, pd_last_ts = 0, pd_sequences = [], pd_pulses = [], pd_count = 0, pd_max_count = 0, pd_window_size = 0, pd_freq = freq\<rparr>
      in if pde_is_long pde then pde_long_init pde else pde_short_init pde)"

record dfs_pattern_detector =
  dp_enabled :: nat
  dp_region :: nl80211_dfs_regions
  dp_num_radar_types :: nat
  dp_last_pulse_ts :: u64
  dp_prev_jiffies :: u32
  dp_spec :: "radar_detector_specs list"
  dp_detectors :: "pri_detector list list"

definition pri_detector_init :: "nat \<Rightarrow> u16 \<Rightarrow> dfs_pattern_detector \<times> radar_pools \<Rightarrow> (nat option) \<times> dfs_pattern_detector \<times> radar_pools" where
  "pri_detector_init i freq = (\<lambda>(dpd, rp).
     case kmalloc rp of
       (False, rp1) \<Rightarrow> (None, dpd, rp1)
     | (True, rp1) \<Rightarrow>
         (Some 0, dpd\<lparr>dp_detectors := (dp_detectors dpd)[i := pde_new (dp_spec dpd ! i) freq # dp_detectors dpd ! i]\<rparr>, pool_register_ref rp1))"

definition pri_detector_exit :: "pri_detector \<Rightarrow> radar_pools \<Rightarrow> radar_pools" where
  "pri_detector_exit pde rp =
     (let rp1 = pool_deregister_ref (snd (pri_detector_reset 0 (pde, rp))) in rp1\<lparr>rp_mem := rp_mem rp1 + 1\<rparr>)"

text \<open>Position of the detector to use in the list of its radar type; \<open>cur\<close> is the idle detector of the frequency.\<close>

fun find_detector :: "u16 \<Rightarrow> pri_detector list \<Rightarrow> nat \<Rightarrow> nat option \<Rightarrow> nat option" where
  "find_detector freq [] k cur = cur"
| "find_detector freq (pde # pdes) k cur =
     (if pd_freq pde = freq then (if pd_count pde \<noteq> 0 then Some k else find_detector freq pdes (k + 1) (Some k))
      else if (uint (pd_freq pde) - 2 = uint freq \<or> uint (pd_freq pde) + 2 = uint freq) \<and> pd_count pde \<noteq> 0 then Some k
      else find_detector freq pdes (k + 1) cur)"

definition pri_detector_get :: "u16 \<Rightarrow> nat \<Rightarrow> dfs_pattern_detector \<times> radar_pools \<Rightarrow> (nat option) \<times> dfs_pattern_detector \<times> radar_pools" where
  "pri_detector_get freq i = (\<lambda>(dpd, rp).
     case find_detector freq (dp_detectors dpd ! i) 0 None of
       Some k \<Rightarrow> (Some k, dpd, rp)
     | None \<Rightarrow> pri_detector_init i freq (dpd, rp))"

section \<open>The pattern detector of a chain\<close>

text \<open>A step on every detector of a list, in order, threading the pools.\<close>

fun map_pools :: "(pri_detector \<times> radar_pools \<Rightarrow> pri_detector \<times> radar_pools) \<Rightarrow> pri_detector list \<Rightarrow> radar_pools \<Rightarrow> pri_detector list \<times> radar_pools" where
  "map_pools f [] rp = ([], rp)"
| "map_pools f (pde # pdes) rp =
     (case f (pde, rp) of (pde', rp1) \<Rightarrow> case map_pools f pdes rp1 of (pdes', rp2) \<Rightarrow> (pde' # pdes', rp2))"

fun map_types :: "(pri_detector \<times> radar_pools \<Rightarrow> pri_detector \<times> radar_pools) \<Rightarrow> nat list \<Rightarrow> dfs_pattern_detector \<times> radar_pools \<Rightarrow> dfs_pattern_detector \<times> radar_pools" where
  "map_types f [] (dpd, rp) = (dpd, rp)"
| "map_types f (i # is) (dpd, rp) =
     (case map_pools f (dp_detectors dpd ! i) rp of
        (pdes, rp1) \<Rightarrow> map_types f is (dpd\<lparr>dp_detectors := (dp_detectors dpd)[i := pdes]\<rparr>, rp1))"

definition dfs_pattern_detector_reset :: "u32 \<Rightarrow> dfs_pattern_detector \<times> radar_pools \<Rightarrow> dfs_pattern_detector \<times> radar_pools" where
  "dfs_pattern_detector_reset jiffies = (\<lambda>(dpd, rp).
     case map_types (pri_detector_reset (dp_last_pulse_ts dpd)) [0 ..< dp_num_radar_types dpd] (dpd, rp) of
       (dpd1, rp1) \<Rightarrow> (dpd1\<lparr>dp_last_pulse_ts := 0, dp_prev_jiffies := jiffies\<rparr>, rp1))"

definition dfs_pattern_detector_pri_overflow :: "dfs_pattern_detector \<times> radar_pools \<Rightarrow> dfs_pattern_detector \<times> radar_pools" where
  "dfs_pattern_detector_pri_overflow = (\<lambda>(dpd, rp).
     map_types (\<lambda>(pde, rp). if pde_is_long pde then (pde, rp) else pri_detector_reset (dp_last_pulse_ts dpd) (pde, rp))
       [0 ..< dp_num_radar_types dpd] (dpd, rp))"

definition exit_detectors :: "dfs_pattern_detector \<times> radar_pools \<Rightarrow> dfs_pattern_detector \<times> radar_pools" where
  "exit_detectors = (\<lambda>(dpd, rp).
     (dpd\<lparr>dp_detectors := replicate (dp_num_radar_types dpd) [] @ drop (dp_num_radar_types dpd) (dp_detectors dpd)\<rparr>,
      fold pri_detector_exit (concat (take (dp_num_radar_types dpd) (dp_detectors dpd))) rp))"

text \<open>The time stamp of a pulse; \<open>usecs\<close> is \<open>jiffies_to_usecs\<close> of the kernel.\<close>

definition pulse_time :: "(u32 \<Rightarrow> u32) \<Rightarrow> u16 \<Rightarrow> u32 \<Rightarrow> dfs_pattern_detector \<times> radar_pools \<Rightarrow> dfs_pattern_detector \<times> radar_pools" where
  "pulse_time usecs pri now = (\<lambda>(dpd, rp).
     if pri = 0 then
       let delta_jiffie = (if now < dp_prev_jiffies dpd then 0xffffffff - dp_prev_jiffies dpd + now else now - dp_prev_jiffies dpd)
       in dfs_pattern_detector_pri_overflow
            (dpd\<lparr>dp_last_pulse_ts := dp_last_pulse_ts dpd + ucast (usecs delta_jiffie), dp_prev_jiffies := now\<rparr>, rp)
     else (dpd\<lparr>dp_last_pulse_ts := dp_last_pulse_ts dpd + ucast pri\<rparr>, rp))"

definition set_detector :: "nat \<Rightarrow> nat \<Rightarrow> pri_detector \<Rightarrow> dfs_pattern_detector \<Rightarrow> dfs_pattern_detector" where
  "set_detector i k pde dpd = dpd\<lparr>dp_detectors := (dp_detectors dpd)[i := (dp_detectors dpd ! i)[k := pde]]\<rparr>"

fun try_types :: "u32 \<Rightarrow> u16 \<Rightarrow> u16 \<Rightarrow> nat list \<Rightarrow> dfs_pattern_detector \<times> radar_pools \<Rightarrow> fault + bool \<times> dfs_pattern_detector \<times> radar_pools" where
  "try_types jiffies freq len [] s = Inr (False, s)"
| "try_types jiffies freq len (i # is) (dpd, rp) =
     (let rs = dp_spec dpd ! i in
      if width_min rs > unat len \<or> width_max rs < unat len then try_types jiffies freq len is (dpd, rp)
      else
        (case pri_detector_get freq i (dpd, rp) of
           (None, dpd1, rp1) \<Rightarrow> Inl NullDeref
         | (Some k, dpd1, rp1) \<Rightarrow>
             (case pde_add_pulse (dp_last_pulse_ts dpd1) (dp_detectors dpd1 ! i ! k, rp1) of
                (Some ps, pde, rp2) \<Rightarrow> Inr (True, dfs_pattern_detector_reset jiffies (set_detector i k pde dpd1, rp2))
              | (None, pde, rp2) \<Rightarrow> try_types jiffies freq len is (set_detector i k pde dpd1, rp2))))"

definition dfs_pattern_detector_add_pulse ::
    "(u32 \<Rightarrow> u32) \<Rightarrow> u32 \<Rightarrow> u16 \<Rightarrow> u16 \<Rightarrow> u16 \<Rightarrow> u32 \<Rightarrow> dfs_pattern_detector \<times> radar_pools \<Rightarrow> fault + bool \<times> dfs_pattern_detector \<times> radar_pools" where
  "dfs_pattern_detector_add_pulse usecs jiffies freq pri len now = (\<lambda>(dpd, rp).
     if dp_region dpd = NL80211_DFS_UNSET then Inr (True, dpd, rp)
     else try_types jiffies freq len [0 ..< dp_num_radar_types dpd] (pulse_time usecs pri now (dpd, rp)))"

definition dfs_pattern_detector_set_domain ::
    "nl80211_dfs_regions \<Rightarrow> rwnx_radar_chain \<Rightarrow> dfs_pattern_detector \<times> radar_pools \<Rightarrow> bool \<times> dfs_pattern_detector \<times> radar_pools" where
  "dfs_pattern_detector_set_domain region chain = (\<lambda>(dpd, rp).
     if dp_region dpd = region then (True, dpd, rp)
     else
       (case get_dfs_domain_radar_types region of
          None \<Rightarrow> (False, dpd\<lparr>dp_region := NL80211_DFS_UNSET\<rparr>, rp)
        | Some (riu, fcu) \<Rightarrow>
            (case exit_detectors (dpd, rp) of
               (dpd1, rp1) \<Rightarrow>
                 (True, dpd1\<lparr>dp_spec := (if chain = RWNX_RADAR_RIU then riu else fcu),
                             dp_num_radar_types := length riu, dp_region := region\<rparr>, rp1))))"

definition dfs_pattern_detector_init ::
    "u32 \<Rightarrow> nl80211_dfs_regions \<Rightarrow> rwnx_radar_chain \<Rightarrow> radar_pools \<Rightarrow> dfs_pattern_detector option \<times> radar_pools" where
  "dfs_pattern_detector_init jiffies region chain rp =
     (case kmalloc rp of
        (False, rp1) \<Rightarrow> (None, rp1)
      | (True, rp1) \<Rightarrow>
          (case dfs_pattern_detector_set_domain region chain
             (\<lparr>dp_enabled = 0, dp_region = NL80211_DFS_UNSET, dp_num_radar_types = 0, dp_last_pulse_ts = 0, dp_prev_jiffies = jiffies,
               dp_spec = [], dp_detectors = replicate get_dfs_max_radar_types []\<rparr>, rp1) of
             (True, dpd, rp2) \<Rightarrow> (Some dpd, rp2)
           | (False, dpd, rp2) \<Rightarrow> (None, rp2\<lparr>rp_mem := rp_mem rp2 + 1\<rparr>)))"

definition dfs_pattern_detector_exit :: "dfs_pattern_detector \<times> radar_pools \<Rightarrow> radar_pools" where
  "dfs_pattern_detector_exit s = (let rp = snd (exit_detectors s) in rp\<lparr>rp_mem := rp_mem rp + 1\<rparr>)"

end
