(* ===== verification/RadarDriver.thy ===== *)
theory RadarDriver
  imports Radar
begin

text \<open>
  The driver side of radar detection (rwnx_radar.c from \<open>rwnx_radar_get_center_freq\<close> on, and
  \<open>rwnx_radar_detect_ind\<close> of rwnx_msg_rx.c): the rings of reported pulses, the work that feeds them to the
  pattern detectors, and the channel availability check.
\<close>

section \<open>State\<close>

abbreviation (input) RWNX_RADAR_PULSE_MAX :: nat where "RWNX_RADAR_PULSE_MAX \<equiv> 32"
abbreviation (input) RADAR_PULSE_MAX :: nat where "RADAR_PULSE_MAX \<equiv> 4"
abbreviation (input) NX_NB_RADAR_DETECTED :: nat where "NX_NB_RADAR_DETECTED \<equiv> 4"
abbreviation (input) RWNX_RADAR_DETECT_DISABLE :: nat where "RWNX_RADAR_DETECT_DISABLE \<equiv> 0"
abbreviation (input) RWNX_RADAR_DETECT_REPORT :: nat where "RWNX_RADAR_DETECT_REPORT \<equiv> 2"

datatype rwnx_radar_status =
    RWNX_RADAR_IDLE
  | RWNX_RADAR_CAC_BUSY
  | RWNX_RADAR_CAC_DONE
  | RWNX_RADAR_INSERVICE_BUSY
  | RWNX_RADAR_INSERVICE_DONE

record rwnx_radar_pulses =
  pl_index :: nat
  pl_count :: nat
  pl_buffer :: "u32 list"

record radar_detected_list =
  det_index :: nat
  det_count :: u16
  det_time :: "int list"
  det_freq :: "u16 list"

datatype radar_event =
    RadarEvent
  | CacFinished nat
  | CacAborted nat
  | StopCacReq nat
  | ChanctxUnlink nat
  | ScheduleCac u32
  | ScheduleDetection

record rwnx_radar =
  rd_pulses :: "rwnx_radar_chain \<Rightarrow> rwnx_radar_pulses"
  rd_dpd :: "rwnx_radar_chain \<Rightarrow> dfs_pattern_detector option"
  rd_detected :: "rwnx_radar_chain \<Rightarrow> radar_detected_list"
  rd_status :: rwnx_radar_status
  rd_cac_vif :: "nat option"
  rd_cac_pending :: bool
  rd_work_pending :: bool
  rd_pools :: radar_pools
  rd_log :: "radar_event list"

text \<open>
  What the functions read from the kernel and from the rest of the driver: \<open>jiffies_to_usecs\<close>, \<open>jiffies\<close>,
  the centre frequency of a chain, whether the current channel context is valid and its channel is a radar
  channel, the wall clock, and whether the kernel is 6.12 or later.
\<close>

record radar_env =
  re_usecs :: "u32 \<Rightarrow> u32"
  re_jiffies :: u32
  re_center :: "rwnx_radar_chain \<Rightarrow> u16"
  re_chan_valid :: bool
  re_chan_radar :: bool
  re_secs :: int
  re_612 :: bool

definition radar_emit :: "radar_event list \<Rightarrow> rwnx_radar \<Rightarrow> rwnx_radar" where
  "radar_emit es r = r\<lparr>rd_log := rd_log r @ es\<rparr>"

section \<open>Reported pulses\<close>

definition ring_put :: "u32 \<Rightarrow> rwnx_radar_pulses \<Rightarrow> rwnx_radar_pulses" where
  "ring_put v p =
     p\<lparr>pl_buffer := (pl_buffer p)[pl_index p := v], pl_index := (pl_index p + 1) mod RWNX_RADAR_PULSE_MAX,
       pl_count := (if pl_count p < RWNX_RADAR_PULSE_MAX then pl_count p + 1 else pl_count p)\<rparr>"

definition chain_of :: "u32 \<Rightarrow> rwnx_radar_chain option" where
  "chain_of i = (if i = 0 then Some RWNX_RADAR_RIU else if i = 1 then Some RWNX_RADAR_FCU else None)"

definition rwnx_radar_detection_is_enable :: "rwnx_radar \<Rightarrow> u32 \<Rightarrow> fault + bool" where
  "rwnx_radar_detection_is_enable r i =
     (case chain_of i of
        None \<Rightarrow> Inl OutOfBounds
      | Some c \<Rightarrow> (case rd_dpd r c of None \<Rightarrow> Inl NullDeref | Some dpd \<Rightarrow> Inr (dp_enabled dpd \<noteq> RWNX_RADAR_DETECT_DISABLE)))"

text \<open>An indication from the firmware with \<open>cnt\<close> pulses of chain \<open>i\<close> in an array of four.\<close>

definition rwnx_radar_detect_ind :: "u32 list \<Rightarrow> u32 \<Rightarrow> u32 \<Rightarrow> rwnx_radar \<Rightarrow> fault + int \<times> rwnx_radar" where
  "rwnx_radar_detect_ind pulse i cnt r =
     (if cnt = 0 then Inr (-1, r)
      else
        (case rwnx_radar_detection_is_enable r i of
           Inl e \<Rightarrow> Inl e
         | Inr False \<Rightarrow> Inr (0, r)
         | Inr True \<Rightarrow>
             (case chain_of i of
                None \<Rightarrow> Inl OutOfBounds
              | Some c \<Rightarrow>
                  if length pulse < unat cnt then Inl OutOfBounds
                  else
                    let r1 = r\<lparr>rd_pulses := (rd_pulses r)(c := fold ring_put (take (unat cnt) pulse) (rd_pulses r c))\<rparr>
                    in Inr (0, if rd_work_pending r1 then r1 else radar_emit [ScheduleDetection] (r1\<lparr>rd_work_pending := True\<rparr>)))))"

section \<open>Channel availability check\<close>

definition rwnx_radar_start_cac :: "u32 \<Rightarrow> nat \<Rightarrow> rwnx_radar \<Rightarrow> rwnx_radar" where
  "rwnx_radar_start_cac cac_time_ms v r =
     radar_emit [ScheduleCac cac_time_ms] (r\<lparr>rd_cac_vif := Some v, rd_cac_pending := True\<rparr>)"

definition rwnx_radar_cac_work :: "rwnx_radar \<Rightarrow> rwnx_radar" where
  "rwnx_radar_cac_work r =
     (case rd_cac_vif r of
        None \<Rightarrow> r\<lparr>rd_cac_pending := False\<rparr>
      | Some v \<Rightarrow> (radar_emit [CacFinished v, StopCacReq v, ChanctxUnlink v] r)\<lparr>rd_cac_vif := None, rd_cac_pending := False\<rparr>)"

definition rwnx_radar_cancel_cac :: "radar_env \<Rightarrow> rwnx_radar \<Rightarrow> rwnx_radar" where
  "rwnx_radar_cancel_cac e r =
     (case rd_cac_vif r of
        None \<Rightarrow> r
      | Some v \<Rightarrow>
          (if rd_cac_pending r
           then radar_emit [StopCacReq v, if re_612 e then CacFinished v else CacAborted v, ChanctxUnlink v] r
           else r)\<lparr>rd_cac_vif := None, rd_cac_pending := False\<rparr>)"

definition rwnx_radar_detection_enable :: "nat \<Rightarrow> rwnx_radar_chain \<Rightarrow> rwnx_radar \<Rightarrow> fault + rwnx_radar" where
  "rwnx_radar_detection_enable en c r =
     (case rd_dpd r c of
        None \<Rightarrow> Inl NullDeref
      | Some dpd \<Rightarrow> Inr (r\<lparr>rd_dpd := (rd_dpd r)(c := Some (dpd\<lparr>dp_enabled := en\<rparr>))\<rparr>))"

definition rwnx_radar_detection_enable_on_cur_channel :: "radar_env \<Rightarrow> rwnx_radar \<Rightarrow> fault + rwnx_radar" where
  "rwnx_radar_detection_enable_on_cur_channel e r =
     (if \<not> re_chan_valid e then Inr r
      else rwnx_radar_detection_enable (if re_chan_radar e then RWNX_RADAR_DETECT_REPORT else RWNX_RADAR_DETECT_DISABLE) RWNX_RADAR_RIU r)"

section \<open>Processing the pulses\<close>

definition rwnx_radar_detected :: "radar_env \<Rightarrow> rwnx_radar \<Rightarrow> rwnx_radar" where
  "rwnx_radar_detected e r =
     (if \<not> re_chan_valid e then r else radar_emit [RadarEvent] (rwnx_radar_cancel_cac e r))"

text \<open>The pulses of a ring in the order of their arrival, with the two copies of the code when they wrap.\<close>

definition ring_read :: "rwnx_radar_pulses \<Rightarrow> u32 list" where
  "ring_read p =
     (let count = int (pl_count p);
          start0 = int (pl_index p) - count;
          start = (if start0 < 0 then start0 + int RWNX_RADAR_PULSE_MAX else start0)
      in if count = 0 then []
         else if start + count > int RWNX_RADAR_PULSE_MAX
         then let count1 = int RWNX_RADAR_PULSE_MAX - start
              in take (nat count1) (drop (nat start) (pl_buffer p)) @ take (nat (count - count1)) (pl_buffer p)
         else take (nat count) (drop (nat start) (pl_buffer p)))"

text \<open>The fields of a pulse word: a signed 6-bit frequency offset, the length and the repetition interval.\<close>

definition pulse_freq :: "u32 \<Rightarrow> int" where
  "pulse_freq w = signed_take_bit 5 (uint w)"

definition pulse_len :: "u32 \<Rightarrow> u16" where
  "pulse_len w = ucast (drop_bit 10 w AND 0x3f)"

definition pulse_rep :: "u32 \<Rightarrow> u16" where
  "pulse_rep w = ucast (drop_bit 16 w)"

definition record_detected :: "radar_env \<Rightarrow> rwnx_radar_chain \<Rightarrow> u16 \<Rightarrow> rwnx_radar \<Rightarrow> rwnx_radar" where
  "record_detected e c freq r =
     (let d = rd_detected r c in
      r\<lparr>rd_detected := (rd_detected r)(c :=
          d\<lparr>det_freq := (det_freq d)[det_index d := freq], det_time := (det_time d)[det_index d := re_secs e],
            det_index := (det_index d + 1) mod NX_NB_RADAR_DETECTED, det_count := det_count d + 1\<rparr>)\<rparr>)"

definition clear_pulses :: "rwnx_radar_chain \<Rightarrow> rwnx_radar \<Rightarrow> rwnx_radar" where
  "clear_pulses c r = r\<lparr>rd_pulses := (rd_pulses r)(c := (rd_pulses r c)\<lparr>pl_count := 0\<rparr>)\<rparr>"

definition report_radar :: "radar_env \<Rightarrow> rwnx_radar_chain \<Rightarrow> rwnx_radar \<Rightarrow> fault + rwnx_radar" where
  "report_radar e c r =
     (case rd_dpd r c of
        None \<Rightarrow> Inl NullDeref
      | Some dpd \<Rightarrow>
          if c = RWNX_RADAR_RIU \<and> dp_enabled dpd = RWNX_RADAR_DETECT_REPORT then
            (case rwnx_radar_detection_enable RWNX_RADAR_DETECT_DISABLE c (rwnx_radar_detected e r) of
               Inl f \<Rightarrow> Inl f
             | Inr r1 \<Rightarrow> Inr (clear_pulses c r1))
          else Inr r)"

fun process_chain :: "radar_env \<Rightarrow> u32 \<Rightarrow> rwnx_radar_chain \<Rightarrow> u32 list \<Rightarrow> rwnx_radar \<Rightarrow> fault + rwnx_radar" where
  "process_chain e now c [] r = Inr r"
| "process_chain e now c (w # ws) r =
     (if rd_status r \<noteq> RWNX_RADAR_CAC_BUSY \<and> rd_status r \<noteq> RWNX_RADAR_INSERVICE_BUSY then Inr r
      else
        (case rd_dpd r c of
           None \<Rightarrow> Inl NullDeref
         | Some dpd \<Rightarrow>
             let freq = re_center e c + of_int (2 * pulse_freq w) in
             (case dfs_pattern_detector_add_pulse (re_usecs e) (re_jiffies e) freq (pulse_rep w) (pulse_len w * 2) now (dpd, rd_pools r) of
                Inl f \<Rightarrow> Inl f
              | Inr (found, dpd', rp) \<Rightarrow>
                  let r1 = r\<lparr>rd_dpd := (rd_dpd r)(c := Some dpd'), rd_pools := rp\<rparr> in
                  if found then
                    (case report_radar e c r1 of Inl f \<Rightarrow> Inl f | Inr r2 \<Rightarrow> Inr (record_detected e c freq r2))
                  else process_chain e now c ws r1)))"

definition rwnx_radar_process_pulse :: "radar_env \<Rightarrow> rwnx_radar \<Rightarrow> fault + rwnx_radar" where
  "rwnx_radar_process_pulse e r =
     (let riu = ring_read (rd_pulses r RWNX_RADAR_RIU);
          fcu = ring_read (rd_pulses r RWNX_RADAR_FCU);
          r1 = clear_pulses RWNX_RADAR_FCU (clear_pulses RWNX_RADAR_RIU (r\<lparr>rd_work_pending := False\<rparr>))
      in case process_chain e (re_jiffies e) RWNX_RADAR_RIU riu r1 of
           Inl f \<Rightarrow> Inl f
         | Inr r2 \<Rightarrow> process_chain e (re_jiffies e) RWNX_RADAR_FCU fcu r2)"

section \<open>Initialisation and regulatory domain\<close>

definition rwnx_radar_detection_deinit :: "rwnx_radar \<Rightarrow> rwnx_radar" where
  "rwnx_radar_detection_deinit r =
     (let drop_dpd = (\<lambda>c r. case rd_dpd r c of
             None \<Rightarrow> r
           | Some dpd \<Rightarrow> r\<lparr>rd_pools := dfs_pattern_detector_exit (dpd, rd_pools r), rd_dpd := (rd_dpd r)(c := None)\<rparr>)
      in drop_dpd RWNX_RADAR_FCU (drop_dpd RWNX_RADAR_RIU r))"

definition rwnx_radar_detection_init :: "u32 \<Rightarrow> rwnx_radar \<Rightarrow> bool \<times> rwnx_radar" where
  "rwnx_radar_detection_init jiffies r =
     (case dfs_pattern_detector_init jiffies NL80211_DFS_UNSET RWNX_RADAR_RIU (rd_pools r) of
        (d0, rp0) \<Rightarrow>
          let r0 = r\<lparr>rd_dpd := (rd_dpd r)(RWNX_RADAR_RIU := d0), rd_pools := rp0\<rparr> in
          if d0 = None then (False, r0)
          else
            (case dfs_pattern_detector_init jiffies NL80211_DFS_UNSET RWNX_RADAR_FCU rp0 of
               (d1, rp1) \<Rightarrow>
                 let r1 = r0\<lparr>rd_dpd := (rd_dpd r0)(RWNX_RADAR_FCU := d1), rd_pools := rp1, rd_status := RWNX_RADAR_IDLE\<rparr> in
                 if d1 = None then (False, rwnx_radar_detection_deinit r1)
                 else (True, r1\<lparr>rd_cac_vif := None, rd_cac_pending := False, rd_work_pending := False\<rparr>)))"

definition set_domain_chain :: "nl80211_dfs_regions \<Rightarrow> rwnx_radar_chain \<Rightarrow> rwnx_radar \<Rightarrow> fault + bool \<times> rwnx_radar" where
  "set_domain_chain region c r =
     (case rd_dpd r c of
        None \<Rightarrow> Inl NullDeref
      | Some dpd \<Rightarrow>
          (case dfs_pattern_detector_set_domain region c (dpd, rd_pools r) of
             (ok, dpd', rp) \<Rightarrow> Inr (ok, r\<lparr>rd_dpd := (rd_dpd r)(c := Some dpd'), rd_pools := rp\<rparr>)))"

definition rwnx_radar_set_domain :: "nl80211_dfs_regions \<Rightarrow> rwnx_radar \<Rightarrow> fault + bool \<times> rwnx_radar" where
  "rwnx_radar_set_domain region r =
     (if rd_dpd r RWNX_RADAR_RIU = None then Inr (False, r)
      else
        (case set_domain_chain region RWNX_RADAR_RIU r of
           Inl f \<Rightarrow> Inl f
         | Inr (False, r1) \<Rightarrow> Inr (False, r1)
         | Inr (True, r1) \<Rightarrow> set_domain_chain region RWNX_RADAR_FCU r1))"

end
