(* ===== verification/RadarSpec.thy ===== *)
theory RadarSpec
  imports RadarDriver
begin

text \<open>
  A radar detector stays well formed under every sequence of pulses and loses no element of the pools; the
  patterns of all domains satisfy the conditions this needs.
\<close>

section \<open>The pulse queue\<close>

definition pool_units :: "radar_pools \<Rightarrow> nat" where
  "pool_units rp = rp_mem rp + rp_pulses rp + length (rp_pseqs rp)"

definition pde_units :: "pri_detector \<times> radar_pools \<Rightarrow> nat" where
  "pde_units s = pool_units (snd s) + length (pd_pulses (fst s)) + length (pd_sequences (fst s))"

text \<open>
  A well-formed detector: the counter agrees with the queue, which is shorter than its maximum, the time stamps
  are ordered and none lies further back than the window.
\<close>

definition pde_ordered :: "pri_detector \<Rightarrow> bool" where
  "pde_ordered pde \<longleftrightarrow>
     unat (pd_count pde) = length (pd_pulses pde) \<and> sorted_wrt (\<ge>) (pd_pulses pde) \<and> list_all (\<lambda>p. p \<le> pd_last_ts pde) (pd_pulses pde)"

definition pde_ok :: "pri_detector \<Rightarrow> bool" where
  "pde_ok pde \<longleftrightarrow>
     pde_ordered pde \<and> length (pd_pulses pde) < unat (pd_max_count pde)
     \<and> list_all (\<lambda>p. unat (pd_last_ts pde) \<le> unat p + unat (pd_window_size pde)) (pd_pulses pde)"

text \<open>Taking old pulses off a queue.\<close>

definition shrinks :: "pri_detector \<times> radar_pools \<Rightarrow> pri_detector \<times> radar_pools \<Rightarrow> bool" where
  "shrinks s s' \<longleftrightarrow>
     (\<exists>k \<le> length (pd_pulses (fst s)). fst s' = (fst s)\<lparr>pd_pulses := take (length (pd_pulses (fst s)) - k) (pd_pulses (fst s)), pd_count := pd_count (fst s) - of_nat k\<rparr>)
     \<and> pde_units s' = pde_units s"

lemma shrinks_refl: "shrinks s s"
  unfolding shrinks_def by (intro conjI exI [of _ 0]) simp_all

lemma shrinks_dequeue: "shrinks s (pulse_queue_dequeue s)"
proof (cases s)
  case (Pair pde rp)
  then show ?thesis
    using shrinks_refl [of s] unfolding shrinks_def pulse_queue_dequeue_def
    by (cases "pd_pulses pde = []")
       (auto intro!: exI [of _ 1] simp: butlast_conv_take pde_units_def pool_units_def pool_put_pulse_elem_def Suc_le_eq)
qed

lemma shrinks_trans:
  assumes "shrinks s t" and "shrinks t u"
  shows "shrinks s u"
proof -
  obtain k where k: "k \<le> length (pd_pulses (fst s))"
      "fst t = (fst s)\<lparr>pd_pulses := take (length (pd_pulses (fst s)) - k) (pd_pulses (fst s)), pd_count := pd_count (fst s) - of_nat k\<rparr>"
    using assms(1) unfolding shrinks_def by blast
  obtain l where l: "l \<le> length (pd_pulses (fst t))"
      "fst u = (fst t)\<lparr>pd_pulses := take (length (pd_pulses (fst t)) - l) (pd_pulses (fst t)), pd_count := pd_count (fst t) - of_nat l\<rparr>"
    using assms(2) unfolding shrinks_def by blast
  have "fst u = (fst s)\<lparr>pd_pulses := take (length (pd_pulses (fst s)) - (k + l)) (pd_pulses (fst s)), pd_count := pd_count (fst s) - of_nat (k + l)\<rparr>"
    using k l by (simp add: diff_diff_add)
  moreover have "k + l \<le> length (pd_pulses (fst s))" using k l by simp
  ultimately show ?thesis using assms unfolding shrinks_def by (intro conjI exI [of _ "k + l"]) simp_all
qed

lemma shrinks_fields:
  assumes "shrinks s s'"
  shows "pd_rs (fst s') = pd_rs (fst s)" "pd_last_ts (fst s') = pd_last_ts (fst s)" "pd_sequences (fst s') = pd_sequences (fst s)"
    "pd_max_count (fst s') = pd_max_count (fst s)" "pd_window_size (fst s') = pd_window_size (fst s)"
    "\<exists>k. pd_pulses (fst s') = take k (pd_pulses (fst s))" "pde_units s' = pde_units s"
    "unat (pd_count (fst s)) = length (pd_pulses (fst s)) \<Longrightarrow> unat (pd_count (fst s')) = length (pd_pulses (fst s'))"
proof -
  obtain k where k: "k \<le> length (pd_pulses (fst s))"
      "fst s' = (fst s)\<lparr>pd_pulses := take (length (pd_pulses (fst s)) - k) (pd_pulses (fst s)), pd_count := pd_count (fst s) - of_nat k\<rparr>"
    using assms unfolding shrinks_def by blast
  show "pd_rs (fst s') = pd_rs (fst s)" "pd_last_ts (fst s') = pd_last_ts (fst s)" "pd_sequences (fst s') = pd_sequences (fst s)"
      "pd_max_count (fst s') = pd_max_count (fst s)" "pd_window_size (fst s') = pd_window_size (fst s)"
      "\<exists>k. pd_pulses (fst s') = take k (pd_pulses (fst s))" "pde_units s' = pde_units s"
    using k(2) assms by (auto simp: shrinks_def)
  assume c: "unat (pd_count (fst s)) = length (pd_pulses (fst s))"
  have "unat (of_nat k :: u32) = k"
    using c k(1) unat_u32_less [of "pd_count (fst s)"] by (intro unat_of_nat_u32) simp
  then show "unat (pd_count (fst s')) = length (pd_pulses (fst s'))"
    using c k by (simp add: unat_sub word_le_nat_alt)
qed

lemma shrinks_ordered:
  assumes "shrinks s s'" and "pde_ordered (fst s)"
  shows "pde_ordered (fst s')" "set (pd_pulses (fst s')) \<subseteq> set (pd_pulses (fst s))"
    "length (pd_pulses (fst s')) \<le> length (pd_pulses (fst s))"
proof -
  note F = shrinks_fields [OF assms(1)]
  obtain k where k: "pd_pulses (fst s') = take k (pd_pulses (fst s))" using F(6) by blast
  show "pde_ordered (fst s')"
    using assms(2) F unfolding pde_ordered_def by (auto simp: k sorted_wrt_take list_all_iff dest: in_set_takeD)
  show "set (pd_pulses (fst s')) \<subseteq> set (pd_pulses (fst s))" "length (pd_pulses (fst s')) \<le> length (pd_pulses (fst s))"
    by (simp_all add: k set_take_subset)
qed

lemma shrinks_ok: "shrinks s s' \<Longrightarrow> pde_ok (fst s) \<Longrightarrow> pde_ok (fst s')"
  using shrinks_ordered [of s s'] shrinks_fields [of s s'] by (auto simp: pde_ok_def list_all_iff)

lemma drop_old_shrinks: "shrinks s (drop_old m s) \<and> (pd_pulses (fst (drop_old m s)) = [] \<or> m \<le> last (pd_pulses (fst (drop_old m s))))"
proof (induction m s rule: drop_old.induct)
  case (1 m pde rp)
  show ?case
  proof (cases "pd_pulses pde = [] \<or> last (pd_pulses pde) \<ge> m")
    case True
    then show ?thesis by (auto simp: drop_old.simps [of m pde rp] shrinks_refl)
  next
    case False
    then show ?thesis
      using 1 [OF False] shrinks_trans [OF shrinks_dequeue [of "(pde, rp)"]] by (simp add: drop_old.simps [of m pde rp])
  qed
qed

lemma sorted_ge_last: "sorted_wrt (\<ge>) xs \<Longrightarrow> xs \<noteq> [] \<Longrightarrow> p \<in> set xs \<Longrightarrow> last xs \<le> (p :: u64)"
  by (induction xs) auto

lemma check_window_ok:
  assumes "pde_ordered pde" and "pd_pulses pde = pd_last_ts pde # xs"
  shows "shrinks (pde, rp) (pulse_queue_check_window (pde, rp))"
    "list_all (\<lambda>p. unat (pd_last_ts pde) \<le> unat p + unat (pd_window_size pde)) (pd_pulses (fst (pulse_queue_check_window (pde, rp))))"
proof -
  let ?s = "pulse_queue_check_window (pde, rp)" and ?m = "pd_last_ts pde - ucast (pd_window_size pde)"
  have w: "unat (ucast (pd_window_size pde) :: u64) = unat (pd_window_size pde)" by simp
  consider (few) "?s = (pde, rp)" "pd_count pde < 2" | (early) "?s = (pde, rp)" "pd_last_ts pde \<le> ucast (pd_window_size pde)"
    | (drop) "?s = drop_old ?m (pde, rp)" "ucast (pd_window_size pde) \<le> pd_last_ts pde"
  proof (cases "pd_count pde < 2")
    case True
    then show thesis using few by (simp add: pulse_queue_check_window_def)
  next
    case False
    then show thesis
      using early drop by (cases "pd_last_ts pde \<le> ucast (pd_window_size pde)") (simp_all add: pulse_queue_check_window_def)
  qed
  note cases = this
  show sh: "shrinks (pde, rp) ?s" using cases shrinks_refl drop_old_shrinks by cases simp_all
  show "list_all (\<lambda>p. unat (pd_last_ts pde) \<le> unat p + unat (pd_window_size pde)) (pd_pulses (fst ?s))"
    using cases
  proof cases
    case few
    then have "xs = []" using assms by (simp add: pde_ordered_def word_less_nat_alt)
    then show ?thesis using few assms(2) by simp
  next
    case early
    then show ?thesis using w by (auto simp: list_all_iff word_le_nat_alt)
  next
    case drop
    have o: "sorted_wrt (\<ge>) (pd_pulses (fst ?s))" using shrinks_ordered(1) [OF sh] assms(1) by (simp add: pde_ordered_def)
    have "?m \<le> p" if "p \<in> set (pd_pulses (fst ?s))" for p
      using sorted_ge_last [OF o _ that] that drop_old_shrinks [of "(pde, rp)" ?m] drop(1) by force
    then show ?thesis using drop(2) w by (auto simp: list_all_iff word_le_nat_alt unat_sub le_diff_conv)
  qed
qed

text \<open>Adding a pulse that is not older than those of the queue.\<close>

definition ts_fits :: "pri_detector \<Rightarrow> u64 \<Rightarrow> bool" where
  "ts_fits pde ts \<longleftrightarrow> pd_pulses pde = [] \<or> pd_last_ts pde \<le> ts"

lemma enqueue_ok:
  fixes rp :: radar_pools
  assumes ok: "pde_ok pde" and ts: "ts_fits pde ts"
  defines "s' \<equiv> pulse_queue_enqueue ts (pde, rp)"
  shows "pde_ok (fst s') \<and> pde_units s' = pde_units (pde, rp) \<and> pd_sequences (fst s') = pd_sequences pde
    \<and> pd_rs (fst s') = pd_rs pde \<and> pd_window_size (fst s') = pd_window_size pde \<and> pd_max_count (fst s') = pd_max_count pde
    \<and> (s' = (pde, rp) \<or> pd_last_ts (fst s') = ts)"
proof -
  define got where "got = (case pool_get_pulse_elem rp of (True, rp1) \<Rightarrow> (True, rp1) | (False, rp1) \<Rightarrow> kmalloc rp1)"
  have g: "fst got \<Longrightarrow> Suc (pool_units (snd got)) = pool_units rp" "\<not> fst got \<Longrightarrow> snd got = rp"
    by (auto simp: got_def pool_get_pulse_elem_def kmalloc_def pool_units_def split: if_splits)
  show ?thesis
  proof (cases "fst got")
    case False
    then have "s' = (pde, rp)" using g(2) by (cases got) (simp add: s'_def pulse_queue_enqueue_def flip: got_def)
    then show ?thesis using ok by simp
  next
    case True
    then obtain rp2 where e: "got = (True, rp2)" by (cases got) auto
    let ?p1 = "pde\<lparr>pd_pulses := ts # pd_pulses pde, pd_count := pd_count pde + 1, pd_last_ts := ts\<rparr>"
    define s1 where "s1 = pulse_queue_check_window (?p1, rp2)"
    have s': "s' = (if pd_count (fst s1) \<ge> pd_max_count (fst s1) then pulse_queue_dequeue s1 else s1)"
      by (simp add: s'_def pulse_queue_enqueue_def e flip: got_def s1_def split: prod.split)
    have l: "unat (pd_count pde) = length (pd_pulses pde)" "length (pd_pulses pde) < unat (pd_max_count pde)"
      using ok by (simp_all add: pde_ok_def pde_ordered_def)
    have "unat (pd_count pde + 1) = Suc (length (pd_pulses pde))"
      using l unat_u32_less [of "pd_max_count pde"] by (simp add: unat_word_ariths)
    then have o1: "pde_ordered ?p1"
      using ok ts by (auto simp: pde_ok_def pde_ordered_def list_all_iff ts_fits_def)
    note W = check_window_ok [OF o1, of "pd_pulses pde" rp2, folded s1_def]
    have sh: "shrinks (?p1, rp2) s1" using W(1) by simp
    note F = shrinks_fields [OF sh] and O = shrinks_ordered [OF sh, simplified, OF o1]
    have w1: "list_all (\<lambda>p. unat (pd_last_ts (fst s1)) \<le> unat p + unat (pd_window_size (fst s1))) (pd_pulses (fst s1))"
      using W(2) F by simp
    have sh2: "shrinks s1 s'" using shrinks_refl shrinks_dequeue by (simp add: s')
    note F2 = shrinks_fields [OF sh2] and O2 = shrinks_ordered [OF sh2 O(1)]
    have "length (pd_pulses (fst s')) < unat (pd_max_count (fst s'))"
    proof (cases "pd_count (fst s1) \<ge> pd_max_count (fst s1)")
      case True
      then have "length (pd_pulses (fst s')) = length (pd_pulses (fst s1)) - 1" by (cases s1) (simp add: s' pulse_queue_dequeue_def)
      then show ?thesis using O(3) l F F2 by (simp add: algebra_simps)
    next
      case False
      then show ?thesis using O(1) by (simp add: s' pde_ordered_def word_le_nat_alt)
    qed
    moreover have "list_all (\<lambda>p. unat (pd_last_ts (fst s')) \<le> unat p + unat (pd_window_size (fst s'))) (pd_pulses (fst s'))"
      using w1 O2(2) F2 by (auto simp: list_all_iff)
    moreover have "pde_units s' = pde_units (pde, rp)" using F F2 g(1) [OF True] by (simp add: pde_units_def e)
    ultimately show ?thesis using O2(1) F F2 by (simp add: pde_ok_def)
  qed
qed

section \<open>A pulse keeps the detector well formed\<close>

lemma pool_put_units [simp]:
  "pool_units (pool_put_pseq_elem ps rp) = Suc (pool_units rp)" "rp_pulses (pool_put_pseq_elem ps rp) = rp_pulses rp"
  by (simp_all add: pool_units_def pool_put_pseq_elem_def)

lemma pool_get_units: "pool_get_pseq_elem rp = (got, rp') \<Longrightarrow> pool_units rp' + (if got = None then 0 else 1) = pool_units rp"
  by (auto simp: pool_get_pseq_elem_def kmalloc_def pool_units_def split: list.splits if_splits)

lemma add_to_seqs_units:
  "add_to_seqs rs ts seqs m rp = (m', seqs', rp') \<Longrightarrow> pool_units rp' + length seqs' = pool_units rp + length seqs"
proof (induction seqs arbitrary: m rp m' seqs' rp')
  case (Cons ps seqs)
  then show ?case by (auto simp: Let_def split: if_splits prod.splits)
qed simp

lemma create_loop_units:
  "create_loop rs ts mc ps k (seqs, rp) = (ok, seqs', rp') \<Longrightarrow> pool_units rp' + length seqs' = pool_units rp + length seqs"
proof (induction ps arbitrary: k seqs rp)
  case (Cons p ps)
  show ?case
    using Cons.prems Cons.IH pool_get_units
    by (auto simp: Let_def split: if_splits prod.splits option.splits) force+
qed simp

lemma fold_put_units: "pool_units (fold pool_put_pseq_elem seqs rp) = pool_units rp + length seqs \<and> rp_pulses (fold pool_put_pseq_elem seqs rp) = rp_pulses rp"
  by (induction seqs arbitrary: rp) simp_all

lemma reset_units: "pde_units (pri_detector_reset ts s) = pde_units s"
proof (cases s)
  case (Pair pde rp)
  then show ?thesis using fold_put_units [of "pd_sequences pde" rp] by (simp add: pri_detector_reset_def pde_units_def pool_units_def)
qed

lemma reset_ok: "pde_ok (fst s) \<Longrightarrow> pde_ok (fst (pri_detector_reset ts s))"
  by (cases s) (simp add: pri_detector_reset_def pde_ok_def pde_ordered_def)

lemma pde_ok_sequences [simp]: "pde_ok (pde\<lparr>pd_sequences := x\<rparr>) = pde_ok pde"
  by (simp add: pde_ok_def pde_ordered_def)

lemma ts_fits_sequences [simp]: "ts_fits (pde\<lparr>pd_sequences := x\<rparr>) = ts_fits pde"
  by (simp add: ts_fits_def fun_eq_iff)

text \<open>A step that keeps the detector well formed and its time at most \<open>ts\<close>, and loses no element.\<close>

definition pde_good :: "u64 \<Rightarrow> pri_detector \<times> radar_pools \<Rightarrow> pri_detector \<times> radar_pools \<Rightarrow> bool" where
  "pde_good ts s s' \<longleftrightarrow> pde_ok (fst s') \<and> ts_fits (fst s') ts \<and> pde_units s' = pde_units s"

lemma enqueue_good: "pde_ok pde \<Longrightarrow> ts_fits pde ts \<Longrightarrow> pde_good ts (pde, rp) (pulse_queue_enqueue ts (pde, rp))"
  using enqueue_ok [of pde ts rp] by (auto simp: pde_good_def ts_fits_def)

lemma reset_good: "pde_ok (fst s) \<Longrightarrow> pde_good ts s (pri_detector_reset ts' s)"
  using reset_ok [of s ts'] reset_units [of ts' s] by (cases s) (simp add: pde_good_def ts_fits_def pri_detector_reset_def)

lemma short_add_pulse_good:
  assumes "pde_ok pde" and "ts_fits pde ts"
  shows "pde_good ts (pde, rp) (snd (pde_short_add_pulse ts (pde, rp)))"
proof -
  obtain m seqs1 rp1 where a: "add_to_seqs (pd_rs pde) ts (pd_sequences pde) 0 rp = (m, seqs1, rp1)" by (cases "add_to_seqs (pd_rs pde) ts (pd_sequences pde) 0 rp")
  obtain ok seqs2 rp2 where c: "create_loop (pd_rs pde) ts m (pd_pulses pde) 0 (seqs1, rp1) = (ok, seqs2, rp2)"
    by (cases "create_loop (pd_rs pde) ts m (pd_pulses pde) 0 (seqs1, rp1)")
  let ?s = "(pde\<lparr>pd_sequences := seqs2\<rparr>, rp2)"
  have u: "pde_units ?s = pde_units (pde, rp)"
    using add_to_seqs_units [OF a] create_loop_units [OF c] by (simp add: pde_units_def)
  have "pde_good ts (pde, rp) (pulse_queue_enqueue ts (pde, rp))" using enqueue_good [OF assms] .
  moreover have "pde_good ts (pde, rp) (pulse_queue_enqueue ts ?s)"
    using enqueue_good [of "pde\<lparr>pd_sequences := seqs2\<rparr>" ts rp2] assms u by (simp add: pde_good_def)
  moreover have "pde_good ts (pde, rp) (pri_detector_reset ts ?s)" using reset_good [of ?s ts ts] assms u by (simp add: pde_good_def)
  moreover have "pde_good ts (pde, rp) ?s" "pde_good ts (pde, rp) (pde, rp)" using assms u by (simp_all add: pde_good_def)
  ultimately show ?thesis
    by (cases ok) (simp_all add: pde_short_add_pulse_def pde_short_add_to_existing_seqs_def pde_short_create_sequences_def a c split: option.split)
qed

lemma long_restart_good:
  "long_restart m ps s = (ps', s') \<Longrightarrow> shrinks s s'"
proof (induction m ps s arbitrary: ps' s' rule: long_restart.induct)
  case (1 m ps pde rp)
  then show ?case
    using shrinks_refl shrinks_trans [OF shrinks_dequeue]
    by (auto simp: long_restart.simps [of m ps pde rp] split: if_splits)
qed

lemma long_add_pulse_good:
  assumes "pde_ok pde" and "ts_fits pde ts"
  shows "pde_good ts (pde, rp) (snd (pde_long_add_pulse ts (pde, rp)))"
proof (cases "pd_sequences pde")
  case Nil
  obtain got rp1 where p: "pool_get_pseq_elem rp = (got, rp1)" by (cases "pool_get_pseq_elem rp")
  have "pde_good ts (pde, rp) (pulse_queue_enqueue ts (pde\<lparr>pd_sequences := [ps]\<rparr>, rp1))" if "got \<noteq> None" for ps
  proof -
    have "pde_units (pde\<lparr>pd_sequences := [ps]\<rparr>, rp1) = pde_units (pde, rp)"
      using pool_get_units [OF p] that Nil by (simp add: pde_units_def)
    then show ?thesis using enqueue_good [of "pde\<lparr>pd_sequences := [ps]\<rparr>" ts rp1] assms by (simp add: pde_good_def)
  qed
  moreover have "pde_good ts (pde, rp) (pde, rp1)" if "got = None" using pool_get_units [OF p] that assms by (simp add: pde_good_def pde_units_def)
  ultimately show ?thesis by (cases got) (simp_all add: pde_long_add_pulse_def Nil p Let_def)
next
  case (Cons ps0 rest)
  have f: "pde_good ts (pde, rp) (set_first_seq ps pde, rp)" for ps
    using assms Cons by (simp add: pde_good_def set_first_seq_def pde_units_def)
  have b: "pde_good ts (pde, rp) (snd (long_new_burst ts d ps (pde, rp)))" for d ps
  proof -
    let ?ps = "ps\<lparr>ps_count := ps_count ps + 1, ps_count_falses := 1\<rparr>"
    obtain ps2 pde2 rp2 where r: "(if ts > ps_deadline_ts ?ps then long_restart (ts - ucast (pd_window_size pde)) ?ps (pde, rp) else (?ps, pde, rp)) = (ps2, pde2, rp2)"
      by (metis prod_cases3)
    then have sh: "shrinks (pde, rp) (pde2, rp2)" using long_restart_good shrinks_refl by (auto split: if_splits)
    have o: "pde_ok pde2" "ts_fits pde2 ts" "pd_sequences pde2 = pd_sequences pde" "pde_units (pde2, rp2) = pde_units (pde, rp)"
      using shrinks_ok [OF sh] shrinks_fields [OF sh] assms by (auto simp: ts_fits_def)
    have g: "pde_good ts (pde, rp) (set_first_seq x pde2, rp2)" for x using o Cons by (simp add: pde_good_def set_first_seq_def pde_units_def)
    have "pde_good ts (pde, rp) (pulse_queue_enqueue ts (set_first_seq x pde2, rp2))" for x
      using enqueue_good [of "set_first_seq x pde2" ts rp2] o g [of x] by (simp add: pde_good_def set_first_seq_def)
    then show ?thesis unfolding long_new_burst_def prod.case Let_def r using g by simp
  qed
  show ?thesis using f b by (simp add: pde_long_add_pulse_def Cons Let_def)
qed

lemma add_pulse_good: "pde_ok (fst s) \<Longrightarrow> ts_fits (fst s) ts \<Longrightarrow> pde_good ts s (snd (pde_add_pulse ts s))"
  using short_add_pulse_good long_add_pulse_good by (cases s) (simp add: pde_add_pulse_def)

section \<open>The patterns of the domains\<close>

definition spec_ok :: "radar_detector_specs \<Rightarrow> bool" where
  "spec_ok rs \<longleftrightarrow> 0 < ppb rs \<and> ppb rs < 128 \<and> 0 < pri_min rs \<and> pri_min rs \<le> pri_max rs \<and> pri_max rs < 65536
     \<and> max_pri_tolerance rs = 16 \<and> 16 \<le> pri_min rs \<and> 0 < num_pri rs \<and> num_pri rs < 8 \<and> ppb_thresh rs \<le> ppb rs \<and> 2 \<le> ppb rs
     \<and> (rs_type rs = RADAR_WAVEFORM_WEATHER \<longrightarrow> 502 \<le> pri_min rs \<and> 102 \<le> ppb rs)"

lemmas radar_tables = etsi_radar_ref_types_v17_riu_def etsi_radar_ref_types_v17_fcu_def fcc_radar_ref_types_riu_def fcc_radar_ref_types_fcu_def
  jp_radar_ref_types_riu_def jp_radar_ref_types_fcu_def ETSI_PATTERN_SHORT_def ETSI_PATTERN_INTERLEAVED_def FCC_PATTERN_def PRF2PRI_def PPB_THRESH_def

lemma domain_specs_ok: "list_all (\<lambda>(region, riu, fcu). list_all spec_ok riu \<and> list_all spec_ok fcu) dfs_domains"
  by (simp add: dfs_domains_def radar_tables spec_ok_def)

lemma pde_new_ok:
  assumes "spec_ok rs"
  shows "pde_ok (pde_new rs f)"
proof -
  have "unat (of_nat (ppb rs * 2) :: u32) = ppb rs * 2" using assms by (intro unat_of_nat_u32) (simp add: spec_ok_def)
  then show ?thesis
    using assms by (simp add: pde_new_def Let_def pde_long_init_def pde_short_init_def pde_ok_def pde_ordered_def spec_ok_def del: of_nat_mult)
qed

end
