(* ===== verification/RadarChain.thy ===== *)
theory RadarChain
  imports RadarSpec
begin

text \<open>
  The pattern detector of a chain: whatever pulses, resets and changes of the regulatory domain it sees, its
  detectors stay well formed, every element is in use or in a pool, and the reference counter of the pools counts
  the detectors. The ring between the firmware indication and the work keeps the newest pulses in order.
\<close>

section \<open>The reference counter\<close>

lemma refs_simps [simp]:
  "rp_refs (snd (kmalloc rp)) = rp_refs rp" "rp_refs (pool_put_pulse_elem rp) = rp_refs rp" "rp_refs (pool_put_pseq_elem ps rp) = rp_refs rp"
  "rp_refs (snd (pool_get_pseq_elem rp)) = rp_refs rp" "rp_refs (snd (pool_get_pulse_elem rp)) = rp_refs rp"
  "rp_refs (snd (pulse_queue_dequeue s)) = rp_refs (snd s)"
  by (auto simp: kmalloc_def pool_put_pulse_elem_def pool_put_pseq_elem_def pool_get_pseq_elem_def pool_get_pulse_elem_def pulse_queue_dequeue_def
      split: list.split prod.split)

lemma drop_old_refs: "rp_refs (snd (drop_old m s)) = rp_refs (snd s)"
proof (induction m s rule: drop_old.induct)
  case (1 m pde rp)
  then show ?case using drop_old.simps [of m pde rp] by simp
qed

lemma check_window_refs: "rp_refs (snd (pulse_queue_check_window s)) = rp_refs (snd s)"
  by (cases s) (simp add: pulse_queue_check_window_def drop_old_refs)

lemma enqueue_refs [simp]: "rp_refs (snd (pulse_queue_enqueue ts s)) = rp_refs (snd s)"
proof (cases s)
  case (Pair pde rp)
  define got where "got = (case pool_get_pulse_elem rp of (True, rp1) \<Rightarrow> (True, rp1) | (False, rp1) \<Rightarrow> kmalloc rp1)"
  let ?p1 = "pde\<lparr>pd_pulses := ts # pd_pulses pde, pd_count := pd_count pde + 1, pd_last_ts := ts\<rparr>"
  have g: "rp_refs (snd got) = rp_refs rp" by (auto simp: got_def pool_get_pulse_elem_def kmalloc_def)
  obtain b rp2 where e: "got = (b, rp2)" by (cases got)
  obtain pde3 rp3 where w: "pulse_queue_check_window (?p1, rp2) = (pde3, rp3)" by (cases "pulse_queue_check_window (?p1, rp2)")
  then have "rp_refs rp3 = rp_refs rp2" using check_window_refs [of "(?p1, rp2)"] by simp
  then show ?thesis
    using g e refs_simps(6) [of "(pde3, rp3)"] by (cases b) (simp_all add: Pair pulse_queue_enqueue_def w flip: got_def)
qed

lemma add_to_seqs_refs: "rp_refs (snd (snd (add_to_seqs rs ts seqs m rp))) = rp_refs rp"
  by (induction seqs arbitrary: m rp) (simp_all add: Let_def case_prod_beta)

lemma create_loop_refs: "rp_refs (snd (snd (create_loop rs ts mc ps k (seqs, rp)))) = rp_refs rp"
proof (induction ps arbitrary: k seqs rp)
  case (Cons p ps)
  obtain got rp1 where p: "pool_get_pseq_elem rp = (got, rp1)" by (cases "pool_get_pseq_elem rp")
  then have "rp_refs rp1 = rp_refs rp" using refs_simps(4) [of rp] by simp
  then show ?case by (cases got) (simp_all add: Let_def p Cons.IH)
qed simp

lemma reset_refs [simp]: "rp_refs (snd (pri_detector_reset ts s)) = rp_refs (snd s)"
proof (cases s)
  case (Pair pde rp)
  have "rp_refs (fold pool_put_pseq_elem qs rp) = rp_refs rp" for qs by (induction qs arbitrary: rp) simp_all
  then show ?thesis by (simp add: Pair pri_detector_reset_def)
qed

lemma short_add_pulse_refs: "rp_refs (snd (snd (pde_short_add_pulse ts (pde, rp)))) = rp_refs rp"
proof -
  obtain m seqs1 rp1 where a: "add_to_seqs (pd_rs pde) ts (pd_sequences pde) 0 rp = (m, seqs1, rp1)"
    by (cases "add_to_seqs (pd_rs pde) ts (pd_sequences pde) 0 rp")
  obtain ok seqs2 rp2 where c: "create_loop (pd_rs pde) ts m (pd_pulses pde) 0 (seqs1, rp1) = (ok, seqs2, rp2)"
    by (cases "create_loop (pd_rs pde) ts m (pd_pulses pde) 0 (seqs1, rp1)")
  show ?thesis
    using add_to_seqs_refs [of "pd_rs pde" ts "pd_sequences pde" 0 rp] create_loop_refs [of "pd_rs pde" ts m "pd_pulses pde" 0 seqs1 rp1] a
    by (cases ok) (simp_all add: pde_short_add_pulse_def pde_short_add_to_existing_seqs_def pde_short_create_sequences_def a c split: option.split)
qed

lemma long_restart_refs: "rp_refs (snd (snd (long_restart m ps s))) = rp_refs (snd s)"
proof (induction m ps s rule: long_restart.induct)
  case (1 m ps pde rp)
  then show ?case using long_restart.simps [of m ps pde rp] by simp
qed

lemma long_new_burst_refs: "rp_refs (snd (snd (long_new_burst ts d ps (pde, rp)))) = rp_refs rp"
proof -
  let ?ps = "ps\<lparr>ps_count := ps_count ps + 1, ps_count_falses := 1\<rparr>"
  obtain ps2 pde2 rp2 where r: "(if ts > ps_deadline_ts ?ps then long_restart (ts - ucast (pd_window_size pde)) ?ps (pde, rp) else (?ps, pde, rp)) = (ps2, pde2, rp2)"
    by (metis prod_cases3)
  then have "rp_refs rp2 = rp_refs rp"
    using long_restart_refs [of "ts - ucast (pd_window_size pde)" ?ps "(pde, rp)"] by (simp split: if_splits)
  then show ?thesis unfolding long_new_burst_def prod.case Let_def r by simp
qed

lemma add_pulse_refs [simp]: "rp_refs (snd (snd (pde_add_pulse ts s))) = rp_refs (snd s)"
proof (cases s)
  case (Pair pde rp)
  obtain got rp1 where p: "pool_get_pseq_elem rp = (got, rp1)" by (cases "pool_get_pseq_elem rp")
  then have "rp_refs rp1 = rp_refs rp" using refs_simps(4) [of rp] by simp
  then have "rp_refs (snd (snd (pde_long_add_pulse ts (pde, rp)))) = rp_refs rp"
    by (cases "pd_sequences pde"; cases got) (simp_all add: pde_long_add_pulse_def p Let_def long_new_burst_refs)
  then show ?thesis by (simp add: Pair pde_add_pulse_def short_add_pulse_refs)
qed

section \<open>The state of a chain\<close>

definition det_units :: "pri_detector \<Rightarrow> nat" where
  "det_units pde = 1 + length (pd_pulses pde) + length (pd_sequences pde)"

definition dpd_units :: "dfs_pattern_detector \<times> radar_pools \<Rightarrow> nat" where
  "dpd_units s = pool_units (snd s) + sum_list (map det_units (concat (dp_detectors (fst s))))"

text \<open>References that other users of the pools hold.\<close>

definition dpd_refs :: "dfs_pattern_detector \<times> radar_pools \<Rightarrow> u32" where
  "dpd_refs s = rp_refs (snd s) - of_nat (length (concat (dp_detectors (fst s))))"

definition dpd_shape :: "dfs_pattern_detector \<Rightarrow> bool" where
  "dpd_shape d \<longleftrightarrow>
     length (dp_detectors d) = get_dfs_max_radar_types \<and> dp_num_radar_types d \<le> get_dfs_max_radar_types
     \<and> length (dp_spec d) = dp_num_radar_types d \<and> list_all spec_ok (dp_spec d)
     \<and> (\<forall>i < get_dfs_max_radar_types. dp_num_radar_types d \<le> i \<longrightarrow> dp_detectors d ! i = [])"

definition dpd_ok :: "dfs_pattern_detector \<Rightarrow> bool" where
  "dpd_ok d \<longleftrightarrow> dpd_shape d \<and> (\<forall>i < get_dfs_max_radar_types. \<forall>pde \<in> set (dp_detectors d ! i). pde_ok pde \<and> ts_fits pde (dp_last_pulse_ts d))"

definition dpd_good :: "dfs_pattern_detector \<times> radar_pools \<Rightarrow> dfs_pattern_detector \<times> radar_pools \<Rightarrow> bool" where
  "dpd_good s s' \<longleftrightarrow> dpd_ok (fst s') \<and> dpd_units s' = dpd_units s \<and> dpd_refs s' = dpd_refs s"

lemma dpd_good_trans: "dpd_good s t \<Longrightarrow> dpd_good t u \<Longrightarrow> dpd_good s u"
  by (simp add: dpd_good_def)

lemma max_radar_types [simp]: "get_dfs_max_radar_types = 8"
  by (simp add: get_dfs_max_radar_types_def dfs_domains_def etsi_radar_ref_types_v17_riu_def fcc_radar_ref_types_riu_def jp_radar_ref_types_riu_def)

lemma sum_concat_update:
  "i < length xss \<Longrightarrow>
     sum_list (map (g :: 'a \<Rightarrow> nat) (concat (xss[i := ys]))) + sum_list (map g (xss ! i)) = sum_list (map g (concat xss)) + sum_list (map g ys)"
proof (induction xss arbitrary: i)
  case (Cons xs xss)
  then show ?case by (cases i) (auto simp: add.assoc)
qed simp

lemma sum_map_update: "k < length xs \<Longrightarrow> sum_list (map (g :: 'a \<Rightarrow> nat) (xs[k := y])) + g (xs ! k) = sum_list (map g xs) + g y"
proof (induction xs arbitrary: k)
  case (Cons x xs)
  then show ?case by (cases k) (auto simp: add.assoc)
qed simp

lemma length_concat_update:
  "i < length xss \<Longrightarrow> length (concat (xss[i := ys])) + length (xss ! i) = length (concat xss) + length ys"
  using sum_concat_update [of i xss "\<lambda>_. 1" ys] by (simp add: sum_list_triv)

lemma refs_balance: "n + a = c + p \<Longrightarrow> r' - p = r - a \<Longrightarrow> r' - n = r - (c :: u32)"
proof -
  assume "n + a = c + p" and "r' - p = r - a"
  then have "n = c + p - a" "r' = (r - a) + p" using eq_diff_eq [of n "c + p" a] diff_eq_eq [of r' p "r - a"] by simp_all
  then show ?thesis by simp
qed

text \<open>Replacing the detectors of one radar type.\<close>

lemma set_detectors_good:
  assumes d: "dpd_ok d" and i: "i < dp_num_radar_types d"
    and ok: "\<forall>pde \<in> set pdes. pde_ok pde \<and> ts_fits pde (dp_last_pulse_ts d)"
    and u: "pool_units rp' + sum_list (map det_units pdes) = pool_units rp + sum_list (map det_units (dp_detectors d ! i))"
    and r: "rp_refs rp' - of_nat (length pdes) = rp_refs rp - of_nat (length (dp_detectors d ! i))"
  shows "dpd_good (d, rp) (d\<lparr>dp_detectors := (dp_detectors d)[i := pdes]\<rparr>, rp')"
proof -
  have l: "i < length (dp_detectors d)" "length (dp_detectors d) = 8" using d i by (auto simp: dpd_ok_def dpd_shape_def)
  have "of_nat (length (concat ((dp_detectors d)[i := pdes]))) + (of_nat (length (dp_detectors d ! i)) :: u32)
      = of_nat (length (concat (dp_detectors d))) + of_nat (length pdes)"
    using arg_cong [OF length_concat_update [OF l(1), of pdes], of "of_nat :: nat \<Rightarrow> u32"] by (simp only: of_nat_add)
  then have "dpd_refs (d\<lparr>dp_detectors := (dp_detectors d)[i := pdes]\<rparr>, rp') = dpd_refs (d, rp)"
    using refs_balance [OF _ r] by (simp add: dpd_refs_def)
  moreover have "dpd_units (d\<lparr>dp_detectors := (dp_detectors d)[i := pdes]\<rparr>, rp') = dpd_units (d, rp)"
    using u sum_concat_update [OF l(1), of det_units pdes] by (simp add: dpd_units_def)
  moreover have "dpd_ok (d\<lparr>dp_detectors := (dp_detectors d)[i := pdes]\<rparr>)"
    using d i ok l by (auto simp: dpd_ok_def dpd_shape_def nth_list_update)
  ultimately show ?thesis by (simp add: dpd_good_def)
qed

section \<open>Steps on all detectors\<close>

definition pde_keeps :: "(pri_detector \<times> radar_pools \<Rightarrow> pri_detector \<times> radar_pools) \<Rightarrow> u64 \<Rightarrow> bool" where
  "pde_keeps f ts \<longleftrightarrow>
     (\<forall>s. pde_ok (fst s) \<longrightarrow> ts_fits (fst s) ts \<longrightarrow> pde_good ts s (f s) \<and> rp_refs (snd (f s)) = rp_refs (snd s))"

lemma map_pools_good:
  assumes "pde_keeps f ts" and "\<forall>pde \<in> set pdes. pde_ok pde \<and> ts_fits pde ts" and "map_pools f pdes rp = (pdes', rp')"
  shows "(\<forall>pde \<in> set pdes'. pde_ok pde \<and> ts_fits pde ts) \<and> length pdes' = length pdes \<and> rp_refs rp' = rp_refs rp
    \<and> pool_units rp' + sum_list (map det_units pdes') = pool_units rp + sum_list (map det_units pdes)"
  using assms(2, 3)
proof (induction pdes arbitrary: rp pdes' rp')
  case (Cons pde pdes)
  obtain q rp1 where q: "f (pde, rp) = (q, rp1)" by (cases "f (pde, rp)")
  obtain qs rp2 where qs: "map_pools f pdes rp1 = (qs, rp2)" by (cases "map_pools f pdes rp1")
  have g: "pde_good ts (pde, rp) (q, rp1)" and r: "rp_refs rp1 = rp_refs rp"
    using assms(1) [unfolded pde_keeps_def, rule_format, of "(pde, rp)"] Cons.prems(1) by (simp_all add: q)
  have e: "pdes' = q # qs" "rp' = rp2" using Cons.prems(2) q qs by simp_all
  have "\<forall>pde \<in> set pdes. pde_ok pde \<and> ts_fits pde ts" using Cons.prems(1) by simp
  note I = Cons.IH [OF this qs]
  have "pool_units rp1 + det_units q = pool_units rp + det_units pde" using g by (simp add: pde_good_def pde_units_def det_units_def)
  then have "pool_units rp2 + sum_list (map det_units (q # qs)) = pool_units rp + sum_list (map det_units (pde # pdes))"
    using I unfolding list.map sum_list.Cons by linarith
  moreover have "\<forall>pde \<in> set (q # qs). pde_ok pde \<and> ts_fits pde ts" using g I by (simp add: pde_good_def)
  moreover have "rp_refs rp2 = rp_refs rp" using I r by simp
  ultimately show ?case using I unfolding e by simp
qed simp

lemma map_types_good:
  "pde_keeps f (dp_last_pulse_ts d) \<Longrightarrow> dpd_ok d \<Longrightarrow> \<forall>i \<in> set is. i < dp_num_radar_types d \<Longrightarrow> map_types f is (d, rp) = (d', rp')
     \<Longrightarrow> dpd_good (d, rp) (d', rp') \<and> (\<exists>x. d' = d\<lparr>dp_detectors := x\<rparr>)"
proof (induction "is" arbitrary: d rp)
  case Nil
  have "d = d\<lparr>dp_detectors := dp_detectors d\<rparr>" by simp
  then show ?case using Nil by (auto simp: dpd_good_def intro: exI [of _ "dp_detectors d"])
next
  case (Cons i "is")
  obtain pdes rp1 where p: "map_pools f (dp_detectors d ! i) rp = (pdes, rp1)" by (cases "map_pools f (dp_detectors d ! i) rp")
  let ?d1 = "d\<lparr>dp_detectors := (dp_detectors d)[i := pdes]\<rparr>"
  have i: "i < dp_num_radar_types d" "i < 8" using Cons.prems by (auto simp: dpd_ok_def dpd_shape_def)
  have a: "\<forall>pde \<in> set (dp_detectors d ! i). pde_ok pde \<and> ts_fits pde (dp_last_pulse_ts d)" using Cons.prems(2) i by (simp add: dpd_ok_def)
  have g: "dpd_good (d, rp) (?d1, rp1)"
    using map_pools_good [OF Cons.prems(1) a p] by (intro set_detectors_good Cons.prems(2) i) simp_all
  then have "dpd_good (?d1, rp1) (d', rp') \<and> (\<exists>x. d' = ?d1\<lparr>dp_detectors := x\<rparr>)"
    using Cons.IH [of ?d1 rp1] Cons.prems p by (simp add: dpd_good_def)
  then show ?case using dpd_good_trans [OF g] by auto
qed

lemma map_pools_all: "(\<And>s. Q (fst (f s))) \<Longrightarrow> \<forall>pde \<in> set (fst (map_pools f pdes rp)). Q pde"
proof (induction pdes arbitrary: rp)
  case (Cons pde pdes)
  have "Q (fst (f (pde, rp)))" by (rule Cons.prems)
  then show ?case using Cons by (simp add: case_prod_beta)
qed simp

lemma map_types_all:
  "(\<And>s. Q (fst (f s))) \<Longrightarrow> map_types f is (d, rp) = (d', rp') \<Longrightarrow> i < length (dp_detectors d)
     \<Longrightarrow> i \<in> set is \<or> (\<forall>pde \<in> set (dp_detectors d ! i). Q pde) \<Longrightarrow> \<forall>pde \<in> set (dp_detectors d' ! i). Q pde"
proof (induction "is" arbitrary: d rp)
  case (Cons j "is")
  obtain pdes rp1 where p: "map_pools f (dp_detectors d ! j) rp = (pdes, rp1)" by (cases "map_pools f (dp_detectors d ! j) rp")
  have "\<forall>pde \<in> set pdes. Q pde" using map_pools_all [of Q f "dp_detectors d ! j" rp] Cons.prems(1) p by simp
  then have "i \<in> set is \<or> (\<forall>pde \<in> set ((dp_detectors d)[j := pdes] ! i). Q pde)"
    using Cons.prems(3, 4) by (cases "i = j") simp_all
  then show ?case using Cons.IH [of "d\<lparr>dp_detectors := (dp_detectors d)[j := pdes]\<rparr>" rp1] Cons.prems p by simp
qed simp

lemma reset_keeps: "pde_keeps (pri_detector_reset t) ts"
  unfolding pde_keeps_def using reset_good by simp

lemma overflow_keeps: "pde_keeps (\<lambda>(pde, rp). if pde_is_long pde then (pde, rp) else pri_detector_reset t (pde, rp)) ts"
  unfolding pde_keeps_def using reset_good by (auto simp: pde_good_def)

lemma dpd_reset_good:
  assumes "dpd_ok d"
  shows "dpd_good (d, rp) (dfs_pattern_detector_reset j (d, rp))"
proof -
  let ?f = "pri_detector_reset (dp_last_pulse_ts d)" and ?is = "[0 ..< dp_num_radar_types d]"
  obtain d1 rp1 where m: "map_types ?f ?is (d, rp) = (d1, rp1)" by (cases "map_types ?f ?is (d, rp)")
  have g: "dpd_good (d, rp) (d1, rp1)" and x: "\<exists>x. d1 = d\<lparr>dp_detectors := x\<rparr>"
    using map_types_good [OF reset_keeps assms _ m] by simp_all
  have q: "pd_pulses (fst (?f s)) = []" for s by (cases s) (simp add: pri_detector_reset_def)
  have l: "length (dp_detectors d) = 8" "\<And>i. dp_num_radar_types d \<le> i \<Longrightarrow> i < 8 \<Longrightarrow> dp_detectors d ! i = []"
    using assms by (auto simp: dpd_ok_def dpd_shape_def)
  have "\<forall>pde \<in> set (dp_detectors d1 ! i). pd_pulses pde = []" if "i < 8" for i
    using map_types_all [of "\<lambda>pde. pd_pulses pde = []" ?f, OF q m, of i] l that by (cases "i < dp_num_radar_types d") auto
  then have "dpd_ok (d1\<lparr>dp_last_pulse_ts := 0, dp_prev_jiffies := j\<rparr>)"
    using g by (auto simp: dpd_good_def dpd_ok_def dpd_shape_def ts_fits_def)
  then show ?thesis using g by (simp add: dfs_pattern_detector_reset_def m dpd_good_def dpd_units_def dpd_refs_def)
qed

section \<open>A pulse\<close>

lemma dpd_time_mono:
  assumes "dpd_ok d" and "dp_last_pulse_ts d \<le> t"
  shows "dpd_good (d, rp) (d\<lparr>dp_last_pulse_ts := t, dp_prev_jiffies := j\<rparr>, rp)"
proof -
  have "ts_fits pde (dp_last_pulse_ts d) \<Longrightarrow> ts_fits pde t" for pde using assms(2) by (auto simp: ts_fits_def)
  then show ?thesis using assms(1) by (auto simp: dpd_good_def dpd_ok_def dpd_shape_def dpd_units_def dpd_refs_def)
qed

lemma map_types_time: "dp_last_pulse_ts (fst (map_types f is (d, rp))) = dp_last_pulse_ts d"
  by (induction "is" arbitrary: d rp) (simp_all add: case_prod_beta)

lemma map_types_num: "dp_num_radar_types (fst (map_types f is (d, rp))) = dp_num_radar_types d"
  by (induction "is" arbitrary: d rp) (simp_all add: case_prod_beta)

lemma pulse_time_num: "dp_num_radar_types (fst (pulse_time usecs pri now (d, rp))) = dp_num_radar_types d"
  by (simp add: pulse_time_def Let_def dfs_pattern_detector_pri_overflow_def map_types_num)

lemma overflow_good:
  assumes "dpd_ok d"
  shows "dpd_good (d, rp) (dfs_pattern_detector_pri_overflow (d, rp))"
proof -
  let ?f = "\<lambda>(pde, rp). if pde_is_long pde then (pde, rp) else pri_detector_reset (dp_last_pulse_ts d) (pde, rp)"
  obtain d1 rp1 where m: "map_types ?f [0 ..< dp_num_radar_types d] (d, rp) = (d1, rp1)" by (cases "map_types ?f [0 ..< dp_num_radar_types d] (d, rp)")
  show ?thesis using map_types_good [OF overflow_keeps assms _ m] by (simp add: dfs_pattern_detector_pri_overflow_def m)
qed

lemma pulse_time_good:
  assumes "dpd_ok d" and "dp_last_pulse_ts d \<le> dp_last_pulse_ts (fst (pulse_time usecs pri now (d, rp)))"
  shows "dpd_good (d, rp) (pulse_time usecs pri now (d, rp))"
proof (cases "pri = 0")
  case True
  define t where "t = dp_last_pulse_ts d
    + ucast (usecs (if now < dp_prev_jiffies d then 0xffffffff - dp_prev_jiffies d + now else now - dp_prev_jiffies d))"
  let ?d = "d\<lparr>dp_last_pulse_ts := t, dp_prev_jiffies := now\<rparr>"
  have e: "pulse_time usecs pri now (d, rp) = dfs_pattern_detector_pri_overflow (?d, rp)"
    by (simp add: pulse_time_def True t_def Let_def)
  have "dp_last_pulse_ts (fst (dfs_pattern_detector_pri_overflow (?d, rp))) = t"
    by (simp add: dfs_pattern_detector_pri_overflow_def map_types_time)
  then have "dpd_good (d, rp) (?d, rp)" using assms(2) by (intro dpd_time_mono assms(1)) (simp add: e)
  then show ?thesis using dpd_good_trans overflow_good by (simp add: e dpd_good_def)
next
  case False
  then show ?thesis using dpd_time_mono [OF assms(1), of "dp_last_pulse_ts d + ucast pri" rp "dp_prev_jiffies d"] assms(2) by (simp add: pulse_time_def)
qed

lemma find_detector_range: "find_detector freq pdes k cur = Some j \<Longrightarrow> cur = Some j \<or> (k \<le> j \<and> j < k + length pdes)"
  by (induction pdes arbitrary: k cur) (fastforce split: if_splits)+

lemma pri_detector_get_good:
  assumes "dpd_ok d" and "i < dp_num_radar_types d" and "pri_detector_get freq i (d, rp) = (Some k, d', rp')"
  shows "dpd_good (d, rp) (d', rp') \<and> k < length (dp_detectors d' ! i) \<and> dp_num_radar_types d' = dp_num_radar_types d
    \<and> dp_last_pulse_ts d' = dp_last_pulse_ts d"
proof (cases "find_detector freq (dp_detectors d ! i) 0 None")
  case (Some j)
  then show ?thesis using assms find_detector_range [OF Some] by (auto simp: pri_detector_get_def dpd_good_def)
next
  case None
  have i: "i < length (dp_detectors d)" "i < 8" "spec_ok (dp_spec d ! i)" using assms(1, 2) by (auto simp: dpd_ok_def dpd_shape_def list_all_length)
  let ?new = "pde_new (dp_spec d ! i) freq"
  have n: "pd_pulses ?new = []" "pd_sequences ?new = []" by (simp_all add: pde_new_def Let_def pde_long_init_def pde_short_init_def)
  obtain rp1 where m: "kmalloc rp = (True, rp1)" and d': "k = 0" "d' = d\<lparr>dp_detectors := (dp_detectors d)[i := ?new # dp_detectors d ! i]\<rparr>" "rp' = pool_register_ref rp1"
    using assms(3) None by (auto simp: pri_detector_get_def pri_detector_init_def split: prod.splits bool.splits)
  have "\<forall>pde \<in> set (?new # dp_detectors d ! i). pde_ok pde \<and> ts_fits pde (dp_last_pulse_ts d)"
    using pde_new_ok [OF i(3), of freq] assms(1) n i(2) by (auto simp: dpd_ok_def ts_fits_def)
  moreover have "pool_units rp' + sum_list (map det_units (?new # dp_detectors d ! i)) = pool_units rp + sum_list (map det_units (dp_detectors d ! i))"
    using m n by (auto simp: d' kmalloc_def pool_register_ref_def pool_units_def det_units_def split: if_splits)
  moreover have "rp_refs rp' - of_nat (length (?new # dp_detectors d ! i)) = rp_refs rp - of_nat (length (dp_detectors d ! i))"
    using m by (auto simp: d' kmalloc_def pool_register_ref_def split: if_splits)
  ultimately show ?thesis using set_detectors_good [OF assms(1, 2)] i(1) by (simp add: d')
qed

lemma set_detector_good:
  assumes "dpd_ok d" and "i < dp_num_radar_types d" and k: "k < length (dp_detectors d ! i)"
    and g: "pde_good (dp_last_pulse_ts d) (dp_detectors d ! i ! k, rp) (pde, rp')" and r: "rp_refs rp' = rp_refs rp"
  shows "dpd_good (d, rp) (set_detector i k pde d, rp')"
proof -
  let ?L = "dp_detectors d ! i"
  have "i < 8" using assms(1, 2) by (auto simp: dpd_ok_def dpd_shape_def)
  then have "\<forall>q \<in> set ?L. pde_ok q \<and> ts_fits q (dp_last_pulse_ts d)" using assms(1) by (simp add: dpd_ok_def)
  then have "\<forall>q \<in> set (?L[k := pde]). pde_ok q \<and> ts_fits q (dp_last_pulse_ts d)"
    using g set_update_subset_insert [of ?L k pde] by (auto simp: pde_good_def)
  moreover have "pool_units rp' + sum_list (map det_units (?L[k := pde])) = pool_units rp + sum_list (map det_units ?L)"
    using sum_map_update [OF k, of det_units pde] g by (simp add: pde_good_def pde_units_def det_units_def)
  ultimately show ?thesis using set_detectors_good [OF assms(1, 2), of "?L[k := pde]" rp' rp] r by (simp add: set_detector_def)
qed

lemma try_types_good:
  "dpd_ok d \<Longrightarrow> \<forall>i \<in> set is. i < dp_num_radar_types d \<Longrightarrow> try_types j freq len is (d, rp) = Inr (found, s') \<Longrightarrow> dpd_good (d, rp) s'"
proof (induction "is" arbitrary: d rp)
  case (Cons i "is")
  show ?case
  proof (cases "width_min (dp_spec d ! i) > unat len \<or> width_max (dp_spec d ! i) < unat len")
    case True
    then show ?thesis using Cons by (simp add: Let_def)
  next
    case False
    obtain got d1 rp1 where p: "pri_detector_get freq i (d, rp) = (got, d1, rp1)" by (metis prod_cases3)
    then obtain k where k: "got = Some k" using Cons.prems(3) False by (cases got) (auto simp: Let_def)
    have i: "i < dp_num_radar_types d" using Cons.prems(2) by simp
    have g1: "dpd_good (d, rp) (d1, rp1)" "k < length (dp_detectors d1 ! i)" and n: "dp_num_radar_types d1 = dp_num_radar_types d"
      using pri_detector_get_good [OF Cons.prems(1) i p [unfolded k]] by simp_all
    obtain res pde rp2 where a: "pde_add_pulse (dp_last_pulse_ts d1) (dp_detectors d1 ! i ! k, rp1) = (res, pde, rp2)" by (metis prod_cases3)
    have o1: "dpd_ok d1" "i < dp_num_radar_types d1" "i < 8" using g1 i n by (auto simp: dpd_good_def dpd_ok_def dpd_shape_def)
    then have "pde_ok (dp_detectors d1 ! i ! k)" "ts_fits (dp_detectors d1 ! i ! k) (dp_last_pulse_ts d1)" using g1(2) by (auto simp: dpd_ok_def)
    then have "dpd_good (d1, rp1) (set_detector i k pde d1, rp2)"
      using add_pulse_good [of "(dp_detectors d1 ! i ! k, rp1)" "dp_last_pulse_ts d1"]
        add_pulse_refs [of "dp_last_pulse_ts d1" "(dp_detectors d1 ! i ! k, rp1)"] a
      by (intro set_detector_good o1 g1(2)) simp_all
    then have g2: "dpd_good (d, rp) (set_detector i k pde d1, rp2)" using dpd_good_trans g1(1) by blast
    then have o2: "dpd_ok (set_detector i k pde d1)" by (simp add: dpd_good_def)
    show ?thesis
    proof (cases res)
      case None
      then show ?thesis
        using Cons.IH [OF o2, of rp2] Cons.prems(2, 3) False p k a n dpd_good_trans [OF g2] by (auto simp: Let_def set_detector_def)
    next
      case (Some ps)
      then show ?thesis using Cons.prems(3) False p k a dpd_good_trans [OF g2 dpd_reset_good [OF o2]] by (auto simp: Let_def)
    qed
  qed
qed (auto simp: dpd_good_def)

section \<open>Regulatory domains, start and end\<close>

lemma domain_types:
  "get_dfs_domain_radar_types region = Some (riu, fcu) \<Longrightarrow> list_all spec_ok riu \<and> list_all spec_ok fcu \<and> length fcu = length riu \<and> length riu \<le> 8"
  using domain_specs_ok
  by (auto simp: get_dfs_domain_radar_types_def dfs_domains_def etsi_radar_ref_types_v17_riu_def etsi_radar_ref_types_v17_fcu_def
      fcc_radar_ref_types_riu_def fcc_radar_ref_types_fcu_def jp_radar_ref_types_riu_def jp_radar_ref_types_fcu_def split: if_splits)

lemma pri_detector_exit_units:
  "pool_units (pri_detector_exit pde rp) = pool_units rp + det_units pde" "rp_refs (pri_detector_exit pde rp) = rp_refs rp - 1"
proof -
  let ?r = "snd (pri_detector_reset 0 (pde, rp))"
  have "pool_units (pool_deregister_ref ?r) = pool_units ?r" "rp_refs (pool_deregister_ref ?r) = rp_refs ?r - 1"
    by (simp_all add: pool_deregister_ref_def pool_units_def Let_def)
  moreover have "pool_units ?r = pool_units rp + length (pd_pulses pde) + length (pd_sequences pde)"
    using reset_units [of 0 "(pde, rp)"] by (simp add: pde_units_def pri_detector_reset_def)
  ultimately show "pool_units (pri_detector_exit pde rp) = pool_units rp + det_units pde" "rp_refs (pri_detector_exit pde rp) = rp_refs rp - 1"
    by (simp_all add: pri_detector_exit_def Let_def pool_units_def det_units_def)
qed

lemma fold_exit_units:
  "pool_units (fold pri_detector_exit pdes rp) = pool_units rp + sum_list (map det_units pdes)
    \<and> rp_refs (fold pri_detector_exit pdes rp) = rp_refs rp - of_nat (length pdes)"
  by (induction pdes arbitrary: rp) (simp_all add: pri_detector_exit_units)

lemma exit_detectors_good:
  assumes "dpd_shape d"
  shows "dp_detectors (fst (exit_detectors (d, rp))) = replicate 8 []" "pool_units (snd (exit_detectors (d, rp))) = dpd_units (d, rp)"
    "rp_refs (snd (exit_detectors (d, rp))) = dpd_refs (d, rp)"
proof -
  let ?n = "dp_num_radar_types d" and ?D = "dp_detectors d"
  have l: "length ?D = 8" "?n \<le> 8" "\<And>i. ?n \<le> i \<Longrightarrow> i < 8 \<Longrightarrow> ?D ! i = []" using assms by (auto simp: dpd_shape_def)
  have e: "drop ?n ?D = replicate (8 - ?n) []" using l by (intro nth_equalityI) simp_all
  then show "dp_detectors (fst (exit_detectors (d, rp))) = replicate 8 []" using l(2) by (simp add: exit_detectors_def replicate_add [symmetric])
  have "concat ?D = concat (take ?n ?D) @ concat (drop ?n ?D)" by (simp flip: concat_append)
  then have "concat ?D = concat (take ?n ?D)" by (simp add: e concat_replicate_trivial)
  then show "pool_units (snd (exit_detectors (d, rp))) = dpd_units (d, rp)" "rp_refs (snd (exit_detectors (d, rp))) = dpd_refs (d, rp)"
    using fold_exit_units [of "concat (take ?n ?D)" rp] by (simp_all add: exit_detectors_def dpd_units_def dpd_refs_def)
qed

lemma set_domain_good:
  assumes "dpd_ok d" and r: "dfs_pattern_detector_set_domain region chain (d, rp) = (ok, s')"
  shows "dpd_good (d, rp) s'"
proof (cases "dp_region d = region")
  case True
  then show ?thesis using assms by (simp add: dfs_pattern_detector_set_domain_def dpd_good_def) (metis fst_conv)
next
  case False
  show ?thesis
  proof (cases "get_dfs_domain_radar_types region")
    case None
    then have "s' = (d\<lparr>dp_region := NL80211_DFS_UNSET\<rparr>, rp)" using r False by (simp add: dfs_pattern_detector_set_domain_def)
    then show ?thesis using assms(1) by (simp add: dpd_good_def dpd_ok_def dpd_shape_def dpd_units_def dpd_refs_def)
  next
    case (Some tables)
    obtain riu fcu where t: "tables = (riu, fcu)" by (cases tables)
    obtain d1 rp1 where x: "exit_detectors (d, rp) = (d1, rp1)" by (cases "exit_detectors (d, rp)")
    have sh: "dpd_shape d" using assms(1) by (simp add: dpd_ok_def)
    have s': "s' = (d1\<lparr>dp_spec := (if chain = RWNX_RADAR_RIU then riu else fcu), dp_num_radar_types := length riu, dp_region := region\<rparr>, rp1)"
      using r False Some t x by (simp add: dfs_pattern_detector_set_domain_def)
    have "list_all spec_ok riu" "list_all spec_ok fcu" "length fcu = length riu" "length riu \<le> 8" using domain_types [of region riu fcu] Some t by simp_all
    moreover have "dp_detectors d1 = replicate 8 []" using exit_detectors_good(1) [OF sh, of rp] x by simp
    ultimately have "dpd_ok (fst s')" by (auto simp: s' dpd_ok_def dpd_shape_def)
    then show ?thesis
      using exit_detectors_good(2, 3) [OF sh, of rp] x \<open>dp_detectors d1 = replicate 8 []\<close>
      by (simp add: dpd_good_def s' dpd_units_def [of "(d1\<lparr>dp_spec := _, dp_num_radar_types := _, dp_region := _\<rparr>, rp1)"]
          dpd_refs_def [of "(d1\<lparr>dp_spec := _, dp_num_radar_types := _, dp_region := _\<rparr>, rp1)"] concat_replicate_trivial)
  qed
qed

lemma dpd_init_good:
  assumes "dfs_pattern_detector_init j region chain rp = (Some d, rp')"
  shows "dpd_ok d \<and> Suc (dpd_units (d, rp')) = pool_units rp \<and> dpd_refs (d, rp') = rp_refs rp"
proof -
  define d0 where "d0 = \<lparr>dp_enabled = 0, dp_region = NL80211_DFS_UNSET, dp_num_radar_types = 0, dp_last_pulse_ts = 0, dp_prev_jiffies = j,
    dp_spec = [], dp_detectors = replicate get_dfs_max_radar_types []\<rparr>"
  have o: "dpd_ok d0" by (simp add: d0_def dpd_ok_def dpd_shape_def)
  obtain b rp1 where m: "kmalloc rp = (b, rp1)" by (cases "kmalloc rp")
  obtain ok d1 rp2 where s: "dfs_pattern_detector_set_domain region chain (d0, rp1) = (ok, d1, rp2)" by (metis prod_cases3)
  have b: "b" "ok" "d1 = d" "rp2 = rp'" 
    using assms unfolding dfs_pattern_detector_init_def m prod.case d0_def [symmetric] s by (auto split: bool.splits)
  have "dpd_good (d0, rp1) (d, rp')" using set_domain_good [OF o s] b by simp
  moreover have "Suc (dpd_units (d0, rp1)) = pool_units rp" "dpd_refs (d0, rp1) = rp_refs rp"
    using m b(1) by (auto simp: kmalloc_def dpd_units_def dpd_refs_def d0_def pool_units_def concat_replicate_trivial split: if_splits)
  ultimately show ?thesis by (simp add: dpd_good_def)
qed

text \<open>
  The life of a pattern detector: pulses that the detector accepts, with time stamps that have not wrapped at 64
  bits, resets, and changes of the regulatory domain.
\<close>

inductive dpd_step :: "dfs_pattern_detector \<times> radar_pools \<Rightarrow> dfs_pattern_detector \<times> radar_pools \<Rightarrow> bool" where
  pulse: "dfs_pattern_detector_add_pulse usecs j freq pri len now s = Inr (found, s')
      \<Longrightarrow> dp_last_pulse_ts (fst s) \<le> dp_last_pulse_ts (fst (pulse_time usecs pri now s)) \<Longrightarrow> dpd_step s s'"
| reset: "dpd_step s (dfs_pattern_detector_reset j s)"
| domain: "dfs_pattern_detector_set_domain region chain s = (ok, s') \<Longrightarrow> dpd_step s s'"

lemma dpd_step_good: "dpd_step s s' \<Longrightarrow> dpd_ok (fst s) \<Longrightarrow> dpd_good s s'"
proof (induction rule: dpd_step.induct)
  case (pulse usecs j freq pri len now s found s')
  obtain d rp where s: "s = (d, rp)" by (cases s)
  show ?case
  proof (cases "dp_region d = NL80211_DFS_UNSET")
    case True
    then show ?thesis using pulse by (auto simp: s dfs_pattern_detector_add_pulse_def dpd_good_def)
  next
    case False
    obtain d1 rp1 where t: "pulse_time usecs pri now (d, rp) = (d1, rp1)" by (cases "pulse_time usecs pri now (d, rp)")
    have g: "dpd_good (d, rp) (d1, rp1)" using pulse_time_good [of d usecs pri now rp] pulse.hyps(2) pulse.prems by (simp add: s t)
    have n: "dp_num_radar_types d1 = dp_num_radar_types d" using pulse_time_num [of usecs pri now d rp] t by simp
    have "dpd_good (d1, rp1) s'"
      using try_types_good [of d1 "[0 ..< dp_num_radar_types d]" j freq len rp1 found s'] g pulse.hyps(1) False n
      by (simp add: s t dfs_pattern_detector_add_pulse_def dpd_good_def)
    then show ?thesis using dpd_good_trans g s by blast
  qed
next
  case (reset s j)
  then show ?case using dpd_reset_good by (cases s) simp
next
  case (domain region chain s ok s')
  then show ?case using set_domain_good by (cases s) simp
qed

interpretation dfs_chain: transition_system "\<lambda>s. dpd_ok (fst s) \<and> dpd_units s = u \<and> dpd_refs s = r" dpd_step
    "\<lambda>s. dpd_ok (fst s) \<and> dpd_units s = u \<and> dpd_refs s = r" for u r
  by unfold_locales (auto simp: dpd_good_def dest: dpd_step_good)

lemma dpd_steps_good: "dpd_step\<^sup>*\<^sup>* s s' \<Longrightarrow> dpd_ok (fst s) \<Longrightarrow> dpd_good s s'"
  using dfs_chain.run_inv [of s s' "dpd_units s" "dpd_refs s"] by (simp add: dpd_good_def)

text \<open>C31: The pattern detector of a chain is sound. From its start, under every sequence of pulses (whose time
  stamps do not wrap around at 64 bits), resets and changes of the regulatory domain, all its detectors stay well formed (the counter is the length of the pulse
  queue and below its maximum, the time stamps are ordered and within the window), every element it allocated is
  in a detector or in a pool, the reference counter of the pools counts its detectors, and stopping it gives
  everything back.\<close>

theorem dfs_chain_sound:
  assumes "dfs_pattern_detector_init j region chain rp = (Some d0, rp0)" and "dpd_step\<^sup>*\<^sup>* (d0, rp0) (d, rp')"
  shows "dpd_ok d \<and> Suc (dpd_units (d, rp')) = pool_units rp \<and> rp_refs rp' = rp_refs rp + of_nat (length (concat (dp_detectors d)))
    \<and> pool_units (dfs_pattern_detector_exit (d, rp')) = pool_units rp \<and> rp_refs (dfs_pattern_detector_exit (d, rp')) = rp_refs rp"
proof (intro conjI)
  note i = dpd_init_good [OF assms(1)]
  then have g: "dpd_good (d0, rp0) (d, rp')" using dpd_steps_good [OF assms(2)] by simp
  then show o: "dpd_ok d" and u: "Suc (dpd_units (d, rp')) = pool_units rp" using i by (simp_all add: dpd_good_def)
  have r: "dpd_refs (d, rp') = rp_refs rp" using g i by (simp add: dpd_good_def)
  then show "rp_refs rp' = rp_refs rp + of_nat (length (concat (dp_detectors d)))" by (simp add: dpd_refs_def algebra_simps)
  have sh: "dpd_shape d" using o by (simp add: dpd_ok_def)
  show "pool_units (dfs_pattern_detector_exit (d, rp')) = pool_units rp" "rp_refs (dfs_pattern_detector_exit (d, rp')) = rp_refs rp"
    using exit_detectors_good(2, 3) [OF sh, of rp'] u r by (simp_all add: dfs_pattern_detector_exit_def Let_def pool_units_def)
qed

text \<open>A chain that starts without a domain, gets the American patterns and receives a pulse of length 24.\<close>

definition ex_pools :: radar_pools where
  "ex_pools = \<lparr>rp_refs = 0, rp_pulses = 0, rp_pseqs = [], rp_mem = 40,
     rp_fresh = \<lparr>ps_pri = 0, ps_dur = 0, ps_count = 0, ps_count_falses = 0, ps_first_ts = 0, ps_last_ts = 0, ps_deadline_ts = 0, ps_ppb_thresh = 0\<rparr>\<rparr>"

definition ex_d0 :: dfs_pattern_detector where
  "ex_d0 = \<lparr>dp_enabled = 0, dp_region = NL80211_DFS_UNSET, dp_num_radar_types = 0, dp_last_pulse_ts = 0, dp_prev_jiffies = 0,
     dp_spec = [], dp_detectors = replicate 8 []\<rparr>"

definition ex_d1 :: dfs_pattern_detector where
  "ex_d1 = ex_d0\<lparr>dp_spec := fcc_radar_ref_types_riu, dp_num_radar_types := 7, dp_region := NL80211_DFS_FCC\<rparr>"

definition ex_pde :: pri_detector where
  "ex_pde = pde_new (FCC_PATTERN 4 10 28 200 500 1 12 RADAR_WAVEFORM_SHORT) 5500"

definition ex_s2 :: "dfs_pattern_detector \<times> radar_pools" where
  "ex_s2 = (ex_d1\<lparr>dp_last_pulse_ts := 300,
     dp_detectors := (replicate 8 [])[4 := [ex_pde\<lparr>pd_pulses := [300], pd_count := 1, pd_last_ts := 300\<rparr>]]\<rparr>,
     ex_pools\<lparr>rp_refs := 1, rp_mem := 37\<rparr>)"

lemma ex_chain_init: "dfs_pattern_detector_init 0 NL80211_DFS_UNSET RWNX_RADAR_RIU ex_pools = (Some ex_d0, ex_pools\<lparr>rp_mem := 39\<rparr>)"
  by (simp add: ex_d0_def ex_pools_def dfs_pattern_detector_init_def kmalloc_def dfs_pattern_detector_set_domain_def)

lemma ex_chain_domain:
  "dfs_pattern_detector_set_domain NL80211_DFS_FCC RWNX_RADAR_RIU (ex_d0, ex_pools\<lparr>rp_mem := 39\<rparr>) = (True, ex_d1, ex_pools\<lparr>rp_mem := 39\<rparr>)"
  by (simp add: ex_d0_def ex_d1_def ex_pools_def dfs_pattern_detector_set_domain_def get_dfs_domain_radar_types_def dfs_domains_def
      exit_detectors_def fcc_radar_ref_types_riu_def)

lemma ex_chain_pulse:
  "dfs_pattern_detector_add_pulse (\<lambda>x. x) 0 5500 300 24 0 (ex_d1, ex_pools\<lparr>rp_mem := 39\<rparr>) = Inr (False, ex_s2)"
  "dp_last_pulse_ts ex_d1 \<le> dp_last_pulse_ts (fst (pulse_time (\<lambda>x. x) 300 0 (ex_d1, ex_pools\<lparr>rp_mem := 39\<rparr>)))"
proof -
  let ?T = fcc_radar_ref_types_riu
  have f: "dp_region ex_d1 = NL80211_DFS_FCC" "dp_num_radar_types ex_d1 = 7" "dp_spec ex_d1 = ?T" by (simp_all add: ex_d1_def)
  have upt: "[0 ..< 7] = [0, 1, 2, 3, 4, 5, 6 :: nat]" by (simp add: upt_rec)
  have w: "width_max (?T ! 0) = 8" "width_max (?T ! 1) = 8" "width_max (?T ! Suc 0) = 8" "width_max (?T ! 2) = 8" "width_max (?T ! 3) = 20" "width_min (?T ! 4) = 10"
      "width_max (?T ! 4) = 28" "width_min (?T ! 5) = 50" "width_max (?T ! 6) = 8"
    by (simp_all add: fcc_radar_ref_types_riu_def FCC_PATTERN_def)
  have t: "pulse_time (\<lambda>x. x) 300 0 (ex_d1, ex_pools\<lparr>rp_mem := 39\<rparr>) = (ex_d1\<lparr>dp_last_pulse_ts := 300\<rparr>, ex_pools\<lparr>rp_mem := 39\<rparr>)"
    by (simp add: pulse_time_def ex_d1_def ex_d0_def)
  have g: "pri_detector_get 5500 4 (ex_d1\<lparr>dp_last_pulse_ts := 300\<rparr>, ex_pools\<lparr>rp_mem := 39\<rparr>) = (Some 0,
      ex_d1\<lparr>dp_last_pulse_ts := 300, dp_detectors := (replicate 8 [])[4 := [ex_pde]]\<rparr>, ex_pools\<lparr>rp_refs := 1, rp_mem := 38\<rparr>)"
    by (simp add: pri_detector_get_def pri_detector_init_def kmalloc_def pool_register_ref_def ex_d1_def ex_d0_def ex_pools_def fcc_radar_ref_types_riu_def ex_pde_def)
  have p: "pde_add_pulse 300 (ex_pde, ex_pools\<lparr>rp_refs := 1, rp_mem := 38\<rparr>) =
      (None, ex_pde\<lparr>pd_pulses := [300], pd_count := 1, pd_last_ts := 300\<rparr>, ex_pools\<lparr>rp_refs := 1, rp_mem := 37\<rparr>)"
    by (simp add: pde_add_pulse_def pde_new_def pde_is_long_def pde_short_init_def pde_short_add_pulse_def pulse_queue_enqueue_def pool_get_pulse_elem_def
        pulse_queue_check_window_def FCC_PATTERN_def ex_pde_def ex_pools_def kmalloc_def Let_def word_le_nat_alt)
  show "dfs_pattern_detector_add_pulse (\<lambda>x. x) 0 5500 300 24 0 (ex_d1, ex_pools\<lparr>rp_mem := 39\<rparr>) = Inr (False, ex_s2)"
    by (simp add: dfs_pattern_detector_add_pulse_def t upt f g) (simp add: upt w f g p set_detector_def ex_s2_def Let_def)
  show "dp_last_pulse_ts ex_d1 \<le> dp_last_pulse_ts (fst (pulse_time (\<lambda>x. x) 300 0 (ex_d1, ex_pools\<lparr>rp_mem := 39\<rparr>)))"
    by (simp add: t ex_d1_def ex_d0_def)
qed

lemma ex_chain_run: "dpd_step\<^sup>*\<^sup>* (ex_d0, ex_pools\<lparr>rp_mem := 39\<rparr>) (fst ex_s2, snd ex_s2)"
  using dpd_step.domain [OF ex_chain_domain] dpd_step.pulse [OF ex_chain_pulse(1)] ex_chain_pulse(2) by (auto intro: converse_rtranclp_into_rtranclp)

theorem dfs_chain_sound_witness:
  "dpd_ok (fst ex_s2) \<and> Suc (dpd_units ex_s2) = 40 \<and> rp_refs (snd ex_s2) = 1
    \<and> pool_units (dfs_pattern_detector_exit ex_s2) = 40 \<and> rp_refs (dfs_pattern_detector_exit ex_s2) = 0"
  using dfs_chain_sound [OF ex_chain_init ex_chain_run] by (simp add: ex_pools_def pool_units_def ex_s2_def)

section \<open>The ring of reported pulses\<close>

definition ring_ok :: "rwnx_radar_pulses \<Rightarrow> bool" where
  "ring_ok p \<longleftrightarrow> length (pl_buffer p) = 32 \<and> pl_index p < 32 \<and> pl_count p \<le> 32"

definition last_n :: "nat \<Rightarrow> 'a list \<Rightarrow> 'a list" where
  "last_n n xs = drop (length xs - n) xs"

text \<open>Slot \<open>k\<close> of the pulses that are read, counted from the oldest.\<close>

lemma ring_read_nth:
  assumes "ring_ok p"
  shows "length (ring_read p) = pl_count p \<and> (\<forall>k < pl_count p. ring_read p ! k = pl_buffer p ! ((pl_index p + 32 - pl_count p + k) mod 32))"
proof -
  let ?n = "pl_count p" and ?i = "pl_index p" and ?b = "pl_buffer p"
  have l: "length ?b = 32" "?i < 32" "?n \<le> 32" using assms by (simp_all add: ring_ok_def)
  consider (direct) "?n \<le> ?i" | (wrap) "?i < ?n" by linarith
  then show ?thesis
  proof cases
    case direct
    then have r: "ring_read p = take ?n (drop (?i - ?n) ?b)" using l by (simp add: ring_read_def Let_def nat_diff_distrib)
    have "(?i + 32 - ?n + k) mod 32 = ?i - ?n + k" if "k < ?n" for k
    proof -
      have "?i + 32 - ?n + k = (?i - ?n + k) + 32" "?i - ?n + k < 32" using direct that l by linarith+
      then show ?thesis by (simp only: mod_add_self2 mod_less)
    qed
    then show ?thesis using l direct by (simp add: r)
  next
    case wrap
    let ?s = "?i + 32 - ?n"
    have e: "nat (32 - (int ?i - int ?n + 32)) = ?n - ?i" "nat (int ?i - int ?n + 32) = ?s" "nat (int ?n - (32 - (int ?i - int ?n + 32))) = ?i"
      using wrap l by linarith+
    have r: "ring_read p = take (?n - ?i) (drop ?s ?b) @ take ?i ?b"
    proof (cases "?i = 0")
      case True
      then show ?thesis using wrap l by (simp add: ring_read_def Let_def e nat_diff_distrib)
    next
      case False
      then show ?thesis using wrap l unfolding ring_read_def Let_def by (simp add: e)
    qed
    have m: "(?s + k) mod 32 = (if k < ?n - ?i then ?s + k else k - (?n - ?i))" if "k < ?n" for k
    proof (cases "k < ?n - ?i")
      case True
      then have "?s + k < 32" using l by linarith
      then show ?thesis using True by simp
    next
      case False
      then have "?s + k = (k - (?n - ?i)) + 32" "k - (?n - ?i) < 32" using wrap l that by linarith+
      then show ?thesis using False by (simp only: mod_add_self2 mod_less if_False)
    qed
    then show ?thesis using l wrap by (simp add: r nth_append)
  qed
qed

text \<open>The ring after the pulses \<open>hist\<close> since it was emptied.\<close>

definition ring_holds :: "rwnx_radar_pulses \<Rightarrow> u32 list \<Rightarrow> bool" where
  "ring_holds p hist \<longleftrightarrow> ring_ok p \<and> pl_count p = min 32 (length hist) \<and> ring_read p = last_n 32 hist"

lemma ring_put_holds:
  assumes "ring_holds p hist"
  shows "ring_holds (ring_put v p) (hist @ [v])"
proof -
  let ?q = "ring_put v p" and ?n = "pl_count p" and ?i = "pl_index p"
  have p: "ring_ok p" "?n = min 32 (length hist)" "ring_read p = last_n 32 hist" using assms by (simp_all add: ring_holds_def)
  then have l: "length (pl_buffer p) = 32" "?i < 32" "?n \<le> 32" by (simp_all add: ring_ok_def)
  have q: "ring_ok ?q" "pl_count ?q = min 32 (Suc ?n)" "pl_buffer ?q = (pl_buffer p)[?i := v]" "pl_index ?q = Suc ?i mod 32"
    using l by (auto simp: ring_put_def ring_ok_def)
  let ?m = "min 32 (Suc ?n)"
  have c: "pl_count ?q = min 32 (length (hist @ [v]))" using p(2) q(2) by simp
  note R = ring_read_nth [OF p(1)] and Q = ring_read_nth [OF q(1)]
  have "ring_read ?q ! k = last_n 32 (hist @ [v]) ! k" if k: "k < ?m" for k
  proof -
    have idx: "(Suc ?i mod 32 + 32 - ?m + k) mod 32 = (?i + 33 - ?m + k) mod 32"
    proof -
      have "(Suc ?i mod 32 + (32 - ?m + k)) mod 32 = (Suc ?i + (32 - ?m + k)) mod 32" by (rule mod_add_left_eq)
      moreover have "Suc ?i mod 32 + 32 - ?m + k = Suc ?i mod 32 + (32 - ?m + k)" "?i + 33 - ?m + k = Suc ?i + (32 - ?m + k)" by simp_all
      ultimately show ?thesis by metis
    qed
    have at: "ring_read ?q ! k = (pl_buffer p)[?i := v] ! ((?i + 33 - ?m + k) mod 32)" using Q k by (simp only: q idx)
    show ?thesis
    proof (cases "k = ?m - 1")
      case True
      then have "?i + 33 - ?m + k = ?i + 32" using k by linarith
      then have "(?i + 33 - ?m + k) mod 32 = ?i" using l(2) by (simp only: mod_add_self2 mod_less)
      moreover have "last_n 32 (hist @ [v]) ! k = v" using True p(2) by (auto simp: last_n_def nth_append min_def)
      ultimately show ?thesis using at l by simp
    next
      case False
      let ?k = "k + Suc ?n - ?m"
      have lt: "?k < ?n" using False k l(3) by (auto simp: min_def)
      have "?i + 33 - ?m + k = ?i + 32 - ?n + ?k" using k l(3) by (auto simp: min_def)
      then have e: "(?i + 33 - ?m + k) mod 32 = (?i + 32 - ?n + ?k) mod 32" by (rule arg_cong)
      have ne: "(?i + 32 - ?n + ?k) mod 32 \<noteq> ?i"
      proof (cases "?i + 32 - ?n + ?k < 32")
        case True
        then show ?thesis using lt l by simp
      next
        case False
        then have "?i + 32 - ?n + ?k = (?i - (?n - ?k)) + 32" "?i - (?n - ?k) < 32" using lt l by linarith+
        then have "(?i + 32 - ?n + ?k) mod 32 = ?i - (?n - ?k)" by (simp only: mod_add_self2 mod_less)
        then show ?thesis using False lt l by linarith
      qed
      have "ring_read ?q ! k = pl_buffer p ! ((?i + 32 - ?n + ?k) mod 32)" unfolding at e using ne by (metis nth_list_update_neq)
      also have "\<dots> = ring_read p ! ?k" using R lt by (simp only:)
      also have "\<dots> = last_n 32 (hist @ [v]) ! k"
      proof (cases "length hist < 32")
        case True
        then have "?k = k" "k < length hist" using p(2) lt by simp_all
        then show ?thesis using p(3) True by (simp add: last_n_def nth_append)
      next
        case False
        then have "?n = 32" "?k = Suc k" "Suc (length hist + k - 32) = length hist + k - 31" using p(2) by simp_all
        then show ?thesis using p(3) False lt by (auto simp: last_n_def nth_append)
      qed
      finally show ?thesis .
    qed
  qed
  moreover have "length (ring_read ?q) = ?m" "length (last_n 32 (hist @ [v])) = ?m" using Q q(2) p(2) by (auto simp: last_n_def)
  ultimately have "ring_read ?q = last_n 32 (hist @ [v])" by (intro nth_equalityI) simp_all
  then show ?thesis using q(1) c by (simp add: ring_holds_def)
qed

lemma ring_puts_hold: "ring_holds p hist \<Longrightarrow> ring_holds (fold ring_put vs p) (hist @ vs)"
  by (induction vs arbitrary: p hist) (use ring_put_holds in force)+

text \<open>Pulses survive the hand-over from the firmware indication to the detection work. However many pulses are
  reported between two runs of the work, it reads the newest 32 of them, in the order in which they were
  reported; the ring starts empty and is emptied by every run.\<close>

lemma radar_ring_roundtrip:
  assumes "ring_ok p" and "pl_count p = 0"
  shows "ring_read (fold ring_put vs p) = last_n 32 vs \<and> ring_ok ((fold ring_put vs p)\<lparr>pl_count := 0\<rparr>)"
proof -
  have "ring_read p = []" using ring_read_nth [OF assms(1)] assms(2) by simp
  then have "ring_holds p []" using assms by (simp add: ring_holds_def last_n_def)
  then have "ring_holds (fold ring_put vs p) vs" using ring_puts_hold [of p "[]" vs] by simp
  then show ?thesis by (simp add: ring_holds_def ring_ok_def)
qed

lemma radar_ring_roundtrip_example:
  "ring_read (fold ring_put (map of_nat [0 ..< 40]) \<lparr>pl_index = 30, pl_count = 0, pl_buffer = replicate 32 7\<rparr>) = map of_nat [8 ..< 40]"
  using radar_ring_roundtrip [of "\<lparr>pl_index = 30, pl_count = 0, pl_buffer = replicate 32 7\<rparr>" "map of_nat [0 ..< 40]"]
  by (simp add: ring_ok_def last_n_def drop_map)

section \<open>The driver without the radar status\<close>

text \<open>
  Every operation on the radar state of a driver built without CONFIG_RADAR_OR_IR_DETECT, which is the default of
  the makefile: the assignments to the status in rwnx_msg_tx.c are not compiled.
\<close>

inductive radar_step :: "rwnx_radar \<Rightarrow> rwnx_radar \<Rightarrow> bool" where
  detect_ind: "rwnx_radar_detect_ind pulse i cnt r = Inr (res, r') \<Longrightarrow> radar_step r r'"
| process: "rwnx_radar_process_pulse e r = Inr r' \<Longrightarrow> radar_step r r'"
| start_cac: "radar_step r (rwnx_radar_start_cac ms v r)"
| cac_work: "radar_step r (rwnx_radar_cac_work r)"
| cancel_cac: "radar_step r (rwnx_radar_cancel_cac e r)"
| enable: "rwnx_radar_detection_enable_on_cur_channel e r = Inr r' \<Longrightarrow> radar_step r r'"
| domain: "rwnx_radar_set_domain region r = Inr (ok, r') \<Longrightarrow> radar_step r r'"

definition radar_quiet :: "rwnx_radar \<Rightarrow> bool" where
  "radar_quiet r \<longleftrightarrow> rd_status r = RWNX_RADAR_IDLE \<and> RadarEvent \<notin> set (rd_log r)"

lemma process_chain_idle: "rd_status r = RWNX_RADAR_IDLE \<Longrightarrow> process_chain e now c ws r = Inr r"
  by (cases ws) simp_all

lemma process_pulse_idle:
  "rd_status r = RWNX_RADAR_IDLE \<Longrightarrow>
     rwnx_radar_process_pulse e r = Inr (clear_pulses RWNX_RADAR_FCU (clear_pulses RWNX_RADAR_RIU (r\<lparr>rd_work_pending := False\<rparr>)))"
  by (simp add: rwnx_radar_process_pulse_def Let_def process_chain_idle clear_pulses_def)

lemma set_domain_chain_quiet: "radar_quiet r \<Longrightarrow> set_domain_chain region c r = Inr (ok, r') \<Longrightarrow> radar_quiet r'"
  by (auto simp: set_domain_chain_def radar_quiet_def split: option.splits prod.splits)

lemma radar_step_quiet: "radar_step r r' \<Longrightarrow> radar_quiet r \<Longrightarrow> radar_quiet r'"
proof (induction rule: radar_step.induct)
  case (detect_ind pulse i cnt r res r')
  then show ?case
    by (auto simp: rwnx_radar_detect_ind_def radar_quiet_def radar_emit_def Let_def split: if_splits sum.splits bool.splits option.splits)
next
  case (process e r r')
  then show ?case using process_pulse_idle [of r e] by (auto simp: radar_quiet_def clear_pulses_def)
next
  case (enable e r r')
  then show ?case
    by (auto simp: rwnx_radar_detection_enable_on_cur_channel_def rwnx_radar_detection_enable_def radar_quiet_def split: if_splits option.splits)
next
  case (domain region r ok r')
  then show ?case
    by (auto simp: rwnx_radar_set_domain_def split: if_splits sum.splits bool.splits prod.splits intro: set_domain_chain_quiet)
qed (auto simp: radar_quiet_def rwnx_radar_start_cac_def rwnx_radar_cac_work_def rwnx_radar_cancel_cac_def radar_emit_def split: option.splits)

interpretation radar_idle: transition_system radar_quiet radar_step radar_quiet
  by unfold_locales (use radar_step_quiet in blast)+

text \<open>In the default build no radar is ever reported. After initialisation the status stays idle under every
  sequence of indications, works, availability checks and domain changes, so the detection work throws away the
  pulses it reads and no radar event reaches the upper layer.\<close>

lemma radar_default_build_silent:
  assumes "rwnx_radar_detection_init j r0 = (True, r1)" and "rd_log r0 = []" and "radar_step\<^sup>*\<^sup>* r1 r"
  shows "RadarEvent \<notin> set (rd_log r) \<and> rd_status r = RWNX_RADAR_IDLE
    \<and> rwnx_radar_process_pulse e r = Inr (clear_pulses RWNX_RADAR_FCU (clear_pulses RWNX_RADAR_RIU (r\<lparr>rd_work_pending := False\<rparr>)))"
proof -
  have "radar_quiet r1"
    using assms(1, 2) by (auto simp: rwnx_radar_detection_init_def radar_quiet_def Let_def split: prod.splits if_splits)
  with assms(3) have "radar_quiet r" by (rule radar_idle.run_inv)
  then show ?thesis using process_pulse_idle by (simp add: radar_quiet_def)
qed

definition ex_radar :: rwnx_radar where
  "ex_radar = \<lparr>rd_pulses = (\<lambda>_. \<lparr>pl_index = 0, pl_count = 0, pl_buffer = replicate 32 0\<rparr>), rd_dpd = (\<lambda>_. None),
     rd_detected = (\<lambda>_. \<lparr>det_index = 0, det_count = 0, det_time = replicate 4 0, det_freq = replicate 4 0\<rparr>),
     rd_status = RWNX_RADAR_IDLE, rd_cac_vif = None, rd_cac_pending = False, rd_work_pending = False, rd_pools = ex_pools, rd_log = []\<rparr>"

lemma ex_radar_init: "fst (rwnx_radar_detection_init 0 ex_radar)"
  by (simp add: ex_radar_def ex_pools_def rwnx_radar_detection_init_def dfs_pattern_detector_init_def kmalloc_def dfs_pattern_detector_set_domain_def Let_def)

lemma radar_default_build_silent_example:
  "RadarEvent \<notin> set (rd_log (rwnx_radar_cac_work (rwnx_radar_start_cac 60000 2 (snd (rwnx_radar_detection_init 0 ex_radar)))))"
proof -
  let ?r1 = "snd (rwnx_radar_detection_init 0 ex_radar)"
  have "rwnx_radar_detection_init 0 ex_radar = (True, ?r1)" using ex_radar_init by (simp add: prod_eq_iff)
  moreover have "rd_log ex_radar = []" by (simp add: ex_radar_def)
  moreover have "radar_step\<^sup>*\<^sup>* ?r1 (rwnx_radar_cac_work (rwnx_radar_start_cac 60000 2 ?r1))"
    by (meson radar_step.start_cac radar_step.cac_work r_into_rtranclp rtranclp.rtrancl_into_rtrancl)
  ultimately show ?thesis using radar_default_build_silent by blast
qed

end
