(* ===== verification/RadarBurst.thy ===== *)
theory RadarBurst
  imports RadarSpec
begin

text \<open>
  A regular pulse train is found: for every pattern of a short, interleaved or weather radar and every interval the
  pattern allows, the detector reports the radar with exactly the pulse that reaches the threshold of the pattern.
\<close>

section \<open>A regular burst\<close>

text \<open>Pulse \<open>k\<close> of a burst that starts at \<open>t0\<close> with interval \<open>p\<close>.\<close>

definition burst_ts :: "nat \<Rightarrow> nat \<Rightarrow> nat \<Rightarrow> u64" where
  "burst_ts t0 p k = of_nat (t0 + k * p)"

text \<open>The number of pulses that completes a burst: the threshold of the pattern, for weather radars that of the interval.\<close>

definition burst_len :: "radar_detector_specs \<Rightarrow> nat \<Rightarrow> nat" where
  "burst_len rs p = max 2 (if rs_type rs = RADAR_WAVEFORM_WEATHER then PPB_THRESH (19000000 div (360 * p)) else ppb_thresh rs)"

definition burst_seq :: "radar_detector_specs \<Rightarrow> nat \<Rightarrow> nat \<Rightarrow> nat \<Rightarrow> pri_sequence" where
  "burst_seq rs t0 p n =
     \<lparr>ps_pri = of_nat p, ps_dur = of_nat (p * (ppb rs - 1) + 32), ps_count = of_nat n, ps_count_falses = 0,
      ps_first_ts = burst_ts t0 p 0, ps_last_ts = burst_ts t0 p (n - 1),
      ps_deadline_ts = of_nat (t0 + p * (ppb rs - 1) + 32),
      ps_ppb_thresh = of_nat (if rs_type rs = RADAR_WAVEFORM_WEATHER then PPB_THRESH (19000000 div (360 * p)) else ppb_thresh rs)\<rparr>"

definition burst_fits :: "radar_detector_specs \<Rightarrow> nat \<Rightarrow> nat \<Rightarrow> bool" where
  "burst_fits rs t0 p \<longleftrightarrow> spec_ok rs \<and> rs_type rs \<noteq> RADAR_WAVEFORM_LONG \<and> pri_min rs \<le> p \<and> p \<le> pri_max rs
     \<and> t0 + p * ppb rs + 32 < 18446744073709551616"

lemma unat_of_nat_u64: "n < 18446744073709551616 \<Longrightarrow> unat (of_nat n :: u64) = n"
  by (simp add: unsigned_of_nat take_bit_nat_eq_self)

lemma ucast_of_nat_u32: "n < 4294967296 \<Longrightarrow> ucast (of_nat n :: u64) = (of_nat n :: u32)"
  by (simp add: word_eq_iff_unsigned unsigned_ucast_eq unsigned_of_nat take_bit_nat_eq_self)

lemma burst_p:
  assumes "burst_fits rs t0 p"
  shows "p < 65536" "16 \<le> p" "0 < p" "p * (ppb rs - 1) + 32 < 4294967296" "2 \<le> ppb rs" "ppb rs < 128"
    "k \<le> ppb rs \<Longrightarrow> t0 + k * p < 18446744073709551616" "k \<le> ppb rs \<Longrightarrow> unat (burst_ts t0 p k) = t0 + k * p"
proof -
  show p: "p < 65536" "16 \<le> p" "0 < p" "2 \<le> ppb rs" and b: "ppb rs < 128" using assms by (auto simp: burst_fits_def spec_ok_def)
  have "p * (ppb rs - 1) \<le> 65536 * 128" using p b by (intro mult_le_mono) simp_all
  then show "p * (ppb rs - 1) + 32 < 4294967296" by simp
  assume "k \<le> ppb rs"
  then have "k * p \<le> ppb rs * p" by (rule mult_le_mono1)
  moreover have "t0 + ppb rs * p + 32 < 18446744073709551616" using assms by (simp add: burst_fits_def mult.commute)
  ultimately show "t0 + k * p < 18446744073709551616" by linarith
  then show "unat (burst_ts t0 p k) = t0 + k * p" unfolding burst_ts_def by (rule unat_of_nat_u64)
qed

lemma burst_diff: "ucast (burst_ts t0 p (Suc k) - burst_ts t0 p k) = (of_nat p :: u32)" if "p < 65536"
proof -
  have "burst_ts t0 p (Suc k) - burst_ts t0 p k = of_nat p" by (simp add: burst_ts_def algebra_simps)
  then show ?thesis using that by (simp add: ucast_of_nat_u32)
qed

lemma multiple_self: "0 < p \<Longrightarrow> p < 4294967296 \<Longrightarrow> pde_get_multiple (of_nat p) (of_nat p) t = 1"
  using unat_of_nat_u32 [of p] by (auto simp: pde_get_multiple_def)

section \<open>One pulse of a burst\<close>

lemma count_scan: "unat (ps_count ps) + length L < 4294967296 \<Longrightarrow> unat (ps_count (scan_past rs ts m L tmp ps)) \<le> unat (ps_count ps) + length L"
proof (induction L arbitrary: tmp ps)
  case (Cons q L)
  have u: "unat (ps_count ps + 1) = unat (ps_count ps) + 1" using Cons.prems by (simp add: unat_word_ariths)
  let ?ps = "ps\<lparr>ps_count := ps_count ps + 1, ps_first_ts := q, ps_count_falses := ps_count_falses ps + tmp\<rparr>"
  have "unat (ps_count (scan_past rs ts m L 0 ?ps)) \<le> unat (ps_count ?ps) + length L" using Cons.prems u by (intro Cons.IH) simp
  moreover have "unat (ps_count (scan_past rs ts m L (tmp + 1) ps)) \<le> unat (ps_count ps) + length L" using Cons.prems by (intro Cons.IH) simp
  ultimately show ?case using u by simp
qed simp

text \<open>No new sequence is created when an existing one already explains all the pulses.\<close>

lemma create_loop_skip: "length L + 1 \<le> unat mc \<Longrightarrow> create_loop rs ts mc L k (seqs, rp) = (True, seqs, rp)"
proof (induction L arbitrary: k)
  case (Cons q L)
  have mc: "unat mc < 4294967296" by (rule unat_u32_less)
  define m where "m = (if ucast (ucast (ts - q) * (of_nat (ppb rs) - 1) + 2 * of_nat (max_pri_tolerance rs) :: u32) > ts then 0
      else ts - ucast (ucast (ts - q) * (of_nat (ppb rs) - 1) + 2 * of_nat (max_pri_tolerance rs) :: u32))"
  let ?ps = "\<lparr>ps_pri = ucast (ts - q), ps_dur = ucast (ts - q) * (of_nat (ppb rs) - 1) + 2 * of_nat (max_pri_tolerance rs),
      ps_count = 2, ps_count_falses = of_nat (k + 1 - 1), ps_first_ts = q, ps_last_ts = ts, ps_deadline_ts = 0, ps_ppb_thresh = 0\<rparr>"
  have "new_sequence rs ts q (k + 1) L = scan_past rs ts m L 0 ?ps" by (simp only: new_sequence_def Let_def m_def)
  moreover have "unat (ps_count (scan_past rs ts m L 0 ?ps)) \<le> 2 + length L" using count_scan [of ?ps L rs ts m 0] Cons.prems mc by simp
  ultimately have "ps_count (new_sequence rs ts q (k + 1) L) \<le> mc" using Cons.prems by (simp only: word_le_nat_alt) simp
  then show ?case using Cons.IH Cons.prems by (simp add: Let_def)
qed simp

lemma drop_old_none: "pd_pulses pde \<noteq> [] \<Longrightarrow> m \<le> last (pd_pulses pde) \<Longrightarrow> drop_old m (pde, rp) = (pde, rp)"
  by (simp add: drop_old.simps)

lemma enqueue_room:
  assumes "0 < rp_mem rp" and "unat (pd_count pde + 1) < unat (pd_max_count pde)"
    and "unat ts \<le> unat (last (ts # pd_pulses pde)) + unat (pd_window_size pde)"
  obtains rp' where "pulse_queue_enqueue ts (pde, rp) = (pde\<lparr>pd_pulses := ts # pd_pulses pde, pd_count := pd_count pde + 1, pd_last_ts := ts\<rparr>, rp')"
    "rp_mem rp \<le> rp_mem rp' + 1"
proof -
  define got where "got = (case pool_get_pulse_elem rp of (True, rp1) \<Rightarrow> (True, rp1) | (False, rp1) \<Rightarrow> kmalloc rp1)"
  let ?p1 = "pde\<lparr>pd_pulses := ts # pd_pulses pde, pd_count := pd_count pde + 1, pd_last_ts := ts\<rparr>"
  have "fst got" "rp_mem rp \<le> rp_mem (snd got) + 1" using assms(1) by (auto simp: got_def pool_get_pulse_elem_def kmalloc_def)
  then obtain rp2 where g: "got = (True, rp2)" "rp_mem rp \<le> rp_mem rp2 + 1" by (cases got) auto
  have "pulse_queue_check_window (?p1, rp2) = (?p1, rp2)"
  proof (cases "ts \<le> ucast (pd_window_size pde)")
    case False
    then have "ucast (pd_window_size pde) \<le> ts" by simp
    then have "ts - ucast (pd_window_size pde) \<le> last (pd_pulses ?p1)" using assms(3) by (simp add: word_le_nat_alt unat_sub)
    then show ?thesis using drop_old_none [of ?p1 "ts - ucast (pd_window_size pde)" rp2] by (simp add: pulse_queue_check_window_def)
  qed (simp add: pulse_queue_check_window_def)
  then have "pulse_queue_enqueue ts (pde, rp) = (?p1, rp2)"
    using assms(2) g(1) by (simp add: pulse_queue_enqueue_def word_le_nat_alt flip: got_def)
  then show thesis using that g(2) by blast
qed

lemma add_pulse_run:
  assumes "\<not> pde_is_long pde" "pd_count pde \<noteq> 0" "\<not> ts - pd_last_ts pde < of_nat (max_pri_tolerance (pd_rs pde))"
    and "add_to_seqs (pd_rs pde) ts (pd_sequences pde) 0 rp = (mc, seqs1, rp1)"
    and "create_loop (pd_rs pde) ts mc (pd_pulses pde) 0 (seqs1, rp1) = (True, seqs2, rp2)"
  shows "pde_add_pulse ts (pde, rp) =
     (case find (seq_complete (pd_rs pde)) seqs2 of None \<Rightarrow> (None, pulse_queue_enqueue ts (pde\<lparr>pd_sequences := seqs2\<rparr>, rp2))
      | Some ps \<Rightarrow> (Some ps, pde\<lparr>pd_sequences := seqs2\<rparr>, rp2))"
  using assms
  by (simp add: pde_add_pulse_def pde_short_add_pulse_def pde_short_add_to_existing_seqs_def pde_short_create_sequences_def
      pde_short_check_detection_def)

lemma pde_new_fields:
  assumes "burst_fits rs t0 p"
  shows "pd_rs (pde_new rs f) = rs" "pd_pulses (pde_new rs f) = []" "pd_sequences (pde_new rs f) = []" "pd_count (pde_new rs f) = 0"
    "unat (pd_max_count (pde_new rs f)) = 2 * ppb rs" "p * ppb rs \<le> unat (pd_window_size (pde_new rs f))" "\<not> pde_is_long (pde_new rs f)"
proof -
  have b: "ppb rs < 128" "p \<le> pri_max rs" "pri_max rs < 65536" "0 < num_pri rs" "num_pri rs < 8" "rs_type rs \<noteq> RADAR_WAVEFORM_LONG"
    using assms by (auto simp: burst_fits_def spec_ok_def)
  have new: "pde_new rs f = pde_short_init \<lparr>pd_rs = rs, pd_last_ts = 0, pd_sequences = [], pd_pulses = [], pd_count = 0, pd_max_count = 0, pd_window_size = 0, pd_freq = f\<rparr>"
    using b(6) by (simp add: pde_new_def pde_is_long_def)
  show "pd_rs (pde_new rs f) = rs" "pd_pulses (pde_new rs f) = []" "pd_sequences (pde_new rs f) = []" "pd_count (pde_new rs f) = 0" "\<not> pde_is_long (pde_new rs f)"
    using b(6) by (simp_all add: new pde_short_init_def Let_def pde_is_long_def)
  have "unat (of_nat (ppb rs * 2) :: u32) = ppb rs * 2" using b(1) by (intro unat_of_nat_u32) simp
  then show "unat (pd_max_count (pde_new rs f)) = 2 * ppb rs" by (simp add: new pde_short_init_def Let_def del: of_nat_mult)
  have "pri_max rs * ppb rs * num_pri rs \<le> 65536 * 128 * 8" using b by (intro mult_le_mono) simp_all
  then have "unat (of_nat (pri_max rs * ppb rs * num_pri rs) :: u32) = pri_max rs * ppb rs * num_pri rs" by (intro unat_of_nat_u32) simp
  moreover have "p * ppb rs \<le> pri_max rs * ppb rs * num_pri rs" using b(2, 4) mult_le_mono [of "p * ppb rs" "pri_max rs * ppb rs" 1 "num_pri rs"] by simp
  ultimately show "p * ppb rs \<le> unat (pd_window_size (pde_new rs f))" by (simp add: new pde_short_init_def Let_def del: of_nat_mult)
qed

text \<open>The detector after \<open>n\<close> pulses, with the sequences it has found.\<close>

definition burst_state :: "radar_detector_specs \<Rightarrow> u16 \<Rightarrow> nat \<Rightarrow> nat \<Rightarrow> nat \<Rightarrow> pri_sequence list \<Rightarrow> pri_detector" where
  "burst_state rs f t0 p n seqs =
     (pde_new rs f)\<lparr>pd_pulses := map (burst_ts t0 p) (rev [0 ..< n]), pd_count := of_nat n, pd_last_ts := burst_ts t0 p (n - 1), pd_sequences := seqs\<rparr>"

lemma burst_enqueue:
  assumes fits: "burst_fits rs t0 p" and n: "n < ppb rs" and m: "0 < rp_mem rp"
    and pde: "pde = (pde_new rs f)\<lparr>pd_pulses := map (burst_ts t0 p) (rev [0 ..< n]), pd_count := of_nat n, pd_last_ts := l, pd_sequences := seqs\<rparr>"
  obtains rp' where "pulse_queue_enqueue (burst_ts t0 p n) (pde, rp) = (burst_state rs f t0 p (Suc n) seqs, rp')" "rp_mem rp \<le> rp_mem rp' + 1"
proof -
  note B = burst_p [OF fits] and N = pde_new_fields [OF fits, of f]
  have "of_nat n + 1 = (of_nat (Suc n) :: u32)" by simp
  moreover have "unat (of_nat (Suc n) :: u32) = Suc n" using n B(6) by (intro unat_of_nat_u32) simp
  ultimately have c: "unat (pd_count pde + 1) < unat (pd_max_count pde)" using n B(5) N(5) by (simp add: pde add.commute)
  have "last (burst_ts t0 p n # pd_pulses pde) = burst_ts t0 p 0" by (cases n) (simp_all add: pde last_map last_rev upt_conv_Cons del: upt_Suc)
  moreover have "n * p \<le> ppb rs * p" using n by (intro mult_le_mono1) simp
  then have "n * p \<le> unat (pd_window_size (pde_new rs f))" using N(6) by (simp only: mult.commute [of "ppb rs"])
  moreover have "pd_window_size pde = pd_window_size (pde_new rs f)" by (simp add: pde)
  ultimately have w: "unat (burst_ts t0 p n) \<le> unat (last (burst_ts t0 p n # pd_pulses pde)) + unat (pd_window_size pde)"
    using B(8) [of n] B(8) [of 0] n by simp
  have "pde\<lparr>pd_pulses := burst_ts t0 p n # pd_pulses pde, pd_count := pd_count pde + 1, pd_last_ts := burst_ts t0 p n\<rparr> = burst_state rs f t0 p (Suc n) seqs"
    by (rule pri_detector.equality) (simp_all add: pde burst_state_def add.commute)
  then show thesis using enqueue_room [OF m c w] that by metis
qed

lemma burst_extend:
  assumes fits: "burst_fits rs t0 p" and n: "2 \<le> n" "n < ppb rs"
  shows "add_to_seqs rs (burst_ts t0 p n) [burst_seq rs t0 p n] 0 rp = (of_nat (Suc n), [burst_seq rs t0 p (Suc n)], rp)"
proof -
  note B = burst_p [OF fits]
  have "n * p \<le> (ppb rs - 1) * p" using n by (intro mult_le_mono1) simp
  moreover have "p * ppb rs = p * (ppb rs - 1) + p" using B(5) by (cases "ppb rs") simp_all
  moreover have "t0 + p * ppb rs + 32 < 18446744073709551616" using fits by (simp add: burst_fits_def)
  ultimately have "t0 + p * (ppb rs - 1) + 32 < 18446744073709551616" "t0 + n * p \<le> t0 + p * (ppb rs - 1) + 32" using B(2) by (simp_all only: mult.commute [of "ppb rs - 1"])
  moreover have "unat (burst_ts t0 p n) = t0 + n * p" using B(8) [of n] n by simp
  ultimately have d: "\<not> burst_ts t0 p n > of_nat (t0 + p * (ppb rs - 1) + 32)"
    using unat_of_nat_u64 [of "t0 + p * (ppb rs - 1) + 32"] by (simp only: word_less_nat_alt not_less)
  have "ucast (burst_ts t0 p n - burst_ts t0 p (n - 1)) = (of_nat p :: u32)" using burst_diff [OF B(1), of t0 "n - 1"] n(1) by simp
  then have g: "pde_get_multiple (ucast (burst_ts t0 p n - burst_ts t0 p (n - 1))) (of_nat p) (of_nat (max_pri_tolerance rs)) = 1"
    using multiple_self [OF B(3), of "of_nat (max_pri_tolerance rs)"] B(1) by simp
  have "unat (of_nat (Suc n) :: u32) = Suc n" using n B(6) by (intro unat_of_nat_u32) simp
  then have "(0 :: u32) < of_nat (Suc n)" by (simp only: word_less_nat_alt) simp
  then show ?thesis using d g by (simp add: burst_seq_def Let_def add.commute)
qed

lemma weather_thresh:
  assumes "burst_fits rs t0 p" and "rs_type rs = RADAR_WAVEFORM_WEATHER"
  shows "unat (ucast (19000000 div (360 * (of_nat p :: u32))) :: u8) = 19000000 div (360 * p)" "19000000 div (360 * p) \<le> 105"
proof -
  have p: "502 \<le> p" "p < 65536" using assms burst_p(1) [OF assms(1)] by (auto simp: burst_fits_def spec_ok_def)
  have "19000000 div (360 * p) \<le> 19000000 div (360 * 502)" using p(1) by (intro div_le_mono2) simp_all
  then show le: "19000000 div (360 * p) \<le> 105" by simp
  have "unat (of_nat (360 * p) :: u32) = 360 * p" using p by (intro unat_of_nat_u32) simp
  then have "unat (19000000 div (360 * (of_nat p :: u32))) = 19000000 div (360 * p)" by (simp add: unat_div)
  then show "unat (ucast (19000000 div (360 * (of_nat p :: u32))) :: u8) = 19000000 div (360 * p)"
    using le by (simp add: unsigned_ucast_eq take_bit_nat_eq_self)
qed

lemma burst_first_seq:
  assumes fits: "burst_fits rs t0 p" and m: "0 < rp_mem rp"
  obtains rp' where "create_loop rs (burst_ts t0 p 1) 0 [burst_ts t0 p 0] 0 ([], rp) = (True, [burst_seq rs t0 p 2], rp')" "rp_mem rp \<le> rp_mem rp' + 1"
proof -
  note B = burst_p [OF fits]
  have r: "pri_min rs \<le> p" "p \<le> pri_max rs" "pri_max rs < 65536" "max_pri_tolerance rs = 16" using fits by (auto simp: burst_fits_def spec_ok_def)
  have d: "ucast (burst_ts t0 p 1 - burst_ts t0 p 0) = (of_nat p :: u32)" using burst_diff [OF B(1), of t0 0] by simp
  have u: "unat (of_nat p :: u32) = p" "unat (of_nat (pri_min rs) :: u32) = pri_min rs" "unat (of_nat (pri_max rs) :: u32) = pri_max rs"
    using r B(1) by (auto intro!: unat_of_nat_u32)
  have lim: "\<not> (of_nat p :: u32) < of_nat (pri_min rs)" "\<not> (of_nat p :: u32) > of_nat (pri_max rs)" using u r by (simp_all add: word_less_nat_alt)
  obtain x rp' where g: "pool_get_pseq_elem rp = (Some x, rp')" "rp_mem rp \<le> rp_mem rp' + 1"
    using m by (cases "rp_pseqs rp") (auto simp: pool_get_pseq_elem_def kmalloc_def)
  have dur: "(of_nat p :: u32) * (of_nat (ppb rs) - 1) + 2 * of_nat (max_pri_tolerance rs) = of_nat (p * (ppb rs - 1) + 32)"
    using B(5) r(4) by (simp add: of_nat_diff)
  have dl: "burst_ts t0 p 0 + ucast (of_nat (p * (ppb rs - 1) + 32) :: u32) = of_nat (t0 + p * (ppb rs - 1) + 32)"
  proof -
    have "(ucast (of_nat (p * (ppb rs - 1) + 32) :: u32) :: u64) = of_nat (p * (ppb rs - 1) + 32)"
      using B(4) unat_of_nat_u32 [OF B(4)] by (metis of_nat_unat ucast_id unat_ucast_u64)
    then show ?thesis by (simp add: burst_ts_def)
  qed
  have th: "(if rs_type rs = RADAR_WAVEFORM_WEATHER then of_nat (PPB_THRESH (unat (ucast (19000000 div (360 * (of_nat p :: u32))) :: u8))) else of_nat (ppb_thresh rs))
      = (of_nat (if rs_type rs = RADAR_WAVEFORM_WEATHER then PPB_THRESH (19000000 div (360 * p)) else ppb_thresh rs) :: u8)"
    using weather_thresh(1) [OF fits] by simp
  have "finish_sequence rs (new_sequence rs (burst_ts t0 p 1) (burst_ts t0 p 0) 1 []) = burst_seq rs t0 p 2"
    unfolding new_sequence_def finish_sequence_def Let_def scan_past.simps d dur pri_sequence.simps burst_seq_def
    using th dl by simp
  moreover have "ps_count (new_sequence rs (burst_ts t0 p 1) (burst_ts t0 p 0) 1 []) = 2" by (simp add: new_sequence_def Let_def)
  ultimately have "create_loop rs (burst_ts t0 p 1) 0 [burst_ts t0 p 0] 0 ([], rp) = (True, [burst_seq rs t0 p 2], rp')"
    using lim g(1) by (simp add: Let_def d [unfolded One_nat_def])
  then show thesis using that g(2) by blast
qed

section \<open>Detection\<close>

lemma burst_len_props:
  assumes "burst_fits rs t0 p"
  shows "2 \<le> burst_len rs p" "burst_len rs p \<le> ppb rs"
    "1 \<le> n \<Longrightarrow> n < ppb rs \<Longrightarrow> seq_complete rs (burst_seq rs t0 p (Suc n)) \<longleftrightarrow> burst_len rs p \<le> Suc n"
proof -
  define th where "th = (if rs_type rs = RADAR_WAVEFORM_WEATHER then PPB_THRESH (19000000 div (360 * p)) else ppb_thresh rs)"
  note B = burst_p [OF assms]
  have th: "th \<le> ppb rs"
  proof (cases "rs_type rs = RADAR_WAVEFORM_WEATHER")
    case True
    then have "PPB_THRESH (19000000 div (360 * p)) \<le> 102" using weather_thresh(2) [OF assms True] by (simp add: PPB_THRESH_def)
    moreover have "102 \<le> ppb rs" using assms True by (simp add: burst_fits_def spec_ok_def)
    ultimately show ?thesis using True by (simp add: th_def)
  next
    case False
    then show ?thesis using assms by (simp add: th_def burst_fits_def spec_ok_def)
  qed
  have l: "burst_len rs p = max 2 th" by (simp add: burst_len_def th_def)
  then show "2 \<le> burst_len rs p" "burst_len rs p \<le> ppb rs" using th B(5) by simp_all
  assume n: "1 \<le> n" "n < ppb rs"
  have "unat (of_nat th :: u8) = th" using th B(6) by (simp add: unsigned_of_nat take_bit_nat_eq_self)
  then have t: "unat (ucast (of_nat th :: u8) :: u32) = th" using th B(6) by (simp add: unsigned_ucast_eq take_bit_nat_eq_self)
  have c: "unat (of_nat (Suc n) :: u32) = Suc n" using n B(6) by (intro unat_of_nat_u32) simp
  have "num_pri rs < 8" "0 < num_pri rs" using assms by (auto simp: burst_fits_def spec_ok_def)
  then have le: "Suc n * num_pri rs \<le> 128 * 8" and pos: "0 < Suc n * num_pri rs" using n B(6) by (intro mult_le_mono, simp_all)
  from le have "unat (of_nat (Suc n * num_pri rs) :: u32) = Suc n * num_pri rs" by (intro unat_of_nat_u32) simp
  then have f: "(of_nat (Suc n) :: u32) * of_nat (num_pri rs) > 0" using pos
    by (simp only: word_less_nat_alt of_nat_mult [symmetric]) simp
  have "ps_count (burst_seq rs t0 p (Suc n)) = of_nat (Suc n)" "ps_count_falses (burst_seq rs t0 p (Suc n)) = 0" "ps_ppb_thresh (burst_seq rs t0 p (Suc n)) = of_nat th"
    by (simp_all add: burst_seq_def th_def)
  then show "seq_complete rs (burst_seq rs t0 p (Suc n)) \<longleftrightarrow> burst_len rs p \<le> Suc n"
    using f n(1) by (simp only: seq_complete_def word_le_nat_alt t c l) simp
qed

text \<open>The sequences after \<open>n\<close> pulses.\<close>

definition burst_seqs :: "radar_detector_specs \<Rightarrow> nat \<Rightarrow> nat \<Rightarrow> nat \<Rightarrow> pri_sequence list" where
  "burst_seqs rs t0 p n = (if n < 2 then [] else [burst_seq rs t0 p n])"

lemma burst_step:
  assumes fits: "burst_fits rs t0 p" and n: "1 \<le> n" "n < burst_len rs p" and m: "1 < rp_mem rp"
  obtains r pde rp' where "pde_add_pulse (burst_ts t0 p n) (burst_state rs f t0 p n (burst_seqs rs t0 p n), rp) = (r, pde, rp')"
    "Suc n < burst_len rs p \<Longrightarrow> r = None \<and> pde = burst_state rs f t0 p (Suc n) (burst_seqs rs t0 p (Suc n)) \<and> rp_mem rp \<le> rp_mem rp' + (if n = 1 then 2 else 1)"
    "Suc n = burst_len rs p \<Longrightarrow> r = Some (burst_seq rs t0 p (Suc n))"
proof -
  note B = burst_p [OF fits] and N = pde_new_fields [OF fits, of f] and L = burst_len_props [OF fits]
  let ?s = "burst_state rs f t0 p n (burst_seqs rs t0 p n)" and ?ts = "burst_ts t0 p n"
  have np: "n < ppb rs" using n L(2) by simp
  have rs: "pd_rs ?s = rs" "pd_count ?s = of_nat n" "pd_last_ts ?s = burst_ts t0 p (n - 1)" "pd_sequences ?s = burst_seqs rs t0 p n"
      "pd_pulses ?s = map (burst_ts t0 p) (rev [0 ..< n])" "\<not> pde_is_long ?s"
    using N by (simp_all add: burst_state_def pde_is_long_def)
  have c: "unat (of_nat k :: u32) = k" if "k \<le> ppb rs" for k using that B(6) by (intro unat_of_nat_u32) simp
  have nz: "(of_nat n :: u32) \<noteq> 0" using c [of n] np n(1) by (metis less_imp_le_nat not_one_le_zero unsigned_0)
  have "?ts - burst_ts t0 p (n - 1) = of_nat p" using n(1) by (cases n) (simp_all add: burst_ts_def algebra_simps)
  moreover have "unat (of_nat p :: u64) = p" using B(1) by (intro unat_of_nat_u64) simp
  moreover have "max_pri_tolerance rs = 16" using fits by (simp add: burst_fits_def spec_ok_def)
  ultimately have tol: "\<not> ?ts - burst_ts t0 p (n - 1) < of_nat (max_pri_tolerance rs)" using B(2) by (simp add: word_less_nat_alt)
  obtain mc rp1 where a: "add_to_seqs rs ?ts (burst_seqs rs t0 p n) 0 rp = (mc, (if n = 1 then [] else [burst_seq rs t0 p (Suc n)]), rp)"
      "create_loop rs ?ts mc (map (burst_ts t0 p) (rev [0 ..< n])) 0 ((if n = 1 then [] else [burst_seq rs t0 p (Suc n)]), rp) = (True, [burst_seq rs t0 p (Suc n)], rp1)"
      "rp_mem rp \<le> rp_mem rp1 + (if n = 1 then 1 else 0)"
  proof (cases "n = 1")
    case True
    obtain rp1 where "create_loop rs (burst_ts t0 p 1) 0 [burst_ts t0 p 0] 0 ([], rp) = (True, [burst_seq rs t0 p 2], rp1)" "rp_mem rp \<le> rp_mem rp1 + 1"
      using burst_first_seq [OF fits, of rp] m by auto
    then show thesis using that [of 0 rp1] True by (simp add: burst_seqs_def numeral_2_eq_2)
  next
    case False
    then have "create_loop rs ?ts (of_nat (Suc n)) (map (burst_ts t0 p) (rev [0 ..< n])) 0 ([burst_seq rs t0 p (Suc n)], rp) = (True, [burst_seq rs t0 p (Suc n)], rp)"
      using c [of "Suc n"] np by (intro create_loop_skip) simp
    then show thesis using that [of "of_nat (Suc n)" rp] burst_extend [OF fits _ np, of rp] False n(1) by (simp add: burst_seqs_def)
  qed
  let ?q = "burst_state rs f t0 p n [burst_seq rs t0 p (Suc n)]"
  obtain rp2 where e: "pulse_queue_enqueue ?ts (?q, rp1) = (burst_state rs f t0 p (Suc n) [burst_seq rs t0 p (Suc n)], rp2)" "rp_mem rp1 \<le> rp_mem rp2 + 1"
    using burst_enqueue [OF fits np, where rp = rp1 and pde = "?q" and f = f and l = "burst_ts t0 p (n - 1)" and seqs = "[burst_seq rs t0 p (Suc n)]"] m a(3)
    by (auto simp: burst_state_def split: if_splits)
  have upd: "?s\<lparr>pd_sequences := x\<rparr> = burst_state rs f t0 p n x" for x by (simp add: burst_state_def)
  have "pde_add_pulse ?ts (?s, rp) = (if burst_len rs p \<le> Suc n then (Some (burst_seq rs t0 p (Suc n)), ?q, rp1)
      else (None, burst_state rs f t0 p (Suc n) [burst_seq rs t0 p (Suc n)], rp2))"
    using add_pulse_run [of ?s ?ts, unfolded rs, OF rs(6) nz tol a(1, 2)] L(3) [OF n(1) np] e(1) by (simp add: upd)
  note run = this
  show thesis
  proof (cases "burst_len rs p \<le> Suc n")
    case True
    then show ?thesis using that [of "Some (burst_seq rs t0 p (Suc n))" ?q rp1] run n(2) by simp
  next
    case False
    then show ?thesis
      using that [of None "burst_state rs f t0 p (Suc n) (burst_seqs rs t0 p (Suc n))" rp2] run e(2) a(3) n(1) by (simp add: burst_seqs_def split: if_splits)
  qed
qed

text \<open>Pulses until the first detection.\<close>

fun pde_feed :: "u64 list \<Rightarrow> pri_detector \<times> radar_pools \<Rightarrow> pri_sequence option \<times> pri_detector \<times> radar_pools" where
  "pde_feed [] s = (None, s)"
| "pde_feed (ts # tss) s = (case pde_add_pulse ts s of (Some ps, s') \<Rightarrow> (Some ps, s') | (None, s') \<Rightarrow> pde_feed tss s')"

lemma pde_feed_append: "pde_feed (tss @ tss') s = (case pde_feed tss s of (Some ps, s') \<Rightarrow> (Some ps, s') | (None, s') \<Rightarrow> pde_feed tss' s')"
  by (induction tss arbitrary: s) (auto split: prod.splits option.splits)

lemma burst_start:
  assumes fits: "burst_fits rs t0 p" and m: "0 < rp_mem rp"
  obtains rp' where "pde_add_pulse (burst_ts t0 p 0) (pde_new rs f, rp) = (None, burst_state rs f t0 p 1 [], rp')" "rp_mem rp \<le> rp_mem rp' + 1"
proof -
  note N = pde_new_fields [OF fits, of f]
  have "pde_new rs f = (pde_new rs f)\<lparr>pd_pulses := map (burst_ts t0 p) (rev [0 ..< 0]), pd_count := of_nat 0, pd_last_ts := pd_last_ts (pde_new rs f), pd_sequences := []\<rparr>"
    using N(2, 3, 4) by (intro pri_detector.equality) simp_all
  moreover have "0 < ppb rs" using burst_p(5) [OF fits] by simp
  ultimately obtain rp' where e: "pulse_queue_enqueue (burst_ts t0 p 0) (pde_new rs f, rp) = (burst_state rs f t0 p (Suc 0) [], rp')" "rp_mem rp \<le> rp_mem rp' + 1"
    using burst_enqueue [OF fits _ m, of 0] by blast
  then have "pde_add_pulse (burst_ts t0 p 0) (pde_new rs f, rp) = (None, burst_state rs f t0 p 1 [], rp')"
    using N(4, 7) by (simp add: pde_add_pulse_def pde_short_add_pulse_def)
  then show thesis using that e(2) by blast
qed

lemma burst_run:
  assumes fits: "burst_fits rs t0 p" and m: "ppb rs + 2 \<le> rp_mem rp"
  shows "1 \<le> n \<Longrightarrow> n < burst_len rs p \<Longrightarrow> \<exists>rp'. pde_feed (map (burst_ts t0 p) [0 ..< n]) (pde_new rs f, rp) = (None, burst_state rs f t0 p n (burst_seqs rs t0 p n), rp')
     \<and> rp_mem rp \<le> rp_mem rp' + n + (if n < 2 then 0 else 1)"
proof (induction n rule: nat_induct_at_least)
  case base
  obtain rp' where "pde_add_pulse (burst_ts t0 p 0) (pde_new rs f, rp) = (None, burst_state rs f t0 p 1 [], rp')" "rp_mem rp \<le> rp_mem rp' + 1"
    using burst_start [OF fits, of rp f] m by auto
  then show ?case by (simp add: burst_seqs_def)
next
  case (Suc n)
  then obtain rp1 where r: "pde_feed (map (burst_ts t0 p) [0 ..< n]) (pde_new rs f, rp) = (None, burst_state rs f t0 p n (burst_seqs rs t0 p n), rp1)"
      "rp_mem rp \<le> rp_mem rp1 + n + (if n < 2 then 0 else 1)" by auto
  have "n < ppb rs" "n < burst_len rs p" using Suc.prems burst_len_props(2) [OF fits] by simp_all
  then have "1 < rp_mem rp1" using r(2) m by (simp split: if_splits)
  then obtain rp2 where "pde_add_pulse (burst_ts t0 p n) (burst_state rs f t0 p n (burst_seqs rs t0 p n), rp1) = (None, burst_state rs f t0 p (Suc n) (burst_seqs rs t0 p (Suc n)), rp2)"
      "rp_mem rp1 \<le> rp_mem rp2 + (if n = 1 then 2 else 1)"
    using burst_step [OF fits Suc.hyps \<open>n < burst_len rs p\<close>, of rp1 f] Suc.prems by blast
  then show ?case using r Suc.hyps by (simp add: pde_feed_append split: if_splits)
qed

lemma regular_burst:
  assumes "burst_fits rs t0 p" and "ppb rs + 2 \<le> rp_mem rp"
  shows "fst (pde_feed (map (burst_ts t0 p) [0 ..< burst_len rs p]) (pde_new rs f, rp)) = Some (burst_seq rs t0 p (burst_len rs p))
    \<and> (n < burst_len rs p \<longrightarrow> fst (pde_feed (map (burst_ts t0 p) [0 ..< n]) (pde_new rs f, rp)) = None)"
proof -
  define k where "k = burst_len rs p - 1"
  have L: "burst_len rs p = Suc k" "1 \<le> k" "k < burst_len rs p" "burst_len rs p \<le> ppb rs" using burst_len_props(1, 2) [OF assms(1)] by (auto simp: k_def)
  obtain rp1 where r: "pde_feed (map (burst_ts t0 p) [0 ..< k]) (pde_new rs f, rp) = (None, burst_state rs f t0 p k (burst_seqs rs t0 p k), rp1)"
      "rp_mem rp \<le> rp_mem rp1 + k + (if k < 2 then 0 else 1)" using burst_run [OF assms L(2, 3)] by blast
  then have "1 < rp_mem rp1" using L assms(2) by (simp split: if_splits)
  then obtain pde rp2 where "pde_add_pulse (burst_ts t0 p k) (burst_state rs f t0 p k (burst_seqs rs t0 p k), rp1) = (Some (burst_seq rs t0 p (Suc k)), pde, rp2)"
    using burst_step [OF assms(1) L(2, 3), of rp1 f] L(1) by metis
  then have "fst (pde_feed (map (burst_ts t0 p) [0 ..< burst_len rs p]) (pde_new rs f, rp)) = Some (burst_seq rs t0 p (burst_len rs p))"
    using r(1) by (simp add: L(1) pde_feed_append)
  moreover have "fst (pde_feed (map (burst_ts t0 p) [0 ..< n]) (pde_new rs f, rp)) = None" if "n < burst_len rs p"
    using burst_run [OF assms, of n f] that by (cases n) auto
  ultimately show ?thesis by blast
qed

lemma domain_burst_fits:
  assumes "(region, riu, fcu) \<in> set dfs_domains" and "rs \<in> set riu \<union> set fcu" and "rs_type rs \<noteq> RADAR_WAVEFORM_LONG"
    and "pri_min rs \<le> p" and "p \<le> pri_max rs" and "t0 + p * ppb rs + 32 < 2 ^ 64"
  shows "burst_fits rs t0 p"
proof -
  have "list_all spec_ok riu" "list_all spec_ok fcu" using domain_specs_ok assms(1) by (auto simp: list_all_iff)
  then have "spec_ok rs" using assms(2) by (auto simp: list_all_iff)
  then show ?thesis using assms(3-) by (simp add: burst_fits_def)
qed

text \<open>
  C32: a regular pulse train is detected, and with exactly the pulse that reaches the threshold. For every short, interleaved or weather
  pattern in the tables of the three regulatory domains, every interval between the smallest and the largest of the pattern and every start time
  (as long as the 64-bit time stamps do not wrap), a fresh detector with enough memory reports nothing on any shorter prefix of the train, and
  with the last pulse reports the sequence of the train: its interval, its number of pulses, no false pulse, its first and its last time stamp.
\<close>
theorem regular_burst_detected:
  assumes "(region, riu, fcu) \<in> set dfs_domains" and "rs \<in> set riu \<union> set fcu" and "rs_type rs \<noteq> RADAR_WAVEFORM_LONG"
    and "pri_min rs \<le> p" and "p \<le> pri_max rs" and "t0 + p * ppb rs + 32 < 2 ^ 64" and "ppb rs + 2 \<le> rp_mem rp"
  shows "fst (pde_feed (map (burst_ts t0 p) [0 ..< burst_len rs p]) (pde_new rs f, rp)) = Some (burst_seq rs t0 p (burst_len rs p))
    \<and> (n < burst_len rs p \<longrightarrow> fst (pde_feed (map (burst_ts t0 p) [0 ..< n]) (pde_new rs f, rp)) = None)"
  by (rule regular_burst [OF domain_burst_fits [OF assms(1-6)] assms(7)])

definition ex_burst_pools :: radar_pools where
  "ex_burst_pools = \<lparr>rp_refs = 1, rp_pulses = 0, rp_pseqs = [], rp_mem = 14,
     rp_fresh = \<lparr>ps_pri = 0, ps_dur = 0, ps_count = 0, ps_count_falses = 0, ps_first_ts = 0, ps_last_ts = 0, ps_deadline_ts = 0, ps_ppb_thresh = 0\<rparr>\<rparr>"

theorem regular_burst_detected_witness:
  "fst (pde_feed (map (burst_ts 5000 300) [0 ..< 6]) (pde_new (FCC_PATTERN 4 10 28 200 500 1 12 RADAR_WAVEFORM_SHORT) 5500,
       ex_burst_pools)) = Some (burst_seq (FCC_PATTERN 4 10 28 200 500 1 12 RADAR_WAVEFORM_SHORT) 5000 300 6)
   \<and> fst (pde_feed (map (burst_ts 5000 300) [0 ..< 5]) (pde_new (FCC_PATTERN 4 10 28 200 500 1 12 RADAR_WAVEFORM_SHORT) 5500,
       ex_burst_pools)) = None"
proof -
  let ?rs = "FCC_PATTERN 4 10 28 200 500 1 12 RADAR_WAVEFORM_SHORT"
  have "burst_len ?rs 300 = 6" by (simp add: burst_len_def FCC_PATTERN_def PPB_THRESH_def)
  moreover have "(NL80211_DFS_FCC, fcc_radar_ref_types_riu, fcc_radar_ref_types_fcu) \<in> set dfs_domains" by (simp add: dfs_domains_def)
  moreover have "?rs \<in> set fcc_radar_ref_types_riu \<union> set fcc_radar_ref_types_fcu" by (simp add: fcc_radar_ref_types_riu_def)
  ultimately show ?thesis
    using regular_burst_detected [of NL80211_DFS_FCC fcc_radar_ref_types_riu fcc_radar_ref_types_fcu ?rs 300 5000
        ex_burst_pools 5500 5]
    by (simp add: FCC_PATTERN_def ex_burst_pools_def)
qed

end
