(* ===== verification/FrameQueue.thy ===== *)
theory FrameQueue
  imports Prelude
begin

text \<open>
  The prioritised frame queue of aicwf_txrxif.c, which stands between the bus and the driver in both directions:
  its operations as the code has them, the list of frames in the order in which they leave as its abstract state,
  and the first-in first-out contract of a queue with one priority, which the receive path relies on.
\<close>

section \<open>Operations\<close>

record 'a frame_queue =
  num_prio :: u16
  hi_prio :: u16
  qmax :: u16
  qcnt :: u16
  queuelist :: "'a list list"

text \<open>Only the heads of the first \<open>num_prio\<close> lists are initialised.\<close>

definition aicwf_frame_queue_init :: "nat \<Rightarrow> nat \<Rightarrow> 'a frame_queue" where
  "aicwf_frame_queue_init n max_len =
     \<lparr>num_prio = of_nat n, hi_prio = 0, qmax = of_nat max_len, qcnt = 0, queuelist = replicate n []\<rparr>"

definition aicwf_frame_queue_penq :: "'a frame_queue \<Rightarrow> nat \<Rightarrow> 'a \<Rightarrow> fault + bool \<times> 'a frame_queue" where
  "aicwf_frame_queue_penq pq prio p =
     (case array_get (queuelist pq) prio of
        Inl e \<Rightarrow> Inl e
      | Inr q \<Rightarrow>
          if length q \<ge> unat (qmax pq) then Inr (False, pq)
          else Inr (True, pq\<lparr>queuelist := (queuelist pq)[prio := q @ [p]], qcnt := qcnt pq + 1,
                            hi_prio := (if unat (hi_prio pq) < prio then of_nat prio else hi_prio pq)\<rparr>))"

text \<open>The frames that are freed come with the new state.\<close>

definition aicwf_frame_queue_flush :: "'a frame_queue \<Rightarrow> 'a list \<times> 'a frame_queue" where
  "aicwf_frame_queue_flush pq =
     (let n = unat (num_prio pq); gone = concat (take n (queuelist pq)) in
      (gone, pq\<lparr>queuelist := replicate n [] @ drop n (queuelist pq), qcnt := qcnt pq - of_nat (length gone)\<rparr>))"

text \<open>The loop of \<open>aicwf_frame_queue_peek_tail\<close>: the first list from \<open>prio\<close> on that is not empty, at most \<open>hi\<close>.\<close>

function peek_prio :: "'a list list \<Rightarrow> nat \<Rightarrow> nat \<Rightarrow> nat" where
  "peek_prio qs hi prio = (if prio < hi \<and> qs ! prio = [] then peek_prio qs hi (prio + 1) else prio)"
  by pat_completeness auto

termination
  by (relation "measure (\<lambda>(qs, hi, prio). hi - prio)") auto

declare peek_prio.simps [simp del]

definition aicwf_frame_queue_peek_tail :: "'a frame_queue \<Rightarrow> 'a option \<times> nat option" where
  "aicwf_frame_queue_peek_tail pq =
     (if qcnt pq = 0 then (None, None)
      else
        let prio = peek_prio (queuelist pq) (unat (hi_prio pq)) 0; q = queuelist pq ! prio in
        (if q = [] then None else Some (last q), Some prio))"

definition aicwf_is_framequeue_empty :: "'a frame_queue \<Rightarrow> bool" where
  "aicwf_is_framequeue_empty pq \<longleftrightarrow> \<not> sum_list (map (\<lambda>prio. length (queuelist pq ! prio)) [0 ..< unat (hi_prio pq) + 1]) > 0"

text \<open>The loop of \<open>aicwf_frame_dequeue\<close> that lowers \<open>hi_prio\<close>.\<close>

fun lower_prio :: "'a list list \<Rightarrow> nat \<Rightarrow> nat" where
  "lower_prio qs 0 = 0"
| "lower_prio qs (Suc prio) = (if qs ! Suc prio = [] then lower_prio qs prio else Suc prio)"

definition aicwf_frame_dequeue :: "'a frame_queue \<Rightarrow> 'a option \<times> 'a frame_queue" where
  "aicwf_frame_dequeue pq =
     (if qcnt pq = 0 then (None, pq)
      else
        let prio = lower_prio (queuelist pq) (unat (hi_prio pq)); pq1 = pq\<lparr>hi_prio := of_nat prio\<rparr> in
        (case queuelist pq ! prio of
           [] \<Rightarrow> (None, pq1)
         | p # q \<Rightarrow> (Some p, pq1\<lparr>queuelist := (queuelist pq)[prio := q], qcnt := qcnt pq - 1\<rparr>)))"

definition aicwf_skb_dequeue_tail :: "'a frame_queue \<Rightarrow> nat \<Rightarrow> 'a option \<times> 'a frame_queue" where
  "aicwf_skb_dequeue_tail pq prio =
     (let q = queuelist pq ! prio in
      if q = [] then (None, pq) else (Some (last q), pq\<lparr>queuelist := (queuelist pq)[prio := butlast q], qcnt := qcnt pq - 1\<rparr>))"

text \<open>
  The answer, the frames that are freed and the new state. When the queue is full and its lowest priority is below
  that of the new frame, the newest frame of that lowest priority makes room, and the new one takes its place.
\<close>

definition aicwf_frame_enq :: "'a frame_queue \<Rightarrow> 'a \<Rightarrow> nat \<Rightarrow> fault + bool \<times> 'a list \<times> 'a frame_queue" where
  "aicwf_frame_enq q pkt prio =
     (case array_get (queuelist q) prio of
        Inl e \<Rightarrow> Inl e
      | Inr l \<Rightarrow>
          if length l < unat (qmax q) \<and> qcnt q < qmax q then
            (case aicwf_frame_queue_penq q prio pkt of Inl e \<Rightarrow> Inl e | Inr (_, q1) \<Rightarrow> Inr (True, [], q1))
          else if length l \<ge> unat (qmax q) then Inr (False, [], q)
          else
            (case aicwf_frame_queue_peek_tail q of
               (_, None) \<Rightarrow> Inr (False, [], q)
             | (_, Some pm) \<Rightarrow>
                 if pm > prio \<or> pm = prio then Inr (False, [], q)
                 else
                   (case aicwf_skb_dequeue_tail q pm of
                      (p, q1) \<Rightarrow>
                        (case aicwf_frame_queue_penq q1 pm pkt of
                           Inl e \<Rightarrow> Inl e
                         | Inr (ok, q2) \<Rightarrow> Inr (ok, (case p of None \<Rightarrow> [] | Some x \<Rightarrow> [x]), q2)))))"

definition aicwf_rxframe_enqueue :: "'a frame_queue \<Rightarrow> 'a \<Rightarrow> fault + bool \<times> 'a list \<times> 'a frame_queue" where
  "aicwf_rxframe_enqueue q pkt = aicwf_frame_enq q pkt 0"

section \<open>Abstract state\<close>

text \<open>The frames with their priorities, in the order in which they are dequeued.\<close>

definition prio_part :: "'a list list \<Rightarrow> nat \<Rightarrow> (nat \<times> 'a) list" where
  "prio_part qs p = map (Pair p) (qs ! p)"

definition frames_of :: "'a list list \<Rightarrow> (nat \<times> 'a) list" where
  "frames_of qs = concat (map (prio_part qs) (rev [0 ..< length qs]))"

definition frames :: "'a frame_queue \<Rightarrow> (nat \<times> 'a) list" where
  "frames q = frames_of (queuelist q)"

definition frames_above :: "'a list list \<Rightarrow> nat \<Rightarrow> (nat \<times> 'a) list" where
  "frames_above qs p = concat (map (prio_part qs) (rev [Suc p ..< length qs]))"

definition frames_below :: "'a list list \<Rightarrow> nat \<Rightarrow> (nat \<times> 'a) list" where
  "frames_below qs p = concat (map (prio_part qs) (rev [0 ..< p]))"

lemma frames_split:
  assumes "p < length qs"
  shows "frames_of qs = frames_above qs p @ map (Pair p) (qs ! p) @ frames_below qs p"
proof -
  have "[0 ..< length qs] = [0 ..< p] @ p # [Suc p ..< length qs]"
    using assms upt_add_eq_append [of 0 p "length qs - p"] upt_conv_Cons [of p "length qs"] by simp
  then show ?thesis by (simp add: frames_of_def frames_above_def frames_below_def prio_part_def)
qed

lemma frames_update [simp]:
  "frames_above (qs[p := x]) p = frames_above qs p" "frames_below (qs[p := x]) p = frames_below qs p"
  by (auto simp: frames_above_def frames_below_def prio_part_def intro!: arg_cong [where f = concat])

lemma frames_above_prio: "y \<in> set (frames_above qs p) \<Longrightarrow> p < fst y"
  and frames_below_prio: "y \<in> set (frames_below qs p) \<Longrightarrow> fst y < p"
  by (auto simp: frames_above_def frames_below_def prio_part_def)

lemma frames_above_Nil: "\<forall>p' < length qs. p < p' \<longrightarrow> qs ! p' = [] \<Longrightarrow> frames_above qs p = []"
  and frames_below_Nil: "\<forall>p' < p. qs ! p' = [] \<Longrightarrow> frames_below qs p = []"
  by (auto simp: frames_above_def frames_below_def prio_part_def)

text \<open>Insertion behind the frames of the same priority.\<close>

definition prio_insert :: "nat \<Rightarrow> 'a \<Rightarrow> (nat \<times> 'a) list \<Rightarrow> (nat \<times> 'a) list" where
  "prio_insert p x xs = takeWhile (\<lambda>y. p \<le> fst y) xs @ (p, x) # dropWhile (\<lambda>y. p \<le> fst y) xs"

lemma frames_insert:
  assumes "p < length qs"
  shows "frames_of (qs[p := qs ! p @ [x]]) = prio_insert p x (frames_of qs)"
proof -
  let ?A = "frames_above qs p" and ?M = "map (Pair p) (qs ! p)" and ?B = "frames_below qs p"
  have a: "y \<in> set (?A @ ?M) \<Longrightarrow> p \<le> fst y" for y using frames_above_prio [of y qs p] by auto
  have "takeWhile (\<lambda>y. p \<le> fst y) ((?A @ ?M) @ ?B) = (?A @ ?M) @ takeWhile (\<lambda>y. p \<le> fst y) ?B"
    by (rule takeWhile_append2) (rule a)
  moreover have "dropWhile (\<lambda>y. p \<le> fst y) ((?A @ ?M) @ ?B) = dropWhile (\<lambda>y. p \<le> fst y) ?B"
    by (rule dropWhile_append2) (rule a)
  moreover have "takeWhile (\<lambda>y. p \<le> fst y) ?B = []" "dropWhile (\<lambda>y. p \<le> fst y) ?B = ?B"
    using frames_below_prio [of _ qs p] by (cases ?B; fastforce)+
  ultimately show ?thesis using assms by (simp add: prio_insert_def frames_split [of p])
qed

lemma frames_head:
  "p < length qs \<Longrightarrow> \<forall>p' < length qs. p < p' \<longrightarrow> qs ! p' = [] \<Longrightarrow> qs ! p = x # q \<Longrightarrow> frames_of qs = (p, x) # frames_of (qs[p := q])"
  using frames_above_Nil [of qs p] by (simp add: frames_split [of p])

lemma frames_tail:
  "p < length qs \<Longrightarrow> \<forall>p' < p. qs ! p' = [] \<Longrightarrow> qs ! p \<noteq> [] \<Longrightarrow> frames_of qs = frames_of (qs[p := butlast (qs ! p)]) @ [(p, last (qs ! p))]"
  using frames_below_Nil [of p qs] map_append [of "Pair p" "butlast (qs ! p)" "[last (qs ! p)]"] by (simp add: frames_split [of p])

lemma length_frames: "length (frames_of qs) = sum_list (map length qs)"
proof -
  have "length (frames_of qs) = sum_list (map (\<lambda>p. length (qs ! p)) [0 ..< length qs])"
    by (simp add: frames_of_def length_concat prio_part_def comp_def rev_map [symmetric])
  also have "map (\<lambda>p. length (qs ! p)) [0 ..< length qs] = map length qs" by (intro nth_equalityI) simp_all
  finally show ?thesis .
qed

section \<open>Refinement\<close>

definition fq_ok :: "'a frame_queue \<Rightarrow> bool" where
  "fq_ok q \<longleftrightarrow>
     unat (num_prio q) = length (queuelist q) \<and> 0 < length (queuelist q) \<and> length (queuelist q) \<le> 8
     \<and> unat (qcnt q) = length (frames q) \<and> length (frames q) \<le> unat (qmax q)
     \<and> unat (hi_prio q) < length (queuelist q) \<and> (\<forall>p < length (queuelist q). unat (hi_prio q) < p \<longrightarrow> queuelist q ! p = [])"

text \<open>
  What the queue promises: a frame goes behind those of its priority; a full queue refuses it unless it holds a
  frame of a lower priority, whose newest frame of the lowest priority is then replaced.
\<close>

definition spec_enq :: "nat \<Rightarrow> nat \<Rightarrow> 'a \<Rightarrow> (nat \<times> 'a) list \<Rightarrow> bool \<times> 'a list \<times> (nat \<times> 'a) list" where
  "spec_enq cap p x xs =
     (if length xs < cap then (True, [], prio_insert p x xs)
      else if xs = [] \<or> p \<le> fst (last xs) then (False, [], xs)
      else (True, [snd (last xs)], butlast xs @ [(fst (last xs), x)]))"

fun spec_deq :: "(nat \<times> 'a) list \<Rightarrow> 'a option \<times> (nat \<times> 'a) list" where
  "spec_deq [] = (None, [])"
| "spec_deq ((p, x) # xs) = (Some x, xs)"

lemma unat_of_nat_u16: "n < 65536 \<Longrightarrow> unat (of_nat n :: u16) = n"
  by (simp add: unsigned_of_nat take_bit_nat_eq_self)

lemma frames_Nil_iff: "frames_of qs = [] \<longleftrightarrow> (\<forall>p < length qs. qs ! p = [])"
  by (auto simp: frames_of_def prio_part_def)

lemma lower_prio_props:
  "lower_prio qs hi \<le> hi \<and> (\<forall>p. lower_prio qs hi < p \<longrightarrow> p \<le> hi \<longrightarrow> qs ! p = []) \<and> (0 < lower_prio qs hi \<longrightarrow> qs ! lower_prio qs hi \<noteq> [])"
  by (induction hi) (auto simp: le_Suc_eq)

lemma peek_prio_props:
  "prio \<le> hi \<Longrightarrow>
     peek_prio qs hi prio \<le> hi \<and> (\<forall>p. prio \<le> p \<longrightarrow> p < peek_prio qs hi prio \<longrightarrow> qs ! p = [])
     \<and> (peek_prio qs hi prio < hi \<longrightarrow> qs ! peek_prio qs hi prio \<noteq> [])"
proof (induction qs hi prio rule: peek_prio.induct)
  case (1 qs hi prio)
  show ?case
  proof (cases "prio < hi \<and> qs ! prio = []")
    case True
    then have e: "peek_prio qs hi prio = peek_prio qs hi (prio + 1)" by (simp add: peek_prio.simps [of qs hi prio])
    have "qs ! p = []" if "prio \<le> p" "p < peek_prio qs hi (prio + 1)" for p
      using 1(1) [OF True] True that by (cases "p = prio") auto
    then show ?thesis using 1(1) [OF True] True by (simp add: e)
  next
    case False
    then have "peek_prio qs hi prio = prio" by (subst peek_prio.simps) auto
    then show ?thesis using False 1(2) by auto
  qed
qed

lemma fq_init_ok:
  assumes "0 < n" and "n \<le> 8"
  shows "fq_ok (aicwf_frame_queue_init n m)" "frames (aicwf_frame_queue_init n m) = []"
proof -
  have "unat (of_nat n :: u16) = n" using assms by (intro unat_of_nat_u16) simp
  moreover show "frames (aicwf_frame_queue_init n m) = []" by (simp add: frames_def aicwf_frame_queue_init_def frames_Nil_iff)
  ultimately show "fq_ok (aicwf_frame_queue_init n m)" using assms by (auto simp: fq_ok_def aicwf_frame_queue_init_def frames_def)
qed

lemma fq_bounds:
  assumes "fq_ok q"
  shows "unat (hi_prio q) < 8" "length (frames q) < 65536" "qcnt q = 0 \<longleftrightarrow> frames q = []"
proof -
  have "unat (qcnt q) < 2 ^ LENGTH(16)" by (rule unsigned_less)
  then show "unat (hi_prio q) < 8" "length (frames q) < 65536" using assms by (auto simp: fq_ok_def)
  show "qcnt q = 0 \<longleftrightarrow> frames q = []" using assms unfolding fq_ok_def by (metis length_0_conv unsigned_eq_0_iff)
qed

lemma fq_empty: "fq_ok q \<Longrightarrow> aicwf_is_framequeue_empty q \<longleftrightarrow> frames q = []"
proof -
  assume ok: "fq_ok q"
  have "aicwf_is_framequeue_empty q \<longleftrightarrow> (\<forall>p \<le> unat (hi_prio q). queuelist q ! p = [])"
    by (auto simp: aicwf_is_framequeue_empty_def less_Suc_eq_le)
  also have "\<dots> \<longleftrightarrow> (\<forall>p < length (queuelist q). queuelist q ! p = [])"
    using ok unfolding fq_ok_def by (meson le_less_trans not_le)
  finally show ?thesis by (simp add: frames_def frames_Nil_iff)
qed

text \<open>Dequeueing gives the oldest frame of the highest priority.\<close>

lemma fq_dequeue:
  assumes ok: "fq_ok q"
  shows "fst (aicwf_frame_dequeue q) = fst (spec_deq (frames q))" "frames (snd (aicwf_frame_dequeue q)) = snd (spec_deq (frames q))"
    "fq_ok (snd (aicwf_frame_dequeue q))"
proof -
  let ?qs = "queuelist q" and ?r = "aicwf_frame_dequeue q"
  have "fst ?r = fst (spec_deq (frames q)) \<and> frames (snd ?r) = snd (spec_deq (frames q)) \<and> fq_ok (snd ?r)"
  proof (cases "frames q = []")
    case True
    then show ?thesis using ok fq_bounds(3) [OF ok] by (simp add: aicwf_frame_dequeue_def)
  next
    case False
    define p where "p = lower_prio ?qs (unat (hi_prio q))"
    have o: "unat (hi_prio q) < length ?qs" "\<forall>p' < length ?qs. unat (hi_prio q) < p' \<longrightarrow> ?qs ! p' = []" using ok by (simp_all add: fq_ok_def)
    note L = lower_prio_props [of ?qs "unat (hi_prio q)", folded p_def]
    have p: "p \<le> unat (hi_prio q)" "p < length ?qs" "0 < p \<longrightarrow> ?qs ! p \<noteq> []" using L o(1) by simp_all
    have above: "\<forall>p' < length ?qs. p < p' \<longrightarrow> ?qs ! p' = []" using L o(2) by (meson not_le)
    have "?qs ! p \<noteq> []"
    proof (cases "p = 0")
      case True
      then show ?thesis using False above unfolding frames_def frames_Nil_iff by (metis gr0I)
    qed (use p in simp)
    then obtain x l where x: "?qs ! p = x # l" by (cases "?qs ! p") auto
    have h: "frames q = (p, x) # frames_of (?qs[p := l])" using frames_head [OF p(2) above x] by (simp add: frames_def)
    have r: "?r = (Some x, q\<lparr>hi_prio := of_nat p, queuelist := ?qs[p := l], qcnt := qcnt q - 1\<rparr>)"
      using False fq_bounds(3) [OF ok] x by (simp add: aicwf_frame_dequeue_def Let_def flip: p_def)
    have u: "unat (of_nat p :: u16) = p" using p(1) fq_bounds(1) [OF ok] by (intro unat_of_nat_u16) simp
    have "unat (qcnt q - 1) = unat (qcnt q) - 1" using fq_bounds(3) [OF ok] False by (simp add: unat_minus_one)
    then have "fq_ok (snd ?r)" using ok h p above u unfolding fq_ok_def by (simp add: r frames_def nth_list_update)
    moreover have "spec_deq (frames q) = (Some x, frames_of (?qs[p := l]))" by (simp add: h)
    ultimately show ?thesis by (simp add: r frames_def)
  qed
  then show "fst ?r = fst (spec_deq (frames q))" "frames (snd ?r) = snd (spec_deq (frames q))" "fq_ok (snd ?r)" by simp_all
qed

lemma length_prio_insert [simp]: "length (prio_insert p x xs) = Suc (length xs)"
proof -
  have "length (takeWhile P xs) + length (dropWhile P xs) = length xs" for P by (metis length_append takeWhile_dropWhile_id)
  then show ?thesis by (simp add: prio_insert_def)
qed

lemma fq_penq:
  fixes x :: 'a
  assumes ok: "fq_ok q" and p: "p < length (queuelist q)" and room: "length (frames q) < unat (qmax q)"
  defines "q' \<equiv> q\<lparr>queuelist := (queuelist q)[p := queuelist q ! p @ [x]], qcnt := qcnt q + 1,
      hi_prio := (if unat (hi_prio q) < p then of_nat p else hi_prio q)\<rparr>"
  shows "aicwf_frame_queue_penq q p x = Inr (True, q')" "frames q' = prio_insert p x (frames q)" "fq_ok q'"
proof -
  have "length (queuelist q ! p) \<le> length (frames q)" using frames_split [OF p] by (simp add: frames_def)
  then show "aicwf_frame_queue_penq q p x = Inr (True, q')" using p room by (simp add: aicwf_frame_queue_penq_def q'_def array_get_nth)
  show f: "frames q' = prio_insert p x (frames q)" using frames_insert [OF p] by (simp add: frames_def q'_def)
  have "unat (of_nat p :: u16) = p" using p ok by (intro unat_of_nat_u16) (simp add: fq_ok_def)
  moreover have "unat (qcnt q + 1) = Suc (unat (qcnt q))"
  proof -
    have "unat (qmax q) < 2 ^ LENGTH(16)" by (rule unsigned_less)
    then show ?thesis using room ok by (simp add: fq_ok_def unat_word_ariths)
  qed
  ultimately show "fq_ok q'" using ok p room f by (auto simp: fq_ok_def q'_def nth_list_update)
qed

lemma prio_insert_lowest: "\<forall>y \<in> set xs. p \<le> fst y \<Longrightarrow> prio_insert p x xs = xs @ [(p, x)]"
  by (simp add: prio_insert_def)

lemma fq_dequeue_tail:
  assumes ok: "fq_ok q" and ne: "frames q \<noteq> []"
  defines "pm \<equiv> peek_prio (queuelist q) (unat (hi_prio q)) 0"
  defines "q' \<equiv> q\<lparr>queuelist := (queuelist q)[pm := butlast (queuelist q ! pm)], qcnt := qcnt q - 1\<rparr>"
  shows "pm < length (queuelist q)" "fst (last (frames q)) = pm" "aicwf_skb_dequeue_tail q pm = (Some (snd (last (frames q))), q')"
    "frames q' = butlast (frames q)" "fq_ok q'" "\<forall>y \<in> set (frames q). pm \<le> fst y"
    "snd (aicwf_frame_queue_peek_tail q) = Some pm"
proof -
  let ?qs = "queuelist q"
  note P = peek_prio_props [of 0 "unat (hi_prio q)" ?qs, folded pm_def, simplified]
  have o: "unat (hi_prio q) < length ?qs" "\<forall>p < length ?qs. unat (hi_prio q) < p \<longrightarrow> ?qs ! p = []" using ok by (simp_all add: fq_ok_def)
  show l: "pm < length ?qs" using P o(1) by simp
  have n: "?qs ! pm \<noteq> []"
  proof
    assume e: "?qs ! pm = []"
    then have "pm = unat (hi_prio q)" using P by (metis le_neq_implies_less)
    then have "\<forall>p < length ?qs. ?qs ! p = []" using P o(2) e by (metis linorder_cases)
    then show False using ne by (simp add: frames_def frames_Nil_iff)
  qed
  have b: "\<forall>p < pm. ?qs ! p = []" using P by simp
  have t: "frames q = frames_of (?qs[pm := butlast (?qs ! pm)]) @ [(pm, last (?qs ! pm))]" using frames_tail [OF l b n] by (simp add: frames_def)
  then show "fst (last (frames q)) = pm" "aicwf_skb_dequeue_tail q pm = (Some (snd (last (frames q))), q')"
    "frames q' = butlast (frames q)" using n by (simp_all add: aicwf_skb_dequeue_tail_def Let_def q'_def frames_def)
  have "unat (qcnt q - 1) = unat (qcnt q) - 1" using fq_bounds(3) [OF ok] ne by (simp add: unat_minus_one)
  moreover have "length (frames q) = Suc (length (frames q'))" using t by (simp add: q'_def frames_def)
  ultimately show "fq_ok q'" using ok l o by (auto simp: fq_ok_def q'_def nth_list_update)
  show "\<forall>y \<in> set (frames q). pm \<le> fst y"
    using frames_above_prio [of _ ?qs pm] frames_below_Nil [OF b] by (auto simp: frames_def frames_split [OF l] less_imp_le)
  show "snd (aicwf_frame_queue_peek_tail q) = Some pm"
    using fq_bounds(3) [OF ok] ne by (simp add: aicwf_frame_queue_peek_tail_def Let_def flip: pm_def)
qed

lemma fq_enq:
  assumes ok: "fq_ok q" and p: "p < length (queuelist q)"
  shows "\<exists>res gone q'. aicwf_frame_enq q x p = Inr (res, gone, q') \<and> fq_ok q' \<and> qmax q' = qmax q \<and> length (queuelist q') = length (queuelist q)
    \<and> (res, gone, frames q') = spec_enq (unat (qmax q)) p x (frames q)"
proof -
  let ?l = "queuelist q ! p"
  have le: "length ?l \<le> length (frames q)" using frames_split [OF p] by (simp add: frames_def)
  have c: "unat (qcnt q) = length (frames q)" "length (frames q) \<le> unat (qmax q)" using ok by (simp_all add: fq_ok_def)
  consider (room) "length (frames q) < unat (qmax q)" | (own) "length (frames q) = unat (qmax q)" "length ?l = unat (qmax q)"
    | (full) "length (frames q) = unat (qmax q)" "length ?l < unat (qmax q)" using c le by linarith
  then show ?thesis
  proof cases
    case room
    then show ?thesis
      using fq_penq [OF ok p room, of x] le c p by (auto simp: aicwf_frame_enq_def array_get_nth spec_enq_def word_less_nat_alt)
  next
    case own
    then have "frames_above (queuelist q) p = []" "frames_below (queuelist q) p = []" using frames_split [OF p] by (simp_all add: frames_def)
    then have "frames q = map (Pair p) ?l" using frames_split [OF p] by (simp add: frames_def)
    then have "spec_enq (unat (qmax q)) p x (frames q) = (False, [], frames q)" using own by (cases "?l = []") (auto simp: spec_enq_def last_map)
    moreover have "aicwf_frame_enq q x p = Inr (False, [], q)" using own p by (simp add: aicwf_frame_enq_def array_get_nth)
    ultimately show ?thesis using ok by metis
  next
    case full
    then have ne: "frames q \<noteq> []" by auto
    define pm where "pm = peek_prio (queuelist q) (unat (hi_prio q)) 0"
    define q1 where "q1 = q\<lparr>queuelist := (queuelist q)[pm := butlast (queuelist q ! pm)], qcnt := qcnt q - 1\<rparr>"
    note T = fq_dequeue_tail [OF ok ne, folded pm_def, folded q1_def]
    obtain t where t: "aicwf_frame_queue_peek_tail q = (t, Some pm)" using T(7) by (cases "aicwf_frame_queue_peek_tail q") simp
    have e: "aicwf_frame_enq q x p =
        (if pm > p \<or> pm = p then Inr (False, [], q)
         else case aicwf_frame_queue_penq q1 pm x of Inl e \<Rightarrow> Inl e | Inr (ok, q2) \<Rightarrow> Inr (ok, [snd (last (frames q))], q2))"
      using full p c by (simp add: aicwf_frame_enq_def array_get_nth t T(3) word_less_nat_alt split: sum.split)
    show ?thesis
    proof (cases "p \<le> pm")
      case True
      then show ?thesis using e ok full T(2) by (auto simp: spec_enq_def)
    next
      case False
      have l1: "pm < length (queuelist q1)" using T(1) by (simp add: q1_def)
      have room: "length (frames q1) < unat (qmax q1)" using T(4) full ne by (simp add: q1_def)
      have low: "prio_insert pm x (frames q1) = butlast (frames q) @ [(pm, x)]"
        using T(4, 6) by (intro prio_insert_lowest [THEN trans]) (auto dest: in_set_butlastD)
      then show ?thesis using e False fq_penq [OF T(5) l1 room, of x] full T(2) ne by (auto simp: spec_enq_def q1_def)
    qed
  qed
qed

lemma fq_flush:
  assumes "fq_ok q"
  shows "frames (snd (aicwf_frame_queue_flush q)) = []" "fq_ok (snd (aicwf_frame_queue_flush q))"
    "mset (fst (aicwf_frame_queue_flush q)) = mset (map snd (frames q))"
proof -
  let ?qs = "queuelist q" and ?r = "aicwf_frame_queue_flush q"
  have n: "unat (num_prio q) = length ?qs" using assms by (simp add: fq_ok_def)
  then have r: "?r = (concat ?qs, q\<lparr>queuelist := replicate (length ?qs) [], qcnt := qcnt q - of_nat (length (concat ?qs))\<rparr>)"
    by (simp add: aicwf_frame_queue_flush_def Let_def)
  show f: "frames (snd ?r) = []" by (simp add: r frames_def frames_Nil_iff)
  have "length (concat ?qs) = unat (qcnt q)" using assms by (simp add: fq_ok_def frames_def length_frames length_concat)
  then have "qcnt q - of_nat (length (concat ?qs)) = 0" by simp
  then show "fq_ok (snd ?r)" using assms f by (simp add: fq_ok_def r)
  have "mset (concat qs) = mset (map snd (frames_of qs))" for qs :: "'a list list"
  proof -
    have "mset (map snd (frames_of qs)) = mset (concat (map (\<lambda>p. qs ! p) (rev [0 ..< length qs])))"
      by (simp add: frames_of_def map_concat comp_def prio_part_def)
    also have "\<dots> = mset (concat (map (\<lambda>p. qs ! p) [0 ..< length qs]))"
      by (simp add: mset_concat rev_map [symmetric])
    finally show ?thesis by (simp add: map_nth)
  qed
  then show "mset (fst ?r) = mset (map snd (frames q))" by (simp add: r frames_def)
qed

text \<open>C20: The frame queue implements its abstract specification. On every well-formed queue a new frame is put behind
  those of its priority while there is room; a full queue refuses it, or drops the newest frame of its lowest
  priority and puts the new frame into that place (at the lower priority, as the code does); dequeueing gives the
  oldest frame of the highest priority; the test for emptiness is exact; and a flush frees every frame. All of
  these keep the queue well formed, as it is after initialisation.\<close>

theorem frame_queue_refines:
  assumes "fq_ok q" and "p < length (queuelist q)"
  shows "(\<exists>res gone q'. aicwf_frame_enq q x p = Inr (res, gone, q') \<and> fq_ok q' \<and> (res, gone, frames q') = spec_enq (unat (qmax q)) p x (frames q))
    \<and> map_prod id frames (aicwf_frame_dequeue q) = spec_deq (frames q) \<and> fq_ok (snd (aicwf_frame_dequeue q))
    \<and> (aicwf_is_framequeue_empty q \<longleftrightarrow> frames q = [])
    \<and> frames (snd (aicwf_frame_queue_flush q)) = [] \<and> fq_ok (snd (aicwf_frame_queue_flush q))
    \<and> mset (fst (aicwf_frame_queue_flush q)) = mset (map snd (frames q))
    \<and> (\<forall>n m. 0 < n \<and> n \<le> 8 \<longrightarrow> fq_ok (aicwf_frame_queue_init n m :: 'a frame_queue) \<and> frames (aicwf_frame_queue_init n m :: 'a frame_queue) = [])"
proof -
  have "map_prod id frames (aicwf_frame_dequeue q) = spec_deq (frames q)" using fq_dequeue [OF assms(1)] by (simp add: prod_eq_iff)
  then show ?thesis using fq_enq [OF assms, of x] fq_dequeue [OF assms(1)] fq_empty [OF assms(1)] fq_flush [OF assms(1)] fq_init_ok by blast
qed

text \<open>A full queue with one frame of priority 1 and one of priority 0.\<close>

definition ex_fq :: "nat frame_queue" where
  "ex_fq = \<lparr>num_prio = 8, hi_prio = 1, qmax = 2, qcnt = 2, queuelist = [[10], [20], [], [], [], [], [], []]\<rparr>"

lemma ex_fq_ok: "fq_ok ex_fq" "frames ex_fq = [(1, 20), (0, 10)]" "5 < length (queuelist ex_fq)"
proof -
  have u: "[0 ..< 8] = [0, 1, 2, 3, 4, 5, 6, 7 :: nat]" by (simp add: upt_rec)
  show f: "frames ex_fq = [(1, 20), (0, 10)]" by (simp add: ex_fq_def frames_def frames_of_def prio_part_def u)
  show "5 < length (queuelist ex_fq)" by (simp add: ex_fq_def)
  have "\<forall>p < 8. 1 < p \<longrightarrow> [[10], [20], [], [], [], [], [], []] ! p = ([] :: nat list)"
  proof (intro allI impI)
    fix p :: nat
    assume "p < 8" "1 < p"
    then have "p \<in> {2, 3, 4, 5, 6, 7}" by auto
    then show "[[10], [20], [], [], [], [], [], []] ! p = ([] :: nat list)" by auto
  qed
  then show "fq_ok ex_fq" using f by (simp add: fq_ok_def ex_fq_def)
qed

theorem frame_queue_refines_witness:
  "\<exists>q'. aicwf_frame_enq ex_fq 99 5 = Inr (True, [10], q') \<and> fq_ok q' \<and> frames q' = [(1, 20), (0, 99)]"
proof -
  have "unat (qmax ex_fq) = 2" by (simp add: ex_fq_def)
  then have "spec_enq (unat (qmax ex_fq)) 5 99 (frames ex_fq) = (True, [10], [(1, 20), (0, 99)])" by (simp add: ex_fq_ok(2) spec_enq_def)
  then show ?thesis using frame_queue_refines [OF ex_fq_ok(1, 3), of 99] by auto
qed

section \<open>The receive queue as a buffer\<close>

text \<open>
  The contract of a bounded first-in first-out buffer, as the receive path uses the queue: it accepts a frame while
  there is room, refuses it without effect when full, and gives the frames back in order.
\<close>

locale fifo_buffer =
  fixes ok :: "'q \<Rightarrow> bool" and cap :: "'q \<Rightarrow> nat" and items :: "'q \<Rightarrow> 'a list"
    and enq :: "'q \<Rightarrow> 'a \<Rightarrow> fault + bool \<times> 'a list \<times> 'q" and deq :: "'q \<Rightarrow> 'a option \<times> 'q" and is_empty :: "'q \<Rightarrow> bool"
  assumes enq_room: "ok q \<Longrightarrow> length (items q) < cap q \<Longrightarrow> \<exists>q'. enq q x = Inr (True, [], q') \<and> ok q' \<and> cap q' = cap q \<and> items q' = items q @ [x]"
    and enq_full: "ok q \<Longrightarrow> length (items q) = cap q \<Longrightarrow> \<exists>q'. enq q x = Inr (False, [], q') \<and> ok q' \<and> cap q' = cap q \<and> items q' = items q"
    and bounded: "ok q \<Longrightarrow> length (items q) \<le> cap q"
    and deq_next: "ok q \<Longrightarrow> items q = x # xs \<Longrightarrow> \<exists>q'. deq q = (Some x, q') \<and> ok q' \<and> cap q' = cap q \<and> items q' = xs"
    and empty_iff: "ok q \<Longrightarrow> is_empty q \<longleftrightarrow> items q = []"
begin

lemma enq_cases:
  assumes "ok q"
  obtains q' where "enq q x = Inr (length (items q) < cap q, [], q')" "ok q'" "cap q' = cap q"
    "items q' = (if length (items q) < cap q then items q @ [x] else items q)"
  using enq_room [OF assms] enq_full [OF assms] bounded [OF assms] by (cases "length (items q) < cap q") (auto simp: le_less)

lemma deq_cases:
  assumes "ok q" and "\<not> is_empty q"
  obtains x xs q' where "items q = x # xs" "deq q = (Some x, q')" "ok q'" "cap q' = cap q" "items q' = xs"
proof -
  obtain x xs where i: "items q = x # xs" using assms empty_iff by (cases "items q") auto
  show ?thesis using deq_next [OF assms(1) i] that i by blast
qed

end

definition rxq_ok :: "'a frame_queue \<Rightarrow> bool" where
  "rxq_ok q \<longleftrightarrow> fq_ok q \<and> length (queuelist q) = 1"

definition rxq_cap :: "'a frame_queue \<Rightarrow> nat" where
  "rxq_cap q = unat (qmax q)"

definition rxq_items :: "'a frame_queue \<Rightarrow> 'a list" where
  "rxq_items q = map snd (frames q)"

lemma rxq_prio: "rxq_ok q \<Longrightarrow> y \<in> set (frames q) \<Longrightarrow> fst y = 0"
  by (auto simp: rxq_ok_def frames_def frames_of_def prio_part_def)

lemma dequeue_frame: "qmax (snd (aicwf_frame_dequeue q)) = qmax q \<and> length (queuelist (snd (aicwf_frame_dequeue q))) = length (queuelist q)"
  by (simp add: aicwf_frame_dequeue_def Let_def split: list.split)

interpretation rxq: fifo_buffer rxq_ok rxq_cap rxq_items aicwf_rxframe_enqueue aicwf_frame_dequeue aicwf_is_framequeue_empty
proof
  fix q :: "'a frame_queue" and x :: 'a
  assume q: "rxq_ok q"
  then have ok: "fq_ok q" "0 < length (queuelist q)" by (simp_all add: rxq_ok_def)
  obtain res gone q' where e: "aicwf_frame_enq q x 0 = Inr (res, gone, q')" "fq_ok q'" "qmax q' = qmax q" "length (queuelist q') = length (queuelist q)"
      "(res, gone, frames q') = spec_enq (unat (qmax q)) 0 x (frames q)"
    using fq_enq [OF ok] by blast
  have i: "prio_insert 0 x (frames q) = frames q @ [(0, x)]" by (rule prio_insert_lowest) simp
  show "\<exists>q'. aicwf_rxframe_enqueue q x = Inr (True, [], q') \<and> rxq_ok q' \<and> rxq_cap q' = rxq_cap q \<and> rxq_items q' = rxq_items q @ [x]"
    if "length (rxq_items q) < rxq_cap q"
    using e q that i by (auto simp: aicwf_rxframe_enqueue_def rxq_ok_def rxq_cap_def rxq_items_def spec_enq_def)
  show "\<exists>q'. aicwf_rxframe_enqueue q x = Inr (False, [], q') \<and> rxq_ok q' \<and> rxq_cap q' = rxq_cap q \<and> rxq_items q' = rxq_items q"
    if "length (rxq_items q) = rxq_cap q"
    using e q that by (auto simp: aicwf_rxframe_enqueue_def rxq_ok_def rxq_cap_def rxq_items_def spec_enq_def)
  show "length (rxq_items q) \<le> rxq_cap q" using ok(1) by (simp add: rxq_items_def rxq_cap_def fq_ok_def)
  show "aicwf_is_framequeue_empty q \<longleftrightarrow> rxq_items q = []" using fq_empty [OF ok(1)] by (simp add: rxq_items_def)
  fix xs
  assume "rxq_items q = x # xs"
  then obtain p fs where f: "frames q = (p, x) # fs" "xs = map snd fs" by (cases "frames q") (auto simp: rxq_items_def)
  then show "\<exists>q'. aicwf_frame_dequeue q = (Some x, q') \<and> rxq_ok q' \<and> rxq_cap q' = rxq_cap q \<and> rxq_items q' = xs"
    using fq_dequeue [OF ok(1)] dequeue_frame [of q] q
    by (cases "aicwf_frame_dequeue q") (simp add: rxq_ok_def rxq_cap_def rxq_items_def)
qed

lemma rxq_init: "rxq_ok (aicwf_frame_queue_init 1 m)" "rxq_items (aicwf_frame_queue_init 1 m) = []"
  using fq_init_ok [of 1 m] by (simp_all add: rxq_ok_def rxq_items_def) (simp add: aicwf_frame_queue_init_def)

end
