(* ===== verification/RxFrames.thy ===== *)
theory RxFrames
  imports FrameQueue RxReorder
begin

text \<open>
  The receive path between the USB bus and the handlers (aicwf_txrxif.c \<open>aicwf_process_rxframes\<close> and
  \<open>aicwf_process_msg_rxframes\<close>, aicwf_usb.c \<open>aicwf_usb_rx_complete\<close> and the receive threads): a transfer holds one
  frame, or several behind each other when the chip aggregates; data frames go to the receive handler, configuration
  frames to the handlers of messages, confirmations and firmware prints. The built configuration has neither
  CONFIG_PREALLOC_RX_SKB nor CONFIG_USB_RX_REASSEMBLE nor CONFIG_RX_TASKLET.
\<close>

section \<open>State\<close>

text \<open>A socket buffer with the bytes of its memory that lie behind its data.\<close>

record rx_skb =
  sb_data :: "u8 list"
  sb_room :: "u8 list"

datatype bus_event =
    RxDataInd "u8 list"
  | HandleMsg "u8 list"
  | TxCfmInd "u8 list"
  | HandlePrint "u8 list" nat
  | SkbFree rx_skb

text \<open>\<open>rb_cnt\<close> is \<open>rx_cnt\<close>, \<open>rb_trgg\<close> counts the completions that the thread has not yet taken, \<open>rb_allocs\<close> the allocations made.\<close>

record rx_bus =
  rb_q :: "rx_skb frame_queue"
  rb_cnt :: int
  rb_trgg :: nat
  rb_allocs :: nat
  rb_log :: "bus_event list"

text \<open>
  What the path depends on: whether the chip aggregates (\<open>aicwf_usb_rx_aggr\<close>), whether the bus is marked down, and
  which allocations succeed.
\<close>

record rx_env =
  ee_aggr :: bool
  ee_down :: bool
  ee_alloc :: "nat \<Rightarrow> bool"

abbreviation (input) RX_HWHRD_LEN :: u16 where "RX_HWHRD_LEN \<equiv> 60"
abbreviation (input) MAX_RXQLEN :: nat where "MAX_RXQLEN \<equiv> 2000"
abbreviation (input) USB_TYPE_CFG :: u8 where "USB_TYPE_CFG \<equiv> 0x10"
abbreviation (input) USB_TYPE_CFG_CMD_RSP :: u8 where "USB_TYPE_CFG_CMD_RSP \<equiv> 0x11"
abbreviation (input) USB_TYPE_CFG_DATA_CFM :: u8 where "USB_TYPE_CFG_DATA_CFM \<equiv> 0x12"
abbreviation (input) USB_TYPE_CFG_PRINT :: u8 where "USB_TYPE_CFG_PRINT \<equiv> 0x13"

definition bus_emit :: "bus_event list \<Rightarrow> rx_bus \<Rightarrow> rx_bus" where
  "bus_emit es b = b\<lparr>rb_log := rb_log b @ es\<rparr>"

section \<open>One frame\<close>

definition sb_mem :: "rx_skb \<Rightarrow> u8 list" where
  "sb_mem s = sb_data s @ sb_room s"

definition sb_pull :: "nat \<Rightarrow> rx_skb \<Rightarrow> rx_skb" where
  "sb_pull n s = s\<lparr>sb_data := skb_pull (sb_data s) n\<rparr>"

text \<open>The first three bytes: the length and the type of the frame.\<close>

definition frame_head :: "rx_skb \<Rightarrow> fault + u16 \<times> u8" where
  "frame_head s = (if length (sb_mem s) < 3 then Inl OutOfBounds else Inr (get_u16 (sb_mem s ! 0) (sb_mem s ! 1), sb_mem s ! 2))"

definition memcpy_from :: "rx_skb \<Rightarrow> nat \<Rightarrow> fault + u8 list" where
  "memcpy_from s n = (if length (sb_mem s) < n then Inl OutOfBounds else Inr (take n (sb_mem s)))"

definition is_data :: "u8 \<Rightarrow> bool" where
  "is_data ty \<longleftrightarrow> ty AND USB_TYPE_CFG \<noteq> USB_TYPE_CFG"

definition aicwf_another_ptk :: "rx_skb \<Rightarrow> bool" where
  "aicwf_another_ptk s \<longleftrightarrow> \<not> length (sb_data s) < 2 \<and> get_u16 (sb_data s ! 0) (sb_data s ! 1) \<noteq> 0"

definition adjust_len :: "u16 \<Rightarrow> u16" where
  "adjust_len aggr_len = (if aggr_len AND 3 \<noteq> 0 then of_nat (roundup4 (unat aggr_len)) else aggr_len)"

text \<open>The handlers of a configuration frame; \<open>msg\<close> is the copy with its header of four bytes.\<close>

definition cfg_events :: "bool \<Rightarrow> u8 list \<Rightarrow> u16 \<Rightarrow> bus_event list" where
  "cfg_events down msg aggr_len =
     (let ty = msg ! 2 AND 0x7f in
      (if ty = USB_TYPE_CFG_CMD_RSP \<and> \<not> down then [HandleMsg (drop 4 msg)] else [])
      @ (if ty = USB_TYPE_CFG_DATA_CFM then [TxCfmInd (drop 4 msg)] else [])
      @ (if ty = USB_TYPE_CFG_PRINT then [HandlePrint (drop 4 msg) (unat aggr_len)] else []))"

text \<open>The next allocation.\<close>

definition try_alloc :: "rx_env \<Rightarrow> rx_bus \<Rightarrow> bool \<times> rx_bus" where
  "try_alloc e b = (ee_alloc e (rb_allocs b), b\<lparr>rb_allocs := rb_allocs b + 1\<rparr>)"

text \<open>A configuration frame: \<open>None\<close> when there is no memory for the copy.\<close>

definition rx_config :: "rx_env \<Rightarrow> rx_skb \<Rightarrow> u16 \<Rightarrow> rx_bus \<Rightarrow> fault + rx_bus option \<times> rx_bus" where
  "rx_config e s aggr_len b =
     (case try_alloc e b of
        (False, b1) \<Rightarrow> Inr (None, b1)
      | (True, b1) \<Rightarrow>
          (case memcpy_from s (unat aggr_len + 4) of
             Inl f \<Rightarrow> Inl f
           | Inr msg \<Rightarrow> Inr (Some (bus_emit (cfg_events (ee_down e) msg aggr_len) b1), b1)))"

section \<open>Aggregated transfers\<close>

text \<open>
  The inner loop over the frames of a transfer. The flag of the result says that the function returns with
  \<open>-EBADE\<close>; \<open>None\<close> means that the fuel is used up.
\<close>

fun aggr_loop :: "nat \<Rightarrow> rx_env \<Rightarrow> rx_skb \<Rightarrow> rx_bus \<Rightarrow> (fault + bool \<times> rx_skb \<times> rx_bus) option" where
  "aggr_loop 0 e s b = None"
| "aggr_loop (Suc fuel) e s b =
     (if \<not> aicwf_another_ptk s then Some (Inr (False, s, b))
      else
        (case frame_head s of
           Inl f \<Rightarrow> Some (Inl f)
         | Inr (pkt_len, ty) \<Rightarrow>
             if unat pkt_len > length (sb_data s) then Some (Inr (False, s, b))
             else if is_data ty then
               let aggr_len = pkt_len + RX_HWHRD_LEN in
               (case try_alloc e b of
                  (False, b1) \<Rightarrow> aggr_loop fuel e (sb_pull (unat aggr_len) s) b1
                | (True, b1) \<Rightarrow>
                    (case memcpy_from s (unat aggr_len) of
                       Inl f \<Rightarrow> Some (Inl f)
                     | Inr d \<Rightarrow> aggr_loop fuel e (sb_pull (unat aggr_len) s) (bus_emit [RxDataInd d] b1)))
             else
               (case rx_config e s pkt_len b of
                  Inl f \<Rightarrow> Some (Inl f)
                | Inr (None, b1) \<Rightarrow> Some (Inr (True, s, b1))
                | Inr (Some b2, _) \<Rightarrow> aggr_loop fuel e (sb_pull (unat (adjust_len pkt_len) + 4) s) b2)))"

section \<open>The work of the receive thread on one transfer\<close>

text \<open>The result says whether the function goes on with the next transfer.\<close>

definition rx_aggr_skb :: "nat \<Rightarrow> rx_env \<Rightarrow> rx_skb \<Rightarrow> rx_bus \<Rightarrow> (fault + bool \<times> rx_bus) option" where
  "rx_aggr_skb fuel e s b =
     (case aggr_loop fuel e s b of
        None \<Rightarrow> None
      | Some (Inl f) \<Rightarrow> Some (Inl f)
      | Some (Inr (True, s', b1)) \<Rightarrow> Some (Inr (False, bus_emit [SkbFree s'] b1))
      | Some (Inr (False, s', b1)) \<Rightarrow> Some (Inr (True, (bus_emit [SkbFree s'] b1)\<lparr>rb_cnt := rb_cnt b1 - 1\<rparr>)))"

definition rx_single_skb :: "rx_env \<Rightarrow> rx_skb \<Rightarrow> rx_bus \<Rightarrow> fault + bool \<times> rx_bus" where
  "rx_single_skb e s b =
     (case frame_head s of
        Inl f \<Rightarrow> Inl f
      | Inr (pkt_len, ty) \<Rightarrow>
          if unat pkt_len > length (sb_data s) then Inr (True, (bus_emit [SkbFree s] b)\<lparr>rb_cnt := rb_cnt b - 1\<rparr>)
          else if is_data ty then Inr (True, (bus_emit [RxDataInd (sb_data s)] b)\<lparr>rb_cnt := rb_cnt b - 1\<rparr>)
          else
            (case rx_config e s pkt_len b of
               Inl f \<Rightarrow> Inl f
             | Inr (None, b1) \<Rightarrow> Inr (False, bus_emit [SkbFree s] b1)
             | Inr (Some b2, _) \<Rightarrow>
                 Inr (True, (bus_emit [SkbFree (sb_pull (unat (adjust_len pkt_len) + 4) s)] b2)\<lparr>rb_cnt := rb_cnt b2 - 1\<rparr>)))"

definition rx_one_skb :: "nat \<Rightarrow> rx_env \<Rightarrow> rx_skb \<Rightarrow> rx_bus \<Rightarrow> (fault + bool \<times> rx_bus) option" where
  "rx_one_skb fuel e s b = (if ee_aggr e then rx_aggr_skb fuel e s b else Some (rx_single_skb e s b))"

fun aicwf_process_rxframes :: "nat \<Rightarrow> rx_env \<Rightarrow> rx_bus \<Rightarrow> (fault + rx_bus) option" where
  "aicwf_process_rxframes 0 e b = None"
| "aicwf_process_rxframes (Suc fuel) e b =
     (if aicwf_is_framequeue_empty (rb_q b) then Some (Inr b)
      else
        (case aicwf_frame_dequeue (rb_q b) of
           (None, q) \<Rightarrow> Some (Inr (b\<lparr>rb_q := q\<rparr>))
         | (Some s, q) \<Rightarrow>
             (case rx_one_skb fuel e s (b\<lparr>rb_q := q\<rparr>) of
                None \<Rightarrow> None
              | Some (Inl f) \<Rightarrow> Some (Inl f)
              | Some (Inr (False, b1)) \<Rightarrow> Some (Inr b1)
              | Some (Inr (True, b1)) \<Rightarrow> aicwf_process_rxframes fuel e b1)))"

section \<open>Messages from their own endpoint\<close>

text \<open>
  The work on one transfer of the message endpoint (CONFIG_USB_MSG_IN_EP), whose queue, counter and completion are
  those of another \<open>rx_bus\<close>. A data frame for which there is no memory is neither freed nor counted down.
\<close>

definition msg_one_skb :: "rx_env \<Rightarrow> rx_skb \<Rightarrow> rx_bus \<Rightarrow> fault + bool \<times> rx_bus" where
  "msg_one_skb e s b =
     (case frame_head s of
        Inl f \<Rightarrow> Inl f
      | Inr (pkt_len, ty) \<Rightarrow>
          if is_data ty then
            let aggr_len = pkt_len + RX_HWHRD_LEN; s' = sb_pull (unat (adjust_len aggr_len)) s in
            (case try_alloc e b of
               (False, b1) \<Rightarrow> Inr (True, b1)
             | (True, b1) \<Rightarrow>
                 (case memcpy_from s (unat aggr_len) of
                    Inl f \<Rightarrow> Inl f
                  | Inr d \<Rightarrow> Inr (True, (bus_emit [RxDataInd d, SkbFree s'] b1)\<lparr>rb_cnt := rb_cnt b1 - 1\<rparr>)))
          else
            (case rx_config e s pkt_len b of
               Inl f \<Rightarrow> Inl f
             | Inr (None, b1) \<Rightarrow> Inr (False, bus_emit [SkbFree s] b1)
             | Inr (Some b2, _) \<Rightarrow>
                 Inr (True, (bus_emit [SkbFree (sb_pull (unat (adjust_len pkt_len) + 4) s)] b2)\<lparr>rb_cnt := rb_cnt b2 - 1\<rparr>)))"

fun aicwf_process_msg_rxframes :: "nat \<Rightarrow> rx_env \<Rightarrow> rx_bus \<Rightarrow> (fault + rx_bus) option" where
  "aicwf_process_msg_rxframes 0 e b = None"
| "aicwf_process_msg_rxframes (Suc fuel) e b =
     (if aicwf_is_framequeue_empty (rb_q b) then Some (Inr b)
      else
        (case aicwf_frame_dequeue (rb_q b) of
           (None, q) \<Rightarrow> Some (Inr (b\<lparr>rb_q := q\<rparr>))
         | (Some s, q) \<Rightarrow>
             (case msg_one_skb e s (b\<lparr>rb_q := q\<rparr>) of
                Inl f \<Rightarrow> Some (Inl f)
              | Inr (False, b1) \<Rightarrow> Some (Inr b1)
              | Inr (True, b1) \<Rightarrow> aicwf_process_msg_rxframes fuel e b1)))"

section \<open>Transfers that arrive\<close>

definition rx_bus_init :: rx_bus where
  "rx_bus_init = \<lparr>rb_q = aicwf_frame_queue_init 1 MAX_RXQLEN, rb_cnt = 0, rb_trgg = 0, rb_allocs = 0, rb_log = []\<rparr>"

text \<open>The three parts of a completed transfer: queueing, counting, and waking the thread. The first says whether the others follow.\<close>

definition rx_complete_enqueue :: "rx_skb \<Rightarrow> rx_bus \<Rightarrow> fault + bool \<times> rx_bus" where
  "rx_complete_enqueue s b =
     (case aicwf_rxframe_enqueue (rb_q b) s of
        Inl f \<Rightarrow> Inl f
      | Inr (False, gone, q) \<Rightarrow> Inr (False, bus_emit (map SkbFree gone @ [SkbFree s]) (b\<lparr>rb_q := q\<rparr>))
      | Inr (True, gone, q) \<Rightarrow> Inr (True, bus_emit (map SkbFree gone) (b\<lparr>rb_q := q\<rparr>)))"

definition rx_complete_count :: "rx_bus \<Rightarrow> rx_bus" where
  "rx_complete_count b = b\<lparr>rb_cnt := rb_cnt b + 1\<rparr>"

definition rx_complete_wake :: "rx_bus \<Rightarrow> rx_bus" where
  "rx_complete_wake b = (if rb_cnt b = 1 then b\<lparr>rb_trgg := rb_trgg b + 1\<rparr> else b)"

text \<open>A completed transfer; \<open>up\<close> is whether the USB state is \<open>USB_UP_ST\<close>.\<close>

definition aicwf_usb_rx_complete :: "bool \<Rightarrow> rx_skb \<Rightarrow> rx_bus \<Rightarrow> fault + rx_bus" where
  "aicwf_usb_rx_complete up s b =
     (if \<not> up then Inr (bus_emit [SkbFree s] b) else
      case rx_complete_enqueue s b of
        Inl f \<Rightarrow> Inl f
      | Inr (False, b1) \<Rightarrow> Inr b1
      | Inr (True, b1) \<Rightarrow> Inr (rx_complete_wake (rx_complete_count b1)))"

text \<open>The message endpoint wakes its thread for every transfer.\<close>

definition aicwf_usb_msg_rx_complete :: "bool \<Rightarrow> rx_skb \<Rightarrow> rx_bus \<Rightarrow> fault + rx_bus" where
  "aicwf_usb_msg_rx_complete up s b =
     (if \<not> up then Inr (bus_emit [SkbFree s] b) else
      case rx_complete_enqueue s b of
        Inl f \<Rightarrow> Inl f
      | Inr (False, b1) \<Rightarrow> Inr b1
      | Inr (True, b1) \<Rightarrow> Inr ((rx_complete_count b1)\<lparr>rb_trgg := rb_trgg b1 + 1\<rparr>))"

end
