(* ===== verification/RxPump.thy ===== *)
theory RxPump
  imports RxFrames
begin

text \<open>
  What the receive path guarantees: an aggregated transfer is taken apart into exactly its frames, a frame that
  claims more bytes than the transfer has makes the loop run forever, and the hand-over between the bus and the
  receive thread loses no wake-up unless an allocation for a configuration frame fails.
\<close>

section \<open>Aggregated transfers\<close>

text \<open>A frame on the wire: a data frame of header and payload, or a configuration frame with its padding.\<close>

datatype wire_frame = WData "u8 list" | WCfg "u8 list" "u8 list"

fun wire_ok :: "wire_frame \<Rightarrow> bool" where
  "wire_ok (WData d) \<longleftrightarrow>
     60 < length d \<and> length d < 65536 \<and> get_u16 (d ! 0) (d ! 1) = of_nat (length d - 60) \<and> is_data (d ! 2)"
| "wire_ok (WCfg m pad) \<longleftrightarrow>
     4 < length m \<and> length m < 65536 \<and> get_u16 (m ! 0) (m ! 1) = of_nat (length m - 4) \<and> \<not> is_data (m ! 2)
     \<and> length pad = roundup4 (length m - 4) - (length m - 4)"

fun wire_bytes :: "wire_frame \<Rightarrow> u8 list" where
  "wire_bytes (WData d) = d"
| "wire_bytes (WCfg m pad) = m @ pad"

fun wire_events :: "bool \<Rightarrow> wire_frame \<Rightarrow> bus_event list" where
  "wire_events down (WData d) = [RxDataInd d]"
| "wire_events down (WCfg m pad) = cfg_events down m (of_nat (length m - 4))"

lemma roundup4_ge: "n \<le> roundup4 n" "roundup4 n < n + 4" "n mod 4 = 0 \<Longrightarrow> roundup4 n = n"
proof -
  show "n \<le> roundup4 n" "roundup4 n < n + 4" unfolding roundup4_def by presburger+
  show "n mod 4 = 0 \<Longrightarrow> roundup4 n = n" unfolding roundup4_def by presburger
qed

lemma unat_adjust_len:
  assumes "n < 65532"
  shows "unat (adjust_len (of_nat n)) = roundup4 n"
proof -
  have u: "unat (of_nat n :: u16) = n" "unat (of_nat (roundup4 n) :: u16) = roundup4 n"
    using assms roundup4_ge(2) [of n] by (simp_all add: unat_of_nat_u16)
  have "(of_nat n :: u16) AND 3 = take_bit 2 (of_nat n)" by (simp add: take_bit_eq_mask mask_eq_exp_minus_1)
  then have "unat ((of_nat n :: u16) AND 3) = take_bit 2 (unat (of_nat n :: u16))" by (simp only: unsigned_take_bit_eq)
  then have "unat ((of_nat n :: u16) AND 3) = n mod 4" by (simp only: u(1) take_bit_eq_mod) simp
  then have "(of_nat n :: u16) AND 3 = 0 \<longleftrightarrow> n mod 4 = 0" by (metis unsigned_eq_0_iff)
  then show ?thesis using u roundup4_ge(3) [of n] by (auto simp: adjust_len_def)
qed

lemma sb_pull_append: "sb_pull n \<lparr>sb_data = xs @ ys, sb_room = r\<rparr> = \<lparr>sb_data = ys, sb_room = r\<rparr>" if "n = length xs"
  using that by (simp add: sb_pull_def skb_pull_def)

text \<open>The head of a frame that starts with the bytes \<open>d\<close>.\<close>

lemma frame_start:
  assumes "4 < length d" and "get_u16 (d ! 0) (d ! 1) = of_nat n" and "0 < n" and "n < 65536"
  shows "aicwf_another_ptk \<lparr>sb_data = d @ rest, sb_room = r\<rparr>" "frame_head \<lparr>sb_data = d @ rest, sb_room = r\<rparr> = Inr (of_nat n, d ! 2)"
proof -
  have e: "(d @ xs) ! 0 = d ! 0" "(d @ xs) ! 1 = d ! 1" "(d @ xs) ! 2 = d ! 2" for xs using assms(1) by (auto simp: nth_append)
  have "(of_nat n :: u16) \<noteq> 0" using assms(3, 4) unat_of_nat_u16 [of n] by auto
  then show "aicwf_another_ptk \<lparr>sb_data = d @ rest, sb_room = r\<rparr>"
    using assms(1) by (simp add: aicwf_another_ptk_def e(1) e(2) [unfolded One_nat_def] assms(2) [unfolded One_nat_def])
  show "frame_head \<lparr>sb_data = d @ rest, sb_room = r\<rparr> = Inr (of_nat n, d ! 2)"
    using assms(1) by (simp add: frame_head_def sb_mem_def e(1, 3) e(2) [unfolded One_nat_def] assms(2) [unfolded One_nat_def])
qed

lemma loop_wire:
  assumes "wire_ok f" and "ee_alloc e (rb_allocs b)"
  shows "aggr_loop (Suc fuel) e \<lparr>sb_data = wire_bytes f @ rest, sb_room = r\<rparr> b =
    aggr_loop fuel e \<lparr>sb_data = rest, sb_room = r\<rparr> (bus_emit (wire_events (ee_down e) f) (b\<lparr>rb_allocs := rb_allocs b + 1\<rparr>))"
proof (cases f)
  case (WData d)
  let ?n = "length d - 60"
  have d: "60 < length d" "length d < 65536" "get_u16 (d ! 0) (d ! 1) = of_nat ?n" "is_data (d ! 2)" using assms(1) WData by simp_all
  have u: "unat (of_nat ?n :: u16) = ?n" using d by (intro unat_of_nat_u16) simp
  have "of_nat (?n + 60) = (of_nat ?n :: u16) + 60" by (simp only: of_nat_add of_nat_numeral)
  then have a: "unat ((of_nat ?n :: u16) + 60) = length d" using d unat_of_nat_u16 [of "length d"] by simp
  have st: "aicwf_another_ptk \<lparr>sb_data = d @ rest, sb_room = r\<rparr>" "frame_head \<lparr>sb_data = d @ rest, sb_room = r\<rparr> = Inr (of_nat ?n, d ! 2)"
    using frame_start [OF _ d(3), of rest r] d(1, 2) by simp_all
  have m: "memcpy_from \<lparr>sb_data = d @ rest, sb_room = r\<rparr> (length d) = Inr d" by (simp add: memcpy_from_def sb_mem_def)
  have "\<not> unat (of_nat ?n :: u16) > length (d @ rest)" using u by simp
  then show ?thesis
    using d(4) assms(2) unfolding WData wire_bytes.simps aggr_loop.simps Let_def st(2) by (simp add: st(1) try_alloc_def a m sb_pull_append)
next
  case (WCfg m pad)
  let ?n = "length m - 4"
  have m: "4 < length m" "length m < 65536" "get_u16 (m ! 0) (m ! 1) = of_nat ?n" "\<not> is_data (m ! 2)" "length pad = roundup4 ?n - ?n"
    using assms(1) WCfg by simp_all
  have u: "unat (of_nat ?n :: u16) = ?n" using m by (intro unat_of_nat_u16) simp
  have st: "aicwf_another_ptk \<lparr>sb_data = m @ pad @ rest, sb_room = r\<rparr>" "frame_head \<lparr>sb_data = m @ pad @ rest, sb_room = r\<rparr> = Inr (of_nat ?n, m ! 2)"
    using frame_start [OF m(1, 3), of "pad @ rest" r] m(1, 2) by simp_all
  have "unat (adjust_len (of_nat ?n)) + 4 = length (m @ pad)" using m unat_adjust_len [of ?n] roundup4_ge(1) [of ?n] by simp
  then have p: "sb_pull (unat (adjust_len (of_nat ?n)) + 4) \<lparr>sb_data = m @ pad @ rest, sb_room = r\<rparr> = \<lparr>sb_data = rest, sb_room = r\<rparr>"
    using sb_pull_append [of _ "m @ pad" rest r] by simp
  have c: "rx_config e \<lparr>sb_data = m @ pad @ rest, sb_room = r\<rparr> (of_nat ?n) b =
      Inr (Some (bus_emit (cfg_events (ee_down e) m (of_nat ?n)) (b\<lparr>rb_allocs := rb_allocs b + 1\<rparr>)), b\<lparr>rb_allocs := rb_allocs b + 1\<rparr>)"
    unfolding rx_config_def try_alloc_def memcpy_from_def sb_mem_def u using m(1) assms(2) by simp
  have "\<not> unat (of_nat ?n :: u16) > length (m @ pad @ rest)" using u by simp
  then show ?thesis
    using m(4) unfolding WCfg wire_bytes.simps wire_events.simps append_assoc aggr_loop.simps Let_def st(2) sum.case prod.case rx_skb.select_convs c option.case p by (simp add: st(1))
qed

text \<open>What stops the loop: fewer than two bytes, a length of zero, or a length beyond the end.\<close>

definition wire_end :: "u8 list \<Rightarrow> bool" where
  "wire_end t \<longleftrightarrow> length t < 2 \<or> get_u16 (t ! 0) (t ! 1) = 0 \<or> (2 < length t \<and> length t < unat (get_u16 (t ! 0) (t ! 1)))"

lemma bus_emit_simps [simp]:
  "rb_allocs (bus_emit es b) = rb_allocs b" "rb_cnt (bus_emit es b) = rb_cnt b" "rb_q (bus_emit es b) = rb_q b" "rb_trgg (bus_emit es b) = rb_trgg b"
  "rb_log (bus_emit es b) = rb_log b @ es"
  by (simp_all add: bus_emit_def)

lemma loop_wires:
  assumes "list_all wire_ok fs" and "\<forall>n. ee_alloc e n"
  shows "aggr_loop (length fs + fuel) e \<lparr>sb_data = concat (map wire_bytes fs) @ t, sb_room = r\<rparr> b =
    aggr_loop fuel e \<lparr>sb_data = t, sb_room = r\<rparr>
      (bus_emit (concat (map (wire_events (ee_down e)) fs)) (b\<lparr>rb_allocs := rb_allocs b + length fs\<rparr>))"
  using assms(1)
proof (induction fs arbitrary: b)
  case (Cons f fs)
  let ?b = "bus_emit (wire_events (ee_down e) f) (b\<lparr>rb_allocs := rb_allocs b + 1\<rparr>)"
  have "aggr_loop (length (f # fs) + fuel) e \<lparr>sb_data = concat (map wire_bytes (f # fs)) @ t, sb_room = r\<rparr> b =
      aggr_loop (length fs + fuel) e \<lparr>sb_data = concat (map wire_bytes fs) @ t, sb_room = r\<rparr> ?b"
    using loop_wire [of f e b "length fs + fuel" "concat (map wire_bytes fs) @ t" r] Cons.prems assms(2) by simp
  also have "\<dots> = aggr_loop fuel e \<lparr>sb_data = t, sb_room = r\<rparr>
      (bus_emit (concat (map (wire_events (ee_down e)) fs)) (?b\<lparr>rb_allocs := rb_allocs ?b + length fs\<rparr>))"
    using Cons.prems by (intro Cons.IH) simp
  also have "bus_emit (concat (map (wire_events (ee_down e)) fs)) (?b\<lparr>rb_allocs := rb_allocs ?b + length fs\<rparr>) =
      bus_emit (concat (map (wire_events (ee_down e)) (f # fs))) (b\<lparr>rb_allocs := rb_allocs b + length (f # fs)\<rparr>)"
    by (simp add: bus_emit_def)
  finally show ?case .
qed (simp add: bus_emit_def)

lemma loop_end: "wire_end t \<Longrightarrow> aggr_loop (Suc fuel) e \<lparr>sb_data = t, sb_room = r\<rparr> b = Some (Inr (False, \<lparr>sb_data = t, sb_room = r\<rparr>, b))"
  by (auto simp: wire_end_def aicwf_another_ptk_def frame_head_def sb_mem_def nth_append)

text \<open>C19: Taking an aggregated transfer apart terminates and, when every allocation of memory succeeds, loses
  nothing (a frame for which no memory is left is skipped by the loop). On a chip with aggregated reception, a transfer made of any number of
  well-formed frames, followed by whatever the loop recognises as its end, is then finished after one round per frame: every data frame
  reaches the receive handler whole, every configuration frame its handler without header and padding, in the
  order in which they lie in the transfer, and the buffer is freed and counted down.\<close>

theorem rx_aggr_delivers:
  assumes "list_all wire_ok fs" and "wire_end t" and "ee_aggr e" and "\<forall>n. ee_alloc e n" and "length fs < fuel"
  shows "rx_one_skb fuel e \<lparr>sb_data = concat (map wire_bytes fs) @ t, sb_room = r\<rparr> b = Some (Inr (True,
    b\<lparr>rb_allocs := rb_allocs b + length fs, rb_cnt := rb_cnt b - 1,
      rb_log := rb_log b @ concat (map (wire_events (ee_down e)) fs) @ [SkbFree \<lparr>sb_data = t, sb_room = r\<rparr>]\<rparr>))"
proof -
  obtain k where "fuel = length fs + Suc k" using assms(5) less_iff_Suc_add [of "length fs" fuel] by auto
  then show ?thesis
    using loop_wires [OF assms(1, 4), of "Suc k" t r b] loop_end [OF assms(2)] assms(3)
    by (simp add: rx_one_skb_def rx_aggr_skb_def bus_emit_def)
qed

text \<open>A data frame of 61 bytes, a confirmation with one byte of payload and its padding, and two bytes of zero.\<close>

definition ex_data :: "u8 list" where
  "ex_data = [1, 0, 0] @ replicate 58 7"

definition ex_cfm :: "u8 list" where
  "ex_cfm = [1, 0, 0x12, 0, 9]"

lemma ex_wire_ok: "list_all wire_ok [WData ex_data, WCfg ex_cfm [0, 0, 0]]"
  by (simp add: ex_data_def ex_cfm_def get_u16_def is_data_def roundup4_def nth_append)

theorem rx_aggr_delivers_witness:
  "rx_one_skb 3 \<lparr>ee_aggr = True, ee_down = False, ee_alloc = (\<lambda>_. True)\<rparr> \<lparr>sb_data = ex_data @ ex_cfm @ [0, 0, 0] @ [0, 0], sb_room = []\<rparr> rx_bus_init =
     Some (Inr (True, rx_bus_init\<lparr>rb_allocs := 2, rb_cnt := -1,
       rb_log := [RxDataInd ex_data, TxCfmInd [9], SkbFree \<lparr>sb_data = [0, 0], sb_room = []\<rparr>]\<rparr>))"
proof -
  have t: "wire_end [0, 0]" by (simp add: wire_end_def get_u16_def)
  have "cfg_events False ex_cfm 1 = [TxCfmInd [9]]" by (simp add: cfg_events_def ex_cfm_def)
  moreover have "length ex_cfm - 4 = 1" by (simp add: ex_cfm_def)
  ultimately show ?thesis
    using rx_aggr_delivers [OF ex_wire_ok t, of "\<lparr>ee_aggr = True, ee_down = False, ee_alloc = (\<lambda>_. True)\<rparr>" 3 "[]" rx_bus_init]
    by (simp add: rx_bus_init_def)
qed

text \<open>
  The head of a data frame that the check of the length lets pass although the frame, with its hardware header, is
  longer than what is left of the transfer.
\<close>

definition wire_overrun :: "u8 list \<Rightarrow> bool" where
  "wire_overrun t \<longleftrightarrow>
     3 \<le> length t \<and> is_data (t ! 2) \<and> (let n = unat (get_u16 (t ! 0) (t ! 1)) in 0 < n \<and> n \<le> length t \<and> length t < n + 60 \<and> n + 60 < 65536)"

lemma loop_overrun:
  assumes "wire_overrun t" and "unat (get_u16 (t ! 0) (t ! 1)) + 60 \<le> length t + length r"
  shows "aggr_loop fuel e \<lparr>sb_data = t, sb_room = r\<rparr> b = None"
proof (induction fuel arbitrary: b)
  case (Suc fuel)
  define h where "h = get_u16 (t ! 0) (t ! 1)"
  have o: "3 \<le> length t" "is_data (t ! 2)" "0 < unat h" "unat h \<le> length t" "length t < unat h + 60" "unat h + 60 < 65536"
    using assms(1) by (simp_all add: wire_overrun_def Let_def h_def)
  let ?s = "\<lparr>sb_data = t, sb_room = r\<rparr>"
  have e: "(t @ r) ! 0 = t ! 0" "(t @ r) ! 1 = t ! 1" "(t @ r) ! 2 = t ! 2" using o(1) by (auto simp: nth_append)
  have "h \<noteq> 0" using o(3) by auto
  then have a: "aicwf_another_ptk ?s" using o(1) by (simp add: aicwf_another_ptk_def flip: h_def One_nat_def)
  have f: "frame_head ?s = Inr (h, t ! 2)" using o(1) by (simp add: frame_head_def sb_mem_def h_def e flip: One_nat_def)
  have u: "unat (h + 60) = unat h + 60" using o(6) by (simp add: unat_word_ariths)
  have p: "sb_pull (unat h + 60) ?s = ?s" using o(5) by (simp add: sb_pull_def skb_pull_def)
  have m: "memcpy_from ?s (unat h + 60) = Inr (take (unat h + 60) (t @ r))" using assms(2) [folded h_def] by (simp add: memcpy_from_def sb_mem_def)
  show ?case
    unfolding aggr_loop.simps f Let_def using a o(2, 4) Suc.IH by (cases "ee_alloc e (rb_allocs b)") (simp_all add: try_alloc_def u p m)
qed simp

lemma loop_hangs:
  assumes "list_all wire_ok fs" and "\<forall>n. ee_alloc e n" and "wire_overrun t" and "unat (get_u16 (t ! 0) (t ! 1)) + 60 \<le> length t + length r"
  shows "aggr_loop fuel e \<lparr>sb_data = concat (map wire_bytes fs) @ t, sb_room = r\<rparr> b = None"
  using assms(1)
proof (induction fuel arbitrary: fs b)
  case (Suc fuel)
  show ?case
  proof (cases fs)
    case Nil
    then show ?thesis using loop_overrun [OF assms(3, 4)] by (simp del: aggr_loop.simps)
  next
    case (Cons f gs)
    then show ?thesis
      using loop_wire [of f e b fuel "concat (map wire_bytes gs) @ t" r] Suc.prems Suc.IH [of gs] assms(2) by (simp del: aggr_loop.simps)
  qed
qed simp

text \<open>A malformed transfer hangs the receive thread. If after any number of proper frames comes a data frame whose
  length passes the check against the remaining bytes but which is longer with its header of 60 bytes, the code
  delivers it with bytes from behind the transfer, removes nothing from the buffer because \<open>skb_pull\<close> fails, and
  starts again: no number of rounds ends the loop.\<close>

lemma rx_aggr_overrun_hangs:
  assumes "list_all wire_ok fs" and "\<forall>n. ee_alloc e n" and "ee_aggr e" and "wire_overrun t"
    and "unat (get_u16 (t ! 0) (t ! 1)) + 60 \<le> length t + length r"
  shows "rx_one_skb fuel e \<lparr>sb_data = concat (map wire_bytes fs) @ t, sb_room = r\<rparr> b = None"
  using loop_hangs [OF assms(1, 2, 4, 5)] assms(3) by (simp add: rx_one_skb_def rx_aggr_skb_def)

lemma rx_aggr_overrun_hangs_example:
  "rx_one_skb 1000 \<lparr>ee_aggr = True, ee_down = False, ee_alloc = (\<lambda>_. True)\<rparr> \<lparr>sb_data = ex_data @ [1, 0, 0], sb_room = replicate 100 0\<rparr> rx_bus_init = None"
proof -
  have "wire_overrun [1, 0, 0]" by (simp add: wire_overrun_def get_u16_def is_data_def)
  moreover have "list_all wire_ok [WData ex_data]" using ex_wire_ok by simp
  ultimately show ?thesis
    using rx_aggr_overrun_hangs [of "[WData ex_data]" "\<lparr>ee_aggr = True, ee_down = False, ee_alloc = (\<lambda>_. True)\<rparr>" "[1, 0, 0]" "replicate 100 0" 1000 rx_bus_init]
    by (simp add: get_u16_def)
qed

section \<open>Waking the receive thread\<close>

text \<open>
  The bus and the thread run side by side. A completed transfer is queued, counted and then wakes the thread if the
  counter is one, in three steps; the thread waits for a completion, then takes frames until it sees the queue
  empty. Its work on one transfer is one step: apart from the last action, the decrement of the counter, it touches
  nothing that the other side reads. Completions of transfers do not run in parallel with each other.
\<close>

datatype bus_pc = BusIdle | BusQueued | BusCounted

datatype thr_pc = ThrWait | ThrLoop | ThrHas rx_skb

record pump =
  pm_bus :: rx_bus
  pm_pc :: bus_pc
  pm_thr :: thr_pc

inductive pump_step :: "rx_env \<Rightarrow> pump \<Rightarrow> pump \<Rightarrow> bool" for e where
  arrive: "pm_pc p = BusIdle \<Longrightarrow> rx_complete_enqueue s (pm_bus p) = Inr (ok, b)
      \<Longrightarrow> pump_step e p (p\<lparr>pm_bus := b, pm_pc := (if ok then BusQueued else BusIdle)\<rparr>)"
| count: "pm_pc p = BusQueued \<Longrightarrow> pump_step e p (p\<lparr>pm_bus := rx_complete_count (pm_bus p), pm_pc := BusCounted\<rparr>)"
| wake: "pm_pc p = BusCounted \<Longrightarrow> pump_step e p (p\<lparr>pm_bus := rx_complete_wake (pm_bus p), pm_pc := BusIdle\<rparr>)"
| take: "pm_thr p = ThrWait \<Longrightarrow> rb_trgg (pm_bus p) = Suc n \<Longrightarrow> pump_step e p (p\<lparr>pm_bus := (pm_bus p)\<lparr>rb_trgg := n\<rparr>, pm_thr := ThrLoop\<rparr>)"
| idle: "pm_thr p = ThrLoop \<Longrightarrow> aicwf_is_framequeue_empty (rb_q (pm_bus p)) \<Longrightarrow> pump_step e p (p\<lparr>pm_thr := ThrWait\<rparr>)"
| deq: "pm_thr p = ThrLoop \<Longrightarrow> \<not> aicwf_is_framequeue_empty (rb_q (pm_bus p)) \<Longrightarrow> aicwf_frame_dequeue (rb_q (pm_bus p)) = (Some s, q)
      \<Longrightarrow> pump_step e p (p\<lparr>pm_bus := (pm_bus p)\<lparr>rb_q := q\<rparr>, pm_thr := ThrHas s\<rparr>)"
| finish: "pm_thr p = ThrHas s \<Longrightarrow> rx_one_skb fuel e s (pm_bus p) = Some (Inr (True, b)) \<Longrightarrow> pump_step e p (p\<lparr>pm_bus := b, pm_thr := ThrLoop\<rparr>)"
| abort: "pm_thr p = ThrHas s \<Longrightarrow> rx_one_skb fuel e s (pm_bus p) = Some (Inr (False, b)) \<Longrightarrow> pump_step e p (p\<lparr>pm_bus := b, pm_thr := ThrWait\<rparr>)"

text \<open>The work leaves the queue and the completions alone; it gives up only when an allocation fails.\<close>

definition bus_same :: "rx_bus \<Rightarrow> rx_bus \<Rightarrow> bool" where
  "bus_same b b' \<longleftrightarrow> rb_q b' = rb_q b \<and> rb_trgg b' = rb_trgg b \<and> rb_cnt b' = rb_cnt b"

lemma bus_same_simps [simp]: "bus_same b b" "bus_same b (bus_emit es b') \<longleftrightarrow> bus_same b b'" "bus_same b (b'\<lparr>rb_allocs := n\<rparr>) \<longleftrightarrow> bus_same b b'"
  by (simp_all add: bus_same_def)

lemma rx_config_same:
  "rx_config e s l b = Inr (r, b1) \<Longrightarrow> bus_same b b1 \<and> (case r of None \<Rightarrow> \<not> ee_alloc e (rb_allocs b) | Some b2 \<Rightarrow> bus_same b b2)"
  by (auto simp: rx_config_def try_alloc_def split: bool.splits sum.splits)

lemma bus_same_trans: "bus_same a b \<Longrightarrow> bus_same b c \<Longrightarrow> bus_same a c"
  by (simp add: bus_same_def)

lemma aggr_loop_same:
  "aggr_loop fuel e s b = Some (Inr (ab, s', b')) \<Longrightarrow> bus_same b b' \<and> (ab \<longrightarrow> (\<exists>n. \<not> ee_alloc e n))"
proof (induction fuel arbitrary: s b)
  case (Suc fuel)
  have step: "bus_same b b' \<and> (ab \<longrightarrow> (\<exists>n. \<not> ee_alloc e n))" if "aggr_loop fuel e s1 b1 = Some (Inr (ab, s', b'))" "bus_same b b1" for s1 b1
    using Suc.IH [OF that(1)] bus_same_trans [OF that(2)] by blast
  show ?case
  proof (cases "aicwf_another_ptk s")
    case False
    then show ?thesis using Suc.prems by simp
  next
    case True
    then obtain l ty where h: "frame_head s = Inr (l, ty)" using Suc.prems by (cases "frame_head s") auto
    consider (long) "unat l > length (sb_data s)" | (data) "\<not> unat l > length (sb_data s)" "is_data ty" | (cfg) "\<not> unat l > length (sb_data s)" "\<not> is_data ty" by blast
    then show ?thesis
    proof cases
      case long
      then show ?thesis using Suc.prems True h by simp
    next
      case data
      then show ?thesis
        using Suc.prems True h step by (auto simp: Let_def try_alloc_def split: bool.splits sum.splits)
    next
      case cfg
      then obtain r b1 where c: "rx_config e s l b = Inr (r, b1)" using Suc.prems True h by (cases "rx_config e s l b") auto
      show ?thesis
        using Suc.prems True h cfg c rx_config_same [OF c] step by (cases r) auto
    qed
  qed
qed simp

lemma rx_one_skb_done:
  assumes "rx_one_skb fuel e s b = Some (Inr (True, b'))"
  shows "rb_q b' = rb_q b \<and> rb_trgg b' = rb_trgg b \<and> rb_cnt b' = rb_cnt b - 1"
proof (cases "ee_aggr e")
  case True
  then obtain s' b1 where "aggr_loop fuel e s b = Some (Inr (False, s', b1))" "b' = (bus_emit [SkbFree s'] b1)\<lparr>rb_cnt := rb_cnt b1 - 1\<rparr>"
    using assms by (auto simp: rx_one_skb_def rx_aggr_skb_def split: option.splits sum.splits bool.splits)
  then show ?thesis using aggr_loop_same [of fuel e s b False s' b1] by (simp add: bus_same_def)
next
  case False
  then show ?thesis
    using assms rx_config_same [of e s _ b] by (fastforce simp: rx_one_skb_def rx_single_skb_def bus_same_def split: sum.splits if_splits option.splits)
qed

lemma rx_one_skb_abort:
  assumes "rx_one_skb fuel e s b = Some (Inr (False, b'))"
  shows "bus_same b b' \<and> (\<exists>n. \<not> ee_alloc e n)"
proof (cases "ee_aggr e")
  case True
  then obtain s' b1 where "aggr_loop fuel e s b = Some (Inr (True, s', b1))" "b' = bus_emit [SkbFree s'] b1"
    using assms by (auto simp: rx_one_skb_def rx_aggr_skb_def split: option.splits sum.splits bool.splits)
  then show ?thesis using aggr_loop_same [of fuel e s b True s' b1] by simp
next
  case False
  then show ?thesis
    using assms rx_config_same [of e s _ b] by (fastforce simp: rx_one_skb_def rx_single_skb_def split: sum.splits if_splits option.splits)
qed

definition pump_init :: pump where
  "pump_init = \<lparr>pm_bus = rx_bus_init, pm_pc = BusIdle, pm_thr = ThrWait\<rparr>"

definition pump_items :: "pump \<Rightarrow> rx_skb list" where
  "pump_items p = rxq_items (rb_q (pm_bus p))"

text \<open>
  The counter is the number of frames queued or being worked on, less the one that is queued but not yet counted;
  a waiting thread without a completion faces at most the frame of the transfer that is just being completed.
\<close>

definition pump_inv :: "pump \<Rightarrow> bool" where
  "pump_inv p \<longleftrightarrow>
     rxq_ok (rb_q (pm_bus p))
     \<and> rb_cnt (pm_bus p) = int (length (pump_items p)) + (case pm_thr p of ThrHas _ \<Rightarrow> 1 | _ \<Rightarrow> 0) - (if pm_pc p = BusQueued then 1 else 0)
     \<and> (pm_thr p = ThrWait \<and> rb_trgg (pm_bus p) = 0 \<longrightarrow> length (pump_items p) \<le> (if pm_pc p = BusIdle then 0 else 1))"

lemma enqueue_bus:
  assumes "rxq_ok (rb_q b)" and "rx_complete_enqueue s b = Inr (ok, b')"
  shows "rxq_ok (rb_q b')" "rxq_items (rb_q b') = (if ok then rxq_items (rb_q b) @ [s] else rxq_items (rb_q b))"
    "rb_cnt b' = rb_cnt b" "rb_trgg b' = rb_trgg b" "rb_log b' = rb_log b @ (if ok then [] else [SkbFree s])"
proof -
  obtain q where q: "aicwf_rxframe_enqueue (rb_q b) s = Inr (length (rxq_items (rb_q b)) < rxq_cap (rb_q b), [], q)" "rxq_ok q"
      "rxq_items q = (if length (rxq_items (rb_q b)) < rxq_cap (rb_q b) then rxq_items (rb_q b) @ [s] else rxq_items (rb_q b))"
    by (rule rxq.enq_cases [OF assms(1), of s]) blast
  then show "rxq_ok (rb_q b')" "rxq_items (rb_q b') = (if ok then rxq_items (rb_q b) @ [s] else rxq_items (rb_q b))"
    "rb_cnt b' = rb_cnt b" "rb_trgg b' = rb_trgg b" "rb_log b' = rb_log b @ (if ok then [] else [SkbFree s])"
    using assms(2) by (auto simp: rx_complete_enqueue_def split: bool.splits)
qed

lemma pump_step_inv:
  assumes "pump_step e p p'" and "\<forall>n. ee_alloc e n" and "pump_inv p"
  shows "pump_inv p'"
  using assms
proof (induction rule: pump_step.induct)
  case (arrive p s ok b)
  then have "rxq_ok (rb_q (pm_bus p))" by (simp add: pump_inv_def)
  note E = enqueue_bus [OF this arrive.hyps(2)]
  show ?case
    using arrive E by (auto simp: pump_inv_def pump_items_def)
next
  case (idle p)
  then have "pump_items p = []" using rxq.empty_iff [of "rb_q (pm_bus p)"] by (simp add: pump_inv_def pump_items_def)
  then show ?case using idle by (auto simp: pump_inv_def pump_items_def)
next
  case (deq p s q)
  have ok: "rxq_ok (rb_q (pm_bus p))" using deq.prems by (simp add: pump_inv_def)
  obtain xs where "rxq_items (rb_q (pm_bus p)) = s # xs" "rxq_ok q" "rxq_items q = xs"
    using rxq.deq_cases [OF ok deq.hyps(2)] deq.hyps(3) by (metis prod.inject option.inject)
  then show ?case using deq by (auto simp: pump_inv_def pump_items_def)
next
  case (finish p s fuel b)
  then show ?case using rx_one_skb_done [OF finish.hyps(2)] by (auto simp: pump_inv_def pump_items_def)
next
  case (abort p s fuel b)
  then show ?case using rx_one_skb_abort [OF abort.hyps(2)] by blast
qed (auto simp: pump_inv_def pump_items_def rx_complete_count_def rx_complete_wake_def le_Suc_eq split: thr_pc.splits)

lemma pump_init_inv: "pump_inv pump_init"
  using rxq_init [of 2000] by (simp add: pump_inv_def pump_init_def pump_items_def rx_bus_init_def)

interpretation rx_pump: transition_system "\<lambda>p. p = pump_init" "pump_step e" "\<lambda>p. (\<forall>n. ee_alloc e n) \<longrightarrow> pump_inv p" for e
  by unfold_locales (use pump_init_inv pump_step_inv in blast)+

text \<open>C18: No wake-up is lost. As long as allocations succeed, in every state of every interleaving of the bus and the
  receive thread the counter agrees with the queue, and whenever frames are queued while the thread waits and no
  transfer is being completed, a completion is pending, so that the thread will take them.\<close>

theorem rx_no_lost_wakeup:
  assumes "(pump_step e)\<^sup>*\<^sup>* pump_init p" and "\<forall>n. ee_alloc e n"
  shows "rb_cnt (pm_bus p) = int (length (pump_items p)) + (case pm_thr p of ThrHas _ \<Rightarrow> 1 | _ \<Rightarrow> 0) - (if pm_pc p = BusQueued then 1 else 0)
    \<and> (pump_items p \<noteq> [] \<and> pm_thr p = ThrWait \<and> pm_pc p = BusIdle \<longrightarrow> 0 < rb_trgg (pm_bus p))"
proof -
  have "pump_inv p" using rx_pump.reachable_inv [OF refl assms(1)] assms(2) by simp
  then show ?thesis by (auto simp: pump_inv_def)
qed

text \<open>One transfer that arrives at a waiting thread.\<close>

definition ex_q :: "rx_skb \<Rightarrow> rx_skb frame_queue" where
  "ex_q s = \<lparr>num_prio = 1, hi_prio = 0, qmax = 2000, qcnt = 1, queuelist = [[s]]\<rparr>"

lemma ex_arrive:
  "rx_complete_enqueue s (rx_bus_init\<lparr>rb_cnt := c, rb_log := l, rb_allocs := n\<rparr>) = Inr (True, rx_bus_init\<lparr>rb_q := ex_q s, rb_cnt := c, rb_log := l, rb_allocs := n\<rparr>)"
  by (simp add: rx_complete_enqueue_def rx_bus_init_def aicwf_frame_queue_init_def aicwf_rxframe_enqueue_def aicwf_frame_enq_def
      aicwf_frame_queue_penq_def array_get_def word_less_nat_alt ex_q_def bus_emit_def)

lemma ex_transfer:
  "(pump_step e)\<^sup>*\<^sup>* \<lparr>pm_bus = rx_bus_init\<lparr>rb_cnt := c, rb_log := l, rb_allocs := n\<rparr>, pm_pc = BusIdle, pm_thr = ThrWait\<rparr>
     \<lparr>pm_bus = rx_complete_wake (rx_bus_init\<lparr>rb_q := ex_q s, rb_cnt := c + 1, rb_log := l, rb_allocs := n\<rparr>), pm_pc = BusIdle, pm_thr = ThrWait\<rparr>"
proof -
  let ?b = "rx_bus_init\<lparr>rb_cnt := c, rb_log := l, rb_allocs := n\<rparr>" and ?b1 = "rx_bus_init\<lparr>rb_q := ex_q s, rb_cnt := c, rb_log := l, rb_allocs := n\<rparr>"
  have s1: "pump_step e \<lparr>pm_bus = ?b, pm_pc = BusIdle, pm_thr = ThrWait\<rparr> \<lparr>pm_bus = ?b1, pm_pc = BusQueued, pm_thr = ThrWait\<rparr>"
    using pump_step.arrive [of "\<lparr>pm_bus = ?b, pm_pc = BusIdle, pm_thr = ThrWait\<rparr>" s True ?b1 e] ex_arrive [of s n l c] by simp
  have s2: "pump_step e \<lparr>pm_bus = ?b1, pm_pc = BusQueued, pm_thr = ThrWait\<rparr> \<lparr>pm_bus = rx_complete_count ?b1, pm_pc = BusCounted, pm_thr = ThrWait\<rparr>"
    using pump_step.count [of "\<lparr>pm_bus = ?b1, pm_pc = BusQueued, pm_thr = ThrWait\<rparr>" e] by simp
  have s3: "pump_step e \<lparr>pm_bus = rx_complete_count ?b1, pm_pc = BusCounted, pm_thr = ThrWait\<rparr>
      \<lparr>pm_bus = rx_complete_wake (rx_complete_count ?b1), pm_pc = BusIdle, pm_thr = ThrWait\<rparr>"
    using pump_step.wake [of "\<lparr>pm_bus = rx_complete_count ?b1, pm_pc = BusCounted, pm_thr = ThrWait\<rparr>" e] by simp
  have c: "rx_complete_count ?b1 = rx_bus_init\<lparr>rb_q := ex_q s, rb_cnt := c + 1, rb_log := l, rb_allocs := n\<rparr>"
    by (simp add: rx_complete_count_def)
  show ?thesis
    using converse_rtranclp_into_rtranclp [OF s1 converse_rtranclp_into_rtranclp [OF s2 r_into_rtranclp [of "pump_step e", OF s3]]] by (simp only: c)
qed

theorem rx_no_lost_wakeup_witness:
  "0 < rb_trgg (rx_complete_wake (rx_bus_init\<lparr>rb_q := ex_q \<lparr>sb_data = ex_data, sb_room = []\<rparr>, rb_cnt := 1\<rparr>))"
proof -
  let ?e = "\<lparr>ee_aggr = False, ee_down = False, ee_alloc = (\<lambda>_. True)\<rparr>" and ?s = "\<lparr>sb_data = ex_data, sb_room = []\<rparr>"
  let ?p = "\<lparr>pm_bus = rx_complete_wake (rx_bus_init\<lparr>rb_q := ex_q ?s, rb_cnt := 1\<rparr>), pm_pc = BusIdle, pm_thr = ThrWait\<rparr>"
  have r: "(pump_step ?e)\<^sup>*\<^sup>* pump_init ?p"
    using ex_transfer [of ?e 0 "[]" 0 ?s] by (simp add: pump_init_def rx_bus_init_def)
  have "pump_items ?p = [?s]" by (simp add: pump_items_def rx_complete_wake_def rxq_items_def frames_def frames_of_def prio_part_def ex_q_def)
  then show ?thesis using rx_no_lost_wakeup [OF r] by simp
qed

text \<open>After the failure: the counter is too high to become one again.\<close>

definition pump_stuck :: "rx_bus \<Rightarrow> pump \<Rightarrow> bool" where
  "pump_stuck b p \<longleftrightarrow>
     rxq_ok (rb_q (pm_bus p)) \<and> pm_thr p = ThrWait \<and> rb_trgg (pm_bus p) = 0 \<and> 1 \<le> rb_cnt (pm_bus p) \<and> (pm_pc p = BusCounted \<longrightarrow> 2 \<le> rb_cnt (pm_bus p))
     \<and> (\<exists>fs. rb_log (pm_bus p) = rb_log b @ map SkbFree fs)"

lemma pump_stuck_step: "pump_step e p p' \<Longrightarrow> pump_stuck b p \<Longrightarrow> pump_stuck b p'"
proof (induction rule: pump_step.induct)
  case (arrive p s ok b1)
  then have q: "rxq_ok (rb_q (pm_bus p))" by (simp add: pump_stuck_def)
  note E = enqueue_bus [OF q arrive.hyps(2)]
  obtain fs where "rb_log (pm_bus p) = rb_log b @ map SkbFree fs" using arrive.prems by (auto simp: pump_stuck_def)
  then have "rb_log b1 = rb_log b @ map SkbFree (fs @ (if ok then [] else [s]))" using E(5) by simp
  then have "\<exists>fs. rb_log b1 = rb_log b @ map SkbFree fs" ..
  then show ?case using arrive E(1-4) by (simp add: pump_stuck_def)
qed (auto simp: pump_stuck_def rx_complete_count_def rx_complete_wake_def)

interpretation rx_stuck: transition_system "pump_stuck b" "pump_step e" "pump_stuck b" for e b
  by unfold_locales (use pump_stuck_step in blast)+

text \<open>One failed allocation stops reception for good. When the thread works on the last queued transfer and there is no
  memory for the copy of a configuration frame, the function returns without decrementing the counter. From then on
  the counter never is one when a transfer is completed: in every later state the thread waits without a completion,
  and the only thing that happens to the transfers that arrive is that they are queued or, when the queue is full,
  freed.\<close>

lemma rx_alloc_failure_stalls:
  assumes "pm_thr p = ThrHas s" and "pm_pc p = BusIdle" and "rxq_ok (rb_q (pm_bus p))" and "rb_trgg (pm_bus p) = 0" and "rb_cnt (pm_bus p) = 1"
    and "rx_one_skb fuel e s (pm_bus p) = Some (Inr (False, b))"
    and "(pump_step e')\<^sup>*\<^sup>* (p\<lparr>pm_bus := b, pm_thr := ThrWait\<rparr>) p'"
  shows "pm_thr p' = ThrWait \<and> rb_trgg (pm_bus p') = 0 \<and> (\<exists>fs. rb_log (pm_bus p') = rb_log b @ map SkbFree fs)"
proof -
  have "pump_stuck b (p\<lparr>pm_bus := b, pm_thr := ThrWait\<rparr>)"
    using assms rx_one_skb_abort [OF assms(6)] by (auto simp: pump_stuck_def bus_same_def intro: exI [of _ "[]"])
  then have "pump_stuck b p'" using assms(7) by (rule rx_stuck.reachable_inv)
  then show ?thesis by (simp add: pump_stuck_def)
qed

lemma rx_alloc_failure_stalls_example:
  "rb_trgg (rx_complete_wake (rx_bus_init\<lparr>rb_q := ex_q \<lparr>sb_data = ex_data, sb_room = []\<rparr>, rb_cnt := 2, rb_log := [SkbFree \<lparr>sb_data = ex_cfm, sb_room = []\<rparr>], rb_allocs := 1\<rparr>)) = 0"
proof -
  let ?e = "\<lparr>ee_aggr = False, ee_down = False, ee_alloc = (\<lambda>n. n \<noteq> 0)\<rparr>" and ?s = "\<lparr>sb_data = ex_cfm, sb_room = []\<rparr>" and ?d = "\<lparr>sb_data = ex_data, sb_room = []\<rparr>"
  let ?p = "\<lparr>pm_bus = rx_bus_init\<lparr>rb_cnt := 1\<rparr>, pm_pc = BusIdle, pm_thr = ThrHas ?s\<rparr>" and ?b = "rx_bus_init\<lparr>rb_cnt := 1, rb_log := [SkbFree ?s], rb_allocs := 1\<rparr>"
  have a: "rx_one_skb 0 ?e ?s (pm_bus ?p) = Some (Inr (False, ?b))"
    by (simp add: rx_one_skb_def rx_single_skb_def frame_head_def sb_mem_def ex_cfm_def get_u16_def is_data_def rx_config_def try_alloc_def rx_bus_init_def bus_emit_def)
  have r: "(pump_step ?e)\<^sup>*\<^sup>* (?p\<lparr>pm_bus := ?b, pm_thr := ThrWait\<rparr>)
      \<lparr>pm_bus = rx_complete_wake (rx_bus_init\<lparr>rb_q := ex_q ?d, rb_cnt := 2, rb_log := [SkbFree ?s], rb_allocs := 1\<rparr>), pm_pc = BusIdle, pm_thr = ThrWait\<rparr>"
    using ex_transfer [of ?e 1 "[SkbFree ?s]" 1 ?d] by simp
  have q: "rxq_ok (rb_q (pm_bus ?p))" "rb_trgg (pm_bus ?p) = 0" using rxq_init(1) [of 2000] by (simp_all add: rx_bus_init_def)
  show ?thesis using rx_alloc_failure_stalls [OF _ _ q _ a r] by simp
qed

end
