(* ===== verification/UsbBus.thy ===== *)
theory UsbBus
  imports RxFrames
begin

text \<open>
  The USB bus of the driver (aicwf_usb.c): the pool of transmit requests with its flow control, the frames as they are
  written to the bus, the receive requests of the data and the message endpoint, and starting, stopping, suspending and
  resuming the bus. The built configuration has CONFIG_USB_ALIGN_DATA, CONFIG_USE_USB_ZERO_PACKET and CONFIG_USB_MSG_IN_EP and has
  neither CONFIG_USB_TX_AGGR nor CONFIG_PER_STA_FC nor CONFIG_USB_NO_TRANS_DMA_MAP nor CONFIG_TX_TASKLET; the per-station flow
  control (\<open>usb_tx_flow_ctrl\<close>, \<open>usb_txc_sta_flowctrl\<close>) has then an empty body.
\<close>

section \<open>State\<close>

text \<open>A buffer to transmit: an identity, the free bytes before its data, and its data, which starts with the transmit header.\<close>

record usb_skb =
  us_id :: nat
  us_room :: nat
  us_data :: "u8 list"

text \<open>The fields of \<open>rwnx_sw_txhdr\<close> that the bus reads: the descriptor for the firmware, the size of the header in the buffer and whether a confirmation is wanted.\<close>

record sw_txhdr =
  sh_desc :: "u8 list"
  sh_headroom :: nat
  sh_need_cfm :: bool

text \<open>
  What \<open>usb_buf->skb\<close> points to: a socket buffer, or, for a frame that is confirmed, a copy from \<open>kmalloc\<close> behind a cast
  (\<open>PCopy\<close>, with the identity of the buffer it was made from).
\<close>

datatype tx_payload = PSkb usb_skb | PCopy nat "u8 list"

text \<open>\<open>ub_align\<close> is \<open>usb_align_data\<close> (by the number of its allocation); \<open>ub_xfer\<close> the bytes the request transfers, \<open>None\<close> for a null buffer.\<close>

record usb_buf =
  ub_idx :: nat
  ub_skb :: "tx_payload option"
  ub_cfm :: bool
  ub_align :: "nat option"
  ub_xfer :: "u8 list option"

datatype usb_event =
    HdrFree nat
  | KfreeSkb usb_skb
  | KfreeCopy nat
  | AlignFree nat
  | SemDown
  | SemUp

record usb_vif =
  uv_ndev :: bool
  uv_up :: bool
  uv_stopped :: bool
  uv_present :: bool

text \<open>
  The device. The requests that the USB core holds are \<open>ud_tx_flight\<close>, \<open>ud_rx_flight\<close> and \<open>ud_msg_flight\<close>; the receive
  requests are given by their index. \<open>ud_clock\<close> counts the calls whose result the environment decides.
\<close>

record usb_dev =
  ud_state :: aicwf_usb_state
  ud_bus_up :: bool
  ud_tx_free :: "usb_buf list"
  ud_tx_free_count :: int
  ud_tx_post :: "usb_buf list"
  ud_tx_post_count :: int
  ud_tx_flight :: "usb_buf list"
  ud_tbusy :: bool
  ud_tx_trgg :: nat
  ud_vifs :: "usb_vif list"
  ud_rx_free :: "nat list"
  ud_rx_flight :: "nat list"
  ud_rx_urb_cnt :: int
  ud_rx_prepare_ready :: bool
  ud_msg_in_pipe :: bool
  ud_msg_free :: "nat list"
  ud_msg_flight :: "nat list"
  ud_wait_disconnect :: bool
  ud_deinit :: int
  ud_clock :: nat
  ud_log :: "usb_event list"

text \<open>The environment: results of \<open>usb_submit_urb\<close>, of allocations, and whether a buffer is aligned.\<close>

record usb_env =
  ue_submit :: "nat \<Rightarrow> int"
  ue_alloc :: "nat \<Rightarrow> bool"
  ue_aligned :: "nat \<Rightarrow> bool"

abbreviation (input) AICWF_USB_TX_URBS :: nat where "AICWF_USB_TX_URBS \<equiv> 200"
abbreviation (input) AICWF_USB_TX_LOW_WATER :: int where "AICWF_USB_TX_LOW_WATER \<equiv> 50"
abbreviation (input) AICWF_USB_TX_HIGH_WATER :: int where "AICWF_USB_TX_HIGH_WATER \<equiv> 150"
abbreviation (input) AICWF_USB_RX_URBS :: nat where "AICWF_USB_RX_URBS \<equiv> 20"
abbreviation (input) AICWF_USB_MSG_RX_URBS :: nat where "AICWF_USB_MSG_RX_URBS \<equiv> 100"
abbreviation (input) EIO :: int where "EIO \<equiv> 5"
abbreviation (input) ENOMEM :: int where "ENOMEM \<equiv> 12"

definition log_usb :: "usb_event list \<Rightarrow> usb_dev \<Rightarrow> usb_dev" where
  "log_usb es d = d\<lparr>ud_log := ud_log d @ es\<rparr>"

definition usb_submit_urb :: "usb_env \<Rightarrow> usb_dev \<Rightarrow> int \<times> usb_dev" where
  "usb_submit_urb e d = (ue_submit e (ud_clock d), d\<lparr>ud_clock := Suc (ud_clock d)\<rparr>)"

definition usb_alloc :: "usb_env \<Rightarrow> usb_dev \<Rightarrow> nat option \<times> usb_dev" where
  "usb_alloc e d = (if ue_alloc e (ud_clock d) then Some (ud_clock d) else None, d\<lparr>ud_clock := Suc (ud_clock d)\<rparr>)"

definition is_aligned :: "usb_env \<Rightarrow> usb_dev \<Rightarrow> bool \<times> usb_dev" where
  "is_aligned e d = (ue_aligned e (ud_clock d), d\<lparr>ud_clock := Suc (ud_clock d)\<rparr>)"

section \<open>Lists of transmit requests and flow control\<close>

definition aicwf_usb_tx_flowctrl :: "bool \<Rightarrow> usb_dev \<Rightarrow> usb_dev" where
  "aicwf_usb_tx_flowctrl state d =
     d\<lparr>ud_vifs := map (\<lambda>v. if \<not> uv_ndev v \<or> \<not> uv_up v then v else v\<lparr>uv_stopped := state\<rparr>) (ud_vifs d)\<rparr>"

definition tx_free_get :: "usb_dev \<Rightarrow> usb_buf option \<times> usb_dev" where
  "tx_free_get d =
     (case ud_tx_free d of [] \<Rightarrow> (None, d)
      | u # us \<Rightarrow> (Some u, d\<lparr>ud_tx_free := us, ud_tx_free_count := ud_tx_free_count d - 1\<rparr>))"

definition tx_free_put :: "usb_buf \<Rightarrow> usb_dev \<Rightarrow> usb_dev" where
  "tx_free_put u d = d\<lparr>ud_tx_free := ud_tx_free d @ [u], ud_tx_free_count := ud_tx_free_count d + 1\<rparr>"

definition tx_post_get :: "usb_dev \<Rightarrow> usb_buf option \<times> usb_dev" where
  "tx_post_get d =
     (case ud_tx_post d of [] \<Rightarrow> (None, d)
      | u # us \<Rightarrow> (Some u, d\<lparr>ud_tx_post := us, ud_tx_post_count := ud_tx_post_count d - 1\<rparr>))"

definition tx_post_put :: "usb_buf \<Rightarrow> usb_dev \<Rightarrow> usb_dev" where
  "tx_post_put u d = d\<lparr>ud_tx_post := ud_tx_post d @ [u], ud_tx_post_count := ud_tx_post_count d + 1\<rparr>"

text \<open>The flow control at the end of \<open>aicwf_usb_bus_txdata\<close> and of \<open>aicwf_usb_tx_complete\<close>.\<close>

definition flow_stop :: "usb_dev \<Rightarrow> usb_dev" where
  "flow_stop d =
     (if ud_tx_free_count d < AICWF_USB_TX_LOW_WATER then aicwf_usb_tx_flowctrl True (d\<lparr>ud_tbusy := True\<rparr>) else d)"

definition flow_wake :: "usb_dev \<Rightarrow> usb_dev" where
  "flow_wake d =
     (if ud_tx_free_count d > AICWF_USB_TX_HIGH_WATER \<and> ud_tbusy d then aicwf_usb_tx_flowctrl False (d\<lparr>ud_tbusy := False\<rparr>) else d)"

section \<open>A frame on the bus\<close>

definition usb_header :: "nat \<Rightarrow> u8 list" where
  "usb_header n = [of_nat n AND 0xff, of_nat (n div 256) AND 0x0f, 0x01, 0]"

definition mem_put :: "nat \<Rightarrow> u8 list \<Rightarrow> u8 list \<Rightarrow> fault + u8 list" where
  "mem_put i bs mem = (if i + length bs \<le> length mem then Inr (take i mem @ bs @ drop (i + length bs) mem) else Inl OutOfBounds)"

text \<open>
  The copy of a frame that is confirmed, and its length; \<open>index\<close> and \<open>buf_len\<close> have 16 bits. The memory of \<open>kmalloc\<close> is
  taken to be zero: every byte that is sent is written first.
\<close>

definition cfm_copy :: "sw_txhdr \<Rightarrow> u8 list \<Rightarrow> fault + u8 list \<times> nat" where
  "cfm_copy h data =
     (if length data < sh_headroom h then Inl BadMemcpy else
      let pay = drop (sh_headroom h) data; idx1 = 4 + length (sh_desc h); idx = (idx1 + length pay) mod 65536;
          adj = roundup4 idx - idx; buf_len = (idx + adj) mod 65536 in
      case mem_put 4 (sh_desc h) (replicate (length data + 1) 0) of Inl f \<Rightarrow> Inl f | Inr m1 \<Rightarrow>
      case mem_put idx1 pay m1 of Inl f \<Rightarrow> Inl f | Inr m2 \<Rightarrow>
      case mem_put idx (replicate adj 0) m2 of Inl f \<Rightarrow> Inl f | Inr m3 \<Rightarrow>
      case mem_put 0 (usb_header buf_len) m3 of Inl f \<Rightarrow> Inl f | Inr m4 \<Rightarrow> Inr (m4, buf_len))"

definition us_pull :: "nat \<Rightarrow> usb_skb \<Rightarrow> usb_skb" where
  "us_pull n s = (if n \<le> length (us_data s) then s\<lparr>us_room := us_room s + n, us_data := drop n (us_data s)\<rparr> else s)"

text \<open>\<open>skb_push\<close> traps when there is no room; the bytes it uncovers are written by the \<open>memcpy\<close> that follows.\<close>

definition us_push :: "u8 list \<Rightarrow> usb_skb \<Rightarrow> fault + usb_skb" where
  "us_push bs s = (if length bs \<le> us_room s then Inr (s\<lparr>us_room := us_room s - length bs, us_data := bs @ us_data s\<rparr>) else Inl KernelBug)"

definition plain_frame :: "sw_txhdr \<Rightarrow> usb_skb \<Rightarrow> fault + usb_skb" where
  "plain_frame h s =
     (case us_push (sh_desc h) (us_pull (sh_headroom h) s) of
        Inl f \<Rightarrow> Inl f
      | Inr s1 \<Rightarrow> us_push (usb_header (length (us_data s1) + 4)) s1)"

text \<open>The payload of the request, the bytes to send, and the device after what was freed.\<close>

definition tx_build :: "usb_env \<Rightarrow> sw_txhdr \<Rightarrow> usb_skb \<Rightarrow> usb_dev \<Rightarrow> fault + tx_payload \<times> u8 list \<times> usb_dev" where
  "tx_build e h s d =
     (if sh_need_cfm h then
        (case usb_alloc e d of
           (None, _) \<Rightarrow> Inl NullDeref
         | (Some _, d1) \<Rightarrow>
             (case cfm_copy h (us_data s) of
                Inl f \<Rightarrow> Inl f
              | Inr (buf, n) \<Rightarrow> Inr (PCopy (us_id s) buf, take n buf, d1)))
      else
        (case plain_frame h s of
           Inl f \<Rightarrow> Inl f
         | Inr s1 \<Rightarrow> Inr (PSkb s1, us_data s1, log_usb [HdrFree (us_id s)] d)))"

text \<open>Alignment: an unaligned frame is copied once more; the request gets a null buffer when that allocation fails.\<close>

definition tx_fill :: "usb_env \<Rightarrow> u8 list \<Rightarrow> usb_buf \<Rightarrow> usb_dev \<Rightarrow> usb_buf \<times> usb_dev" where
  "tx_fill e buf u d =
     (case is_aligned e d of
        (True, d1) \<Rightarrow> (u\<lparr>ub_xfer := Some buf\<rparr>, d1)
      | (False, d1) \<Rightarrow>
          (case usb_alloc e d1 of
             (None, d2) \<Rightarrow> (u\<lparr>ub_align := None, ub_xfer := None\<rparr>, d2)
           | (Some a, d2) \<Rightarrow> (u\<lparr>ub_align := Some a, ub_xfer := Some buf\<rparr>, d2)))"

definition aicwf_usb_bus_txdata :: "usb_env \<Rightarrow> sw_txhdr \<Rightarrow> usb_skb \<Rightarrow> usb_dev \<Rightarrow> fault + int \<times> usb_dev" where
  "aicwf_usb_bus_txdata e h s d =
     (if ud_state d \<noteq> USB_UP_ST then Inr (- EIO, log_usb [HdrFree (us_id s), KfreeSkb s] d)
      else
        (case tx_free_get d of
           (None, d1) \<Rightarrow> Inr (- ENOMEM, flow_stop (log_usb [HdrFree (us_id s), KfreeSkb s] d1))
         | (Some u, d1) \<Rightarrow>
             (case tx_build e h s d1 of
                Inl f \<Rightarrow> Inl f
              | Inr (p, buf, d2) \<Rightarrow>
                  (case tx_fill e buf (u\<lparr>ub_skb := Some p, ub_cfm := sh_need_cfm h\<rparr>) d2 of
                     (u', d3) \<Rightarrow> let d4 = tx_post_put u' d3 in Inr (0, flow_stop (d4\<lparr>ud_tx_trgg := Suc (ud_tx_trgg d4)\<rparr>))))))"

text \<open>\<open>aicwf_frame_tx\<close> of aicwf_txrxif.c, through which the transmit path reaches the bus.\<close>

definition aicwf_frame_tx :: "usb_env \<Rightarrow> sw_txhdr \<Rightarrow> usb_skb \<Rightarrow> usb_dev \<Rightarrow> fault + usb_dev" where
  "aicwf_frame_tx e h s d =
     (if ud_state d = USB_DOWN_ST then
        (let d1 = if ud_tbusy d then d else aicwf_usb_tx_flowctrl True d in Inr (log_usb [HdrFree (us_id s), KfreeSkb s] d1))
      else map_sum id snd (aicwf_usb_bus_txdata e h s d))"

section \<open>The transmit thread and completions\<close>

text \<open>\<open>dev_kfree_skb\<close> of what the request holds: a copy from \<open>kmalloc\<close> is no socket buffer.\<close>

definition kfree_payload :: "tx_payload option \<Rightarrow> usb_dev \<Rightarrow> fault + usb_dev" where
  "kfree_payload p d =
     (case p of None \<Rightarrow> Inr d | Some (PSkb s) \<Rightarrow> Inr (log_usb [KfreeSkb s] d) | Some (PCopy _ _) \<Rightarrow> Inl InvalidFree)"

definition kfree_copy :: "tx_payload option \<Rightarrow> usb_dev \<Rightarrow> fault + usb_dev" where
  "kfree_copy p d =
     (case p of None \<Rightarrow> Inr d | Some (PCopy k _) \<Rightarrow> Inr (log_usb [KfreeCopy k] d) | Some (PSkb _) \<Rightarrow> Inl InvalidFree)"

function aicwf_usb_tx_process :: "usb_env \<Rightarrow> usb_dev \<Rightarrow> fault + usb_dev" where
  "aicwf_usb_tx_process e d =
     (case ud_tx_post d of
        [] \<Rightarrow> Inr d
      | _ \<Rightarrow>
          if ud_state d \<noteq> USB_UP_ST then Inr d
          else
            (case tx_post_get d of
               (None, d1) \<Rightarrow> Inr d1
             | (Some u, d1) \<Rightarrow>
                 if ub_skb u = None then Inl NullDeref
                 else
                   (case usb_submit_urb e d1 of
                      (ret, d2) \<Rightarrow>
                        if ret = 0 then aicwf_usb_tx_process e (d2\<lparr>ud_tx_flight := ud_tx_flight d2 @ [u]\<rparr>)
                        else
                          (case kfree_payload (ub_skb u) d2 of
                             Inl f \<Rightarrow> Inl f
                           | Inr d3 \<Rightarrow> aicwf_usb_tx_process e (tx_free_put (u\<lparr>ub_skb := None\<rparr>) d3)))))"
  by pat_completeness auto

text \<open>A pass of the thread after a completion: it ends when the bus is down.\<close>

definition bustx_pass :: "usb_env \<Rightarrow> usb_dev \<Rightarrow> fault + bool \<times> usb_dev" where
  "bustx_pass e d =
     (if \<not> ud_bus_up d then Inr (False, d)
      else if ud_tx_post_count d > 0 then map_sum id (Pair True) (aicwf_usb_tx_process e d)
      else Inr (True, d))"

text \<open>The completion of the request at position \<open>i\<close> of those that the USB core holds.\<close>

definition aicwf_usb_tx_complete :: "nat \<Rightarrow> usb_dev \<Rightarrow> fault + usb_dev" where
  "aicwf_usb_tx_complete i d =
     (let u = ud_tx_flight d ! i; d0 = d\<lparr>ud_tx_flight := remove_nth i (ud_tx_flight d)\<rparr>;
          d1 = log_usb (case ub_align u of None \<Rightarrow> [] | Some a \<Rightarrow> [AlignFree a]) d0
      in case (if ub_cfm u then kfree_copy (ub_skb u) d1 else kfree_payload (ub_skb u) d1) of
           Inl f \<Rightarrow> Inl f
         | Inr d2 \<Rightarrow> Inr (flow_wake (tx_free_put (u\<lparr>ub_align := None, ub_skb := None\<rparr>) d2)))"

function aicwf_usb_tx_prepare :: "usb_dev \<Rightarrow> fault + usb_dev" where
  "aicwf_usb_tx_prepare d =
     (case tx_post_get d of
        (None, d1) \<Rightarrow> Inr d1
      | (Some u, d1) \<Rightarrow>
          (case kfree_payload (ub_skb u) d1 of
             Inl f \<Rightarrow> Inl f
           | Inr d2 \<Rightarrow> aicwf_usb_tx_prepare (tx_free_put (u\<lparr>ub_skb := None\<rparr>) d2)))"
  by pat_completeness auto

termination aicwf_usb_tx_process
  by (relation "measure (length \<circ> ud_tx_post \<circ> snd)")
    (auto simp: tx_post_get_def usb_submit_urb_def kfree_payload_def log_usb_def tx_free_put_def split: list.splits option.splits tx_payload.splits)

termination aicwf_usb_tx_prepare
  by (relation "measure (length \<circ> ud_tx_post)")
    (auto simp: tx_post_get_def kfree_payload_def log_usb_def tx_free_put_def split: list.splits option.splits tx_payload.splits)

declare aicwf_usb_tx_process.simps [simp del] aicwf_usb_tx_prepare.simps [simp del]

section \<open>Receive requests\<close>

text \<open>
  A request of the data endpoint gets a new buffer and is handed to the USB core; it goes back to the free list when the bus is not
  up, when there is no memory and when the USB core refuses it.
\<close>

definition aicwf_usb_submit_rx_urb :: "usb_env \<Rightarrow> nat \<Rightarrow> usb_dev \<Rightarrow> int \<times> usb_dev" where
  "aicwf_usb_submit_rx_urb e r d =
     (if ud_state d \<noteq> USB_UP_ST then (- 1, d\<lparr>ud_rx_free := ud_rx_free d @ [r]\<rparr>)
      else
        (case usb_alloc e d of
           (None, d1) \<Rightarrow> (- 1, d1\<lparr>ud_rx_free := ud_rx_free d1 @ [r]\<rparr>)
         | (Some _, d1) \<Rightarrow>
             (case usb_submit_urb e d1 of
                (ret, d2) \<Rightarrow>
                  if ret \<noteq> 0 then (- 1, d2\<lparr>ud_rx_free := ud_rx_free d2 @ [r]\<rparr>)
                  else (0, d2\<lparr>ud_rx_flight := ud_rx_flight d2 @ [r], ud_rx_urb_cnt := ud_rx_urb_cnt d2 + 1\<rparr>))))"

text \<open>The loop of \<open>aicwf_usb_rx_submit_all_urb\<close>: it gives up at the first failure.\<close>

function rx_submit_loop :: "usb_env \<Rightarrow> usb_dev \<Rightarrow> usb_dev" where
  "rx_submit_loop e d =
     (case ud_rx_free d of
        [] \<Rightarrow> d\<lparr>ud_rx_prepare_ready := True\<rparr>
      | r # rs \<Rightarrow>
          (case aicwf_usb_submit_rx_urb e r (d\<lparr>ud_rx_free := rs\<rparr>) of
             (ret, d1) \<Rightarrow> if ret \<noteq> 0 then d1 else rx_submit_loop e d1))"
  by pat_completeness auto
termination rx_submit_loop
  by (relation "measure (length \<circ> ud_rx_free \<circ> snd)")
    (auto simp: aicwf_usb_submit_rx_urb_def usb_alloc_def usb_submit_urb_def split: if_splits)

declare rx_submit_loop.simps [simp del]

definition aicwf_usb_rx_submit_all_urb :: "usb_env \<Rightarrow> usb_dev \<Rightarrow> usb_dev" where
  "aicwf_usb_rx_submit_all_urb e d = (if ud_state d \<noteq> USB_UP_ST then d else rx_submit_loop e d)"

text \<open>
  A request of the message endpoint. It reports success also when the USB core refused the request, and the loop goes on after a
  failure while the bus is up: the loop may not end, hence the fuel.
\<close>

definition aicwf_usb_submit_msg_rx_urb :: "usb_env \<Rightarrow> nat \<Rightarrow> usb_dev \<Rightarrow> int \<times> usb_dev" where
  "aicwf_usb_submit_msg_rx_urb e r d =
     (if ud_state d \<noteq> USB_UP_ST then (- 1, d\<lparr>ud_msg_free := ud_msg_free d @ [r]\<rparr>)
      else
        (case usb_alloc e d of
           (None, d1) \<Rightarrow> (- 1, d1\<lparr>ud_msg_free := ud_msg_free d1 @ [r]\<rparr>)
         | (Some _, d1) \<Rightarrow>
             (case usb_submit_urb e d1 of
                (ret, d2) \<Rightarrow>
                  if ret \<noteq> 0 then (0, d2\<lparr>ud_msg_free := ud_msg_free d2 @ [r]\<rparr>)
                  else (0, d2\<lparr>ud_msg_flight := ud_msg_flight d2 @ [r]\<rparr>))))"

fun msg_submit_loop :: "nat \<Rightarrow> usb_env \<Rightarrow> usb_dev \<Rightarrow> usb_dev option" where
  "msg_submit_loop 0 e d = None"
| "msg_submit_loop (Suc fuel) e d =
     (case ud_msg_free d of
        [] \<Rightarrow> Some d
      | r # rs \<Rightarrow>
          (case aicwf_usb_submit_msg_rx_urb e r (d\<lparr>ud_msg_free := rs\<rparr>) of
             (ret, d1) \<Rightarrow> if ret \<noteq> 0 \<and> ud_state d1 \<noteq> USB_UP_ST then Some d1 else msg_submit_loop fuel e d1))"

definition aicwf_usb_msg_rx_submit_all_urb :: "nat \<Rightarrow> usb_env \<Rightarrow> usb_dev \<Rightarrow> usb_dev option" where
  "aicwf_usb_msg_rx_submit_all_urb fuel e d = (if ud_state d \<noteq> USB_UP_ST then Some d else msg_submit_loop fuel e d)"

record urb =
  urb_status :: int
  urb_actual :: nat
  urb_length :: nat

text \<open>A request that was cancelled: waiting for the disconnect callback.\<close>

definition wait_disconnect :: "usb_dev \<Rightarrow> usb_dev" where
  "wait_disconnect d =
     (if ud_wait_disconnect d then d
      else if ud_deinit d > 0 then log_usb [SemDown] (d\<lparr>ud_wait_disconnect := True, ud_deinit := 0\<rparr>)
      else d\<lparr>ud_wait_disconnect := False\<rparr>)"

text \<open>
  The whole handler of a completed receive request: the request at position \<open>i\<close> of those that the USB core holds, its status and
  lengths, and the buffer \<open>s\<close> with what was received; \<open>ready\<close> is whether \<open>usb_dev->rwnx_hw\<close> is set. The queue, the
  counter and the thread are those of \<open>RxFrames\<close>.
\<close>

definition usb_rx_done :: "usb_env \<Rightarrow> bool \<Rightarrow> nat \<Rightarrow> urb \<Rightarrow> rx_skb \<Rightarrow> usb_dev \<times> rx_bus \<Rightarrow> fault + usb_dev \<times> rx_bus" where
  "usb_rx_done e ready i u s = (\<lambda>(d, b).
     let d0 = d\<lparr>ud_rx_flight := remove_nth i (ud_rx_flight d), ud_rx_urb_cnt := ud_rx_urb_cnt d - 1\<rparr>;
         d1 = d0\<lparr>ud_rx_free := ud_rx_free d0 @ [ud_rx_flight d ! i]\<rparr>
     in if \<not> ready then Inr (d1, bus_emit [SkbFree s] b)
        else if urb_actual u > urb_length u then Inr (aicwf_usb_rx_submit_all_urb e d1, bus_emit [SkbFree s] b)
        else if urb_status u \<noteq> 0 \<or> urb_actual u = 0
        then Inr (if urb_status u < 0 then wait_disconnect d1 else aicwf_usb_rx_submit_all_urb e d1, bus_emit [SkbFree s] b)
        else
          (case aicwf_usb_rx_complete (ud_state d = USB_UP_ST) s b of
             Inl f \<Rightarrow> Inl f
           | Inr b1 \<Rightarrow> Inr (if ud_state d = USB_UP_ST then aicwf_usb_rx_submit_all_urb e d1 else d1, b1)))"

text \<open>The handler of the message endpoint: a request whose transfer does not fit into the queue is not put back.\<close>

definition usb_msg_rx_done :: "nat \<Rightarrow> usb_env \<Rightarrow> nat \<Rightarrow> urb \<Rightarrow> rx_skb \<Rightarrow> usb_dev \<times> rx_bus \<Rightarrow> (fault + usb_dev \<times> rx_bus) option" where
  "usb_msg_rx_done fuel e i u s = (\<lambda>(d, b).
     let d0 = d\<lparr>ud_msg_flight := remove_nth i (ud_msg_flight d)\<rparr>; d1 = d0\<lparr>ud_msg_free := ud_msg_free d0 @ [ud_msg_flight d ! i]\<rparr>;
         again = (\<lambda>b'. map_option (\<lambda>d'. Inr (d', b')) (aicwf_usb_msg_rx_submit_all_urb fuel e d1))
     in if urb_actual u > urb_length u then again (bus_emit [SkbFree s] b)
        else if urb_status u \<noteq> 0 \<or> urb_actual u = 0
        then (if urb_status u < 0 then Some (Inr (d1, bus_emit [SkbFree s] b)) else again (bus_emit [SkbFree s] b))
        else if ud_state d \<noteq> USB_UP_ST then Some (Inr (d1, bus_emit [SkbFree s] b))
        else
          (case rx_complete_enqueue s b of
             Inl f \<Rightarrow> Some (Inl f)
           | Inr (False, b1) \<Rightarrow> Some (Inr (d0, b1))
           | Inr (True, b1) \<Rightarrow> again ((rx_complete_count b1)\<lparr>rb_trgg := rb_trgg b1 + 1\<rparr>)))"

section \<open>Starting and stopping\<close>

definition aicwf_usb_state_change :: "aicwf_usb_state \<Rightarrow> usb_dev \<Rightarrow> usb_dev" where
  "aicwf_usb_state_change st d =
     (if ud_state d = st then d
      else d\<lparr>ud_state := st, ud_bus_up := (if st = USB_DOWN_ST then False else if st = USB_UP_ST then True else ud_bus_up d)\<rparr>)"

definition aicwf_usb_bus_start :: "nat \<Rightarrow> usb_env \<Rightarrow> usb_dev \<Rightarrow> (fault + int \<times> usb_dev) option" where
  "aicwf_usb_bus_start fuel e d =
     (if ud_state d = USB_UP_ST then Some (Inr (0, d))
      else
        let d1 = aicwf_usb_rx_submit_all_urb e ((aicwf_usb_state_change USB_UP_ST d)\<lparr>ud_rx_prepare_ready := False\<rparr>) in
        (case aicwf_usb_tx_prepare d1 of
           Inl f \<Rightarrow> Some (Inl f)
         | Inr d2 \<Rightarrow>
             (case (if ud_msg_in_pipe d2 then aicwf_usb_msg_rx_submit_all_urb fuel e d2 else Some d2) of
                None \<Rightarrow> None
              | Some d3 \<Rightarrow> Some (Inr (if ud_rx_prepare_ready d3 then 0 else - 1, d3)))))"

definition aicwf_usb_bus_stop :: "usb_dev \<Rightarrow> usb_dev" where
  "aicwf_usb_bus_stop d =
     (if ud_state d = USB_DOWN_ST then d
      else aicwf_usb_state_change USB_DOWN_ST (if ud_wait_disconnect d then log_usb [SemUp] (d\<lparr>ud_deinit := 1\<rparr>) else d))"

definition aicwf_usb_suspend :: "usb_dev \<Rightarrow> usb_dev" where
  "aicwf_usb_suspend d =
     (let d1 = d\<lparr>ud_vifs := map (\<lambda>v. if uv_ndev v then v\<lparr>uv_stopped := True\<rparr> else v) (ud_vifs d)\<rparr>;
          d2 = aicwf_usb_bus_stop (aicwf_usb_state_change USB_SLEEP_ST d1)
      in d2\<lparr>ud_vifs := map (\<lambda>v. if uv_ndev v then v\<lparr>uv_present := False\<rparr> else v) (ud_vifs d2)\<rparr>)"

text \<open>The result of \<open>aicwf_bus_start\<close> is not looked at.\<close>

definition aicwf_usb_resume :: "nat \<Rightarrow> usb_env \<Rightarrow> usb_dev \<Rightarrow> (fault + usb_dev) option" where
  "aicwf_usb_resume fuel e d =
     (let d1 = d\<lparr>ud_vifs := map (\<lambda>v. if uv_ndev v then v\<lparr>uv_present := True\<rparr> else v) (ud_vifs d)\<rparr> in
      case (if ud_state d1 \<noteq> USB_UP_ST then aicwf_usb_bus_start fuel e d1 else Some (Inr (0, d1))) of
        None \<Rightarrow> None
      | Some (Inl f) \<Rightarrow> Some (Inl f)
      | Some (Inr (_, d2)) \<Rightarrow> Some (Inr (d2\<lparr>ud_vifs := map (\<lambda>v. if uv_ndev v then v\<lparr>uv_stopped := False\<rparr> else v) (ud_vifs d2)\<rparr>)))"

section \<open>Set-up\<close>

definition fresh_buf :: "nat \<Rightarrow> usb_buf" where
  "fresh_buf i = \<lparr>ub_idx = i, ub_skb = None, ub_cfm = False, ub_align = None, ub_xfer = None\<rparr>"

text \<open>The loops that allocate the requests; when an allocation fails \<open>aicwf_usb_free_urb\<close> empties the list again.\<close>

fun alloc_rx_loop :: "usb_env \<Rightarrow> nat list \<Rightarrow> usb_dev \<Rightarrow> bool \<times> usb_dev" where
  "alloc_rx_loop e [] d = (True, d)"
| "alloc_rx_loop e (i # is) d =
     (case usb_alloc e d of (None, d1) \<Rightarrow> (False, d1) | (Some _, d1) \<Rightarrow> alloc_rx_loop e is (d1\<lparr>ud_rx_free := ud_rx_free d1 @ [i]\<rparr>))"

definition aicwf_usb_alloc_rx_urb :: "usb_env \<Rightarrow> usb_dev \<Rightarrow> int \<times> usb_dev" where
  "aicwf_usb_alloc_rx_urb e d =
     (case alloc_rx_loop e [0 ..< AICWF_USB_RX_URBS] d of (True, d1) \<Rightarrow> (0, d1) | (False, d1) \<Rightarrow> (- ENOMEM, d1\<lparr>ud_rx_free := []\<rparr>))"

fun alloc_tx_loop :: "usb_env \<Rightarrow> nat list \<Rightarrow> usb_dev \<Rightarrow> bool \<times> usb_dev" where
  "alloc_tx_loop e [] d = (True, d)"
| "alloc_tx_loop e (i # is) d =
     (case usb_alloc e d of (None, d1) \<Rightarrow> (False, d1) | (Some _, d1) \<Rightarrow> alloc_tx_loop e is (tx_free_put (fresh_buf i) d1))"

definition aicwf_usb_alloc_tx_urb :: "usb_env \<Rightarrow> usb_dev \<Rightarrow> int \<times> usb_dev" where
  "aicwf_usb_alloc_tx_urb e d =
     (case alloc_tx_loop e [0 ..< AICWF_USB_TX_URBS] d of (True, d1) \<Rightarrow> (0, d1) | (False, d1) \<Rightarrow> (- ENOMEM, d1\<lparr>ud_tx_free := []\<rparr>))"

fun alloc_msg_loop :: "usb_env \<Rightarrow> nat list \<Rightarrow> usb_dev \<Rightarrow> bool \<times> usb_dev" where
  "alloc_msg_loop e [] d = (True, d)"
| "alloc_msg_loop e (i # is) d =
     (case usb_alloc e d of (None, d1) \<Rightarrow> (False, d1) | (Some _, d1) \<Rightarrow> alloc_msg_loop e is (d1\<lparr>ud_msg_free := ud_msg_free d1 @ [i]\<rparr>))"

definition aicwf_usb_alloc_msg_rx_urb :: "usb_env \<Rightarrow> usb_dev \<Rightarrow> int \<times> usb_dev" where
  "aicwf_usb_alloc_msg_rx_urb e d =
     (case alloc_msg_loop e [0 ..< AICWF_USB_MSG_RX_URBS] d of (True, d1) \<Rightarrow> (0, d1) | (False, d1) \<Rightarrow> (- ENOMEM, d1\<lparr>ud_msg_free := []\<rparr>))"

definition aicwf_usb_deinit :: "usb_dev \<Rightarrow> usb_dev" where
  "aicwf_usb_deinit d = d\<lparr>ud_rx_free := [], ud_tx_free := [], ud_msg_free := (if ud_msg_in_pipe d then [] else ud_msg_free d)\<rparr>"

text \<open>The last allocation is that of the request for messages; its error has the wrong sign.\<close>

definition aicwf_usb_init :: "usb_env \<Rightarrow> usb_dev \<Rightarrow> int \<times> usb_dev" where
  "aicwf_usb_init e d =
     (let d0 = d\<lparr>ud_tbusy := False, ud_state := USB_DOWN_ST, ud_rx_free := [], ud_tx_free := [], ud_tx_post := [],
            ud_msg_free := (if ud_msg_in_pipe d then [] else ud_msg_free d), ud_rx_urb_cnt := 0, ud_tx_free_count := 0, ud_tx_post_count := 0\<rparr>;
          fail = (\<lambda>ret d'. (ret, aicwf_usb_deinit d'))
      in case aicwf_usb_alloc_rx_urb e d0 of (ret, d1) \<Rightarrow>
         if ret \<noteq> 0 then fail ret d1 else
         case aicwf_usb_alloc_tx_urb e d1 of (ret, d2) \<Rightarrow>
         if ret \<noteq> 0 then fail ret d2 else
         case (if ud_msg_in_pipe d2 then aicwf_usb_alloc_msg_rx_urb e d2 else (0, d2)) of (ret, d3) \<Rightarrow>
         if ret \<noteq> 0 then fail ret d3 else
         case usb_alloc e d3 of (None, d4) \<Rightarrow> fail ENOMEM d4 | (Some _, d4) \<Rightarrow> (0, d4))"

end
