(* ===== verification/UsbPool.thy ===== *)
theory UsbPool
  imports UsbBus "HOL-Library.Multiset"
begin

text \<open>
  What the USB bus guarantees: every transmit request is in exactly one place, the counters and the flow control agree
  with the lists, every frame is freed exactly once, and the receive requests are never lost; and where it fails.
\<close>

section \<open>Frames that are held and frames that were freed\<close>

fun payload_id :: "tx_payload \<Rightarrow> nat" where
  "payload_id (PSkb s) = us_id s"
| "payload_id (PCopy k _) = k"

definition held :: "usb_buf list \<Rightarrow> nat multiset" where
  "held us = image_mset payload_id (mset (List.map_filter ub_skb us))"

fun event_ids :: "usb_event \<Rightarrow> nat list" where
  "event_ids (KfreeSkb s) = [us_id s]"
| "event_ids (KfreeCopy k) = [k]"
| "event_ids _ = []"

definition freed :: "usb_event list \<Rightarrow> nat multiset" where
  "freed es = mset (concat (map event_ids es))"

lemma held_simps [simp]:
  "held [] = {#}" "held (us @ vs) = held us + held vs"
  "held (u # us) = (case ub_skb u of None \<Rightarrow> {#} | Some p \<Rightarrow> {#payload_id p#}) + held us"
  by (simp_all add: held_def map_filter_def split: option.splits)

lemma freed_simps [simp]: "freed [] = {#}" "freed (es @ fs) = freed es + freed fs" "freed (v # es) = mset (event_ids v) + freed es"
  by (simp_all add: freed_def)

text \<open>What a request may hold: a copy if and only if its frame is confirmed.\<close>

definition buf_busy :: "usb_buf \<Rightarrow> bool" where
  "buf_busy u \<longleftrightarrow> (case ub_skb u of None \<Rightarrow> False | Some (PSkb _) \<Rightarrow> \<not> ub_cfm u | Some (PCopy _ _) \<Rightarrow> ub_cfm u)"

definition buf_idle :: "usb_buf \<Rightarrow> bool" where
  "buf_idle u \<longleftrightarrow> ub_skb u = None"

definition tx_inv :: "nat list \<Rightarrow> usb_dev \<Rightarrow> bool" where
  "tx_inv acc d \<longleftrightarrow>
     mset (map ub_idx (ud_tx_free d @ ud_tx_post d @ ud_tx_flight d)) = mset [0 ..< AICWF_USB_TX_URBS]
     \<and> list_all buf_idle (ud_tx_free d) \<and> list_all buf_busy (ud_tx_post d) \<and> list_all buf_busy (ud_tx_flight d)
     \<and> ud_tx_free_count d = int (length (ud_tx_free d)) \<and> ud_tx_post_count d = int (length (ud_tx_post d))
     \<and> (\<not> ud_tbusy d \<longrightarrow> AICWF_USB_TX_LOW_WATER \<le> ud_tx_free_count d)
     \<and> mset acc = freed (ud_log d) + held (ud_tx_post d) + held (ud_tx_flight d)"

definition rx_inv :: "usb_dev \<Rightarrow> bool" where
  "rx_inv d \<longleftrightarrow> mset (ud_rx_free d @ ud_rx_flight d) = mset [0 ..< AICWF_USB_RX_URBS] \<and> ud_rx_urb_cnt d = int (length (ud_rx_flight d))"

text \<open>The fields that the receive side leaves alone, and those that the transmit side leaves alone.\<close>

definition tx_view :: "usb_dev \<Rightarrow> usb_buf list \<times> int \<times> usb_buf list \<times> int \<times> usb_buf list \<times> bool \<times> nat multiset" where
  "tx_view d = (ud_tx_free d, ud_tx_free_count d, ud_tx_post d, ud_tx_post_count d, ud_tx_flight d, ud_tbusy d, freed (ud_log d))"

definition rx_view :: "usb_dev \<Rightarrow> nat list \<times> nat list \<times> int" where
  "rx_view d = (ud_rx_free d, ud_rx_flight d, ud_rx_urb_cnt d)"

lemma tx_inv_view: "tx_view d' = tx_view d \<Longrightarrow> tx_inv acc d' = tx_inv acc d"
  by (simp add: tx_view_def tx_inv_def)

lemma rx_inv_view: "rx_view d' = rx_view d \<Longrightarrow> rx_inv d' = rx_inv d"
  by (simp add: rx_view_def rx_inv_def)

section \<open>The transmit side keeps its invariant\<close>

lemmas usb_prims = tx_free_get_def tx_free_put_def tx_post_get_def tx_post_put_def usb_submit_urb_def usb_alloc_def is_aligned_def
  log_usb_def flow_stop_def flow_wake_def aicwf_usb_tx_flowctrl_def kfree_payload_def kfree_copy_def

lemma tx_build_spec:
  assumes "tx_build e h s d = Inr (p, buf, d')"
  shows "tx_view d' = tx_view d" "rx_view d' = rx_view d" "payload_id p = us_id s" "(\<exists>k m. p = PCopy k m) = sh_need_cfm h"
    "ud_state d' = ud_state d"
proof -
  have push: "us_id s1 = us_id s0" if "us_push bs s0 = Inr s1" for bs s0 s1 using that by (auto simp: us_push_def split: if_splits)
  have plain: "us_id s1 = us_id s" if "plain_frame h s = Inr s1" for s1
    using that by (auto simp: plain_frame_def us_pull_def split: sum.splits if_splits dest!: push)
  show "tx_view d' = tx_view d" "rx_view d' = rx_view d" "payload_id p = us_id s" "(\<exists>k m. p = PCopy k m) = sh_need_cfm h" "ud_state d' = ud_state d"
    using assms plain by (auto simp: tx_build_def usb_prims tx_view_def rx_view_def split: if_splits sum.splits)
qed

lemma tx_fill_spec:
  assumes "tx_fill e buf u d = (u', d')"
  shows "tx_view d' = tx_view d" "rx_view d' = rx_view d" "ub_idx u' = ub_idx u" "ub_skb u' = ub_skb u" "ub_cfm u' = ub_cfm u" "ud_state d' = ud_state d"
  using assms by (auto simp: tx_fill_def usb_prims tx_view_def rx_view_def split: bool.splits if_splits)

lemma txdata_inv:
  assumes "tx_inv acc d" and "aicwf_usb_bus_txdata e h s d = Inr (r, d')"
  shows "tx_inv (us_id s # acc) d'" "rx_view d' = rx_view d" "ud_state d' = ud_state d"
proof -
  consider (drop) "ud_state d \<noteq> USB_UP_ST \<or> ud_tx_free d = []" | (send) u us where "ud_state d = USB_UP_ST" "ud_tx_free d = u # us"
    by (cases "ud_tx_free d") auto
  then have "tx_inv (us_id s # acc) d' \<and> rx_view d' = rx_view d \<and> ud_state d' = ud_state d"
  proof cases
    case drop
    then show ?thesis using assms by (auto simp: aicwf_usb_bus_txdata_def usb_prims tx_inv_def rx_view_def split: if_splits)
  next
    case send
    let ?d1 = "d\<lparr>ud_tx_free := us, ud_tx_free_count := ud_tx_free_count d - 1\<rparr>"
    from send assms(2) obtain p buf d2 u' d3 where b: "tx_build e h s ?d1 = Inr (p, buf, d2)"
        and f: "tx_fill e buf (u\<lparr>ub_skb := Some p, ub_cfm := sh_need_cfm h\<rparr>) d2 = (u', d3)"
        and d': "d' = flow_stop ((tx_post_put u' d3)\<lparr>ud_tx_trgg := Suc (ud_tx_trgg (tx_post_put u' d3))\<rparr>)"
      by (auto simp: aicwf_usb_bus_txdata_def tx_free_get_def Let_def split: sum.splits prod.splits)
    note B = tx_build_spec [OF b] and F = tx_fill_spec [OF f]
    have v: "tx_view d3 = tx_view ?d1" "rx_view d3 = rx_view ?d1" "ud_state d3 = ud_state ?d1" using B(1, 2, 5) F(1, 2, 6) by simp_all
    have "buf_busy u'" using B(4) F(4, 5) by (cases p) (auto simp: buf_busy_def)
    then show ?thesis
      using assms(1) send v F(3, 4) B(3) by (auto simp: d' usb_prims tx_inv_def tx_view_def rx_view_def)
  qed
  then show "tx_inv (us_id s # acc) d'" "rx_view d' = rx_view d" "ud_state d' = ud_state d" by blast+
qed

lemma frame_tx_inv:
  assumes "tx_inv acc d" and "aicwf_frame_tx e h s d = Inr d'"
  shows "tx_inv (us_id s # acc) d'" "rx_view d' = rx_view d"
proof -
  have "tx_inv (us_id s # acc) d' \<and> rx_view d' = rx_view d"
  proof (cases "ud_state d = USB_DOWN_ST")
    case True
    then show ?thesis using assms by (auto simp: aicwf_frame_tx_def Let_def usb_prims tx_inv_def rx_view_def)
  next
    case False
    then obtain r where "aicwf_usb_bus_txdata e h s d = Inr (r, d')"
      using assms(2) by (cases "aicwf_usb_bus_txdata e h s d") (auto simp: aicwf_frame_tx_def)
    then show ?thesis using txdata_inv [OF assms(1)] by blast
  qed
  then show "tx_inv (us_id s # acc) d'" "rx_view d' = rx_view d" by blast+
qed

text \<open>A round of the transmit loop: the request goes to the USB core, or back to the free list with its frame freed.\<close>

definition tx_sent :: "usb_buf \<Rightarrow> usb_buf list \<Rightarrow> usb_dev \<Rightarrow> usb_dev" where
  "tx_sent u us d =
     d\<lparr>ud_tx_post := us, ud_tx_post_count := ud_tx_post_count d - 1, ud_clock := Suc (ud_clock d), ud_tx_flight := ud_tx_flight d @ [u]\<rparr>"

definition tx_refused :: "usb_buf \<Rightarrow> usb_buf list \<Rightarrow> usb_skb \<Rightarrow> usb_dev \<Rightarrow> usb_dev" where
  "tx_refused u us s d =
     tx_free_put (u\<lparr>ub_skb := None\<rparr>)
       (log_usb [KfreeSkb s] (d\<lparr>ud_tx_post := us, ud_tx_post_count := ud_tx_post_count d - 1, ud_clock := Suc (ud_clock d)\<rparr>))"

lemma tx_process_end: "ud_tx_post d = [] \<or> ud_state d \<noteq> USB_UP_ST \<Longrightarrow> aicwf_usb_tx_process e d = Inr d"
  by (auto simp: aicwf_usb_tx_process.simps [of e d] split: list.splits)

lemma tx_process_round:
  assumes "ud_tx_post d = u # us" and "ud_state d = USB_UP_ST"
  shows "ub_skb u = Some p \<Longrightarrow> ue_submit e (ud_clock d) = 0 \<Longrightarrow> aicwf_usb_tx_process e d = aicwf_usb_tx_process e (tx_sent u us d)"
    "ub_skb u = Some (PSkb s) \<Longrightarrow> ue_submit e (ud_clock d) \<noteq> 0 \<Longrightarrow> aicwf_usb_tx_process e d = aicwf_usb_tx_process e (tx_refused u us s d)"
    "ub_skb u = Some (PCopy k m) \<Longrightarrow> ue_submit e (ud_clock d) \<noteq> 0 \<Longrightarrow> aicwf_usb_tx_process e d = Inl InvalidFree"
  using assms by (simp_all add: aicwf_usb_tx_process.simps [of e d] usb_prims tx_sent_def tx_refused_def)

text \<open>The three ways a round goes, as an induction rule for the loop on well-formed lists.\<close>

lemma tx_process_cases [consumes 1, case_names stop sent refused confused]:
  assumes "list_all buf_busy (ud_tx_post d)"
    and "\<And>d. list_all buf_busy (ud_tx_post d) \<Longrightarrow> ud_tx_post d = [] \<or> ud_state d \<noteq> USB_UP_ST \<Longrightarrow> P d (Inr d)"
    and "\<And>d u us p. list_all buf_busy (ud_tx_post d) \<Longrightarrow> ud_tx_post d = u # us \<Longrightarrow> ud_state d = USB_UP_ST \<Longrightarrow> ub_skb u = Some p \<Longrightarrow> ue_submit e (ud_clock d) = 0
      \<Longrightarrow> P (tx_sent u us d) (aicwf_usb_tx_process e (tx_sent u us d)) \<Longrightarrow> P d (aicwf_usb_tx_process e (tx_sent u us d))"
    and "\<And>d u us s. list_all buf_busy (ud_tx_post d) \<Longrightarrow> ud_tx_post d = u # us \<Longrightarrow> ud_state d = USB_UP_ST \<Longrightarrow> ub_skb u = Some (PSkb s) \<Longrightarrow> \<not> ub_cfm u \<Longrightarrow> ue_submit e (ud_clock d) \<noteq> 0
      \<Longrightarrow> P (tx_refused u us s d) (aicwf_usb_tx_process e (tx_refused u us s d)) \<Longrightarrow> P d (aicwf_usb_tx_process e (tx_refused u us s d))"
    and "\<And>d u us k m. list_all buf_busy (ud_tx_post d) \<Longrightarrow> ud_tx_post d = u # us \<Longrightarrow> ud_state d = USB_UP_ST \<Longrightarrow> ub_skb u = Some (PCopy k m) \<Longrightarrow> ub_cfm u \<Longrightarrow> ue_submit e (ud_clock d) \<noteq> 0
      \<Longrightarrow> P d (Inl InvalidFree)"
  shows "P d (aicwf_usb_tx_process e d)"
  using assms(1)
proof (induction "length (ud_tx_post d)" arbitrary: d)
  case 0
  then show ?case using assms(2) [of d] tx_process_end [of d e] by simp
next
  case (Suc n)
  show ?case
  proof (cases "ud_state d = USB_UP_ST")
    case False
    then show ?thesis using assms(2) [of d] tx_process_end [of d e] Suc.prems by simp
  next
    case up: True
    obtain u us where u: "ud_tx_post d = u # us" "length us = n" using Suc.hyps(2) by (cases "ud_tx_post d") auto
    have IH: "P d1 (aicwf_usb_tx_process e d1)" if "ud_tx_post d1 = us" for d1 using Suc.hyps(1) [of d1] Suc.prems u that by simp
    have post: "ud_tx_post (tx_sent u us d) = us" "ud_tx_post (tx_refused u us s d) = us" for s by (simp_all add: tx_sent_def tx_refused_def usb_prims)
    obtain p where p: "ub_skb u = Some p" using Suc.prems u(1) by (cases "ub_skb u") (auto simp: buf_busy_def)
    show ?thesis
    proof (cases "ue_submit e (ud_clock d) = 0")
      case True
      then show ?thesis using assms(3) [OF Suc.prems u(1) up p] IH post tx_process_round(1) [OF u(1) up p] by simp
    next
      case F: False
      show ?thesis
      proof (cases p)
        case (PSkb s)
        then have "\<not> ub_cfm u" using Suc.prems u(1) p by (simp add: buf_busy_def)
        then show ?thesis using assms(4) [OF Suc.prems u(1) up] IH post tx_process_round(2) [OF u(1) up] F p PSkb by simp
      next
        case (PCopy k m)
        then have "ub_cfm u" using Suc.prems u(1) p by (simp add: buf_busy_def)
        then show ?thesis using assms(5) [OF Suc.prems u(1) up] tx_process_round(3) [OF u(1) up] F p PCopy by simp
      qed
    qed
  qed
qed

lemma tx_process_inv:
  assumes "tx_inv acc d" and "aicwf_usb_tx_process e d = Inr d'"
  shows "tx_inv acc d' \<and> rx_view d' = rx_view d"
proof -
  have "list_all buf_busy (ud_tx_post d)" using assms(1) by (simp add: tx_inv_def)
  then have "\<forall>d'. aicwf_usb_tx_process e d = Inr d' \<longrightarrow> tx_inv acc d \<longrightarrow> tx_inv acc d' \<and> rx_view d' = rx_view d"
  proof (cases rule: tx_process_cases [where e = e and P = "\<lambda>d r. \<forall>d'. r = Inr d' \<longrightarrow> tx_inv acc d \<longrightarrow> tx_inv acc d' \<and> rx_view d' = rx_view d"])
    case (sent d u us p)
    have "tx_inv acc d \<Longrightarrow> tx_inv acc (tx_sent u us d)" "rx_view (tx_sent u us d) = rx_view d"
      using sent(2) by (auto simp: tx_inv_def tx_sent_def rx_view_def)
    then show ?case using sent(6) by auto
  next
    case (refused d u us s)
    have "tx_inv acc d \<Longrightarrow> tx_inv acc (tx_refused u us s d)" "rx_view (tx_refused u us s d) = rx_view d"
      using refused(2, 4) by (auto simp: tx_inv_def tx_refused_def rx_view_def usb_prims buf_idle_def)
    then show ?case using refused(7) by auto
  qed auto
  then show ?thesis using assms by blast
qed

lemma bustx_pass_inv:
  assumes "tx_inv acc d" and "bustx_pass e d = Inr (r, d')"
  shows "tx_inv acc d' \<and> rx_view d' = rx_view d"
proof (cases "ud_bus_up d \<and> 0 < ud_tx_post_count d")
  case True
  then have "aicwf_usb_tx_process e d = Inr d'" using assms(2) by (cases "aicwf_usb_tx_process e d") (auto simp: bustx_pass_def)
  then show ?thesis using tx_process_inv [OF assms(1)] by blast
next
  case False
  then show ?thesis using assms by (auto simp: bustx_pass_def split: if_splits)
qed

lemma held_remove_nth: "i < length us \<Longrightarrow> held us = (case ub_skb (us ! i) of None \<Rightarrow> {#} | Some p \<Rightarrow> {#payload_id p#}) + held (remove_nth i us)"
proof -
  assume "i < length us"
  then have "us = take i us @ us ! i # drop (Suc i) us" by (rule id_take_nth_drop)
  then have "held us = held (take i us @ us ! i # drop (Suc i) us)" by simp
  then show ?thesis by (simp add: remove_nth_def)
qed

text \<open>A completion never frees with the wrong function, and gives the request back.\<close>

lemma tx_complete_inv:
  assumes "tx_inv acc d" and "i < length (ud_tx_flight d)"
  obtains d' where "aicwf_usb_tx_complete i d = Inr d'" "tx_inv acc d'" "rx_view d' = rx_view d"
proof -
  define u where "u = ud_tx_flight d ! i"
  note R = remove_nth_facts [OF assms(2)] and H = held_remove_nth [OF assms(2), folded u_def]
  have fl: "list_all buf_busy (ud_tx_flight d)" using assms(1) by (simp add: tx_inv_def)
  have u: "buf_busy u" "list_all buf_busy (remove_nth i (ud_tx_flight d))" using R(2) [OF fl] by (simp_all add: u_def)
  obtain p where p: "ub_skb u = Some p" using u(1) by (cases "ub_skb u") (auto simp: buf_busy_def)
  define ev where "ev = (case ub_align u of None \<Rightarrow> [] | Some a \<Rightarrow> [AlignFree a]) @ (case p of PSkb s \<Rightarrow> [KfreeSkb s] | PCopy k _ \<Rightarrow> [KfreeCopy k])"
  define d2 where "d2 = tx_free_put (u\<lparr>ub_align := None, ub_skb := None\<rparr>) (log_usb ev (d\<lparr>ud_tx_flight := remove_nth i (ud_tx_flight d)\<rparr>))"
  have "aicwf_usb_tx_complete i d = Inr (flow_wake d2)"
    using u(1) p by (cases p) (simp_all add: aicwf_usb_tx_complete_def Let_def buf_busy_def kfree_payload_def kfree_copy_def log_usb_def d2_def ev_def flip: u_def)
  moreover have "freed ev = {#payload_id p#}" by (cases p; cases "ub_align u") (simp_all add: ev_def)
  then have "tx_inv acc (flow_wake d2)"
    using assms(1) u(2) R(1) H p by (auto simp: tx_inv_def d2_def usb_prims buf_idle_def u_def)
  moreover have "rx_view (flow_wake d2) = rx_view d" by (simp add: d2_def usb_prims rx_view_def)
  ultimately show thesis using that by blast
qed

lemma tx_prepare_inv: "tx_inv acc d \<Longrightarrow> aicwf_usb_tx_prepare d = Inr d' \<Longrightarrow> tx_inv acc d' \<and> rx_view d' = rx_view d \<and> ud_state d' = ud_state d"
proof (induction "length (ud_tx_post d)" arbitrary: d)
  case 0
  then show ?case by (simp add: aicwf_usb_tx_prepare.simps [of d] tx_post_get_def)
next
  case (Suc n)
  then obtain u us where u: "ud_tx_post d = u # us" "length us = n" by (cases "ud_tx_post d") auto
  have "buf_busy u" using Suc.prems(1) u(1) by (simp add: tx_inv_def)
  then obtain p where p: "ub_skb u = Some p" by (cases "ub_skb u") (auto simp: buf_busy_def)
  obtain s where s: "p = PSkb s"
    using Suc.prems(2) u p by (cases p) (simp_all add: aicwf_usb_tx_prepare.simps [of d] tx_post_get_def kfree_payload_def)
  let ?d1 = "tx_free_put (u\<lparr>ub_skb := None\<rparr>) (log_usb [KfreeSkb s] (d\<lparr>ud_tx_post := us, ud_tx_post_count := ud_tx_post_count d - 1\<rparr>))"
  have "aicwf_usb_tx_prepare ?d1 = Inr d'" using Suc.prems(2) u p s by (simp add: aicwf_usb_tx_prepare.simps [of d] tx_post_get_def kfree_payload_def)
  moreover have "tx_inv acc ?d1" using Suc.prems(1) u p s by (auto simp: tx_inv_def usb_prims buf_idle_def)
  ultimately have "tx_inv acc d' \<and> rx_view d' = rx_view ?d1 \<and> ud_state d' = ud_state ?d1" using Suc.hyps(1) [of ?d1] u by (simp add: usb_prims)
  then show ?case by (simp add: rx_view_def usb_prims)
qed

section \<open>The receive side keeps its invariant\<close>

lemma submit_rx_inv:
  assumes "aicwf_usb_submit_rx_urb e r (d\<lparr>ud_rx_free := rs\<rparr>) = (ret, d')" and "ud_rx_free d = r # rs"
  shows "tx_view d' = tx_view d" "rx_inv d \<Longrightarrow> rx_inv d'" "ud_state d' = ud_state d"
    "ret = 0 \<Longrightarrow> length (ud_rx_free d') < length (ud_rx_free d)"
  using assms by (auto simp: aicwf_usb_submit_rx_urb_def usb_prims tx_view_def rx_inv_def split: if_splits)

lemma rx_submit_loop_inv: "tx_view (rx_submit_loop e d) = tx_view d \<and> (rx_inv d \<longrightarrow> rx_inv (rx_submit_loop e d)) \<and> ud_state (rx_submit_loop e d) = ud_state d"
proof (induction "length (ud_rx_free d)" arbitrary: d rule: less_induct)
  case less
  show ?case
  proof (cases "ud_rx_free d")
    case Nil
    then show ?thesis by (simp add: rx_submit_loop.simps [of e d] tx_view_def rx_inv_def)
  next
    case (Cons r rs)
    obtain ret d1 where s: "aicwf_usb_submit_rx_urb e r (d\<lparr>ud_rx_free := rs\<rparr>) = (ret, d1)" by (cases "aicwf_usb_submit_rx_urb e r (d\<lparr>ud_rx_free := rs\<rparr>)")
    note S = submit_rx_inv [OF s Cons]
    show ?thesis using less [of d1] S s Cons by (cases "ret = 0") (simp_all add: rx_submit_loop.simps [of e d])
  qed
qed

lemma rx_submit_all_inv [simp]:
  "tx_view (aicwf_usb_rx_submit_all_urb e d) = tx_view d" "ud_state (aicwf_usb_rx_submit_all_urb e d) = ud_state d"
  "rx_inv d \<Longrightarrow> rx_inv (aicwf_usb_rx_submit_all_urb e d)"
  using rx_submit_loop_inv [of e d] by (simp_all add: aicwf_usb_rx_submit_all_urb_def)

lemma wait_disconnect_views: "tx_view (wait_disconnect d) = tx_view d" "rx_view (wait_disconnect d) = rx_view d"
  by (simp_all add: wait_disconnect_def log_usb_def tx_view_def rx_view_def)

lemma rx_done_inv:
  assumes "usb_rx_done e ready i u s (d, b) = Inr (d', b')" and "i < length (ud_rx_flight d)" and "rx_inv d"
  shows "tx_view d' = tx_view d \<and> rx_inv d'"
proof -
  let ?d1 = "d\<lparr>ud_rx_flight := remove_nth i (ud_rx_flight d), ud_rx_urb_cnt := ud_rx_urb_cnt d - 1, ud_rx_free := ud_rx_free d @ [ud_rx_flight d ! i]\<rparr>"
  note R = remove_nth_facts [OF assms(2)]
  have d1: "rx_inv ?d1" "tx_view ?d1 = tx_view d" using assms(3) R(1, 3) by (simp_all add: rx_inv_def tx_view_def)
  have "d' = ?d1 \<or> d' = wait_disconnect ?d1 \<or> d' = aicwf_usb_rx_submit_all_urb e ?d1"
    using assms(1) by (auto simp: usb_rx_done_def Let_def split: if_splits sum.splits)
  then show ?thesis using d1 wait_disconnect_views [of ?d1] rx_inv_view [of "wait_disconnect ?d1" ?d1] by auto
qed

lemma submit_msg_views:
  assumes "aicwf_usb_submit_msg_rx_urb e r d = (ret, d')"
  shows "tx_view d' = tx_view d \<and> rx_view d' = rx_view d"
  using assms by (auto simp: aicwf_usb_submit_msg_rx_urb_def usb_prims tx_view_def rx_view_def split: if_splits)

lemma msg_submit_loop_views: "msg_submit_loop fuel e d = Some d' \<Longrightarrow> tx_view d' = tx_view d \<and> rx_view d' = rx_view d"
proof (induction fuel arbitrary: d)
  case (Suc fuel)
  show ?case
  proof (cases "ud_msg_free d")
    case (Cons r rs)
    obtain ret d1 where s: "aicwf_usb_submit_msg_rx_urb e r (d\<lparr>ud_msg_free := rs\<rparr>) = (ret, d1)"
      by (cases "aicwf_usb_submit_msg_rx_urb e r (d\<lparr>ud_msg_free := rs\<rparr>)")
    have "tx_view d1 = tx_view d" "rx_view d1 = rx_view d" using submit_msg_views [OF s] by (simp_all add: tx_view_def rx_view_def)
    then show ?thesis using Suc Cons s by (auto split: if_splits)
  qed (use Suc.prems in simp)
qed simp

lemma msg_submit_all_views: "aicwf_usb_msg_rx_submit_all_urb fuel e d = Some d' \<Longrightarrow> tx_view d' = tx_view d \<and> rx_view d' = rx_view d"
  by (auto simp: aicwf_usb_msg_rx_submit_all_urb_def dest: msg_submit_loop_views split: if_splits)

lemma msg_done_views:
  assumes "usb_msg_rx_done fuel e i u s (d, b) = Some (Inr (d', b'))"
  shows "tx_view d' = tx_view d \<and> rx_view d' = rx_view d"
proof -
  let ?d0 = "d\<lparr>ud_msg_flight := remove_nth i (ud_msg_flight d)\<rparr>" and ?d1 = "d\<lparr>ud_msg_flight := remove_nth i (ud_msg_flight d), ud_msg_free := ud_msg_free d @ [ud_msg_flight d ! i]\<rparr>"
  have "d' = ?d0 \<or> d' = ?d1 \<or> aicwf_usb_msg_rx_submit_all_urb fuel e ?d1 = Some d'"
    using assms by (auto simp: usb_msg_rx_done_def Let_def split: if_splits sum.splits bool.splits)
  moreover have "tx_view ?d0 = tx_view d" "rx_view ?d0 = rx_view d" "tx_view ?d1 = tx_view d" "rx_view ?d1 = rx_view d" by (simp_all add: tx_view_def rx_view_def)
  ultimately show ?thesis using msg_submit_all_views [of fuel e ?d1 d'] by auto
qed

section \<open>Starting, stopping and set-up\<close>

lemma state_change_views [simp]: "tx_view (aicwf_usb_state_change st d) = tx_view d" "rx_view (aicwf_usb_state_change st d) = rx_view d"
  by (simp_all add: aicwf_usb_state_change_def tx_view_def rx_view_def)

lemma bus_start_inv:
  assumes "aicwf_usb_bus_start fuel e d = Some (Inr (r, d'))" and "tx_inv acc d" and "rx_inv d"
  shows "tx_inv acc d' \<and> rx_inv d'"
proof (cases "ud_state d = USB_UP_ST")
  case True
  then show ?thesis using assms by (simp add: aicwf_usb_bus_start_def)
next
  case False
  let ?d0 = "(aicwf_usb_state_change USB_UP_ST d)\<lparr>ud_rx_prepare_ready := False\<rparr>"
  let ?d1 = "aicwf_usb_rx_submit_all_urb e ?d0"
  have "tx_view ?d0 = tx_view d" "rx_view ?d0 = rx_view d"
    using state_change_views [of USB_UP_ST d] by (simp_all add: tx_view_def rx_view_def)
  then have d1: "tx_inv acc ?d1" "rx_inv ?d1" using assms(2, 3) tx_inv_view [of ?d1 d acc] rx_inv_view [of ?d0 d] by simp_all
  obtain d2 where p: "aicwf_usb_tx_prepare ?d1 = Inr d2"
    using assms(1) False by (cases "aicwf_usb_tx_prepare ?d1") (simp_all add: aicwf_usb_bus_start_def Let_def)
  have d2: "tx_inv acc d2" "rx_inv d2" using tx_prepare_inv [OF d1(1) p] d1(2) rx_inv_view [of d2 ?d1] by simp_all
  have "d' = d2 \<or> aicwf_usb_msg_rx_submit_all_urb fuel e d2 = Some d'"
    using assms(1) False p by (auto simp: aicwf_usb_bus_start_def Let_def split: if_splits option.splits)
  then show ?thesis using d2 msg_submit_all_views [of fuel e d2 d'] tx_inv_view [of d' d2 acc] rx_inv_view [of d' d2] by auto
qed

lemma bus_stop_views [simp]: "tx_view (aicwf_usb_bus_stop d) = tx_view d" "rx_view (aicwf_usb_bus_stop d) = rx_view d"
  by (simp_all add: aicwf_usb_bus_stop_def) (simp_all add: log_usb_def tx_view_def rx_view_def)

lemma vifs_views [simp]: "tx_view (d\<lparr>ud_vifs := vs\<rparr>) = tx_view d" "rx_view (d\<lparr>ud_vifs := vs\<rparr>) = rx_view d"
  by (simp_all add: tx_view_def rx_view_def)

lemma prepare_ready_views [simp]: "tx_view (d\<lparr>ud_rx_prepare_ready := b\<rparr>) = tx_view d" "rx_view (d\<lparr>ud_rx_prepare_ready := b\<rparr>) = rx_view d"
  by (simp_all add: tx_view_def rx_view_def)

lemma suspend_views [simp]: "tx_view (aicwf_usb_suspend d) = tx_view d" "rx_view (aicwf_usb_suspend d) = rx_view d"
  by (simp_all add: aicwf_usb_suspend_def Let_def)

lemma resume_inv:
  assumes "aicwf_usb_resume fuel e d = Some (Inr d')" and "tx_inv acc d" and "rx_inv d"
  shows "tx_inv acc d' \<and> rx_inv d'"
proof -
  let ?d1 = "d\<lparr>ud_vifs := map (\<lambda>v. if uv_ndev v then v\<lparr>uv_present := True\<rparr> else v) (ud_vifs d)\<rparr>"
  have d1: "tx_inv acc ?d1" "rx_inv ?d1" using assms(2, 3) tx_inv_view [of ?d1 d acc] rx_inv_view [of ?d1 d] by simp_all
  show ?thesis
  proof (cases "ud_state d = USB_UP_ST")
    case True
    then obtain vs where "d' = d\<lparr>ud_vifs := vs\<rparr>" using assms(1) by (simp add: aicwf_usb_resume_def Let_def) blast
    then show ?thesis using assms(2, 3) tx_inv_view [of d' d acc] rx_inv_view [of d' d] by simp
  next
    case False
    then obtain r d2 vs where "aicwf_usb_bus_start fuel e ?d1 = Some (Inr (r, d2))" "d' = d2\<lparr>ud_vifs := vs\<rparr>"
      using assms(1) by (auto simp: aicwf_usb_resume_def Let_def split: option.splits sum.splits)
    then show ?thesis using d1 bus_start_inv [of fuel e ?d1 r d2 acc] tx_inv_view [of d' d2 acc] rx_inv_view [of d' d2] by simp
  qed
qed

text \<open>The device as \<open>kzalloc\<close> gives it.\<close>

definition usb_zero :: "bool \<Rightarrow> usb_dev" where
  "usb_zero pipe =
     \<lparr>ud_state = USB_DOWN_ST, ud_bus_up = False, ud_tx_free = [], ud_tx_free_count = 0, ud_tx_post = [], ud_tx_post_count = 0,
      ud_tx_flight = [], ud_tbusy = False, ud_tx_trgg = 0, ud_vifs = [], ud_rx_free = [], ud_rx_flight = [], ud_rx_urb_cnt = 0,
      ud_rx_prepare_ready = False, ud_msg_in_pipe = pipe, ud_msg_free = [], ud_msg_flight = [], ud_wait_disconnect = False,
      ud_deinit = 0, ud_clock = 0, ud_log = []\<rparr>"

lemma alloc_rx_loop_spec:
  "alloc_rx_loop e is d = (True, d') \<Longrightarrow> \<exists>c. d' = d\<lparr>ud_rx_free := ud_rx_free d @ is, ud_clock := c\<rparr>"
proof (induction "is" arbitrary: d)
  case Nil
  then have "d' = d\<lparr>ud_rx_free := ud_rx_free d @ [], ud_clock := ud_clock d\<rparr>" by simp
  then show ?case by blast
next
  case (Cons i "is")
  then have "alloc_rx_loop e is (d\<lparr>ud_clock := Suc (ud_clock d), ud_rx_free := ud_rx_free d @ [i]\<rparr>) = (True, d')" by (simp add: usb_alloc_def split: if_splits)
  from Cons.IH [OF this] show ?case by fastforce
qed

lemma alloc_tx_loop_spec:
  "alloc_tx_loop e is d = (True, d') \<Longrightarrow>
     \<exists>c. d' = d\<lparr>ud_tx_free := ud_tx_free d @ map fresh_buf is, ud_tx_free_count := ud_tx_free_count d + int (length is), ud_clock := c\<rparr>"
proof (induction "is" arbitrary: d)
  case Nil
  then have "d' = d\<lparr>ud_tx_free := ud_tx_free d @ map fresh_buf [], ud_tx_free_count := ud_tx_free_count d + int (length []), ud_clock := ud_clock d\<rparr>" by simp
  then show ?case by blast
next
  case (Cons i "is")
  then have "alloc_tx_loop e is (tx_free_put (fresh_buf i) (d\<lparr>ud_clock := Suc (ud_clock d)\<rparr>)) = (True, d')" by (simp add: usb_alloc_def split: if_splits)
  from Cons.IH [OF this] show ?case by (fastforce simp: tx_free_put_def algebra_simps)
qed

lemma alloc_msg_loop_views: "alloc_msg_loop e is d = (b, d') \<Longrightarrow> tx_view d' = tx_view d \<and> rx_view d' = rx_view d"
proof (induction "is" arbitrary: d)
  case (Cons i "is")
  have v: "tx_view (d\<lparr>ud_clock := c, ud_msg_free := x\<rparr>) = tx_view d" "rx_view (d\<lparr>ud_clock := c, ud_msg_free := x\<rparr>) = rx_view d"
      "tx_view (d\<lparr>ud_clock := c\<rparr>) = tx_view d" "rx_view (d\<lparr>ud_clock := c\<rparr>) = rx_view d" for c x
    by (simp_all add: tx_view_def rx_view_def)
  show ?case using Cons.prems Cons.IH v by (auto simp: usb_alloc_def split: if_splits)
qed simp

lemma usb_init_inv:
  assumes "aicwf_usb_init e (usb_zero pipe) = (0, d)"
  shows "tx_inv [] d \<and> rx_inv d"
proof -
  let ?d0 = "usb_zero pipe"
  have z: "?d0\<lparr>ud_tbusy := False, ud_state := USB_DOWN_ST, ud_rx_free := [], ud_tx_free := [], ud_tx_post := [],
      ud_msg_free := (if ud_msg_in_pipe ?d0 then [] else ud_msg_free ?d0), ud_rx_urb_cnt := 0, ud_tx_free_count := 0, ud_tx_post_count := 0\<rparr> = ?d0"
    by (simp add: usb_zero_def)
  obtain d1 where a1: "aicwf_usb_alloc_rx_urb e ?d0 = (0, d1)"
    using assms unfolding aicwf_usb_init_def Let_def z by (auto split: prod.splits if_splits)
  obtain d2 where a2: "aicwf_usb_alloc_tx_urb e d1 = (0, d2)"
    using assms a1 unfolding aicwf_usb_init_def Let_def z by (auto split: prod.splits if_splits)
  obtain d3 where a3: "(if ud_msg_in_pipe d2 then aicwf_usb_alloc_msg_rx_urb e d2 else (0, d2)) = (0, d3)" "d = d3\<lparr>ud_clock := Suc (ud_clock d3)\<rparr>"
    using assms a1 a2 unfolding aicwf_usb_init_def Let_def z by (auto simp: usb_alloc_def split: prod.splits if_splits)
  obtain c1 where d1: "d1 = ?d0\<lparr>ud_rx_free := [0 ..< 20], ud_clock := c1\<rparr>"
    using a1 alloc_rx_loop_spec [of e "[0 ..< 20]" ?d0 d1] by (auto simp: aicwf_usb_alloc_rx_urb_def usb_zero_def split: prod.splits bool.splits)
  obtain c2 where d2: "d2 = d1\<lparr>ud_tx_free := map fresh_buf [0 ..< 200], ud_tx_free_count := 200, ud_clock := c2\<rparr>"
    using a2 alloc_tx_loop_spec [of e "[0 ..< 200]" d1 d2] by (auto simp: aicwf_usb_alloc_tx_urb_def d1 usb_zero_def split: prod.splits bool.splits)
  have m: "map ub_idx (map fresh_buf [0 ..< n]) = [0 ..< n]" for n by (induction n) (simp_all add: fresh_buf_def)
  have "tx_inv [] d2"
    using m [of 200] by (simp add: tx_inv_def d2 d1 usb_zero_def list_all_iff buf_idle_def fresh_buf_def del: map_map upt_Suc mset_map)
  moreover have "rx_inv d2" by (simp add: rx_inv_def d2 d1 usb_zero_def)
  moreover have "tx_view d3 = tx_view d2 \<and> rx_view d3 = rx_view d2"
    using a3(1) by (auto simp: aicwf_usb_alloc_msg_rx_urb_def split: if_splits prod.splits bool.splits dest: alloc_msg_loop_views)
  ultimately show ?thesis
    using tx_inv_view [of d d2 "[]"] rx_inv_view [of d d2] by (simp add: a3(2) tx_view_def rx_view_def)
qed

section \<open>Runs of the bus\<close>

text \<open>The actions of the bus, in any order; the frames handed over are collected by their identity.\<close>

datatype usb_act = ActFrame | ActThread | ActTxDone | ActRxDone | ActMsgDone | ActStart | ActStop | ActSuspend | ActResume | ActVifs

inductive usb_step :: "usb_env \<Rightarrow> usb_act \<Rightarrow> usb_dev \<times> nat list \<Rightarrow> usb_dev \<times> nat list \<Rightarrow> bool" for e where
  frame: "aicwf_frame_tx e h s d = Inr d' \<Longrightarrow> usb_step e ActFrame (d, acc) (d', us_id s # acc)"
| thread: "bustx_pass e d = Inr (r, d') \<Longrightarrow> usb_step e ActThread (d, acc) (d', acc)"
| tx_done: "i < length (ud_tx_flight d) \<Longrightarrow> aicwf_usb_tx_complete i d = Inr d' \<Longrightarrow> usb_step e ActTxDone (d, acc) (d', acc)"
| rx_done: "i < length (ud_rx_flight d) \<Longrightarrow> usb_rx_done e ready i u sk (d, b) = Inr (d', b') \<Longrightarrow> usb_step e ActRxDone (d, acc) (d', acc)"
| msg_done: "i < length (ud_msg_flight d) \<Longrightarrow> usb_msg_rx_done fuel e i u sk (d, b) = Some (Inr (d', b')) \<Longrightarrow> usb_step e ActMsgDone (d, acc) (d', acc)"
| start: "aicwf_usb_bus_start fuel e d = Some (Inr (r, d')) \<Longrightarrow> usb_step e ActStart (d, acc) (d', acc)"
| stop: "usb_step e ActStop (d, acc) (aicwf_usb_bus_stop d, acc)"
| suspend: "usb_step e ActSuspend (d, acc) (aicwf_usb_suspend d, acc)"
| resume: "aicwf_usb_resume fuel e d = Some (Inr d') \<Longrightarrow> usb_step e ActResume (d, acc) (d', acc)"
| vifs: "usb_step e ActVifs (d, acc) (d\<lparr>ud_vifs := vs\<rparr>, acc)"

definition usb_inv :: "usb_dev \<times> nat list \<Rightarrow> bool" where
  "usb_inv s \<longleftrightarrow> tx_inv (snd s) (fst s) \<and> rx_inv (fst s)"

lemma usb_step_inv: "usb_step e a s t \<Longrightarrow> usb_inv s \<Longrightarrow> usb_inv t"
proof (induction rule: usb_step.induct)
  case (frame h s d d' acc)
  then show ?case using frame_tx_inv [of acc d e h s d'] rx_inv_view [of d' d] by (simp add: usb_inv_def)
next
  case (thread d r d' acc)
  then show ?case using bustx_pass_inv [of acc d e r d'] rx_inv_view [of d' d] by (simp add: usb_inv_def)
next
  case (tx_done i d d' acc)
  then show ?case using tx_complete_inv [of acc d i] rx_inv_view [of d' d] by (auto simp: usb_inv_def)
next
  case (rx_done i d ready u sk b d' b' acc)
  then show ?case using rx_done_inv [of e ready i u sk d b d' b'] tx_inv_view [of d' d acc] by (simp add: usb_inv_def)
next
  case (msg_done i d fuel u sk b d' b' acc)
  then show ?case using msg_done_views [of fuel e i u sk d b d' b'] tx_inv_view [of d' d acc] rx_inv_view [of d' d] by (simp add: usb_inv_def)
next
  case (start fuel d r d' acc)
  then show ?case using bus_start_inv [of fuel e d r d' acc] by (simp add: usb_inv_def)
next
  case (stop d acc)
  then show ?case using tx_inv_view [of "aicwf_usb_bus_stop d" d acc] rx_inv_view [of "aicwf_usb_bus_stop d" d] by (simp add: usb_inv_def)
next
  case (suspend d acc)
  then show ?case using tx_inv_view [of "aicwf_usb_suspend d" d acc] rx_inv_view [of "aicwf_usb_suspend d" d] by (simp add: usb_inv_def)
next
  case (resume fuel d d' acc)
  then show ?case using resume_inv [of fuel e d d' acc] by (simp add: usb_inv_def)
next
  case (vifs d acc vs)
  then show ?case using tx_inv_view [of "d\<lparr>ud_vifs := vs\<rparr>" d acc] rx_inv_view [of "d\<lparr>ud_vifs := vs\<rparr>" d] by (simp add: usb_inv_def)
qed

definition usb_start :: "usb_dev \<times> nat list \<Rightarrow> bool" where
  "usb_start s \<longleftrightarrow> (\<exists>e pipe. aicwf_usb_init e (usb_zero pipe) = (0, fst s)) \<and> snd s = []"

interpretation usb_pool: transition_system usb_start "\<lambda>s t. \<exists>a. usb_step e a s t" usb_inv for e
  by unfold_locales (auto simp: usb_start_def usb_inv_def dest: usb_init_inv usb_step_inv)

end
