(* ===== verification/UsbSpec.thy ===== *)
theory UsbSpec
  imports UsbPool
begin

text \<open>
  The properties of the USB bus over its runs: soundness of the request pools, the exact condition of the invalid free in
  the transmit thread, the stall after refused requests, the format of a frame, and the refilling of the receive requests.
\<close>

abbreviation usb_run :: "usb_env \<Rightarrow> usb_dev \<times> nat list \<Rightarrow> usb_dev \<times> nat list \<Rightarrow> bool" where
  "usb_run e \<equiv> (\<lambda>s t. \<exists>a. usb_step e a s t)\<^sup>*\<^sup>*"

section \<open>A bus that was set up and started\<close>

definition good_env :: usb_env where
  "good_env = \<lparr>ue_submit = (\<lambda>_. 0), ue_alloc = (\<lambda>_. True), ue_aligned = (\<lambda>_. True)\<rparr>"

lemma alloc_loops_good:
  assumes "\<forall>n. ue_alloc e n"
  shows "alloc_rx_loop e is d = (True, d\<lparr>ud_rx_free := ud_rx_free d @ is, ud_clock := ud_clock d + length is\<rparr>)"
    "alloc_tx_loop e is d = (True, d\<lparr>ud_tx_free := ud_tx_free d @ map fresh_buf is, ud_tx_free_count := ud_tx_free_count d + int (length is), ud_clock := ud_clock d + length is\<rparr>)"
    "alloc_msg_loop e is d = (True, d\<lparr>ud_msg_free := ud_msg_free d @ is, ud_clock := ud_clock d + length is\<rparr>)"
  using assms by (induction "is" arbitrary: d) (simp_all add: usb_alloc_def tx_free_put_def)

text \<open>The requests that are free go to the USB core one after the other when nothing fails.\<close>

lemma rx_submit_loop_good:
  assumes "\<forall>n. ue_alloc e n" and "\<forall>n. ue_submit e n = 0" and "ud_state d = USB_UP_ST"
  shows "rx_submit_loop e d = d\<lparr>ud_rx_free := [], ud_rx_flight := ud_rx_flight d @ ud_rx_free d, ud_rx_urb_cnt := ud_rx_urb_cnt d + int (length (ud_rx_free d)),
     ud_clock := ud_clock d + 2 * length (ud_rx_free d), ud_rx_prepare_ready := True\<rparr>"
  using assms(3)
proof (induction "ud_rx_free d" arbitrary: d)
  case Nil
  then show ?case by (simp add: rx_submit_loop.simps [of e d])
next
  case (Cons r rs)
  let ?d1 = "d\<lparr>ud_rx_free := rs, ud_clock := ud_clock d + 2, ud_rx_flight := ud_rx_flight d @ [r], ud_rx_urb_cnt := ud_rx_urb_cnt d + 1\<rparr>"
  have "aicwf_usb_submit_rx_urb e r (d\<lparr>ud_rx_free := rs\<rparr>) = (0, ?d1)"
    using assms(1, 2) Cons.prems by (simp add: aicwf_usb_submit_rx_urb_def usb_alloc_def usb_submit_urb_def)
  then have "rx_submit_loop e d = rx_submit_loop e ?d1" using Cons.hyps(2) [symmetric] by (simp add: rx_submit_loop.simps [of e d])
  also have "\<dots> = d\<lparr>ud_rx_free := [], ud_rx_flight := ud_rx_flight d @ ud_rx_free d, ud_rx_urb_cnt := ud_rx_urb_cnt d + int (length (ud_rx_free d)),
     ud_clock := ud_clock d + 2 * length (ud_rx_free d), ud_rx_prepare_ready := True\<rparr>"
    using Cons.hyps(1) [of ?d1] Cons.prems Cons.hyps(2) [symmetric] by simp
  finally show ?case .
qed

lemma msg_submit_loop_good:
  assumes "\<forall>n. ue_alloc e n" and "\<forall>n. ue_submit e n = 0" and "ud_state d = USB_UP_ST" and "length (ud_msg_free d) < fuel"
  shows "msg_submit_loop fuel e d = Some (d\<lparr>ud_msg_free := [], ud_msg_flight := ud_msg_flight d @ ud_msg_free d, ud_clock := ud_clock d + 2 * length (ud_msg_free d)\<rparr>)"
  using assms(3, 4)
proof (induction fuel arbitrary: d)
  case (Suc fuel)
  show ?case
  proof (cases "ud_msg_free d")
    case (Cons r rs)
    let ?d1 = "d\<lparr>ud_msg_free := rs, ud_clock := ud_clock d + 2, ud_msg_flight := ud_msg_flight d @ [r]\<rparr>"
    have "aicwf_usb_submit_msg_rx_urb e r (d\<lparr>ud_msg_free := rs\<rparr>) = (0, ?d1)"
      using assms(1, 2) Suc.prems by (simp add: aicwf_usb_submit_msg_rx_urb_def usb_alloc_def usb_submit_urb_def)
    then show ?thesis using Suc.IH [of ?d1] Suc.prems Cons by simp
  qed (use Suc.prems in simp)
qed simp

definition usb_ready :: "usb_dev" where
  "usb_ready = (usb_zero True)\<lparr>ud_rx_free := [0 ..< 20], ud_tx_free := map fresh_buf [0 ..< 200], ud_tx_free_count := 200, ud_msg_free := [0 ..< 100], ud_clock := 321\<rparr>"

lemma usb_ready_start: "usb_start (usb_ready, [])"
proof -
  have "aicwf_usb_init good_env (usb_zero True) = (0, usb_ready)"
    by (simp add: aicwf_usb_init_def usb_zero_def aicwf_usb_alloc_rx_urb_def aicwf_usb_alloc_tx_urb_def aicwf_usb_alloc_msg_rx_urb_def
        alloc_loops_good good_env_def usb_alloc_def usb_ready_def del: upt_Suc)
  then show ?thesis by (auto simp: usb_start_def)
qed

definition usb_up :: usb_dev where
  "usb_up = usb_ready\<lparr>ud_state := USB_UP_ST, ud_bus_up := True, ud_rx_free := [], ud_rx_flight := [0 ..< 20], ud_rx_urb_cnt := 20,
     ud_rx_prepare_ready := True, ud_msg_free := [], ud_msg_flight := [0 ..< 100], ud_clock := 561\<rparr>"

lemma usb_up_run: "usb_run good_env (usb_ready, []) (usb_up, [])"
proof -
  have "aicwf_usb_bus_start 101 good_env usb_ready = Some (Inr (0, usb_up))"
    by (simp add: aicwf_usb_bus_start_def usb_ready_def usb_zero_def usb_up_def aicwf_usb_state_change_def aicwf_usb_rx_submit_all_urb_def rx_submit_loop_good
        aicwf_usb_tx_prepare.simps tx_post_get_def aicwf_usb_msg_rx_submit_all_urb_def msg_submit_loop_good good_env_def del: upt_Suc)
  then show ?thesis using usb_step.start [of 101 good_env usb_ready 0 usb_up "[]"] by (intro r_into_rtranclp) blast
qed

section \<open>Soundness of the pools\<close>

text \<open>
  C14: The request pools of the USB bus are sound. In every state of every run of frames, passes of the transmit thread,
  completions, start, stop, suspend and resume, each of the 200 transmit requests is in exactly one of the free list, the
  posted list and the hands of the USB core; both counters agree with their lists; fewer than 50 free requests imply that flow
  control is on; every frame handed to the bus is either held by one request or was freed once; a completion never
  frees with the wrong function; and each of the 20 receive requests is either free or with the USB core, as \<open>rx_urb_cnt\<close> says.
\<close>
theorem usb_pool_sound:
  assumes "usb_start s0" and "usb_run e s0 (d, acc)"
  shows "mset (map ub_idx (ud_tx_free d @ ud_tx_post d @ ud_tx_flight d)) = mset [0 ..< 200]
    \<and> ud_tx_free_count d = int (length (ud_tx_free d)) \<and> ud_tx_post_count d = int (length (ud_tx_post d))
    \<and> (ud_tx_free_count d < 50 \<longrightarrow> ud_tbusy d)
    \<and> mset acc = freed (ud_log d) + held (ud_tx_post d @ ud_tx_flight d)
    \<and> (\<forall>i < length (ud_tx_flight d). \<exists>d'. aicwf_usb_tx_complete i d = Inr d')
    \<and> mset (ud_rx_free d @ ud_rx_flight d) = mset [0 ..< 20] \<and> ud_rx_urb_cnt d = int (length (ud_rx_flight d))"
proof -
  have "usb_inv (d, acc)" using usb_pool.reachable_inv [OF assms] .
  then have t: "tx_inv acc d" and r: "rx_inv d" by (simp_all add: usb_inv_def)
  have "\<exists>d'. aicwf_usb_tx_complete i d = Inr d'" if "i < length (ud_tx_flight d)" for i using tx_complete_inv [OF t that] by blast
  then show ?thesis using t r by (auto simp: tx_inv_def rx_inv_def not_le [symmetric])
qed

section \<open>The format of a frame\<close>

text \<open>How the firmware reads a transfer: the length in the first two bytes, the type, the descriptor, and the rest.\<close>

definition usb_parse :: "u8 list \<Rightarrow> (u8 list \<times> u8 list) option" where
  "usb_parse bs =
     (if 32 \<le> length bs \<and> unat (bs ! 0) + 256 * unat (bs ! 1 AND 0x0f) = length bs \<and> bs ! 2 = 1
      then Some (take 28 (drop 4 bs), drop 32 bs) else None)"

lemma unat_low_byte: "unat (of_nat n AND 0xff :: u8) = n mod 256"
proof -
  have "(0xff :: u8) = mask 8" by (simp add: mask_eq_exp_minus_1)
  then have "(of_nat n AND 0xff :: u8) = take_bit 8 (of_nat n)" by (simp only: take_bit_eq_mask)
  then have "unat (of_nat n AND 0xff :: u8) = take_bit 8 (unat (of_nat n :: u8))" by (simp only: unsigned_take_bit_eq)
  then show ?thesis by (simp add: unsigned_of_nat take_bit_eq_mod)
qed

lemma unat_nibble: "n < 4096 \<Longrightarrow> unat (of_nat (n div 256) AND 0x0f AND 0x0f :: u8) = n div 256"
proof -
  assume "n < 4096"
  then have n: "n div 256 < 16" by simp
  have "(0x0f :: u8) = mask 4" by (simp add: mask_eq_exp_minus_1)
  then have "(of_nat (n div 256) AND 0x0f AND 0x0f :: u8) = take_bit 4 (of_nat (n div 256))" by (simp add: take_bit_eq_mask and.assoc)
  then have "unat (of_nat (n div 256) AND 0x0f AND 0x0f :: u8) = take_bit 4 (unat (of_nat (n div 256) :: u8))" by (simp add: unsigned_take_bit_eq)
  then show ?thesis using n by (simp add: unsigned_of_nat take_bit_nat_eq_self)
qed

lemma usb_parse_frame:
  assumes "length desc = 28" and "n = 32 + length pay" and "n < 4096"
  shows "usb_parse (usb_header n @ desc @ pay) = Some (desc, pay)"
proof -
  have "unat (of_nat n AND 0xff :: u8) + 256 * unat (of_nat (n div 256) AND 0x0f AND 0x0f :: u8) = n"
    using assms(3) by (simp only: unat_low_byte unat_nibble) (simp add: mult.commute)
  then show ?thesis using assms by (simp add: usb_parse_def usb_header_def)
qed

lemma roundup4_shift: "roundup4 (32 + n) = 32 + roundup4 n" "n \<le> roundup4 n" "roundup4 n \<le> n + 3"
proof -
  have "(32 + n + 3) div 4 = 8 + (n + 3) div 4" by presburger
  then show "roundup4 (32 + n) = 32 + roundup4 n" by (simp only: roundup4_def add_mult_distrib)
qed (auto simp: roundup4_def)

lemma mem_put_ok: "i + length bs \<le> length mem \<Longrightarrow> mem_put i bs mem = Inr (take i mem @ bs @ drop (i + length bs) mem)"
  by (simp add: mem_put_def)

text \<open>The copy of a confirmed frame fits into the memory that was allocated for it when the headroom of the buffer is large enough.\<close>

lemma cfm_copy_spec:
  fixes h data
  defines "pay \<equiv> drop (sh_headroom h) data"
  defines "n \<equiv> roundup4 (32 + length pay)"
  assumes "length (sh_desc h) = 28" and "34 \<le> sh_headroom h" and "sh_headroom h \<le> length data" and "length pay < 4000"
  obtains tl where "cfm_copy h data = Inr (usb_header n @ sh_desc h @ pay @ replicate (n - (32 + length pay)) 0 @ tl, n)"
proof -
  define L where "L = length data + 1"
  define a where "a = n - (32 + length pay)"
  have len: "length data = sh_headroom h + length pay" using assms(5) by (simp add: pay_def)
  have n: "32 + length pay \<le> n" "n \<le> 32 + length pay + 3" "n < 65536" "n = 32 + length pay + a"
    using assms(6) by (auto simp: n_def roundup4_def a_def)
  have le: "32 + length pay + a \<le> L" using n assms(4) by (simp add: L_def len)
  define m1 where "m1 = replicate 4 0 @ sh_desc h @ replicate (L - 32) (0 :: u8)"
  define m2 where "m2 = replicate 4 0 @ sh_desc h @ pay @ replicate (L - 32 - length pay) (0 :: u8)"
  define m3 where "m3 = replicate 4 0 @ sh_desc h @ pay @ replicate a 0 @ replicate (L - 32 - length pay - a) (0 :: u8)"
  have 1: "mem_put 4 (sh_desc h) (replicate L 0) = Inr m1"
    using le assms(3) by (simp add: mem_put_ok m1_def)
  have 2: "mem_put 32 pay m1 = Inr m2" using le assms(3) by (simp add: mem_put_ok m1_def m2_def)
  have 3: "mem_put (32 + length pay) (replicate a 0) m2 = Inr m3" using le assms(3) by (simp add: mem_put_ok m2_def m3_def)
  have 4: "mem_put 0 (usb_header n) m3 = Inr (usb_header n @ sh_desc h @ pay @ replicate a 0 @ replicate (L - 32 - length pay - a) 0)"
    using le assms(3) by (simp add: mem_put_ok m3_def usb_header_def)
  have md: "(32 + length pay) mod 65536 = 32 + length pay" "(32 + length pay + a) mod 65536 = n" "roundup4 (32 + length pay) - (32 + length pay) = a"
    using n(1, 3) by (simp, simp only: n(4) [symmetric] mod_less, simp only: a_def n_def)
  have nl: "(length data < sh_headroom h) = False" and idx: "4 + length (sh_desc h) = 32" using assms(3, 5) by simp_all
  have "cfm_copy h data = Inr (usb_header n @ sh_desc h @ pay @ replicate a 0 @ replicate (L - 32 - length pay - a) 0, n)"
    unfolding cfm_copy_def Let_def nl if_False pay_def [symmetric] L_def [symmetric] idx md 1 sum.case 2 3 4 by (rule refl)
  then show thesis using that unfolding a_def by blast
qed

lemma plain_frame_spec:
  assumes "length (sh_desc h) = 28" and "32 \<le> sh_headroom h" and "sh_headroom h \<le> length (us_data s)"
  shows "plain_frame h s = Inr (s\<lparr>us_room := us_room s + sh_headroom h - 32,
     us_data := usb_header (32 + length (drop (sh_headroom h) (us_data s))) @ sh_desc h @ drop (sh_headroom h) (us_data s)\<rparr>)"
  using assms by (simp add: plain_frame_def us_pull_def us_push_def usb_header_def)

lemma usb_tx_accepts:
  assumes "ud_state d = USB_UP_ST" and "ud_tx_free d \<noteq> []" and "\<forall>n. ue_alloc e n"
    and "length (sh_desc h) = 28" and "34 \<le> sh_headroom h" and "us_data s = hdr @ pay" and "length hdr = sh_headroom h" and "length pay < 4000"
  obtains d' u bytes where "aicwf_usb_bus_txdata e h s d = Inr (0, d')" "ud_tx_post d' = ud_tx_post d @ [u]" "ub_xfer u = Some bytes"
    "usb_parse bytes = Some (sh_desc h, pay @ replicate (if sh_need_cfm h then roundup4 (length pay) - length pay else 0) 0)"
    "ub_cfm u = sh_need_cfm h" "ud_tx_free d' = tl (ud_tx_free d)" "ud_tx_flight d' = ud_tx_flight d" "ud_bus_up d' = ud_bus_up d"
    "ud_tx_free_count d' < 50 \<Longrightarrow> \<forall>v \<in> set (ud_vifs d'). uv_ndev v \<and> uv_up v \<longrightarrow> uv_stopped v"
proof -
  obtain u us where u: "ud_tx_free d = u # us" using assms(2) by (cases "ud_tx_free d") auto
  let ?d1 = "d\<lparr>ud_tx_free := us, ud_tx_free_count := ud_tx_free_count d - 1\<rparr>"
  have dp: "drop (sh_headroom h) (us_data s) = pay" "sh_headroom h \<le> length (us_data s)" using assms(6, 7) by simp_all
  define pad where "pad = (if sh_need_cfm h then roundup4 (length pay) - length pay else 0)"
  have pad: "pad \<le> 3" "roundup4 (32 + length pay) = 32 + length pay + (roundup4 (length pay) - length pay)" using roundup4_shift [of "length pay"] by (auto simp: pad_def)
  define bytes where "bytes = usb_header (32 + length pay + pad) @ sh_desc h @ pay @ replicate pad 0"
  have parse: "usb_parse bytes = Some (sh_desc h, pay @ replicate pad 0)"
    using usb_parse_frame [OF assms(4), of "32 + length pay + pad" "pay @ replicate pad 0"] assms(8) pad(1) by (simp add: bytes_def)
  obtain p d2 where b: "tx_build e h s ?d1 = Inr (p, bytes, d2)"
  proof (cases "sh_need_cfm h")
    case True
    have n: "roundup4 (32 + length pay) = 32 + length pay + pad" using pad(2) True by (simp only: pad_def if_True)
    obtain tl where "cfm_copy h (us_data s) = Inr (usb_header (32 + length pay + pad) @ sh_desc h @ pay @ replicate (32 + length pay + pad - (32 + length pay)) 0 @ tl, 32 + length pay + pad)"
      using cfm_copy_spec [OF assms(4, 5) dp(2), unfolded dp(1) n, OF assms(8)] by blast
    moreover have "length bytes = 32 + length pay + pad" using assms(4) by (simp add: bytes_def usb_header_def)
    ultimately have "cfm_copy h (us_data s) = Inr (bytes @ tl, length bytes)" by (simp only: bytes_def append_assoc diff_add_inverse)
    then show thesis using that assms(3) True by (simp add: tx_build_def usb_alloc_def)
  next
    case False
    then show thesis using that plain_frame_spec [OF assms(4) _ dp(2)] assms(5) by (simp add: tx_build_def dp(1) bytes_def pad_def)
  qed
  have bu: "ud_bus_up d2 = ud_bus_up d" using b by (auto simp: tx_build_def usb_prims split: if_splits sum.splits)
  obtain u' d3 where f: "tx_fill e bytes (u\<lparr>ub_skb := Some p, ub_cfm := sh_need_cfm h\<rparr>) d2 = (u', d3)" "ub_xfer u' = Some bytes" "ud_tx_post d3 = ud_tx_post d"
      "ud_tx_free d3 = us" "ud_tx_flight d3 = ud_tx_flight d" "ud_bus_up d3 = ud_bus_up d" "ub_cfm u' = sh_need_cfm h"
    using assms(3) tx_build_spec(1) [OF b] bu by (cases "ue_aligned e (ud_clock d2)") (auto simp: tx_fill_def is_aligned_def usb_alloc_def tx_view_def)
  define d4 where "d4 = flow_stop ((tx_post_put u' d3)\<lparr>ud_tx_trgg := Suc (ud_tx_trgg (tx_post_put u' d3))\<rparr>)"
  have "aicwf_usb_bus_txdata e h s d = Inr (0, d4)" using assms(1) u b f(1) by (simp add: aicwf_usb_bus_txdata_def tx_free_get_def d4_def Let_def)
  moreover have "ud_tx_post d4 = ud_tx_post d @ [u']" "ud_tx_free d4 = tl (ud_tx_free d)" "ud_tx_flight d4 = ud_tx_flight d" "ud_bus_up d4 = ud_bus_up d"
    using f(3-6) u by (simp_all add: d4_def usb_prims)
  moreover have "\<forall>v \<in> set (ud_vifs d4). uv_ndev v \<and> uv_up v \<longrightarrow> uv_stopped v" if "ud_tx_free_count d4 < 50"
    using that by (auto simp: d4_def flow_stop_def aicwf_usb_tx_flowctrl_def split: if_splits)
  ultimately show thesis using that f(2, 7) parse unfolding pad_def by blast
qed

text \<open>
  C15: A frame that the bus accepts can be read back by the firmware. For every frame of less than 4000 bytes whose buffer has a header
  of at least 34 bytes (the transmit header has more), when every allocation of memory succeeds, a bus that is up and has a free request takes
  the frame; the request at the end of
  the posted list transfers bytes whose length field is their number, whose type is data, and which contain the descriptor and
  the frame, followed by the padding to a multiple of four when the frame is confirmed.
\<close>
theorem usb_tx_roundtrip:
  assumes "ud_state d = USB_UP_ST" and "ud_tx_free d \<noteq> []" and "\<forall>n. ue_alloc e n"
    and "length (sh_desc h) = 28" and "34 \<le> sh_headroom h" and "us_data s = hdr @ pay" and "length hdr = sh_headroom h" and "length pay < 4000"
  shows "\<exists>d' u bytes. aicwf_usb_bus_txdata e h s d = Inr (0, d') \<and> ud_tx_post d' = ud_tx_post d @ [u] \<and> ub_xfer u = Some bytes
    \<and> usb_parse bytes = Some (sh_desc h, pay @ replicate (if sh_need_cfm h then roundup4 (length pay) - length pay else 0) 0)"
  by (rule usb_tx_accepts [OF assms]) blast

section \<open>Refused requests\<close>

lemma tx_process_faults:
  assumes "list_all buf_busy (ud_tx_post d)" and "ud_state d = USB_UP_ST"
  shows "if \<exists>j < length (ud_tx_post d). ub_cfm (ud_tx_post d ! j) \<and> ue_submit e (ud_clock d + j) \<noteq> 0
    then aicwf_usb_tx_process e d = Inl InvalidFree else \<exists>d'. aicwf_usb_tx_process e d = Inr d' \<and> ud_tx_post d' = []"
proof -
  define bad where "bad d \<longleftrightarrow> (\<exists>j < length (ud_tx_post d). ub_cfm (ud_tx_post d ! j) \<and> ue_submit e (ud_clock d + j) \<noteq> 0)" for d :: usb_dev
  define ends where "ends d r \<longleftrightarrow> (if bad d then r = Inl InvalidFree else \<exists>d'. r = Inr d' \<and> ud_tx_post d' = [])" for d and r :: "fault + usb_dev"
  have bad_Cons: "bad d \<longleftrightarrow> (ub_cfm u \<and> ue_submit e (ud_clock d) \<noteq> 0) \<or> bad d1"
    if "ud_tx_post d = u # us" "ud_tx_post d1 = us" "ud_clock d1 = Suc (ud_clock d)" for d d1 :: usb_dev and u us
    using that by (auto simp: bad_def less_Suc_eq_0_disj nth_Cons')
  have "ud_state d = USB_UP_ST \<longrightarrow> ends d (aicwf_usb_tx_process e d)"
    using assms(1)
  proof (cases rule: tx_process_cases [where e = e and P = "\<lambda>d r. ud_state d = USB_UP_ST \<longrightarrow> ends d r"])
    case (stop d)
    then show ?case by (auto simp: ends_def bad_def)
  next
    case (sent d u us p)
    then show ?case using bad_Cons [OF sent(2), of "tx_sent u us d"] by (simp add: tx_sent_def ends_def)
  next
    case (refused d u us s)
    then show ?case using bad_Cons [OF refused(2), of "tx_refused u us s d"] by (simp add: tx_refused_def usb_prims ends_def)
  next
    case (confused d u us k m)
    then have "bad d" by (auto simp: bad_def intro!: exI [of _ 0])
    then show ?case by (simp add: ends_def)
  qed
  then show ?thesis using assms(2) by (simp add: bad_def ends_def)
qed

text \<open>
  C17: The transmit thread frees memory with the wrong function exactly when the USB core refuses a confirmed frame. In every reachable
  state with the bus up and frames posted: when one of the posted requests holds the copy of a confirmed frame and its submission fails,
  a pass of the thread ends in an invalid free, since the error path calls \<open>dev_kfree_skb\<close> on the copy from \<open>kmalloc\<close>; otherwise the
  pass ends without a fault, the thread goes on, and the posted list is empty.
\<close>
theorem usb_tx_pass_fault_iff:
  assumes "usb_start s0" and "usb_run e s0 (d, acc)" and "ud_state d = USB_UP_ST" and "ud_bus_up d" and "ud_tx_post d \<noteq> []"
  shows "if \<exists>j < length (ud_tx_post d). ub_cfm (ud_tx_post d ! j) \<and> ue_submit e (ud_clock d + j) \<noteq> 0
    then bustx_pass e d = Inl InvalidFree else \<exists>d'. bustx_pass e d = Inr (True, d') \<and> ud_tx_post d' = []"
proof -
  have "tx_inv acc d" using usb_pool.reachable_inv [OF assms(1, 2)] by (simp add: usb_inv_def)
  then have t: "list_all buf_busy (ud_tx_post d)" "0 < ud_tx_post_count d" using assms(5) by (simp_all add: tx_inv_def)
  have "bustx_pass e d = map_sum id (Pair True) (aicwf_usb_tx_process e d)" using assms(4) t(2) by (simp add: bustx_pass_def)
  then show ?thesis using tx_process_faults [OF t(1) assms(3), of e] by (auto split: if_splits)
qed

text \<open>When every submission fails the frames are freed and all requests are free again, but flow control is left as it was.\<close>

lemma tx_process_all_refused:
  assumes "\<forall>u \<in> set (ud_tx_post d). buf_busy u \<and> \<not> ub_cfm u" and "ud_state d = USB_UP_ST" and "\<forall>n. ue_submit e n \<noteq> 0"
  shows "\<exists>d'. aicwf_usb_tx_process e d = Inr d' \<and> ud_tx_post d' = [] \<and> ud_tx_flight d' = ud_tx_flight d \<and> ud_tbusy d' = ud_tbusy d \<and> ud_vifs d' = ud_vifs d"
  using assms(1, 2)
proof (induction "ud_tx_post d" arbitrary: d)
  case Nil
  then show ?case using tx_process_end [of d e] by simp
next
  case (Cons u us)
  then have "buf_busy u \<and> \<not> ub_cfm u" by (metis list.set_intros(1))
  then obtain s where s: "ub_skb u = Some (PSkb s)" by (auto simp: buf_busy_def split: option.splits tx_payload.splits)
  let ?d1 = "tx_refused u us s d"
  have "aicwf_usb_tx_process e d = aicwf_usb_tx_process e ?d1" using tx_process_round(2) [OF Cons.hyps(2) [symmetric] Cons.prems(2) s] assms(3) by blast
  moreover have f: "ud_tx_post ?d1 = us" "ud_state ?d1 = USB_UP_ST" "ud_tx_flight ?d1 = ud_tx_flight d" "ud_tbusy ?d1 = ud_tbusy d" "ud_vifs ?d1 = ud_vifs d"
    using Cons.prems(2) by (simp_all add: tx_refused_def usb_prims)
  moreover have "\<forall>u \<in> set (ud_tx_post ?d1). buf_busy u \<and> \<not> ub_cfm u" using Cons.prems(1) Cons.hyps(2) [symmetric] f(1) by simp
  ultimately show ?case using Cons.hyps(1) [of ?d1] by simp
qed

text \<open>Flow control is on and no request is on its way, so that no completion will turn it off.\<close>

definition usb_stalled :: "usb_dev \<times> nat list \<Rightarrow> bool" where
  "usb_stalled s \<longleftrightarrow> ud_tbusy (fst s) \<and> ud_tx_post (fst s) = [] \<and> ud_tx_flight (fst s) = []
     \<and> (\<forall>v \<in> set (ud_vifs (fst s)). uv_ndev v \<and> uv_up v \<longrightarrow> uv_stopped v)"

text \<open>Everything but a new frame, resuming and a change of the interfaces.\<close>

definition usb_idle_step :: "usb_env \<Rightarrow> usb_dev \<times> nat list \<Rightarrow> usb_dev \<times> nat list \<Rightarrow> bool" where
  "usb_idle_step e s t \<longleftrightarrow> (\<exists>a. a \<notin> {ActFrame, ActResume, ActVifs} \<and> usb_step e a s t)"

lemma rx_side_vifs:
  "ud_vifs (rx_submit_loop e d) = ud_vifs d"
  "ud_vifs (wait_disconnect d) = ud_vifs d"
proof -
  show "ud_vifs (rx_submit_loop e d) = ud_vifs d"
  proof (induction "length (ud_rx_free d)" arbitrary: d rule: less_induct)
    case less
    show ?case
    proof (cases "ud_rx_free d")
      case (Cons r rs)
      obtain ret d1 where s: "aicwf_usb_submit_rx_urb e r (d\<lparr>ud_rx_free := rs\<rparr>) = (ret, d1)" by (cases "aicwf_usb_submit_rx_urb e r (d\<lparr>ud_rx_free := rs\<rparr>)")
      have "ud_vifs d1 = ud_vifs d" using s by (auto simp: aicwf_usb_submit_rx_urb_def usb_prims split: if_splits)
      then show ?thesis using less [of d1] submit_rx_inv(4) [OF s Cons] s Cons by (cases "ret = 0") (simp_all add: rx_submit_loop.simps [of e d])
    qed (simp add: rx_submit_loop.simps [of e d])
  qed
qed (simp add: wait_disconnect_def log_usb_def)

lemma msg_side_vifs: "aicwf_usb_msg_rx_submit_all_urb fuel e d = Some d' \<Longrightarrow> ud_vifs d' = ud_vifs d"
proof -
  have "msg_submit_loop fuel e d = Some d' \<Longrightarrow> ud_vifs d' = ud_vifs d"
  proof (induction fuel arbitrary: d)
    case (Suc fuel)
    show ?case
    proof (cases "ud_msg_free d")
      case (Cons r rs)
      obtain ret d1 where s: "aicwf_usb_submit_msg_rx_urb e r (d\<lparr>ud_msg_free := rs\<rparr>) = (ret, d1)"
        by (cases "aicwf_usb_submit_msg_rx_urb e r (d\<lparr>ud_msg_free := rs\<rparr>)")
      have "ud_vifs d1 = ud_vifs d" using s by (auto simp: aicwf_usb_submit_msg_rx_urb_def usb_prims split: if_splits)
      then show ?thesis using Suc Cons s by (auto split: if_splits)
    qed (use Suc.prems in simp)
  qed simp
  then show "aicwf_usb_msg_rx_submit_all_urb fuel e d = Some d' \<Longrightarrow> ud_vifs d' = ud_vifs d"
    by (auto simp: aicwf_usb_msg_rx_submit_all_urb_def split: if_splits)
qed

lemma stalled_view: "tx_view d' = tx_view d \<Longrightarrow> ud_vifs d' = ud_vifs d \<Longrightarrow> usb_stalled (d, acc) \<Longrightarrow> usb_stalled (d', acc')"
  by (simp add: usb_stalled_def tx_view_def)

lemma usb_stalled_step: "usb_step e a s t \<Longrightarrow> a \<notin> {ActFrame, ActResume, ActVifs} \<Longrightarrow> usb_stalled s \<Longrightarrow> usb_stalled t"
proof (induction rule: usb_step.induct)
  case (thread d r d' acc)
  then show ?case using tx_process_end [of d e] by (auto simp: usb_stalled_def bustx_pass_def split: if_splits)
next
  case (rx_done i d ready u sk b d' b' acc)
  let ?d1 = "d\<lparr>ud_rx_flight := remove_nth i (ud_rx_flight d), ud_rx_urb_cnt := ud_rx_urb_cnt d - 1, ud_rx_free := ud_rx_free d @ [ud_rx_flight d ! i]\<rparr>"
  have "d' = ?d1 \<or> d' = wait_disconnect ?d1 \<or> d' = aicwf_usb_rx_submit_all_urb e ?d1"
    using rx_done(2) by (auto simp: usb_rx_done_def Let_def split: if_splits sum.splits)
  moreover have "tx_view ?d1 = tx_view d" by (simp add: tx_view_def)
  ultimately have "tx_view d' = tx_view d" "ud_vifs d' = ud_vifs d"
    using wait_disconnect_views [of ?d1] rx_side_vifs(1) [of e ?d1] rx_side_vifs(2) [of ?d1] by (auto simp: aicwf_usb_rx_submit_all_urb_def rx_submit_loop_inv)
  then show ?case using stalled_view rx_done(4) by blast
next
  case (msg_done i d fuel u sk b d' b' acc)
  let ?d0 = "d\<lparr>ud_msg_flight := remove_nth i (ud_msg_flight d)\<rparr>" and ?d1 = "d\<lparr>ud_msg_flight := remove_nth i (ud_msg_flight d), ud_msg_free := ud_msg_free d @ [ud_msg_flight d ! i]\<rparr>"
  have "d' = ?d0 \<or> d' = ?d1 \<or> aicwf_usb_msg_rx_submit_all_urb fuel e ?d1 = Some d'"
    using msg_done(2) by (auto simp: usb_msg_rx_done_def Let_def split: if_splits sum.splits bool.splits)
  then have "ud_vifs d' = ud_vifs d" using msg_side_vifs [of fuel e ?d1 d'] by auto
  then show ?case using stalled_view msg_done_views [OF msg_done(2)] msg_done(4) by blast
next
  case (start fuel d r d' acc)
  show ?case
  proof (cases "ud_state d = USB_UP_ST")
    case True
    then show ?thesis using start by (simp add: aicwf_usb_bus_start_def)
  next
    case False
    let ?d1 = "aicwf_usb_rx_submit_all_urb e ((aicwf_usb_state_change USB_UP_ST d)\<lparr>ud_rx_prepare_ready := False\<rparr>)"
    have "tx_view ?d1 = tx_view d" by simp
    moreover have "ud_vifs ?d1 = ud_vifs d" by (simp add: aicwf_usb_rx_submit_all_urb_def rx_side_vifs aicwf_usb_state_change_def)
    ultimately have d1: "usb_stalled (?d1, acc)" using stalled_view start(3) by blast
    then have "aicwf_usb_tx_prepare ?d1 = Inr ?d1" by (simp add: usb_stalled_def aicwf_usb_tx_prepare.simps [of ?d1] tx_post_get_def)
    then have "d' = ?d1 \<or> aicwf_usb_msg_rx_submit_all_urb fuel e ?d1 = Some d'"
      using start(1) False by (auto simp: aicwf_usb_bus_start_def Let_def split: if_splits option.splits)
    then show ?thesis using d1 stalled_view [of d' ?d1 acc acc] msg_submit_all_views [of fuel e ?d1 d'] msg_side_vifs [of fuel e ?d1 d'] by auto
  qed
next
  case (stop d acc)
  have "ud_vifs (aicwf_usb_bus_stop d) = ud_vifs d" by (simp add: aicwf_usb_bus_stop_def aicwf_usb_state_change_def log_usb_def)
  then show ?case using stalled_view [OF bus_stop_views(1)] stop(2) by blast
next
  case (suspend d acc)
  then show ?case
    by (auto simp: usb_stalled_def aicwf_usb_suspend_def aicwf_usb_bus_stop_def aicwf_usb_state_change_def log_usb_def Let_def split: if_splits)
qed (auto simp: usb_stalled_def)

interpretation usb_stall: transition_system usb_stalled "usb_idle_step e" usb_stalled for e
  by unfold_locales (auto simp: usb_idle_step_def dest: usb_stalled_step)

text \<open>
  Refused requests stall transmission for good. If flow control is on, all the interfaces that are up are stopped, no request is with the USB
  core and the USB core refuses the posted (unconfirmed) frames, then the pass of the transmit thread leaves all 200 requests free and
  flow control on; and it stays on, with the interfaces stopped, whatever the bus does until a new frame arrives (which the stopped
  interfaces hold back), the device is suspended and resumed, or the interfaces change.
\<close>
lemma usb_refused_frames_stall:
  assumes "usb_start s0" and "usb_run e s0 (d, acc)" and "ud_state d = USB_UP_ST" and "ud_bus_up d" and "ud_tx_post d \<noteq> []"
    and "ud_tbusy d" and "\<forall>v \<in> set (ud_vifs d). uv_ndev v \<and> uv_up v \<longrightarrow> uv_stopped v" and "ud_tx_flight d = []"
    and "\<forall>u \<in> set (ud_tx_post d). \<not> ub_cfm u" and "\<forall>n. ue_submit e n \<noteq> 0"
  shows "\<exists>d'. bustx_pass e d = Inr (True, d') \<and> ud_tx_free_count d' = 200
    \<and> (\<forall>d2 acc2. (usb_idle_step e)\<^sup>*\<^sup>* (d', acc) (d2, acc2) \<longrightarrow> ud_tbusy d2 \<and> (\<forall>v \<in> set (ud_vifs d2). uv_ndev v \<and> uv_up v \<longrightarrow> uv_stopped v))"
proof -
  have inv: "tx_inv acc d" using usb_pool.reachable_inv [OF assms(1, 2)] by (simp add: usb_inv_def)
  then have t: "\<forall>u \<in> set (ud_tx_post d). buf_busy u \<and> \<not> ub_cfm u" "0 < ud_tx_post_count d" using assms(5, 9) by (simp_all add: tx_inv_def list_all_iff)
  obtain d' where p: "aicwf_usb_tx_process e d = Inr d'" "ud_tx_post d' = []" "ud_tx_flight d' = []" "ud_tbusy d'" "ud_vifs d' = ud_vifs d"
    using tx_process_all_refused [OF t(1) assms(3, 10)] assms(6, 8) by auto
  have "tx_inv acc d'" using tx_process_inv [OF inv p(1)] by blast
  then have "mset (map ub_idx (ud_tx_free d')) = mset [0 ..< 200]" "ud_tx_free_count d' = int (length (ud_tx_free d'))" using p(2, 3) by (simp_all add: tx_inv_def)
  then have "ud_tx_free_count d' = 200" using mset_eq_length [of "map ub_idx (ud_tx_free d')" "[0 ..< 200]"] by simp
  moreover have "bustx_pass e d = Inr (True, d')" using assms(4) t(2) p(1) by (simp add: bustx_pass_def)
  moreover have "usb_stalled (d', acc)" using p assms(7) by (simp add: usb_stalled_def)
  then have "usb_stalled s" if "(usb_idle_step e)\<^sup>*\<^sup>* (d', acc) s" for s using usb_stall.run_inv [OF that] by blast
  ultimately show ?thesis unfolding usb_stalled_def by fastforce
qed

section \<open>Receive requests\<close>

text \<open>
  C16: Reception is refilled. In every reachable state with the bus up and the driver attached to it (\<open>rwnx_hw\<close> is set, the second argument of
  \<open>usb_rx_done\<close>), while every allocation of memory succeeds and the USB core accepts every request, the handler of a receive request whose
  status is no error and which ends without a fault leaves no request idle: all 20 are with the USB core again.
\<close>
theorem usb_rx_refilled:
  assumes "usb_start s0" and "usb_run e s0 (d, acc)" and "ud_state d = USB_UP_ST" and "\<forall>n. ue_alloc e n" and "\<forall>n. ue_submit e n = 0"
    and "i < length (ud_rx_flight d)" and "0 \<le> urb_status u" and "usb_rx_done e True i u s (d, b) = Inr (d', b')"
  shows "ud_rx_free d' = [] \<and> mset (ud_rx_flight d') = mset [0 ..< 20] \<and> ud_rx_urb_cnt d' = 20"
proof -
  let ?d1 = "d\<lparr>ud_rx_flight := remove_nth i (ud_rx_flight d), ud_rx_urb_cnt := ud_rx_urb_cnt d - 1, ud_rx_free := ud_rx_free d @ [ud_rx_flight d ! i]\<rparr>"
  have "rx_inv d" using usb_pool.reachable_inv [OF assms(1, 2)] by (simp add: usb_inv_def)
  then have r: "rx_inv d'" using rx_done_inv [OF assms(8, 6)] by blast
  have "d' = aicwf_usb_rx_submit_all_urb e ?d1" using assms(3, 7, 8) by (auto simp: usb_rx_done_def Let_def split: if_splits sum.splits)
  then have e: "ud_rx_free d' = []" using rx_submit_loop_good [OF assms(4, 5), of ?d1] assms(3) by (simp add: aicwf_usb_rx_submit_all_urb_def)
  then have m: "mset (ud_rx_flight d') = mset [0 ..< 20]" using r by (simp add: rx_inv_def)
  then have "length (ud_rx_flight d') = 20" using mset_eq_length [of "ud_rx_flight d'" "[0 ..< 20]"] by simp
  then show ?thesis using r e m by (simp add: rx_inv_def)
qed

text \<open>Without the hypotheses on the environment the last request may go idle: then nothing arrives any more until the bus is started again.\<close>

definition rx_starved :: "usb_dev \<times> nat list \<Rightarrow> bool" where
  "rx_starved s \<longleftrightarrow> ud_rx_flight (fst s) = []"

lemma rx_starved_view: "rx_view d' = rx_view d \<Longrightarrow> rx_starved (d, acc) \<Longrightarrow> rx_starved (d', acc')"
  by (simp add: rx_starved_def rx_view_def)

lemma rx_starved_step:
  assumes "usb_step e a s t" and "a \<notin> {ActStart, ActResume}" and "usb_inv s" and "rx_starved s"
  shows "rx_starved t"
  using assms
proof (induction rule: usb_step.induct)
  case (frame h s d d' acc)
  then have "rx_view d' = rx_view d" using frame_tx_inv(2) [of acc d e h s d'] by (simp add: usb_inv_def)
  then show ?case using rx_starved_view frame(4) by blast
next
  case (thread d r d' acc)
  then have "rx_view d' = rx_view d" using bustx_pass_inv [of acc d e r d'] by (simp add: usb_inv_def)
  then show ?case using rx_starved_view thread(4) by blast
next
  case (tx_done i d d' acc)
  then have "tx_inv acc d" by (simp add: usb_inv_def)
  then have "rx_view d' = rx_view d" using tx_complete_inv [of acc d i] tx_done(1, 2) by (metis sum.inject(2))
  then show ?case using rx_starved_view tx_done(5) by blast
next
  case (msg_done i d fuel u sk b d' b' acc)
  then show ?case using msg_done_views [OF msg_done(2)] rx_starved_view by blast
next
  case (stop d acc)
  then show ?case using rx_starved_view [of "aicwf_usb_bus_stop d" d acc acc] by simp
next
  case (suspend d acc)
  then show ?case using rx_starved_view [of "aicwf_usb_suspend d" d acc acc] by simp
qed (simp_all add: rx_starved_def)

lemma rx_last_request_lost:
  assumes "ud_state d = USB_UP_ST" and "ud_rx_flight d = [r]" and "\<not> ue_alloc e (ud_clock d)" and "usb_rx_done e True 0 u s (d, b) = Inr (d', b')"
    and "ud_rx_free d = q # qs"
  shows "ud_rx_flight d' = []"
proof -
  let ?d1 = "d\<lparr>ud_rx_flight := [], ud_rx_urb_cnt := ud_rx_urb_cnt d - 1, ud_rx_free := q # qs @ [r]\<rparr>"
  have "ud_rx_flight (rx_submit_loop e ?d1) = []"
    using assms(1, 3, 5) by (simp add: rx_submit_loop.simps [of e ?d1] aicwf_usb_submit_rx_urb_def usb_alloc_def)
  then show ?thesis
    using assms(1, 2, 4, 5) by (auto simp: usb_rx_done_def Let_def remove_nth_def aicwf_usb_rx_submit_all_urb_def wait_disconnect_def log_usb_def split: if_splits sum.splits)
qed

text \<open>The loop of the message endpoint does not end while the USB core refuses its requests and the bus is up.\<close>

lemma msg_submit_hangs:
  assumes "\<forall>n. ue_submit e n \<noteq> 0" and "ud_state d = USB_UP_ST" and "ud_msg_free d \<noteq> []"
  shows "aicwf_usb_msg_rx_submit_all_urb fuel e d = None"
proof -
  have "msg_submit_loop fuel e d = None" using assms(2, 3)
  proof (induction fuel arbitrary: d)
    case (Suc fuel)
    then obtain r rs where f: "ud_msg_free d = r # rs" by (cases "ud_msg_free d") auto
    obtain ret d1 where s: "aicwf_usb_submit_msg_rx_urb e r (d\<lparr>ud_msg_free := rs\<rparr>) = (ret, d1)" by (cases "aicwf_usb_submit_msg_rx_urb e r (d\<lparr>ud_msg_free := rs\<rparr>)")
    have "ud_state d1 = USB_UP_ST" "ud_msg_free d1 \<noteq> []"
      using s Suc.prems(1) assms(1) by (auto simp: aicwf_usb_submit_msg_rx_urb_def usb_alloc_def usb_submit_urb_def split: if_splits)
    then show ?case using Suc.IH [of d1] f s by simp
  qed simp
  then show ?thesis using assms(2) by (simp add: aicwf_usb_msg_rx_submit_all_urb_def)
qed

section \<open>Examples\<close>

definition ex_hdr :: "bool \<Rightarrow> sw_txhdr" where
  "ex_hdr cfm = \<lparr>sh_desc = replicate 28 5, sh_headroom = 92, sh_need_cfm = cfm\<rparr>"

definition ex_frame :: "nat \<Rightarrow> usb_skb" where
  "ex_frame k = \<lparr>us_id = k, us_room = 16, us_data = replicate 92 0 @ [1, 2, 3]\<rparr>"

lemma ex_tx: "length (sh_desc (ex_hdr cfm)) = 28" "34 \<le> sh_headroom (ex_hdr cfm)" "us_data (ex_frame n) = replicate 92 0 @ [1, 2, 3]"
    "length (replicate 92 (0 :: u8)) = sh_headroom (ex_hdr cfm)" "length [1 :: u8, 2, 3] < 4000" "sh_need_cfm (ex_hdr cfm) = cfm"
  by (simp_all add: ex_hdr_def ex_frame_def)

lemma usb_run_step: "usb_step e a s t \<Longrightarrow> usb_run e t u \<Longrightarrow> usb_run e s u"
  by (rule converse_rtranclp_into_rtranclp) blast+

text \<open>A number of frames, confirmed or not, handed to a bus whose requests are all free.\<close>

lemma ex_frames_posted:
  assumes "usb_inv (d, [])" and "ud_state d = USB_UP_ST" and "ud_bus_up d" and "ud_tx_post d = []" and "ud_tx_flight d = []" and "\<forall>n. ue_alloc e n"
  shows "n \<le> 200 \<Longrightarrow> \<exists>d'. usb_run e (d, []) (d', rev [0 ..< n]) \<and> length (ud_tx_post d') = n \<and> (\<forall>u \<in> set (ud_tx_post d'). ub_cfm u = cfm)
    \<and> ud_state d' = USB_UP_ST \<and> ud_bus_up d' \<and> ud_tx_flight d' = []
    \<and> (150 < n \<longrightarrow> ud_tbusy d' \<and> (\<forall>v \<in> set (ud_vifs d'). uv_ndev v \<and> uv_up v \<longrightarrow> uv_stopped v))"
proof (induction n)
  case 0
  have "usb_run e (d, []) (d, rev [0 ..< 0])" by simp
  then show ?case using assms(2-5) by (intro exI [of _ d]) simp
next
  case (Suc n)
  then obtain d1 where d1: "usb_run e (d, []) (d1, rev [0 ..< n])" "length (ud_tx_post d1) = n" "\<forall>u \<in> set (ud_tx_post d1). ub_cfm u = cfm"
      "ud_state d1 = USB_UP_ST" "ud_bus_up d1" "ud_tx_flight d1 = []" by auto
  have inv1: "tx_inv (rev [0 ..< n]) d1" using usb_pool.run_inv [OF d1(1) assms(1)] by (simp add: usb_inv_def)
  have len: "length (ud_tx_free x) = 200 - length (ud_tx_post x)" if "tx_inv acc x" "ud_tx_flight x = []" for acc x
    using that mset_eq_length [of "map ub_idx (ud_tx_free x @ ud_tx_post x @ ud_tx_flight x)" "[0 ..< 200]"] by (simp add: tx_inv_def)
  have ne: "ud_tx_free d1 \<noteq> []" using len [OF inv1 d1(6)] d1(2) Suc.prems by auto
  obtain d2 u where t: "aicwf_usb_bus_txdata e (ex_hdr cfm) (ex_frame n) d1 = Inr (0, d2)" "ud_tx_post d2 = ud_tx_post d1 @ [u]" "ub_cfm u = cfm"
      "ud_tx_flight d2 = []" "ud_bus_up d2" "ud_tx_free_count d2 < 50 \<Longrightarrow> \<forall>v \<in> set (ud_vifs d2). uv_ndev v \<and> uv_up v \<longrightarrow> uv_stopped v"
    by (rule usb_tx_accepts [where h = "ex_hdr cfm" and s = "ex_frame n", OF d1(4) ne assms(6) ex_tx(1-5)]) (use d1(5, 6) ex_tx(6) [of cfm] in simp)
  note T = txdata_inv [OF inv1 t(1)]
  have "usb_step e ActFrame (d1, rev [0 ..< n]) (d2, us_id (ex_frame n) # rev [0 ..< n])"
    using usb_step.frame [of e "ex_hdr cfm" "ex_frame n" d1 d2 "rev [0 ..< n]"] t(1) d1(4) by (simp add: aicwf_frame_tx_def)
  then have "usb_run e (d, []) (d2, rev [0 ..< Suc n])" using d1(1) by (intro rtranclp.rtrancl_into_rtrancl [OF d1(1)]) (auto simp: ex_frame_def)
  moreover have "ud_tx_free_count d2 = 200 - int (Suc n)" using T(1) len [OF T(1) t(4)] t(2) d1(2) Suc.prems by (simp add: tx_inv_def of_nat_diff)
  moreover have "\<not> ud_tbusy d2 \<longrightarrow> 50 \<le> ud_tx_free_count d2" using T(1) unfolding tx_inv_def by blast
  ultimately show ?case using T(3) t(2-) d1(2-4) by (intro exI [of _ d2]) auto
qed

text \<open>A bus without message endpoint whose core refuses every request, with one interface that is up.\<close>

definition fail_env :: usb_env where
  "fail_env = \<lparr>ue_submit = (\<lambda>_. - 19), ue_alloc = (\<lambda>_. True), ue_aligned = (\<lambda>_. True)\<rparr>"

definition fail_ready :: usb_dev where
  "fail_ready = (usb_zero False)\<lparr>ud_rx_free := [0 ..< 20], ud_tx_free := map fresh_buf [0 ..< 200], ud_tx_free_count := 200, ud_clock := 221\<rparr>"

definition fail_up :: usb_dev where
  "fail_up = fail_ready\<lparr>ud_state := USB_UP_ST, ud_bus_up := True, ud_rx_free := [1 ..< 20] @ [0], ud_clock := 223,
     ud_vifs := [\<lparr>uv_ndev = True, uv_up = True, uv_stopped = False, uv_present = True\<rparr>]\<rparr>"

lemma fail_ready_start: "usb_start (fail_ready, [])"
proof -
  have "aicwf_usb_init good_env (usb_zero False) = (0, fail_ready)"
    by (simp add: aicwf_usb_init_def usb_zero_def aicwf_usb_alloc_rx_urb_def aicwf_usb_alloc_tx_urb_def
        alloc_loops_good good_env_def usb_alloc_def fail_ready_def del: upt_Suc)
  then show ?thesis by (auto simp: usb_start_def)
qed

lemma fail_up_run: "usb_run fail_env (fail_ready, []) (fail_up, [])"
proof -
  let ?d = "fail_up\<lparr>ud_vifs := []\<rparr>"
  have u: "[0 ..< 20] = 0 # [1 ..< 20]" by (simp add: upt_conv_Cons)
  have "aicwf_usb_bus_start 0 fail_env fail_ready = Some (Inr (- 1, ?d))"
    by (simp add: aicwf_usb_bus_start_def fail_ready_def usb_zero_def fail_up_def aicwf_usb_state_change_def aicwf_usb_rx_submit_all_urb_def u
        rx_submit_loop.simps aicwf_usb_submit_rx_urb_def usb_alloc_def usb_submit_urb_def
        aicwf_usb_tx_prepare.simps tx_post_get_def fail_env_def del: upt_Suc upt_rec_numeral)
  then have s1: "usb_step fail_env ActStart (fail_ready, []) (?d, [])" by (rule usb_step.start)
  have s2: "usb_step fail_env ActVifs (?d, []) (fail_up, [])" using usb_step.vifs [of fail_env ?d "[]" "ud_vifs fail_up"] by simp
  show ?thesis by (rule usb_run_step [OF s1 usb_run_step [OF s2 rtranclp.rtrancl_refl]])
qed

text \<open>Three frames on a bus that works, and 160 frames on one that refuses them.\<close>

lemma ex_good_frames:
  "\<exists>d. usb_run good_env (usb_ready, []) (d, rev [0 ..< 3]) \<and> length (ud_tx_post d) = 3"
proof -
  have "usb_inv (usb_up, [])" using usb_pool.reachable_inv [OF usb_ready_start usb_up_run] .
  then obtain d where "usb_run good_env (usb_up, []) (d, rev [0 ..< 3])" "length (ud_tx_post d) = 3"
    using ex_frames_posted [of usb_up good_env 3 False] by (auto simp: usb_up_def usb_ready_def usb_zero_def good_env_def)
  then show ?thesis using rtranclp_trans [OF usb_up_run] by blast
qed

lemma ex_fail_frames:
  assumes "n \<le> 200"
  shows "\<exists>d. usb_run fail_env (fail_ready, []) (d, rev [0 ..< n]) \<and> length (ud_tx_post d) = n \<and> (\<forall>u \<in> set (ud_tx_post d). ub_cfm u = cfm)
    \<and> ud_state d = USB_UP_ST \<and> ud_bus_up d \<and> ud_tx_flight d = []
    \<and> (150 < n \<longrightarrow> ud_tbusy d \<and> (\<forall>v \<in> set (ud_vifs d). uv_ndev v \<and> uv_up v \<longrightarrow> uv_stopped v))"
proof -
  have "usb_inv (fail_up, [])" using usb_pool.reachable_inv [OF fail_ready_start fail_up_run] .
  then have "\<exists>d. usb_run fail_env (fail_up, []) (d, rev [0 ..< n]) \<and> length (ud_tx_post d) = n \<and> (\<forall>u \<in> set (ud_tx_post d). ub_cfm u = cfm)
    \<and> ud_state d = USB_UP_ST \<and> ud_bus_up d \<and> ud_tx_flight d = []
    \<and> (150 < n \<longrightarrow> ud_tbusy d \<and> (\<forall>v \<in> set (ud_vifs d). uv_ndev v \<and> uv_up v \<longrightarrow> uv_stopped v))"
    by (rule ex_frames_posted) (simp_all add: fail_up_def fail_ready_def usb_zero_def fail_env_def assms)
  then show ?thesis using rtranclp_trans [OF fail_up_run] by blast
qed

theorem usb_pool_sound_witness:
  "\<exists>d :: usb_dev. length (ud_tx_post d) = 3 \<and> ud_tx_post_count d = 3 \<and> mset (rev [0 ..< 3]) = freed (ud_log d) + held (ud_tx_post d @ ud_tx_flight d)"
proof -
  obtain d where d: "usb_run good_env (usb_ready, []) (d, rev [0 ..< 3])" "length (ud_tx_post d) = 3" using ex_good_frames by blast
  note S = usb_pool_sound [OF usb_ready_start d(1)]
  then have "mset (rev [0 ..< 3]) = freed (ud_log d) + held (ud_tx_post d @ ud_tx_flight d)" by blast
  moreover have "ud_tx_post_count d = 3" using S d(2) by simp
  ultimately show ?thesis using d(2) by blast
qed

theorem usb_tx_roundtrip_witness:
  "\<exists>d' u bytes. aicwf_usb_bus_txdata good_env (ex_hdr True) (ex_frame 7) usb_up = Inr (0, d') \<and> ud_tx_post d' = [u] \<and> ub_xfer u = Some bytes
    \<and> usb_parse bytes = Some (replicate 28 5, [1, 2, 3, 0])"
proof -
  have up: "ud_state usb_up = USB_UP_ST" "ud_tx_free usb_up \<noteq> []" "\<forall>n. ue_alloc good_env n" by (simp_all add: usb_up_def usb_ready_def good_env_def)
  show ?thesis
    using usb_tx_roundtrip [where h = "ex_hdr True" and s = "ex_frame 7", OF up ex_tx(1-5)]
    by (simp add: ex_tx(6) roundup4_def usb_up_def usb_ready_def usb_zero_def) (simp add: ex_hdr_def)
qed

theorem usb_tx_pass_fault_iff_witness:
  "\<exists>d d1 d2. length (ud_tx_post d) = 1 \<and> bustx_pass fail_env d = Inl InvalidFree
     \<and> length (ud_tx_post d1) = 1 \<and> bustx_pass fail_env d1 = Inr (True, d2) \<and> ud_tx_post d2 = []"
proof -
  obtain d where d: "usb_run fail_env (fail_ready, []) (d, rev [0 ..< 1])" "length (ud_tx_post d) = 1" "\<forall>u \<in> set (ud_tx_post d). ub_cfm u = True"
      "ud_state d = USB_UP_ST" "ud_bus_up d"
    using ex_fail_frames [of 1 True] by auto
  then have "ud_tx_post d \<noteq> []" by auto
  then have "bustx_pass fail_env d = Inl InvalidFree"
    using usb_tx_pass_fault_iff [OF fail_ready_start d(1, 4, 5)] d(2, 3) by (auto simp: fail_env_def split: if_splits)
  moreover obtain d1 where e: "usb_run fail_env (fail_ready, []) (d1, rev [0 ..< 1])" "length (ud_tx_post d1) = 1" "\<forall>u \<in> set (ud_tx_post d1). ub_cfm u = False"
      "ud_state d1 = USB_UP_ST" "ud_bus_up d1"
    using ex_fail_frames [of 1 False] by auto
  then have "ud_tx_post d1 \<noteq> []" by auto
  then obtain d2 where "bustx_pass fail_env d1 = Inr (True, d2)" "ud_tx_post d2 = []"
    using usb_tx_pass_fault_iff [OF fail_ready_start e(1, 4, 5)] e(2, 3) by (auto split: if_splits)
  ultimately show ?thesis using d(2) e(2) by blast
qed

lemma usb_refused_frames_stall_example:
  "\<exists>d d'. length (ud_tx_post d) = 160 \<and> bustx_pass fail_env d = Inr (True, d') \<and> ud_tx_free_count d' = 200 \<and> ud_tbusy d'"
proof -
  obtain d where d: "usb_run fail_env (fail_ready, []) (d, rev [0 ..< 160])" "length (ud_tx_post d) = 160" "\<forall>u \<in> set (ud_tx_post d). ub_cfm u = False"
      "ud_state d = USB_UP_ST" "ud_bus_up d" "ud_tx_flight d = []" "ud_tbusy d" "\<forall>v \<in> set (ud_vifs d). uv_ndev v \<and> uv_up v \<longrightarrow> uv_stopped v"
    using ex_fail_frames [of 160 False] by auto
  have ne: "ud_tx_post d \<noteq> []" and nc: "\<forall>u \<in> set (ud_tx_post d). \<not> ub_cfm u" and sub: "\<forall>n. ue_submit fail_env n \<noteq> 0" using d(2, 3) by (auto simp: fail_env_def)
  show ?thesis using usb_refused_frames_stall [OF fail_ready_start d(1, 4, 5) ne d(7, 8, 6) nc sub] d(2) by blast
qed

theorem usb_rx_refilled_witness:
  "\<exists>d' b'. usb_rx_done good_env True 3 \<lparr>urb_status = 0, urb_actual = 2, urb_length = 2048\<rparr> \<lparr>sb_data = [9, 9], sb_room = []\<rparr> (usb_up, rx_bus_init) = Inr (d', b')
     \<and> ud_rx_free d' = [] \<and> ud_rx_urb_cnt d' = 20"
proof -
  let ?u = "\<lparr>urb_status = 0, urb_actual = 2, urb_length = 2048\<rparr>" and ?s = "\<lparr>sb_data = [9 :: u8, 9], sb_room = []\<rparr>"
  have up: "ud_state usb_up = USB_UP_ST" "3 < length (ud_rx_flight usb_up)" by (simp_all add: usb_up_def)
  have env: "\<forall>n. ue_alloc good_env n" "\<forall>n. ue_submit good_env n = 0" by (simp_all add: good_env_def)
  obtain b' where "aicwf_usb_rx_complete True ?s rx_bus_init = Inr b'"
    by (simp add: aicwf_usb_rx_complete_def rx_complete_enqueue_def rx_bus_init_def aicwf_frame_queue_init_def aicwf_rxframe_enqueue_def aicwf_frame_enq_def
        aicwf_frame_queue_penq_def array_get_def word_less_nat_alt bus_emit_def)
  then obtain d' where r: "usb_rx_done good_env True 3 ?u ?s (usb_up, rx_bus_init) = Inr (d', b')" using up(1) by (simp add: usb_rx_done_def Let_def)
  then show ?thesis using usb_rx_refilled [OF usb_ready_start usb_up_run up(1) env up(2) _ r] by simp
qed

end
