(* ===== verification/DataInd.thy ===== *)
theory DataInd
  imports RxReorder
begin

text \<open>
  The data indication of rwnx_rx.c, \<open>rwnx_rxdataind_aicwf\<close>, for a buffer that is not from a monitor interface: the 802.11 header is parsed
  and replaced by an Ethernet header, fragments are put together, and the frame goes to the reorder window, to the stack or back to the
  air. The reorder functions are those of \<open>RxReorder\<close>, with the receive context \<open>rx_priv\<close> as part of the state. What cfg80211 does with a
  management frame (\<open>rwnx_rx_mgmt\<close>), the counters of \<open>dev_queue_xmit\<close> results and the statistics of received rates are not modelled; CONFIG_BR_SUPPORT,
  CONFIG_DYNAMIC_PERPWR and CONFIG_BAND_STEERING are not built.
\<close>

section \<open>State\<close>

datatype decr_status = DECR_UNENC | DECR_WEP | DECR_TKIP | DECR_CCMP128 | DECR_CCMP256 | DECR_GCMP128 | DECR_GCMP256 | DECR_WAPI

text \<open>The fields of \<open>struct hw_rxhdr\<close> that the function reads.\<close>

record hw_rxhdr =
  hx_upload :: bool
  hx_decr :: decr_status
  hx_ga_frame :: bool
  hx_is_amsdu :: bool
  hx_is_80211_mpdu :: bool
  hx_is_4addr :: bool
  hx_need_reord :: bool
  hx_vif_idx :: u8
  hx_dst_idx :: u8
  hx_sta_idx :: u8

record defrag_info =
  df_sta_idx :: u8
  df_tid :: u8
  df_sn :: u16
  df_next_fn :: u8
  df_frm :: "u8 list"

record rx_sta =
  xs_valid :: bool
  xs_vlan_idx :: nat
  xs_mac :: "u8 list"

record rx_vif =
  xv_index :: nat
  xv_iftype :: nl80211_iftype
  xv_up :: bool
  xv_isolate :: bool
  xv_use_4addr :: bool
  xv_sta_macs :: "u8 list list"

datatype ind_event =
    Resent skb
  | Unexpected4Addr "u8 list"
  | RxMgmt nat skb

text \<open>
  \<open>rh_vifs\<close> is the array \<open>vif_table\<close>, \<open>rh_vif_list\<close> the list \<open>vifs\<close> by the indexes of its entries, \<open>rh_tail\<close> the tail room of a buffer
  from \<open>__dev_alloc_skb(2000)\<close>. The field \<open>frm_len\<close> of an entry of \<open>defrag_list\<close> is the length of \<open>df_frm\<close>.
\<close>

record rx_hw =
  rh_rx :: rx_priv
  rh_vifs :: "rx_vif option list"
  rh_vif_list :: "nat list"
  rh_stas :: "rx_sta list"
  rh_defrag :: "defrag_info list"
  rh_tail :: nat
  rh_events :: "ind_event list"

abbreviation (input) RWNX_INVALID_STA :: u8 where "RWNX_INVALID_STA \<equiv> 0xFF"
abbreviation (input) RWNX_INVALID_VIF :: u8 where "RWNX_INVALID_VIF \<equiv> 0xFF"

definition rx_emit :: "rx_event list \<Rightarrow> rx_hw \<Rightarrow> rx_hw" where
  "rx_emit es hw = hw\<lparr>rh_rx := log_rx es (rh_rx hw)\<rparr>"

definition ind_emit :: "ind_event list \<Rightarrow> rx_hw \<Rightarrow> rx_hw" where
  "ind_emit es hw = hw\<lparr>rh_events := rh_events hw @ es\<rparr>"

definition rwnx_rx_get_vif :: "rx_hw \<Rightarrow> nat \<Rightarrow> rx_vif option" where
  "rwnx_rx_get_vif hw i =
     (if i < 4 \<and> i < length (rh_vifs hw)
      then (case rh_vifs hw ! i of None \<Rightarrow> None | Some v \<Rightarrow> if xv_up v then Some v else None)
      else None)"

section \<open>The 802.11 header\<close>

fun sec_len :: "decr_status \<Rightarrow> nat" where
  "sec_len DECR_CCMP128 = 8"
| "sec_len DECR_TKIP = 8"
| "sec_len DECR_WEP = 4"
| "sec_len DECR_WAPI = 18"
| "sec_len _ = 0"

record mpdu =
  mp_more :: bool
  mp_sn :: u16
  mp_fn :: u8
  mp_is_data :: bool
  mp_qos :: bool
  mp_tid :: u8
  mp_amsdu :: bool
  mp_ra :: "u8 list"
  mp_ta :: "u8 list"
  mp_pull :: nat
  mp_type :: "u8 list"

definition mp_hdr_len :: "u8 list \<Rightarrow> nat" where
  "mp_hdr_len d = (if d ! 0 AND 0x80 = 0x80 then 26 else 24) + (if d ! 1 AND 0x80 \<noteq> 0 then 4 else 0)"

definition addr_at :: "nat \<Rightarrow> u8 list \<Rightarrow> u8 list" where
  "addr_at n d = take 6 (drop n d)"

definition mp_addrs :: "u8 list \<Rightarrow> u8 list \<times> u8 list" where
  "mp_addrs d =
     (if d ! 1 AND 0x3 = 0x1 then (addr_at 16 d, addr_at 10 d)
      else if d ! 1 AND 0x3 = 0x2 then (addr_at 4 d, addr_at 16 d)
      else (replicate 6 0, replicate 6 0))"

text \<open>
  The header is read from the memory of the buffer, which is the frame and the bytes \<open>room\<close> behind it; the Ethernet type of a frame without
  payload comes from there.
\<close>

definition mpdu_parse :: "decr_status \<Rightarrow> u8 list \<Rightarrow> fault + mpdu" where
  "mpdu_parse decr d =
     (let data = (d ! 0 AND 0x0f = 0x08); qos = (data \<and> d ! 0 AND 0x80 = 0x80); hl = mp_hdr_len d in
      if length d < 24 \<or> data \<and> length d < hl + 8 + sec_len decr then Inl OutOfBounds
      else Inr \<lparr>mp_more = d ! 1 AND 0x04 \<noteq> 0,
                mp_sn = drop_bit 4 (ucast (d ! 22 AND 0xf0)) OR push_bit 4 (ucast (d ! 23)), mp_fn = d ! 22 AND 0x0f,
                mp_is_data = data, mp_qos = qos, mp_tid = (if qos then d ! 24 AND 0x0f else 0), mp_amsdu = (qos \<and> d ! 24 AND 0x80 \<noteq> 0),
                mp_ra = fst (mp_addrs d), mp_ta = snd (mp_addrs d),
                mp_pull = hl + 8 + sec_len decr, mp_type = take 2 (drop (hl + 6 + sec_len decr) d)\<rparr>)"

text \<open>\<open>skb_pull\<close> of the header, \<open>skb_push\<close> of 14 bytes (there is room in place of the hardware header) and the three copies.\<close>

definition to_ethernet :: "mpdu \<Rightarrow> u8 list \<Rightarrow> u8 list" where
  "to_ethernet m d = mp_ra m @ mp_ta m @ mp_type m @ skb_pull d (mp_pull m)"

section \<open>Handing a frame on\<close>

definition is_multicast :: "skb \<Rightarrow> fault + bool" where
  "is_multicast d = (if length d < 6 then Inl OutOfBounds else Inr (d ! 0 AND 1 \<noteq> 0))"

definition rwnx_rx_data_skb_resend :: "skb \<Rightarrow> rx_hw \<Rightarrow> rx_hw" where
  "rwnx_rx_data_skb_resend d hw =
     (case skb_mem (rh_rx hw) of 0 \<Rightarrow> hw | Suc n \<Rightarrow> ind_emit [Resent d] (hw\<lparr>rh_rx := (rh_rx hw)\<lparr>skb_mem := n\<rparr>\<rparr>))"

definition rwnx_rx_data_skb_forward :: "skb \<Rightarrow> rx_hw \<Rightarrow> rx_hw" where
  "rwnx_rx_data_skb_forward d hw =
     (let rx = rh_rx hw in
      hw\<lparr>rh_rx := log_rx [FilterRxTcpAck d, NetifReceiveSkb d] (rx\<lparr>rx_packets := rx_packets rx + 1, rx_bytes := rx_bytes rx + of_nat (length d)\<rparr>)\<rparr>)"

text \<open>The loop at the end of \<open>rwnx_rx_data_skb\<close>; this function does not count what it delivers.\<close>

definition data_skb_one :: "rx_vif \<Rightarrow> bool \<Rightarrow> bool \<Rightarrow> rx_hw \<Rightarrow> skb \<Rightarrow> rx_hw" where
  "data_skb_one v resend fwd hw d =
     (let hw1 = if resend then rwnx_rx_data_skb_resend d hw else hw in
      if fwd
      then rx_emit ((if xv_iftype v = IFTYPE_STATION \<or> xv_iftype v = IFTYPE_P2P_CLIENT then [ArpOffloadProc d] else []) @ [FilterRxTcpAck d, NetifReceiveSkb d]) hw1
      else hw1)"

definition same_bss :: "rx_hw \<Rightarrow> rx_vif \<Rightarrow> u8 \<Rightarrow> fault + bool" where
  "same_bss hw v i =
     (case array_get (rh_stas hw) (unat i) of Inl f \<Rightarrow> Inl f | Inr st \<Rightarrow> Inr (xs_valid st \<and> xs_vlan_idx st = xv_index v))"

text \<open>Whether the first buffer of the list makes all of them be sent again and not be forwarded.\<close>

definition data_skb_flags :: "rx_hw \<Rightarrow> rx_vif \<Rightarrow> hw_rxhdr \<Rightarrow> skb list \<Rightarrow> fault + bool \<times> bool" where
  "data_skb_flags hw v hdr ds =
     (if xv_iftype v \<in> {IFTYPE_AP, IFTYPE_AP_VLAN, IFTYPE_P2P_GO} \<and> \<not> xv_isolate v then
        (case ds of
           [] \<Rightarrow> Inl NullDeref
         | d # _ \<Rightarrow>
             (case is_multicast d of
                Inl f \<Rightarrow> Inl f
              | Inr True \<Rightarrow> Inr (True, True)
              | Inr False \<Rightarrow>
                  if hx_dst_idx hdr = RWNX_INVALID_STA then Inr (False, True)
                  else (case same_bss hw v (hx_dst_idx hdr) of Inl f \<Rightarrow> Inl f | Inr b \<Rightarrow> Inr (b, \<not> b))))
      else if xv_iftype v = IFTYPE_MESH_POINT then
        (case ds of
           [] \<Rightarrow> Inl NullDeref
         | d # _ \<Rightarrow>
             (case is_multicast d of
                Inl f \<Rightarrow> Inl f
              | Inr m \<Rightarrow> let again = (\<not> m \<and> hx_dst_idx hdr \<noteq> RWNX_INVALID_STA) in Inr (again, \<not> again)))
      else Inr (False, True))"

definition rwnx_rx_data_skb :: "rx_vif \<Rightarrow> hw_rxhdr \<Rightarrow> skb \<Rightarrow> rx_hw \<Rightarrow> fault + bool \<times> rx_hw" where
  "rwnx_rx_data_skb v hdr d hw =
     (case (if hx_is_amsdu hdr
            then rwnx_rxdata_process_amsdu ((rh_rx hw)\<lparr>vif_found := rwnx_rx_get_vif hw (unat (hx_vif_idx hdr)) \<noteq> None\<rparr>) d
            else Inr (rh_rx hw, [d])) of
        Inl f \<Rightarrow> Inl f
      | Inr (rx, ds) \<Rightarrow>
          (case data_skb_flags hw v hdr ds of
             Inl f \<Rightarrow> Inl f
           | Inr (resend, fwd) \<Rightarrow> Inr (fwd, foldl (data_skb_one v resend fwd) (hw\<lparr>rh_rx := rx\<rparr>) ds)))"

section \<open>Fragments\<close>

definition df_match :: "u16 \<Rightarrow> u8 \<Rightarrow> u8 \<Rightarrow> defrag_info \<Rightarrow> bool" where
  "df_match sn t s i \<longleftrightarrow> df_sn i = sn \<and> df_tid i = t \<and> df_sta_idx i = s"

fun df_find :: "u16 \<Rightarrow> u8 \<Rightarrow> u8 \<Rightarrow> defrag_info list \<Rightarrow> nat option" where
  "df_find sn t s [] = None"
| "df_find sn t s (i # is) = (if df_match sn t s i then Some 0 else map_option Suc (df_find sn t s is))"

text \<open>The payload of a further fragment: everything behind the 802.11 header and the cipher header, appended if it fits.\<close>

definition df_append :: "nat \<Rightarrow> mpdu \<Rightarrow> u8 list \<Rightarrow> defrag_info \<Rightarrow> fault + defrag_info" where
  "df_append tail m d i =
     (if length d < mp_pull m - 8 then Inl BadMemcpy
      else if length (df_frm i) + (length d - (mp_pull m - 8)) > tail then Inl KernelBug
      else Inr (i\<lparr>df_frm := df_frm i @ drop (mp_pull m - 8) d\<rparr>))"

definition df_first :: "mpdu \<Rightarrow> u8 \<Rightarrow> u8 list \<Rightarrow> rx_hw \<Rightarrow> fault + rx_hw" where
  "df_first m s d hw =
     (let hw1 = rx_emit [DevKfreeSkb d] hw in
      if \<not> kmalloc_ok (rh_rx hw) then Inr hw1
      else
        (case skb_mem (rh_rx hw) of
           0 \<Rightarrow> Inr hw1
         | Suc n \<Rightarrow>
             if length (to_ethernet m d) > rh_tail hw then Inl KernelBug
             else Inr (rx_emit [DevKfreeSkb (to_ethernet m d)] (hw\<lparr>rh_rx := (rh_rx hw)\<lparr>skb_mem := n\<rparr>,
                    rh_defrag := rh_defrag hw @ [\<lparr>df_sta_idx = s, df_tid = mp_tid m, df_sn = mp_sn m, df_next_fn = 1, df_frm = to_ethernet m d\<rparr>]\<rparr>))))"

definition df_more :: "mpdu \<Rightarrow> u8 \<Rightarrow> u8 list \<Rightarrow> rx_hw \<Rightarrow> fault + rx_hw" where
  "df_more m s d hw =
     (case df_find (mp_sn m) (mp_tid m) s (rh_defrag hw) of
        None \<Rightarrow> df_first m s d hw
      | Some j \<Rightarrow>
          let i = rh_defrag hw ! j; hw1 = rx_emit [DevKfreeSkb d] hw in
          if df_next_fn i \<noteq> mp_fn m then Inr hw1
          else (case df_append (rh_tail hw) m d i of
                  Inl f \<Rightarrow> Inl f
                | Inr i' \<Rightarrow> Inr (hw1\<lparr>rh_defrag := (rh_defrag hw)[j := i'\<lparr>df_next_fn := df_next_fn i + 1\<rparr>]\<rparr>)))"

text \<open>
  The last fragment. \<open>None\<close> is the case that no fragment of the frame is waiting: the function goes on as with a frame that
  is not fragmented. The header that \<open>rwnx_rx_data_skb\<close> gets lies in the buffer that was freed just before; the model uses its contents.
\<close>

definition df_last :: "hw_rxhdr \<Rightarrow> mpdu \<Rightarrow> u8 \<Rightarrow> u8 list \<Rightarrow> rx_hw \<Rightarrow> fault + rx_hw option" where
  "df_last hdr m s d hw =
     (case df_find (mp_sn m) (mp_tid m) s (rh_defrag hw) of
        None \<Rightarrow> Inr None
      | Some j \<Rightarrow>
          let i = rh_defrag hw ! j; hw1 = rx_emit [DevKfreeSkb d] hw in
          if df_next_fn i \<noteq> mp_fn m then Inr (Some hw1)
          else
            (case df_append (rh_tail hw) m d i of
               Inl f \<Rightarrow> Inl f
             | Inr i' \<Rightarrow>
                 (case rwnx_rx_get_vif hw (unat (hx_vif_idx hdr)) of
                    None \<Rightarrow> Inr (Some (hw1\<lparr>rh_defrag := (rh_defrag hw)[j := i']\<rparr>))
                  | Some v \<Rightarrow>
                      (case rwnx_rx_data_skb v hdr (df_frm i') (hw1\<lparr>rh_defrag := remove_nth j (rh_defrag hw)\<rparr>) of
                         Inl f \<Rightarrow> Inl f
                       | Inr (fwd, hw2) \<Rightarrow> Inr (Some (if fwd then hw2 else rx_emit [DevKfreeSkb (df_frm i')] hw2))))))"

text \<open>The timer of an entry; a timer that was deleted in time has none.\<close>

definition defrag_timeout_cb :: "u16 \<Rightarrow> u8 \<Rightarrow> u8 \<Rightarrow> rx_hw \<Rightarrow> rx_hw" where
  "defrag_timeout_cb sn t s hw =
     (case df_find sn t s (rh_defrag hw) of
        None \<Rightarrow> hw
      | Some j \<Rightarrow> rx_emit [DevKfreeSkb (df_frm (rh_defrag hw ! j))] (hw\<lparr>rh_defrag := remove_nth j (rh_defrag hw)\<rparr>))"

section \<open>Frames received by an access point\<close>

text \<open>Whether a buffer is sent again and whether it is forwarded.\<close>

definition ap_flags :: "rx_hw \<Rightarrow> rx_vif \<Rightarrow> hw_rxhdr \<Rightarrow> skb \<Rightarrow> fault + bool \<times> bool" where
  "ap_flags hw v hdr d =
     (case is_multicast d of
        Inl f \<Rightarrow> Inl f
      | Inr True \<Rightarrow> Inr (True, True)
      | Inr False \<Rightarrow>
          if hx_dst_idx hdr \<noteq> RWNX_INVALID_STA \<and> \<not> hx_is_amsdu hdr
          then (case same_bss hw v (hx_dst_idx hdr) of Inl f \<Rightarrow> Inl f | Inr b \<Rightarrow> Inr (b, \<not> b))
          else let b = list_ex (\<lambda>mac. mac = take 6 d) (xv_sta_macs v) in Inr (b, \<not> b))"

text \<open>A buffer for the reorder window: the first one takes a frame descriptor; \<open>False\<close> if there is none.\<close>

definition ap_collect :: "bool \<Rightarrow> skb \<Rightarrow> recv_msdu option \<Rightarrow> rx_hw \<Rightarrow> bool \<times> recv_msdu option \<times> rx_hw" where
  "ap_collect fwd d pf hw =
     (case pf of
        Some f \<Rightarrow>
          (True, Some (if fwd then f\<lparr>ap_fwd_cnt := ap_fwd_cnt f + 1, fwd_skbs := fwd_skbs f @ [d]\<rparr>
                       else f\<lparr>ap_resend_cnt := ap_resend_cnt f + 1, resend_skbs := resend_skbs f @ [d]\<rparr>), hw)
      | None \<Rightarrow>
          (case reord_rxframe_alloc (rh_rx hw) of
             (None, _) \<Rightarrow> (False, None, rx_emit [DevKfreeSkb d] hw)
           | (Some f, rx) \<Rightarrow>
               (True, Some (if fwd then f\<lparr>ap_fwd_cnt := 1, ap_resend_cnt := 0, fwd_skbs := [d], resend_skbs := []\<rparr>
                            else f\<lparr>ap_fwd_cnt := 0, ap_resend_cnt := 1, fwd_skbs := [], resend_skbs := [d]\<rparr>), hw\<lparr>rh_rx := rx\<rparr>)))"

text \<open>One buffer of the list; \<open>t\<close> is the TID. A buffer that is not forwarded has been sent again.\<close>

definition ap_one :: "rx_vif \<Rightarrow> hw_rxhdr \<Rightarrow> bool \<Rightarrow> u8 \<Rightarrow> skb \<Rightarrow> recv_msdu option \<Rightarrow> rx_hw \<Rightarrow> fault + bool \<times> recv_msdu option \<times> rx_hw" where
  "ap_one v hdr qos t d pf hw =
     (case ap_flags hw v hdr d of
        Inl f \<Rightarrow> Inl f
      | Inr (resend, fwd) \<Rightarrow>
          let hw1 = if resend then rwnx_rx_data_skb_resend d hw else hw in
          if qos \<and> hx_need_reord hdr then Inr (ap_collect fwd d pf hw1)
          else if qos then
            (case reord_flush_tid (rh_rx hw1) d t of
               Inl f \<Rightarrow> Inl f
             | Inr (r, rx) \<Rightarrow>
                 let hw2 = hw1\<lparr>rh_rx := rx\<rparr> in
                 Inr (True, pf, if fwd then rwnx_rx_data_skb_forward d hw2 else if r = 0 then rx_emit [DevKfreeSkb d] hw2 else hw2))
          else Inr (True, pf, if fwd then rwnx_rx_data_skb_forward d hw1 else rx_emit [DevKfreeSkb d] hw1))"

fun ap_loop :: "rx_vif \<Rightarrow> hw_rxhdr \<Rightarrow> bool \<Rightarrow> u8 \<Rightarrow> skb list \<Rightarrow> recv_msdu option \<Rightarrow> rx_hw \<Rightarrow> fault + bool \<times> recv_msdu option \<times> rx_hw" where
  "ap_loop v hdr qos t [] pf hw = Inr (True, pf, hw)"
| "ap_loop v hdr qos t (d # ds) pf hw =
     (case ap_one v hdr qos t d pf hw of
        Inr (True, pf', hw') \<Rightarrow> ap_loop v hdr qos t ds pf' hw'
      | r \<Rightarrow> r)"

definition ap_data :: "rx_vif \<Rightarrow> hw_rxhdr \<Rightarrow> mpdu \<Rightarrow> skb \<Rightarrow> rx_hw \<Rightarrow> fault + int \<times> rx_hw" where
  "ap_data v hdr m d hw =
     (case (if hx_is_amsdu hdr
            then rwnx_rxdata_process_amsdu ((rh_rx hw)\<lparr>vif_found := rwnx_rx_get_vif hw (unat (hx_vif_idx hdr)) \<noteq> None\<rparr>) d
            else Inr (rh_rx hw, [d])) of
        Inl f \<Rightarrow> Inl f
      | Inr (rx, ds) \<Rightarrow>
          (case ap_loop v hdr (mp_qos m) (mp_tid m) ds None (hw\<lparr>rh_rx := rx\<rparr>) of
             Inl f \<Rightarrow> Inl f
           | Inr (False, _, hw1) \<Rightarrow> Inr (- 1, hw1)
           | Inr (True, None, hw1) \<Rightarrow> Inr (0, hw1)
           | Inr (True, Some f, hw1) \<Rightarrow>
               (case reord_process_unit (f\<lparr>is_ap_reord := 1\<rparr>) (rh_rx hw1) (last ds) (mp_sn m) (mp_tid m) 0 0 of
                  Inl e \<Rightarrow> Inl e
                | Inr (_, rx1) \<Rightarrow> Inr (0, hw1\<lparr>rh_rx := rx1\<rparr>))))"

section \<open>Frames received by a station\<close>

definition plain_data :: "rx_vif \<Rightarrow> hw_rxhdr \<Rightarrow> skb \<Rightarrow> rx_hw \<Rightarrow> fault + int \<times> rx_hw" where
  "plain_data v hdr d hw =
     (case rwnx_rx_data_skb v hdr d hw of
        Inl f \<Rightarrow> Inl f
      | Inr (fwd, hw1) \<Rightarrow> Inr (0, if \<not> fwd \<and> \<not> hx_is_amsdu hdr then rx_emit [DevKfreeSkb d] hw1 else hw1))"

definition sta_data :: "rx_vif \<Rightarrow> hw_rxhdr \<Rightarrow> mpdu \<Rightarrow> skb \<Rightarrow> rx_hw \<Rightarrow> fault + int \<times> rx_hw" where
  "sta_data v hdr m d hw =
     (if mp_qos m \<and> hx_need_reord hdr then
        (case reord_rxframe_alloc (rh_rx hw) of
           (None, _) \<Rightarrow> Inr (- 1, rx_emit [DevKfreeSkb d] hw)
         | (Some f, rx) \<Rightarrow>
             (case reord_process_unit (f\<lparr>is_ap_reord := 0, ap_fwd_cnt := 0, ap_resend_cnt := 0\<rparr>) rx d (mp_sn m) (mp_tid m) 1
                     (if hx_is_amsdu hdr then 1 else 0) of
                Inl e \<Rightarrow> Inl e
              | Inr (_, rx1) \<Rightarrow> Inr (0, hw\<lparr>rh_rx := rx1\<rparr>)))
      else if mp_qos m then
        (case reord_flush_tid (rh_rx hw) d (mp_tid m) of
           Inl e \<Rightarrow> Inl e
         | Inr (_, rx) \<Rightarrow> plain_data v hdr d (hw\<lparr>rh_rx := rx\<rparr>))
      else plain_data v hdr d hw)"

section \<open>The indication\<close>

text \<open>The interface of the frame: that of the descriptor, or the VLAN of the station; \<open>None\<close> drops the frame.\<close>

definition ind_vif :: "hw_rxhdr \<Rightarrow> rx_hw \<Rightarrow> fault + (rx_vif \<times> rx_hw) option" where
  "ind_vif hdr hw =
     (case rwnx_rx_get_vif hw (unat (hx_vif_idx hdr)) of
        None \<Rightarrow> Inr None
      | Some v \<Rightarrow>
          if hx_sta_idx hdr = RWNX_INVALID_STA then Inr (Some (v, hw))
          else
            (case array_get (rh_stas hw) (unat (hx_sta_idx hdr)) of
               Inl f \<Rightarrow> Inl f
             | Inr st \<Rightarrow>
                 (case (if xs_vlan_idx st \<noteq> xv_index v then array_get (rh_vifs hw) (xs_vlan_idx st) else Inr (Some v)) of
                    Inl f \<Rightarrow> Inl f
                  | Inr None \<Rightarrow> Inr None
                  | Inr (Some v') \<Rightarrow>
                      Inr (Some (v', if hx_is_4addr hdr \<and> \<not> xv_use_4addr v' then ind_emit [Unexpected4Addr (xs_mac st)] hw else hw)))))"

text \<open>The interface becomes that of the receive context.\<close>

definition rx_on_vif :: "rx_vif \<Rightarrow> rx_hw \<Rightarrow> rx_hw" where
  "rx_on_vif v hw = hw\<lparr>rh_rx := (rh_rx hw)\<lparr>iftype := xv_iftype v, vif_found := rwnx_rx_get_vif hw (xv_index v) \<noteq> None\<rparr>\<rparr>"

definition remove_sec_hdr_mgmt_frame :: "hw_rxhdr \<Rightarrow> skb \<Rightarrow> fault + skb" where
  "remove_sec_hdr_mgmt_frame hdr d =
     (if hx_ga_frame hdr then Inr d
      else if length d < 2 then Inl OutOfBounds
      else if d ! 0 AND 0x0C = 0 \<and> d ! 1 AND 0x40 = 0x40 \<and> hx_decr hdr = DECR_CCMP128
      then (if length d < 32 then Inl OutOfBounds else Inr (take 24 d @ drop 32 d))
      else Inr d)"

definition rwnx_rx_mgmt_any :: "hw_rxhdr \<Rightarrow> skb \<Rightarrow> rx_hw \<Rightarrow> rx_hw" where
  "rwnx_rx_mgmt_any hdr d hw =
     rx_emit [DevKfreeSkb d]
       (if hx_vif_idx hdr = RWNX_INVALID_VIF
        then ind_emit [RxMgmt i d. i \<leftarrow> rh_vif_list hw, rwnx_rx_get_vif hw i \<noteq> None] hw
        else if rwnx_rx_get_vif hw (unat (hx_vif_idx hdr)) \<noteq> None then ind_emit [RxMgmt (unat (hx_vif_idx hdr)) d] hw else hw)"

definition ind_deliver :: "hw_rxhdr \<Rightarrow> mpdu \<Rightarrow> skb \<Rightarrow> rx_hw \<Rightarrow> fault + int \<times> rx_hw" where
  "ind_deliver hdr m d hw =
     (if hx_is_80211_mpdu hdr then
        (case remove_sec_hdr_mgmt_frame hdr d of Inl f \<Rightarrow> Inl f | Inr d' \<Rightarrow> Inr (0, rwnx_rx_mgmt_any hdr d' hw))
      else
        (case ind_vif hdr hw of
           Inl f \<Rightarrow> Inl f
         | Inr None \<Rightarrow> Inr (0, rx_emit [DevKfreeSkb d] hw)
         | Inr (Some (v, hw1)) \<Rightarrow>
             let hw2 = rx_on_vif v hw1 in
             if xv_iftype v = IFTYPE_STATION \<or> xv_iftype v = IFTYPE_P2P_CLIENT then sta_data v hdr m d hw2
             else if xv_iftype v = IFTYPE_AP \<or> xv_iftype v = IFTYPE_P2P_GO then ap_data v hdr m d hw2
             else Inr (0, hw2)))"

text \<open>The station that the fragments of a frame are kept under.\<close>

definition frag_sta :: "hw_rxhdr \<Rightarrow> u8" where
  "frag_sta hdr = (if hx_dst_idx hdr \<noteq> RWNX_INVALID_STA then hx_dst_idx hdr else 0)"

text \<open>
  The whole indication: \<open>d0\<close> is the frame behind the hardware header, \<open>room\<close> what follows it in its buffer. A buffer without
  \<open>flags_upload\<close> is neither delivered nor freed.
\<close>

definition rwnx_rxdataind_aicwf :: "hw_rxhdr \<Rightarrow> u8 list \<Rightarrow> u8 list \<Rightarrow> rx_hw \<Rightarrow> fault + int \<times> rx_hw" where
  "rwnx_rxdataind_aicwf hdr0 d0 room hw =
     (if \<not> hx_upload hdr0 then Inr (0, hw)
      else
        (case mpdu_parse (hx_decr hdr0) (d0 @ room) of
           Inl f \<Rightarrow> Inl f
         | Inr m \<Rightarrow>
             if \<not> mp_is_data m then ind_deliver hdr0 m d0 hw
             else
               let hdr = hdr0\<lparr>hx_is_amsdu := mp_amsdu m\<rparr>; d = (if mp_amsdu m then skb_pull d0 (mp_pull m - 8) else d0);
                   whole = ind_deliver hdr m (if mp_amsdu m then d else to_ethernet m d) hw in
               if hx_need_reord hdr \<or> \<not> mp_more m \<and> mp_fn m = 0 then whole
               else if mp_more m then map_sum id (Pair 0) (df_more m (frag_sta hdr) d hw)
               else
                 (case df_last hdr m (frag_sta hdr) d hw of
                    Inl f \<Rightarrow> Inl f
                  | Inr (Some hw') \<Rightarrow> Inr (0, hw')
                  | Inr None \<Rightarrow> whole)))"

section \<open>Runs\<close>

datatype ind_input =
    Indicate hw_rxhdr "u8 list" "u8 list"
  | DefragTimeout u16 u8 u8

fun ind_do :: "ind_input \<Rightarrow> rx_hw \<Rightarrow> fault + rx_hw" where
  "ind_do (Indicate hdr d room) hw = map_sum id snd (rwnx_rxdataind_aicwf hdr d room hw)"
| "ind_do (DefragTimeout sn t s) hw = Inr (defrag_timeout_cb sn t s hw)"

fun ind_run :: "ind_input list \<Rightarrow> rx_hw \<Rightarrow> fault + rx_hw" where
  "ind_run [] hw = Inr hw"
| "ind_run (i # is) hw = (case ind_do i hw of Inl f \<Rightarrow> Inl f | Inr hw' \<Rightarrow> ind_run is hw')"

end
