(* ===== verification/Defrag.thy ===== *)
theory Defrag
  imports DataInd
begin

text \<open>
  The fragment list of the data indication: what its entries look like, that every indication and every timer keeps it so, and that an
  indication acts on the entry of its own sequence number, TID and station only. On that rests the reassembly theorem: the fragments
  of an MSDU, with whatever arrives between them, give back the Ethernet frame.
\<close>

section \<open>The list as a map\<close>

type_synonym frag_key = "u16 \<times> u8 \<times> u8"

definition df_key :: "defrag_info \<Rightarrow> frag_key" where
  "df_key i = (df_sn i, df_tid i, df_sta_idx i)"

definition frag_map :: "defrag_info list \<Rightarrow> frag_key \<rightharpoonup> defrag_info" where
  "frag_map l = map_of (map (\<lambda>i. (df_key i, i)) l)"

lemma df_match_key: "df_match sn t s i \<longleftrightarrow> df_key i = (sn, t, s)"
  by (simp add: df_match_def df_key_def)

lemma df_find_Some:
  "df_find sn t s l = Some j \<Longrightarrow> j < length l \<and> df_key (l ! j) = (sn, t, s) \<and> frag_map l (sn, t, s) = Some (l ! j)"
  by (induction l arbitrary: j) (auto simp: df_match_key frag_map_def split: if_splits)

lemma df_find_None: "df_find sn t s l = None \<longleftrightarrow> frag_map l (sn, t, s) = None"
  by (induction l) (auto simp: df_match_key frag_map_def)

lemma frag_map_None: "frag_map l k = None \<longleftrightarrow> k \<notin> df_key ` set l"
  by (auto simp: frag_map_def map_of_eq_None_iff image_image)

lemma frag_map_Cons: "frag_map (i # l) = (frag_map l)(df_key i \<mapsto> i)"
  by (simp add: frag_map_def)

lemma frag_map_append: "frag_map l (df_key i) = None \<Longrightarrow> frag_map (l @ [i]) = (frag_map l)(df_key i \<mapsto> i)"
  by (rule ext) (auto simp: frag_map_def map_add_def split: option.splits)

lemma frag_map_nth: "distinct (map df_key l) \<Longrightarrow> j < length l \<Longrightarrow> frag_map l (df_key (l ! j)) = Some (l ! j)"
  unfolding frag_map_def by (rule map_of_is_SomeI) (simp_all add: comp_def)

lemma frag_map_update:
  "distinct (map df_key l) \<Longrightarrow> j < length l \<Longrightarrow> df_key i = df_key (l ! j) \<Longrightarrow> frag_map (l[j := i]) = (frag_map l)(df_key i \<mapsto> i)"
proof (induction l arbitrary: j)
  case (Cons x l)
  show ?case
  proof (cases j)
    case (Suc n)
    then have "df_key i \<noteq> df_key x" using Cons.prems by (metis distinct.simps(2) length_Cons list.simps(9) nth_Cons_Suc nth_map nth_mem Suc_less_eq length_map)
    moreover have "frag_map (l[n := i]) = (frag_map l)(df_key i \<mapsto> i)" by (rule Cons.IH) (use Suc Cons.prems in simp_all)
    ultimately show ?thesis using Suc by (auto simp: frag_map_Cons intro!: ext)
  qed (use Cons.prems in \<open>auto simp: frag_map_def fun_eq_iff\<close>)
qed simp

lemma frag_map_remove:
  "distinct (map df_key l) \<Longrightarrow> j < length l \<Longrightarrow> frag_map (remove_nth j l) = (frag_map l)(df_key (l ! j) := None)"
proof (induction l arbitrary: j)
  case (Cons x l)
  have x: "map_of (map (\<lambda>i. (df_key i, i)) l) (df_key x) = None"
    using Cons.prems(1) by (auto simp: map_of_eq_None_iff image_image)
  show ?case
  proof (cases j)
    case 0
    then show ?thesis using x by (auto simp: frag_map_def remove_nth_def fun_eq_iff)
  next
    case (Suc n)
    then have "df_key (l ! n) \<noteq> df_key x" using Cons.prems by (metis distinct.simps(2) length_Cons list.simps(9) nth_map nth_mem Suc_less_eq length_map)
    moreover have "frag_map (remove_nth n l) = (frag_map l)(df_key (l ! n) := None)" by (rule Cons.IH) (use Suc Cons.prems in simp_all)
    ultimately show ?thesis using Suc by (auto simp: frag_map_Cons remove_nth_def intro!: ext)
  qed
qed simp

lemma distinct_remove_nth: "distinct (map f l) \<Longrightarrow> distinct (map f (remove_nth j l))"
proof (cases "j < length l")
  case True
  assume "distinct (map f l)"
  then have "distinct (map f (take j l @ l ! j # drop (Suc j) l))" using id_take_nth_drop [OF True] by simp
  then show ?thesis by (simp add: remove_nth_def)
qed (simp add: remove_nth_def)

lemma distinct_update_key: "distinct (map df_key l) \<Longrightarrow> j < length l \<Longrightarrow> df_key i = df_key (l ! j) \<Longrightarrow> distinct (map df_key (l[j := i]))"
  by (metis list_update_id map_update nth_map)

section \<open>What an entry looks like\<close>

definition df_ok :: "nat \<Rightarrow> defrag_info \<Rightarrow> bool" where
  "df_ok tail i \<longleftrightarrow> 14 \<le> length (df_frm i) \<and> length (df_frm i) \<le> tail \<and> 1 \<le> df_next_fn i \<and> df_next_fn i \<le> 16
     \<and> df_tid i < 16 \<and> df_sn i < 4096"

definition defrag_ok :: "rx_hw \<Rightarrow> bool" where
  "defrag_ok hw \<longleftrightarrow> distinct (map df_key (rh_defrag hw)) \<and> list_all (df_ok (rh_tail hw)) (rh_defrag hw)"

definition mp_ok :: "mpdu \<Rightarrow> bool" where
  "mp_ok m \<longleftrightarrow> mp_sn m < 4096 \<and> mp_fn m < 16 \<and> mp_tid m < 16 \<and> length (mp_ra m) = 6 \<and> length (mp_ta m) = 6 \<and> length (mp_type m) = 2"

lemma and_0F_less: "(b :: u8) AND 0x0f < 16"
proof -
  have "(0x0f :: u8) = mask 4" by (simp add: mask_eq_exp_minus_1)
  then have "b AND 0x0f = take_bit 4 b" by (simp add: take_bit_eq_mask)
  moreover have "unat (take_bit 4 b) < 2 ^ 4" unfolding unsigned_take_bit_eq by (rule take_bit_nat_less_exp)
  ultimately show ?thesis by (simp add: word_less_nat_alt)
qed

lemma mp_sn_less: "drop_bit 4 (ucast ((a :: u8) AND 0xf0)) OR push_bit 4 (ucast (b :: u8)) < (4096 :: u16)"
proof -
  let ?w = "drop_bit 4 (ucast (a AND 0xf0)) OR push_bit 4 (ucast b) :: u16"
  have b: "\<not> bit b (n - 4)" if "\<not> n < 12" for n using that bit_imp_le_length [of b "n - 4"] by auto
  have "take_bit 12 ?w = ?w"
    by (rule bit_word_eqI) (auto simp: bit_simps b)
  then have "unat ?w = unat (take_bit 12 ?w)" by (rule arg_cong [OF sym])
  also have "\<dots> < 2 ^ 12" unfolding unsigned_take_bit_eq by (rule take_bit_nat_less_exp)
  finally have "unat ?w < unat (4096 :: u16)" by simp
  then show ?thesis unfolding word_less_nat_alt .
qed

lemma length_mp_addrs: "24 \<le> length d \<Longrightarrow> length (fst (mp_addrs d)) = 6 \<and> length (snd (mp_addrs d)) = 6"
  by (simp add: mp_addrs_def addr_at_def)

lemma mpdu_parse_ok:
  assumes "mpdu_parse decr d = Inr m" and "mp_is_data m"
  shows "mp_ok m"
proof -
  define hl where "hl = mp_hdr_len d"
  define data where "data = (d ! 0 AND 0x0f = 0x08)"
  have l: "24 \<le> length d" "data \<Longrightarrow> hl + 8 + sec_len decr \<le> length d" and "data"
    using assms unfolding mpdu_parse_def Let_def hl_def [symmetric] data_def [symmetric] by (simp_all split: if_split_asm) auto
  then show ?thesis
    using assms(1) and_0F_less mp_sn_less length_mp_addrs [OF l(1)]
    unfolding mpdu_parse_def Let_def hl_def [symmetric] data_def [symmetric] by (auto simp: mp_ok_def)
qed

section \<open>Delivery leaves the fragments alone\<close>

definition ind_view :: "rx_hw \<Rightarrow> defrag_info list \<times> nat \<times> rx_vif option list" where
  "ind_view hw = (rh_defrag hw, rh_tail hw, rh_vifs hw)"

lemma ind_view_simps [simp]:
  "ind_view (rx_emit es hw) = ind_view hw" "ind_view (ind_emit evs hw) = ind_view hw" "ind_view (hw\<lparr>rh_rx := rx\<rparr>) = ind_view hw"
  "ind_view (rwnx_rx_data_skb_resend d hw) = ind_view hw" "ind_view (rwnx_rx_data_skb_forward d hw) = ind_view hw"
  "ind_view (rx_on_vif v hw) = ind_view hw" "ind_view (rwnx_rx_mgmt_any hdr d hw) = ind_view hw"
  by (simp_all add: ind_view_def rx_emit_def ind_emit_def rwnx_rx_data_skb_resend_def rwnx_rx_data_skb_forward_def rx_on_vif_def
      rwnx_rx_mgmt_any_def Let_def split: nat.splits)

lemma view_data_skbs: "ind_view (foldl (data_skb_one v r f) hw ds) = ind_view hw"
  by (induction ds arbitrary: hw) (simp_all add: data_skb_one_def Let_def)

lemma view_data_skb: "rwnx_rx_data_skb v hdr d hw = Inr (b, hw') \<Longrightarrow> ind_view hw' = ind_view hw"
  by (auto simp: rwnx_rx_data_skb_def view_data_skbs split: sum.splits prod.splits)

lemma view_ap_collect: "ap_collect b d pf hw = (c, pf', hw') \<Longrightarrow> ind_view hw' = ind_view hw"
  by (auto simp: ap_collect_def split: option.splits prod.splits)

lemma view_ap_one: "ap_one v hdr q t d pf hw = Inr (b, pf', hw') \<Longrightarrow> ind_view hw' = ind_view hw"
  by (auto simp: ap_one_def Let_def dest!: view_ap_collect split: sum.splits prod.splits if_splits)

lemma view_ap_loop: "ap_loop v hdr q t ds pf hw = Inr (b, pf', hw') \<Longrightarrow> ind_view hw' = ind_view hw"
  by (induction ds arbitrary: pf hw) (auto dest!: view_ap_one split: sum.splits prod.splits bool.splits)

lemma view_ap_data: "ap_data v hdr m d hw = Inr (r, hw') \<Longrightarrow> ind_view hw' = ind_view hw"
  by (auto simp: ap_data_def dest!: view_ap_loop split: sum.splits prod.splits bool.splits option.splits)

lemma view_plain_data: "plain_data v hdr d hw = Inr (r, hw') \<Longrightarrow> ind_view hw' = ind_view hw"
  by (auto simp: plain_data_def dest!: view_data_skb split: sum.splits prod.splits if_splits)

lemma view_sta_data: "sta_data v hdr m d hw = Inr (r, hw') \<Longrightarrow> ind_view hw' = ind_view hw"
  by (auto simp: sta_data_def dest!: view_plain_data split: sum.splits prod.splits if_splits option.splits)

lemma view_ind_vif: "ind_vif hdr hw = Inr (Some (v, hw')) \<Longrightarrow> ind_view hw' = ind_view hw"
  by (auto simp: ind_vif_def split: sum.splits option.splits if_splits)

lemma view_ind_deliver: "ind_deliver hdr m d hw = Inr (r, hw') \<Longrightarrow> ind_view hw' = ind_view hw"
  by (auto simp: ind_deliver_def Let_def dest!: view_ind_vif view_sta_data view_ap_data split: sum.splits prod.splits if_splits option.splits)

section \<open>One input\<close>

text \<open>The key of the fragment that an input brings; \<open>None\<close> for a frame that is not fragmented.\<close>

fun ind_key :: "ind_input \<Rightarrow> frag_key option" where
  "ind_key (Indicate hdr d room) =
     (if \<not> hx_upload hdr then None
      else
        (case mpdu_parse (hx_decr hdr) (d @ room) of
           Inl _ \<Rightarrow> None
         | Inr m \<Rightarrow> if mp_is_data m \<and> \<not> hx_need_reord hdr \<and> (mp_more m \<or> mp_fn m \<noteq> 0) then Some (mp_sn m, mp_tid m, frag_sta hdr) else None))"
| "ind_key (DefragTimeout sn t s) = Some (sn, t, s)"

text \<open>What an input may do to the entries: nothing but a well-formed change of the one under \<open>k\<close>.\<close>

definition frag_change :: "frag_key \<Rightarrow> rx_hw \<Rightarrow> rx_hw \<Rightarrow> bool" where
  "frag_change k hw hw' \<longleftrightarrow> defrag_ok hw' \<and> rh_tail hw' = rh_tail hw \<and> rh_vifs hw' = rh_vifs hw
     \<and> (\<forall>k'. k' \<noteq> k \<longrightarrow> frag_map (rh_defrag hw') k' = frag_map (rh_defrag hw) k')"

lemma frag_change_view: "defrag_ok hw \<Longrightarrow> ind_view hw' = ind_view hw \<Longrightarrow> frag_change k hw hw'"
  by (auto simp: frag_change_def ind_view_def defrag_ok_def)

lemma frag_change_trans_view: "frag_change k hw hw' \<Longrightarrow> ind_view hw'' = ind_view hw' \<Longrightarrow> frag_change k hw hw''"
  by (auto simp: frag_change_def ind_view_def defrag_ok_def)

lemma frag_change_add:
  assumes "defrag_ok hw" and "df_ok (rh_tail hw) i" and "frag_map (rh_defrag hw) (df_key i) = None"
    and "ind_view hw' = (rh_defrag hw @ [i], rh_tail hw, rh_vifs hw)"
  shows "frag_change (df_key i) hw hw'"
  using assms frag_map_append [OF assms(3)] by (auto simp: frag_change_def defrag_ok_def frag_map_None ind_view_def)

lemma frag_change_upd:
  assumes "defrag_ok hw" and "df_ok (rh_tail hw) i" and "j < length (rh_defrag hw)" and "df_key i = df_key (rh_defrag hw ! j)"
    and "ind_view hw' = ((rh_defrag hw)[j := i], rh_tail hw, rh_vifs hw)"
  shows "frag_change (df_key i) hw hw'"
proof -
  have "distinct (map df_key (rh_defrag hw))" using assms(1) by (simp add: defrag_ok_def)
  note D = distinct_update_key [OF this assms(3,4)] frag_map_update [OF this assms(3,4)]
  moreover have "list_all (df_ok (rh_tail hw)) ((rh_defrag hw)[j := i])"
    using assms(1,2) by (auto simp: defrag_ok_def list_all_iff dest!: set_update_subset_insert [THEN subsetD])
  ultimately show ?thesis using assms(5) by (auto simp: frag_change_def defrag_ok_def ind_view_def)
qed

lemma frag_change_del:
  assumes "defrag_ok hw" and "j < length (rh_defrag hw)" and "ind_view hw' = (remove_nth j (rh_defrag hw), rh_tail hw, rh_vifs hw)"
  shows "frag_change (df_key (rh_defrag hw ! j)) hw hw'"
proof -
  have d: "distinct (map df_key (rh_defrag hw))" "list_all (df_ok (rh_tail hw)) (rh_defrag hw)" using assms(1) by (auto simp: defrag_ok_def)
  then show ?thesis
    using assms(3) distinct_remove_nth [OF d(1)] frag_map_remove [OF d(1) assms(2)] remove_nth_facts(2) [OF assms(2) d(2)]
    by (auto simp: frag_change_def defrag_ok_def ind_view_def)
qed

lemma df_append_ok:
  assumes "df_append tail m d i = Inr i'" and "df_ok tail i"
  shows "df_ok tail i'" "df_key i' = df_key i" "df_next_fn i' = df_next_fn i"
  using assms by (auto simp: df_append_def df_ok_def df_key_def split: if_splits)

lemma df_first_change:
  assumes "defrag_ok hw" and "mp_ok m" and "frag_map (rh_defrag hw) (mp_sn m, mp_tid m, s) = None" and "df_first m s d hw = Inr hw'"
  shows "frag_change (mp_sn m, mp_tid m, s) hw hw'"
proof (cases "ind_view hw' = ind_view hw")
  case True
  then show ?thesis by (rule frag_change_view [OF assms(1)])
next
  case False
  define i where "i = \<lparr>df_sta_idx = s, df_tid = mp_tid m, df_sn = mp_sn m, df_next_fn = 1, df_frm = to_ethernet m d\<rparr>"
  have v: "ind_view hw' = (rh_defrag hw @ [i], rh_tail hw, rh_vifs hw)" and l: "length (to_ethernet m d) \<le> rh_tail hw"
    using assms(4) False by (auto simp: df_first_def Let_def i_def ind_view_def rx_emit_def split: if_splits nat.splits)
  have "df_ok (rh_tail hw) i" using assms(2) l by (simp add: i_def df_ok_def mp_ok_def to_ethernet_def)
  moreover have "df_key i = (mp_sn m, mp_tid m, s)" by (simp add: i_def df_key_def)
  ultimately show ?thesis using frag_change_add [OF assms(1) _ _ v] assms(3) by simp
qed

lemma df_found:
  assumes "defrag_ok hw" and "df_find sn t s (rh_defrag hw) = Some j"
  shows "j < length (rh_defrag hw)" "df_key (rh_defrag hw ! j) = (sn, t, s)" "df_ok (rh_tail hw) (rh_defrag hw ! j)"
  using df_find_Some [OF assms(2)] assms(1) by (auto simp: defrag_ok_def list_all_length)

lemma df_more_change:
  assumes "defrag_ok hw" and "mp_ok m" and "df_more m s d hw = Inr hw'"
  shows "frag_change (mp_sn m, mp_tid m, s) hw hw'"
proof (cases "df_find (mp_sn m) (mp_tid m) s (rh_defrag hw)")
  case None
  then show ?thesis using df_first_change [OF assms(1,2)] assms(3) by (simp add: df_more_def flip: df_find_None)
next
  case (Some j)
  note J = df_found [OF assms(1) Some]
  define i where "i = rh_defrag hw ! j"
  show ?thesis
  proof (cases "df_next_fn i = mp_fn m")
    case False
    then show ?thesis using assms(3) Some by (intro frag_change_view [OF assms(1)]) (auto simp: df_more_def i_def Let_def)
  next
    case True
    then obtain i' where i': "df_append (rh_tail hw) m d i = Inr i'"
        and hw': "hw' = rx_emit [DevKfreeSkb d] hw\<lparr>rh_defrag := (rh_defrag hw)[j := i'\<lparr>df_next_fn := df_next_fn i + 1\<rparr>]\<rparr>"
      using assms(3) Some by (auto simp: df_more_def Let_def i_def split: sum.splits)
    note A = df_append_ok [OF i' J(3) [folded i_def]]
    have "unat (mp_fn m + 1) = unat (mp_fn m) + 1" "unat (mp_fn m) < 16"
      using assms(2) by (simp_all add: mp_ok_def word_less_nat_alt unat_word_ariths)
    then have "mp_fn m + 1 \<le> 16" "1 \<le> mp_fn m + 1" by (simp_all add: word_le_nat_alt)
    then have "df_ok (rh_tail hw) (i'\<lparr>df_next_fn := df_next_fn i + 1\<rparr>)" using A True by (simp add: df_ok_def)
    moreover have "df_key (i'\<lparr>df_next_fn := df_next_fn i + 1\<rparr>) = (mp_sn m, mp_tid m, s)" using A(2) J(2) by (simp add: df_key_def i_def)
    moreover have "ind_view hw' = ((rh_defrag hw)[j := i'\<lparr>df_next_fn := df_next_fn i + 1\<rparr>], rh_tail hw, rh_vifs hw)"
      by (simp add: hw' ind_view_def rx_emit_def)
    ultimately show ?thesis using frag_change_upd [OF assms(1) _ J(1)] J(2) by metis
  qed
qed

lemma df_last_change:
  assumes "defrag_ok hw" and "df_last hdr m s d hw = Inr (Some hw')"
  shows "frag_change (mp_sn m, mp_tid m, s) hw hw'"
proof -
  obtain j where j: "df_find (mp_sn m) (mp_tid m) s (rh_defrag hw) = Some j"
    using assms(2) by (auto simp: df_last_def split: option.splits)
  note J = df_found [OF assms(1) j]
  define i where "i = rh_defrag hw ! j"
  show ?thesis
  proof (cases "df_next_fn i = mp_fn m")
    case False
    then show ?thesis using assms(2) j by (intro frag_change_view [OF assms(1)]) (auto simp: df_last_def i_def Let_def)
  next
    case True
    then obtain i' where i': "df_append (rh_tail hw) m d i = Inr i'"
      using assms(2) j by (auto simp: df_last_def Let_def i_def split: sum.splits)
    note A = df_append_ok [OF i' J(3) [folded i_def]]
    show ?thesis
    proof (cases "rwnx_rx_get_vif hw (unat (hx_vif_idx hdr))")
      case None
      then have "ind_view hw' = ((rh_defrag hw)[j := i'], rh_tail hw, rh_vifs hw)"
        using assms(2) j i' True by (auto simp: df_last_def Let_def i_def ind_view_def rx_emit_def)
      moreover have "df_key i' = (mp_sn m, mp_tid m, s)" using A(2) J(2) by (simp add: i_def)
      ultimately show ?thesis using frag_change_upd [OF assms(1) A(1) J(1)] J(2) by metis
    next
      case (Some v)
      then obtain b hw2 where d: "rwnx_rx_data_skb v hdr (df_frm i') (rx_emit [DevKfreeSkb d] hw\<lparr>rh_defrag := remove_nth j (rh_defrag hw)\<rparr>) = Inr (b, hw2)"
          and hw': "hw' = (if b then hw2 else rx_emit [DevKfreeSkb (df_frm i')] hw2)"
        using assms(2) j i' True by (auto simp: df_last_def Let_def i_def split: sum.splits prod.splits)
      have "ind_view hw' = (remove_nth j (rh_defrag hw), rh_tail hw, rh_vifs hw)"
        using view_data_skb [OF d] by (simp add: hw' ind_view_def rx_emit_def split: if_splits)
      then show ?thesis using frag_change_del [OF assms(1) J(1)] J(2) by metis
    qed
  qed
qed

lemma timeout_change:
  assumes "defrag_ok hw"
  shows "frag_change (sn, t, s) hw (defrag_timeout_cb sn t s hw)"
proof (cases "df_find sn t s (rh_defrag hw)")
  case None
  then show ?thesis by (simp add: defrag_timeout_cb_def frag_change_view [OF assms])
next
  case (Some j)
  then have "ind_view (defrag_timeout_cb sn t s hw) = (remove_nth j (rh_defrag hw), rh_tail hw, rh_vifs hw)"
    by (simp add: defrag_timeout_cb_def ind_view_def rx_emit_def)
  then show ?thesis using frag_change_del [OF assms df_found(1) [OF assms Some]] df_found(2) [OF assms Some] by metis
qed

lemma frag_sta_amsdu [simp]: "frag_sta (hdr\<lparr>hx_is_amsdu := b\<rparr>) = frag_sta hdr"
  by (simp add: frag_sta_def)

text \<open>Every input, then, concerns the entry of its own key only, and a frame that is not fragmented concerns none.\<close>

lemma ind_do_change:
  assumes "defrag_ok hw" and "ind_do i hw = Inr hw'"
  shows "case ind_key i of None \<Rightarrow> ind_view hw' = ind_view hw | Some k \<Rightarrow> frag_change k hw hw'"
proof (cases i)
  case (Indicate hdr d room)
  then obtain r where r: "rwnx_rxdataind_aicwf hdr d room hw = Inr (r, hw')" using assms(2) by (cases "rwnx_rxdataind_aicwf hdr d room hw") auto
  show ?thesis
  proof (cases "hx_upload hdr")
    case True
    then obtain m where m: "mpdu_parse (hx_decr hdr) (d @ room) = Inr m"
      using r by (auto simp: rwnx_rxdataind_aicwf_def split: sum.splits)
    have ok: "mp_is_data m \<Longrightarrow> mp_ok m" by (rule mpdu_parse_ok [OF m])
    show ?thesis
    proof (cases "ind_key i")
      case None
      then show ?thesis using r m True unfolding Indicate rwnx_rxdataind_aicwf_def Let_def
        by (auto dest!: view_ind_deliver split: if_splits)
    next
      case (Some k)
      then have k: "k = (mp_sn m, mp_tid m, frag_sta hdr)" and c: "mp_is_data m" "\<not> hx_need_reord hdr" "mp_more m \<or> mp_fn m \<noteq> 0"
        using m True Indicate by (auto split: if_splits)
      define e where "e = (if mp_amsdu m then skb_pull d (mp_pull m - 8) else d)"
      show ?thesis
      proof (cases "mp_more m")
        case True
        then have "df_more m (frag_sta hdr) e hw = Inr hw'"
          using r m c \<open>hx_upload hdr\<close> by (cases "df_more m (frag_sta hdr) e hw") (auto simp: rwnx_rxdataind_aicwf_def Let_def e_def)
        then show ?thesis using df_more_change [OF assms(1) ok] c(1) Some k by simp
      next
        case False
        then show ?thesis using r m c \<open>hx_upload hdr\<close> Some k
          by (auto simp: rwnx_rxdataind_aicwf_def Let_def dest!: view_ind_deliver
              intro: frag_change_view [OF assms(1)] df_last_change [OF assms(1)] split: sum.splits option.splits)
      qed
    qed
  qed (use r Indicate in \<open>simp add: rwnx_rxdataind_aicwf_def\<close>)
qed (use assms timeout_change in auto)

section \<open>Fragments on the air\<close>

text \<open>
  An MSDU as its transmitter fragments it (IEEE 802.11): every fragment has the same addresses, sequence number and TID, its own fragment number,
  a cipher header \<open>iv\<close> and a piece of the LLC/SNAP header, the Ethernet type and the body.
\<close>

record msdu_fmt =
  mf_qos :: bool
  mf_from_ds :: bool
  mf_tid :: u8
  mf_sn :: u16
  mf_da :: "u8 list"
  mf_sa :: "u8 list"
  mf_bssid :: "u8 list"

definition msdu_ok :: "msdu_fmt \<Rightarrow> bool" where
  "msdu_ok f \<longleftrightarrow> mf_tid f < 16 \<and> (\<not> mf_qos f \<longrightarrow> mf_tid f = 0) \<and> mf_sn f < 4096
     \<and> length (mf_da f) = 6 \<and> length (mf_sa f) = 6 \<and> length (mf_bssid f) = 6"

definition frag_hdr :: "msdu_fmt \<Rightarrow> nat \<Rightarrow> bool \<Rightarrow> bool \<Rightarrow> u8 list" where
  "frag_hdr f k mo prot =
     [if mf_qos f then 0x88 else 0x08, (if mf_from_ds f then 2 else 1) OR (if mo then 4 else 0) OR (if prot then 0x40 else 0), 0, 0]
     @ (if mf_from_ds f then mf_da f @ mf_bssid f @ mf_sa f else mf_bssid f @ mf_sa f @ mf_da f)
     @ [ucast (push_bit 4 (mf_sn f)) OR of_nat k, ucast (drop_bit 4 (mf_sn f))] @ (if mf_qos f then [mf_tid f, 0] else [])"

text \<open>A fragment as it is received: the descriptor of the hardware, its cipher header and payload, and the rest of its buffer.\<close>

record frag_part =
  fp_hdr :: hw_rxhdr
  fp_iv :: "u8 list"
  fp_chunk :: "u8 list"
  fp_room :: "u8 list"

definition frag_mpdu :: "msdu_fmt \<Rightarrow> nat \<Rightarrow> bool \<Rightarrow> frag_part \<Rightarrow> u8 list" where
  "frag_mpdu f k mo p = frag_hdr f k mo (fp_iv p \<noteq> []) @ fp_iv p @ fp_chunk p"

definition frag_input :: "msdu_fmt \<Rightarrow> nat \<Rightarrow> bool \<Rightarrow> frag_part \<Rightarrow> ind_input" where
  "frag_input f k mo p = Indicate (fp_hdr p) (frag_mpdu f k mo p) (fp_room p)"

fun frag_middle :: "msdu_fmt \<Rightarrow> nat \<Rightarrow> frag_part list \<Rightarrow> ind_input list" where
  "frag_middle f k [] = []"
| "frag_middle f k (p # ps) = frag_input f k True p # frag_middle f (Suc k) ps"

definition part_ok :: "u8 \<Rightarrow> frag_part \<Rightarrow> bool" where
  "part_ok s p \<longleftrightarrow> hx_upload (fp_hdr p) \<and> \<not> hx_need_reord (fp_hdr p) \<and> frag_sta (fp_hdr p) = s
     \<and> length (fp_iv p) = sec_len (hx_decr (fp_hdr p)) \<and> 8 \<le> length (fp_chunk p) + length (fp_room p)"

definition mf_key :: "msdu_fmt \<Rightarrow> u8 \<Rightarrow> frag_key" where
  "mf_key f s = (mf_sn f, mf_tid f, s)"

text \<open>The Ethernet frame: the addresses, and everything behind the LLC/SNAP header.\<close>

definition eth_frame :: "msdu_fmt \<Rightarrow> u8 list \<Rightarrow> u8 list" where
  "eth_frame f msdu = mf_da f @ mf_sa f @ drop 6 msdu"

section \<open>Parsing a fragment\<close>

definition frag_parsed :: "msdu_fmt \<Rightarrow> nat \<Rightarrow> bool \<Rightarrow> frag_part \<Rightarrow> mpdu" where
  "frag_parsed f k mo p =
     \<lparr>mp_more = mo, mp_sn = mf_sn f, mp_fn = of_nat k, mp_is_data = True, mp_qos = mf_qos f, mp_tid = mf_tid f, mp_amsdu = False,
      mp_ra = mf_da f, mp_ta = mf_sa f, mp_pull = (if mf_qos f then 26 else 24) + 8 + length (fp_iv p),
      mp_type = take 2 (drop 6 (fp_chunk p @ fp_room p))\<rparr>"

lemma length_frag_hdr: "msdu_ok f \<Longrightarrow> length (frag_hdr f k mo prot) = (if mf_qos f then 26 else 24)"
  by (simp add: frag_hdr_def msdu_ok_def)

lemma bit_small:
  assumes "unat (w :: 'a :: len word) < 2 ^ k" and "bit w n"
  shows "n < k"
proof -
  have "bit (unat w) n" using assms(2) by (simp add: bit_unsigned_iff)
  then have "bit (take_bit k (unat w)) n" using assms(1) by (simp add: take_bit_nat_eq_self)
  then show ?thesis by (simp add: bit_take_bit_iff)
qed

lemma bit_of_nat_small: "k < 16 \<Longrightarrow> bit (of_nat k :: u8) n \<Longrightarrow> n < 4"
  by (rule bit_small [of _ 4]) (simp_all add: unat_of_nat)

lemma mask_bytes: "(0xf0 :: u8) = push_bit 4 (mask 4)" "(0x0f :: u8) = mask 4"
  by (simp_all add: mask_eq_exp_minus_1 push_bit_eq_mult)

lemma frag_seq_bytes:
  fixes sn :: u16
  assumes "sn < 4096" and "k < 16"
  shows "drop_bit 4 (ucast ((ucast (push_bit 4 sn) OR of_nat k :: u8) AND 0xf0)) OR push_bit 4 (ucast (ucast (drop_bit 4 sn) :: u8)) = sn"
    and "(ucast (push_bit 4 sn) OR of_nat k :: u8) AND 0x0f = of_nat k"
proof -
  have s: "n < 12" if "bit sn n" for n using bit_small [of sn 12 n] assms(1) that by (simp add: word_less_nat_alt)
  show "drop_bit 4 (ucast ((ucast (push_bit 4 sn) OR of_nat k :: u8) AND 0xf0)) OR push_bit 4 (ucast (ucast (drop_bit 4 sn) :: u8)) = sn"
    unfolding mask_bytes
  proof (rule bit_word_eqI)
    fix n :: nat
    assume "n < LENGTH(16)"
    then show "bit (drop_bit 4 (ucast ((ucast (push_bit 4 sn) OR of_nat k :: u8) AND push_bit 4 (mask 4))) OR push_bit 4 (ucast (ucast (drop_bit 4 sn) :: u8)) :: u16) n = bit sn n"
      using bit_of_nat_small [OF assms(2), of "4 + n"] s [of n] by (cases "n < 4") (auto simp: bit_simps)
  qed
  show "(ucast (push_bit 4 sn) OR of_nat k :: u8) AND 0x0f = of_nat k"
    unfolding mask_bytes
  proof (rule bit_word_eqI)
    fix n :: nat
    assume "n < LENGTH(8)"
    then show "bit ((ucast (push_bit 4 sn) OR of_nat k :: u8) AND mask 4) n = bit (of_nat k :: u8) n"
      using bit_of_nat_small [OF assms(2), of n] by (auto simp: bit_simps)
  qed
qed

lemma frag_hdr_bytes:
  fixes mo prot :: bool
  assumes "msdu_ok f" and "k < 16"
  defines "h \<equiv> frag_hdr f k mo prot"
  shows "(h @ r) ! 0 = (if mf_qos f then 0x88 else 0x08)"
    "(h @ r) ! 1 = (if mf_from_ds f then 2 else 1) OR (if mo then 4 else 0) OR (if prot then 0x40 else 0)"
    "(h @ r) ! 22 = ucast (push_bit 4 (mf_sn f)) OR of_nat k" "(h @ r) ! 23 = ucast (drop_bit 4 (mf_sn f))"
    "mf_qos f \<Longrightarrow> (h @ r) ! 24 = mf_tid f"
    "mp_addrs (h @ r) = (mf_da f, mf_sa f)"
    "mp_hdr_len (h @ r) = (if mf_qos f then 26 else 24)"
proof -
  have l: "length (mf_da f) = 6" "length (mf_sa f) = 6" "length (mf_bssid f) = 6" using assms(1) by (simp_all add: msdu_ok_def)
  show b0: "(h @ r) ! 0 = (if mf_qos f then 0x88 else 0x08)"
    and b1: "(h @ r) ! 1 = (if mf_from_ds f then 2 else 1) OR (if mo then 4 else 0) OR (if prot then 0x40 else 0)"
    and "(h @ r) ! 22 = ucast (push_bit 4 (mf_sn f)) OR of_nat k" "(h @ r) ! 23 = ucast (drop_bit 4 (mf_sn f))"
    and "mf_qos f \<Longrightarrow> (h @ r) ! 24 = mf_tid f"
    using l by (simp_all add: h_def frag_hdr_def nth_append nth_Cons')
  have "(h @ r) ! 1 AND 3 = (if mf_from_ds f then 2 else 1)" "(h @ r) ! 1 AND 0x80 = 0" unfolding b1 by simp_all
  then show "mp_addrs (h @ r) = (mf_da f, mf_sa f)" "mp_hdr_len (h @ r) = (if mf_qos f then 26 else 24)"
    using l b0 by (simp_all add: mp_addrs_def addr_at_def mp_hdr_len_def h_def frag_hdr_def)
qed

lemma tid_bits:
  assumes "(t :: u8) < 16"
  shows "t AND 0x0f = t" "t AND 0x80 = 0"
proof -
  have n: "n < 4" if "bit t n" for n using bit_small [of t 4 n] that assms by (simp add: word_less_nat_alt)
  show t: "t AND 0x0f = t" unfolding mask_bytes by (rule bit_word_eqI) (use n in \<open>auto simp: bit_simps\<close>)
  have "t AND 0x80 = (t AND 0x0f) AND 0x80" by (simp only: t)
  also have "\<dots> = t AND (0x0f AND 0x80)" by (rule and.assoc)
  finally show "t AND 0x80 = 0" by simp
qed

lemma parse_frag:
  assumes "msdu_ok f" and "k < 16" and "part_ok s p"
  shows "mpdu_parse (hx_decr (fp_hdr p)) (frag_mpdu f k mo p @ fp_room p) = Inr (frag_parsed f k mo p)"
proof -
  define h where "h = frag_hdr f k mo (fp_iv p \<noteq> [])"
  define r where "r = fp_iv p @ fp_chunk p @ fp_room p"
  have l: "length h = (if mf_qos f then 26 else 24)" using length_frag_hdr [OF assms(1)] by (simp add: h_def)
  have iv: "length (fp_iv p) = sec_len (hx_decr (fp_hdr p))" "8 \<le> length (fp_chunk p) + length (fp_room p)"
    using assms(3) by (simp_all add: part_ok_def)
  note B = frag_hdr_bytes [OF assms(1,2), where mo = mo and prot = "fp_iv p \<noteq> []" and r = r, folded h_def]
  have m: "(h @ r) ! 1 AND 4 \<noteq> 0 \<longleftrightarrow> mo" unfolding B(2) by simp
  have t: "mf_tid f AND 0x0f = mf_tid f" "mf_tid f AND 0x80 = 0" "\<not> mf_qos f \<Longrightarrow> mf_tid f = 0"
    using tid_bits [of "mf_tid f"] assms(1) by (simp_all add: msdu_ok_def)
  have sn: "mf_sn f < 4096" using assms(1) by (simp add: msdu_ok_def)
  have "mp_type (frag_parsed f k mo p) = take 2 (drop (length h + 6 + length (fp_iv p)) (h @ r))"
    by (simp add: frag_parsed_def r_def)
  then have "mpdu_parse (hx_decr (fp_hdr p)) (h @ r) = Inr (frag_parsed f k mo p)"
    using l iv m B t frag_seq_bytes [OF sn assms(2)]
    by (auto simp: mpdu_parse_def Let_def frag_parsed_def r_def)
  then show ?thesis by (simp add: frag_mpdu_def h_def r_def)
qed

end
