(* ===== verification/Reassembly.thy ===== *)
theory Reassembly
  imports Defrag
begin

text \<open>
  Reassembly of fragments (rwnx_rx.c): the fragment list stays well formed, the fragments of an MSDU give back its Ethernet frame whatever
  other frames arrive between them, and what the function does with a stray last fragment, with fragments that exceed the buffer, and
  with frames between the stations of an isolating access point.
\<close>

section \<open>The fragments of one MSDU\<close>

lemma frag_key: "msdu_ok f \<Longrightarrow> k < 16 \<Longrightarrow> part_ok s p \<Longrightarrow> mo \<or> k \<noteq> 0 \<Longrightarrow> ind_key (frag_input f k mo p) = Some (mf_key f s)"
  using parse_frag [of f k s p mo]
  by (auto simp: frag_input_def part_ok_def frag_parsed_def mf_key_def word_of_nat_eq_0_iff)

lemma ind_do_frag:
  assumes "msdu_ok f" and "k < 16" and "part_ok s p"
  shows "ind_do (frag_input f k True p) hw = df_more (frag_parsed f k True p) s (frag_mpdu f k True p) hw"
    and "k \<noteq> 0 \<Longrightarrow> ind_do (frag_input f k False p) hw =
      (case df_last ((fp_hdr p)\<lparr>hx_is_amsdu := False\<rparr>) (frag_parsed f k False p) s (frag_mpdu f k False p) hw of
         Inl e \<Rightarrow> Inl e
       | Inr (Some hw') \<Rightarrow> Inr hw'
       | Inr None \<Rightarrow> map_sum id snd (ind_deliver ((fp_hdr p)\<lparr>hx_is_amsdu := False\<rparr>) (frag_parsed f k False p) (to_ethernet (frag_parsed f k False p) (frag_mpdu f k False p)) hw))"
proof -
  have u: "hx_upload (fp_hdr p)" "\<not> hx_need_reord (fp_hdr p)" "frag_sta (fp_hdr p) = s" using assms(3) by (simp_all add: part_ok_def)
  have m: "mp_is_data (frag_parsed f k mo p)" "mp_more (frag_parsed f k mo p) = mo" "\<not> mp_amsdu (frag_parsed f k mo p)" "mp_fn (frag_parsed f k mo p) = of_nat k" for mo
    by (simp_all add: frag_parsed_def)
  show "ind_do (frag_input f k True p) hw = df_more (frag_parsed f k True p) s (frag_mpdu f k True p) hw"
    using u m parse_frag [OF assms, of True]
    by (cases "df_more (frag_parsed f k True p) s (frag_mpdu f k True p) hw") (simp_all add: frag_input_def rwnx_rxdataind_aicwf_def Let_def)
  assume "k \<noteq> 0"
  then have "(of_nat k :: u8) \<noteq> 0" using assms(2) by (auto simp: word_of_nat_eq_0_iff)
  then show "ind_do (frag_input f k False p) hw =
      (case df_last ((fp_hdr p)\<lparr>hx_is_amsdu := False\<rparr>) (frag_parsed f k False p) s (frag_mpdu f k False p) hw of
         Inl e \<Rightarrow> Inl e
       | Inr (Some hw') \<Rightarrow> Inr hw'
       | Inr None \<Rightarrow> map_sum id snd (ind_deliver ((fp_hdr p)\<lparr>hx_is_amsdu := False\<rparr>) (frag_parsed f k False p) (to_ethernet (frag_parsed f k False p) (frag_mpdu f k False p)) hw))"
    using u m parse_frag [OF assms, of False]
    by (simp add: frag_input_def rwnx_rxdataind_aicwf_def Let_def split: sum.splits option.splits)
qed

lemma frag_payload:
  assumes "msdu_ok f"
  shows "drop (mp_pull (frag_parsed f k mo p) - 8) (frag_mpdu f k mo p) = fp_chunk p"
    and "length (frag_mpdu f k mo p) = (mp_pull (frag_parsed f k mo p) - 8) + length (fp_chunk p)"
  using length_frag_hdr [OF assms] by (simp_all add: frag_parsed_def frag_mpdu_def)

lemma append_frag:
  assumes "msdu_ok f" and "length (df_frm i) + length (fp_chunk p) \<le> tail"
  shows "df_append tail (frag_parsed f k mo p) (frag_mpdu f k mo p) i = Inr (i\<lparr>df_frm := df_frm i @ fp_chunk p\<rparr>)"
  using frag_payload [OF assms(1), of k mo p] assms(2) by (simp add: df_append_def)

lemma ethernet_frag:
  assumes "msdu_ok f" and "8 \<le> length (fp_chunk p)"
  shows "to_ethernet (frag_parsed f k mo p) (frag_mpdu f k mo p) = eth_frame f (fp_chunk p)"
proof -
  have "drop (mp_pull (frag_parsed f k mo p)) (frag_mpdu f k mo p) = drop 8 (fp_chunk p)"
    using length_frag_hdr [OF assms(1)] by (simp add: frag_parsed_def frag_mpdu_def)
  moreover have "take 2 (drop 6 (fp_chunk p)) @ drop 8 (fp_chunk p) = drop 6 (fp_chunk p)"
    by (metis append_take_drop_id drop_drop numeral_plus_numeral semiring_norm(2-6))
  moreover have "mp_pull (frag_parsed f k mo p) \<le> length (frag_mpdu f k mo p)"
    using frag_payload(2) [OF assms(1), of k mo p] assms(2) by (simp add: frag_parsed_def)
  ultimately show ?thesis using assms(2) by (simp add: to_ethernet_def eth_frame_def skb_pull_def frag_parsed_def)
qed

text \<open>The state between two fragments: the entry of the MSDU waits for fragment \<open>k\<close> and has collected \<open>bs\<close>.\<close>

definition frag_waits :: "msdu_fmt \<Rightarrow> u8 \<Rightarrow> nat \<Rightarrow> u8 list \<Rightarrow> rx_hw \<Rightarrow> bool" where
  "frag_waits f s k bs hw \<longleftrightarrow> defrag_ok hw
     \<and> (\<exists>i. frag_map (rh_defrag hw) (mf_key f s) = Some i \<and> df_next_fn i = of_nat k \<and> df_frm i = bs)"

lemma frag_waits_find:
  assumes "frag_waits f s k bs hw"
  obtains j where "df_find (mf_sn f) (mf_tid f) s (rh_defrag hw) = Some j" "df_next_fn (rh_defrag hw ! j) = of_nat k" "df_frm (rh_defrag hw ! j) = bs"
proof (cases "df_find (mf_sn f) (mf_tid f) s (rh_defrag hw)")
  case None
  then show ?thesis using assms by (simp add: df_find_None frag_waits_def mf_key_def)
next
  case (Some j)
  then show ?thesis using assms df_find_Some [OF Some] that by (auto simp: frag_waits_def mf_key_def)
qed

lemma first_frag:
  assumes "msdu_ok f" and "part_ok s p" and "8 \<le> length (fp_chunk p)" and "length (eth_frame f (fp_chunk p)) \<le> rh_tail hw"
    and "defrag_ok hw" and "frag_map (rh_defrag hw) (mf_key f s) = None" and "kmalloc_ok (rh_rx hw)" and "0 < skb_mem (rh_rx hw)"
  obtains hw' where "ind_do (frag_input f 0 True p) hw = Inr hw'" "frag_waits f s 1 (eth_frame f (fp_chunk p)) hw'"
    "rh_tail hw' = rh_tail hw" "rh_vifs hw' = rh_vifs hw"
proof -
  define m where "m = frag_parsed f 0 True p"
  define d where "d = frag_mpdu f 0 True p"
  define i where "i = \<lparr>df_sta_idx = s, df_tid = mp_tid m, df_sn = mp_sn m, df_next_fn = 1, df_frm = to_ethernet m d\<rparr>"
  obtain n where n: "skb_mem (rh_rx hw) = Suc n" using assms(8) by (cases "skb_mem (rh_rx hw)") auto
  define hw' where "hw' = rx_emit [DevKfreeSkb (to_ethernet m d)] (hw\<lparr>rh_rx := (rh_rx hw)\<lparr>skb_mem := n\<rparr>, rh_defrag := rh_defrag hw @ [i]\<rparr>)"
  have e: "to_ethernet m d = eth_frame f (fp_chunk p)" unfolding m_def d_def by (rule ethernet_frag [OF assms(1,3)])
  have k: "(mp_sn m, mp_tid m, s) = mf_key f s" by (simp add: m_def frag_parsed_def mf_key_def)
  then have "df_find (mp_sn m) (mp_tid m) s (rh_defrag hw) = None" using assms(6) by (simp add: df_find_None)
  then have do: "ind_do (frag_input f 0 True p) hw = Inr hw'"
    using ind_do_frag(1) [OF assms(1) _ assms(2), of 0 hw] assms(4,7) n e
    by (simp add: df_more_def df_first_def Let_def hw'_def i_def flip: m_def d_def)
  have c: "frag_change (mf_key f s) hw hw'"
    using ind_do_change [OF assms(5) do] frag_key [OF assms(1) _ assms(2)] by simp
  have "df_key i = mf_key f s" using k by (simp add: i_def df_key_def)
  then have "frag_map (rh_defrag hw') (mf_key f s) = Some i"
    using frag_map_append [of "rh_defrag hw" i] assms(6) by (simp add: hw'_def rx_emit_def)
  then have "frag_waits f s 1 (eth_frame f (fp_chunk p)) hw'" using c e by (simp add: frag_waits_def frag_change_def i_def)
  then show ?thesis using that do c by (simp add: frag_change_def)
qed

lemma more_frag:
  assumes "msdu_ok f" and "part_ok s p" and "k < 16" and "frag_waits f s k bs hw" and "length bs + length (fp_chunk p) \<le> rh_tail hw"
  obtains hw' where "ind_do (frag_input f k True p) hw = Inr hw'" "frag_waits f s (Suc k) (bs @ fp_chunk p) hw'"
    "rh_tail hw' = rh_tail hw" "rh_vifs hw' = rh_vifs hw"
proof -
  obtain j where j: "df_find (mf_sn f) (mf_tid f) s (rh_defrag hw) = Some j" "df_next_fn (rh_defrag hw ! j) = of_nat k" "df_frm (rh_defrag hw ! j) = bs"
    by (rule frag_waits_find [OF assms(4)])
  have ok: "defrag_ok hw" using assms(4) by (simp add: frag_waits_def)
  note J = df_found [OF ok j(1)]
  define m where "m = frag_parsed f k True p"
  have m: "mp_sn m = mf_sn f" "mp_tid m = mf_tid f" "mp_fn m = of_nat k" by (simp_all add: m_def frag_parsed_def)
  define i where "i = (rh_defrag hw ! j)\<lparr>df_frm := bs @ fp_chunk p, df_next_fn := of_nat k + 1\<rparr>"
  define hw' where "hw' = rx_emit [DevKfreeSkb (frag_mpdu f k True p)] hw\<lparr>rh_defrag := (rh_defrag hw)[j := i]\<rparr>"
  have "df_append (rh_tail hw) m (frag_mpdu f k True p) (rh_defrag hw ! j) = Inr ((rh_defrag hw ! j)\<lparr>df_frm := bs @ fp_chunk p\<rparr>)"
    using append_frag [OF assms(1), of "rh_defrag hw ! j"] assms(5) j(3) by (simp add: m_def)
  then have do: "ind_do (frag_input f k True p) hw = Inr hw'"
    using ind_do_frag(1) [OF assms(1,3,2), of hw] j m by (simp add: df_more_def Let_def hw'_def i_def flip: m_def)
  have c: "frag_change (mf_key f s) hw hw'" using ind_do_change [OF ok do] frag_key [OF assms(1,3,2)] by simp
  have "df_key i = df_key (rh_defrag hw ! j)" by (simp add: i_def df_key_def)
  then have "frag_map (rh_defrag hw') (mf_key f s) = Some i"
    using frag_map_update [OF _ J(1), of i] J(2) ok by (simp add: hw'_def rx_emit_def mf_key_def defrag_ok_def)
  then have "frag_waits f s (Suc k) (bs @ fp_chunk p) hw'" using c by (simp add: frag_waits_def frag_change_def i_def)
  then show ?thesis using that do c by (simp add: frag_change_def)
qed

text \<open>A client interface hands a frame to the stack and never sends it again.\<close>

definition is_client :: "rx_vif \<Rightarrow> bool" where
  "is_client v \<longleftrightarrow> xv_iftype v = IFTYPE_STATION \<or> xv_iftype v = IFTYPE_P2P_CLIENT"

lemma client_data_skb:
  "is_client v \<Longrightarrow> \<not> hx_is_amsdu hdr \<Longrightarrow>
     rwnx_rx_data_skb v hdr d hw = Inr (True, rx_emit [ArpOffloadProc d, FilterRxTcpAck d, NetifReceiveSkb d] hw)"
  by (auto simp: is_client_def rwnx_rx_data_skb_def data_skb_flags_def data_skb_one_def Let_def)


section \<open>Other inputs between the fragments\<close>

lemma other_waits:
  assumes "frag_waits f s k bs hw" and "ind_do i hw = Inr hw'" and "ind_key i \<noteq> Some (mf_key f s)"
  shows "frag_waits f s k bs hw'" "rh_tail hw' = rh_tail hw" "rh_vifs hw' = rh_vifs hw"
proof -
  have ok: "defrag_ok hw" using assms(1) by (simp add: frag_waits_def)
  obtain k' where k': "k' \<noteq> mf_key f s" "frag_change k' hw hw'"
  proof (cases "ind_key i")
    case None
    then have c: "frag_change k' hw hw'" for k' using ind_do_change [OF ok assms(2)] frag_change_view [OF ok] by simp
    obtain k' where "k' \<noteq> mf_key f s" by (metis prod.inject zero_neq_one)
    then show ?thesis using c by (rule that)
  next
    case (Some k')
    then show ?thesis using ind_do_change [OF ok assms(2)] assms(3) that by auto
  qed
  then have "frag_map (rh_defrag hw') (mf_key f s) = frag_map (rh_defrag hw) (mf_key f s)" unfolding frag_change_def by metis
  then show "frag_waits f s k bs hw'" "rh_tail hw' = rh_tail hw" "rh_vifs hw' = rh_vifs hw"
    using assms(1) k'(2) by (simp_all add: frag_change_def frag_waits_def)
qed

text \<open>A run in which an input that is not of the key \<open>k\<close> faults.\<close>

definition other_fault :: "frag_key \<Rightarrow> ind_input list \<Rightarrow> rx_hw \<Rightarrow> bool" where
  "other_fault k is hw \<longleftrightarrow> (\<exists>pre i post hw1 e. is = pre @ i # post \<and> ind_key i \<noteq> Some k \<and> ind_run pre hw = Inr hw1 \<and> ind_do i hw1 = Inl e)"

lemma other_fault_Cons: "ind_do i hw = Inr hw' \<Longrightarrow> other_fault k is hw' \<Longrightarrow> other_fault k (i # is) hw"
  unfolding other_fault_def by (elim exE conjE) (rule exI [of _ "i # _"], auto)

lemma other_fault_first: "ind_do i hw = Inl e \<Longrightarrow> ind_key i \<noteq> Some k \<Longrightarrow> other_fault k (i # is) hw"
  unfolding other_fault_def by (rule exI [of _ "[]"]) auto

lemma middle_run:
  assumes "msdu_ok f"
  shows "list_all (part_ok s) ps \<Longrightarrow> k + length ps \<le> 16 \<Longrightarrow> frag_waits f s k bs hw
    \<Longrightarrow> length bs + length (concat (map fp_chunk ps)) \<le> rh_tail hw
    \<Longrightarrow> filter (\<lambda>i. ind_key i = Some (mf_key f s)) is = frag_middle f k ps
    \<Longrightarrow> other_fault (mf_key f s) is hw
      \<or> (\<exists>hw'. ind_run is hw = Inr hw' \<and> frag_waits f s (k + length ps) (bs @ concat (map fp_chunk ps)) hw'
           \<and> rh_tail hw' = rh_tail hw \<and> rh_vifs hw' = rh_vifs hw)"
proof (induction "is" arbitrary: k ps bs hw)
  case Nil
  then show ?case by (cases ps) auto
next
  case (Cons i "is")
  show ?case
  proof (cases "ind_key i = Some (mf_key f s)")
    case True
    then obtain p qs where ps: "ps = p # qs" and i: "i = frag_input f k True p"
        and m: "filter (\<lambda>i. ind_key i = Some (mf_key f s)) is = frag_middle f (Suc k) qs"
      using Cons.prems(5) by (cases ps) auto
    obtain hw1 where h: "ind_do (frag_input f k True p) hw = Inr hw1" "frag_waits f s (Suc k) (bs @ fp_chunk p) hw1"
        "rh_tail hw1 = rh_tail hw" "rh_vifs hw1 = rh_vifs hw"
      by (rule more_frag [OF assms, of s p k bs hw]) (use Cons.prems ps in auto)
    show ?thesis
      using Cons.IH [OF _ _ h(2) _ m] Cons.prems ps h i by (auto intro: other_fault_Cons [OF h(1)])
  next
    case False
    show ?thesis
    proof (cases "ind_do i hw")
      case (Inl e)
      then show ?thesis using other_fault_first [OF Inl False] by simp
    next
      case (Inr hw1)
      note W = other_waits [OF Cons.prems(3) Inr False]
      show ?thesis using Cons.IH [OF Cons.prems(1,2) W(1)] Cons.prems(4,5) W(2,3) False Inr by (auto intro: other_fault_Cons [OF Inr])
    qed
  qed
qed


lemma middle_alone: "msdu_ok f \<Longrightarrow> list_all (part_ok s) ps \<Longrightarrow> k + length ps \<le> 16
    \<Longrightarrow> list_all (\<lambda>i. ind_key i = Some (mf_key f s)) (frag_middle f k ps)"
  by (induction ps arbitrary: k) (simp_all add: frag_key)

lemma ind_run_append: "ind_run (is @ js) hw = (case ind_run is hw of Inl e \<Rightarrow> Inl e | Inr hw' \<Rightarrow> ind_run js hw')"
  by (induction "is" arbitrary: hw) (simp_all split: sum.splits)

lemma overflow_frag:
  assumes "msdu_ok f" and "part_ok s q" and "k < 16" "k \<noteq> 0" and "frag_waits f s k bs hw" and "rh_tail hw < length bs + length (fp_chunk q)"
  shows "ind_do (frag_input f k mo q) hw = Inl KernelBug"
proof -
  obtain j where j: "df_find (mf_sn f) (mf_tid f) s (rh_defrag hw) = Some j" "df_next_fn (rh_defrag hw ! j) = of_nat k" "df_frm (rh_defrag hw ! j) = bs"
    by (rule frag_waits_find [OF assms(5)])
  have m: "mp_sn (frag_parsed f k mo q) = mf_sn f" "mp_tid (frag_parsed f k mo q) = mf_tid f" "mp_fn (frag_parsed f k mo q) = of_nat k" for mo
    by (simp_all add: frag_parsed_def)
  have "df_append (rh_tail hw) (frag_parsed f k mo q) (frag_mpdu f k mo q) (rh_defrag hw ! j) = Inl KernelBug"
    using frag_payload [OF assms(1), of k mo q] assms(6) j(3) by (simp add: df_append_def)
  then show ?thesis
    using ind_do_frag [OF assms(1,3,2), of hw] assms(4) j m by (cases mo) (simp_all add: df_more_def df_last_def Let_def)
qed

section \<open>The life of the list\<close>

text \<open>
  An input, or anything else of the driver: interfaces and stations come and go, buffers are delivered and memory is used, but
  nothing else touches the fragment list or the size of its buffers.
\<close>

inductive ind_step :: "rx_hw \<Rightarrow> rx_hw \<Rightarrow> bool" where
  step_input: "ind_do i hw = Inr hw' \<Longrightarrow> ind_step hw hw'"
| step_other: "rh_defrag hw' = rh_defrag hw \<Longrightarrow> rh_tail hw' = rh_tail hw \<Longrightarrow> ind_step hw hw'"

definition defrag_init :: "rx_hw \<Rightarrow> bool" where
  "defrag_init hw \<longleftrightarrow> rh_defrag hw = []"

interpretation frag_list: transition_system defrag_init ind_step defrag_ok
proof
  fix hw hw'
  show "defrag_init hw \<Longrightarrow> defrag_ok hw" by (simp add: defrag_init_def defrag_ok_def)
  assume ok: "defrag_ok hw" and "ind_step hw hw'"
  from this(2) show "defrag_ok hw'"
  proof cases
    case (step_input i)
    then show ?thesis
      using ind_do_change [OF ok step_input] ok by (auto simp: frag_change_def ind_view_def defrag_ok_def split: option.splits)
  qed (use ok in \<open>simp add: defrag_ok_def\<close>)
qed

section \<open>An example\<close>

definition ex_rxhdr :: "decr_status \<Rightarrow> u8 \<Rightarrow> hw_rxhdr" where
  "ex_rxhdr decr dst = \<lparr>hx_upload = True, hx_decr = decr, hx_ga_frame = False, hx_is_amsdu = False, hx_is_80211_mpdu = False, hx_is_4addr = False,
     hx_need_reord = False, hx_vif_idx = 0, hx_dst_idx = dst, hx_sta_idx = 0xFF\<rparr>"

definition ex_fmt :: msdu_fmt where
  "ex_fmt = \<lparr>mf_qos = False, mf_from_ds = True, mf_tid = 0, mf_sn = 77, mf_da = replicate 6 2, mf_sa = replicate 6 4, mf_bssid = replicate 6 6\<rparr>"

definition ex_part :: "u8 list \<Rightarrow> frag_part" where
  "ex_part c = \<lparr>fp_hdr = ex_rxhdr DECR_CCMP128 0xFF, fp_iv = replicate 8 9, fp_chunk = c, fp_room = replicate 16 0\<rparr>"

definition ex_chunk :: "u8 list" where
  "ex_chunk = [0xaa, 0xaa, 3, 0, 0, 0, 8, 0, 69, 0]"

definition ex_rx_vif :: "nl80211_iftype \<Rightarrow> rx_vif" where
  "ex_rx_vif t = \<lparr>xv_index = 0, xv_iftype = t, xv_up = True, xv_isolate = True, xv_use_4addr = False, xv_sta_macs = []\<rparr>"

definition ex_rx_hw :: "nl80211_iftype \<Rightarrow> nat \<Rightarrow> rx_hw" where
  "ex_rx_hw t tail = \<lparr>rh_rx = \<lparr>bus_down = False, usb_down = False, iftype = t, vif_found = True, skb_mem = 4, kmalloc_ok = True, rx_packets = 0, rx_bytes = 0,
       rxframes_freequeue = [], stas_reord_list = [], rx_log = []\<rparr>,
     rh_vifs = [Some (ex_rx_vif t), None, None, None], rh_vif_list = [0],
     rh_stas = [\<lparr>xs_valid = True, xs_vlan_idx = 0, xs_mac = replicate 6 2\<rparr>], rh_defrag = [], rh_tail = tail, rh_events = []\<rparr>"

lemma ex_msdu_ok: "msdu_ok ex_fmt"
  by (simp add: msdu_ok_def ex_fmt_def)

lemma ex_part_ok: "part_ok 0 (ex_part c)"
  by (simp add: part_ok_def ex_part_def ex_rxhdr_def frag_sta_def)

lemma ex_part_sel: "fp_chunk (ex_part c) = c" "hx_vif_idx (fp_hdr (ex_part c)) = 0"
  by (simp_all add: ex_part_def ex_rxhdr_def)

lemma ex_rx_hw_sel:
  "defrag_ok (ex_rx_hw t n)" "frag_map (rh_defrag (ex_rx_hw t n)) k = None" "kmalloc_ok (rh_rx (ex_rx_hw t n))" "skb_mem (rh_rx (ex_rx_hw t n)) = 4"
  "rh_tail (ex_rx_hw t n) = n" "rwnx_rx_get_vif (ex_rx_hw t n) 0 = Some (ex_rx_vif t)" "is_client (ex_rx_vif IFTYPE_STATION)" "defrag_init (ex_rx_hw t n)"
  by (simp_all add: ex_rx_hw_def ex_rx_vif_def defrag_ok_def frag_map_def rwnx_rx_get_vif_def is_client_def defrag_init_def)

lemmas ex_frag = ex_msdu_ok ex_part_ok ex_part_sel ex_rx_hw_sel

lemma ex_eth_frame: "eth_frame ex_fmt c = [2, 2, 2, 2, 2, 2, 4, 4, 4, 4, 4, 4] @ drop 6 c"
  by (simp add: eth_frame_def ex_fmt_def numeral_eq_Suc)



section \<open>Properties\<close>



text \<open>
  C11: The fragment list. From the empty list on, through every indication and fragment timer, no two entries have the same sequence number,
  TID and station; every entry holds at least an Ethernet header and at most its buffer, waits for a fragment number between 1
  and 16, and has a TID below 16 and a sequence number of twelve bits.
\<close>

theorem defrag_list_wf:
  assumes "defrag_init hw" and "ind_step\<^sup>*\<^sup>* hw hw'"
  shows "distinct (map df_key (rh_defrag hw'))
    \<and> list_all (\<lambda>i. 14 \<le> length (df_frm i) \<and> length (df_frm i) \<le> rh_tail hw' \<and> 1 \<le> df_next_fn i \<and> df_next_fn i \<le> 16
           \<and> df_tid i < 16 \<and> df_sn i < 4096) (rh_defrag hw')"
  using frag_list.reachable_inv [OF assms] by (simp add: defrag_ok_def df_ok_def [abs_def])

theorem defrag_list_wf_witness:
  "\<exists>hw i. ind_step\<^sup>*\<^sup>* (ex_rx_hw IFTYPE_STATION 2000) hw \<and> i \<in> set (rh_defrag hw) \<and> distinct (map df_key (rh_defrag hw))
     \<and> 14 \<le> length (df_frm i) \<and> length (df_frm i) \<le> 2000"
proof -
  obtain hw where h: "ind_do (frag_input ex_fmt 0 True (ex_part ex_chunk)) (ex_rx_hw IFTYPE_STATION 2000) = Inr hw"
      "frag_waits ex_fmt 0 1 (eth_frame ex_fmt (fp_chunk (ex_part ex_chunk))) hw" "rh_tail hw = rh_tail (ex_rx_hw IFTYPE_STATION 2000)"
    by (rule first_frag [OF ex_msdu_ok ex_part_ok, of ex_chunk "ex_rx_hw IFTYPE_STATION 2000"]) (simp_all add: ex_frag ex_eth_frame ex_chunk_def)
  have r: "ind_step\<^sup>*\<^sup>* (ex_rx_hw IFTYPE_STATION 2000) hw" using step_input [OF h(1)] by blast
  obtain i where i: "i \<in> set (rh_defrag hw)" using h(2) by (auto simp: frag_waits_def frag_map_def dest!: map_of_SomeD)
  have "rh_tail hw = 2000" using h(3) by (simp add: ex_rx_hw_sel)
  then show ?thesis using r i defrag_list_wf [OF ex_rx_hw_sel(8) r] unfolding list_all_iff by metis
qed

text \<open>
  C13: Overflow. The buffer of an MSDU is allocated for 2000 bytes and no length is checked: the fragment with which the collected bytes exceed its tail
  room is a trap of \<open>skb_put\<close>, be it the last one or not. Nothing but fragments of one MSDU is needed.
\<close>

theorem defrag_overflow_traps:
  assumes "msdu_ok f" and "list_all (part_ok s) (p # ps @ [q])" and "length ps \<le> 14" and "8 \<le> length (fp_chunk p)"
    and "length (eth_frame f (concat (map fp_chunk (p # ps)))) \<le> rh_tail hw"
    and "rh_tail hw < length (eth_frame f (concat (map fp_chunk (p # ps @ [q]))))"
    and "defrag_ok hw" and "frag_map (rh_defrag hw) (mf_key f s) = None" and "kmalloc_ok (rh_rx hw)" and "0 < skb_mem (rh_rx hw)"
  shows "ind_run (frag_input f 0 True p # frag_middle f 1 ps @ [frag_input f (Suc (length ps)) mo q]) hw = Inl KernelBug"
proof -
  have P: "part_ok s p" "list_all (part_ok s) ps" "part_ok s q" using assms(2) by simp_all
  have E: "eth_frame f (concat (map fp_chunk (p # ps))) = eth_frame f (fp_chunk p) @ concat (map fp_chunk ps)"
    "eth_frame f (concat (map fp_chunk (p # ps @ [q]))) = eth_frame f (fp_chunk p) @ concat (map fp_chunk ps) @ fp_chunk q"
    using assms(4) by (simp_all add: eth_frame_def)
  obtain h0 where h0: "ind_do (frag_input f 0 True p) hw = Inr h0" "frag_waits f s 1 (eth_frame f (fp_chunk p)) h0" "rh_tail h0 = rh_tail hw"
    by (rule first_frag [OF assms(1) P(1) assms(4) _ assms(7-10)]) (use assms(5) E in simp)
  have own: "list_all (\<lambda>i. ind_key i = Some (mf_key f s)) (frag_middle f 1 ps)" using middle_alone [OF assms(1) P(2)] assms(3) by simp
  then have "filter (\<lambda>i. ind_key i = Some (mf_key f s)) (frag_middle f 1 ps) = frag_middle f 1 ps" by (simp add: list_all_iff)
  moreover have "\<not> other_fault (mf_key f s) (frag_middle f 1 ps) h0" using own by (auto simp: other_fault_def list_all_iff)
  ultimately obtain h1 where h1: "ind_run (frag_middle f 1 ps) h0 = Inr h1" "rh_tail h1 = rh_tail hw"
      "frag_waits f s (Suc (length ps)) (eth_frame f (fp_chunk p) @ concat (map fp_chunk ps)) h1"
    using middle_run [OF assms(1) P(2) _ h0(2), of "frag_middle f 1 ps"] assms(3,5) E h0(3) by auto
  have "ind_do (frag_input f (Suc (length ps)) mo q) h1 = Inl KernelBug"
    by (rule overflow_frag [OF assms(1) P(3) _ _ h1(3)]) (use assms(3,6) E(2) h1(2) in auto)
  then show ?thesis using h0(1) h1(1) by (simp add: ind_run_append)
qed

theorem defrag_overflow_traps_witness:
  "ind_run [frag_input ex_fmt 0 True (ex_part ex_chunk), frag_input ex_fmt 1 True (ex_part (replicate 1500 1)), frag_input ex_fmt 2 True (ex_part (replicate 1500 1))]
     (ex_rx_hw IFTYPE_STATION 2000) = Inl KernelBug"
  using defrag_overflow_traps [where f = ex_fmt and s = 0 and p = "ex_part ex_chunk" and ps = "[ex_part (replicate 1500 1)]" and q = "ex_part (replicate 1500 1)"
      and hw = "ex_rx_hw IFTYPE_STATION 2000" and mo = True]
  by (simp add: ex_frag ex_eth_frame ex_chunk_def numeral_2_eq_2)

text \<open>
  A stray last fragment. When the entry of its MSDU is missing, because its timer fired or its first fragment was lost, the last fragment is
  taken for a whole frame: its payload, from the seventh byte on, goes to the stack behind the addresses of its header, two bytes from the middle of
  the MSDU in place of the Ethernet type.
\<close>

lemma stray_last_fragment:
  assumes "msdu_ok f" and "\<not> mf_qos f" and "part_ok s q" and "k < 16" "k \<noteq> 0" and "8 \<le> length (fp_chunk q)"
    and "frag_map (rh_defrag hw) (mf_key f s) = None" and "\<not> hx_is_80211_mpdu (fp_hdr q)" and "hx_sta_idx (fp_hdr q) = RWNX_INVALID_STA"
    and "rwnx_rx_get_vif hw (unat (hx_vif_idx (fp_hdr q))) = Some v" and "is_client v"
  shows "\<exists>hw'. ind_do (frag_input f k False q) hw = Inr hw'
    \<and> rx_log (rh_rx hw') = rx_log (rh_rx hw) @ (let e = eth_frame f (fp_chunk q) in [ArpOffloadProc e, FilterRxTcpAck e, NetifReceiveSkb e])"
proof -
  define m where "m = frag_parsed f k False q"
  define hdr where "hdr = (fp_hdr q)\<lparr>hx_is_amsdu := False\<rparr>"
  have m: "mp_sn m = mf_sn f" "mp_tid m = mf_tid f" "\<not> mp_qos m" using assms(2) by (simp_all add: m_def frag_parsed_def)
  have "df_find (mf_sn f) (mf_tid f) s (rh_defrag hw) = None" using assms(7) by (simp add: df_find_None mf_key_def)
  then have "df_last hdr m s (frag_mpdu f k False q) hw = Inr None" using m by (simp add: df_last_def)
  then have do: "ind_do (frag_input f k False q) hw = map_sum id snd (ind_deliver hdr m (eth_frame f (fp_chunk q)) hw)"
    using ind_do_frag(2) [OF assms(1,4,3,5), of hw] ethernet_frag [OF assms(1,6), of k False] by (simp add: m_def hdr_def)
  have h: "\<not> hx_is_amsdu hdr" "ind_vif hdr hw = Inr (Some (v, hw))" "\<not> hx_is_80211_mpdu hdr"
    using assms(8-10) by (simp_all add: hdr_def ind_vif_def)
  have "ind_deliver hdr m (eth_frame f (fp_chunk q)) hw = plain_data v hdr (eth_frame f (fp_chunk q)) (rx_on_vif v hw)"
    using h m assms(11) by (auto simp: ind_deliver_def is_client_def sta_data_def)
  then show ?thesis using do client_data_skb [OF assms(11) h(1)] h(1) by (simp add: plain_data_def rx_emit_def log_rx_def rx_on_vif_def Let_def)
qed

lemma stray_last_fragment_example:
  "\<exists>hw'. ind_do (frag_input ex_fmt 3 False (ex_part [1, 2, 3, 4, 5, 6, 7, 8, 9])) (ex_rx_hw IFTYPE_STATION 2000) = Inr hw'
     \<and> NetifReceiveSkb [2, 2, 2, 2, 2, 2, 4, 4, 4, 4, 4, 4, 7, 8, 9] \<in> set (rx_log (rh_rx hw'))"
proof -
  have "\<not> mf_qos ex_fmt" by (simp add: ex_fmt_def)
  moreover have "\<not> hx_is_80211_mpdu (fp_hdr (ex_part c)) \<and> hx_sta_idx (fp_hdr (ex_part c)) = 0xFF" for c by (simp add: ex_part_def ex_rxhdr_def)
  moreover have e: "eth_frame ex_fmt (fp_chunk (ex_part [1, 2, 3, 4, 5, 6, 7, 8, 9])) = [2, 2, 2, 2, 2, 2, 4, 4, 4, 4, 4, 4, 7, 8, 9]"
    by (simp add: ex_part_sel ex_eth_frame)
  ultimately obtain hw' where h: "ind_do (frag_input ex_fmt 3 False (ex_part [1, 2, 3, 4, 5, 6, 7, 8, 9])) (ex_rx_hw IFTYPE_STATION 2000) = Inr hw'"
      and l: "rx_log (rh_rx hw') = rx_log (rh_rx (ex_rx_hw IFTYPE_STATION 2000)) @ (let e = [2, 2, 2, 2, 2, 2, 4, 4, 4, 4, 4, 4, 7, 8, 9] in [ArpOffloadProc e, FilterRxTcpAck e, NetifReceiveSkb e])"
    using stray_last_fragment [OF ex_msdu_ok _ ex_part_ok, of 3 "[1, 2, 3, 4, 5, 6, 7, 8, 9]" "ex_rx_hw IFTYPE_STATION 2000" "ex_rx_vif IFTYPE_STATION", unfolded e]
    by (auto simp: ex_frag)
  show ?thesis by (rule exI [of _ hw']) (simp only: h l Let_def set_append, simp)
qed

text \<open>
  C12: Isolation. An access point (or P2P group owner) with client isolation (\<open>RWNX_AP_ISOLATE\<close>) receives a unicast frame of one of its stations for
  another station of the same network; the frame is not QoS data, not fragmented, not an A-MSDU and asks for no reordering, and there is memory for
  a copy. The data indication sends it back to the air and frees it, although \<open>rwnx_rx_data_skb\<close>, the path of a reassembled frame, honours the flag and hands the same
  frame to the stack.
\<close>

theorem ap_isolation_ignored:
  assumes "msdu_ok f" and "\<not> mf_qos f" and "part_ok s p" and "8 \<le> length (fp_chunk p)" and "mf_da f ! 0 AND 1 = 0"
    and "\<not> hx_is_80211_mpdu (fp_hdr p)" and "ind_vif ((fp_hdr p)\<lparr>hx_is_amsdu := False\<rparr>) hw = Inr (Some (v, hw))"
    and "xv_iftype v = IFTYPE_AP \<or> xv_iftype v = IFTYPE_P2P_GO" and "xv_isolate v"
    and "hx_dst_idx (fp_hdr p) \<noteq> RWNX_INVALID_STA" and "same_bss hw v (hx_dst_idx (fp_hdr p)) = Inr True" and "0 < skb_mem (rh_rx hw)"
  shows "(\<exists>hw'. ind_do (frag_input f 0 False p) hw = Inr hw' \<and> rh_events hw' = rh_events hw @ [Resent (eth_frame f (fp_chunk p))]
      \<and> rx_log (rh_rx hw') = rx_log (rh_rx hw) @ [DevKfreeSkb (eth_frame f (fp_chunk p))])
    \<and> rwnx_rx_data_skb v ((fp_hdr p)\<lparr>hx_is_amsdu := False\<rparr>) (eth_frame f (fp_chunk p)) hw
      = Inr (True, rx_emit [FilterRxTcpAck (eth_frame f (fp_chunk p)), NetifReceiveSkb (eth_frame f (fp_chunk p))] hw)"
proof -
  define m where "m = frag_parsed f 0 False p"
  define hdr where "hdr = (fp_hdr p)\<lparr>hx_is_amsdu := False\<rparr>"
  define e where "e = eth_frame f (fp_chunk p)"
  have u: "hx_upload (fp_hdr p)" "\<not> hx_need_reord (fp_hdr p)" using assms(3) by (simp_all add: part_ok_def)
  have e: "is_multicast e = Inr False" using assms(1,5) by (simp add: is_multicast_def e_def eth_frame_def msdu_ok_def nth_append)
  have m: "mp_is_data m" "\<not> mp_more m" "mp_fn m = 0" "\<not> mp_amsdu m" "\<not> mp_qos m" using assms(2) by (simp_all add: m_def frag_parsed_def)
  have do: "ind_do (frag_input f 0 False p) hw = map_sum id snd (ind_deliver hdr m e hw)"
    using parse_frag [OF assms(1) _ assms(3), of 0 False] u m ethernet_frag [OF assms(1,4), of 0 False]
    by (simp add: frag_input_def rwnx_rxdataind_aicwf_def Let_def hdr_def e_def flip: m_def)
  have "ind_deliver hdr m e hw = ap_data v hdr m e (rx_on_vif v hw)"
    using assms(6-8) by (auto simp: ind_deliver_def hdr_def)
  moreover have "same_bss (rx_on_vif v hw) v (hx_dst_idx hdr) = Inr True" using assms(11) by (simp add: same_bss_def rx_on_vif_def hdr_def)
  then have "ap_flags (rx_on_vif v hw) v hdr e = Inr (True, False)" using e assms(10) by (simp add: ap_flags_def hdr_def)
  moreover have "rx_on_vif v hw\<lparr>rh_rx := rh_rx (rx_on_vif v hw)\<rparr> = rx_on_vif v hw" by (rule rx_hw.equality) simp_all
  ultimately have "ind_deliver hdr m e hw = Inr (0, rx_emit [DevKfreeSkb e] (rwnx_rx_data_skb_resend e (rx_on_vif v hw)))"
    using m by (simp add: ap_data_def ap_one_def hdr_def)
  then have "\<exists>hw'. ind_do (frag_input f 0 False p) hw = Inr hw' \<and> rh_events hw' = rh_events hw @ [Resent e]
      \<and> rx_log (rh_rx hw') = rx_log (rh_rx hw) @ [DevKfreeSkb e]"
    using do assms(12) by (cases "skb_mem (rh_rx hw)") (simp_all add: rwnx_rx_data_skb_resend_def rx_emit_def ind_emit_def log_rx_def rx_on_vif_def)
  moreover have "rwnx_rx_data_skb v hdr e hw = Inr (True, rx_emit [FilterRxTcpAck e, NetifReceiveSkb e] hw)"
    using assms(8,9) by (auto simp: rwnx_rx_data_skb_def data_skb_flags_def data_skb_one_def hdr_def)
  ultimately show ?thesis by (simp add: e_def hdr_def)
qed

theorem ap_isolation_ignored_witness:
  "\<exists>hw'. ind_do (frag_input ex_fmt 0 False ((ex_part ex_chunk)\<lparr>fp_hdr := ex_rxhdr DECR_CCMP128 0\<rparr>)) (ex_rx_hw IFTYPE_AP 2000) = Inr hw'
     \<and> rh_events hw' = [Resent [2, 2, 2, 2, 2, 2, 4, 4, 4, 4, 4, 4, 8, 0, 69, 0]]"
proof -
  define p where "p = (ex_part ex_chunk)\<lparr>fp_hdr := ex_rxhdr DECR_CCMP128 0\<rparr>"
  have "part_ok 0 p" "8 \<le> length (fp_chunk p)" "\<not> hx_is_80211_mpdu (fp_hdr p)" "hx_dst_idx (fp_hdr p) = 0"
    by (simp_all add: p_def part_ok_def ex_part_def ex_rxhdr_def frag_sta_def ex_chunk_def)
  moreover have "ind_vif ((fp_hdr p)\<lparr>hx_is_amsdu := False\<rparr>) (ex_rx_hw IFTYPE_AP 2000) = Inr (Some (ex_rx_vif IFTYPE_AP, ex_rx_hw IFTYPE_AP 2000))"
    by (simp add: ind_vif_def p_def ex_rxhdr_def ex_rx_hw_sel)
  moreover have "same_bss (ex_rx_hw IFTYPE_AP 2000) (ex_rx_vif IFTYPE_AP) 0 = Inr True"
    by (simp add: same_bss_def ex_rx_hw_def ex_rx_vif_def array_get_def)
  moreover have "xv_iftype (ex_rx_vif IFTYPE_AP) = IFTYPE_AP" "xv_isolate (ex_rx_vif IFTYPE_AP)" "\<not> mf_qos ex_fmt" "mf_da ex_fmt ! 0 AND 1 = 0"
      "rh_events (ex_rx_hw IFTYPE_AP 2000) = []" by (simp_all add: ex_rx_vif_def ex_fmt_def ex_rx_hw_def)
  moreover have e: "eth_frame ex_fmt (fp_chunk p) = [2, 2, 2, 2, 2, 2, 4, 4, 4, 4, 4, 4, 8, 0, 69, 0]"
    by (simp add: ex_eth_frame p_def ex_part_sel ex_chunk_def)
  ultimately show ?thesis
    using ap_isolation_ignored [OF ex_msdu_ok, of 0 p "ex_rx_hw IFTYPE_AP 2000" "ex_rx_vif IFTYPE_AP", unfolded e] unfolding p_def [symmetric]
    by (auto simp: ex_rx_hw_sel)
qed

end
