(* ===== verification/UserConfig.thy ===== *)
theory UserConfig
  imports Prelude
begin

text \<open>
  The user configuration of rwnx_platform.c: the structure \<open>userconfig_info\<close> with the transmit power levels, offsets and losses, the
  functions that set one entry from a line of aic_userconfig.txt, and the parsers of that file for the two families of chips. A file and the
  character arrays of the C functions are strings; the entries, which are \<open>u8_l\<close> and \<open>s8_l\<close>, are bytes. An access outside a
  character array is a fault.
\<close>

section \<open>The configuration\<close>

record txpwr_lvl_conf =
  lvl_enable :: u8
  lvl_dsss :: u8
  lvl_ofdmlowrate_2g4 :: u8
  lvl_ofdm64qam_2g4 :: u8
  lvl_ofdm256qam_2g4 :: u8
  lvl_ofdm1024qam_2g4 :: u8
  lvl_ofdmlowrate_5g :: u8
  lvl_ofdm64qam_5g :: u8
  lvl_ofdm256qam_5g :: u8
  lvl_ofdm1024qam_5g :: u8

record txpwr_lvl_conf_v2 =
  v2_enable :: u8
  v2_11b_11ag_2g4 :: "u8 list"
  v2_11n_11ac_2g4 :: "u8 list"
  v2_11ax_2g4 :: "u8 list"

record txpwr_lvl_conf_v3 =
  v3_enable :: u8
  v3_11b_11ag_2g4 :: "u8 list"
  v3_11n_11ac_2g4 :: "u8 list"
  v3_11ax_2g4 :: "u8 list"
  v3_11a_5g :: "u8 list"
  v3_11n_11ac_5g :: "u8 list"
  v3_11ax_5g :: "u8 list"

record txpwr_lvl_conf_v4 =
  v4_enable :: u8
  v4_11b_11ag_2g4 :: "u8 list"
  v4_11n_11ac_2g4 :: "u8 list"
  v4_11ax_2g4 :: "u8 list"
  v4_11a_5g :: "u8 list"
  v4_11n_11ac_5g :: "u8 list"
  v4_11ax_5g :: "u8 list"
  v4_11a_6g :: "u8 list"
  v4_11n_11ac_6g :: "u8 list"
  v4_11ax_6g :: "u8 list"

record txpwr_lvl_adj_conf =
  adj_enable :: u8
  adj_2g4 :: "u8 list"
  adj_5g :: "u8 list"

record txpwr_loss_conf =
  loss_enable_2g4 :: u8
  loss_value_2g4 :: u8
  loss_enable_5g :: u8
  loss_value_5g :: u8

record txpwr_ofst_conf =
  ofst_enable :: u8
  ofst_chan_1_4 :: u8
  ofst_chan_5_9 :: u8
  ofst_chan_10_13 :: u8
  ofst_chan_36_64 :: u8
  ofst_chan_100_120 :: u8
  ofst_chan_122_140 :: u8
  ofst_chan_142_165 :: u8

record txpwr_ofst2x_conf =
  ox_enable :: u8
  ox_2g4 :: "u8 list list"
  ox_5g :: "u8 list list"

record txpwr_ofst2x_conf_v2 =
  oy_enable :: u8
  oy_pwrofst_flags :: u8
  oy_2g4_ant0 :: "u8 list list"
  oy_2g4_ant1 :: "u8 list list"
  oy_5g_ant0 :: "u8 list list"
  oy_5g_ant1 :: "u8 list list"
  oy_6g_ant0 :: "u8 list"
  oy_6g_ant1 :: "u8 list"

record xtal_cap_conf =
  xtal_enable :: u8
  xtal_cap :: u8
  xtal_cap_fine :: u8

record userconfig_info =
  uc_lvl :: txpwr_lvl_conf
  uc_lvl_v2 :: txpwr_lvl_conf_v2
  uc_lvl_v3 :: txpwr_lvl_conf_v3
  uc_lvl_v4 :: txpwr_lvl_conf_v4
  uc_lvl_adj :: txpwr_lvl_adj_conf
  uc_loss :: txpwr_loss_conf
  uc_ofst :: txpwr_ofst_conf
  uc_ofst2x :: txpwr_ofst2x_conf
  uc_ofst2x_v2 :: txpwr_ofst2x_conf_v2
  uc_xtal :: xtal_cap_conf

text \<open>The initial values; entries that the initialiser does not name are zero.\<close>

definition lvl_default :: txpwr_lvl_conf where
  "lvl_default = \<lparr>lvl_enable = 1,
     lvl_dsss = 9,
     lvl_ofdmlowrate_2g4 = 8,
     lvl_ofdm64qam_2g4 = 8,
     lvl_ofdm256qam_2g4 = 8,
     lvl_ofdm1024qam_2g4 = 8,
     lvl_ofdmlowrate_5g = 11,
     lvl_ofdm64qam_5g = 10,
     lvl_ofdm256qam_5g = 9,
     lvl_ofdm1024qam_5g = 9\<rparr>"

definition v2_default :: txpwr_lvl_conf_v2 where
  "v2_default = \<lparr>v2_enable = 1,
     v2_11b_11ag_2g4 = [20, 20, 20, 20, 20, 20, 20, 20, 18, 18, 16, 16],
     v2_11n_11ac_2g4 = [20, 20, 20, 20, 18, 18, 16, 16, 16, 16],
     v2_11ax_2g4 = [20, 20, 20, 20, 18, 18, 16, 16, 16, 16, 15, 15]\<rparr>"

definition v3_default :: txpwr_lvl_conf_v3 where
  "v3_default = \<lparr>v3_enable = 1,
     v3_11b_11ag_2g4 = [20, 20, 20, 20, 20, 20, 20, 20, 18, 18, 16, 16],
     v3_11n_11ac_2g4 = [20, 20, 20, 20, 18, 18, 16, 16, 16, 16],
     v3_11ax_2g4 = [20, 20, 20, 20, 18, 18, 16, 16, 16, 16, 15, 15],
     v3_11a_5g = [0x80, 0x80, 0x80, 0x80, 20, 20, 20, 20, 18, 18, 16, 16],
     v3_11n_11ac_5g = [20, 20, 20, 20, 18, 18, 16, 16, 16, 15],
     v3_11ax_5g = [20, 20, 20, 20, 18, 18, 16, 16, 16, 15, 14, 14]\<rparr>"

definition v4_default :: txpwr_lvl_conf_v4 where
  "v4_default = \<lparr>v4_enable = 1,
     v4_11b_11ag_2g4 = [20, 20, 20, 20, 20, 20, 20, 20, 18, 18, 16, 16],
     v4_11n_11ac_2g4 = [20, 20, 20, 20, 18, 18, 16, 16, 16, 16],
     v4_11ax_2g4 = [20, 20, 20, 20, 18, 18, 16, 16, 16, 16, 15, 15],
     v4_11a_5g = [20, 20, 20, 20, 18, 18, 16, 16],
     v4_11n_11ac_5g = [20, 20, 20, 20, 18, 18, 16, 16, 16, 15],
     v4_11ax_5g = [20, 20, 20, 20, 18, 18, 16, 16, 16, 15, 14, 14],
     v4_11a_6g = replicate 8 0,
     v4_11n_11ac_6g = replicate 10 0,
     v4_11ax_6g = replicate 12 0\<rparr>"

definition adj_default :: txpwr_lvl_adj_conf where
  "adj_default = \<lparr>adj_enable = 0,
     adj_2g4 = replicate 3 0,
     adj_5g = replicate 6 0\<rparr>"

definition loss_default :: txpwr_loss_conf where
  "loss_default = \<lparr>loss_enable_2g4 = 0,
     loss_value_2g4 = 0,
     loss_enable_5g = 0,
     loss_value_5g = 0\<rparr>"

definition ofst_default :: txpwr_ofst_conf where
  "ofst_default = \<lparr>ofst_enable = 1,
     ofst_chan_1_4 = 0,
     ofst_chan_5_9 = 0,
     ofst_chan_10_13 = 0,
     ofst_chan_36_64 = 0,
     ofst_chan_100_120 = 0,
     ofst_chan_122_140 = 0,
     ofst_chan_142_165 = 0\<rparr>"

definition ox_default :: txpwr_ofst2x_conf where
  "ox_default = \<lparr>ox_enable = 0,
     ox_2g4 = replicate 3 (replicate 3 0),
     ox_5g = replicate 3 (replicate 6 0)\<rparr>"

definition oy_default :: txpwr_ofst2x_conf_v2 where
  "oy_default = \<lparr>oy_enable = 0,
     oy_pwrofst_flags = 0,
     oy_2g4_ant0 = replicate 3 (replicate 3 0),
     oy_2g4_ant1 = replicate 3 (replicate 3 0),
     oy_5g_ant0 = replicate 6 (replicate 3 0),
     oy_5g_ant1 = replicate 6 (replicate 3 0),
     oy_6g_ant0 = replicate 15 0,
     oy_6g_ant1 = replicate 15 0\<rparr>"

definition xtal_default :: xtal_cap_conf where
  "xtal_default = \<lparr>xtal_enable = 0,
     xtal_cap = 24,
     xtal_cap_fine = 31\<rparr>"

definition userconfig_default :: userconfig_info where
  "userconfig_default = \<lparr>uc_lvl = lvl_default,
     uc_lvl_v2 = v2_default,
     uc_lvl_v3 = v3_default,
     uc_lvl_v4 = v4_default,
     uc_lvl_adj = adj_default,
     uc_loss = loss_default,
     uc_ofst = ofst_default,
     uc_ofst2x = ox_default,
     uc_ofst2x_v2 = oy_default,
     uc_xtal = xtal_default\<rparr>"

section \<open>Entries\<close>

text \<open>The left-hand sides of the assignments: an entry is a field of one of the structures, with its indexes if it is an array.\<close>

datatype lvl_entry =
    Lvl_enable
  | Lvl_dsss
  | Lvl_ofdmlowrate_2g4
  | Lvl_ofdm64qam_2g4
  | Lvl_ofdm256qam_2g4
  | Lvl_ofdm1024qam_2g4
  | Lvl_ofdmlowrate_5g
  | Lvl_ofdm64qam_5g
  | Lvl_ofdm256qam_5g
  | Lvl_ofdm1024qam_5g

datatype v2_entry =
    LvlV2_enable
  | LvlV2_11b_11ag_2g4 nat
  | LvlV2_11n_11ac_2g4 nat
  | LvlV2_11ax_2g4 nat

datatype v3_entry =
    LvlV3_enable
  | LvlV3_11b_11ag_2g4 nat
  | LvlV3_11n_11ac_2g4 nat
  | LvlV3_11ax_2g4 nat
  | LvlV3_11a_5g nat
  | LvlV3_11n_11ac_5g nat
  | LvlV3_11ax_5g nat

datatype v4_entry =
    LvlV4_enable
  | LvlV4_11b_11ag_2g4 nat
  | LvlV4_11n_11ac_2g4 nat
  | LvlV4_11ax_2g4 nat
  | LvlV4_11a_5g nat
  | LvlV4_11n_11ac_5g nat
  | LvlV4_11ax_5g nat
  | LvlV4_11a_6g nat
  | LvlV4_11n_11ac_6g nat
  | LvlV4_11ax_6g nat

datatype adj_entry =
    LvlAdj_enable
  | LvlAdj_2g4 nat
  | LvlAdj_5g nat

datatype loss_entry =
    Loss_enable_2g4
  | Loss_value_2g4
  | Loss_enable_5g
  | Loss_value_5g

datatype ofst_entry =
    Ofst_enable
  | Ofst_chan_1_4
  | Ofst_chan_5_9
  | Ofst_chan_10_13
  | Ofst_chan_36_64
  | Ofst_chan_100_120
  | Ofst_chan_122_140
  | Ofst_chan_142_165

datatype ox_entry =
    Ofst2x_enable
  | Ofst2x_2g4 nat nat
  | Ofst2x_5g nat nat

datatype oy_entry =
    Ofst2xV2_enable
  | Ofst2xV2_pwrofst_flags
  | Ofst2xV2_2g4_ant0 nat nat
  | Ofst2xV2_2g4_ant1 nat nat
  | Ofst2xV2_5g_ant0 nat nat
  | Ofst2xV2_5g_ant1 nat nat
  | Ofst2xV2_6g_ant0 nat
  | Ofst2xV2_6g_ant1 nat

datatype xtal_entry =
    Xtal_enable
  | Xtal_cap
  | Xtal_cap_fine

datatype entry =
    Lvl lvl_entry
  | LvlV2 v2_entry
  | LvlV3 v3_entry
  | LvlV4 v4_entry
  | LvlAdj adj_entry
  | Loss loss_entry
  | Ofst ofst_entry
  | Ofst2x ox_entry
  | Ofst2xV2 oy_entry
  | Xtal xtal_entry

fun lvl_get :: "lvl_entry \<Rightarrow> txpwr_lvl_conf \<Rightarrow> u8" where
  "lvl_get Lvl_enable c = lvl_enable c"
| "lvl_get Lvl_dsss c = lvl_dsss c"
| "lvl_get Lvl_ofdmlowrate_2g4 c = lvl_ofdmlowrate_2g4 c"
| "lvl_get Lvl_ofdm64qam_2g4 c = lvl_ofdm64qam_2g4 c"
| "lvl_get Lvl_ofdm256qam_2g4 c = lvl_ofdm256qam_2g4 c"
| "lvl_get Lvl_ofdm1024qam_2g4 c = lvl_ofdm1024qam_2g4 c"
| "lvl_get Lvl_ofdmlowrate_5g c = lvl_ofdmlowrate_5g c"
| "lvl_get Lvl_ofdm64qam_5g c = lvl_ofdm64qam_5g c"
| "lvl_get Lvl_ofdm256qam_5g c = lvl_ofdm256qam_5g c"
| "lvl_get Lvl_ofdm1024qam_5g c = lvl_ofdm1024qam_5g c"

fun lvl_put :: "lvl_entry \<Rightarrow> u8 \<Rightarrow> txpwr_lvl_conf \<Rightarrow> txpwr_lvl_conf" where
  "lvl_put Lvl_enable v c = c\<lparr>lvl_enable := v\<rparr>"
| "lvl_put Lvl_dsss v c = c\<lparr>lvl_dsss := v\<rparr>"
| "lvl_put Lvl_ofdmlowrate_2g4 v c = c\<lparr>lvl_ofdmlowrate_2g4 := v\<rparr>"
| "lvl_put Lvl_ofdm64qam_2g4 v c = c\<lparr>lvl_ofdm64qam_2g4 := v\<rparr>"
| "lvl_put Lvl_ofdm256qam_2g4 v c = c\<lparr>lvl_ofdm256qam_2g4 := v\<rparr>"
| "lvl_put Lvl_ofdm1024qam_2g4 v c = c\<lparr>lvl_ofdm1024qam_2g4 := v\<rparr>"
| "lvl_put Lvl_ofdmlowrate_5g v c = c\<lparr>lvl_ofdmlowrate_5g := v\<rparr>"
| "lvl_put Lvl_ofdm64qam_5g v c = c\<lparr>lvl_ofdm64qam_5g := v\<rparr>"
| "lvl_put Lvl_ofdm256qam_5g v c = c\<lparr>lvl_ofdm256qam_5g := v\<rparr>"
| "lvl_put Lvl_ofdm1024qam_5g v c = c\<lparr>lvl_ofdm1024qam_5g := v\<rparr>"

fun v2_get :: "v2_entry \<Rightarrow> txpwr_lvl_conf_v2 \<Rightarrow> u8" where
  "v2_get LvlV2_enable c = v2_enable c"
| "v2_get (LvlV2_11b_11ag_2g4 i) c = v2_11b_11ag_2g4 c ! i"
| "v2_get (LvlV2_11n_11ac_2g4 i) c = v2_11n_11ac_2g4 c ! i"
| "v2_get (LvlV2_11ax_2g4 i) c = v2_11ax_2g4 c ! i"

fun v2_put :: "v2_entry \<Rightarrow> u8 \<Rightarrow> txpwr_lvl_conf_v2 \<Rightarrow> txpwr_lvl_conf_v2" where
  "v2_put LvlV2_enable v c = c\<lparr>v2_enable := v\<rparr>"
| "v2_put (LvlV2_11b_11ag_2g4 i) v c = c\<lparr>v2_11b_11ag_2g4 := (v2_11b_11ag_2g4 c)[i := v]\<rparr>"
| "v2_put (LvlV2_11n_11ac_2g4 i) v c = c\<lparr>v2_11n_11ac_2g4 := (v2_11n_11ac_2g4 c)[i := v]\<rparr>"
| "v2_put (LvlV2_11ax_2g4 i) v c = c\<lparr>v2_11ax_2g4 := (v2_11ax_2g4 c)[i := v]\<rparr>"

fun v3_get :: "v3_entry \<Rightarrow> txpwr_lvl_conf_v3 \<Rightarrow> u8" where
  "v3_get LvlV3_enable c = v3_enable c"
| "v3_get (LvlV3_11b_11ag_2g4 i) c = v3_11b_11ag_2g4 c ! i"
| "v3_get (LvlV3_11n_11ac_2g4 i) c = v3_11n_11ac_2g4 c ! i"
| "v3_get (LvlV3_11ax_2g4 i) c = v3_11ax_2g4 c ! i"
| "v3_get (LvlV3_11a_5g i) c = v3_11a_5g c ! i"
| "v3_get (LvlV3_11n_11ac_5g i) c = v3_11n_11ac_5g c ! i"
| "v3_get (LvlV3_11ax_5g i) c = v3_11ax_5g c ! i"

fun v3_put :: "v3_entry \<Rightarrow> u8 \<Rightarrow> txpwr_lvl_conf_v3 \<Rightarrow> txpwr_lvl_conf_v3" where
  "v3_put LvlV3_enable v c = c\<lparr>v3_enable := v\<rparr>"
| "v3_put (LvlV3_11b_11ag_2g4 i) v c = c\<lparr>v3_11b_11ag_2g4 := (v3_11b_11ag_2g4 c)[i := v]\<rparr>"
| "v3_put (LvlV3_11n_11ac_2g4 i) v c = c\<lparr>v3_11n_11ac_2g4 := (v3_11n_11ac_2g4 c)[i := v]\<rparr>"
| "v3_put (LvlV3_11ax_2g4 i) v c = c\<lparr>v3_11ax_2g4 := (v3_11ax_2g4 c)[i := v]\<rparr>"
| "v3_put (LvlV3_11a_5g i) v c = c\<lparr>v3_11a_5g := (v3_11a_5g c)[i := v]\<rparr>"
| "v3_put (LvlV3_11n_11ac_5g i) v c = c\<lparr>v3_11n_11ac_5g := (v3_11n_11ac_5g c)[i := v]\<rparr>"
| "v3_put (LvlV3_11ax_5g i) v c = c\<lparr>v3_11ax_5g := (v3_11ax_5g c)[i := v]\<rparr>"

fun v4_get :: "v4_entry \<Rightarrow> txpwr_lvl_conf_v4 \<Rightarrow> u8" where
  "v4_get LvlV4_enable c = v4_enable c"
| "v4_get (LvlV4_11b_11ag_2g4 i) c = v4_11b_11ag_2g4 c ! i"
| "v4_get (LvlV4_11n_11ac_2g4 i) c = v4_11n_11ac_2g4 c ! i"
| "v4_get (LvlV4_11ax_2g4 i) c = v4_11ax_2g4 c ! i"
| "v4_get (LvlV4_11a_5g i) c = v4_11a_5g c ! i"
| "v4_get (LvlV4_11n_11ac_5g i) c = v4_11n_11ac_5g c ! i"
| "v4_get (LvlV4_11ax_5g i) c = v4_11ax_5g c ! i"
| "v4_get (LvlV4_11a_6g i) c = v4_11a_6g c ! i"
| "v4_get (LvlV4_11n_11ac_6g i) c = v4_11n_11ac_6g c ! i"
| "v4_get (LvlV4_11ax_6g i) c = v4_11ax_6g c ! i"

fun v4_put :: "v4_entry \<Rightarrow> u8 \<Rightarrow> txpwr_lvl_conf_v4 \<Rightarrow> txpwr_lvl_conf_v4" where
  "v4_put LvlV4_enable v c = c\<lparr>v4_enable := v\<rparr>"
| "v4_put (LvlV4_11b_11ag_2g4 i) v c = c\<lparr>v4_11b_11ag_2g4 := (v4_11b_11ag_2g4 c)[i := v]\<rparr>"
| "v4_put (LvlV4_11n_11ac_2g4 i) v c = c\<lparr>v4_11n_11ac_2g4 := (v4_11n_11ac_2g4 c)[i := v]\<rparr>"
| "v4_put (LvlV4_11ax_2g4 i) v c = c\<lparr>v4_11ax_2g4 := (v4_11ax_2g4 c)[i := v]\<rparr>"
| "v4_put (LvlV4_11a_5g i) v c = c\<lparr>v4_11a_5g := (v4_11a_5g c)[i := v]\<rparr>"
| "v4_put (LvlV4_11n_11ac_5g i) v c = c\<lparr>v4_11n_11ac_5g := (v4_11n_11ac_5g c)[i := v]\<rparr>"
| "v4_put (LvlV4_11ax_5g i) v c = c\<lparr>v4_11ax_5g := (v4_11ax_5g c)[i := v]\<rparr>"
| "v4_put (LvlV4_11a_6g i) v c = c\<lparr>v4_11a_6g := (v4_11a_6g c)[i := v]\<rparr>"
| "v4_put (LvlV4_11n_11ac_6g i) v c = c\<lparr>v4_11n_11ac_6g := (v4_11n_11ac_6g c)[i := v]\<rparr>"
| "v4_put (LvlV4_11ax_6g i) v c = c\<lparr>v4_11ax_6g := (v4_11ax_6g c)[i := v]\<rparr>"

fun adj_get :: "adj_entry \<Rightarrow> txpwr_lvl_adj_conf \<Rightarrow> u8" where
  "adj_get LvlAdj_enable c = adj_enable c"
| "adj_get (LvlAdj_2g4 i) c = adj_2g4 c ! i"
| "adj_get (LvlAdj_5g i) c = adj_5g c ! i"

fun adj_put :: "adj_entry \<Rightarrow> u8 \<Rightarrow> txpwr_lvl_adj_conf \<Rightarrow> txpwr_lvl_adj_conf" where
  "adj_put LvlAdj_enable v c = c\<lparr>adj_enable := v\<rparr>"
| "adj_put (LvlAdj_2g4 i) v c = c\<lparr>adj_2g4 := (adj_2g4 c)[i := v]\<rparr>"
| "adj_put (LvlAdj_5g i) v c = c\<lparr>adj_5g := (adj_5g c)[i := v]\<rparr>"

fun loss_get :: "loss_entry \<Rightarrow> txpwr_loss_conf \<Rightarrow> u8" where
  "loss_get Loss_enable_2g4 c = loss_enable_2g4 c"
| "loss_get Loss_value_2g4 c = loss_value_2g4 c"
| "loss_get Loss_enable_5g c = loss_enable_5g c"
| "loss_get Loss_value_5g c = loss_value_5g c"

fun loss_put :: "loss_entry \<Rightarrow> u8 \<Rightarrow> txpwr_loss_conf \<Rightarrow> txpwr_loss_conf" where
  "loss_put Loss_enable_2g4 v c = c\<lparr>loss_enable_2g4 := v\<rparr>"
| "loss_put Loss_value_2g4 v c = c\<lparr>loss_value_2g4 := v\<rparr>"
| "loss_put Loss_enable_5g v c = c\<lparr>loss_enable_5g := v\<rparr>"
| "loss_put Loss_value_5g v c = c\<lparr>loss_value_5g := v\<rparr>"

fun ofst_get :: "ofst_entry \<Rightarrow> txpwr_ofst_conf \<Rightarrow> u8" where
  "ofst_get Ofst_enable c = ofst_enable c"
| "ofst_get Ofst_chan_1_4 c = ofst_chan_1_4 c"
| "ofst_get Ofst_chan_5_9 c = ofst_chan_5_9 c"
| "ofst_get Ofst_chan_10_13 c = ofst_chan_10_13 c"
| "ofst_get Ofst_chan_36_64 c = ofst_chan_36_64 c"
| "ofst_get Ofst_chan_100_120 c = ofst_chan_100_120 c"
| "ofst_get Ofst_chan_122_140 c = ofst_chan_122_140 c"
| "ofst_get Ofst_chan_142_165 c = ofst_chan_142_165 c"

fun ofst_put :: "ofst_entry \<Rightarrow> u8 \<Rightarrow> txpwr_ofst_conf \<Rightarrow> txpwr_ofst_conf" where
  "ofst_put Ofst_enable v c = c\<lparr>ofst_enable := v\<rparr>"
| "ofst_put Ofst_chan_1_4 v c = c\<lparr>ofst_chan_1_4 := v\<rparr>"
| "ofst_put Ofst_chan_5_9 v c = c\<lparr>ofst_chan_5_9 := v\<rparr>"
| "ofst_put Ofst_chan_10_13 v c = c\<lparr>ofst_chan_10_13 := v\<rparr>"
| "ofst_put Ofst_chan_36_64 v c = c\<lparr>ofst_chan_36_64 := v\<rparr>"
| "ofst_put Ofst_chan_100_120 v c = c\<lparr>ofst_chan_100_120 := v\<rparr>"
| "ofst_put Ofst_chan_122_140 v c = c\<lparr>ofst_chan_122_140 := v\<rparr>"
| "ofst_put Ofst_chan_142_165 v c = c\<lparr>ofst_chan_142_165 := v\<rparr>"

fun ox_get :: "ox_entry \<Rightarrow> txpwr_ofst2x_conf \<Rightarrow> u8" where
  "ox_get Ofst2x_enable c = ox_enable c"
| "ox_get (Ofst2x_2g4 i j) c = ox_2g4 c ! i ! j"
| "ox_get (Ofst2x_5g i j) c = ox_5g c ! i ! j"

fun ox_put :: "ox_entry \<Rightarrow> u8 \<Rightarrow> txpwr_ofst2x_conf \<Rightarrow> txpwr_ofst2x_conf" where
  "ox_put Ofst2x_enable v c = c\<lparr>ox_enable := v\<rparr>"
| "ox_put (Ofst2x_2g4 i j) v c = c\<lparr>ox_2g4 := (ox_2g4 c)[i := (ox_2g4 c ! i)[j := v]]\<rparr>"
| "ox_put (Ofst2x_5g i j) v c = c\<lparr>ox_5g := (ox_5g c)[i := (ox_5g c ! i)[j := v]]\<rparr>"

fun oy_get :: "oy_entry \<Rightarrow> txpwr_ofst2x_conf_v2 \<Rightarrow> u8" where
  "oy_get Ofst2xV2_enable c = oy_enable c"
| "oy_get Ofst2xV2_pwrofst_flags c = oy_pwrofst_flags c"
| "oy_get (Ofst2xV2_2g4_ant0 i j) c = oy_2g4_ant0 c ! i ! j"
| "oy_get (Ofst2xV2_2g4_ant1 i j) c = oy_2g4_ant1 c ! i ! j"
| "oy_get (Ofst2xV2_5g_ant0 i j) c = oy_5g_ant0 c ! i ! j"
| "oy_get (Ofst2xV2_5g_ant1 i j) c = oy_5g_ant1 c ! i ! j"
| "oy_get (Ofst2xV2_6g_ant0 i) c = oy_6g_ant0 c ! i"
| "oy_get (Ofst2xV2_6g_ant1 i) c = oy_6g_ant1 c ! i"

fun oy_put :: "oy_entry \<Rightarrow> u8 \<Rightarrow> txpwr_ofst2x_conf_v2 \<Rightarrow> txpwr_ofst2x_conf_v2" where
  "oy_put Ofst2xV2_enable v c = c\<lparr>oy_enable := v\<rparr>"
| "oy_put Ofst2xV2_pwrofst_flags v c = c\<lparr>oy_pwrofst_flags := v\<rparr>"
| "oy_put (Ofst2xV2_2g4_ant0 i j) v c = c\<lparr>oy_2g4_ant0 := (oy_2g4_ant0 c)[i := (oy_2g4_ant0 c ! i)[j := v]]\<rparr>"
| "oy_put (Ofst2xV2_2g4_ant1 i j) v c = c\<lparr>oy_2g4_ant1 := (oy_2g4_ant1 c)[i := (oy_2g4_ant1 c ! i)[j := v]]\<rparr>"
| "oy_put (Ofst2xV2_5g_ant0 i j) v c = c\<lparr>oy_5g_ant0 := (oy_5g_ant0 c)[i := (oy_5g_ant0 c ! i)[j := v]]\<rparr>"
| "oy_put (Ofst2xV2_5g_ant1 i j) v c = c\<lparr>oy_5g_ant1 := (oy_5g_ant1 c)[i := (oy_5g_ant1 c ! i)[j := v]]\<rparr>"
| "oy_put (Ofst2xV2_6g_ant0 i) v c = c\<lparr>oy_6g_ant0 := (oy_6g_ant0 c)[i := v]\<rparr>"
| "oy_put (Ofst2xV2_6g_ant1 i) v c = c\<lparr>oy_6g_ant1 := (oy_6g_ant1 c)[i := v]\<rparr>"

fun xtal_get :: "xtal_entry \<Rightarrow> xtal_cap_conf \<Rightarrow> u8" where
  "xtal_get Xtal_enable c = xtal_enable c"
| "xtal_get Xtal_cap c = xtal_cap c"
| "xtal_get Xtal_cap_fine c = xtal_cap_fine c"

fun xtal_put :: "xtal_entry \<Rightarrow> u8 \<Rightarrow> xtal_cap_conf \<Rightarrow> xtal_cap_conf" where
  "xtal_put Xtal_enable v c = c\<lparr>xtal_enable := v\<rparr>"
| "xtal_put Xtal_cap v c = c\<lparr>xtal_cap := v\<rparr>"
| "xtal_put Xtal_cap_fine v c = c\<lparr>xtal_cap_fine := v\<rparr>"

fun cfg_get :: "entry \<Rightarrow> userconfig_info \<Rightarrow> u8" where
  "cfg_get (Lvl e) u = lvl_get e (uc_lvl u)"
| "cfg_get (LvlV2 e) u = v2_get e (uc_lvl_v2 u)"
| "cfg_get (LvlV3 e) u = v3_get e (uc_lvl_v3 u)"
| "cfg_get (LvlV4 e) u = v4_get e (uc_lvl_v4 u)"
| "cfg_get (LvlAdj e) u = adj_get e (uc_lvl_adj u)"
| "cfg_get (Loss e) u = loss_get e (uc_loss u)"
| "cfg_get (Ofst e) u = ofst_get e (uc_ofst u)"
| "cfg_get (Ofst2x e) u = ox_get e (uc_ofst2x u)"
| "cfg_get (Ofst2xV2 e) u = oy_get e (uc_ofst2x_v2 u)"
| "cfg_get (Xtal e) u = xtal_get e (uc_xtal u)"

fun cfg_put :: "entry \<Rightarrow> u8 \<Rightarrow> userconfig_info \<Rightarrow> userconfig_info" where
  "cfg_put (Lvl e) v u = u\<lparr>uc_lvl := lvl_put e v (uc_lvl u)\<rparr>"
| "cfg_put (LvlV2 e) v u = u\<lparr>uc_lvl_v2 := v2_put e v (uc_lvl_v2 u)\<rparr>"
| "cfg_put (LvlV3 e) v u = u\<lparr>uc_lvl_v3 := v3_put e v (uc_lvl_v3 u)\<rparr>"
| "cfg_put (LvlV4 e) v u = u\<lparr>uc_lvl_v4 := v4_put e v (uc_lvl_v4 u)\<rparr>"
| "cfg_put (LvlAdj e) v u = u\<lparr>uc_lvl_adj := adj_put e v (uc_lvl_adj u)\<rparr>"
| "cfg_put (Loss e) v u = u\<lparr>uc_loss := loss_put e v (uc_loss u)\<rparr>"
| "cfg_put (Ofst e) v u = u\<lparr>uc_ofst := ofst_put e v (uc_ofst u)\<rparr>"
| "cfg_put (Ofst2x e) v u = u\<lparr>uc_ofst2x := ox_put e v (uc_ofst2x u)\<rparr>"
| "cfg_put (Ofst2xV2 e) v u = u\<lparr>uc_ofst2x_v2 := oy_put e v (uc_ofst2x_v2 u)\<rparr>"
| "cfg_put (Xtal e) v u = u\<lparr>uc_xtal := xtal_put e v (uc_xtal u)\<rparr>"

text \<open>The entries that the declarations of the structures have: an index is less than the dimension of its array.\<close>

fun v2_in_range :: "v2_entry \<Rightarrow> bool" where
  "v2_in_range LvlV2_enable \<longleftrightarrow> True"
| "v2_in_range (LvlV2_11b_11ag_2g4 i) \<longleftrightarrow> i < 12"
| "v2_in_range (LvlV2_11n_11ac_2g4 i) \<longleftrightarrow> i < 10"
| "v2_in_range (LvlV2_11ax_2g4 i) \<longleftrightarrow> i < 12"

fun v3_in_range :: "v3_entry \<Rightarrow> bool" where
  "v3_in_range LvlV3_enable \<longleftrightarrow> True"
| "v3_in_range (LvlV3_11b_11ag_2g4 i) \<longleftrightarrow> i < 12"
| "v3_in_range (LvlV3_11n_11ac_2g4 i) \<longleftrightarrow> i < 10"
| "v3_in_range (LvlV3_11ax_2g4 i) \<longleftrightarrow> i < 12"
| "v3_in_range (LvlV3_11a_5g i) \<longleftrightarrow> i < 12"
| "v3_in_range (LvlV3_11n_11ac_5g i) \<longleftrightarrow> i < 10"
| "v3_in_range (LvlV3_11ax_5g i) \<longleftrightarrow> i < 12"

fun v4_in_range :: "v4_entry \<Rightarrow> bool" where
  "v4_in_range LvlV4_enable \<longleftrightarrow> True"
| "v4_in_range (LvlV4_11b_11ag_2g4 i) \<longleftrightarrow> i < 12"
| "v4_in_range (LvlV4_11n_11ac_2g4 i) \<longleftrightarrow> i < 10"
| "v4_in_range (LvlV4_11ax_2g4 i) \<longleftrightarrow> i < 12"
| "v4_in_range (LvlV4_11a_5g i) \<longleftrightarrow> i < 8"
| "v4_in_range (LvlV4_11n_11ac_5g i) \<longleftrightarrow> i < 10"
| "v4_in_range (LvlV4_11ax_5g i) \<longleftrightarrow> i < 12"
| "v4_in_range (LvlV4_11a_6g i) \<longleftrightarrow> i < 8"
| "v4_in_range (LvlV4_11n_11ac_6g i) \<longleftrightarrow> i < 10"
| "v4_in_range (LvlV4_11ax_6g i) \<longleftrightarrow> i < 12"

fun adj_in_range :: "adj_entry \<Rightarrow> bool" where
  "adj_in_range LvlAdj_enable \<longleftrightarrow> True"
| "adj_in_range (LvlAdj_2g4 i) \<longleftrightarrow> i < 3"
| "adj_in_range (LvlAdj_5g i) \<longleftrightarrow> i < 6"

fun ox_in_range :: "ox_entry \<Rightarrow> bool" where
  "ox_in_range Ofst2x_enable \<longleftrightarrow> True"
| "ox_in_range (Ofst2x_2g4 i j) \<longleftrightarrow> i < 3 \<and> j < 3"
| "ox_in_range (Ofst2x_5g i j) \<longleftrightarrow> i < 3 \<and> j < 6"

fun oy_in_range :: "oy_entry \<Rightarrow> bool" where
  "oy_in_range Ofst2xV2_enable \<longleftrightarrow> True"
| "oy_in_range Ofst2xV2_pwrofst_flags \<longleftrightarrow> True"
| "oy_in_range (Ofst2xV2_2g4_ant0 i j) \<longleftrightarrow> i < 3 \<and> j < 3"
| "oy_in_range (Ofst2xV2_2g4_ant1 i j) \<longleftrightarrow> i < 3 \<and> j < 3"
| "oy_in_range (Ofst2xV2_5g_ant0 i j) \<longleftrightarrow> i < 6 \<and> j < 3"
| "oy_in_range (Ofst2xV2_5g_ant1 i j) \<longleftrightarrow> i < 6 \<and> j < 3"
| "oy_in_range (Ofst2xV2_6g_ant0 i) \<longleftrightarrow> i < 15"
| "oy_in_range (Ofst2xV2_6g_ant1 i) \<longleftrightarrow> i < 15"

fun in_range :: "entry \<Rightarrow> bool" where
  "in_range (Lvl e) \<longleftrightarrow> True"
| "in_range (LvlV2 e) \<longleftrightarrow> v2_in_range e"
| "in_range (LvlV3 e) \<longleftrightarrow> v3_in_range e"
| "in_range (LvlV4 e) \<longleftrightarrow> v4_in_range e"
| "in_range (LvlAdj e) \<longleftrightarrow> adj_in_range e"
| "in_range (Loss e) \<longleftrightarrow> True"
| "in_range (Ofst e) \<longleftrightarrow> True"
| "in_range (Ofst2x e) \<longleftrightarrow> ox_in_range e"
| "in_range (Ofst2xV2 e) \<longleftrightarrow> oy_in_range e"
| "in_range (Xtal e) \<longleftrightarrow> True"

text \<open>An assignment: one with an index beyond its array writes outside.\<close>

definition cfg_assign :: "entry \<Rightarrow> u8 \<Rightarrow> userconfig_info \<Rightarrow> fault + userconfig_info" where
  "cfg_assign e v u = (if in_range e then Inr (cfg_put e v u) else Inl OutOfBounds)"

section \<open>The settings\<close>

text \<open>
  The chains of \<open>strcmp\<close> in \<open>rwnx_plat_nvram_set_value\<close> and \<open>rwnx_plat_nvram_set_value_8800d80x2\<close> as the tables of their branches, in their order: a
  command and the entries that it assigns. The first branch that matches is taken.
\<close>

definition nvram_lvl :: "(string \<times> entry list) list" where
  "nvram_lvl =
    [(''enable'', [Lvl Lvl_enable, LvlV2 LvlV2_enable, LvlV3 LvlV3_enable]),
     (''dsss'', [Lvl Lvl_dsss]),
     (''ofdmlowrate_2g4'', [Lvl Lvl_ofdmlowrate_2g4]),
     (''ofdm64qam_2g4'', [Lvl Lvl_ofdm64qam_2g4]),
     (''ofdm256qam_2g4'', [Lvl Lvl_ofdm256qam_2g4]),
     (''ofdm1024qam_2g4'', [Lvl Lvl_ofdm1024qam_2g4]),
     (''ofdmlowrate_5g'', [Lvl Lvl_ofdmlowrate_5g]),
     (''ofdm64qam_5g'', [Lvl Lvl_ofdm64qam_5g]),
     (''ofdm256qam_5g'', [Lvl Lvl_ofdm256qam_5g]),
     (''ofdm1024qam_5g'', [Lvl Lvl_ofdm1024qam_5g])]"

definition nvram_lvl_2g4 :: "(string \<times> entry list) list" where
  "nvram_lvl_2g4 =
    [(''lvl_11b_11ag_1m_2g4'', [LvlV2 (LvlV2_11b_11ag_2g4 0), LvlV3 (LvlV3_11b_11ag_2g4 0)]),
     (''lvl_11b_11ag_2m_2g4'', [LvlV2 (LvlV2_11b_11ag_2g4 1), LvlV3 (LvlV3_11b_11ag_2g4 1)]),
     (''lvl_11b_11ag_5m5_2g4'', [LvlV2 (LvlV2_11b_11ag_2g4 2), LvlV3 (LvlV3_11b_11ag_2g4 2)]),
     (''lvl_11b_11ag_11m_2g4'', [LvlV2 (LvlV2_11b_11ag_2g4 3), LvlV3 (LvlV3_11b_11ag_2g4 3)]),
     (''lvl_11b_11ag_6m_2g4'', [LvlV2 (LvlV2_11b_11ag_2g4 4), LvlV3 (LvlV3_11b_11ag_2g4 4)]),
     (''lvl_11b_11ag_9m_2g4'', [LvlV2 (LvlV2_11b_11ag_2g4 5), LvlV3 (LvlV3_11b_11ag_2g4 5)]),
     (''lvl_11b_11ag_12m_2g4'', [LvlV2 (LvlV2_11b_11ag_2g4 6), LvlV3 (LvlV3_11b_11ag_2g4 6)]),
     (''lvl_11b_11ag_18m_2g4'', [LvlV2 (LvlV2_11b_11ag_2g4 7), LvlV3 (LvlV3_11b_11ag_2g4 7)]),
     (''lvl_11b_11ag_24m_2g4'', [LvlV2 (LvlV2_11b_11ag_2g4 8), LvlV3 (LvlV3_11b_11ag_2g4 8)]),
     (''lvl_11b_11ag_36m_2g4'', [LvlV2 (LvlV2_11b_11ag_2g4 9), LvlV3 (LvlV3_11b_11ag_2g4 9)]),
     (''lvl_11b_11ag_48m_2g4'', [LvlV2 (LvlV2_11b_11ag_2g4 10), LvlV3 (LvlV3_11b_11ag_2g4 10)]),
     (''lvl_11b_11ag_54m_2g4'', [LvlV2 (LvlV2_11b_11ag_2g4 11), LvlV3 (LvlV3_11b_11ag_2g4 11)]),
     (''lvl_11n_11ac_mcs0_2g4'', [LvlV2 (LvlV2_11n_11ac_2g4 0), LvlV3 (LvlV3_11n_11ac_2g4 0)]),
     (''lvl_11n_11ac_mcs1_2g4'', [LvlV2 (LvlV2_11n_11ac_2g4 1), LvlV3 (LvlV3_11n_11ac_2g4 1)]),
     (''lvl_11n_11ac_mcs2_2g4'', [LvlV2 (LvlV2_11n_11ac_2g4 2), LvlV3 (LvlV3_11n_11ac_2g4 2)]),
     (''lvl_11n_11ac_mcs3_2g4'', [LvlV2 (LvlV2_11n_11ac_2g4 3), LvlV3 (LvlV3_11n_11ac_2g4 3)]),
     (''lvl_11n_11ac_mcs4_2g4'', [LvlV2 (LvlV2_11n_11ac_2g4 4), LvlV3 (LvlV3_11n_11ac_2g4 4)]),
     (''lvl_11n_11ac_mcs5_2g4'', [LvlV2 (LvlV2_11n_11ac_2g4 5), LvlV3 (LvlV3_11n_11ac_2g4 5)]),
     (''lvl_11n_11ac_mcs6_2g4'', [LvlV2 (LvlV2_11n_11ac_2g4 6), LvlV3 (LvlV3_11n_11ac_2g4 6)]),
     (''lvl_11n_11ac_mcs7_2g4'', [LvlV2 (LvlV2_11n_11ac_2g4 7), LvlV3 (LvlV3_11n_11ac_2g4 7)]),
     (''lvl_11n_11ac_mcs8_2g4'', [LvlV2 (LvlV2_11n_11ac_2g4 8), LvlV3 (LvlV3_11n_11ac_2g4 8)]),
     (''lvl_11n_11ac_mcs9_2g4'', [LvlV2 (LvlV2_11n_11ac_2g4 9), LvlV3 (LvlV3_11n_11ac_2g4 9)]),
     (''lvl_11ax_mcs0_2g4'', [LvlV2 (LvlV2_11ax_2g4 0), LvlV3 (LvlV3_11ax_2g4 0)]),
     (''lvl_11ax_mcs1_2g4'', [LvlV2 (LvlV2_11ax_2g4 1), LvlV3 (LvlV3_11ax_2g4 1)]),
     (''lvl_11ax_mcs2_2g4'', [LvlV2 (LvlV2_11ax_2g4 2), LvlV3 (LvlV3_11ax_2g4 2)]),
     (''lvl_11ax_mcs3_2g4'', [LvlV2 (LvlV2_11ax_2g4 3), LvlV3 (LvlV3_11ax_2g4 3)]),
     (''lvl_11ax_mcs4_2g4'', [LvlV2 (LvlV2_11ax_2g4 4), LvlV3 (LvlV3_11ax_2g4 4)]),
     (''lvl_11ax_mcs5_2g4'', [LvlV2 (LvlV2_11ax_2g4 5), LvlV3 (LvlV3_11ax_2g4 5)]),
     (''lvl_11ax_mcs6_2g4'', [LvlV2 (LvlV2_11ax_2g4 6), LvlV3 (LvlV3_11ax_2g4 6)]),
     (''lvl_11ax_mcs7_2g4'', [LvlV2 (LvlV2_11ax_2g4 7), LvlV3 (LvlV3_11ax_2g4 7)]),
     (''lvl_11ax_mcs8_2g4'', [LvlV2 (LvlV2_11ax_2g4 8), LvlV3 (LvlV3_11ax_2g4 8)]),
     (''lvl_11ax_mcs9_2g4'', [LvlV2 (LvlV2_11ax_2g4 9), LvlV3 (LvlV3_11ax_2g4 9)]),
     (''lvl_11ax_mcs10_2g4'', [LvlV2 (LvlV2_11ax_2g4 10), LvlV3 (LvlV3_11ax_2g4 10)]),
     (''lvl_11ax_mcs11_2g4'', [LvlV2 (LvlV2_11ax_2g4 11), LvlV3 (LvlV3_11ax_2g4 11)])]"

definition nvram_lvl_5g :: "(string \<times> entry list) list" where
  "nvram_lvl_5g =
    [(''lvl_11a_1m_5g'', [LvlV3 (LvlV3_11a_5g 0)]),
     (''lvl_11a_2m_5g'', [LvlV3 (LvlV3_11a_5g 1)]),
     (''lvl_11a_5m5_5g'', [LvlV3 (LvlV3_11a_5g 2)]),
     (''lvl_11a_11m_5g'', [LvlV3 (LvlV3_11a_5g 3)]),
     (''lvl_11a_6m_5g'', [LvlV3 (LvlV3_11a_5g 4)]),
     (''lvl_11a_9m_5g'', [LvlV3 (LvlV3_11a_5g 5)]),
     (''lvl_11a_12m_5g'', [LvlV3 (LvlV3_11a_5g 6)]),
     (''lvl_11a_18m_5g'', [LvlV3 (LvlV3_11a_5g 7)]),
     (''lvl_11a_24m_5g'', [LvlV3 (LvlV3_11a_5g 8)]),
     (''lvl_11a_36m_5g'', [LvlV3 (LvlV3_11a_5g 9)]),
     (''lvl_11a_48m_5g'', [LvlV3 (LvlV3_11a_5g 10)]),
     (''lvl_11a_54m_5g'', [LvlV3 (LvlV3_11a_5g 11)]),
     (''lvl_11n_11ac_mcs0_5g'', [LvlV3 (LvlV3_11n_11ac_5g 0)]),
     (''lvl_11n_11ac_mcs1_5g'', [LvlV3 (LvlV3_11n_11ac_5g 1)]),
     (''lvl_11n_11ac_mcs2_5g'', [LvlV3 (LvlV3_11n_11ac_5g 2)]),
     (''lvl_11n_11ac_mcs3_5g'', [LvlV3 (LvlV3_11n_11ac_5g 3)]),
     (''lvl_11n_11ac_mcs4_5g'', [LvlV3 (LvlV3_11n_11ac_5g 4)]),
     (''lvl_11n_11ac_mcs5_5g'', [LvlV3 (LvlV3_11n_11ac_5g 5)]),
     (''lvl_11n_11ac_mcs6_5g'', [LvlV3 (LvlV3_11n_11ac_5g 6)]),
     (''lvl_11n_11ac_mcs7_5g'', [LvlV3 (LvlV3_11n_11ac_5g 7)]),
     (''lvl_11n_11ac_mcs8_5g'', [LvlV3 (LvlV3_11n_11ac_5g 8)]),
     (''lvl_11n_11ac_mcs9_5g'', [LvlV3 (LvlV3_11n_11ac_5g 9)]),
     (''lvl_11ax_mcs0_5g'', [LvlV3 (LvlV3_11ax_5g 0)]),
     (''lvl_11ax_mcs1_5g'', [LvlV3 (LvlV3_11ax_5g 1)]),
     (''lvl_11ax_mcs2_5g'', [LvlV3 (LvlV3_11ax_5g 2)]),
     (''lvl_11ax_mcs3_5g'', [LvlV3 (LvlV3_11ax_5g 3)]),
     (''lvl_11ax_mcs4_5g'', [LvlV3 (LvlV3_11ax_5g 4)]),
     (''lvl_11ax_mcs5_5g'', [LvlV3 (LvlV3_11ax_5g 5)]),
     (''lvl_11ax_mcs6_5g'', [LvlV3 (LvlV3_11ax_5g 6)]),
     (''lvl_11ax_mcs7_5g'', [LvlV3 (LvlV3_11ax_5g 7)]),
     (''lvl_11ax_mcs8_5g'', [LvlV3 (LvlV3_11ax_5g 8)]),
     (''lvl_11ax_mcs9_5g'', [LvlV3 (LvlV3_11ax_5g 9)]),
     (''lvl_11ax_mcs10_5g'', [LvlV3 (LvlV3_11ax_5g 10)]),
     (''lvl_11ax_mcs11_5g'', [LvlV3 (LvlV3_11ax_5g 11)])]"

definition nvram_rest :: "(string \<times> entry list) list" where
  "nvram_rest =
    [(''lvl_adj_enable'', [LvlAdj LvlAdj_enable]),
     (''lvl_adj_2g4_chan_1_4'', [LvlAdj (LvlAdj_2g4 0)]),
     (''lvl_adj_2g4_chan_5_9'', [LvlAdj (LvlAdj_2g4 1)]),
     (''lvl_adj_2g4_chan_10_13'', [LvlAdj (LvlAdj_2g4 2)]),
     (''lvl_adj_5g_chan_42'', [LvlAdj (LvlAdj_5g 0)]),
     (''lvl_adj_5g_chan_58'', [LvlAdj (LvlAdj_5g 1)]),
     (''lvl_adj_5g_chan_106'', [LvlAdj (LvlAdj_5g 2)]),
     (''lvl_adj_5g_chan_122'', [LvlAdj (LvlAdj_5g 3)]),
     (''lvl_adj_5g_chan_138'', [LvlAdj (LvlAdj_5g 4)]),
     (''lvl_adj_5g_chan_155'', [LvlAdj (LvlAdj_5g 5)]),
     (''loss_enable_2g4'', [Loss Loss_enable_2g4]),
     (''loss_value_2g4'', [Loss Loss_value_2g4]),
     (''loss_enable_5g'', [Loss Loss_enable_5g]),
     (''loss_value_5g'', [Loss Loss_value_5g]),
     (''ofst_enable'', [Ofst Ofst_enable, Ofst2x Ofst2x_enable]),
     (''ofst_chan_1_4'', [Ofst Ofst_chan_1_4]),
     (''ofst_chan_5_9'', [Ofst Ofst_chan_5_9]),
     (''ofst_chan_10_13'', [Ofst Ofst_chan_10_13]),
     (''ofst_chan_36_64'', [Ofst Ofst_chan_36_64]),
     (''ofst_chan_100_120'', [Ofst Ofst_chan_100_120]),
     (''ofst_chan_122_140'', [Ofst Ofst_chan_122_140]),
     (''ofst_chan_142_165'', [Ofst Ofst_chan_142_165]),
     (''ofst_2g4_11b_chan_1_4'', [Ofst2x (Ofst2x_2g4 0 0)]),
     (''ofst_2g4_11b_chan_5_9'', [Ofst2x (Ofst2x_2g4 0 1)]),
     (''ofst_2g4_11b_chan_10_13'', [Ofst2x (Ofst2x_2g4 0 2)]),
     (''ofst_2g4_ofdm_highrate_chan_1_4'', [Ofst2x (Ofst2x_2g4 1 0)]),
     (''ofst_2g4_ofdm_highrate_chan_5_9'', [Ofst2x (Ofst2x_2g4 1 1)]),
     (''ofst_2g4_ofdm_highrate_chan_10_13'', [Ofst2x (Ofst2x_2g4 1 2)]),
     (''ofst_2g4_ofdm_lowrate_chan_1_4'', [Ofst2x (Ofst2x_2g4 2 0)]),
     (''ofst_2g4_ofdm_lowrate_chan_5_9'', [Ofst2x (Ofst2x_2g4 2 1)]),
     (''ofst_2g4_ofdm_lowrate_chan_10_13'', [Ofst2x (Ofst2x_2g4 2 2)]),
     (''ofst_5g_ofdm_lowrate_chan_42'', [Ofst2x (Ofst2x_5g 0 0)]),
     (''ofst_5g_ofdm_lowrate_chan_58'', [Ofst2x (Ofst2x_5g 0 1)]),
     (''ofst_5g_ofdm_lowrate_chan_106'', [Ofst2x (Ofst2x_5g 0 2)]),
     (''ofst_5g_ofdm_lowrate_chan_122'', [Ofst2x (Ofst2x_5g 0 3)]),
     (''ofst_5g_ofdm_lowrate_chan_138'', [Ofst2x (Ofst2x_5g 0 4)]),
     (''ofst_5g_ofdm_lowrate_chan_155'', [Ofst2x (Ofst2x_5g 0 5)]),
     (''ofst_5g_ofdm_highrate_chan_42'', [Ofst2x (Ofst2x_5g 1 0)]),
     (''ofst_5g_ofdm_highrate_chan_58'', [Ofst2x (Ofst2x_5g 1 1)]),
     (''ofst_5g_ofdm_highrate_chan_106'', [Ofst2x (Ofst2x_5g 1 2)]),
     (''ofst_5g_ofdm_highrate_chan_122'', [Ofst2x (Ofst2x_5g 1 3)]),
     (''ofst_5g_ofdm_highrate_chan_138'', [Ofst2x (Ofst2x_5g 1 4)]),
     (''ofst_5g_ofdm_highrate_chan_155'', [Ofst2x (Ofst2x_5g 1 5)]),
     (''ofst_5g_ofdm_midrate_chan_42'', [Ofst2x (Ofst2x_5g 2 0)]),
     (''ofst_5g_ofdm_midrate_chan_58'', [Ofst2x (Ofst2x_5g 2 1)]),
     (''ofst_5g_ofdm_midrate_chan_106'', [Ofst2x (Ofst2x_5g 2 2)]),
     (''ofst_5g_ofdm_midrate_chan_122'', [Ofst2x (Ofst2x_5g 2 3)]),
     (''ofst_5g_ofdm_midrate_chan_138'', [Ofst2x (Ofst2x_5g 2 4)]),
     (''ofst_5g_ofdm_midrate_chan_155'', [Ofst2x (Ofst2x_5g 2 5)]),
     (''xtal_enable'', [Xtal Xtal_enable]),
     (''xtal_cap'', [Xtal Xtal_cap]),
     (''xtal_cap_fine'', [Xtal Xtal_cap_fine])]"

definition nvram_table :: "(string \<times> entry list) list" where
  "nvram_table = nvram_lvl @ nvram_lvl_2g4 @ nvram_lvl_5g @ nvram_rest"

definition nvram_v4_lvl :: "(string \<times> entry list) list" where
  "nvram_v4_lvl =
    [(''enable'', [LvlV4 LvlV4_enable]),
     (''lvl_11b_11ag_1m_2g4'', [LvlV4 (LvlV4_11b_11ag_2g4 0)]),
     (''lvl_11b_11ag_2m_2g4'', [LvlV4 (LvlV4_11b_11ag_2g4 1)]),
     (''lvl_11b_11ag_5m5_2g4'', [LvlV4 (LvlV4_11b_11ag_2g4 2)]),
     (''lvl_11b_11ag_11m_2g4'', [LvlV4 (LvlV4_11b_11ag_2g4 3)]),
     (''lvl_11b_11ag_6m_2g4'', [LvlV4 (LvlV4_11b_11ag_2g4 4)]),
     (''lvl_11b_11ag_9m_2g4'', [LvlV4 (LvlV4_11b_11ag_2g4 5)]),
     (''lvl_11b_11ag_12m_2g4'', [LvlV4 (LvlV4_11b_11ag_2g4 6)]),
     (''lvl_11b_11ag_18m_2g4'', [LvlV4 (LvlV4_11b_11ag_2g4 7)]),
     (''lvl_11b_11ag_24m_2g4'', [LvlV4 (LvlV4_11b_11ag_2g4 8)]),
     (''lvl_11b_11ag_36m_2g4'', [LvlV4 (LvlV4_11b_11ag_2g4 9)]),
     (''lvl_11b_11ag_48m_2g4'', [LvlV4 (LvlV4_11b_11ag_2g4 10)]),
     (''lvl_11b_11ag_54m_2g4'', [LvlV4 (LvlV4_11b_11ag_2g4 11)]),
     (''lvl_11n_11ac_mcs0_2g4'', [LvlV4 (LvlV4_11n_11ac_2g4 0)]),
     (''lvl_11n_11ac_mcs1_2g4'', [LvlV4 (LvlV4_11n_11ac_2g4 1)]),
     (''lvl_11n_11ac_mcs2_2g4'', [LvlV4 (LvlV4_11n_11ac_2g4 2)]),
     (''lvl_11n_11ac_mcs3_2g4'', [LvlV4 (LvlV4_11n_11ac_2g4 3)]),
     (''lvl_11n_11ac_mcs4_2g4'', [LvlV4 (LvlV4_11n_11ac_2g4 4)]),
     (''lvl_11n_11ac_mcs5_2g4'', [LvlV4 (LvlV4_11n_11ac_2g4 5)]),
     (''lvl_11n_11ac_mcs6_2g4'', [LvlV4 (LvlV4_11n_11ac_2g4 6)]),
     (''lvl_11n_11ac_mcs7_2g4'', [LvlV4 (LvlV4_11n_11ac_2g4 7)]),
     (''lvl_11n_11ac_mcs8_2g4'', [LvlV4 (LvlV4_11n_11ac_2g4 8)]),
     (''lvl_11n_11ac_mcs9_2g4'', [LvlV4 (LvlV4_11n_11ac_2g4 9)]),
     (''lvl_11ax_mcs0_2g4'', [LvlV4 (LvlV4_11ax_2g4 0)]),
     (''lvl_11ax_mcs1_2g4'', [LvlV4 (LvlV4_11ax_2g4 1)]),
     (''lvl_11ax_mcs2_2g4'', [LvlV4 (LvlV4_11ax_2g4 2)]),
     (''lvl_11ax_mcs3_2g4'', [LvlV4 (LvlV4_11ax_2g4 3)]),
     (''lvl_11ax_mcs4_2g4'', [LvlV4 (LvlV4_11ax_2g4 4)]),
     (''lvl_11ax_mcs5_2g4'', [LvlV4 (LvlV4_11ax_2g4 5)]),
     (''lvl_11ax_mcs6_2g4'', [LvlV4 (LvlV4_11ax_2g4 6)]),
     (''lvl_11ax_mcs7_2g4'', [LvlV4 (LvlV4_11ax_2g4 7)]),
     (''lvl_11ax_mcs8_2g4'', [LvlV4 (LvlV4_11ax_2g4 8)]),
     (''lvl_11ax_mcs9_2g4'', [LvlV4 (LvlV4_11ax_2g4 9)]),
     (''lvl_11ax_mcs10_2g4'', [LvlV4 (LvlV4_11ax_2g4 10)]),
     (''lvl_11ax_mcs11_2g4'', [LvlV4 (LvlV4_11ax_2g4 11)]),
     (''lvl_11a_6m_5g'', [LvlV4 (LvlV4_11a_5g 0)]),
     (''lvl_11a_9m_5g'', [LvlV4 (LvlV4_11a_5g 1)]),
     (''lvl_11a_12m_5g'', [LvlV4 (LvlV4_11a_5g 2)]),
     (''lvl_11a_18m_5g'', [LvlV4 (LvlV4_11a_5g 3)]),
     (''lvl_11a_24m_5g'', [LvlV4 (LvlV4_11a_5g 4)]),
     (''lvl_11a_36m_5g'', [LvlV4 (LvlV4_11a_5g 5)]),
     (''lvl_11a_48m_5g'', [LvlV4 (LvlV4_11a_5g 6)]),
     (''lvl_11a_54m_5g'', [LvlV4 (LvlV4_11a_5g 7)]),
     (''lvl_11n_11ac_mcs0_5g'', [LvlV4 (LvlV4_11n_11ac_5g 0)]),
     (''lvl_11n_11ac_mcs1_5g'', [LvlV4 (LvlV4_11n_11ac_5g 1)]),
     (''lvl_11n_11ac_mcs2_5g'', [LvlV4 (LvlV4_11n_11ac_5g 2)]),
     (''lvl_11n_11ac_mcs3_5g'', [LvlV4 (LvlV4_11n_11ac_5g 3)]),
     (''lvl_11n_11ac_mcs4_5g'', [LvlV4 (LvlV4_11n_11ac_5g 4)]),
     (''lvl_11n_11ac_mcs5_5g'', [LvlV4 (LvlV4_11n_11ac_5g 5)]),
     (''lvl_11n_11ac_mcs6_5g'', [LvlV4 (LvlV4_11n_11ac_5g 6)]),
     (''lvl_11n_11ac_mcs7_5g'', [LvlV4 (LvlV4_11n_11ac_5g 7)]),
     (''lvl_11n_11ac_mcs8_5g'', [LvlV4 (LvlV4_11n_11ac_5g 8)]),
     (''lvl_11n_11ac_mcs9_5g'', [LvlV4 (LvlV4_11n_11ac_5g 9)]),
     (''lvl_11ax_mcs0_5g'', [LvlV4 (LvlV4_11ax_5g 0)]),
     (''lvl_11ax_mcs1_5g'', [LvlV4 (LvlV4_11ax_5g 1)]),
     (''lvl_11ax_mcs2_5g'', [LvlV4 (LvlV4_11ax_5g 2)]),
     (''lvl_11ax_mcs3_5g'', [LvlV4 (LvlV4_11ax_5g 3)]),
     (''lvl_11ax_mcs4_5g'', [LvlV4 (LvlV4_11ax_5g 4)]),
     (''lvl_11ax_mcs5_5g'', [LvlV4 (LvlV4_11ax_5g 5)]),
     (''lvl_11ax_mcs6_5g'', [LvlV4 (LvlV4_11ax_5g 6)]),
     (''lvl_11ax_mcs7_5g'', [LvlV4 (LvlV4_11ax_5g 7)]),
     (''lvl_11ax_mcs8_5g'', [LvlV4 (LvlV4_11ax_5g 8)]),
     (''lvl_11ax_mcs9_5g'', [LvlV4 (LvlV4_11ax_5g 9)]),
     (''lvl_11ax_mcs10_5g'', [LvlV4 (LvlV4_11ax_5g 10)]),
     (''lvl_11ax_mcs11_5g'', [LvlV4 (LvlV4_11ax_5g 11)])]"

definition nvram_v4_rest :: "(string \<times> entry list) list" where
  "nvram_v4_rest =
    [(''lvl_adj_enable'', [LvlAdj LvlAdj_enable]),
     (''lvl_adj_2g4_chan_1_4'', [LvlAdj (LvlAdj_2g4 0)]),
     (''lvl_adj_2g4_chan_5_9'', [LvlAdj (LvlAdj_2g4 1)]),
     (''lvl_adj_2g4_chan_10_13'', [LvlAdj (LvlAdj_2g4 2)]),
     (''lvl_adj_5g_chan_42'', [LvlAdj (LvlAdj_5g 0)]),
     (''lvl_adj_5g_chan_58'', [LvlAdj (LvlAdj_5g 1)]),
     (''lvl_adj_5g_chan_106'', [LvlAdj (LvlAdj_5g 2)]),
     (''lvl_adj_5g_chan_122'', [LvlAdj (LvlAdj_5g 3)]),
     (''lvl_adj_5g_chan_138'', [LvlAdj (LvlAdj_5g 4)]),
     (''lvl_adj_5g_chan_155'', [LvlAdj (LvlAdj_5g 5)]),
     (''loss_enable_2g4'', [Loss Loss_enable_2g4]),
     (''loss_value_2g4'', [Loss Loss_value_2g4]),
     (''loss_enable_5g'', [Loss Loss_enable_5g]),
     (''loss_value_5g'', [Loss Loss_value_5g]),
     (''ofst_enable'', [Ofst2xV2 Ofst2xV2_enable]),
     (''ofst_2g4_ant0_11b_chan_1_4'', [Ofst2xV2 (Ofst2xV2_2g4_ant0 0 0)]),
     (''ofst_2g4_ant0_11b_chan_5_9'', [Ofst2xV2 (Ofst2xV2_2g4_ant0 1 0)]),
     (''ofst_2g4_ant0_11b_chan_10_13'', [Ofst2xV2 (Ofst2xV2_2g4_ant0 2 0)]),
     (''ofst_2g4_ant0_ofdm_highrate_chan_1_4'', [Ofst2xV2 (Ofst2xV2_2g4_ant0 0 1)]),
     (''ofst_2g4_ant0_ofdm_highrate_chan_5_9'', [Ofst2xV2 (Ofst2xV2_2g4_ant0 1 1)]),
     (''ofst_2g4_ant0_ofdm_highrate_chan_10_13'', [Ofst2xV2 (Ofst2xV2_2g4_ant0 2 1)]),
     (''ofst_2g4_ant1_11b_chan_1_4'', [Ofst2xV2 (Ofst2xV2_2g4_ant1 0 0)]),
     (''ofst_2g4_ant1_11b_chan_5_9'', [Ofst2xV2 (Ofst2xV2_2g4_ant1 1 0)]),
     (''ofst_2g4_ant1_11b_chan_10_13'', [Ofst2xV2 (Ofst2xV2_2g4_ant1 2 0)]),
     (''ofst_2g4_ant1_ofdm_highrate_chan_1_4'', [Ofst2xV2 (Ofst2xV2_2g4_ant1 0 1)]),
     (''ofst_2g4_ant1_ofdm_highrate_chan_5_9'', [Ofst2xV2 (Ofst2xV2_2g4_ant1 1 1)]),
     (''ofst_2g4_ant1_ofdm_highrate_chan_10_13'', [Ofst2xV2 (Ofst2xV2_2g4_ant1 2 1)]),
     (''ofst_5g_ant0_ofdm_highrate_chan_42'', [Ofst2xV2 (Ofst2xV2_5g_ant0 0 0)]),
     (''ofst_5g_ant0_ofdm_highrate_chan_58'', [Ofst2xV2 (Ofst2xV2_5g_ant0 1 0)]),
     (''ofst_5g_ant0_ofdm_highrate_chan_106'', [Ofst2xV2 (Ofst2xV2_5g_ant0 2 0)]),
     (''ofst_5g_ant0_ofdm_highrate_chan_122'', [Ofst2xV2 (Ofst2xV2_5g_ant0 3 0)]),
     (''ofst_5g_ant0_ofdm_highrate_chan_138'', [Ofst2xV2 (Ofst2xV2_5g_ant0 4 0)]),
     (''ofst_5g_ant0_ofdm_highrate_chan_155'', [Ofst2xV2 (Ofst2xV2_5g_ant0 5 0)]),
     (''ofst_5g_ant1_ofdm_highrate_chan_42'', [Ofst2xV2 (Ofst2xV2_5g_ant1 0 0)]),
     (''ofst_5g_ant1_ofdm_highrate_chan_58'', [Ofst2xV2 (Ofst2xV2_5g_ant1 1 0)]),
     (''ofst_5g_ant1_ofdm_highrate_chan_106'', [Ofst2xV2 (Ofst2xV2_5g_ant1 2 0)]),
     (''ofst_5g_ant1_ofdm_highrate_chan_122'', [Ofst2xV2 (Ofst2xV2_5g_ant1 3 0)]),
     (''ofst_5g_ant1_ofdm_highrate_chan_138'', [Ofst2xV2 (Ofst2xV2_5g_ant1 4 0)]),
     (''ofst_5g_ant1_ofdm_highrate_chan_155'', [Ofst2xV2 (Ofst2xV2_5g_ant1 5 0)]),
     (''xtal_enable'', [Xtal Xtal_enable]),
     (''xtal_cap'', [Xtal Xtal_cap]),
     (''xtal_cap_fine'', [Xtal Xtal_cap_fine])]"

definition nvram_table_8800d80x2 :: "(string \<times> entry list) list" where
  "nvram_table_8800d80x2 = nvram_v4_lvl @ nvram_v4_rest"

text \<open>Characters as C reads them, and the string that a character array holds.\<close>

abbreviation (input) NUL :: char where "NUL \<equiv> CHR 0x00"

definition is_digit :: "char \<Rightarrow> bool" where
  "is_digit c \<longleftrightarrow> 48 \<le> (of_char c :: nat) \<and> (of_char c :: nat) \<le> 57"

definition cstr :: "string \<Rightarrow> string" where
  "cstr b = takeWhile (\<lambda>c. c \<noteq> NUL) b"

text \<open>
  \<open>rwnx_atoi\<close>: the arithmetic is that of \<open>int\<close>, which the kernel compiles to wrap around. A character that is no digit gives 0. \<open>strlen\<close> of an array
  without a terminator reads past it.
\<close>

fun atoi_loop :: "u32 \<Rightarrow> string \<Rightarrow> u32" where
  "atoi_loop r [] = r"
| "atoi_loop r (c # cs) = (if is_digit c then atoi_loop (r * 10 + (of_nat (of_char c) - 48)) cs else 0)"

definition rwnx_atoi :: "string \<Rightarrow> fault + u32" where
  "rwnx_atoi b =
     (case b of
        [] \<Rightarrow> Inl OutOfBounds
      | c # cs \<Rightarrow>
          let s = if c = CHR ''-'' then cs else b in
          if NUL \<notin> set s then Inl OutOfBounds
          else let r = atoi_loop 0 (cstr s) in Inr (if c = CHR ''-'' then - r else r))"

text \<open>\<open>rwnx_atoi2\<close> reads \<open>n\<close> characters behind the sign, or fewer if one is no digit.\<close>

fun atoi2_loop :: "nat \<Rightarrow> u32 \<Rightarrow> string \<Rightarrow> fault + u32" where
  "atoi2_loop 0 r cs = Inr r"
| "atoi2_loop (Suc n) r [] = Inl OutOfBounds"
| "atoi2_loop (Suc n) r (c # cs) = (if is_digit c then atoi2_loop n (r * 10 + (of_nat (of_char c) - 48)) cs else Inr 0)"

definition rwnx_atoi2 :: "string \<Rightarrow> nat \<Rightarrow> fault + u32" where
  "rwnx_atoi2 b n =
     (case b of
        [] \<Rightarrow> Inl OutOfBounds
      | c # cs \<Rightarrow> map_sum id (\<lambda>r. if c = CHR ''-'' then - r else r) (atoi2_loop n 0 (if c = CHR ''-'' then cs else b)))"

text \<open>The assignment converts the \<open>int\<close> to eight bits. An unknown command only prints a message.\<close>

fun set_entries :: "entry list \<Rightarrow> u8 \<Rightarrow> userconfig_info \<Rightarrow> fault + userconfig_info" where
  "set_entries [] v u = Inr u"
| "set_entries (e # es) v u = (case cfg_assign e v u of Inl f \<Rightarrow> Inl f | Inr u' \<Rightarrow> set_entries es v u')"

definition nvram_set :: "(string \<times> entry list) list \<Rightarrow> string \<Rightarrow> string \<Rightarrow> userconfig_info \<Rightarrow> fault + userconfig_info" where
  "nvram_set tab command value u =
     (case map_of tab (cstr command) of
        None \<Rightarrow> Inr u
      | Some es \<Rightarrow> (case rwnx_atoi value of Inl f \<Rightarrow> Inl f | Inr r \<Rightarrow> set_entries es (ucast r) u))"

definition rwnx_plat_nvram_set_value :: "string \<Rightarrow> string \<Rightarrow> userconfig_info \<Rightarrow> fault + userconfig_info" where
  "rwnx_plat_nvram_set_value = nvram_set nvram_table"

definition rwnx_plat_nvram_set_value_8800d80x2 :: "string \<Rightarrow> string \<Rightarrow> userconfig_info \<Rightarrow> fault + userconfig_info" where
  "rwnx_plat_nvram_set_value_8800d80x2 = nvram_set nvram_table_8800d80x2"

section \<open>The parser\<close>

datatype parse_state = INIT | CMD | PRINT | GET_VALUE

record uc_parser =
  ps_state :: parse_state
  ps_command :: string
  ps_value :: string
  ps_counter :: nat
  ps_conf :: userconfig_info

definition buf_put :: "string \<Rightarrow> nat \<Rightarrow> char \<Rightarrow> fault + string" where
  "buf_put b i c = (if i < length b then Inr (b[i := c]) else Inl OutOfBounds)"

text \<open>\<open>memset (command, 0, 64)\<close> and \<open>memset (value, 0, 100)\<close>: what an array has beyond them keeps its value.\<close>

definition clear :: "nat \<Rightarrow> string \<Rightarrow> string" where
  "clear n b = replicate n NUL @ drop n b"

definition is_eol :: "char \<Rightarrow> bool" where
  "is_eol c \<longleftrightarrow> c = CHR 0x0A \<or> c = CHR 0x0D"

type_synonym set_value = "string \<Rightarrow> string \<Rightarrow> userconfig_info \<Rightarrow> fault + userconfig_info"

text \<open>The body of the loop; \<open>setv\<close> is the function called for a setting. A line that begins with a number sign is only printed.\<close>

definition parse_eol :: "set_value \<Rightarrow> uc_parser \<Rightarrow> fault + uc_parser" where
  "parse_eol setv p =
     map_sum id (\<lambda>u. p\<lparr>ps_conf := u, ps_command := clear 64 (ps_command p), ps_value := clear 100 (ps_value p), ps_counter := 0, ps_state := INIT\<rparr>)
       (if ps_command p ! 0 \<noteq> NUL \<and> ps_value p ! 0 \<noteq> NUL \<and> ps_state p = GET_VALUE then setv (ps_command p) (ps_value p) (ps_conf p)
        else Inr (ps_conf p))"

definition fill_value :: "char \<Rightarrow> uc_parser \<Rightarrow> fault + uc_parser" where
  "fill_value c p = map_sum id (\<lambda>b. p\<lparr>ps_value := b, ps_counter := ps_counter p + 1\<rparr>) (buf_put (ps_value p) (ps_counter p) c)"

definition fill_command :: "char \<Rightarrow> uc_parser \<Rightarrow> fault + uc_parser" where
  "fill_command c p = map_sum id (\<lambda>b. p\<lparr>ps_command := b, ps_counter := ps_counter p + 1\<rparr>) (buf_put (ps_command p) (ps_counter p) c)"

definition parse_char :: "set_value \<Rightarrow> char \<Rightarrow> uc_parser \<Rightarrow> fault + uc_parser" where
  "parse_char setv c p =
     (if is_eol c then parse_eol setv p
      else if ps_state p = INIT \<and> c = CHR ''#'' then Inr (p\<lparr>ps_state := PRINT\<rparr>)
      else
        let p1 = if ps_state p = INIT then p\<lparr>ps_state := CMD\<rparr> else p in
        case ps_state p1 of
          PRINT \<Rightarrow> fill_value c (p1\<lparr>ps_command := (ps_command p1)[0 := CHR 0x01]\<rparr>)
        | CMD \<Rightarrow>
            if ps_command p1 ! 0 \<noteq> NUL \<and> c = CHR ''='' then Inr (p1\<lparr>ps_state := GET_VALUE, ps_counter := 0\<rparr>)
            else fill_command c p1
        | _ \<Rightarrow> if c \<noteq> CHR ''-'' \<and> \<not> is_digit c then Inr p1 else fill_value c p1)"

fun parse_chars :: "set_value \<Rightarrow> string \<Rightarrow> uc_parser \<Rightarrow> fault + uc_parser" where
  "parse_chars setv [] p = Inr p"
| "parse_chars setv (c # cs) p = (case parse_char setv c p of Inl f \<Rightarrow> Inl f | Inr p' \<Rightarrow> parse_chars setv cs p')"

definition rwnx_plat_userconfig_parsing :: "string \<Rightarrow> userconfig_info \<Rightarrow> fault + userconfig_info" where
  "rwnx_plat_userconfig_parsing buffer u =
     map_sum id ps_conf (parse_chars rwnx_plat_nvram_set_value buffer
       \<lparr>ps_state = INIT, ps_command = replicate 64 NUL, ps_value = replicate 100 NUL, ps_counter = 0, ps_conf = u\<rparr>)"

text \<open>The array of this parser has 100 characters, of which only the first 64 are cleared; \<open>stack\<close> is what the others hold at the start.\<close>

definition rwnx_plat_userconfig_parsing_8800d80x2 :: "string \<Rightarrow> string \<Rightarrow> userconfig_info \<Rightarrow> fault + userconfig_info" where
  "rwnx_plat_userconfig_parsing_8800d80x2 stack buffer u =
     map_sum id ps_conf (parse_chars rwnx_plat_nvram_set_value_8800d80x2 buffer
       \<lparr>ps_state = INIT, ps_command = replicate 64 NUL @ take 36 (stack @ replicate 36 NUL), ps_value = replicate 100 NUL, ps_counter = 0, ps_conf = u\<rparr>)"

section \<open>Reading the configuration\<close>

definition set_txpwr_loss_ofst :: "u8 \<Rightarrow> userconfig_info \<Rightarrow> userconfig_info" where
  "set_txpwr_loss_ofst v u =
     u\<lparr>uc_loss := \<lparr>loss_enable_2g4 = 1, loss_value_2g4 = - v, loss_enable_5g = 1, loss_value_5g = - v\<rparr>\<rparr>"

end
