(* ===== verification/PowerReq.thy ===== *)
theory PowerReq
  imports UserConfig
begin

text \<open>
  The requests that carry the user configuration to the firmware: the transmit power levels, adjustments and offsets and the calibration request of
  rwnx_msg_tx.c, the functions that send them when the radio is set up (aicwf_compat_8800d80.c, aicwf_compat_8800d80x2.c), and the power control by signal
  strength of rwnx_main.c (\<open>CONFIG_DYNAMIC_PWR\<close>).
\<close>

section \<open>Requests\<close>

datatype power_chip = AIC8801 | AIC8800DC | AIC8800DW | AIC8800D81 | AIC8800D81X2 | AIC8800D89X2

record mm_set_rf_calib_req =
  cal_cfg_24g :: u32
  cal_cfg_5g :: u32
  param_alpha :: u32
  bt_calib_en :: u32
  bt_calib_param :: u32
  calib_xtal_cap :: u8
  calib_xtal_cap_fine :: u8

record mm_set_rf_calib_req_v2 = mm_set_rf_calib_req +
  magic_num :: u32
  info_flag :: u32
  calib_flag :: u32

datatype power_msg =
    TxpwrIdx txpwr_lvl_conf
  | TxpwrLvl txpwr_lvl_conf
  | TxpwrLvlV2 txpwr_lvl_conf_v2
  | TxpwrLvlV3 txpwr_lvl_conf_v3
  | TxpwrLvlV4 txpwr_lvl_conf_v4
  | TxpwrLvlAdj txpwr_lvl_adj_conf
  | TxpwrOfst txpwr_ofst_conf
  | TxpwrOfst2x txpwr_ofst2x_conf
  | TxpwrOfst2xV2 txpwr_ofst2x_conf_v2
  | RfCalib mm_set_rf_calib_req
  | RfCalibV2 mm_set_rf_calib_req_v2
  | GetStaInfo nat

text \<open>
  How a call of \<open>rwnx_send_msg\<close> with a confirmation ends: the command queue took the message and the call returned 0 (confirmed, or deferred behind other
  commands), it took the message and no confirmation came in time, it refused the message because it had crashed or was full, or the device was down.
\<close>

datatype send_outcome = Confirmed | NoConfirmation | QueueCrashed | QueueFull | BusDown

text \<open>
  The parts of \<open>rwnx_hw\<close> and of the global state that the functions read, and what they do: \<open>ph_sent\<close> are the messages that the command queue took,
  \<open>ph_live\<close> counts those allocated and neither taken by the queue, which frees what it sends, nor freed. \<open>ph_allocs\<close> and \<open>ph_replies\<close> are the outcomes of
  the allocations and of the calls of \<open>rwnx_send_msg\<close> to come; behind their ends every allocation succeeds and every message is confirmed. \<open>ph_idx_conf\<close> and
  \<open>ph_ofst_conf\<close> are what the loader module answers for the first chip.
\<close>

record power_hw =
  ph_chip :: power_chip
  ph_testmode :: nat
  ph_chip_sub_id :: u8
  ph_conf :: userconfig_info
  ph_idx_conf :: txpwr_lvl_conf
  ph_ofst_conf :: txpwr_ofst_conf
  ph_allocs :: "bool list"
  ph_replies :: "send_outcome list"
  ph_sent :: "power_msg list"
  ph_live :: nat

abbreviation (input) ENOMEM :: int where "ENOMEM \<equiv> 12"
abbreviation (input) EPIPE :: int where "EPIPE \<equiv> 32"
abbreviation (input) ETIMEDOUT :: int where "ETIMEDOUT \<equiv> 110"

definition msg_zalloc :: "power_hw \<Rightarrow> bool \<times> power_hw" where
  "msg_zalloc p =
     (let ok = (case ph_allocs p of [] \<Rightarrow> True | a # as \<Rightarrow> a) in
      (ok, p\<lparr>ph_allocs := tl (ph_allocs p), ph_live := ph_live p + (if ok then 1 else 0)\<rparr>))"

definition msg_free :: "power_hw \<Rightarrow> power_hw" where
  "msg_free p = p\<lparr>ph_live := ph_live p - 1\<rparr>"

text \<open>
  \<open>rwnx_send_msg\<close>: when the device is down the message is freed and the result is 0. A refused command gives its slot back, but nothing frees the message.
\<close>

definition send_power_msg :: "power_msg \<Rightarrow> power_hw \<Rightarrow> int \<times> power_hw" where
  "send_power_msg m p =
     (let out = (case ph_replies p of [] \<Rightarrow> Confirmed | a # as \<Rightarrow> a);
          q = p\<lparr>ph_replies := tl (ph_replies p)\<rparr>;
          taken = q\<lparr>ph_sent := ph_sent q @ [m], ph_live := ph_live q - 1\<rparr> in
      case out of
        BusDown \<Rightarrow> (0, msg_free q)
      | QueueCrashed \<Rightarrow> (- EPIPE, q)
      | QueueFull \<Rightarrow> (- ENOMEM, q)
      | NoConfirmation \<Rightarrow> (- ETIMEDOUT, taken)
      | Confirmed \<Rightarrow> (0, taken))"

text \<open>The shape of all these functions: a message that the configuration does not enable is freed again.\<close>

definition send_if :: "bool \<Rightarrow> power_msg \<Rightarrow> power_hw \<Rightarrow> int \<times> power_hw" where
  "send_if enabled m p =
     (case msg_zalloc p of
        (False, p1) \<Rightarrow> (- ENOMEM, p1)
      | (True, p1) \<Rightarrow> if enabled then send_power_msg m p1 else (0, msg_free p1))"

text \<open>The subtraction of the loss from the elements 0 to \<open>n - 1\<close> of an array, in eight bits.\<close>

definition sub_loss :: "u8 \<Rightarrow> nat \<Rightarrow> u8 list \<Rightarrow> u8 list" where
  "sub_loss l n xs = fold (\<lambda>i xs. xs[i := xs ! i - l]) [0..<n] xs"

definition v2_loss :: "txpwr_loss_conf \<Rightarrow> txpwr_lvl_conf_v2 \<Rightarrow> txpwr_lvl_conf_v2" where
  "v2_loss l c =
     (if loss_enable_2g4 l = 1 then
        c\<lparr>v2_11b_11ag_2g4 := sub_loss (loss_value_2g4 l) 12 (v2_11b_11ag_2g4 c), v2_11n_11ac_2g4 := sub_loss (loss_value_2g4 l) 10 (v2_11n_11ac_2g4 c),
          v2_11ax_2g4 := sub_loss (loss_value_2g4 l) 12 (v2_11ax_2g4 c)\<rparr>
      else c)"

definition v3_loss :: "txpwr_loss_conf \<Rightarrow> txpwr_lvl_conf_v3 \<Rightarrow> txpwr_lvl_conf_v3" where
  "v3_loss l c =
     (let c1 = if loss_enable_2g4 l = 1 then
          c\<lparr>v3_11b_11ag_2g4 := sub_loss (loss_value_2g4 l) 12 (v3_11b_11ag_2g4 c), v3_11n_11ac_2g4 := sub_loss (loss_value_2g4 l) 10 (v3_11n_11ac_2g4 c),
            v3_11ax_2g4 := sub_loss (loss_value_2g4 l) 12 (v3_11ax_2g4 c)\<rparr>
        else c in
      if loss_enable_5g l = 1 then
        c1\<lparr>v3_11a_5g := sub_loss (loss_value_5g l) 12 (v3_11a_5g c1), v3_11n_11ac_5g := sub_loss (loss_value_5g l) 10 (v3_11n_11ac_5g c1),
          v3_11ax_5g := sub_loss (loss_value_5g l) 12 (v3_11ax_5g c1)\<rparr>
      else c1)"

definition v4_loss :: "txpwr_loss_conf \<Rightarrow> txpwr_lvl_conf_v4 \<Rightarrow> txpwr_lvl_conf_v4" where
  "v4_loss l c =
     (let c1 = if loss_enable_2g4 l = 1 then
          c\<lparr>v4_11b_11ag_2g4 := sub_loss (loss_value_2g4 l) 12 (v4_11b_11ag_2g4 c), v4_11n_11ac_2g4 := sub_loss (loss_value_2g4 l) 10 (v4_11n_11ac_2g4 c),
            v4_11ax_2g4 := sub_loss (loss_value_2g4 l) 12 (v4_11ax_2g4 c)\<rparr>
        else c in
      if loss_enable_5g l = 1 then
        c1\<lparr>v4_11a_5g := sub_loss (loss_value_5g l) 8 (v4_11a_5g c1), v4_11n_11ac_5g := sub_loss (loss_value_5g l) 10 (v4_11n_11ac_5g c1),
          v4_11ax_5g := sub_loss (loss_value_5g l) 12 (v4_11ax_5g c1)\<rparr>
      else c1)"

definition rwnx_send_txpwr_idx_req :: "power_hw \<Rightarrow> int \<times> power_hw" where
  "rwnx_send_txpwr_idx_req p = send_if True (TxpwrIdx (ph_idx_conf p)) p"

text \<open>The chip of the first revision outside the test mode knows only the old structure.\<close>

definition rwnx_send_txpwr_lvl_req :: "power_hw \<Rightarrow> int \<times> power_hw" where
  "rwnx_send_txpwr_lvl_req p =
     (let c = v2_loss (uc_loss (ph_conf p)) (uc_lvl_v2 (ph_conf p)) in
      send_if (v2_enable (uc_lvl_v2 (ph_conf p)) \<noteq> 0)
        (if ph_testmode p = 0 \<and> ph_chip_sub_id p = 0 then
           TxpwrLvl \<lparr>lvl_enable = v2_enable c, lvl_dsss = v2_11b_11ag_2g4 c ! 3, lvl_ofdmlowrate_2g4 = v2_11ax_2g4 c ! 4,
             lvl_ofdm64qam_2g4 = v2_11ax_2g4 c ! 7, lvl_ofdm256qam_2g4 = v2_11ax_2g4 c ! 9, lvl_ofdm1024qam_2g4 = v2_11ax_2g4 c ! 11,
             lvl_ofdmlowrate_5g = 13, lvl_ofdm64qam_5g = 13, lvl_ofdm256qam_5g = 13, lvl_ofdm1024qam_5g = 13\<rparr>
         else TxpwrLvlV2 c) p)"

definition rwnx_send_txpwr_lvl_v3_req :: "power_hw \<Rightarrow> int \<times> power_hw" where
  "rwnx_send_txpwr_lvl_v3_req p =
     (let c = v3_loss (uc_loss (ph_conf p)) (uc_lvl_v3 (ph_conf p)) in send_if (v3_enable c \<noteq> 0) (TxpwrLvlV3 c) p)"

definition rwnx_send_txpwr_lvl_v4_req :: "power_hw \<Rightarrow> int \<times> power_hw" where
  "rwnx_send_txpwr_lvl_v4_req p =
     (let c = v4_loss (uc_loss (ph_conf p)) (uc_lvl_v4 (ph_conf p)) in send_if (v4_enable c \<noteq> 0) (TxpwrLvlV4 c) p)"

definition rwnx_send_txpwr_lvl_adj_req :: "power_hw \<Rightarrow> int \<times> power_hw" where
  "rwnx_send_txpwr_lvl_adj_req p = send_if (adj_enable (uc_lvl_adj (ph_conf p)) \<noteq> 0) (TxpwrLvlAdj (uc_lvl_adj (ph_conf p))) p"

definition ofst_zero :: txpwr_ofst_conf where
  "ofst_zero = \<lparr>ofst_enable = 0, ofst_chan_1_4 = 0, ofst_chan_5_9 = 0, ofst_chan_10_13 = 0, ofst_chan_36_64 = 0, ofst_chan_100_120 = 0,
     ofst_chan_122_140 = 0, ofst_chan_142_165 = 0\<rparr>"

definition rwnx_send_txpwr_ofst_req :: "power_hw \<Rightarrow> int \<times> power_hw" where
  "rwnx_send_txpwr_ofst_req p =
     (let c = case ph_chip p of AIC8801 \<Rightarrow> ph_ofst_conf p | AIC8800DC \<Rightarrow> uc_ofst (ph_conf p) | AIC8800DW \<Rightarrow> uc_ofst (ph_conf p) | _ \<Rightarrow> ofst_zero in
      send_if (ofst_enable c \<noteq> 0) (TxpwrOfst c) p)"

definition rwnx_send_txpwr_ofst2x_req :: "power_hw \<Rightarrow> int \<times> power_hw" where
  "rwnx_send_txpwr_ofst2x_req p =
     (let c = if ph_chip p \<in> {AIC8800D81, AIC8800D81X2, AIC8800D89X2} then uc_ofst2x (ph_conf p)
              else \<lparr>ox_enable = 0, ox_2g4 = replicate 3 (replicate 3 0), ox_5g = replicate 3 (replicate 6 0)\<rparr> in
      send_if (ox_enable c \<noteq> 0) (TxpwrOfst2x c) p)"

definition rwnx_send_txpwr_ofst2x_v2_req :: "power_hw \<Rightarrow> int \<times> power_hw" where
  "rwnx_send_txpwr_ofst2x_v2_req p = send_if (oy_enable (uc_ofst2x_v2 (ph_conf p)) \<noteq> 0) (TxpwrOfst2xV2 (uc_ofst2x_v2 (ph_conf p))) p"

text \<open>The message of \<open>rwnx_send_rf_calib_req\<close>; \<open>RF_WRITE_FILE\<close> is not configured.\<close>

definition rf_calib_msg :: "power_chip \<Rightarrow> userconfig_info \<Rightarrow> power_msg" where
  "rf_calib_msg chip u =
     (let cfg = case chip of AIC8801 \<Rightarrow> (0xbf, 0x3f) | AIC8800DC \<Rightarrow> (0x0f8f, 0) | AIC8800DW \<Rightarrow> (0x0f8f, 0) | _ \<Rightarrow> (0x0f8f, 0x0f0f);
          x = uc_xtal u;
          cap = if xtal_enable x \<noteq> 0 then (xtal_cap x, xtal_cap_fine x) else (0, 0) in
      if chip \<in> {AIC8800D81X2, AIC8800D89X2} then
        RfCalibV2 \<lparr>cal_cfg_24g = fst cfg, cal_cfg_5g = snd cfg, param_alpha = 0x0c34c008, bt_calib_en = 0, bt_calib_param = 0x264203,
          calib_xtal_cap = fst cap, calib_xtal_cap_fine = snd cap, magic_num = 0x52435747, info_flag = 0, calib_flag = 0x4F\<rparr>
      else
        RfCalib \<lparr>cal_cfg_24g = fst cfg, cal_cfg_5g = snd cfg, param_alpha = 0x0c34c008, bt_calib_en = 0, bt_calib_param = 0x264203,
          calib_xtal_cap = fst cap, calib_xtal_cap_fine = snd cap\<rparr>)"

definition rwnx_send_rf_calib_req :: "power_hw \<Rightarrow> int \<times> power_hw" where
  "rwnx_send_rf_calib_req p = send_if True (rf_calib_msg (ph_chip p) (ph_conf p)) p"

section \<open>Setting up the radio\<close>

text \<open>\<open>if ((ret = a)) return -1;\<close> before the rest of a function.\<close>

definition chain :: "(power_hw \<Rightarrow> int \<times> power_hw) \<Rightarrow> (power_hw \<Rightarrow> int \<times> power_hw) \<Rightarrow> power_hw \<Rightarrow> int \<times> power_hw" where
  "chain a b p = (case a p of (r, p1) \<Rightarrow> if r \<noteq> 0 then (- 1, p1) else b p1)"

definition aicwf_set_rf_config_8800d80 :: "power_hw \<Rightarrow> int \<times> power_hw" where
  "aicwf_set_rf_config_8800d80 =
     chain rwnx_send_txpwr_lvl_v3_req (chain rwnx_send_txpwr_lvl_adj_req (chain rwnx_send_txpwr_ofst2x_req (chain rwnx_send_rf_calib_req (Pair 0))))"

definition aicwf_set_rf_config_8800d80x2 :: "power_hw \<Rightarrow> int \<times> power_hw" where
  "aicwf_set_rf_config_8800d80x2 =
     chain rwnx_send_txpwr_lvl_v4_req (chain rwnx_send_txpwr_lvl_adj_req (chain rwnx_send_txpwr_ofst2x_v2_req (chain rwnx_send_rf_calib_req (Pair 0))))"

text \<open>The branch of \<open>rwnx_ic_rf_init\<close> for the first chip.\<close>

definition rf_init_8801 :: "power_hw \<Rightarrow> int \<times> power_hw" where
  "rf_init_8801 p =
     chain rwnx_send_txpwr_idx_req (chain rwnx_send_txpwr_ofst_req
       (if ph_testmode p = 0 then chain rwnx_send_rf_calib_req (Pair 0) else Pair 0)) p"

section \<open>Loading the configuration\<close>

text \<open>\<open>rwnx_plat_userconfig_load_8800d80\<close>; \<open>file\<close> is the content of the file, if it was found. A missing or empty file is no error.\<close>

definition rwnx_plat_userconfig_load_8800d80 :: "string option \<Rightarrow> power_hw \<Rightarrow> fault + power_hw" where
  "rwnx_plat_userconfig_load_8800d80 file p =
     (case file of
        None \<Rightarrow> Inr p
      | Some s \<Rightarrow> if s = [] then Inr p else map_sum id (\<lambda>u. p\<lparr>ph_conf := u\<rparr>) (rwnx_plat_userconfig_parsing s (ph_conf p)))"

definition rwnx_plat_userconfig_load_8800d80x2 :: "string \<Rightarrow> string option \<Rightarrow> power_hw \<Rightarrow> fault + power_hw" where
  "rwnx_plat_userconfig_load_8800d80x2 stack file p =
     (case file of
        None \<Rightarrow> Inr p
      | Some s \<Rightarrow> if s = [] then Inr p else map_sum id (\<lambda>u. p\<lparr>ph_conf := u\<rparr>) (rwnx_plat_userconfig_parsing_8800d80x2 stack s (ph_conf p)))"

section \<open>Power control by signal strength\<close>

definition set_txpwrloss_ctrl :: "int \<Rightarrow> power_hw \<Rightarrow> power_hw" where
  "set_txpwrloss_ctrl v p =
     (let p1 = p\<lparr>ph_conf := set_txpwr_loss_ofst (word_of_int v) (ph_conf p)\<rparr> in
      case ph_chip p of
        AIC8800DC \<Rightarrow> snd (rwnx_send_txpwr_lvl_req p1)
      | AIC8800DW \<Rightarrow> snd (rwnx_send_txpwr_lvl_req p1)
      | AIC8800D81 \<Rightarrow> snd (rwnx_send_txpwr_lvl_v3_req p1)
      | AIC8800D81X2 \<Rightarrow> snd (rwnx_send_txpwr_lvl_v4_req p1)
      | AIC8800D89X2 \<Rightarrow> snd (rwnx_send_txpwr_lvl_v4_req p1)
      | AIC8801 \<Rightarrow> p1)"

datatype conn_state = DISCONNECTED | DISCONNECTING | CONNECTING | CONNECTED | ROAMING

record pwrloss =
  pl_hw :: power_hw
  pl_dynamic_pwr :: bool
  pl_lvl :: int
  pl_sta_idx :: nat
  pl_timer :: bool

text \<open>The level of a signal strength: \<open>PWR_LOSS_LVL0\<close> to \<open>PWR_LOSS_LVL3\<close> by the thresholds of rwnx_main.h.\<close>

definition loss_level :: "int \<Rightarrow> int" where
  "loss_level rssi = (if rssi > - 20 then - 10 else if rssi > - 30 then - 5 else if rssi > - 75 then 0 else 0)"

definition set_level :: "int \<Rightarrow> pwrloss \<Rightarrow> pwrloss" where
  "set_level l w = (if pl_lvl w \<noteq> l then w\<lparr>pl_hw := set_txpwrloss_ctrl l (pl_hw w), pl_lvl := l\<rparr> else w)"

text \<open>
  \<open>aicwf_pwrloss_worker\<close>: \<open>rssi\<close> is the byte in the structure for the confirmation, what was on the stack when the device was down. The worker runs because the timer has expired; it is set again at the end, but not when the
  request for the signal strength failed.
\<close>

definition aicwf_pwrloss_worker :: "conn_state \<Rightarrow> u8 \<Rightarrow> pwrloss \<Rightarrow> pwrloss" where
  "aicwf_pwrloss_worker conn rssi w0 =
     (let w = w0\<lparr>pl_timer := False\<rparr> in
      if \<not> pl_dynamic_pwr w then
        (if pl_lvl w \<noteq> 0 then w\<lparr>pl_hw := set_txpwrloss_ctrl 0 (pl_hw w)\<rparr> else w)\<lparr>pl_timer := True\<rparr>
      else
        case conn of
          CONNECTED \<Rightarrow>
            (case send_if True (GetStaInfo (pl_sta_idx w)) (pl_hw w) of
               (r, p) \<Rightarrow> if r < 0 then w\<lparr>pl_hw := p\<rparr> else (set_level (loss_level (sint rssi)) (w\<lparr>pl_hw := p\<rparr>))\<lparr>pl_timer := True\<rparr>)
        | DISCONNECTED \<Rightarrow> (set_level 0 w)\<lparr>pl_timer := True\<rparr>
        | _ \<Rightarrow> w\<lparr>pl_timer := True\<rparr>)"

end
