(* ===== verification/ConfigStore.thy ===== *)
theory ConfigStore
  imports UserConfig
begin

text \<open>
  The user configuration as a store of entries. An entry of an array is a place of it that exists; an assignment to an entry changes this one and no
  other, and it keeps the arrays. These are the laws of the locale \<open>field_store\<close>, in which the value of an entry after a series of assignments is the
  last one made to it. Its interpretation \<open>config\<close> is the structure \<open>userconfig_info\<close>.
\<close>

section \<open>Stores of entries\<close>

locale field_store =
  fixes get :: "'e \<Rightarrow> 's \<Rightarrow> 'v"
    and put :: "'e \<Rightarrow> 'v \<Rightarrow> 's \<Rightarrow> 's"
    and ok :: "'e \<Rightarrow> 's \<Rightarrow> bool"
  assumes get_put: "ok e s \<Longrightarrow> get e (put e' v s) = (if e = e' then v else get e s)"
    and ok_put: "ok e (put e' v s) \<longleftrightarrow> ok e s"
begin

lemma ok_puts: "ok e (fold (\<lambda>e. put e v) es s) \<longleftrightarrow> ok e s"
  by (induction es arbitrary: s) (simp_all add: ok_put)

lemma get_puts: "ok e s \<Longrightarrow> get e (fold (\<lambda>e. put e v) es s) = (if e \<in> set es then v else get e s)"
proof (induction es arbitrary: s)
  case (Cons a es)
  have "ok e (put a v s)" using Cons.prems by (simp add: ok_put)
  from Cons.IH [OF this] get_put [OF Cons.prems, of a v] show ?case by auto
qed simp

lemma ok_assigns: "ok e (fold (\<lambda>(es, v). fold (\<lambda>e. put e v) es) as s) \<longleftrightarrow> ok e s"
proof (induction as arbitrary: s)
  case (Cons a as)
  show ?case using Cons.IH [of "fold (\<lambda>e. put e (snd a)) (fst a) s"] by (simp add: case_prod_unfold ok_puts)
qed simp

lemma get_assigns:
  "ok e s \<Longrightarrow> get e (fold (\<lambda>(es, v). fold (\<lambda>e. put e v) es) as s) =
     (case find (\<lambda>(es, v). e \<in> set es) (rev as) of None \<Rightarrow> get e s | Some (es, v) \<Rightarrow> v)"
proof (induction as rule: rev_induct)
  case (snoc a as)
  obtain es v where a: "a = (es, v)" by (cases a)
  let ?t = "fold (\<lambda>(es, v). fold (\<lambda>e. put e v) es) as s"
  have "get e (fold (\<lambda>(es, v). fold (\<lambda>e. put e v) es) (as @ [a]) s) = get e (fold (\<lambda>e. put e v) es ?t)" by (simp add: a)
  also have "\<dots> = (if e \<in> set es then v else get e ?t)" using snoc.prems by (intro get_puts) (simp add: ok_assigns)
  finally show ?case using snoc by (simp add: a)
qed simp

end

section \<open>The entries of the configuration\<close>

lemma grid_update_nth:
  "\<lbrakk>i < length g; j < length (g ! i)\<rbrakk> \<Longrightarrow> g[a := (g ! a)[b := v]] ! i ! j = (if i = a \<and> j = b then v else g ! i ! j)"
  by (cases "i = a") simp_all

lemma grid_update_length: "i < length g \<Longrightarrow> length (g[a := (g ! a)[b := v]] ! i) = length (g ! i)"
  by (cases "i = a") simp_all

fun v2_ok :: "v2_entry \<Rightarrow> txpwr_lvl_conf_v2 \<Rightarrow> bool" where
  "v2_ok LvlV2_enable c \<longleftrightarrow> True"
| "v2_ok (LvlV2_11b_11ag_2g4 i) c \<longleftrightarrow> i < length (v2_11b_11ag_2g4 c)"
| "v2_ok (LvlV2_11n_11ac_2g4 i) c \<longleftrightarrow> i < length (v2_11n_11ac_2g4 c)"
| "v2_ok (LvlV2_11ax_2g4 i) c \<longleftrightarrow> i < length (v2_11ax_2g4 c)"

fun v3_ok :: "v3_entry \<Rightarrow> txpwr_lvl_conf_v3 \<Rightarrow> bool" where
  "v3_ok LvlV3_enable c \<longleftrightarrow> True"
| "v3_ok (LvlV3_11b_11ag_2g4 i) c \<longleftrightarrow> i < length (v3_11b_11ag_2g4 c)"
| "v3_ok (LvlV3_11n_11ac_2g4 i) c \<longleftrightarrow> i < length (v3_11n_11ac_2g4 c)"
| "v3_ok (LvlV3_11ax_2g4 i) c \<longleftrightarrow> i < length (v3_11ax_2g4 c)"
| "v3_ok (LvlV3_11a_5g i) c \<longleftrightarrow> i < length (v3_11a_5g c)"
| "v3_ok (LvlV3_11n_11ac_5g i) c \<longleftrightarrow> i < length (v3_11n_11ac_5g c)"
| "v3_ok (LvlV3_11ax_5g i) c \<longleftrightarrow> i < length (v3_11ax_5g c)"

fun v4_ok :: "v4_entry \<Rightarrow> txpwr_lvl_conf_v4 \<Rightarrow> bool" where
  "v4_ok LvlV4_enable c \<longleftrightarrow> True"
| "v4_ok (LvlV4_11b_11ag_2g4 i) c \<longleftrightarrow> i < length (v4_11b_11ag_2g4 c)"
| "v4_ok (LvlV4_11n_11ac_2g4 i) c \<longleftrightarrow> i < length (v4_11n_11ac_2g4 c)"
| "v4_ok (LvlV4_11ax_2g4 i) c \<longleftrightarrow> i < length (v4_11ax_2g4 c)"
| "v4_ok (LvlV4_11a_5g i) c \<longleftrightarrow> i < length (v4_11a_5g c)"
| "v4_ok (LvlV4_11n_11ac_5g i) c \<longleftrightarrow> i < length (v4_11n_11ac_5g c)"
| "v4_ok (LvlV4_11ax_5g i) c \<longleftrightarrow> i < length (v4_11ax_5g c)"
| "v4_ok (LvlV4_11a_6g i) c \<longleftrightarrow> i < length (v4_11a_6g c)"
| "v4_ok (LvlV4_11n_11ac_6g i) c \<longleftrightarrow> i < length (v4_11n_11ac_6g c)"
| "v4_ok (LvlV4_11ax_6g i) c \<longleftrightarrow> i < length (v4_11ax_6g c)"

fun adj_ok :: "adj_entry \<Rightarrow> txpwr_lvl_adj_conf \<Rightarrow> bool" where
  "adj_ok LvlAdj_enable c \<longleftrightarrow> True"
| "adj_ok (LvlAdj_2g4 i) c \<longleftrightarrow> i < length (adj_2g4 c)"
| "adj_ok (LvlAdj_5g i) c \<longleftrightarrow> i < length (adj_5g c)"

fun ox_ok :: "ox_entry \<Rightarrow> txpwr_ofst2x_conf \<Rightarrow> bool" where
  "ox_ok Ofst2x_enable c \<longleftrightarrow> True"
| "ox_ok (Ofst2x_2g4 i j) c \<longleftrightarrow> i < length (ox_2g4 c) \<and> j < length (ox_2g4 c ! i)"
| "ox_ok (Ofst2x_5g i j) c \<longleftrightarrow> i < length (ox_5g c) \<and> j < length (ox_5g c ! i)"

fun oy_ok :: "oy_entry \<Rightarrow> txpwr_ofst2x_conf_v2 \<Rightarrow> bool" where
  "oy_ok Ofst2xV2_enable c \<longleftrightarrow> True"
| "oy_ok Ofst2xV2_pwrofst_flags c \<longleftrightarrow> True"
| "oy_ok (Ofst2xV2_2g4_ant0 i j) c \<longleftrightarrow> i < length (oy_2g4_ant0 c) \<and> j < length (oy_2g4_ant0 c ! i)"
| "oy_ok (Ofst2xV2_2g4_ant1 i j) c \<longleftrightarrow> i < length (oy_2g4_ant1 c) \<and> j < length (oy_2g4_ant1 c ! i)"
| "oy_ok (Ofst2xV2_5g_ant0 i j) c \<longleftrightarrow> i < length (oy_5g_ant0 c) \<and> j < length (oy_5g_ant0 c ! i)"
| "oy_ok (Ofst2xV2_5g_ant1 i j) c \<longleftrightarrow> i < length (oy_5g_ant1 c) \<and> j < length (oy_5g_ant1 c ! i)"
| "oy_ok (Ofst2xV2_6g_ant0 i) c \<longleftrightarrow> i < length (oy_6g_ant0 c)"
| "oy_ok (Ofst2xV2_6g_ant1 i) c \<longleftrightarrow> i < length (oy_6g_ant1 c)"

fun cfg_ok :: "entry \<Rightarrow> userconfig_info \<Rightarrow> bool" where
  "cfg_ok (Lvl e) u \<longleftrightarrow> True"
| "cfg_ok (LvlV2 e) u \<longleftrightarrow> v2_ok e (uc_lvl_v2 u)"
| "cfg_ok (LvlV3 e) u \<longleftrightarrow> v3_ok e (uc_lvl_v3 u)"
| "cfg_ok (LvlV4 e) u \<longleftrightarrow> v4_ok e (uc_lvl_v4 u)"
| "cfg_ok (LvlAdj e) u \<longleftrightarrow> adj_ok e (uc_lvl_adj u)"
| "cfg_ok (Loss e) u \<longleftrightarrow> True"
| "cfg_ok (Ofst e) u \<longleftrightarrow> True"
| "cfg_ok (Ofst2x e) u \<longleftrightarrow> ox_ok e (uc_ofst2x u)"
| "cfg_ok (Ofst2xV2 e) u \<longleftrightarrow> oy_ok e (uc_ofst2x_v2 u)"
| "cfg_ok (Xtal e) u \<longleftrightarrow> True"

lemma lvl_put_get [simp]: "lvl_get e (lvl_put e' v c) = (if e = e' then v else lvl_get e c)"
  by (cases e; cases e') simp_all

lemma v2_put_get [simp]: "v2_ok e c \<Longrightarrow> v2_get e (v2_put e' v c) = (if e = e' then v else v2_get e c)"
  by (cases e; cases e') (simp_all add: nth_list_update)

lemma v2_put_ok [simp]: "v2_ok e (v2_put e' v c) \<longleftrightarrow> v2_ok e c"
  by (cases e; cases e') (simp_all add: nth_list_update cong: conj_cong)

lemma v3_put_get [simp]: "v3_ok e c \<Longrightarrow> v3_get e (v3_put e' v c) = (if e = e' then v else v3_get e c)"
  by (cases e; cases e') (simp_all add: nth_list_update)

lemma v3_put_ok [simp]: "v3_ok e (v3_put e' v c) \<longleftrightarrow> v3_ok e c"
  by (cases e; cases e') (simp_all add: nth_list_update cong: conj_cong)

lemma v4_put_get [simp]: "v4_ok e c \<Longrightarrow> v4_get e (v4_put e' v c) = (if e = e' then v else v4_get e c)"
  by (cases e; cases e') (simp_all add: nth_list_update)

lemma v4_put_ok [simp]: "v4_ok e (v4_put e' v c) \<longleftrightarrow> v4_ok e c"
  by (cases e; cases e') (simp_all add: nth_list_update cong: conj_cong)

lemma adj_put_get [simp]: "adj_ok e c \<Longrightarrow> adj_get e (adj_put e' v c) = (if e = e' then v else adj_get e c)"
  by (cases e; cases e') (simp_all add: nth_list_update)

lemma adj_put_ok [simp]: "adj_ok e (adj_put e' v c) \<longleftrightarrow> adj_ok e c"
  by (cases e; cases e') (simp_all add: nth_list_update cong: conj_cong)

lemma loss_put_get [simp]: "loss_get e (loss_put e' v c) = (if e = e' then v else loss_get e c)"
  by (cases e; cases e') simp_all

lemma ofst_put_get [simp]: "ofst_get e (ofst_put e' v c) = (if e = e' then v else ofst_get e c)"
  by (cases e; cases e') simp_all

lemma ox_put_get [simp]: "ox_ok e c \<Longrightarrow> ox_get e (ox_put e' v c) = (if e = e' then v else ox_get e c)"
  by (cases e; cases e') (simp_all add: grid_update_nth)

lemma ox_put_ok [simp]: "ox_ok e (ox_put e' v c) \<longleftrightarrow> ox_ok e c"
  by (cases e; cases e') (simp_all add: grid_update_length cong: conj_cong)

lemma oy_put_get [simp]: "oy_ok e c \<Longrightarrow> oy_get e (oy_put e' v c) = (if e = e' then v else oy_get e c)"
  by (cases e; cases e') (simp_all add: grid_update_nth nth_list_update)

lemma oy_put_ok [simp]: "oy_ok e (oy_put e' v c) \<longleftrightarrow> oy_ok e c"
  by (cases e; cases e') (simp_all add: grid_update_length cong: conj_cong)

lemma xtal_put_get [simp]: "xtal_get e (xtal_put e' v c) = (if e = e' then v else xtal_get e c)"
  by (cases e; cases e') simp_all

lemma cfg_put_get: "cfg_ok e u \<Longrightarrow> cfg_get e (cfg_put e' v u) = (if e = e' then v else cfg_get e u)"
  by (cases e; cases e') simp_all

lemma cfg_put_ok: "cfg_ok e (cfg_put e' v u) \<longleftrightarrow> cfg_ok e u"
  by (cases e; cases e') simp_all

interpretation config: field_store cfg_get cfg_put cfg_ok
  by unfold_locales (simp_all add: cfg_put_get cfg_put_ok)

section \<open>The arrays of the configuration\<close>

text \<open>A configuration with the dimensions of its declaration has every entry that the declaration has; every assignment keeps them.\<close>

definition well_dimensioned :: "userconfig_info \<Rightarrow> bool" where
  "well_dimensioned u \<longleftrightarrow> (\<forall>e. in_range e \<longleftrightarrow> cfg_ok e u)"

lemma well_dimensioned_put [simp]: "well_dimensioned (cfg_put e v u) \<longleftrightarrow> well_dimensioned u"
  by (simp add: well_dimensioned_def cfg_put_ok)

lemma well_dimensioned_default: "well_dimensioned userconfig_default"
proof -
  have "v2_in_range e \<longleftrightarrow> v2_ok e v2_default" for e by (cases e) (simp_all add: v2_default_def numeral_eq_Suc)
  moreover have "v3_in_range e \<longleftrightarrow> v3_ok e v3_default" for e by (cases e) (simp_all add: v3_default_def numeral_eq_Suc)
  moreover have "v4_in_range e \<longleftrightarrow> v4_ok e v4_default" for e by (cases e) (simp_all add: v4_default_def numeral_eq_Suc)
  moreover have "adj_in_range e \<longleftrightarrow> adj_ok e adj_default" for e by (cases e) (simp_all add: adj_default_def)
  moreover have "ox_in_range e \<longleftrightarrow> ox_ok e ox_default" for e by (cases e) (simp_all add: ox_default_def cong: conj_cong)
  moreover have "oy_in_range e \<longleftrightarrow> oy_ok e oy_default" for e by (cases e) (simp_all add: oy_default_def cong: conj_cong)
  moreover have "in_range e \<longleftrightarrow> cfg_ok e userconfig_default" for e by (cases e) (simp_all add: userconfig_default_def calculation)
  ultimately show ?thesis by (simp add: well_dimensioned_def)
qed

text \<open>The entries of a branch are assigned one after the other; when all are in range that is a fold.\<close>

lemma set_entries_fold: "list_all in_range es \<Longrightarrow> set_entries es v u = Inr (fold (\<lambda>e. cfg_put e v) es u)"
  by (induction es arbitrary: u) (simp_all add: cfg_assign_def)

lemma set_entries_dimensions: "\<lbrakk>set_entries es v u = Inr u'; well_dimensioned u\<rbrakk> \<Longrightarrow> well_dimensioned u'"
  by (induction es arbitrary: u) (auto simp: cfg_assign_def split: if_splits)

text \<open>Every entry that a branch of the two functions assigns is in range.\<close>

definition table_in_range :: "(string \<times> entry list) list \<Rightarrow> bool" where
  "table_in_range tab \<longleftrightarrow> list_all (\<lambda>(c, es). list_all in_range es) tab"

lemma table_in_range_entries: "\<lbrakk>table_in_range tab; map_of tab c = Some es\<rbrakk> \<Longrightarrow> list_all in_range es"
  by (auto simp: table_in_range_def list_all_iff dest!: map_of_SomeD)

lemma nvram_tables_in_range: "table_in_range nvram_table" "table_in_range nvram_table_8800d80x2"
  by code_simp+

end
