(* ===== verification/ConfigSpec.thy ===== *)
theory ConfigSpec
  imports ConfigStore
begin

text \<open>
  What the configuration file means. The reference reading takes the text line by line: a line that begins with a number sign is a comment, another
  line is a command, an equals sign and a value, of which only digits and minus signs count, and a line that no line end closes is no setting. The
  parsers of rwnx_platform.c, which fill two character arrays one character at a time, read every text whose lines fit in the arrays the same way; the
  function that sets a value is the interface \<open>value_setter\<close>, with the two chips as its interpretations.
\<close>

section \<open>The reference reading\<close>

fun text_lines :: "string \<Rightarrow> string list" where
  "text_lines [] = [[]]"
| "text_lines (c # cs) = (if is_eol c then [] # text_lines cs else case text_lines cs of [] \<Rightarrow> [[c]] | l # ls \<Rightarrow> (c # l) # ls)"

definition value_chars :: "string \<Rightarrow> string" where
  "value_chars = filter (\<lambda>c. c = CHR ''-'' \<or> is_digit c)"

definition line_setting :: "string \<Rightarrow> (string \<times> string) option" where
  "line_setting l =
     (case l of
        [] \<Rightarrow> None
      | c # cs \<Rightarrow>
          let v = value_chars (dropWhile (\<lambda>x. x \<noteq> CHR ''='') cs) in
          if c = CHR ''#'' \<or> v = [] then None else Some (c # takeWhile (\<lambda>x. x \<noteq> CHR ''='') cs, v))"

definition line_fits :: "string \<Rightarrow> bool" where
  "line_fits l =
     (case l of
        [] \<Rightarrow> True
      | c # cs \<Rightarrow>
          if c = CHR ''#'' then length cs < 100
          else length (takeWhile (\<lambda>x. x \<noteq> CHR ''='') cs) < 63 \<and> length (value_chars (dropWhile (\<lambda>x. x \<noteq> CHR ''='') cs)) < 100)"

definition text_fits :: "string \<Rightarrow> bool" where
  "text_fits s \<longleftrightarrow> NUL \<notin> set s \<and> list_all line_fits (text_lines s)"

definition decimal :: "string \<Rightarrow> int" where
  "decimal ds = foldl (\<lambda>r c. r * 10 + (of_char c - 48)) 0 ds"

definition config_value :: "string \<Rightarrow> int" where
  "config_value v =
     (if v \<noteq> [] \<and> hd v = CHR ''-'' then if list_all is_digit (tl v) then - decimal (tl v) else 0
      else if list_all is_digit v then decimal v else 0)"

definition assign_command :: "(string \<times> entry list) list \<Rightarrow> string \<Rightarrow> string \<Rightarrow> userconfig_info \<Rightarrow> userconfig_info" where
  "assign_command tab c v u = (case map_of tab c of None \<Rightarrow> u | Some es \<Rightarrow> fold (\<lambda>e. cfg_put e (word_of_int (config_value v))) es u)"

definition apply_line :: "(string \<Rightarrow> string \<Rightarrow> userconfig_info \<Rightarrow> userconfig_info) \<Rightarrow> string \<Rightarrow> userconfig_info \<Rightarrow> userconfig_info" where
  "apply_line assign l u = (case line_setting l of None \<Rightarrow> u | Some (c, v) \<Rightarrow> assign c v u)"

definition read_config :: "(string \<times> entry list) list \<Rightarrow> string \<Rightarrow> userconfig_info \<Rightarrow> userconfig_info" where
  "read_config tab s u = fold (apply_line (assign_command tab)) (butlast (text_lines s)) u"

lemma text_lines_no_eol: "\<forall>c\<in>set s. \<not> is_eol c \<Longrightarrow> text_lines s = [s]"
  by (induction s) auto

lemma text_lines_eol: "\<lbrakk>\<forall>c\<in>set l. \<not> is_eol c; is_eol c\<rbrakk> \<Longrightarrow> text_lines (l @ c # t) = l # text_lines t"
  by (induction l) auto

lemma text_lines_ne [simp]: "text_lines s \<noteq> []"
  by (induction s) (auto split: list.split)

section \<open>Numbers\<close>

lemma atoi_loop_decimal:
  "atoi_loop (word_of_int r) ds =
     (if list_all is_digit ds then word_of_int (foldl (\<lambda>r c. r * 10 + (of_char c - 48)) r ds) else 0)"
proof (induction ds arbitrary: r)
  case (Cons c ds)
  have step: "(word_of_int r :: u32) * 10 + (of_nat (of_char c) - 48) = word_of_int (r * 10 + (of_char c - 48))"
    by (simp add: of_int_of_char of_nat_of_char)
  show ?case unfolding atoi_loop.simps step Cons.IH by simp
qed simp

lemma atoi_loop_0: "atoi_loop 0 ds = (if list_all is_digit ds then word_of_int (decimal ds) else 0)"
  using atoi_loop_decimal [of 0 ds] by (simp add: decimal_def)

lemma cstr_terminated [simp]: "NUL \<notin> set v \<Longrightarrow> cstr (v @ NUL # y) = v"
  by (induction v) (auto simp: cstr_def)

lemma rwnx_atoi_value: "\<lbrakk>NUL \<notin> set v; v \<noteq> []\<rbrakk> \<Longrightarrow> rwnx_atoi (v @ NUL # y) = Inr (word_of_int (config_value v))"
proof (cases v)
  case (Cons c ds)
  assume n: "NUL \<notin> set v"
  have "cstr (c # ds @ NUL # y) = c # ds" using cstr_terminated [OF n, of y] Cons by simp
  then show ?thesis using n Cons by (simp add: rwnx_atoi_def config_value_def atoi_loop_0 Let_def)
qed simp

section \<open>The parsers read lines\<close>

lemma parse_chars_append:
  "parse_chars setv (xs @ ys) p = (case parse_chars setv xs p of Inl f \<Rightarrow> Inl f | Inr p' \<Rightarrow> parse_chars setv ys p')"
  by (induction xs arbitrary: p) (simp_all split: sum.split)

definition at_start :: "uc_parser \<Rightarrow> userconfig_info \<Rightarrow> bool" where
  "at_start p u \<longleftrightarrow> ps_state p = INIT \<and> ps_counter p = 0 \<and> ps_conf p = u \<and> take 64 (ps_command p) = replicate 64 NUL \<and> ps_value p = replicate 100 NUL"

lemma parse_print:
  "\<lbrakk>ps_state p = PRINT; \<forall>c\<in>set cs. \<not> is_eol c; ps_counter p + length cs \<le> length (ps_value p)\<rbrakk> \<Longrightarrow>
   \<exists>p'. parse_chars setv cs p = Inr p' \<and> ps_state p' = PRINT \<and> ps_conf p' = ps_conf p \<and> length (ps_value p') = length (ps_value p)"
proof (induction cs arbitrary: p)
  case (Cons c cs)
  let ?q = "p\<lparr>ps_command := (ps_command p)[0 := CHR 0x01], ps_value := (ps_value p)[ps_counter p := c], ps_counter := ps_counter p + 1\<rparr>"
  have "parse_char setv c p = Inr ?q" using Cons.prems by (simp add: parse_char_def fill_value_def buf_put_def)
  moreover have "\<exists>p'. parse_chars setv cs ?q = Inr p' \<and> ps_state p' = PRINT \<and> ps_conf p' = ps_conf ?q \<and> length (ps_value p') = length (ps_value ?q)"
    using Cons.prems by (intro Cons.IH) simp_all
  ultimately show ?case by simp
qed simp

lemma put_next: "(x @ replicate (Suc n) NUL @ j)[length x := c] = (x @ [c]) @ replicate n NUL @ j"
  by (simp add: list_update_append)

lemma parse_command:
  "\<lbrakk>ps_state p = CMD; ps_command p = x @ replicate n NUL @ j; x \<noteq> []; hd x \<noteq> NUL; ps_counter p = length x;
    \<forall>c\<in>set cs. \<not> is_eol c \<and> c \<noteq> CHR ''=''; length cs \<le> n\<rbrakk> \<Longrightarrow>
   parse_chars setv cs p = Inr (p\<lparr>ps_command := x @ cs @ replicate (n - length cs) NUL @ j, ps_counter := length x + length cs\<rparr>)"
proof (induction cs arbitrary: p x n)
  case (Cons c cs)
  then obtain m where n: "n = Suc m" by (cases n) auto
  let ?q = "p\<lparr>ps_command := (x @ [c]) @ replicate m NUL @ j, ps_counter := length (x @ [c])\<rparr>"
  have "parse_char setv c p = Inr ?q"
    using Cons.prems put_next [of x m j c] by (simp add: parse_char_def fill_command_def buf_put_def n)
  moreover have "parse_chars setv cs ?q =
      Inr (?q\<lparr>ps_command := (x @ [c]) @ cs @ replicate (m - length cs) NUL @ j, ps_counter := length (x @ [c]) + length cs\<rparr>)"
    using Cons.prems by (intro Cons.IH) (simp_all add: n)
  ultimately show ?case by (simp add: n)
qed simp

lemma parse_value:
  "\<lbrakk>ps_state p = GET_VALUE; ps_value p = x @ replicate n NUL; ps_counter p = length x; \<forall>c\<in>set cs. \<not> is_eol c; length (value_chars cs) \<le> n\<rbrakk> \<Longrightarrow>
   parse_chars setv cs p =
     Inr (p\<lparr>ps_value := x @ value_chars cs @ replicate (n - length (value_chars cs)) NUL, ps_counter := length x + length (value_chars cs)\<rparr>)"
proof (induction cs arbitrary: p x n)
  case (Cons c cs)
  show ?case
  proof (cases "c = CHR ''-'' \<or> is_digit c")
    case True
    then obtain m where n: "n = Suc m" using Cons.prems by (cases n) (auto simp: value_chars_def)
    let ?q = "p\<lparr>ps_value := (x @ [c]) @ replicate m NUL, ps_counter := length (x @ [c])\<rparr>"
    have "parse_char setv c p = Inr ?q"
      using Cons.prems True put_next [of x m "[]" c] by (auto simp: parse_char_def fill_value_def buf_put_def n)
    moreover have "parse_chars setv cs ?q =
        Inr (?q\<lparr>ps_value := (x @ [c]) @ value_chars cs @ replicate (m - length (value_chars cs)) NUL, ps_counter := length (x @ [c]) + length (value_chars cs)\<rparr>)"
      using Cons.prems True by (intro Cons.IH) (auto simp: n value_chars_def)
    ultimately show ?thesis using True by (simp add: n value_chars_def)
  next
    case False
    then have "parse_char setv c p = Inr p" using Cons.prems by (simp add: parse_char_def)
    then show ?thesis using Cons False by (simp add: value_chars_def)
  qed
qed (simp add: value_chars_def)

lemma eol_resets:
  "\<lbrakk>length (ps_value p) = 100; ps_state p \<noteq> GET_VALUE \<or> ps_value p ! 0 = NUL\<rbrakk> \<Longrightarrow> \<exists>q. parse_eol setv p = Inr q \<and> at_start q (ps_conf p)"
  by (auto simp: parse_eol_def at_start_def clear_def)

text \<open>The character that begins a line is the first of the command whatever it is, an equals sign too.\<close>

lemma first_of_command:
  assumes "at_start p u" "\<not> is_eol c" "c \<noteq> CHR ''#''"
  shows "parse_char setv c p = Inr (p\<lparr>ps_state := CMD, ps_command := [c] @ replicate 63 NUL @ drop 64 (ps_command p), ps_counter := length [c]\<rparr>)"
proof -
  have cmd: "ps_command p = replicate 64 NUL @ drop 64 (ps_command p)"
    using assms(1) by (metis append_take_drop_id at_start_def)
  have "(ps_command p)[0 := c] = [c] @ replicate 63 NUL @ drop 64 (ps_command p)"
    using put_next [of "[]" 63 "drop 64 (ps_command p)" c] cmd by simp
  moreover have "0 < length (ps_command p)" by (subst cmd) simp
  moreover have "ps_command p ! 0 = NUL" by (subst cmd) (simp add: nth_append)
  ultimately show ?thesis using assms by (simp add: parse_char_def fill_command_def buf_put_def at_start_def)
qed

lemma split_at_eq:
  obtains "dropWhile (\<lambda>x. x \<noteq> CHR ''='') cs = []" "takeWhile (\<lambda>x. x \<noteq> CHR ''='') cs = cs" "\<forall>c\<in>set cs. c \<noteq> CHR ''=''"
  | a v where "cs = a @ CHR ''='' # v" "dropWhile (\<lambda>x. x \<noteq> CHR ''='') cs = CHR ''='' # v" "takeWhile (\<lambda>x. x \<noteq> CHR ''='') cs = a" "\<forall>c\<in>set a. c \<noteq> CHR ''=''"
proof (cases "\<forall>c\<in>set cs. c \<noteq> CHR ''=''")
  case True
  then show ?thesis using that(1) by (simp add: takeWhile_eq_all_conv)
next
  case False
  then obtain a v where "cs = a @ CHR ''='' # v" "CHR ''='' \<notin> set a" by (metis split_list_first)
  then show ?thesis by (intro that(2) [of a v]) (auto simp: dropWhile_append takeWhile_append)
qed

lemma line_setting_eq:
  "\<lbrakk>c \<noteq> CHR ''#''; \<forall>x\<in>set a. x \<noteq> CHR ''=''\<rbrakk> \<Longrightarrow>
   line_setting (c # a @ CHR ''='' # v) = (if value_chars v = [] then None else Some (c # a, value_chars v))"
  by (simp add: line_setting_def value_chars_def is_digit_def dropWhile_append3 takeWhile_append)

lemma no_eq_drop: "\<forall>x\<in>set cs. x \<noteq> CHR ''='' \<Longrightarrow> dropWhile (\<lambda>x. x \<noteq> CHR ''='') cs = []"
  by simp

lemma line_setting_no_eq: "\<forall>x\<in>set cs. x \<noteq> CHR ''='' \<Longrightarrow> line_setting (c # cs) = None"
  by (simp add: line_setting_def value_chars_def no_eq_drop Let_def)

lemma line_fits_eq:
  "\<lbrakk>c \<noteq> CHR ''#''; \<forall>x\<in>set a. x \<noteq> CHR ''=''\<rbrakk> \<Longrightarrow> line_fits (c # a @ CHR ''='' # v) \<longleftrightarrow> length a < 63 \<and> length (value_chars v) < 100"
  by (simp add: line_fits_def value_chars_def is_digit_def dropWhile_append3 takeWhile_append)

lemma line_fits_no_eq: "\<lbrakk>c \<noteq> CHR ''#''; \<forall>x\<in>set cs. x \<noteq> CHR ''=''\<rbrakk> \<Longrightarrow> line_fits (c # cs) \<longleftrightarrow> length cs < 63"
  by (simp add: line_fits_def value_chars_def no_eq_drop takeWhile_eq_all_conv [THEN iffD2])

lemma parse_setting:
  assumes p: "at_start p u" and c: "c \<noteq> NUL" "c \<noteq> CHR ''#''" "\<not> is_eol c"
    and a: "\<forall>x\<in>set a. \<not> is_eol x \<and> x \<noteq> CHR ''=''" "length a < 63" and v: "\<forall>x\<in>set v. \<not> is_eol x" "length (value_chars v) < 100"
  shows "parse_chars setv (c # a @ CHR ''='' # v) p =
     Inr (p\<lparr>ps_state := GET_VALUE, ps_command := (c # a) @ replicate (63 - length a) NUL @ drop 64 (ps_command p),
            ps_value := value_chars v @ replicate (100 - length (value_chars v)) NUL, ps_counter := length (value_chars v)\<rparr>)"
proof -
  let ?p1 = "p\<lparr>ps_state := CMD, ps_command := [c] @ replicate 63 NUL @ drop 64 (ps_command p), ps_counter := length [c]\<rparr>"
  let ?p2 = "?p1\<lparr>ps_command := [c] @ a @ replicate (63 - length a) NUL @ drop 64 (ps_command p), ps_counter := length [c] + length a\<rparr>"
  let ?p3 = "?p2\<lparr>ps_state := GET_VALUE, ps_counter := 0\<rparr>"
  let ?w = "value_chars v"
  have "parse_chars setv a ?p1 = Inr ?p2" using assms by (intro parse_command) auto
  moreover have "parse_char setv (CHR ''='') ?p2 = Inr ?p3" using c by (simp add: parse_char_def is_eol_def)
  moreover have "parse_chars setv v ?p3 =
      Inr (?p3\<lparr>ps_value := [] @ ?w @ replicate (100 - length ?w) NUL, ps_counter := length ([] :: string) + length ?w\<rparr>)"
    using assms by (intro parse_value) (simp_all add: at_start_def)
  ultimately show ?thesis using first_of_command [OF p c(3,2), of setv] by (simp add: parse_chars_append)
qed

lemma parse_incomplete:
  assumes p: "at_start p u" and c: "c \<noteq> NUL" "c \<noteq> CHR ''#''" "\<not> is_eol c" and a: "\<forall>x\<in>set a. \<not> is_eol x \<and> x \<noteq> CHR ''=''" "length a < 63"
  shows "\<exists>p'. parse_chars setv (c # a) p = Inr p' \<and> ps_state p' = CMD \<and> ps_value p' = ps_value p \<and> ps_conf p' = u"
proof -
  let ?p1 = "p\<lparr>ps_state := CMD, ps_command := [c] @ replicate 63 NUL @ drop 64 (ps_command p), ps_counter := length [c]\<rparr>"
  have "parse_chars setv a ?p1 =
      Inr (?p1\<lparr>ps_command := [c] @ a @ replicate (63 - length a) NUL @ drop 64 (ps_command p), ps_counter := length [c] + length a\<rparr>)"
    using assms by (intro parse_command) auto
  then show ?thesis using first_of_command [OF p c(3,2), of setv] p by (simp add: at_start_def)
qed

lemma parse_comment:
  assumes "at_start p u" "\<forall>x\<in>set cs. \<not> is_eol x" "length cs < 100"
  shows "\<exists>p'. parse_chars setv (CHR ''#'' # cs) p = Inr p' \<and> ps_state p' = PRINT \<and> length (ps_value p') = 100 \<and> ps_conf p' = u"
  using assms parse_print [of "p\<lparr>ps_state := PRINT\<rparr>" cs setv] by (auto simp: at_start_def parse_char_def is_eol_def)

text \<open>
  The interface between a parser and the function that sets a value. \<open>assign\<close> is what the setter does with a command and a value that are proper
  strings; of their arrays the bytes behind the terminators do not matter.
\<close>

locale value_setter =
  fixes setv :: set_value
    and assign :: "string \<Rightarrow> string \<Rightarrow> userconfig_info \<Rightarrow> userconfig_info"
  assumes set_value: "\<lbrakk>NUL \<notin> set c; NUL \<notin> set v; v \<noteq> []\<rbrakk> \<Longrightarrow> setv (c @ NUL # x) (v @ NUL # y) u = Inr (assign c v u)"
begin

lemma eol_setting:
  assumes "ps_state p = GET_VALUE" "ps_command p = c @ replicate (Suc n) NUL @ j" "c \<noteq> []" "NUL \<notin> set c"
    and "ps_value p = v @ replicate (Suc m) NUL" "length (ps_value p) = 100" "v \<noteq> []" "NUL \<notin> set v"
  shows "\<exists>q. parse_eol setv p = Inr q \<and> at_start q (assign c v (ps_conf p))"
proof -
  have "setv (ps_command p) (ps_value p) (ps_conf p) = Inr (assign c v (ps_conf p))"
    using set_value [of c v "replicate n NUL @ j" "replicate m NUL"] assms by simp
  moreover have "ps_command p ! 0 \<noteq> NUL" using assms by (cases c) auto
  moreover have "ps_value p ! 0 \<noteq> NUL" using assms by (cases v) auto
  ultimately show ?thesis using assms by (simp add: parse_eol_def at_start_def clear_def)
qed

lemma line_with_value:
  assumes p: "at_start p u" and c: "c \<noteq> NUL" "c \<noteq> CHR ''#''" "\<not> is_eol c"
    and a: "\<forall>x\<in>set a. \<not> is_eol x \<and> x \<noteq> CHR ''=''" "length a < 63" "NUL \<notin> set a"
    and v: "\<forall>x\<in>set v. \<not> is_eol x" "length (value_chars v) < 100" "NUL \<notin> set v"
  shows "\<exists>p'. parse_chars setv (c # a @ CHR ''='' # v) p = Inr p' \<and> ps_conf p' = u \<and>
     (\<exists>q. parse_eol setv p' = Inr q \<and> at_start q (apply_line assign (c # a @ CHR ''='' # v) u))"
proof -
  let ?w = "value_chars v"
  let ?q = "p\<lparr>ps_state := GET_VALUE, ps_command := (c # a) @ replicate (63 - length a) NUL @ drop 64 (ps_command p),
            ps_value := ?w @ replicate (100 - length ?w) NUL, ps_counter := length ?w\<rparr>"
  have conf: "ps_conf ?q = u" using p by (simp add: at_start_def)
  have l: "line_setting (c # a @ CHR ''='' # v) = (if ?w = [] then None else Some (c # a, ?w))" using c a by (intro line_setting_eq) auto
  have "\<exists>q. parse_eol setv ?q = Inr q \<and> at_start q (apply_line assign (c # a @ CHR ''='' # v) u)"
  proof (cases "?w = []")
    case True
    have "\<exists>q. parse_eol setv ?q = Inr q \<and> at_start q (ps_conf ?q)" using True v by (intro eol_resets) (simp_all add: value_chars_def)
    then show ?thesis using True l conf by (simp add: apply_line_def)
  next
    case False
    have "63 - length a = Suc (62 - length a)" "100 - length ?w = Suc (99 - length ?w)" using a v by linarith+
    then have "\<exists>q. parse_eol setv ?q = Inr q \<and> at_start q (assign (c # a) ?w (ps_conf ?q))"
      using c a v False
      by (intro eol_setting [where n = "62 - length a" and m = "99 - length ?w" and j = "drop 64 (ps_command p)"])
        (auto simp: value_chars_def)
    then show ?thesis using False l conf by (simp add: apply_line_def)
  qed
  then show ?thesis using parse_setting [OF p c a(1,2) v(1,2), of setv] conf by simp
qed

lemma line_step:
  assumes p: "at_start p u" and l: "\<forall>x\<in>set l. \<not> is_eol x" "NUL \<notin> set l" "line_fits l"
  shows "\<exists>p'. parse_chars setv l p = Inr p' \<and> ps_conf p' = u \<and> (\<exists>q. parse_eol setv p' = Inr q \<and> at_start q (apply_line assign l u))"
proof (cases l)
  case Nil
  then show ?thesis using eol_resets [of p setv] p by (auto simp: apply_line_def line_setting_def at_start_def)
next
  case (Cons c cs)
  show ?thesis
  proof (cases "c = CHR ''#''")
    case True
    then obtain p' where p': "parse_chars setv l p = Inr p'" "ps_state p' = PRINT" "length (ps_value p') = 100" "ps_conf p' = u"
      using parse_comment [OF p, of cs setv] l Cons by (auto simp: line_fits_def)
    moreover have "apply_line assign l u = u" using True Cons by (simp add: apply_line_def line_setting_def)
    ultimately show ?thesis using eol_resets [of p' setv] by simp
  next
    case False
    show ?thesis
    proof (cases rule: split_at_eq [of cs])
      case 1
      then obtain p' where p': "parse_chars setv l p = Inr p'" "ps_state p' = CMD" "ps_value p' = ps_value p" "ps_conf p' = u"
        using parse_incomplete [OF p, of c cs setv] False l Cons line_fits_no_eq [OF False, of cs] by auto
      moreover have "apply_line assign l u = u" using 1 Cons by (simp add: apply_line_def line_setting_no_eq)
      moreover have "length (ps_value p') = 100" using p p'(3) by (simp add: at_start_def)
      ultimately show ?thesis using eol_resets [of p' setv] by simp
    next
      case (2 a v)
      then show ?thesis using line_with_value [OF p, of c a v] False l Cons line_fits_eq [OF False, of a v] by auto
    qed
  qed
qed

lemma text_steps:
  "\<lbrakk>at_start p u; NUL \<notin> set s; list_all line_fits (text_lines s)\<rbrakk> \<Longrightarrow>
   \<exists>p'. parse_chars setv s p = Inr p' \<and> ps_conf p' = fold (apply_line assign) (butlast (text_lines s)) u \<and>
     (last (text_lines s) = [] \<longrightarrow> at_start p' (fold (apply_line assign) (butlast (text_lines s)) u))"
proof (induction "length s" arbitrary: s p u rule: less_induct)
  case less
  show ?case
  proof (cases "\<forall>c\<in>set s. \<not> is_eol c")
    case True
    then show ?thesis using line_step [OF less.prems(1), of s] less.prems by (auto simp: text_lines_no_eol)
  next
    case False
    then obtain l c t where s: "s = l @ c # t" and c: "is_eol c" and l: "\<forall>x\<in>set l. \<not> is_eol x" by (metis split_list_first_prop)
    have lines: "text_lines s = l # text_lines t" using s l c by (simp add: text_lines_eol)
    obtain p' q where p': "parse_chars setv l p = Inr p'" "parse_eol setv p' = Inr q" and q: "at_start q (apply_line assign l u)"
      using line_step [OF less.prems(1) l] less.prems s lines by auto
    have "parse_chars setv s p = parse_chars setv t q" using p' c by (simp add: s parse_chars_append parse_char_def)
    moreover have "\<exists>p'. parse_chars setv t q = Inr p' \<and> ps_conf p' = fold (apply_line assign) (butlast (text_lines t)) (apply_line assign l u) \<and>
        (last (text_lines t) = [] \<longrightarrow> at_start p' (fold (apply_line assign) (butlast (text_lines t)) (apply_line assign l u)))"
      using less.prems s lines q by (intro less.hyps) auto
    ultimately show ?thesis using lines by simp
  qed
qed

lemma text_read:
  "\<lbrakk>at_start p u; text_fits s\<rbrakk> \<Longrightarrow> map_sum id ps_conf (parse_chars setv s p) = Inr (fold (apply_line assign) (butlast (text_lines s)) u)"
  using text_steps [of p u s] by (auto simp: text_fits_def)

end

lemma nvram_set_assigns:
  "\<lbrakk>table_in_range tab; NUL \<notin> set c; NUL \<notin> set v; v \<noteq> []\<rbrakk> \<Longrightarrow> nvram_set tab (c @ NUL # x) (v @ NUL # y) u = Inr (assign_command tab c v u)"
proof -
  have "ucast (word_of_int i :: u32) = (word_of_int i :: u8)" for i
    by (rule bit_word_eqI) (simp add: bit_simps)
  then show "\<lbrakk>table_in_range tab; NUL \<notin> set c; NUL \<notin> set v; v \<noteq> []\<rbrakk> \<Longrightarrow> ?thesis"
    by (simp add: nvram_set_def assign_command_def rwnx_atoi_value set_entries_fold table_in_range_entries split: option.split)
qed

interpretation d80: value_setter rwnx_plat_nvram_set_value "assign_command nvram_table"
  by unfold_locales (simp add: rwnx_plat_nvram_set_value_def nvram_set_assigns nvram_tables_in_range)

interpretation d80x2: value_setter rwnx_plat_nvram_set_value_8800d80x2 "assign_command nvram_table_8800d80x2"
  by unfold_locales (simp add: rwnx_plat_nvram_set_value_8800d80x2_def nvram_set_assigns nvram_tables_in_range)

text \<open>
  C33: Both parsers of the configuration file read every text without zero bytes whose lines fit in the character arrays as the reference reading does: the
  result is the configuration after the settings of its complete lines, in their order.
\<close>

theorem config_parsers_read_lines:
  "text_fits s \<Longrightarrow>
   rwnx_plat_userconfig_parsing s u = Inr (read_config nvram_table s u) \<and>
   rwnx_plat_userconfig_parsing_8800d80x2 stack s u = Inr (read_config nvram_table_8800d80x2 s u)"
  unfolding rwnx_plat_userconfig_parsing_def rwnx_plat_userconfig_parsing_8800d80x2_def read_config_def
  by (simp add: d80.text_read d80x2.text_read at_start_def)

theorem config_parsers_read_lines_witness:
  "rwnx_plat_userconfig_parsing (''# power'' @ [CHR 0x0A] @ ''dsss=7dBm'' @ [CHR 0x0D, CHR 0x0A] @ ''dsss=8'') userconfig_default =
     Inr (cfg_put (Lvl Lvl_dsss) 7 userconfig_default)"
proof -
  let ?s = "''# power'' @ [CHR 0x0A] @ ''dsss=7dBm'' @ [CHR 0x0D, CHR 0x0A] @ ''dsss=8''"
  have "text_fits ?s" by code_simp
  then have "rwnx_plat_userconfig_parsing ?s userconfig_default = Inr (read_config nvram_table ?s userconfig_default)"
    using config_parsers_read_lines [of ?s userconfig_default "[]"] by blast
  also have "read_config nvram_table ?s userconfig_default = cfg_put (Lvl Lvl_dsss) 7 userconfig_default" by code_simp
  finally show ?thesis .
qed

section \<open>A line that does not fit\<close>

definition line_overruns :: "string \<Rightarrow> bool" where
  "line_overruns l = (case l of [] \<Rightarrow> False | c # cs \<Rightarrow> if c = CHR ''#'' then 100 < length cs else 64 < length (c # takeWhile (\<lambda>x. x \<noteq> CHR ''='') cs))"

lemma print_overruns:
  "\<lbrakk>ps_state p = PRINT; \<forall>c\<in>set cs. \<not> is_eol c; length (ps_value p) < ps_counter p + length cs; ps_counter p \<le> length (ps_value p)\<rbrakk> \<Longrightarrow>
   parse_chars setv (cs @ t) p = Inl OutOfBounds"
proof (induction cs arbitrary: p)
  case (Cons c cs)
  let ?q = "p\<lparr>ps_command := (ps_command p)[0 := CHR 0x01], ps_value := (ps_value p)[ps_counter p := c], ps_counter := ps_counter p + 1\<rparr>"
  have "parse_char setv c p = (if ps_counter p < length (ps_value p) then Inr ?q else Inl OutOfBounds)"
    using Cons.prems by (simp add: parse_char_def fill_value_def buf_put_def)
  then show ?case using Cons.prems Cons.IH [of ?q] by simp
qed simp

lemma command_overruns:
  assumes "ps_state p = CMD" "ps_counter p = length (ps_command p)" "ps_command p ! 0 \<noteq> NUL" "\<not> is_eol c" "c \<noteq> CHR ''=''"
  shows "parse_chars setv (c # t) p = Inl OutOfBounds"
  using assms by (simp add: parse_char_def fill_command_def buf_put_def)

lemma map_sum_Inr_iff: "map_sum id f x = Inr y \<longleftrightarrow> (\<exists>z. x = Inr z \<and> y = f z)"
  by (cases x) auto

lemma parse_char_command_length:
  "\<lbrakk>parse_char setv c p = Inr q; 64 \<le> length (ps_command p)\<rbrakk> \<Longrightarrow> length (ps_command q) = length (ps_command p)"
  by (auto simp: parse_char_def parse_eol_def fill_value_def fill_command_def buf_put_def clear_def map_sum_Inr_iff Let_def
      split: if_splits parse_state.splits)

lemma parse_chars_command_length:
  "\<lbrakk>parse_chars setv cs p = Inr q; 64 \<le> length (ps_command p)\<rbrakk> \<Longrightarrow> length (ps_command q) = length (ps_command p)"
proof (induction cs arbitrary: p)
  case (Cons c cs)
  then obtain p' where p': "parse_char setv c p = Inr p'" "parse_chars setv cs p' = Inr q" by (auto split: sum.splits)
  then show ?case using Cons.IH [OF p'(2)] parse_char_command_length [OF p'(1)] Cons.prems(2) by simp
qed simp

lemma line_overrun_faults:
  assumes p: "at_start p u" "length (ps_command p) = 64" and l: "\<forall>c\<in>set l. \<not> is_eol c" "NUL \<notin> set l" "line_overruns l"
  shows "parse_chars setv (l @ t) p = Inl OutOfBounds"
proof -
  obtain c cs where cs: "l = c # cs" using l(3) by (cases l) (auto simp: line_overruns_def)
  show ?thesis
  proof (cases "c = CHR ''#''")
    case True
    have "parse_chars setv (cs @ t) (p\<lparr>ps_state := PRINT\<rparr>) = Inl OutOfBounds"
      using p l cs True by (intro print_overruns) (auto simp: at_start_def line_overruns_def)
    then show ?thesis using p cs True by (simp add: parse_char_def at_start_def is_eol_def)
  next
    case False
    let ?w = "takeWhile (\<lambda>x. x \<noteq> CHR ''='') cs"
    have len: "63 < length ?w" using False l cs by (simp add: line_overruns_def)
    define r where "r = drop (Suc 63) ?w @ dropWhile (\<lambda>x. x \<noteq> CHR ''='') cs"
    have "cs = ?w @ dropWhile (\<lambda>x. x \<noteq> CHR ''='') cs" by (rule takeWhile_dropWhile_id [symmetric])
    also have "\<dots> = (take 63 ?w @ ?w ! 63 # drop (Suc 63) ?w) @ dropWhile (\<lambda>x. x \<noteq> CHR ''='') cs"
      by (rule arg_cong [OF id_take_nth_drop [OF len]])
    finally have split: "cs = take 63 ?w @ ?w ! 63 # r" by (simp add: r_def)
    let ?p1 = "p\<lparr>ps_state := CMD, ps_command := [c] @ replicate 63 NUL @ drop 64 (ps_command p), ps_counter := length [c]\<rparr>"
    let ?p2 = "?p1\<lparr>ps_command := [c] @ take 63 ?w @ replicate (63 - length (take 63 ?w)) NUL @ drop 64 (ps_command p), ps_counter := length [c] + length (take 63 ?w)\<rparr>"
    have w: "\<forall>x\<in>set ?w. \<not> is_eol x \<and> x \<noteq> CHR ''=''" using l cs by (auto dest: set_takeWhileD)
    have "parse_chars setv (take 63 ?w) ?p1 = Inr ?p2" using w l cs by (intro parse_command) (auto dest: in_set_takeD)
    moreover have "parse_chars setv (?w ! 63 # r @ t) ?p2 = Inl OutOfBounds"
      using p w len l cs nth_mem [OF len] by (intro command_overruns) auto
    ultimately have "parse_chars setv ((take 63 ?w @ ?w ! 63 # r) @ t) ?p1 = Inl OutOfBounds" by (simp add: parse_chars_append)
    then have "parse_chars setv (cs @ t) ?p1 = Inl OutOfBounds" by (simp only: split [symmetric])
    then show ?thesis using first_of_command [OF p(1), of c setv] False l cs by simp
  qed
qed

text \<open>
  C39: A line that does not fit is not refused. After a text that fits, a comment of more than 100 characters, or a command of more than 64, makes
  \<open>rwnx_plat_userconfig_parsing\<close>, whose array for the command has 64 characters, write behind its character array on the stack.
\<close>

theorem config_line_overrun:
  "\<lbrakk>text_fits s; last (text_lines s) = []; \<forall>c\<in>set l. \<not> is_eol c; NUL \<notin> set l; line_overruns l\<rbrakk> \<Longrightarrow>
   rwnx_plat_userconfig_parsing (s @ l @ t) u = Inl OutOfBounds"
proof -
  assume s: "text_fits s" "last (text_lines s) = []" and l: "\<forall>c\<in>set l. \<not> is_eol c" "NUL \<notin> set l" "line_overruns l"
  let ?p = "\<lparr>ps_state = INIT, ps_command = replicate 64 NUL, ps_value = replicate 100 NUL, ps_counter = 0, ps_conf = u\<rparr>"
  have "at_start ?p u" by (simp add: at_start_def)
  then obtain q where q: "parse_chars rwnx_plat_nvram_set_value s ?p = Inr q" and start: "at_start q (ps_conf q)"
    using d80.text_steps [of ?p u s] s by (auto simp: text_fits_def)
  have "length (ps_command q) = 64" using parse_chars_command_length [OF q] by simp
  then have "parse_chars rwnx_plat_nvram_set_value (l @ t) q = Inl OutOfBounds" using line_overrun_faults [OF start _ l] by blast
  then show ?thesis using q by (simp add: rwnx_plat_userconfig_parsing_def parse_chars_append)
qed

theorem config_line_overrun_witness:
  "rwnx_plat_userconfig_parsing (''dsss=9'' @ [CHR 0x0A] @ (CHR ''#'' # replicate 101 (CHR ''-'')) @ [CHR 0x0A]) userconfig_default = Inl OutOfBounds"
  using config_line_overrun [of "''dsss=9'' @ [CHR 0x0A]" "CHR ''#'' # replicate 101 (CHR ''-'')" "[CHR 0x0A]" userconfig_default]
  by (simp add: text_fits_def line_fits_def value_chars_def is_digit_def is_eol_def line_overruns_def)

section \<open>Settings written and read back\<close>

fun print_nat :: "nat \<Rightarrow> string" where
  "print_nat n = (if n < 10 then [char_of (48 + n)] else print_nat (n div 10) @ [char_of (48 + n mod 10)])"

declare print_nat.simps [simp del]

definition print_int :: "int \<Rightarrow> string" where
  "print_int v = (if v < 0 then CHR ''-'' # print_nat (nat (- v)) else print_nat (nat v))"

definition setting_line :: "string \<times> int \<Rightarrow> string" where
  "setting_line s = fst s @ CHR ''='' # print_int (snd s)"

definition print_config :: "(string \<times> int) list \<Rightarrow> string" where
  "print_config ss = concat (map (\<lambda>s. setting_line s @ [CHR 0x0A]) ss)"

definition command_ok :: "string \<Rightarrow> bool" where
  "command_ok c \<longleftrightarrow> c \<noteq> [] \<and> hd c \<noteq> CHR ''#'' \<and> length c < 64 \<and> list_all (\<lambda>x. x \<noteq> CHR ''='' \<and> \<not> is_eol x \<and> x \<noteq> NUL) c"

definition setting_ok :: "(string \<times> entry list) list \<Rightarrow> string \<times> int \<Rightarrow> bool" where
  "setting_ok tab s \<longleftrightarrow> fst s \<in> fst ` set tab \<and> length (print_int (snd s)) < 100"

text \<open>The value that the settings give to an entry: that of the last setting which names it.\<close>

definition last_value :: "(string \<times> entry list) list \<Rightarrow> (string \<times> int) list \<Rightarrow> entry \<Rightarrow> u8 option" where
  "last_value tab ss e = map_option (\<lambda>s. word_of_int (snd s)) (find (\<lambda>s. e \<in> set (the (map_of tab (fst s)))) (rev ss))"

lemma digit_char: "d < 10 \<Longrightarrow> (of_char (char_of (48 + d) :: char) :: nat) = 48 + d"
  by (simp add: of_char_of take_bit_eq_mod)

lemma print_nat_digits: "list_all is_digit (print_nat n)"
proof (induction n rule: print_nat.induct)
  case (1 n)
  have "is_digit (char_of (48 + d))" if "d < 10" for d :: nat using that by (simp add: is_digit_def digit_char)
  then show ?case using 1 by (subst print_nat.simps) simp
qed

lemma decimal_snoc: "decimal (ds @ [c]) = decimal ds * 10 + (of_char c - 48)"
  by (simp add: decimal_def)

lemma decimal_print_nat: "decimal (print_nat n) = int n"
proof (induction n rule: print_nat.induct)
  case (1 n)
  have digit: "of_char (char_of (48 + d) :: char) - 48 = int d" if "d < 10" for d
  proof -
    have "int (of_char (char_of (48 + d) :: char)) = of_char (char_of (48 + d) :: char)" by (rule of_nat_of_char)
    then show ?thesis using digit_char [OF that] by simp
  qed
  show ?case
  proof (cases "n < 10")
    case True
    then show ?thesis using digit [of n] by (subst print_nat.simps) (simp add: decimal_def)
  next
    case False
    then show ?thesis using 1 digit [of "n mod 10"] by (subst print_nat.simps) (simp add: decimal_snoc, simp add: zdiv_int zmod_int)
  qed
qed

lemma print_nat_hd: "print_nat n \<noteq> [] \<and> hd (print_nat n) \<noteq> CHR ''-''"
proof -
  have ne: "print_nat n \<noteq> []" by (subst print_nat.simps) simp
  then have "is_digit (hd (print_nat n))" using print_nat_digits [of n] by (simp add: list_all_iff)
  then show ?thesis using ne by (auto simp: is_digit_def)
qed

lemma config_value_print: "config_value (print_int v) = v"
  using print_nat_hd print_nat_digits by (simp add: config_value_def print_int_def decimal_print_nat)

lemma value_char_plain: "c = CHR ''-'' \<or> is_digit c \<Longrightarrow> \<not> is_eol c \<and> c \<noteq> NUL"
  by (auto simp: is_eol_def is_digit_def)

lemma value_chars_print: "value_chars (print_int v) = print_int v" "print_int v \<noteq> []" "\<forall>c\<in>set (print_int v). \<not> is_eol c \<and> c \<noteq> NUL"
proof -
  have d: "\<forall>c\<in>set (print_nat n). is_digit c" for n using print_nat_digits [of n] by (simp add: list_all_iff)
  then have c: "\<forall>c\<in>set (print_int v). c = CHR ''-'' \<or> is_digit c" by (simp add: print_int_def)
  then show "value_chars (print_int v) = print_int v" by (simp add: value_chars_def filter_id_conv)
  show "print_int v \<noteq> []" using print_nat_hd by (simp add: print_int_def)
  show "\<forall>c\<in>set (print_int v). \<not> is_eol c \<and> c \<noteq> NUL" using c value_char_plain by blast
qed

lemma setting_line_read:
  assumes "command_ok c"
  shows "line_setting (setting_line (c, v)) = Some (c, print_int v)"
    and "line_fits (setting_line (c, v)) \<longleftrightarrow> length (print_int v) < 100"
    and "\<forall>x\<in>set (setting_line (c, v)). \<not> is_eol x \<and> x \<noteq> NUL"
proof -
  obtain h a where c: "c = h # a" "h \<noteq> CHR ''#''" "\<forall>x\<in>set a. x \<noteq> CHR ''=''" "length a < 63"
    using assms by (cases c) (auto simp: command_ok_def list_all_iff)
  then show "line_setting (setting_line (c, v)) = Some (c, print_int v)"
    using line_setting_eq [OF c(2,3), of "print_int v"] value_chars_print by (simp add: setting_line_def)
  show "line_fits (setting_line (c, v)) \<longleftrightarrow> length (print_int v) < 100"
    using line_fits_eq [OF c(2,3), of "print_int v"] value_chars_print c by (simp add: setting_line_def)
  show "\<forall>x\<in>set (setting_line (c, v)). \<not> is_eol x \<and> x \<noteq> NUL"
    using assms value_chars_print(3) [of v] by (auto simp: setting_line_def command_ok_def list_all_iff is_eol_def)
qed

lemma text_lines_print_config:
  "\<forall>s\<in>set ss. command_ok (fst s) \<Longrightarrow> text_lines (print_config ss) = map setting_line ss @ [[]]"
proof (induction ss)
  case (Cons s ss)
  have "text_lines (setting_line s @ CHR 0x0A # print_config ss) = setting_line s # text_lines (print_config ss)"
    using Cons.prems setting_line_read(3) [of "fst s" "snd s"] by (intro text_lines_eol) (simp_all add: is_eol_def)
  then show ?case using Cons by (simp add: print_config_def)
qed (simp add: print_config_def)

lemma text_fits_print_config:
  assumes ss: "\<forall>s\<in>set ss. command_ok (fst s) \<and> length (print_int (snd s)) < 100"
  shows "text_fits (print_config ss)"
proof -
  have "line_fits (setting_line s)" "NUL \<notin> set (setting_line s)" if "s \<in> set ss" for s
    using ss that setting_line_read(2,3) [of "fst s" "snd s"] by auto
  moreover have "text_lines (print_config ss) = map setting_line ss @ [[]]" using ss by (simp add: text_lines_print_config)
  moreover have "NUL \<notin> set (print_config ss)" using calculation(2) by (auto simp: print_config_def)
  ultimately show ?thesis by (simp add: text_fits_def list_all_iff line_fits_def [of "[]"])
qed

lemma find_map: "find P (map f xs) = map_option f (find (\<lambda>x. P (f x)) xs)"
  by (induction xs) auto

lemma read_printed_settings:
  assumes ss: "\<forall>s\<in>set ss. command_ok (fst s) \<and> fst s \<in> fst ` set tab"
  shows "read_config tab (print_config ss) u =
     fold (\<lambda>(es, v). fold (\<lambda>e. cfg_put e v) es) (map (\<lambda>s. (the (map_of tab (fst s)), word_of_int (snd s))) ss) u"
proof -
  have "apply_line (assign_command tab) (setting_line s) u = fold (\<lambda>e. cfg_put e (word_of_int (snd s))) (the (map_of tab (fst s))) u"
    if s: "s \<in> set ss" for s u
  proof -
    obtain es where "map_of tab (fst s) = Some es" using ss s by (metis (no_types, lifting) map_of_eq_None_iff not_None_eq)
    then show ?thesis using ss s setting_line_read(1) [of "fst s" "snd s"]
      by (simp add: apply_line_def assign_command_def config_value_print)
  qed
  then have "fold (apply_line (assign_command tab)) (map setting_line ss) u =
      fold (\<lambda>(es, v). fold (\<lambda>e. cfg_put e v) es) (map (\<lambda>s. (the (map_of tab (fst s)), word_of_int (snd s))) ss) u"
    unfolding fold_map comp_def by (intro fold_cong ext) simp_all
  then show ?thesis using ss by (simp add: read_config_def text_lines_print_config butlast_append)
qed

lemma printed_settings_read_back:
  assumes "\<forall>s\<in>set ss. command_ok (fst s) \<and> fst s \<in> fst ` set tab" "cfg_ok e u"
  shows "cfg_get e (read_config tab (print_config ss) u) = (case last_value tab ss e of None \<Rightarrow> cfg_get e u | Some v \<Rightarrow> v)"
  unfolding read_printed_settings [OF assms(1)] last_value_def
  using config.get_assigns [OF assms(2)] by (simp add: rev_map find_map case_prod_unfold split: option.split)

lemma nvram_commands_ok: "list_all (\<lambda>s. command_ok (fst s)) nvram_table" "list_all (\<lambda>s. command_ok (fst s)) nvram_table_8800d80x2"
  by code_simp+

lemma settings_printed:
  assumes "list_all (\<lambda>s. command_ok (fst s)) tab" "\<forall>s\<in>set ss. setting_ok tab s"
  shows "\<forall>s\<in>set ss. command_ok (fst s) \<and> fst s \<in> fst ` set tab" "text_fits (print_config ss)"
proof -
  have "command_ok c" if "c \<in> fst ` set tab" for c using assms(1) that by (auto simp: list_all_iff)
  then show *: "\<forall>s\<in>set ss. command_ok (fst s) \<and> fst s \<in> fst ` set tab" using assms(2) by (simp add: setting_ok_def)
  then show "text_fits (print_config ss)" using assms by (intro text_fits_print_config) (auto simp: setting_ok_def)
qed

lemma parse_printed:
  assumes ss: "\<forall>s\<in>set ss. setting_ok nvram_table s"
  shows "\<exists>u'. rwnx_plat_userconfig_parsing (print_config ss) u = Inr u' \<and>
     (\<forall>e. (cfg_ok e u' \<longleftrightarrow> cfg_ok e u) \<and> (cfg_ok e u \<longrightarrow> cfg_get e u' = (case last_value nvram_table ss e of None \<Rightarrow> cfg_get e u | Some v \<Rightarrow> v)))"
proof -
  note printed = settings_printed [OF nvram_commands_ok(1) ss]
  let ?u = "read_config nvram_table (print_config ss) u"
  have "rwnx_plat_userconfig_parsing (print_config ss) u = Inr ?u"
    unfolding rwnx_plat_userconfig_parsing_def read_config_def by (rule d80.text_read) (simp_all add: at_start_def printed(2))
  moreover have "cfg_ok e ?u \<longleftrightarrow> cfg_ok e u" for e unfolding read_printed_settings [OF printed(1)] by (rule config.ok_assigns)
  ultimately show ?thesis using printed_settings_read_back [OF printed(1)] by blast
qed

text \<open>
  C34: The configuration file round trip. Settings written one to a line, each a command of the driver and a decimal number of less
  than 100 characters, are read back: afterwards an entry
  has the value of the last setting that names it, reduced to eight bits, and every entry that no setting names is as before.
\<close>

theorem config_roundtrip:
  "\<forall>s\<in>set ss. setting_ok nvram_table s \<Longrightarrow>
   \<exists>u'. rwnx_plat_userconfig_parsing (print_config ss) u = Inr u' \<and>
     (\<forall>e. cfg_ok e u \<longrightarrow> cfg_get e u' = (case last_value nvram_table ss e of None \<Rightarrow> cfg_get e u | Some v \<Rightarrow> v))"
  using parse_printed [of ss u] by blast

theorem config_roundtrip_witness:
  "\<exists>u'. rwnx_plat_userconfig_parsing (print_config [(''ofst_enable'', 1), (''lvl_11ax_mcs11_5g'', 12), (''lvl_11ax_mcs11_5g'', - 3)]) userconfig_default = Inr u' \<and>
     cfg_get (LvlV3 (LvlV3_11ax_5g 11)) u' = 253 \<and> cfg_get (LvlV3 (LvlV3_11ax_5g 10)) u' = 14"
proof -
  let ?ss = "[(''ofst_enable'', 1), (''lvl_11ax_mcs11_5g'', 12), (''lvl_11ax_mcs11_5g'', - 3)] :: (string \<times> int) list"
  have "list_all (setting_ok nvram_table) ?ss" by code_simp
  then have ok: "\<forall>s\<in>set ?ss. setting_ok nvram_table s" by (simp only: list_all_iff)
  have e: "cfg_ok (LvlV3 (LvlV3_11ax_5g 11)) userconfig_default" "cfg_ok (LvlV3 (LvlV3_11ax_5g 10)) userconfig_default" by code_simp+
  have v: "last_value nvram_table ?ss (LvlV3 (LvlV3_11ax_5g 11)) = Some 253" "last_value nvram_table ?ss (LvlV3 (LvlV3_11ax_5g 10)) = None" by code_simp+
  have "cfg_get (LvlV3 (LvlV3_11ax_5g 10)) userconfig_default = 14" by code_simp
  then show ?thesis using config_roundtrip [OF ok, of userconfig_default] e v by fastforce
qed

text \<open>The same for the other family of chips.\<close>

lemma config_roundtrip_8800d80x2:
  assumes ss: "\<forall>s\<in>set ss. setting_ok nvram_table_8800d80x2 s" and e: "cfg_ok e u"
  shows "\<exists>u'. rwnx_plat_userconfig_parsing_8800d80x2 stack (print_config ss) u = Inr u' \<and>
     cfg_get e u' = (case last_value nvram_table_8800d80x2 ss e of None \<Rightarrow> cfg_get e u | Some v \<Rightarrow> v)"
proof -
  note printed = settings_printed [OF nvram_commands_ok(2) ss]
  have "rwnx_plat_userconfig_parsing_8800d80x2 stack (print_config ss) u = Inr (read_config nvram_table_8800d80x2 (print_config ss) u)"
    unfolding rwnx_plat_userconfig_parsing_8800d80x2_def read_config_def by (rule d80x2.text_read) (simp_all add: at_start_def printed(2))
  then show ?thesis using printed_settings_read_back [OF printed(1) e] by blast
qed

section \<open>The arrays of the configuration\<close>

lemma nvram_set_dimensions: "\<lbrakk>nvram_set tab c v u = Inr u'; well_dimensioned u\<rbrakk> \<Longrightarrow> well_dimensioned u'"
  by (auto simp: nvram_set_def set_entries_dimensions split: option.splits sum.splits)

lemma nvram_set_fault: "\<lbrakk>table_in_range tab; nvram_set tab c v u = Inl f\<rbrakk> \<Longrightarrow> rwnx_atoi v = Inl f"
  by (auto simp: nvram_set_def set_entries_fold table_in_range_entries split: option.splits sum.splits)

lemma parse_char_keeps:
  assumes "parse_char setv c p = Inr q" "P (ps_conf p)" "\<And>c v u u'. \<lbrakk>setv c v u = Inr u'; P u\<rbrakk> \<Longrightarrow> P u'"
  shows "P (ps_conf q)"
  using assms
  by (auto simp: parse_char_def parse_eol_def fill_value_def fill_command_def map_sum_Inr_iff Let_def split: if_splits parse_state.splits)

lemma parse_chars_keeps:
  assumes "parse_chars setv cs p = Inr q" "P (ps_conf p)" and set: "\<And>c v u u'. \<lbrakk>setv c v u = Inr u'; P u\<rbrakk> \<Longrightarrow> P u'"
  shows "P (ps_conf q)"
  using assms(1,2)
proof (induction cs arbitrary: p)
  case (Cons c cs)
  then obtain p' where p': "parse_char setv c p = Inr p'" "parse_chars setv cs p' = Inr q" by (auto split: sum.splits)
  have "P (ps_conf p')" using parse_char_keeps [where P = P, OF p'(1) Cons.prems(2)] set by blast
  then show ?case by (rule Cons.IH [OF p'(2)])
qed simp

text \<open>
  C36: No setting writes outside its array, whatever it is. The functions of both families of chips that set a value end in a fault only when the number in
  the value array has no end, never in an assignment, whatever command, value and configuration they get. And whatever text the two parsers read from a
  configuration with the dimensions of its declaration, a run that overruns none of the parser's own character arrays, so that it has a result, leaves a
  configuration with these dimensions: exactly the entries of the declaration are elements of its arrays.
\<close>

theorem config_stays_in_bounds:
  "(rwnx_plat_nvram_set_value c v w = Inl f \<longrightarrow> rwnx_atoi v = Inl f) \<and>
   (rwnx_plat_nvram_set_value_8800d80x2 c v w = Inl f \<longrightarrow> rwnx_atoi v = Inl f) \<and>
   (well_dimensioned u \<longrightarrow>
     (rwnx_plat_userconfig_parsing s u = Inr u1 \<longrightarrow> well_dimensioned u1) \<and>
     (rwnx_plat_userconfig_parsing_8800d80x2 stack s u = Inr u2 \<longrightarrow> well_dimensioned u2))"
proof -
  have "well_dimensioned (ps_conf q)" if "parse_chars (nvram_set tab) s p = Inr q" "well_dimensioned (ps_conf p)" for tab p q
    using parse_chars_keeps [where P = well_dimensioned, OF that] nvram_set_dimensions by blast
  then show ?thesis
    unfolding rwnx_plat_userconfig_parsing_def rwnx_plat_userconfig_parsing_8800d80x2_def rwnx_plat_nvram_set_value_def rwnx_plat_nvram_set_value_8800d80x2_def
    using nvram_set_fault nvram_tables_in_range by (auto simp: map_sum_Inr_iff)
qed

theorem config_stays_in_bounds_witness:
  "\<exists>u. rwnx_plat_userconfig_parsing (''lvl_11ax_mcs11_5g=12'' @ [CHR 0x0A]) userconfig_default = Inr u \<and> well_dimensioned u \<and>
     \<not> isl (rwnx_plat_nvram_set_value (''lvl_11ax_mcs11_5g'' @ [NUL]) (''12'' @ [NUL]) u)"
proof -
  let ?s = "''lvl_11ax_mcs11_5g=12'' @ [CHR 0x0A]"
  have "\<not> isl (rwnx_plat_userconfig_parsing ?s userconfig_default)" by code_simp
  then obtain u where u: "rwnx_plat_userconfig_parsing ?s userconfig_default = Inr u" by (metis sum.collapse(2))
  have "\<not> isl (rwnx_atoi (''12'' @ [NUL]))" by code_simp
  then have "\<not> isl (rwnx_plat_nvram_set_value (''lvl_11ax_mcs11_5g'' @ [NUL]) (''12'' @ [NUL]) u)"
    using config_stays_in_bounds [of "''lvl_11ax_mcs11_5g'' @ [NUL]" "''12'' @ [NUL]" u] by (auto simp: isl_def)
  then show ?thesis using config_stays_in_bounds [of _ _ _ _ userconfig_default ?s u] u well_dimensioned_default by blast
qed

end
