(* ===== verification/PowerSpec.thy ===== *)
theory PowerSpec
  imports PowerReq ConfigSpec "HOL-Library.Sublist"
begin

text \<open>
  What the power requests promise. A function that sends requests is a \<open>request_step\<close>: whatever fails, it sends some of its requests in their order, leaves at
  most one message behind, one that the command queue refused, and changes neither the configuration nor the chip; while the device is not down it sends a
  prefix, and result 0 means that all were sent. Two such steps in sequence, as in the set-up of the radio, are one. The theorems follow the configuration file to the requests, and the power control to its level.
\<close>

section \<open>Steps that send requests\<close>

text \<open>What the requests depend on.\<close>

definition same_setup :: "power_hw \<Rightarrow> power_hw \<Rightarrow> bool" where
  "same_setup p q \<longleftrightarrow> ph_chip q = ph_chip p \<and> ph_testmode q = ph_testmode p \<and> ph_chip_sub_id q = ph_chip_sub_id p \<and> ph_conf q = ph_conf p \<and>
     ph_idx_conf q = ph_idx_conf p \<and> ph_ofst_conf q = ph_ofst_conf p"

definition stays_up :: "power_hw \<Rightarrow> bool" where
  "stays_up p \<longleftrightarrow> BusDown \<notin> set (ph_replies p)"

definition never_refused :: "power_hw \<Rightarrow> bool" where
  "never_refused p \<longleftrightarrow> QueueCrashed \<notin> set (ph_replies p) \<and> QueueFull \<notin> set (ph_replies p)"

definition all_well :: "power_hw \<Rightarrow> bool" where
  "all_well p \<longleftrightarrow> list_all id (ph_allocs p) \<and> list_all (\<lambda>r. r = Confirmed) (ph_replies p)"

lemma all_well_up: "all_well p \<Longrightarrow> stays_up p"
  by (auto simp: all_well_def stays_up_def list_all_iff)

locale request_step =
  fixes step :: "power_hw \<Rightarrow> int \<times> power_hw"
    and reqs :: "power_hw \<Rightarrow> power_msg list"
  assumes sends_some:
      "\<exists>ms. ph_sent (snd (step p)) = ph_sent p @ ms \<and> subseq ms (reqs p) \<and>
         (stays_up p \<longrightarrow> prefix ms (reqs p) \<and> (fst (step p) = 0 \<longrightarrow> ms = reqs p))"
    and leaks_one:
      "ph_live p \<le> ph_live (snd (step p)) \<and> ph_live (snd (step p)) \<le> ph_live p + 1 \<and>
         (fst (step p) = 0 \<or> never_refused p \<longrightarrow> ph_live (snd (step p)) = ph_live p)"
    and keeps_fate: "(stays_up p \<longrightarrow> stays_up (snd (step p))) \<and> (never_refused p \<longrightarrow> never_refused (snd (step p)))"
    and keeps_setup: "same_setup p (snd (step p))"
    and succeeds: "all_well p \<Longrightarrow> fst (step p) = 0 \<and> all_well (snd (step p))"
    and reqs_setup: "same_setup p q \<Longrightarrow> reqs q = reqs p"
begin

lemma success_sends_all: "stays_up p \<Longrightarrow> fst (step p) = 0 \<Longrightarrow> ph_sent (snd (step p)) = ph_sent p @ reqs p"
  using sends_some [of p] by auto

lemma sends_all: "all_well p \<Longrightarrow> step p = (0, snd (step p)) \<and> ph_sent (snd (step p)) = ph_sent p @ reqs p"
  using succeeds [of p] success_sends_all [OF all_well_up, of p] by (metis prod.collapse)

end

locale request_pair =
  first: request_step a ra + rest: request_step b rb
  for a :: "power_hw \<Rightarrow> int \<times> power_hw" and ra :: "power_hw \<Rightarrow> power_msg list"
    and b :: "power_hw \<Rightarrow> int \<times> power_hw" and rb :: "power_hw \<Rightarrow> power_msg list"
begin

lemma chain_cases:
  obtains (fails) "fst (a p) \<noteq> 0" "chain a b p = (- 1, snd (a p))" | (goes_on) "fst (a p) = 0" "chain a b p = b (snd (a p))"
  by (cases "a p") (auto simp: chain_def)

lemma pair_some:
  "\<exists>ms. ph_sent (snd (chain a b p)) = ph_sent p @ ms \<and> subseq ms (ra p @ rb p) \<and>
     (stays_up p \<longrightarrow> prefix ms (ra p @ rb p) \<and> (fst (chain a b p) = 0 \<longrightarrow> ms = ra p @ rb p))"
proof (cases rule: chain_cases [of p])
  case fails
  obtain ms where "ph_sent (snd (a p)) = ph_sent p @ ms" "subseq ms (ra p)" "stays_up p \<longrightarrow> prefix ms (ra p)"
    using first.sends_some [of p] by blast
  then show ?thesis using fails by (intro exI [of _ ms]) (auto intro: list_emb_append2)
next
  case goes_on
  let ?p1 = "snd (a p)"
  obtain ma where a: "ph_sent ?p1 = ph_sent p @ ma" "subseq ma (ra p)" "stays_up p \<longrightarrow> ma = ra p"
    using first.sends_some [of p] goes_on(1) by blast
  obtain mb where b: "ph_sent (snd (b ?p1)) = ph_sent ?p1 @ mb" "subseq mb (rb ?p1)"
      "stays_up ?p1 \<longrightarrow> prefix mb (rb ?p1) \<and> (fst (b ?p1) = 0 \<longrightarrow> mb = rb ?p1)"
    using rest.sends_some [of ?p1] by blast
  have rb: "rb ?p1 = rb p" by (rule rest.reqs_setup [OF first.keeps_setup])
  have "subseq (ma @ mb) (ra p @ rb p)" using a(2) b(2) unfolding rb by (rule list_emb_append_mono)
  then show ?thesis unfolding goes_on(2) using a b(1,3) first.keeps_fate [of p] unfolding rb by (intro exI [of _ "ma @ mb"]) auto
qed

lemma pair_live:
  "ph_live p \<le> ph_live (snd (chain a b p)) \<and> ph_live (snd (chain a b p)) \<le> ph_live p + 1 \<and>
     (fst (chain a b p) = 0 \<or> never_refused p \<longrightarrow> ph_live (snd (chain a b p)) = ph_live p)"
  using first.leaks_one [of p] rest.leaks_one [of "snd (a p)"] first.keeps_fate [of p] by (cases rule: chain_cases [of p]) auto

lemma pair_fate:
  "(stays_up p \<longrightarrow> stays_up (snd (chain a b p))) \<and> (never_refused p \<longrightarrow> never_refused (snd (chain a b p)))"
  using first.keeps_fate [of p] rest.keeps_fate [of "snd (a p)"] by (cases rule: chain_cases [of p]) auto

lemma pair_setup: "same_setup p (snd (chain a b p))"
proof (cases rule: chain_cases [of p])
  case goes_on
  then show ?thesis using first.keeps_setup [of p] rest.keeps_setup [of "snd (a p)"] by (simp add: same_setup_def)
qed (simp add: first.keeps_setup)

lemma pair_success: "all_well p \<Longrightarrow> fst (chain a b p) = 0 \<and> all_well (snd (chain a b p))"
  using first.succeeds [of p] rest.succeeds [of "snd (a p)"] by (cases rule: chain_cases [of p]) simp_all

lemma pair_reqs: "same_setup p q \<Longrightarrow> ra q @ rb q = ra p @ rb p"
  using first.reqs_setup rest.reqs_setup by metis

end

sublocale request_pair \<subseteq> pair: request_step "chain a b" "\<lambda>p. ra p @ rb p"
  by unfold_locales (rule pair_some pair_live pair_fate pair_setup pair_success pair_reqs; assumption?)+

section \<open>The requests are steps\<close>

text \<open>What one request does to the outcomes that are still to come, and its effect for each of them.\<close>

lemma send_if_unfold:
  "send_if en m p =
     (if ph_allocs p \<noteq> [] \<and> \<not> hd (ph_allocs p) then (- ENOMEM, p\<lparr>ph_allocs := tl (ph_allocs p)\<rparr>)
      else let q = p\<lparr>ph_allocs := tl (ph_allocs p)\<rparr>; r = q\<lparr>ph_replies := tl (ph_replies p)\<rparr> in
        if \<not> en then (0, q)
        else case (if ph_replies p = [] then Confirmed else hd (ph_replies p)) of
          BusDown \<Rightarrow> (0, r)
        | QueueCrashed \<Rightarrow> (- EPIPE, r\<lparr>ph_live := ph_live p + 1\<rparr>)
        | QueueFull \<Rightarrow> (- ENOMEM, r\<lparr>ph_live := ph_live p + 1\<rparr>)
        | NoConfirmation \<Rightarrow> (- ETIMEDOUT, r\<lparr>ph_sent := ph_sent p @ [m]\<rparr>)
        | Confirmed \<Rightarrow> (0, r\<lparr>ph_sent := ph_sent p @ [m]\<rparr>))"
  by (cases "ph_allocs p"; cases "ph_replies p")
    (auto simp: send_if_def msg_zalloc_def msg_free_def send_power_msg_def Let_def split: send_outcome.split bool.split)

lemma send_if_step:
  assumes "\<And>p q. same_setup p q \<Longrightarrow> en q = en p \<and> m q = m p"
  shows "request_step (\<lambda>p. send_if (en p) (m p) p) (\<lambda>p. if en p then [m p] else [])"
proof
  fix p
  let ?r = "send_if (en p) (m p) p" and ?ms = "if en p then [m p] else []"
  show "\<exists>ms. ph_sent (snd ?r) = ph_sent p @ ms \<and> subseq ms ?ms \<and> (stays_up p \<longrightarrow> prefix ms ?ms \<and> (fst ?r = 0 \<longrightarrow> ms = ?ms))"
    by (intro exI [of _ "drop (length (ph_sent p)) (ph_sent (snd ?r))"])
      (cases "ph_replies p"; auto simp: send_if_unfold stays_up_def Let_def split: send_outcome.split)
  show "ph_live p \<le> ph_live (snd ?r) \<and> ph_live (snd ?r) \<le> ph_live p + 1 \<and> (fst ?r = 0 \<or> never_refused p \<longrightarrow> ph_live (snd ?r) = ph_live p)"
    by (cases "ph_replies p") (auto simp: send_if_unfold never_refused_def Let_def split: send_outcome.split)
  show "(stays_up p \<longrightarrow> stays_up (snd ?r)) \<and> (never_refused p \<longrightarrow> never_refused (snd ?r))"
    by (cases "ph_replies p") (auto simp: send_if_unfold stays_up_def never_refused_def Let_def split: send_outcome.split)
  show "same_setup p (snd ?r)"
    by (simp add: send_if_unfold same_setup_def Let_def split: send_outcome.split)
  show "all_well p \<Longrightarrow> fst ?r = 0 \<and> all_well (snd ?r)"
    by (cases "ph_allocs p"; cases "ph_replies p") (simp_all add: send_if_unfold all_well_def Let_def)
next
  fix p q
  assume "same_setup p q"
  then show "(if en q then [m q] else []) = (if en p then [m p] else [])" using assms by simp
qed

abbreviation (input) v3_reqs :: "power_hw \<Rightarrow> power_msg list" where
  "v3_reqs p \<equiv> if v3_enable (v3_loss (uc_loss (ph_conf p)) (uc_lvl_v3 (ph_conf p))) \<noteq> 0
     then [TxpwrLvlV3 (v3_loss (uc_loss (ph_conf p)) (uc_lvl_v3 (ph_conf p)))] else []"

abbreviation (input) v4_reqs :: "power_hw \<Rightarrow> power_msg list" where
  "v4_reqs p \<equiv> if v4_enable (v4_loss (uc_loss (ph_conf p)) (uc_lvl_v4 (ph_conf p))) \<noteq> 0
     then [TxpwrLvlV4 (v4_loss (uc_loss (ph_conf p)) (uc_lvl_v4 (ph_conf p)))] else []"

abbreviation (input) adj_reqs :: "power_hw \<Rightarrow> power_msg list" where
  "adj_reqs p \<equiv> if adj_enable (uc_lvl_adj (ph_conf p)) \<noteq> 0 then [TxpwrLvlAdj (uc_lvl_adj (ph_conf p))] else []"

definition ofst2x_reqs :: "power_hw \<Rightarrow> power_msg list" where
  "ofst2x_reqs p =
     (if ph_chip p \<in> {AIC8800D81, AIC8800D81X2, AIC8800D89X2} \<and> ox_enable (uc_ofst2x (ph_conf p)) \<noteq> 0 then [TxpwrOfst2x (uc_ofst2x (ph_conf p))] else [])"

abbreviation (input) ofst2x_v2_reqs :: "power_hw \<Rightarrow> power_msg list" where
  "ofst2x_v2_reqs p \<equiv> if oy_enable (uc_ofst2x_v2 (ph_conf p)) \<noteq> 0 then [TxpwrOfst2xV2 (uc_ofst2x_v2 (ph_conf p))] else []"

abbreviation (input) calib_reqs :: "power_hw \<Rightarrow> power_msg list" where
  "calib_reqs p \<equiv> if True then [rf_calib_msg (ph_chip p) (ph_conf p)] else []"

interpretation lvl_v3: request_step rwnx_send_txpwr_lvl_v3_req v3_reqs
  unfolding rwnx_send_txpwr_lvl_v3_req_def [abs_def] Let_def by (rule send_if_step) (simp add: same_setup_def)

interpretation lvl_v4: request_step rwnx_send_txpwr_lvl_v4_req v4_reqs
  unfolding rwnx_send_txpwr_lvl_v4_req_def [abs_def] Let_def by (rule send_if_step) (simp add: same_setup_def)

interpretation lvl_adj: request_step rwnx_send_txpwr_lvl_adj_req adj_reqs
  unfolding rwnx_send_txpwr_lvl_adj_req_def [abs_def] by (rule send_if_step) (simp add: same_setup_def)

lemma send_if_disabled: "send_if False m p = send_if False m' p"
  by (simp add: send_if_def split: prod.split bool.split)

lemma ofst2x_req_step: "request_step rwnx_send_txpwr_ofst2x_req ofst2x_reqs"
proof -
  have eq: "rwnx_send_txpwr_ofst2x_req =
      (\<lambda>p. send_if (ph_chip p \<in> {AIC8800D81, AIC8800D81X2, AIC8800D89X2} \<and> ox_enable (uc_ofst2x (ph_conf p)) \<noteq> 0) (TxpwrOfst2x (uc_ofst2x (ph_conf p))) p)"
    by (rule ext) (auto simp: rwnx_send_txpwr_ofst2x_req_def Let_def intro: send_if_disabled)
  show ?thesis unfolding eq ofst2x_reqs_def [abs_def] by (rule send_if_step) (simp add: same_setup_def)
qed

interpretation ofst2x: request_step rwnx_send_txpwr_ofst2x_req ofst2x_reqs
  by (rule ofst2x_req_step)

interpretation ofst2x_v2: request_step rwnx_send_txpwr_ofst2x_v2_req ofst2x_v2_reqs
  unfolding rwnx_send_txpwr_ofst2x_v2_req_def [abs_def] by (rule send_if_step) (simp add: same_setup_def)

interpretation rf_calib: request_step rwnx_send_rf_calib_req calib_reqs
  unfolding rwnx_send_rf_calib_req_def [abs_def] by (rule send_if_step) (simp add: same_setup_def)

interpretation rf_done: request_step "Pair 0" "\<lambda>p. []"
  by unfold_locales (simp_all add: same_setup_def)

interpretation tail: request_pair rwnx_send_rf_calib_req calib_reqs "Pair 0" "\<lambda>p. []" ..

interpretation d80_ofst: request_pair rwnx_send_txpwr_ofst2x_req ofst2x_reqs "chain rwnx_send_rf_calib_req (Pair 0)" "\<lambda>p. calib_reqs p @ []" ..

interpretation d80_adj: request_pair rwnx_send_txpwr_lvl_adj_req adj_reqs
  "chain rwnx_send_txpwr_ofst2x_req (chain rwnx_send_rf_calib_req (Pair 0))" "\<lambda>p. ofst2x_reqs p @ calib_reqs p @ []" ..

interpretation d80_rf: request_pair rwnx_send_txpwr_lvl_v3_req v3_reqs
  "chain rwnx_send_txpwr_lvl_adj_req (chain rwnx_send_txpwr_ofst2x_req (chain rwnx_send_rf_calib_req (Pair 0)))"
  "\<lambda>p. adj_reqs p @ ofst2x_reqs p @ calib_reqs p @ []" ..

interpretation d80x2_ofst: request_pair rwnx_send_txpwr_ofst2x_v2_req ofst2x_v2_reqs "chain rwnx_send_rf_calib_req (Pair 0)" "\<lambda>p. calib_reqs p @ []" ..

interpretation d80x2_adj: request_pair rwnx_send_txpwr_lvl_adj_req adj_reqs
  "chain rwnx_send_txpwr_ofst2x_v2_req (chain rwnx_send_rf_calib_req (Pair 0))" "\<lambda>p. ofst2x_v2_reqs p @ calib_reqs p @ []" ..

interpretation d80x2_rf: request_pair rwnx_send_txpwr_lvl_v4_req v4_reqs
  "chain rwnx_send_txpwr_lvl_adj_req (chain rwnx_send_txpwr_ofst2x_v2_req (chain rwnx_send_rf_calib_req (Pair 0)))"
  "\<lambda>p. adj_reqs p @ ofst2x_v2_reqs p @ calib_reqs p @ []" ..

text \<open>The requests of the set-up, in their order.\<close>

definition rf_requests_8800d80 :: "power_hw \<Rightarrow> power_msg list" where
  "rf_requests_8800d80 p =
     (let u = ph_conf p; c = v3_loss (uc_loss u) (uc_lvl_v3 u) in
      (if v3_enable c \<noteq> 0 then [TxpwrLvlV3 c] else []) @
      (if adj_enable (uc_lvl_adj u) \<noteq> 0 then [TxpwrLvlAdj (uc_lvl_adj u)] else []) @
      (if ph_chip p \<in> {AIC8800D81, AIC8800D81X2, AIC8800D89X2} \<and> ox_enable (uc_ofst2x u) \<noteq> 0 then [TxpwrOfst2x (uc_ofst2x u)] else []) @
      [rf_calib_msg (ph_chip p) u])"

definition rf_requests_8800d80x2 :: "power_hw \<Rightarrow> power_msg list" where
  "rf_requests_8800d80x2 p =
     (let u = ph_conf p; c = v4_loss (uc_loss u) (uc_lvl_v4 u) in
      (if v4_enable c \<noteq> 0 then [TxpwrLvlV4 c] else []) @
      (if adj_enable (uc_lvl_adj u) \<noteq> 0 then [TxpwrLvlAdj (uc_lvl_adj u)] else []) @
      (if oy_enable (uc_ofst2x_v2 u) \<noteq> 0 then [TxpwrOfst2xV2 (uc_ofst2x_v2 u)] else []) @
      [rf_calib_msg (ph_chip p) u])"

lemma rf_d80_step: "request_step aicwf_set_rf_config_8800d80 rf_requests_8800d80"
proof -
  have "rf_requests_8800d80 = (\<lambda>p. v3_reqs p @ adj_reqs p @ ofst2x_reqs p @ calib_reqs p @ [])"
    by (rule ext) (simp add: rf_requests_8800d80_def ofst2x_reqs_def Let_def)
  then show ?thesis unfolding aicwf_set_rf_config_8800d80_def using d80_rf.pair.request_step_axioms by simp
qed

lemma rf_d80x2_step: "request_step aicwf_set_rf_config_8800d80x2 rf_requests_8800d80x2"
proof -
  have "rf_requests_8800d80x2 = (\<lambda>p. v4_reqs p @ adj_reqs p @ ofst2x_v2_reqs p @ calib_reqs p @ [])"
    by (rule ext) (simp add: rf_requests_8800d80x2_def Let_def)
  then show ?thesis unfolding aicwf_set_rf_config_8800d80x2_def using d80x2_rf.pair.request_step_axioms by simp
qed

interpretation rf_d80: request_step aicwf_set_rf_config_8800d80 rf_requests_8800d80
  by (rule rf_d80_step)

interpretation rf_d80x2: request_step aicwf_set_rf_config_8800d80x2 rf_requests_8800d80x2
  by (rule rf_d80x2_step)

text \<open>
  C37: Setting up the radio, for the chips D80 and D80X2. Whatever allocations, refusals of the command queue, missing confirmations and device failures happen, the
  requests that the command queue takes are some of the enabled ones in their order, power levels with the loss taken off first and the calibration last. As long
  as the device is not down at any of the calls they are a prefix of the enabled ones, and the result is 0 only when all were taken; with the device down
  \<open>rwnx_send_msg\<close> frees a message and returns 0, so that this fails. Every message is taken by the queue or freed, except the last one when the queue
  refuses it: at most one is left behind, and none when the result is 0 or nothing is refused. When nothing fails the result is 0.
\<close>

theorem rf_config_sends_in_order:
  "(\<exists>ms. ph_sent (snd (aicwf_set_rf_config_8800d80 p)) = ph_sent p @ ms \<and> subseq ms (rf_requests_8800d80 p) \<and>
      (stays_up p \<longrightarrow> prefix ms (rf_requests_8800d80 p) \<and> (fst (aicwf_set_rf_config_8800d80 p) = 0 \<longrightarrow> ms = rf_requests_8800d80 p))) \<and>
   ph_live p \<le> ph_live (snd (aicwf_set_rf_config_8800d80 p)) \<and> ph_live (snd (aicwf_set_rf_config_8800d80 p)) \<le> ph_live p + 1 \<and>
   (fst (aicwf_set_rf_config_8800d80 p) = 0 \<or> never_refused p \<longrightarrow> ph_live (snd (aicwf_set_rf_config_8800d80 p)) = ph_live p) \<and>
   (all_well p \<longrightarrow> fst (aicwf_set_rf_config_8800d80 p) = 0) \<and>
   (\<exists>ms. ph_sent (snd (aicwf_set_rf_config_8800d80x2 p)) = ph_sent p @ ms \<and> subseq ms (rf_requests_8800d80x2 p) \<and>
      (stays_up p \<longrightarrow> prefix ms (rf_requests_8800d80x2 p) \<and> (fst (aicwf_set_rf_config_8800d80x2 p) = 0 \<longrightarrow> ms = rf_requests_8800d80x2 p))) \<and>
   ph_live p \<le> ph_live (snd (aicwf_set_rf_config_8800d80x2 p)) \<and> ph_live (snd (aicwf_set_rf_config_8800d80x2 p)) \<le> ph_live p + 1 \<and>
   (fst (aicwf_set_rf_config_8800d80x2 p) = 0 \<or> never_refused p \<longrightarrow> ph_live (snd (aicwf_set_rf_config_8800d80x2 p)) = ph_live p) \<and>
   (all_well p \<longrightarrow> fst (aicwf_set_rf_config_8800d80x2 p) = 0)"
  using rf_d80.sends_some [of p] rf_d80x2.sends_some [of p] rf_d80.leaks_one [of p] rf_d80x2.leaks_one [of p] rf_d80.succeeds [of p] rf_d80x2.succeeds [of p]
  by blast

definition fresh_power :: "power_chip \<Rightarrow> power_hw" where
  "fresh_power c = \<lparr>ph_chip = c, ph_testmode = 0, ph_chip_sub_id = 1, ph_conf = userconfig_default, ph_idx_conf = lvl_default, ph_ofst_conf = ofst_zero,
     ph_allocs = [], ph_replies = [], ph_sent = [], ph_live = 0\<rparr>"

theorem rf_config_sends_in_order_witness:
  "fst (aicwf_set_rf_config_8800d80 (fresh_power AIC8800D81)) = 0 \<and> ph_live (snd (aicwf_set_rf_config_8800d80 (fresh_power AIC8800D81))) = 0 \<and>
   ph_sent (snd (aicwf_set_rf_config_8800d80 (fresh_power AIC8800D81))) =
     [TxpwrLvlV3 v3_default, rf_calib_msg AIC8800D81 userconfig_default]"
proof -
  let ?p = "fresh_power AIC8800D81"
  have p: "all_well ?p" "stays_up ?p" "ph_sent ?p = []" "ph_live ?p = 0" by (simp_all add: fresh_power_def all_well_def stays_up_def)
  have r: "rf_requests_8800d80 ?p = [TxpwrLvlV3 v3_default, rf_calib_msg AIC8800D81 userconfig_default]" by code_simp
  note t = rf_config_sends_in_order [of ?p, unfolded r p(3,4)]
  have z: "fst (aicwf_set_rf_config_8800d80 ?p) = 0" using t p(1) by blast
  moreover have "ph_live (snd (aicwf_set_rf_config_8800d80 ?p)) = 0" using t z by blast
  moreover obtain ms where "ph_sent (snd (aicwf_set_rf_config_8800d80 ?p)) = [] @ ms" "ms = [TxpwrLvlV3 v3_default, rf_calib_msg AIC8800D81 userconfig_default]"
    using t z p(2) by blast
  ultimately show ?thesis by simp
qed

text \<open>
  The two exceptions happen. A refused message is neither sent nor freed; and with the device down all calls succeed, so that the set-up reports
  success although nothing was sent.
\<close>

lemma power_msg_refused_leaks:
  assumes "list_all id (ph_allocs p)" "ph_replies p = out # outs" "out \<in> {QueueCrashed, QueueFull}"
  shows "fst (send_if True m p) < 0 \<and> ph_sent (snd (send_if True m p)) = ph_sent p \<and> ph_live (snd (send_if True m p)) = ph_live p + 1"
  using assms by (cases "ph_allocs p") (auto simp: send_if_unfold Let_def)

lemma rf_config_bus_down:
  "let r = aicwf_set_rf_config_8800d80 ((fresh_power AIC8800D81)\<lparr>ph_replies := replicate 4 BusDown\<rparr>) in
   fst r = 0 \<and> ph_sent (snd r) = [] \<and> ph_live (snd r) = 0"
  by code_simp

section \<open>From the file to the firmware\<close>

lemma sub_loss_Suc: "sub_loss l (Suc n) xs = (sub_loss l n xs)[n := sub_loss l n xs ! n - l]"
  by (simp add: sub_loss_def)

lemma sub_loss_elems: "length (sub_loss l n xs) = length xs \<and> (\<forall>i < length xs. sub_loss l n xs ! i = (if i < n then xs ! i - l else xs ! i))"
proof (induction n)
  case (Suc n)
  then show ?case by (auto simp: sub_loss_Suc nth_list_update less_Suc_eq)
qed (simp add: sub_loss_def)

lemma sub_loss_length [simp]: "length (sub_loss l n xs) = length xs"
  using sub_loss_elems by blast

lemma sub_loss_nth [simp]: "\<lbrakk>i < n; i < length xs\<rbrakk> \<Longrightarrow> sub_loss l n xs ! i = xs ! i - l"
  using sub_loss_elems [of l n xs] by auto

text \<open>The loss that the configuration \<open>val\<close> takes off an entry: that of its band, if it is enabled.\<close>

fun v3_entry_loss :: "(entry \<Rightarrow> u8) \<Rightarrow> v3_entry \<Rightarrow> u8" where
  "v3_entry_loss val LvlV3_enable = 0"
| "v3_entry_loss val (LvlV3_11b_11ag_2g4 i) = (if val (Loss Loss_enable_2g4) = 1 then val (Loss Loss_value_2g4) else 0)"
| "v3_entry_loss val (LvlV3_11n_11ac_2g4 i) = (if val (Loss Loss_enable_2g4) = 1 then val (Loss Loss_value_2g4) else 0)"
| "v3_entry_loss val (LvlV3_11ax_2g4 i) = (if val (Loss Loss_enable_2g4) = 1 then val (Loss Loss_value_2g4) else 0)"
| "v3_entry_loss val (LvlV3_11a_5g i) = (if val (Loss Loss_enable_5g) = 1 then val (Loss Loss_value_5g) else 0)"
| "v3_entry_loss val (LvlV3_11n_11ac_5g i) = (if val (Loss Loss_enable_5g) = 1 then val (Loss Loss_value_5g) else 0)"
| "v3_entry_loss val (LvlV3_11ax_5g i) = (if val (Loss Loss_enable_5g) = 1 then val (Loss Loss_value_5g) else 0)"

lemma v3_loss_get:
  assumes "v3_ok e v3_default" "v3_ok e (uc_lvl_v3 u)"
  shows "v3_get e (v3_loss (uc_loss u) (uc_lvl_v3 u)) = cfg_get (LvlV3 e) u - v3_entry_loss (\<lambda>e. cfg_get e u) e"
  using assms by (cases e) (simp_all add: v3_loss_def v3_default_def Let_def)

text \<open>What a file of settings makes of an entry of the default configuration.\<close>

definition configured :: "(string \<times> int) list \<Rightarrow> entry \<Rightarrow> u8" where
  "configured ss e = (case last_value nvram_table ss e of None \<Rightarrow> cfg_get e userconfig_default | Some v \<Rightarrow> v)"

lemma load_is_parsing:
  "rwnx_plat_userconfig_load_8800d80 (Some s) p = map_sum id (\<lambda>u. p\<lparr>ph_conf := u\<rparr>) (rwnx_plat_userconfig_parsing s (ph_conf p))"
  by (simp add: rwnx_plat_userconfig_load_8800d80_def rwnx_plat_userconfig_parsing_def)

text \<open>
  C35: From the file to the firmware, for the load and the set-up of the D80 chips (\<open>rwnx_plat_userconfig_load_8800d80\<close>, \<open>aicwf_set_rf_config_8800d80\<close>). When the
  configuration still has its initial values, a file of settings of the driver (names of its table, numbers that print in less than 100 characters) leaves the
  levels enabled, and no allocation fails and the command queue takes and confirms every message, loading the file and setting up the radio succeeds and sends, as
  the first request, the power levels of the file, each less the loss the file gives for its band, in eight bits; entries the file does not name keep their defaults.
\<close>

theorem config_reaches_firmware:
  "\<lbrakk>\<forall>s\<in>set ss. setting_ok nvram_table s; ph_conf p = userconfig_default; all_well p; configured ss (LvlV3 LvlV3_enable) \<noteq> 0\<rbrakk> \<Longrightarrow>
   \<exists>p1 c reqs. rwnx_plat_userconfig_load_8800d80 (Some (print_config ss)) p = Inr p1 \<and>
     fst (aicwf_set_rf_config_8800d80 p1) = 0 \<and> ph_sent (snd (aicwf_set_rf_config_8800d80 p1)) = ph_sent p @ TxpwrLvlV3 c # reqs \<and>
     (\<forall>e. v3_ok e v3_default \<longrightarrow> v3_get e c = configured ss (LvlV3 e) - v3_entry_loss (configured ss) e)"
proof -
  assume ss: "\<forall>s\<in>set ss. setting_ok nvram_table s" and p: "ph_conf p = userconfig_default" "all_well p" and en: "configured ss (LvlV3 LvlV3_enable) \<noteq> 0"
  obtain u where u: "rwnx_plat_userconfig_parsing (print_config ss) userconfig_default = Inr u"
      "\<And>e. cfg_ok e userconfig_default \<Longrightarrow> cfg_get e u = configured ss e" "\<And>e. cfg_ok e u \<longleftrightarrow> cfg_ok e userconfig_default"
    using parse_printed [OF ss, of userconfig_default] unfolding configured_def by metis
  let ?p1 = "p\<lparr>ph_conf := u\<rparr>" and ?c = "v3_loss (uc_loss u) (uc_lvl_v3 u)"
  have dflt: "uc_lvl_v3 userconfig_default = v3_default" by (simp add: userconfig_default_def)
  have loss: "v3_entry_loss (\<lambda>e. cfg_get e u) e = v3_entry_loss (configured ss) e" for e 
    using u(2) [of "Loss Loss_enable_2g4"] u(2) [of "Loss Loss_value_2g4"] u(2) [of "Loss Loss_enable_5g"] u(2) [of "Loss Loss_value_5g"] by (cases e) simp_all
  have lv: "v3_get e ?c = configured ss (LvlV3 e) - v3_entry_loss (configured ss) e" if e: "v3_ok e v3_default" for e
    using v3_loss_get [OF e, of u] u(2,3) [of "LvlV3 e"] e by (simp add: dflt loss)
  then have "v3_enable ?c \<noteq> 0" using en lv [of LvlV3_enable] by simp
  then have "rf_requests_8800d80 ?p1 = TxpwrLvlV3 ?c # tl (rf_requests_8800d80 ?p1)" by (simp add: rf_requests_8800d80_def Let_def)
  moreover have "all_well ?p1" using p by (simp add: all_well_def)
  ultimately have "fst (aicwf_set_rf_config_8800d80 ?p1) = 0"
      "ph_sent (snd (aicwf_set_rf_config_8800d80 ?p1)) = ph_sent p @ TxpwrLvlV3 ?c # tl (rf_requests_8800d80 ?p1)"
    using rf_d80.sends_all [of ?p1] rf_d80.succeeds [of ?p1] by simp_all
  moreover have "rwnx_plat_userconfig_load_8800d80 (Some (print_config ss)) p = Inr ?p1" using u(1) p by (simp add: load_is_parsing)
  ultimately show ?thesis using lv by blast
qed

theorem config_reaches_firmware_witness:
  "\<exists>p1 c reqs. rwnx_plat_userconfig_load_8800d80
       (Some (print_config [(''lvl_11ax_mcs11_5g'', 12), (''loss_enable_5g'', 1), (''loss_value_5g'', 3)])) (fresh_power AIC8800D81) = Inr p1 \<and>
     ph_sent (snd (aicwf_set_rf_config_8800d80 p1)) = TxpwrLvlV3 c # reqs \<and> v3_get (LvlV3_11ax_5g 11) c = 9 \<and> v3_get (LvlV3_11ax_2g4 11) c = 15"
proof -
  let ?ss = "[(''lvl_11ax_mcs11_5g'', 12), (''loss_enable_5g'', 1), (''loss_value_5g'', 3)] :: (string \<times> int) list"
  let ?p = "fresh_power AIC8800D81"
  have m: "map_of nvram_table ''lvl_11ax_mcs11_5g'' = Some [LvlV3 (LvlV3_11ax_5g 11)]" "map_of nvram_table ''loss_enable_5g'' = Some [Loss Loss_enable_5g]"
    "map_of nvram_table ''loss_value_5g'' = Some [Loss Loss_value_5g]" by code_simp+
  have len: "length (print_int 12) < 100" "length (print_int 1) < 100" "length (print_int 3) < 100" by code_simp+
  have "c \<in> fst ` set nvram_table" if "map_of nvram_table c = Some es" for c es using map_of_SomeD [OF that] by force
  then have ss: "\<forall>s\<in>set ?ss. setting_ok nvram_table s" using m len by (simp add: setting_ok_def)
  have p: "ph_conf ?p = userconfig_default" "all_well ?p" "ph_sent ?p = []" by (simp_all add: fresh_power_def all_well_def)
  have en: "configured ?ss (LvlV3 LvlV3_enable) \<noteq> 0"
    by (simp add: configured_def last_value_def m userconfig_default_def v3_default_def)
  have e: "v3_ok (LvlV3_11ax_5g 11) v3_default" "v3_ok (LvlV3_11ax_2g4 11) v3_default" by (simp_all add: v3_default_def)
  have v: "configured ?ss (LvlV3 (LvlV3_11ax_5g 11)) - v3_entry_loss (configured ?ss) (LvlV3_11ax_5g 11) = 9"
    "configured ?ss (LvlV3 (LvlV3_11ax_2g4 11)) - v3_entry_loss (configured ?ss) (LvlV3_11ax_2g4 11) = 15"
    by (simp_all add: configured_def last_value_def m userconfig_default_def v3_default_def loss_default_def)
  obtain p1 c reqs where load: "rwnx_plat_userconfig_load_8800d80 (Some (print_config ?ss)) ?p = Inr p1"
      and sent: "ph_sent (snd (aicwf_set_rf_config_8800d80 p1)) = ph_sent ?p @ TxpwrLvlV3 c # reqs"
      and lv: "\<forall>e. v3_ok e v3_default \<longrightarrow> v3_get e c = configured ?ss (LvlV3 e) - v3_entry_loss (configured ?ss) e"
    using config_reaches_firmware [OF ss p(1,2) en] by blast
  have "v3_get (LvlV3_11ax_5g 11) c = 9" "v3_get (LvlV3_11ax_2g4 11) c = 15"
    using lv [rule_format, OF e(1)] lv [rule_format, OF e(2)] v by (simp_all only:)
  then show ?thesis using load sent unfolding p(3) append_Nil by blast
qed

section \<open>Power control by signal strength\<close>

interpretation sta_info: request_step "send_if True (GetStaInfo k)" "\<lambda>p. if True then [GetStaInfo k] else []" for k
  by (rule send_if_step) simp

lemma set_loss_conf [simp]:
  "uc_loss (set_txpwr_loss_ofst v u) = \<lparr>loss_enable_2g4 = 1, loss_value_2g4 = - v, loss_enable_5g = 1, loss_value_5g = - v\<rparr>"
  "uc_lvl_v3 (set_txpwr_loss_ofst v u) = uc_lvl_v3 u"
  by (simp_all add: set_txpwr_loss_ofst_def)

lemma v3_loss_enable [simp]: "v3_enable (v3_loss l c) = v3_enable c"
  by (simp add: v3_loss_def Let_def)

lemma ctrl_sends_levels:
  assumes "ph_chip p = AIC8800D81" "v3_enable (uc_lvl_v3 (ph_conf p)) \<noteq> 0" "all_well p"
  shows "ph_sent (set_txpwrloss_ctrl v p) = ph_sent p @
     [TxpwrLvlV3 (v3_loss \<lparr>loss_enable_2g4 = 1, loss_value_2g4 = - word_of_int v, loss_enable_5g = 1, loss_value_5g = - word_of_int v\<rparr> (uc_lvl_v3 (ph_conf p)))]"
  using assms lvl_v3.sends_all [of "p\<lparr>ph_conf := set_txpwr_loss_ofst (word_of_int v) (ph_conf p)\<rparr>"]
  by (simp add: set_txpwrloss_ctrl_def Let_def all_well_def)

lemma send_if_conf: "ph_conf (snd (send_if en m p)) = ph_conf p"
  by (simp add: send_if_unfold Let_def split: send_outcome.split)

lemma ctrl_conf: "ph_conf (set_txpwrloss_ctrl v p) = set_txpwr_loss_ofst (word_of_int v) (ph_conf p)"
  by (cases "ph_chip p")
    (simp_all add: set_txpwrloss_ctrl_def rwnx_send_txpwr_lvl_req_def rwnx_send_txpwr_lvl_v3_req_def rwnx_send_txpwr_lvl_v4_req_def send_if_conf Let_def)

lemma v3_loss_both:
  "\<lbrakk>v3_ok e v3_default; v3_ok e c; e \<noteq> LvlV3_enable\<rbrakk> \<Longrightarrow>
   v3_get e (v3_loss \<lparr>loss_enable_2g4 = 1, loss_value_2g4 = - v, loss_enable_5g = 1, loss_value_5g = - v\<rparr> c) = v3_get e c + v"
  by (cases e) (simp_all add: v3_loss_def v3_default_def Let_def)

text \<open>
  C38: Power control follows the signal, on the chip AIC8800D81. When the control is on (\<open>dynamic_pwr\<close>), the station is connected, the power levels are enabled in
  the configuration, no allocation or request fails, and the signal strength of the station calls for another level than the current one, a run of the worker records the new
  level, sends every power level of both bands changed by exactly that level, in eight bits, and sets the timer again. (On the AIC8801 nothing is sent, on the
  AIC8800DC and DW only the levels of 2.4 GHz; after a failed request the timer is not set again, lemma \<open>pwrloss_worker_stops\<close>.)
\<close>

theorem pwrloss_follows_signal:
  "\<lbrakk>pl_dynamic_pwr w; all_well (pl_hw w); ph_chip (pl_hw w) = AIC8800D81; v3_enable (uc_lvl_v3 (ph_conf (pl_hw w))) \<noteq> 0;
    pl_lvl w \<noteq> loss_level (sint rssi)\<rbrakk> \<Longrightarrow>
   pl_lvl (aicwf_pwrloss_worker CONNECTED rssi w) = loss_level (sint rssi) \<and> pl_timer (aicwf_pwrloss_worker CONNECTED rssi w) \<and>
   (\<exists>c. ph_sent (pl_hw (aicwf_pwrloss_worker CONNECTED rssi w)) = ph_sent (pl_hw w) @ [GetStaInfo (pl_sta_idx w), TxpwrLvlV3 c] \<and>
      (\<forall>e. v3_ok e v3_default \<and> v3_ok e (uc_lvl_v3 (ph_conf (pl_hw w))) \<and> e \<noteq> LvlV3_enable \<longrightarrow>
         v3_get e c = v3_get e (uc_lvl_v3 (ph_conf (pl_hw w))) + word_of_int (loss_level (sint rssi))))"
proof -
  assume w: "pl_dynamic_pwr w" "all_well (pl_hw w)" "ph_chip (pl_hw w) = AIC8800D81" "v3_enable (uc_lvl_v3 (ph_conf (pl_hw w))) \<noteq> 0"
    and new: "pl_lvl w \<noteq> loss_level (sint rssi)"
  let ?l = "loss_level (sint rssi)"
  obtain p where p: "send_if True (GetStaInfo (pl_sta_idx w)) (pl_hw w) = (0, p)" "ph_sent p = ph_sent (pl_hw w) @ [GetStaInfo (pl_sta_idx w)]"
    using sta_info.sends_all [OF w(2), of "pl_sta_idx w"] by (metis (full_types))
  have kept: "same_setup (pl_hw w) p" "all_well p"
    using sta_info.keeps_setup [of "pl_hw w" "pl_sta_idx w"] sta_info.succeeds [OF w(2), of "pl_sta_idx w"] p(1) by simp_all
  let ?c = "v3_loss \<lparr>loss_enable_2g4 = 1, loss_value_2g4 = - word_of_int ?l, loss_enable_5g = 1, loss_value_5g = - word_of_int ?l\<rparr> (uc_lvl_v3 (ph_conf (pl_hw w)))"
  have run: "aicwf_pwrloss_worker CONNECTED rssi w = w\<lparr>pl_hw := set_txpwrloss_ctrl ?l p, pl_lvl := ?l, pl_timer := True\<rparr>"
    using w(1) new p(1) by (simp add: aicwf_pwrloss_worker_def set_level_def Let_def)
  have "ph_sent (set_txpwrloss_ctrl ?l p) = ph_sent (pl_hw w) @ [GetStaInfo (pl_sta_idx w), TxpwrLvlV3 ?c]"
    using ctrl_sends_levels [of p ?l] kept w p(2) by (simp add: same_setup_def)
  then show ?thesis unfolding run using v3_loss_both by auto
qed

theorem pwrloss_follows_signal_witness:
  "\<exists>w c. \<not> pl_timer w \<and> pl_lvl w = 0 \<and> pl_lvl (aicwf_pwrloss_worker CONNECTED 0xF0 w) = - 10 \<and>
     ph_sent (pl_hw (aicwf_pwrloss_worker CONNECTED 0xF0 w)) = [GetStaInfo 2, TxpwrLvlV3 c] \<and> v3_get (LvlV3_11ax_5g 11) c = 4"
proof -
  let ?w = "\<lparr>pl_hw = fresh_power AIC8800D81, pl_dynamic_pwr = True, pl_lvl = 0, pl_sta_idx = 2, pl_timer = False\<rparr>"
  have l: "loss_level (sint (0xF0 :: u8)) = - 10" by (simp add: loss_level_def)
  have p: "all_well (pl_hw ?w)" "ph_chip (pl_hw ?w) = AIC8800D81" "uc_lvl_v3 (ph_conf (pl_hw ?w)) = v3_default" "v3_enable (uc_lvl_v3 (ph_conf (pl_hw ?w))) \<noteq> 0" "ph_sent (pl_hw ?w) = []"
    by (simp_all add: fresh_power_def all_well_def userconfig_default_def v3_default_def)
  have e: "v3_ok (LvlV3_11ax_5g 11) v3_default" "v3_get (LvlV3_11ax_5g 11) v3_default + word_of_int (- 10) = 4" by (simp_all add: v3_default_def)
  obtain c where c: "pl_lvl (aicwf_pwrloss_worker CONNECTED 0xF0 ?w) = - 10"
      "ph_sent (pl_hw (aicwf_pwrloss_worker CONNECTED 0xF0 ?w)) = [GetStaInfo 2, TxpwrLvlV3 c]"
      "\<forall>e. v3_ok e v3_default \<and> v3_ok e v3_default \<and> e \<noteq> LvlV3_enable \<longrightarrow> v3_get e c = v3_get e v3_default + word_of_int (- 10)"
    using pwrloss_follows_signal [of ?w "0xF0"] p(1,2,4,5) unfolding l p(3) by auto
  have "v3_get (LvlV3_11ax_5g 11) c = 4" using c(3) [rule_format, of "LvlV3_11ax_5g 11"] e by simp
  then show ?thesis using c(1,2) by (intro exI [of _ ?w] exI [of _ c]) simp
qed

text \<open>
  Power control that is switched off and on again stays off. A run of the worker with the control off takes the reduction back in the configuration but
  leaves the recorded level; when the control is on again and the signal calls for that level, nothing is sent and the reduction is not restored.
\<close>

lemma pwrloss_off_and_on:
  "\<lbrakk>pl_lvl w \<noteq> 0; \<not> pl_dynamic_pwr w; all_well (pl_hw (aicwf_pwrloss_worker conn rssi w)); loss_level (sint rssi') = pl_lvl w\<rbrakk> \<Longrightarrow>
   pl_lvl (aicwf_pwrloss_worker CONNECTED rssi' ((aicwf_pwrloss_worker conn rssi w)\<lparr>pl_dynamic_pwr := True\<rparr>)) = pl_lvl w \<and>
   uc_loss (ph_conf (pl_hw (aicwf_pwrloss_worker CONNECTED rssi' ((aicwf_pwrloss_worker conn rssi w)\<lparr>pl_dynamic_pwr := True\<rparr>)))) =
     \<lparr>loss_enable_2g4 = 1, loss_value_2g4 = 0, loss_enable_5g = 1, loss_value_5g = 0\<rparr> \<and>
   ph_sent (pl_hw (aicwf_pwrloss_worker CONNECTED rssi' ((aicwf_pwrloss_worker conn rssi w)\<lparr>pl_dynamic_pwr := True\<rparr>))) =
     ph_sent (pl_hw (aicwf_pwrloss_worker conn rssi w)) @ [GetStaInfo (pl_sta_idx w)]"
proof -
  assume w: "pl_lvl w \<noteq> 0" "\<not> pl_dynamic_pwr w" and well: "all_well (pl_hw (aicwf_pwrloss_worker conn rssi w))" and lv: "loss_level (sint rssi') = pl_lvl w"
  let ?p = "set_txpwrloss_ctrl 0 (pl_hw w)"
  have off: "aicwf_pwrloss_worker conn rssi w = w\<lparr>pl_hw := ?p, pl_timer := True\<rparr>" using w by (simp add: aicwf_pwrloss_worker_def Let_def)
  obtain q where q: "send_if True (GetStaInfo (pl_sta_idx w)) ?p = (0, q)" "ph_sent q = ph_sent ?p @ [GetStaInfo (pl_sta_idx w)]"
    using sta_info.sends_all [of ?p "pl_sta_idx w"] well unfolding off by auto
  have "ph_conf q = ph_conf ?p" using sta_info.keeps_setup [of ?p "pl_sta_idx w"] q(1) by (simp add: same_setup_def)
  moreover have "aicwf_pwrloss_worker CONNECTED rssi' (w\<lparr>pl_hw := ?p, pl_timer := True, pl_dynamic_pwr := True\<rparr>) =
      w\<lparr>pl_hw := q, pl_timer := True, pl_dynamic_pwr := True\<rparr>"
    using q(1) lv by (simp add: aicwf_pwrloss_worker_def set_level_def Let_def)
  moreover have "uc_loss (ph_conf ?p) = \<lparr>loss_enable_2g4 = 1, loss_value_2g4 = 0, loss_enable_5g = 1, loss_value_5g = 0\<rparr>"
    by (simp add: ctrl_conf)
  ultimately show ?thesis unfolding off using q(2) by simp
qed

lemma pwrloss_off_and_on_example:
  "\<exists>w. pl_lvl w = - 10 \<and>
     (let w' = aicwf_pwrloss_worker CONNECTED 0xF0 ((aicwf_pwrloss_worker CONNECTED 0xF0 w)\<lparr>pl_dynamic_pwr := True\<rparr>) in
      pl_lvl w' = - 10 \<and> loss_value_5g (uc_loss (ph_conf (pl_hw w'))) = 0)"
proof -
  let ?w = "\<lparr>pl_hw = fresh_power AIC8801, pl_dynamic_pwr = False, pl_lvl = - 10, pl_sta_idx = 2, pl_timer = False\<rparr>"
  have l: "loss_level (sint (0xF0 :: u8)) = pl_lvl ?w" by (simp add: loss_level_def)
  have "all_well (pl_hw (aicwf_pwrloss_worker CONNECTED 0xF0 ?w))"
    by (simp add: aicwf_pwrloss_worker_def set_txpwrloss_ctrl_def fresh_power_def all_well_def Let_def)
  then show ?thesis using pwrloss_off_and_on [OF _ _ _ l, of CONNECTED "0xF0"] by (intro exI [of _ ?w]) (simp add: Let_def)
qed

text \<open>A failed request for the signal strength ends the power control: the timer is not set again.\<close>

lemma pwrloss_worker_stops:
  "\<lbrakk>pl_dynamic_pwr w; fst (send_if True (GetStaInfo (pl_sta_idx w)) (pl_hw w)) < 0\<rbrakk> \<Longrightarrow> \<not> pl_timer (aicwf_pwrloss_worker CONNECTED rssi w)"
  by (cases "send_if True (GetStaInfo (pl_sta_idx w)) (pl_hw w)") (simp add: aicwf_pwrloss_worker_def Let_def)

text \<open>
  The initial levels for the rates that do not exist at 5 GHz are \<open>0x80\<close>, the least signed value. A loss makes them the greatest: they wrap around.
\<close>

lemma v3_loss_wraps_unused:
  assumes "i < 4" "loss_enable_5g l = 1" "loss_value_5g l = 1"
  shows "sint (v3_11a_5g v3_default ! i) = - 128 \<and> sint (v3_11a_5g (v3_loss l v3_default) ! i) = 127"
proof -
  have "i = 0 \<or> i = 1 \<or> i = 2 \<or> i = 3" using assms(1) by linarith
  then show ?thesis using assms(2,3) by (auto simp: v3_loss_def v3_default_def Let_def)
qed

end
