(* ===== verification/Spec2Isabelle.thy ===== *)
theory Spec2Isabelle
  imports ReorderWindow RxPool Amsdu CmdQueue TcpAckTable TxSpec Md5 RadarChain RadarBurst RxPump UsbSpec Reassembly PowerSpec
begin

text \<open>
  Verification of the AIC8800 Linux Wi-Fi driver, module aic8800_fdrv (src/drivers/aic8800/aic8800_fdrv), in the configuration
  that its Makefile builds: USB bus, full MAC, receive reordering, TCP acknowledgement filter, radar detection code, five hardware
  queues, one user position, no SDIO, MU-MIMO, A-MSDU transmission, receive preallocation or USB transmit aggregation.

  \<^bold>\<open>The parts of the driver and how they interact.\<close>
  The network stack hands a buffer to the transmit path (rwnx_tx.c), possibly through the acknowledgement filter
  (aicwf_tcp_ack.c). It waits in the queue of its station and TID (rwnx_txq.c) until \<open>rwnx_hwq_process\<close> pushes it; the push enters
  it into the confirmation ring (usb_host.c) when a confirmation is wanted and hands it to the USB bus (\<open>aicwf_frame_tx\<close>,
  \<open>aicwf_usb_bus_txdata\<close> of aicwf_usb.c), where a thread submits it. In the other direction a completed USB request
  puts its transfer into a frame queue (aicwf_txrxif.c) and wakes the receive thread, which takes the transfer apart: data frames go to the
  receive path (rwnx_rx.c: conversion to Ethernet, reassembly of fragments, A-MSDU de-aggregation and block-ack reordering), confirmations to the transmit path, and replies to the command
  manager (rwnx_cmds.c), which serialises the commands to the firmware that rwnx_msg_tx.c builds. Indications of radar pulses go to the
  pattern detectors (rwnx_radar.c). When the chip starts, a configuration file is read (rwnx_platform.c), and its power settings are sent to the firmware
  (rwnx_msg_tx.c, aicwf_compat_8800d80.c), where the power control by signal strength changes them later.

  \<^bold>\<open>Conventions.\<close>
  A C structure is a record, an array a list, a pointer into an array an index, a linked list a list. 8-, 16-, 32- and 64-bit
  integers are words where their width matters. A function that may leave defined behaviour returns \<open>fault + 'a\<close>; effects on the
  rest of the kernel (buffers freed or handed on, reports to cfg80211) are events of a log in the order of the calls. Results that the driver
  does not control (allocation, \<open>usb_submit_urb\<close>, alignment of memory, time) are arguments or functions of a call counter. Code under a
  lock is one step; functions that block are split where they block, and threads are interleaved by step relations.

  \<^bold>\<open>Theories.\<close>

  \<^item> \<open>Prelude\<close>: byte order, faults, interface types, lemmas on lists and words, and two interfaces: the locale \<open>serial_number\<close>
    (wrapping sequence numbers compared by the sign of their difference) and the locale \<open>transition_system\<close> (an invariant kept by the steps).

  \<^item> \<open>RxReorder\<close> (rwnx_rx.c: \<open>reord_*\<close>, \<open>rwnx_rxdata_process_amsdu\<close>). \<open>ReorderWindow\<close>: one arrival refines a window over unbounded sequence
    numbers, a run of arrivals and timeouts delivers in order and without duplicates, a timeout makes progress; \<open>SN_LESS\<close> interprets \<open>serial_number\<close>.
    \<open>RxPool\<close>: frame descriptors are conserved. \<open>Amsdu\<close>: de-aggregation inverts an encoder; when it does not progress.

  \<^item> \<open>DataInd\<close> (rwnx_rx.c: \<open>rwnx_rxdataind_aicwf\<close>, \<open>rwnx_rx_data_skb\<close> and what they call). \<open>Defrag\<close>: the fragment list as a map from sequence number, TID and station, and the
    encoding of a fragmented MSDU. \<open>Reassembly\<close>: the list stays well formed, fragments give back the Ethernet frame whatever arrives between them, and what
    overflow, a stray last fragment and client isolation lead to.

  \<^item> \<open>CmdMgr\<close> (rwnx_cmds.c, command array and \<open>rwnx_send_msg\<close> of rwnx_msg_tx.c) and \<open>CmdQueue\<close>: the invariant of the queue under all
    interleavings, with the device changing its state between any two steps, completion of commands, matching of confirmations, the encoding of a command, and what
    time-outs and a suspend break.

  \<^item> \<open>TcpAck\<close> (aicwf_tcp_ack.c) and \<open>TcpAckTable\<close>: the flow table, conservation of buffers, the latest acknowledgement is kept,
    bounds on what is held back, the option scan. \<open>U32_BEFORE\<close> interprets \<open>serial_number\<close>.

  \<^item> \<open>TxQueue\<close> (rwnx_txq.c, the push and the power save functions of rwnx_tx.c, usb_host.c), \<open>TxSched\<close>, \<open>TxFlow\<close>, \<open>TxPower\<close>, \<open>TxSystem\<close>, \<open>TxSpec\<close>:
    in runs without retries (\<open>tx_can\<close>) the scheduling lists agree with the flags, no \<open>BUG_ON\<close> fires, queues are first-in first-out, every scheduled queue is served
    and service periods are shared as by a greedy reference; confirmations find their buffer; retried buffers go first, in their order, and 64 retries overflow the credits.

  \<^item> \<open>Md5\<close> (md5.c): the streaming hash equals a direct formulation of RFC 1321 for any split of the input.

  \<^item> \<open>Radar\<close>, \<open>RadarDriver\<close> (rwnx_radar.c, \<open>rwnx_radar_detect_ind\<close> of rwnx_msg_rx.c), \<open>RadarSpec\<close>, \<open>RadarChain\<close>, \<open>RadarBurst\<close>: the detectors
    of a chain stay well formed and their pools balanced, the ring of pulses loses nothing while it has room, and regular pulse trains of every pattern in the
    tables are detected at exactly the threshold.

  \<^item> \<open>FrameQueue\<close> (queue of aicwf_txrxif.c): refinement of a sorted list; the locale \<open>fifo_buffer\<close> is what the receive path relies on, interpreted
    on the queue with one priority. \<open>RxFrames\<close>, \<open>RxPump\<close> (\<open>aicwf_process_rxframes\<close>, completion handlers, receive thread): aggregated transfers are taken apart
    completely, no wake-up is lost, and what a failed allocation or a frame that overruns its transfer does.

  \<^item> \<open>UsbBus\<close> (aicwf_usb.c, \<open>aicwf_frame_tx\<close>), \<open>UsbPool\<close>, \<open>UsbSpec\<close>: transmit and receive requests are conserved in every run of the bus, frames are
    freed once, the bytes of a frame can be read back, receive requests are refilled; exactly when the transmit thread frees wrongly, and how refused
    requests stall transmission.

  \<^item> \<open>UserConfig\<close> (\<open>userconfig_info\<close>, \<open>rwnx_plat_nvram_set_value\<close>, \<open>rwnx_plat_userconfig_parsing\<close> and their variants for the chip D80X2, rwnx_platform.c),
    \<open>ConfigStore\<close>, \<open>ConfigSpec\<close>: the configuration is a store of entries (locale \<open>field_store\<close>, interpreted as \<open>config\<close>); the parsers, which call the setter
    through the locale \<open>value_setter\<close> (interpretations \<open>d80\<close> and \<open>d80x2\<close>), agree with a reading line by line, settings survive being written and read, no
    setting writes outside its array, and lines that are too long overrun the arrays of the parser.

  \<^item> \<open>PowerReq\<close> (power and calibration requests of rwnx_msg_tx.c, \<open>aicwf_set_rf_config_8800d80\<close>, \<open>aicwf_pwrloss_worker\<close> of rwnx_main.c) and \<open>PowerSpec\<close>: a function that sends
    requests, whatever fails in between (memory, the device, the command queue, the firmware), is a \<open>request_step\<close>, two in sequence are a \<open>request_pair\<close>, which is a step again; the interpretations \<open>rf_d80\<close> and \<open>rf_d80x2\<close> are the set-up of the
    radio. What a configuration file says reaches the firmware, and the power control follows the signal strength.

  Invariants over runs are interpretations of \<open>transition_system\<close>: \<open>rx_pool\<close>, \<open>frag_list\<close>, \<open>cmd_queue\<close>, \<open>cmd_crash\<close>, \<open>ack_filter\<close>, \<open>tx_queues\<close>, \<open>dfs_chain\<close>, \<open>radar_idle\<close>,
  \<open>rx_pump\<close>, \<open>rx_stuck\<close>, \<open>usb_pool\<close> and \<open>usb_stall\<close>.

  \<^bold>\<open>Bounds and fuel.\<close>
  Loops over lists are structural or have a termination proof. Three loops of the source may run for ever and take fuel, with \<open>None\<close> for exhausted fuel: the loop over an aggregated
  transfer (one unit for each frame and one to see the end are enough, \<open>rx_aggr_delivers\<close>; no amount is enough for a frame that overruns its transfer,
  \<open>rx_aggr_overrun_hangs\<close>), the receive loop around it, and the submission loop of the message endpoint (one unit for each free request and one are enough when
  requests are accepted, \<open>msg_submit_loop_good\<close>; none is when they are refused, \<open>msg_submit_hangs\<close>). The A-MSDU loop is bounded by its memory, as in the source.

  \<^bold>\<open>Not modelled.\<close>
  The cfg80211 callbacks and the life cycle of the module (rwnx_main.c), which translate kernel structures into messages; firmware download, calibration tables
  and power limits by country (rwnx_platform.c, aicwf_compat_8800dc.c, rwnx_cfgfile.c); the other indication handlers of rwnx_msg_rx.c and the other request builders of rwnx_msg_tx.c; the monitor
  path of rwnx_rx.c; probing, descriptor parsing and the message pipe of aicwf_usb.c; debugging, test and vendor interfaces; mesh, TDLS, steering,
  bridging, and the other buses, which are not compiled or outside the data path; the loader module aic_load_fw. Locks are assumed to be held
  where the source takes them; memory ordering between processors is not modelled.
\<close>

end
